(* ===== verification/Prelude.thy ===== *)
theory Prelude
  imports Main "HOL-Library.Word"
begin

text \<open>
  Shared vocabulary of the development: the machine integer types of the Go code, the
  computations that may panic (a state transformer that keeps the state when it fails, as
  Go's \<open>recover\<close> leaves every store made before the panic in place), the rules that carry an
  invariant through such a computation, little-endian byte encodings, and the page
  arithmetic used by the guest memory, the loader and the kernel.
\<close>

unbundle bit_operations_syntax

type_synonym u8 = "8 word"
type_synonym u16 = "16 word"
type_synonym u32 = "32 word"
type_synonym u64 = "64 word"

named_theorems keep_intros \<open>rules that push an invariant through a computation\<close>
named_theorems word_norm \<open>normal forms of masks, shifts and casts\<close>

subsection \<open>Computations that may panic\<close>

text \<open>
  \<open>Inl e\<close> is a Go panic with value \<open>e\<close> (or an early error return); the second component is the
  state at that moment, with everything that was written before still in it.
\<close>

type_synonym ('s, 'e, 'a) comp = "'s \<Rightarrow> ('e + 'a) \<times> 's"

definition ret :: "'a \<Rightarrow> ('s, 'e, 'a) comp" where
  "ret x s = (Inr x, s)"

definition throw :: "'e \<Rightarrow> ('s, 'e, 'a) comp" where
  "throw e s = (Inl e, s)"

definition bnd :: "('s, 'e, 'a) comp \<Rightarrow> ('a \<Rightarrow> ('s, 'e, 'b) comp) \<Rightarrow> ('s, 'e, 'b) comp" where
  "bnd m k s = (case m s of (Inl e, t) \<Rightarrow> (Inl e, t) | (Inr x, t) \<Rightarrow> k x t)"

definition gets :: "('s \<Rightarrow> 'a) \<Rightarrow> ('s, 'e, 'a) comp" where
  "gets f s = (Inr (f s), s)"

definition upd :: "('s \<Rightarrow> 's) \<Rightarrow> ('s, 'e, unit) comp" where
  "upd f s = (Inr (), f s)"

definition andthen :: "('s, 'e, 'a) comp \<Rightarrow> ('s, 'e, 'b) comp \<Rightarrow> ('s, 'e, 'b) comp" where
  "andthen m k = bnd m (\<lambda>_. k)"

lemmas comp_defs = ret_def throw_def bnd_def gets_def upd_def andthen_def

lemma bnd_ret [simp]: "bnd (ret x) k = k x"
  by (simp add: fun_eq_iff comp_defs)

lemma bnd_throw [simp]: "bnd (throw e) k = throw e"
  by (simp add: fun_eq_iff comp_defs)

lemma bnd_assoc: "bnd (bnd m k) l = bnd m (\<lambda>x. bnd (k x) l)"
  by (auto simp: fun_eq_iff comp_defs split: prod.splits sum.splits)

text \<open>
  \<open>keeps P m\<close>: whenever \<open>P\<close> holds before \<open>m\<close> it holds after it, whether \<open>m\<close> returns or
  panics.
\<close>

definition keeps :: "('s \<Rightarrow> bool) \<Rightarrow> ('s, 'e, 'a) comp \<Rightarrow> bool" where
  "keeps P m \<longleftrightarrow> (\<forall>s. P s \<longrightarrow> P (snd (m s)))"

lemma keepsD: "keeps P m \<Longrightarrow> P s \<Longrightarrow> P (snd (m s))"
  by (simp add: keeps_def)

lemma keepsD_eq: "keeps P m \<Longrightarrow> P s \<Longrightarrow> m s = (r, t) \<Longrightarrow> P t"
  by (metis keepsD snd_conv)

lemma keeps_ret [simp, keep_intros]: "keeps P (ret x)"
  by (simp add: keeps_def ret_def)

lemma keeps_throw [simp, keep_intros]: "keeps P (throw e)"
  by (simp add: keeps_def throw_def)

lemma keeps_gets [simp, keep_intros]: "keeps P (gets f)"
  by (simp add: keeps_def gets_def)

lemma keeps_upd [keep_intros]: "(\<And>s. P s \<Longrightarrow> P (f s)) \<Longrightarrow> keeps P (upd f)"
  by (simp add: keeps_def upd_def)

lemma keeps_bnd [keep_intros]:
  "keeps P m \<Longrightarrow> (\<And>x. keeps P (k x)) \<Longrightarrow> keeps P (bnd m k)"
  by (fastforce simp: keeps_def bnd_def split: prod.splits sum.splits)

text \<open>The rule for a continuation that relies on what \<open>m\<close> has returned.\<close>

lemma keeps_bnd_post:
  assumes "keeps P m" and "\<And>x s t. P t \<Longrightarrow> m s = (Inr x, t) \<Longrightarrow> P (snd (k x t))"
  shows "keeps P (bnd m k)"
  unfolding keeps_def
proof (intro allI impI)
  fix s
  assume "P s"
  with assms(1) have "P (snd (m s))" by (rule keepsD)
  then show "P (snd (bnd m k s))"
    using assms(2) [of "snd (m s)" s] by (cases "m s") (auto simp: bnd_def split: sum.splits)
qed

lemma keeps_apply: "(\<And>s. P s \<Longrightarrow> keeps P (f s)) \<Longrightarrow> keeps P (\<lambda>s. f s s)"
  by (simp add: keeps_def)

lemma keeps_andthen [keep_intros]: "keeps P m \<Longrightarrow> keeps P k \<Longrightarrow> keeps P (andthen m k)"
  by (simp add: andthen_def keeps_bnd)

lemma keeps_if [keep_intros]: "keeps P m \<Longrightarrow> keeps P k \<Longrightarrow> keeps P (if b then m else k)"
  by simp

subsection \<open>Little-endian bytes\<close>

primrec le_val :: "u8 list \<Rightarrow> u64" where
  "le_val [] = 0"
| "le_val (b # bs) = ucast b OR push_bit 8 (le_val bs)"

primrec le_bytes :: "nat \<Rightarrow> u64 \<Rightarrow> u8 list" where
  "le_bytes 0 v = []"
| "le_bytes (Suc n) v = ucast v # le_bytes n (drop_bit 8 v)"

lemma length_le_bytes [simp]: "length (le_bytes n v) = n"
  by (induction n arbitrary: v) auto

lemma bit_le_val: "bit (le_val bs) i \<longleftrightarrow> i < 64 \<and> i < 8 * length bs \<and> bit (bs ! (i div 8)) (i mod 8)"
proof (induction bs arbitrary: i)
  case Nil
  then show ?case by simp
next
  case (Cons b bs)
  show ?case
  proof (cases "i < 8")
    case True
    then show ?thesis by (simp add: bit_simps)
  next
    case False
    have e: "i div 8 = Suc ((i - 8) div 8)" "i mod 8 = (i - 8) mod 8"
      using False by (simp_all add: le_div_geq le_mod_geq)
    have nb: "\<not> bit b i"
      using False bit_imp_le_length [of b i] by auto
    show ?thesis
      using False Cons.IH [of "i - 8"] nb by (auto simp: bit_simps e)
  qed
qed

lemma nth_le_bytes: "k < n \<Longrightarrow> le_bytes n v ! k = ucast (drop_bit (8 * k) v)"
proof (induction n arbitrary: v k)
  case 0
  then show ?case by simp
next
  case (Suc n)
  then show ?case by (cases k) (simp_all add: drop_bit_drop_bit algebra_simps)
qed

lemma le_val_le_bytes: "le_val (le_bytes n v) = v AND mask (8 * n)"
proof (rule bit_word_eqI)
  fix i :: nat
  assume i: "i < LENGTH(64)"
  have d: "8 * (i div 8) + i mod 8 = i"
    by simp
  have lt: "i < 8 * n \<Longrightarrow> i div 8 < n"
    by (simp add: less_mult_imp_div_less mult.commute)
  show "bit (le_val (le_bytes n v)) i = bit (v AND mask (8 * n)) i"
    using i lt d by (auto simp: bit_le_val nth_le_bytes bit_simps)
qed

lemma le_bytes_le_val: "length bs \<le> 8 \<Longrightarrow> le_bytes (length bs) (le_val bs) = bs"
proof (rule nth_equalityI)
  fix k
  assume bs: "length bs \<le> 8" and k: "k < length (le_bytes (length bs) (le_val bs))"
  show "le_bytes (length bs) (le_val bs) ! k = bs ! k"
  proof (rule bit_word_eqI)
    fix i :: nat
    assume i: "i < LENGTH(8)"
    have e: "(8 * k + i) div 8 = k" "(8 * k + i) mod 8 = i"
      using i by simp_all
    show "bit (le_bytes (length bs) (le_val bs) ! k) i = bit (bs ! k) i"
      using k bs i e by (auto simp: nth_le_bytes bit_simps bit_le_val)
  qed
qed simp

subsection \<open>Pages\<close>

text \<open>The page number and the offset of a guest address (\<open>a >> PageBits\<close>, \<open>a & pageMask\<close>).\<close>

abbreviation vpn_of :: "u64 \<Rightarrow> u64" where
  "vpn_of a \<equiv> drop_bit 12 a"

abbreviation off_of :: "u64 \<Rightarrow> u64" where
  "off_of a \<equiv> a AND 0xfff"

abbreviation noVPN :: u64 where
  "noVPN \<equiv> - 1"

lemma mask12: "(0xfff :: u64) = mask 12"
  by (simp add: mask_eq_exp_minus_1)

lemma unat_vpn_of: "unat (vpn_of a) = unat a div 4096"
  by (simp only: unat_drop_bit_eq) (simp add: drop_bit_eq_div)

lemma unat_off_of: "unat (off_of a) = unat a mod 4096"
  by (simp only: mask12 take_bit_eq_mask [symmetric] unsigned_take_bit_eq) (simp add: take_bit_eq_mod)

lemma vpn_of_less: "unat (vpn_of a) < 2 ^ 52"
proof -
  have "unat a < 2 ^ 64"
    using unsigned_less [where w = a] by simp
  then show ?thesis
    by (simp add: unat_vpn_of less_mult_imp_div_less)
qed

lemma vpn_of_not_noVPN [simp]: "vpn_of a \<noteq> noVPN"
proof
  assume "vpn_of a = noVPN"
  then have "unat (vpn_of a) = unat (- 1 :: u64)"
    by simp
  with vpn_of_less [of a] show False
    by (simp add: unsigned_minus_1_eq_mask mask_eq_exp_minus_1)
qed

text \<open>\<open>pageUp\<close> and \<open>pageDown\<close> of memory.go, elf.go, syscall.go and snapshot.go (four copies).\<close>

definition pageUp :: "u64 \<Rightarrow> u64" where
  "pageUp x = (x + 0xfff) AND NOT 0xfff"

definition pageDown :: "u64 \<Rightarrow> u64" where
  "pageDown x = x AND NOT 0xfff"

lemma unat_and_not_fff: "unat ((x :: u64) AND NOT (mask 12)) = unat x div 4096 * 4096"
proof -
  have "x AND NOT (mask 12) = push_bit 12 (vpn_of x)"
    by (rule bit_word_eqI) (auto simp: bit_simps)
  moreover have "unat x < 2 ^ 64"
    using unsigned_less [where w = x] by simp
  then have "unat x div 4096 * 4096 < 2 ^ 64"
    by (rule order_le_less_trans [OF div_times_less_eq_dividend])
  ultimately show ?thesis
    by (simp only: unsigned_push_bit_eq unat_vpn_of) (simp add: push_bit_eq_mult take_bit_eq_mod)
qed

lemma unat_pageDown: "unat (pageDown x) = unat x div 4096 * 4096"
  by (simp only: pageDown_def mask12 unat_and_not_fff)

lemma unat_pageUp: "unat x \<le> 2 ^ 64 - 4096 \<Longrightarrow> unat (pageUp x) = (unat x + 4095) div 4096 * 4096"
proof -
  assume "unat x \<le> 2 ^ 64 - 4096"
  then have "unat (x + 0xfff) = unat x + 4095"
    by (subst unat_add_lem [THEN iffD1]) auto
  then show ?thesis
    by (simp only: pageUp_def mask12 unat_and_not_fff)
qed

end
