(* ===== verification/Inst.thy ===== *)
theory Inst
  imports Prelude
begin

text \<open>
  Decoded instructions (internal/arm64/cpu.go, type \<open>inst\<close>). The Go field \<open>fn\<close> is a pointer
  to a handler function; here it is the handler's name, a constructor of \<open>handler\<close>, and
  \<open>None\<close> is the nil pointer that \<open>decode\<close> leaves for an unallocated encoding. The handlers are
  grouped as the source files group them. \<open>hsimd\<close> names the handlers of vec.go and fp.go; what
  they do is a parameter of the execution here, given by the theories \<open>Vec_Exec\<close> and \<open>Fp_Exec\<close>.
\<close>

datatype himm =
    OpMovImm
  | OpAddImm64 | OpAddsImm64 | OpSubImm64 | OpSubsImm64
  | OpAddImm32 | OpAddsImm32 | OpSubImm32 | OpSubsImm32
  | OpAndImm64 | OpOrrImm64 | OpEorImm64 | OpAndsImm64
  | OpAndImm32 | OpOrrImm32 | OpEorImm32 | OpAndsImm32
  | OpMovk64 | OpMovk32
  | OpSbfm64 | OpBfm64 | OpUbfm64 | OpSbfm32 | OpBfm32 | OpUbfm32
  | OpExtr64 | OpExtr32

datatype hbranch =
    OpB | OpBL | OpBcond | OpCbz64 | OpCbnz64 | OpCbz32 | OpCbnz32 | OpTbz | OpTbnz
  | OpBr | OpBlr

datatype hsys =
    OpSvc | OpBrk | OpHlt | OpNop | OpClrex | OpMovImm2 | OpMrs | OpMsr | OpDcZva | OpUndef

datatype hlogic =
    OpMovReg64 | OpMovReg32
  | OpAndReg64 | OpBicReg64 | OpOrrReg64 | OpOrnReg64 | OpEorReg64 | OpEonReg64 | OpAndsReg64 | OpBicsReg64
  | OpAndReg32 | OpBicReg32 | OpOrrReg32 | OpOrnReg32 | OpEorReg32 | OpEonReg32 | OpAndsReg32 | OpBicsReg32

datatype haddsub =
    OpAddReg64 | OpAddsReg64 | OpSubReg64 | OpSubsReg64
  | OpAddReg32 | OpAddsReg32 | OpSubReg32 | OpSubsReg32
  | OpAddExt64 | OpAddsExt64 | OpSubExt64 | OpSubsExt64
  | OpAddExt32 | OpAddsExt32 | OpSubExt32 | OpSubsExt32
  | OpAdc64 | OpAdcs64 | OpSbc64 | OpSbcs64
  | OpAdc32 | OpAdcs32 | OpSbc32 | OpSbcs32

datatype hcond =
    OpCcmnReg64 | OpCcmnImm64 | OpCcmpReg64 | OpCcmpImm64
  | OpCcmnReg32 | OpCcmnImm32 | OpCcmpReg32 | OpCcmpImm32
  | OpCsel64 | OpCsinc64 | OpCsinv64 | OpCsneg64
  | OpCsel32 | OpCsinc32 | OpCsinv32 | OpCsneg32

datatype hdp =
    OpUdiv64 | OpUdiv32 | OpSdiv64 | OpSdiv32 | OpShiftV64 | OpShiftV32 | OpCrc32 | OpCrc32c
  | OpRbit64 | OpRbit32 | OpRev64 | OpRev32 | OpRev32_64 | OpRev16_64 | OpRev16_32
  | OpClz64 | OpClz32 | OpCls64 | OpCls32
  | OpMadd64 | OpMsub64 | OpMadd32 | OpMsub32 | OpSmaddl | OpSmsubl | OpUmaddl | OpUmsubl
  | OpUmulh | OpSmulh

datatype hldst =
    OpLoadOff | OpLoadWb | OpLoadReg | OpStoreOff | OpStoreWb | OpStoreReg
  | OpVLoadOff | OpVLoadWb | OpVLoadReg | OpVStoreOff | OpVStoreWb | OpVStoreReg
  | OpLoadPair | OpStorePair | OpVLoadPair | OpVStorePair
  | OpLdxr | OpLdxp | OpStxr | OpStxp | OpCas | OpSwp | OpLdAtomic
  | OpSIMDLoadMulti | OpSIMDStoreMulti

datatype hhot =
    OpLdr64Off | OpLdr32Off | OpLdrb64Off | OpStr64Off | OpStr32Off | OpStrb64Off
  | OpLdr64Reg | OpLdr32Reg | OpLdrb64Reg | OpStr64Reg | OpStr32Reg | OpStrb64Reg
  | OpLdp64Off | OpStp64Off

datatype hvlane =
    OpSimdBitwiseD | OpSimdBitwiseQ | OpSimd3Same | OpSimdPairwise | OpSimd3Diff | OpSimd2Misc | OpSimdRev
  | OpSimdAcross | OpSimdShiftImm | OpSimdShllImm | OpSimdShrnImm | OpSimdAddpScalar | OpSimdIntIndexed

datatype hvmove =
    OpSimdDupElem | OpSimdDupElemScalar | OpSimdDupGen | OpSimdInsElem | OpSimdInsGen
  | OpSimdUmov | OpSimdSmov64 | OpSimdSmov32 | OpSimdMovImm | OpSimdOrrImm | OpSimdBicImm
  | OpSimdExt | OpSimdPermute | OpSimdTable

datatype hfp =
    OpFmovImm | OpFcmp | OpFccmp | OpFcsel | OpFcvtFP | OpFP1 | OpFP2 | OpFP3
  | OpFmovToGen | OpFmovFromGen | OpFmovToGenHi | OpFmovFromGenHi
  | OpFcvtToInt | OpCvtfFromInt | OpCvtfFixed | OpFcvtzFixed

datatype hvfp =
    OpSimdFP3 | OpSimdFPPairwise | OpSimdFPPairScalar | OpSimd2MiscFP
  | OpSimdFcvtWiden | OpSimdFcvtNarrow | OpSimdFPAcross | OpSimdFPIndexed

datatype hsimd = HLane hvlane | HMove hvmove | HFp hfp | HVFp hvfp

datatype handler =
    HImm himm | HBranch hbranch | HSys hsys | HLogic hlogic | HAddSub haddsub
  | HCond hcond | HDp hdp | HLdSt hldst | HHot hhot | HSimd hsimd

text \<open>
  \<open>type inst struct\<close>: the operand fields, with the widths of the Go fields. Register fields
  hold indices of the register file already remapped for SP and XZR.
\<close>

record inst =
  i_fn :: "handler option"
  i_imm :: u64
  i_imm2 :: u64
  i_rd :: u8
  i_rn :: u8
  i_rm :: u8
  i_ra :: u8
  i_cond :: u8
  i_sh :: u8
  i_amt :: u8
  i_sz :: u8

definition inst0 :: inst where
  "inst0 = \<lparr>i_fn = None, i_imm = 0, i_imm2 = 0, i_rd = 0, i_rn = 0, i_rm = 0, i_ra = 0,
            i_cond = 0, i_sh = 0, i_amt = 0, i_sz = 0\<rparr>"

lemma inst0_fn [simp]: "i_fn inst0 = None"
  by (simp add: inst0_def)

end
