(* ===== verification/Paged_Memory.thy ===== *)
theory Paged_Memory
  imports Inst
begin

text \<open>
  Guest memory (internal/arm64/mem.go): 4 KiB pages behind a three-level radix table, with
  direct-mapped read and write TLBs, a code TLB and a fetch cache in front of it.

  The Go structures alias each other (a TLB entry points at the byte array of a page, a
  \<open>codePage\<close> at its page and several caches at the same \<open>codePage\<close>), so pages, byte arrays and
  code pages live in three small heaps indexed by references; array reference 0 is the shared
  \<open>zeroPage\<close>. Hook functions are caller code: the state holds a hook's range and its identity,
  and what the hook does is the environment \<open>env\<close>, a parameter of every operation that can call
  one. Hooks are installed through interp.go, whose \<open>guardHook\<close> turns a panic of the hook into a
  stop request, so a hook is a total state transformer.
\<close>

subsection \<open>Data\<close>

type_synonym ptL3 = "u64 \<Rightarrow> nat option"
type_synonym ptL2 = "u64 \<Rightarrow> ptL3 option"

record page =
  p_data :: "nat option"
  p_prot :: u8
  p_code :: "nat option"

record codepage =
  cp_pg :: nat
  cp_insts :: "u64 \<Rightarrow> inst"

record tlb_entry =
  t_vpn :: u64
  t_data :: nat

record code_entry =
  c_vpn :: u64
  c_code :: "nat option"

record mem_hook =
  h_begin :: u64
  h_end :: u64
  h_id :: nat

text \<open>
  \<open>type Memory struct\<close>. The last field is the cell \<open>m.pc\<close> points to, the CPU's PC: the CPU state
  of theory Cpu extends this record, so both see one cell.
\<close>

record memory =
  m_l1 :: "u64 \<Rightarrow> ptL2 option"
  m_rtlb :: "u64 \<Rightarrow> tlb_entry"
  m_wtlb :: "u64 \<Rightarrow> tlb_entry"
  m_fetchVPN :: u64
  m_fetchCode :: "nat option"
  m_ctlb :: "u64 \<Rightarrow> code_entry"
  m_invalid :: "nat list"
  m_rhooks :: "mem_hook list"
  m_whooks :: "mem_hook list"
  m_pages :: "nat \<Rightarrow> page"
  m_npage :: nat
  m_arrs :: "nat \<Rightarrow> u64 \<Rightarrow> u8"
  m_narr :: nat
  m_codes :: "nat \<Rightarrow> codepage"
  m_ncode :: nat
  m_pc :: u64

text \<open>Memory access kinds, numbered as \<open>uc_mem_type\<close>, and the protection bits.\<close>

abbreviation MemRead :: nat where "MemRead \<equiv> 16"
abbreviation MemWrite :: nat where "MemWrite \<equiv> 17"
abbreviation MemFetch :: nat where "MemFetch \<equiv> 18"
abbreviation MemReadUnmapped :: nat where "MemReadUnmapped \<equiv> 19"
abbreviation MemWriteUnmapped :: nat where "MemWriteUnmapped \<equiv> 20"
abbreviation MemFetchUnmapped :: nat where "MemFetchUnmapped \<equiv> 21"
abbreviation MemWriteProt :: nat where "MemWriteProt \<equiv> 22"
abbreviation MemReadProt :: nat where "MemReadProt \<equiv> 23"
abbreviation MemFetchProt :: nat where "MemFetchProt \<equiv> 24"

text \<open>
  What unwinds a run: \<open>*Fault\<close>, \<open>*UndefinedError\<close>, \<open>*cpuError\<close> (a misaligned PC, an exception
  no hook handles) and \<open>stopSignal\<close>.
\<close>

datatype cpu_err =
    Fault nat u64 nat u64
  | Undefined u64 u32
  | Misaligned u64
  | Unhandled u32 u64
  | StopSignal

datatype mem_err =
    NotAligned u64 u64
  | Outside48 u64 u64
  | BadProt u64
  | Overlaps u64
  | NotMapped u64
  | Wraps u64 u64
  | UnmappedAt u64

text \<open>
  The caller's hook functions, by identity: invalid-access hooks (kind, address, sz, value; the
  result says whether to retry), memory hooks (address, sz, value), code hooks (address) and
  interrupt hooks (exception number); and the SIMD and floating-point handlers of vec.go and fp.go.
\<close>

record 's env =
  inv_fn :: "nat \<Rightarrow> nat \<Rightarrow> u64 \<Rightarrow> nat \<Rightarrow> u64 \<Rightarrow> 's \<Rightarrow> bool \<times> 's"
  mem_fn :: "nat \<Rightarrow> u64 \<Rightarrow> nat \<Rightarrow> u64 \<Rightarrow> 's \<Rightarrow> 's"
  code_fn :: "nat \<Rightarrow> u64 \<Rightarrow> 's \<Rightarrow> 's"
  intr_fn :: "nat \<Rightarrow> u32 \<Rightarrow> 's \<Rightarrow> 's"
  simd_fn :: "hsimd \<Rightarrow> inst \<Rightarrow> ('s, cpu_err, unit) comp"

subsection \<open>The page table\<close>

definition lookup :: "'a memory_scheme \<Rightarrow> u64 \<Rightarrow> nat option" where
  "lookup m vpn =
     (if drop_bit 36 vpn \<noteq> 0 then None
      else case m_l1 m (drop_bit 24 vpn) of
        None \<Rightarrow> None
      | Some l2 \<Rightarrow>
          (case l2 (drop_bit 12 vpn AND 0xfff) of
             None \<Rightarrow> None
           | Some l3 \<Rightarrow> l3 (vpn AND 0xfff)))"

text \<open>
  \<open>setPage\<close>: a page number beyond the table would be an index panic in Go; its callers have
  validated the range (lemma \<open>range_vpns_bound\<close>).
\<close>

definition set_page :: "u64 \<Rightarrow> nat option \<Rightarrow> 'a memory_scheme \<Rightarrow> 'a memory_scheme" where
  "set_page vpn p m =
     (let i1 = drop_bit 24 vpn; i2 = drop_bit 12 vpn AND 0xfff; i3 = vpn AND 0xfff
      in case m_l1 m i1 of
        None \<Rightarrow>
          (if p = None then m
           else m\<lparr>m_l1 := (m_l1 m)(i1 \<mapsto> (\<lambda>_. None)(i2 \<mapsto> (\<lambda>_. None)(i3 := p)))\<rparr>)
      | Some l2 \<Rightarrow>
          (case l2 i2 of
             None \<Rightarrow>
               (if p = None then m
                else m\<lparr>m_l1 := (m_l1 m)(i1 \<mapsto> l2(i2 \<mapsto> (\<lambda>_. None)(i3 := p)))\<rparr>)
           | Some l3 \<Rightarrow> m\<lparr>m_l1 := (m_l1 m)(i1 \<mapsto> l2(i2 \<mapsto> l3(i3 := p)))\<rparr>))"

definition flush_tlb :: "'a memory_scheme \<Rightarrow> 'a memory_scheme" where
  "flush_tlb m = m\<lparr>m_rtlb := (\<lambda>i. (m_rtlb m i)\<lparr>t_vpn := noVPN\<rparr>),
                   m_wtlb := (\<lambda>i. (m_wtlb m i)\<lparr>t_vpn := noVPN\<rparr>),
                   m_ctlb := (\<lambda>_. \<lparr>c_vpn = noVPN, c_code = None\<rparr>),
                   m_fetchVPN := noVPN, m_fetchCode := None\<rparr>"

text \<open>\<open>rangeVPNs\<close>, and the page numbers its callers loop over.\<close>

definition range_vpns :: "u64 \<Rightarrow> u64 \<Rightarrow> mem_err + (u64 \<times> u64)" where
  "range_vpns addr sz =
     (if sz = 0 \<or> off_of addr \<noteq> 0 \<or> off_of sz \<noteq> 0 then Inl (NotAligned addr sz)
      else let end = addr + sz
           in if end < addr \<or> drop_bit 48 (end - 1) \<noteq> 0 then Inl (Outside48 addr sz)
              else Inr (vpn_of addr, vpn_of end))"

definition vpn_list :: "u64 \<Rightarrow> u64 \<Rightarrow> u64 list" where
  "vpn_list lo hi = map of_nat [unat lo ..< unat hi]"

definition map_page :: "u64 \<Rightarrow> u64 \<Rightarrow> 'a memory_scheme \<Rightarrow> 'a memory_scheme" where
  "map_page prot v m =
     set_page v (Some (m_npage m))
       (m\<lparr>m_pages := (m_pages m)(m_npage m := \<lparr>p_data = None, p_prot = ucast prot, p_code = None\<rparr>),
          m_npage := Suc (m_npage m)\<rparr>)"

definition mem_map :: "u64 \<Rightarrow> u64 \<Rightarrow> u64 \<Rightarrow> ('a memory_scheme, mem_err, unit) comp" where
  "mem_map addr sz prot m =
     (case range_vpns addr sz of
        Inl e \<Rightarrow> (Inl e, m)
      | Inr (lo, hi) \<Rightarrow>
          if prot AND NOT 7 \<noteq> 0 then (Inl (BadProt prot), m)
          else (case find (\<lambda>v. lookup m v \<noteq> None) (vpn_list lo hi) of
                  Some v \<Rightarrow> (Inl (Overlaps (push_bit 12 v)), m)
                | None \<Rightarrow> (Inr (), fold (map_page prot) (vpn_list lo hi) m)))"

definition check_mapped :: "u64 \<Rightarrow> u64 \<Rightarrow> 'a memory_scheme \<Rightarrow> mem_err + (u64 \<times> u64)" where
  "check_mapped addr sz m =
     (case range_vpns addr sz of
        Inl e \<Rightarrow> Inl e
      | Inr (lo, hi) \<Rightarrow>
          (case find (\<lambda>v. lookup m v = None) (vpn_list lo hi) of
             Some v \<Rightarrow> Inl (NotMapped (push_bit 12 v))
           | None \<Rightarrow> Inr (lo, hi)))"

definition mem_unmap :: "u64 \<Rightarrow> u64 \<Rightarrow> ('a memory_scheme, mem_err, unit) comp" where
  "mem_unmap addr sz m =
     (case check_mapped addr sz m of
        Inl e \<Rightarrow> (Inl e, m)
      | Inr (lo, hi) \<Rightarrow> (Inr (), flush_tlb (fold (\<lambda>v. set_page v None) (vpn_list lo hi) m)))"

definition set_prot :: "u64 \<Rightarrow> u64 \<Rightarrow> 'a memory_scheme \<Rightarrow> 'a memory_scheme" where
  "set_prot prot v m =
     (case lookup m v of
        None \<Rightarrow> m
      | Some p \<Rightarrow> m\<lparr>m_pages := (m_pages m)(p := (m_pages m p)\<lparr>p_prot := ucast prot\<rparr>)\<rparr>)"

definition mem_protect :: "u64 \<Rightarrow> u64 \<Rightarrow> u64 \<Rightarrow> ('a memory_scheme, mem_err, unit) comp" where
  "mem_protect addr sz prot m =
     (if prot AND NOT 7 \<noteq> 0 then (Inl (BadProt prot), m)
      else case check_mapped addr sz m of
             Inl e \<Rightarrow> (Inl e, m)
           | Inr (lo, hi) \<Rightarrow> (Inr (), flush_tlb (fold (set_prot prot) (vpn_list lo hi) m)))"

definition mapped :: "'a memory_scheme \<Rightarrow> u64 \<Rightarrow> bool" where
  "mapped m addr \<longleftrightarrow> lookup m (vpn_of addr) \<noteq> None"

subsection \<open>Page contents and decoded code\<close>

definition page_data :: "'a memory_scheme \<Rightarrow> nat \<Rightarrow> nat" where
  "page_data m p = (case p_data (m_pages m p) of None \<Rightarrow> 0 | Some d \<Rightarrow> d)"

definition drop_code :: "u64 \<Rightarrow> nat \<Rightarrow> 'a memory_scheme \<Rightarrow> 'a memory_scheme" where
  "drop_code vpn p m =
     (let m1 = m\<lparr>m_pages := (m_pages m)(p := (m_pages m p)\<lparr>p_code := None\<rparr>)\<rparr>;
          i = vpn AND 63;
          m2 = (if c_vpn (m_ctlb m1 i) = vpn
                then m1\<lparr>m_ctlb := (m_ctlb m1)(i := \<lparr>c_vpn = noVPN, c_code = None\<rparr>)\<rparr> else m1)
      in if m_fetchVPN m2 = vpn then m2\<lparr>m_fetchVPN := noVPN, m_fetchCode := None\<rparr> else m2)"

text \<open>\<open>writable\<close>: the page's byte array, allocated on first use, with its decoded code dropped.\<close>

definition alloc_data :: "u64 \<Rightarrow> nat \<Rightarrow> 'a memory_scheme \<Rightarrow> 'a memory_scheme" where
  "alloc_data vpn p m =
     (let d = m_narr m; i = vpn AND 255;
          m1 = m\<lparr>m_arrs := (m_arrs m)(d := (\<lambda>_. 0)), m_narr := Suc d,
                 m_pages := (m_pages m)(p := (m_pages m p)\<lparr>p_data := Some d\<rparr>)\<rparr>
      in if t_vpn (m_rtlb m1 i) = vpn
         then m1\<lparr>m_rtlb := (m_rtlb m1)(i := (m_rtlb m1 i)\<lparr>t_vpn := noVPN\<rparr>)\<rparr> else m1)"

definition writable :: "u64 \<Rightarrow> nat \<Rightarrow> 'a memory_scheme \<Rightarrow> 'a memory_scheme" where
  "writable vpn p m =
     (let m1 = (if p_data (m_pages m p) = None then alloc_data vpn p m else m)
      in if p_code (m_pages m1 p) \<noteq> None then drop_code vpn p m1 else m1)"

text \<open>
  \<open>DropCode\<close> clears the code pointer of every page in the table; a page that is in no slot of the
  table is unreachable, so clearing all pages is the same.
\<close>

definition drop_all_code :: "'a memory_scheme \<Rightarrow> 'a memory_scheme" where
  "drop_all_code m =
     m\<lparr>m_pages := (\<lambda>p. (m_pages m p)\<lparr>p_code := None\<rparr>),
       m_ctlb := (\<lambda>_. \<lparr>c_vpn = noVPN, c_code = None\<rparr>),
       m_fetchVPN := noVPN, m_fetchCode := None\<rparr>"

text \<open>Bytes of an array: \<open>loadN\<close> and \<open>storeN\<close> at an offset, and a \<open>copy\<close> into it.\<close>

definition acc_len :: "nat \<Rightarrow> nat" where
  "acc_len sz = (if sz = 1 then 1 else if sz = 2 then 2 else if sz = 4 then 4 else 8)"

definition arr_bytes :: "'a memory_scheme \<Rightarrow> nat \<Rightarrow> u64 \<Rightarrow> nat \<Rightarrow> u8 list" where
  "arr_bytes m d off n = map (\<lambda>k. m_arrs m d (off + of_nat k)) [0..<n]"

definition loadN :: "'a memory_scheme \<Rightarrow> nat \<Rightarrow> u64 \<Rightarrow> nat \<Rightarrow> u64" where
  "loadN m d off sz = le_val (arr_bytes m d off (acc_len sz))"

primrec put_bytes :: "u64 \<Rightarrow> u8 list \<Rightarrow> (u64 \<Rightarrow> u8) \<Rightarrow> (u64 \<Rightarrow> u8)" where
  "put_bytes off [] f = f"
| "put_bytes off (b # bs) f = put_bytes (off + 1) bs (f(off := b))"

definition arr_put :: "nat \<Rightarrow> u64 \<Rightarrow> u8 list \<Rightarrow> 'a memory_scheme \<Rightarrow> 'a memory_scheme" where
  "arr_put d off bs m = m\<lparr>m_arrs := (m_arrs m)(d := put_bytes off bs (m_arrs m d))\<rparr>"

definition storeN :: "nat \<Rightarrow> u64 \<Rightarrow> nat \<Rightarrow> u64 \<Rightarrow> 'a memory_scheme \<Rightarrow> 'a memory_scheme" where
  "storeN d off sz v m = arr_put d off (le_bytes (acc_len sz) v) m"

end
