(* ===== verification/Guest_Access.thy ===== *)
theory Guest_Access
  imports Paged_Memory
begin

text \<open>
  The accesses of internal/arm64/mem.go: the host's copies (\<open>HostRead\<close>, \<open>HostWrite\<close>), which
  ignore protection; the guest's loads and stores with their faults, hooks and TLBs; and the
  installation of hooks.
\<close>

subsection \<open>Host accesses\<close>

definition host_check :: "u64 \<Rightarrow> nat \<Rightarrow> 'a memory_scheme \<Rightarrow> mem_err option" where
  "host_check addr n m =
     (if n = 0 then None
      else if addr + of_nat n < addr then Some (Wraps addr (of_nat n))
      else map_option (\<lambda>v. UnmappedAt (max (push_bit 12 v) addr))
             (find (\<lambda>v. lookup m v = None)
                (vpn_list (vpn_of addr) (vpn_of (addr + of_nat n - 1) + 1))))"

text \<open>
  The copy loops run over the pieces of the range that stay inside one page: \<open>n\<close> is
  \<open>min(PageSize - off, len - i)\<close> and at least 1, so the rest gets shorter. A page with no data
  reads as zeros (\<open>clear\<close>). \<open>hostCheck\<close> has established that the looked-up pages exist.
\<close>

function host_read_loop :: "'a memory_scheme \<Rightarrow> u64 \<Rightarrow> nat \<Rightarrow> u8 list" where
  "host_read_loop m a len =
     (if len = 0 then []
      else let off = off_of a; n = min (4096 - unat off) len
           in (case lookup m (vpn_of a) of
                 None \<Rightarrow> replicate n 0
               | Some p \<Rightarrow> (case p_data (m_pages m p) of
                     Some d \<Rightarrow> arr_bytes m d off n
                   | None \<Rightarrow> replicate n 0))
              @ host_read_loop m (a + of_nat n) (len - n))"
  by pat_completeness auto
termination
  by (relation "measure (\<lambda>(m, a, len). len)") (auto simp: unat_off_of)

declare host_read_loop.simps [simp del]

definition host_read :: "u64 \<Rightarrow> nat \<Rightarrow> ('a memory_scheme, mem_err, u8 list) comp" where
  "host_read addr n m =
     (case host_check addr n m of
        Some e \<Rightarrow> (Inl e, m)
      | None \<Rightarrow> (Inr (host_read_loop m addr n), m))"

function host_write_loop :: "u64 \<Rightarrow> u8 list \<Rightarrow> 'a memory_scheme \<Rightarrow> 'a memory_scheme" where
  "host_write_loop a src m =
     (if src = [] then m
      else let off = off_of a; n = min (4096 - unat off) (length src); vpn = vpn_of a
           in host_write_loop (a + of_nat n) (drop n src)
                (case lookup m vpn of
                   None \<Rightarrow> m
                 | Some p \<Rightarrow>
                     (let m1 = writable vpn p m in arr_put (page_data m1 p) off (take n src) m1)))"
  by pat_completeness auto
termination
  by (relation "measure (\<lambda>(a, src, m). length src)") (auto simp: unat_off_of)

declare host_write_loop.simps [simp del]

definition host_write :: "u64 \<Rightarrow> u8 list \<Rightarrow> ('a memory_scheme, mem_err, unit) comp" where
  "host_write addr src m =
     (case host_check addr (length src) m of
        Some e \<Rightarrow> (Inl e, m)
      | None \<Rightarrow> (Inr (), host_write_loop addr src m))"

subsection \<open>Guest accesses: permission and faults\<close>

definition need_prot :: "nat \<Rightarrow> u8" where
  "need_prot kind = (if kind = MemWrite then 2 else if kind = MemFetch then 4 else 1)"

definition unmapped_kind :: "nat \<Rightarrow> nat" where
  "unmapped_kind kind =
     (if kind = MemWrite then MemWriteUnmapped else if kind = MemFetch then MemFetchUnmapped
      else MemReadUnmapped)"

definition prot_kind :: "nat \<Rightarrow> nat" where
  "prot_kind kind =
     (if kind = MemWrite then MemWriteProt else if kind = MemFetch then MemFetchProt
      else MemReadProt)"

definition page_access :: "nat \<Rightarrow> u64 \<Rightarrow> 'a memory_scheme \<Rightarrow> nat + nat" where
  "page_access kind addr m =
     (case lookup m (vpn_of addr) of
        None \<Rightarrow> Inl (unmapped_kind kind)
      | Some p \<Rightarrow> if p_prot (m_pages m p) AND need_prot kind = 0 then Inl (prot_kind kind) else Inr p)"

text \<open>
  The invalid-access hooks are all called, in order, and the access is retried once when any of
  them asks for it; \<open>range\<close> evaluates the slice once, so a hook added meanwhile is not called.
\<close>

primrec call_invalid ::
  "('a memory_scheme) env \<Rightarrow> nat list \<Rightarrow> nat \<Rightarrow> u64 \<Rightarrow> nat \<Rightarrow> u64 \<Rightarrow> bool \<Rightarrow> 'a memory_scheme
    \<Rightarrow> bool \<times> 'a memory_scheme" where
  "call_invalid E [] fk addr sz val h m = (h, m)"
| "call_invalid E (i # is) fk addr sz val h m =
     (let (b, m1) = inv_fn E i fk addr sz val m in call_invalid E is fk addr sz val (h \<or> b) m1)"

definition guest_page ::
  "('a memory_scheme) env \<Rightarrow> nat \<Rightarrow> u64 \<Rightarrow> nat \<Rightarrow> u64 \<Rightarrow> ('a memory_scheme, cpu_err, nat) comp" where
  "guest_page E kind addr sz val m =
     (case page_access kind addr m of
        Inr p \<Rightarrow> (Inr p, m)
      | Inl fk \<Rightarrow>
          (case call_invalid E (m_invalid m) fk addr sz val False m of
             (handled, m1) \<Rightarrow>
               if \<not> handled then (Inl (Fault fk addr sz (m_pc m1)), m1)
               else (case page_access kind addr m1 of
                       Inr p \<Rightarrow> (Inr p, m1)
                     | Inl fk1 \<Rightarrow> (Inl (Fault fk1 addr sz (m_pc m1)), m1))))"

subsection \<open>Memory hooks\<close>

definition hooks_cover_page :: "mem_hook list \<Rightarrow> u64 \<Rightarrow> bool" where
  "hooks_cover_page hs vpn \<longleftrightarrow>
     (let lo = push_bit 12 vpn; hi = lo + 0xfff
      in list_ex (\<lambda>h. h_begin h > h_end h \<or> (h_begin h \<le> hi \<and> h_end h \<ge> lo)) hs)"

primrec call_mem_hooks ::
  "('a memory_scheme) env \<Rightarrow> mem_hook list \<Rightarrow> u64 \<Rightarrow> nat \<Rightarrow> u64 \<Rightarrow> 'a memory_scheme \<Rightarrow> 'a memory_scheme"
  where
  "call_mem_hooks E [] addr sz val m = m"
| "call_mem_hooks E (h # hs) addr sz val m =
     call_mem_hooks E hs addr sz val
       (if h_begin h > h_end h \<or> (addr \<ge> h_begin h \<and> addr \<le> h_end h)
        then mem_fn E (h_id h) addr sz val m else m)"

subsection \<open>Loads\<close>

definition fits :: "u64 \<Rightarrow> nat \<Rightarrow> bool" where
  "fits addr sz \<longleftrightarrow> off_of addr \<le> 4096 - of_nat sz"

definition cross_byte :: "'a memory_scheme \<Rightarrow> u64 \<Rightarrow> u8" where
  "cross_byte m a =
     (case lookup m (vpn_of a) of
        None \<Rightarrow> 0
      | Some p \<Rightarrow> (case p_data (m_pages m p) of None \<Rightarrow> 0 | Some d \<Rightarrow> m_arrs m d (off_of a)))"

definition next_page :: "u64 \<Rightarrow> u64" where
  "next_page addr = (addr OR 0xfff) + 1"

definition set_rtlb :: "u64 \<Rightarrow> nat \<Rightarrow> 'a memory_scheme \<Rightarrow> 'a memory_scheme" where
  "set_rtlb vpn d m =
     m\<lparr>m_rtlb := (m_rtlb m)(vpn AND 255 := \<lparr>t_vpn = vpn, t_data = d\<rparr>)\<rparr>"

definition set_wtlb :: "u64 \<Rightarrow> nat \<Rightarrow> 'a memory_scheme \<Rightarrow> 'a memory_scheme" where
  "set_wtlb vpn d m =
     m\<lparr>m_wtlb := (m_wtlb m)(vpn AND 255 := \<lparr>t_vpn = vpn, t_data = d\<rparr>)\<rparr>"

definition read_slow ::
  "('a memory_scheme) env \<Rightarrow> u64 \<Rightarrow> nat \<Rightarrow> ('a memory_scheme, cpu_err, u64) comp" where
  "read_slow E addr sz =
     (if fits addr sz then
        bnd (guest_page E MemRead addr sz 0) (\<lambda>p m.
          if m_rhooks m \<noteq> [] \<and> hooks_cover_page (m_rhooks m) (vpn_of addr) then
            bnd (upd (call_mem_hooks E (m_rhooks m) addr sz 0)) (\<lambda>_.
              bnd (guest_page E MemRead addr sz 0) (\<lambda>q m2.
                (Inr (loadN m2 (page_data m2 q) (off_of addr) sz), m2))) m
          else
            (Inr (loadN m (page_data m p) (off_of addr) sz),
             set_rtlb (vpn_of addr) (page_data m p) m))
      else
        bnd (guest_page E MemRead addr sz 0) (\<lambda>_.
          bnd (guest_page E MemRead (next_page addr) sz 0) (\<lambda>_.
            bnd (\<lambda>m. upd (if m_rhooks m \<noteq> [] then call_mem_hooks E (m_rhooks m) addr sz 0
                           else (\<lambda>x. x)) m) (\<lambda>_.
              gets (\<lambda>m. le_val (map (\<lambda>k. cross_byte m (addr + of_nat k)) [0..<sz]))))))"

text \<open>
  The fast paths: \<open>Read8\<close>, \<open>Read16\<close>, \<open>Read32\<close> and \<open>Read64\<close> differ in the access size only (a
  one-byte access always fits its page). A result narrower than 64 bits is returned
  zero-extended, as its callers use it.
\<close>

definition tlb_read ::
  "('a memory_scheme) env \<Rightarrow> nat \<Rightarrow> u64 \<Rightarrow> ('a memory_scheme, cpu_err, u64) comp" where
  "tlb_read E sz a m =
     (let e = m_rtlb m (vpn_of a AND 255)
      in if t_vpn e = vpn_of a \<and> fits a sz then (Inr (loadN m (t_data e) (off_of a) sz), m)
         else read_slow E a sz m)"

definition read8 :: "('a memory_scheme) env \<Rightarrow> u64 \<Rightarrow> ('a memory_scheme, cpu_err, u64) comp" where
  "read8 E a = tlb_read E 1 a"

definition read16 :: "('a memory_scheme) env \<Rightarrow> u64 \<Rightarrow> ('a memory_scheme, cpu_err, u64) comp" where
  "read16 E a = tlb_read E 2 a"

definition read32 :: "('a memory_scheme) env \<Rightarrow> u64 \<Rightarrow> ('a memory_scheme, cpu_err, u64) comp" where
  "read32 E a = tlb_read E 4 a"

definition read64 :: "('a memory_scheme) env \<Rightarrow> u64 \<Rightarrow> ('a memory_scheme, cpu_err, u64) comp" where
  "read64 E a = tlb_read E 8 a"

definition readN ::
  "('a memory_scheme) env \<Rightarrow> u64 \<Rightarrow> nat \<Rightarrow> ('a memory_scheme, cpu_err, u64) comp" where
  "readN E a sz = (if sz = 1 then read8 E a else if sz = 2 then read16 E a
                   else if sz = 4 then read32 E a else read64 E a)"

subsection \<open>Stores\<close>

text \<open>One byte of a store that crosses a page: dropped when a hook has unmapped the page.\<close>

definition cross_put :: "u64 \<Rightarrow> u8 \<Rightarrow> 'a memory_scheme \<Rightarrow> 'a memory_scheme" where
  "cross_put a b m =
     (case lookup m (vpn_of a) of
        None \<Rightarrow> m
      | Some p \<Rightarrow> (let m1 = writable (vpn_of a) p m in arr_put (page_data m1 p) (off_of a) [b] m1))"

definition write_slow ::
  "('a memory_scheme) env \<Rightarrow> u64 \<Rightarrow> nat \<Rightarrow> u64 \<Rightarrow> ('a memory_scheme, cpu_err, unit) comp" where
  "write_slow E addr sz v =
     (if fits addr sz then
        bnd (guest_page E MemWrite addr sz v) (\<lambda>p m.
          if m_whooks m \<noteq> [] \<and> hooks_cover_page (m_whooks m) (vpn_of addr) then
            bnd (upd (call_mem_hooks E (m_whooks m) addr sz v)) (\<lambda>_.
              bnd (guest_page E MemWrite addr sz v) (\<lambda>q.
                upd (\<lambda>m2. let m3 = writable (vpn_of addr) q m2
                          in storeN (page_data m3 q) (off_of addr) sz v m3))) m
          else
            upd (\<lambda>m2. let m3 = writable (vpn_of addr) p m2
                      in storeN (page_data m3 p) (off_of addr) sz v
                           (set_wtlb (vpn_of addr) (page_data m3 p) m3)) m)
      else
        bnd (guest_page E MemWrite addr sz v) (\<lambda>_.
          bnd (guest_page E MemWrite (next_page addr) sz v) (\<lambda>_.
            bnd (\<lambda>m. upd (if m_whooks m \<noteq> [] then call_mem_hooks E (m_whooks m) addr sz v
                           else (\<lambda>x. x)) m) (\<lambda>_.
              upd (fold (\<lambda>k. cross_put (addr + of_nat k) (ucast (drop_bit (8 * k) v))) [0..<sz])))))"

definition tlb_write ::
  "('a memory_scheme) env \<Rightarrow> nat \<Rightarrow> u64 \<Rightarrow> u64 \<Rightarrow> ('a memory_scheme, cpu_err, unit) comp" where
  "tlb_write E sz a v m =
     (let e = m_wtlb m (vpn_of a AND 255)
      in if t_vpn e = vpn_of a \<and> fits a sz then (Inr (), storeN (t_data e) (off_of a) sz v m)
         else write_slow E a sz v m)"

definition write8 ::
  "('a memory_scheme) env \<Rightarrow> u64 \<Rightarrow> u8 \<Rightarrow> ('a memory_scheme, cpu_err, unit) comp" where
  "write8 E a v = tlb_write E 1 a (ucast v)"

definition write16 ::
  "('a memory_scheme) env \<Rightarrow> u64 \<Rightarrow> u16 \<Rightarrow> ('a memory_scheme, cpu_err, unit) comp" where
  "write16 E a v = tlb_write E 2 a (ucast v)"

definition write32 ::
  "('a memory_scheme) env \<Rightarrow> u64 \<Rightarrow> u32 \<Rightarrow> ('a memory_scheme, cpu_err, unit) comp" where
  "write32 E a v = tlb_write E 4 a (ucast v)"

definition write64 ::
  "('a memory_scheme) env \<Rightarrow> u64 \<Rightarrow> u64 \<Rightarrow> ('a memory_scheme, cpu_err, unit) comp" where
  "write64 E a v = tlb_write E 8 a v"

definition writeN ::
  "('a memory_scheme) env \<Rightarrow> u64 \<Rightarrow> nat \<Rightarrow> u64 \<Rightarrow> ('a memory_scheme, cpu_err, unit) comp" where
  "writeN E a sz v = (if sz = 1 then write8 E a (ucast v) else if sz = 2 then write16 E a (ucast v)
                      else if sz = 4 then write32 E a (ucast v) else write64 E a v)"

definition check_write ::
  "('a memory_scheme) env \<Rightarrow> u64 \<Rightarrow> nat \<Rightarrow> ('a memory_scheme, cpu_err, unit) comp" where
  "check_write E addr sz =
     bnd (guest_page E MemWrite addr sz 0) (\<lambda>_.
       let last = addr + of_nat sz - 1
       in if vpn_of last \<noteq> vpn_of addr then bnd (guest_page E MemWrite last sz 0) (\<lambda>_. ret ())
          else ret ())"

subsection \<open>Installing and removing hooks\<close>

text \<open>
  A hook is its identity, so removing one keeps every hook with another identity. The remover
  closures are the \<open>remove\<close> functions.
\<close>

definition add_invalid_hook :: "nat \<Rightarrow> 'a memory_scheme \<Rightarrow> 'a memory_scheme" where
  "add_invalid_hook h m = m\<lparr>m_invalid := m_invalid m @ [h]\<rparr>"

definition remove_invalid_hook :: "nat \<Rightarrow> 'a memory_scheme \<Rightarrow> 'a memory_scheme" where
  "remove_invalid_hook h m = m\<lparr>m_invalid := filter (\<lambda>x. x \<noteq> h) (m_invalid m)\<rparr>"

definition add_read_hook :: "u64 \<Rightarrow> u64 \<Rightarrow> nat \<Rightarrow> 'a memory_scheme \<Rightarrow> 'a memory_scheme" where
  "add_read_hook b e h m =
     flush_tlb (m\<lparr>m_rhooks := m_rhooks m @ [\<lparr>h_begin = b, h_end = e, h_id = h\<rparr>]\<rparr>)"

definition add_write_hook :: "u64 \<Rightarrow> u64 \<Rightarrow> nat \<Rightarrow> 'a memory_scheme \<Rightarrow> 'a memory_scheme" where
  "add_write_hook b e h m =
     flush_tlb (m\<lparr>m_whooks := m_whooks m @ [\<lparr>h_begin = b, h_end = e, h_id = h\<rparr>]\<rparr>)"

definition remove_hook :: "mem_hook list \<Rightarrow> nat \<Rightarrow> mem_hook list" where
  "remove_hook hs h = filter (\<lambda>x. h_id x \<noteq> h) hs"

definition remove_read_hook :: "nat \<Rightarrow> 'a memory_scheme \<Rightarrow> 'a memory_scheme" where
  "remove_read_hook h m = m\<lparr>m_rhooks := remove_hook (m_rhooks m) h\<rparr>"

definition remove_write_hook :: "nat \<Rightarrow> 'a memory_scheme \<Rightarrow> 'a memory_scheme" where
  "remove_write_hook h m = m\<lparr>m_whooks := remove_hook (m_whooks m) h\<rparr>"

end
