(* ===== verification/Memory_Inv.thy ===== *)
theory Memory_Inv
  imports Guest_Access
begin

text \<open>
  The invariants of the guest memory. \<open>mem_inv\<close> says that every cache in front of the page table
  is coherent: the two of the comment that heads mem.go (a page with decoded code is never in the
  write TLB; the decoded code is what the page's bytes decode to), and what they rest on (every
  TLB entry names the current array of a page the guest may access and no hook watches). The
  lemmas show that each operation keeps it.
\<close>

subsection \<open>The page table as a map\<close>

locale page_table =
  fixes look :: "'t \<Rightarrow> u64 \<Rightarrow> nat option"
    and put :: "u64 \<Rightarrow> nat option \<Rightarrow> 't \<Rightarrow> 't"
    and valid :: "u64 \<Rightarrow> bool"
  assumes look_put: "valid v \<Longrightarrow> look (put v p t) w = (if w = v then p else look t w)"
    and look_invalid: "\<not> valid v \<Longrightarrow> look t v = None"
begin

lemma look_fold_clear:
  "\<forall>v \<in> set vs. valid v \<Longrightarrow>
   look (fold (\<lambda>v. put v None) vs t) w = (if w \<in> set vs then None else look t w)"
  by (induction vs arbitrary: t) (auto simp: look_put)

lemma look_Some_valid: "look t v = Some p \<Longrightarrow> valid v"
  using look_invalid by fastforce

lemma look_put_same: "valid v \<Longrightarrow> look (put v (look t v) t) = look t"
  by (auto simp: look_put)

end

abbreviation vpn_ok :: "u64 \<Rightarrow> bool" where
  "vpn_ok v \<equiv> drop_bit 36 v = 0"

lemma vpn_split_eq:
  fixes v w :: u64
  assumes "drop_bit 24 v = drop_bit 24 w"
    and "drop_bit 12 v AND 0xfff = drop_bit 12 w AND 0xfff"
    and "v AND 0xfff = w AND 0xfff"
  shows "v = w"
proof (rule bit_word_eqI)
  fix i :: nat
  assume i: "i < LENGTH(64)"
  have a: "bit v (24 + k) = bit w (24 + k)" for k
    using arg_cong [OF assms(1), of "\<lambda>x. bit x k"] by (simp add: bit_simps)
  have b: "k < 12 \<Longrightarrow> bit v (12 + k) = bit w (12 + k)" for k
    using arg_cong [OF assms(2), of "\<lambda>x. bit x k"] by (auto simp: bit_simps mask12)
  have c: "i < 12 \<Longrightarrow> bit v i = bit w i"
    using arg_cong [OF assms(3), of "\<lambda>x. bit x i"] by (auto simp: bit_simps mask12)
  consider "i < 12" | "12 \<le> i" "i < 24" | "24 \<le> i" by linarith
  then show "bit v i = bit w i"
    using a [of "i - 24"] b [of "i - 12"] c by cases simp_all
qed

lemma lookup_set_page:
  assumes "vpn_ok v"
  shows "lookup (set_page v p m) w = (if w = v then p else lookup m w)"
proof -
  let ?i1 = "drop_bit 24 v" and ?i2 = "drop_bit 12 v AND 0xfff" and ?i3 = "v AND 0xfff"
  have ne: "w \<noteq> v \<Longrightarrow> drop_bit 24 w = ?i1 \<Longrightarrow> drop_bit 12 w AND 0xfff = ?i2 \<Longrightarrow>
    w AND 0xfff \<noteq> ?i3"
    using vpn_split_eq by metis
  show ?thesis
    using assms ne
    by (auto simp: lookup_def set_page_def Let_def split: option.splits)
qed

lemma lookup_not_ok: "\<not> vpn_ok v \<Longrightarrow> lookup m v = None"
  by (simp add: lookup_def)

interpretation pt: page_table lookup set_page vpn_ok
  by unfold_locales (simp_all add: lookup_set_page lookup_not_ok)

lemma set_page_frame [simp]:
  "m_rtlb (set_page v p m) = m_rtlb m" "m_wtlb (set_page v p m) = m_wtlb m"
  "m_ctlb (set_page v p m) = m_ctlb m" "m_fetchVPN (set_page v p m) = m_fetchVPN m"
  "m_fetchCode (set_page v p m) = m_fetchCode m" "m_rhooks (set_page v p m) = m_rhooks m"
  "m_whooks (set_page v p m) = m_whooks m" "m_pages (set_page v p m) = m_pages m"
  "m_npage (set_page v p m) = m_npage m" "m_arrs (set_page v p m) = m_arrs m"
  "m_narr (set_page v p m) = m_narr m" "m_codes (set_page v p m) = m_codes m"
  "m_ncode (set_page v p m) = m_ncode m" "m_pc (set_page v p m) = m_pc m"
  "m_invalid (set_page v p m) = m_invalid m" "memory.more (set_page v p m) = memory.more m"
  by (simp_all add: set_page_def Let_def split: option.splits)

text \<open>Only \<open>m_l1\<close> decides a lookup.\<close>

lemma lookup_frame [simp]:
  "lookup (m_rtlb_update f m) = lookup m" "lookup (m_wtlb_update f m) = lookup m"
  "lookup (m_ctlb_update g m) = lookup m" "lookup (m_fetchVPN_update h m) = lookup m"
  "lookup (m_fetchCode_update k m) = lookup m" "lookup (m_invalid_update a m) = lookup m"
  "lookup (m_rhooks_update b m) = lookup m" "lookup (m_whooks_update b m) = lookup m"
  "lookup (m_pages_update c m) = lookup m" "lookup (m_npage_update d m) = lookup m"
  "lookup (m_arrs_update e m) = lookup m" "lookup (m_narr_update d m) = lookup m"
  "lookup (m_codes_update l m) = lookup m" "lookup (m_ncode_update d m) = lookup m"
  "lookup (m_pc_update h m) = lookup m" "lookup (memory.more_update n m) = lookup m"
  by (simp_all add: fun_eq_iff lookup_def)

subsection \<open>Ranges of pages\<close>

lemma range_vpns_bound:
  assumes "range_vpns addr sz = Inr (lo, hi)"
  shows "unat lo < unat hi" and "unat hi \<le> 2 ^ 36"
    and "unat lo * 4096 = unat addr" and "unat hi * 4096 = unat addr + unat sz"
proof -
  have ne: "sz \<noteq> 0" and oa: "off_of addr = 0" and os: "off_of sz = 0"
    and no: "\<not> addr + sz < addr" and top: "drop_bit 48 (addr + sz - 1) = 0"
    and lo: "lo = vpn_of addr" and hi: "hi = vpn_of (addr + sz)"
    using assms by (auto simp: range_vpns_def Let_def split: if_splits)
  have sum: "unat (addr + sz) = unat addr + unat sz"
    using no by (simp add: unat_plus_simple [symmetric])
  have am: "unat addr mod 4096 = 0" and sm: "unat sz mod 4096 = 0"
    using oa os unat_off_of [of addr] unat_off_of [of sz] by simp_all
  have pos: "0 < unat sz"
    using ne by (simp add: unat_gt_0)
  have big: "unat (addr + sz - 1) < 2 ^ 48"
  proof -
    have "unat (addr + sz - 1) div 2 ^ 48 = 0"
      using arg_cong [OF top, of unat] by (simp only: unat_drop_bit_eq) (simp add: drop_bit_eq_div)
    then show ?thesis by (simp add: div_eq_0_iff)
  qed
  have "unat (addr + sz - 1) = unat addr + unat sz - 1"
    using sum pos by (subst unat_sub) (auto simp: word_le_nat_alt)
  with big have tot: "unat addr + unat sz \<le> 2 ^ 48" by simp
  have da: "4096 dvd unat addr" and ds: "4096 dvd unat sz"
    using am sm by (simp_all only: dvd_eq_mod_eq_0)
  have dsum: "4096 dvd unat addr + unat sz"
    using da ds by (rule dvd_add)
  show "unat lo * 4096 = unat addr"
    by (simp only: lo unat_vpn_of dvd_div_mult_self [OF da])
  show "unat hi * 4096 = unat addr + unat sz"
    by (simp only: hi unat_vpn_of sum dvd_div_mult_self [OF dsum])
  then show "unat hi \<le> 2 ^ 36"
    using tot by simp
  show "unat lo < unat hi"
    using \<open>unat lo * 4096 = unat addr\<close> \<open>unat hi * 4096 = unat addr + unat sz\<close> pos by simp
qed

lemma set_vpn_list: "set (vpn_list lo hi) = {v. lo \<le> v \<and> v < hi}"
proof -
  have "v \<in> of_nat ` {unat lo ..< unat hi} \<longleftrightarrow> lo \<le> v \<and> v < hi" for v :: u64
  proof
    assume "v \<in> of_nat ` {unat lo ..< unat hi}"
    then obtain n where n: "v = of_nat n" "unat lo \<le> n" "n < unat hi" by auto
    then have "n < 2 ^ LENGTH(64)"
      using unsigned_less [where w = hi and 'a = nat] by simp
    then have "unat v = n"
      using n by (simp add: unat_of_nat take_bit_nat_eq_self)
    with n show "lo \<le> v \<and> v < hi"
      by (simp add: word_le_nat_alt word_less_nat_alt)
  next
    assume "lo \<le> v \<and> v < hi"
    then show "v \<in> of_nat ` {unat lo ..< unat hi}"
      by (intro image_eqI [of _ _ "unat v"]) (auto simp: word_le_nat_alt word_less_nat_alt)
  qed
  then show ?thesis by (auto simp: vpn_list_def)
qed

lemma range_vpn_ok:
  assumes "range_vpns addr sz = Inr (lo, hi)" and "v \<in> set (vpn_list lo hi)"
  shows "vpn_ok v"
proof -
  have "unat v < 2 ^ 36"
    using assms range_vpns_bound(2) [OF assms(1)]
    by (auto simp: set_vpn_list word_less_nat_alt)
  then have "unat (drop_bit 36 v) = 0"
    by (simp only: unat_drop_bit_eq) (simp add: drop_bit_eq_div)
  then show ?thesis by (simp only: unat_0_iff)
qed


subsection \<open>The invariant\<close>

text \<open>\<open>codePage.raw\<close> on a page, and \<open>decodeAt\<close> over a decoder \<open>D\<close>.\<close>

definition page_raw :: "'a memory_scheme \<Rightarrow> nat \<Rightarrow> u64 \<Rightarrow> u32" where
  "page_raw m p pc =
     (case p_data (m_pages m p) of
        None \<Rightarrow> 0
      | Some d \<Rightarrow> ucast (le_val (arr_bytes m d (off_of pc) 4)))"

definition decoded :: "(u32 \<Rightarrow> u64 \<Rightarrow> inst) \<Rightarrow> u32 \<Rightarrow> u64 \<Rightarrow> inst" where
  "decoded D raw pc =
     (let i = D raw pc in if i_fn i = None then i\<lparr>i_fn := Some (HSys OpUndef)\<rparr> else i)"

text \<open>The address of instruction slot \<open>s\<close> of page \<open>v\<close>.\<close>

definition slot_pc :: "u64 \<Rightarrow> u64 \<Rightarrow> u64" where
  "slot_pc v s = push_bit 12 v OR push_bit 2 s"

definition pt_ok :: "'a memory_scheme \<Rightarrow> bool" where
  "pt_ok m \<longleftrightarrow> (\<forall>v p. lookup m v = Some p \<longrightarrow> p < m_npage m) \<and>
     (\<forall>v w p. lookup m v = Some p \<and> lookup m w = Some p \<longrightarrow> v = w)"

definition data_ok :: "'a memory_scheme \<Rightarrow> bool" where
  "data_ok m \<longleftrightarrow> 0 < m_narr m \<and> (\<forall>x. m_arrs m 0 x = 0) \<and>
     (\<forall>p d. p < m_npage m \<and> p_data (m_pages m p) = Some d \<longrightarrow> 0 < d \<and> d < m_narr m) \<and>
     (\<forall>p q d. p < m_npage m \<and> q < m_npage m \<and> p_data (m_pages m p) = Some d \<and>
        p_data (m_pages m q) = Some d \<longrightarrow> p = q)"

definition code_ok :: "'a memory_scheme \<Rightarrow> bool" where
  "code_ok m \<longleftrightarrow> (\<forall>p c. p < m_npage m \<and> p_code (m_pages m p) = Some c \<longrightarrow>
     c < m_ncode m \<and> cp_pg (m_codes m c) = p)"

definition insts_ok :: "(u32 \<Rightarrow> u64 \<Rightarrow> inst) \<Rightarrow> 'a memory_scheme \<Rightarrow> bool" where
  "insts_ok D m \<longleftrightarrow> (\<forall>v p c s. lookup m v = Some p \<and> p_code (m_pages m p) = Some c \<and>
     s AND 0x3ff = s \<and> i_fn (cp_insts (m_codes m c) s) \<noteq> None \<longrightarrow>
     cp_insts (m_codes m c) s = decoded D (page_raw m p (slot_pc v s)) (slot_pc v s))"

definition rtlb_ok :: "'a memory_scheme \<Rightarrow> bool" where
  "rtlb_ok m \<longleftrightarrow> (\<forall>i. t_vpn (m_rtlb m i) \<noteq> noVPN \<longrightarrow>
     i = t_vpn (m_rtlb m i) AND 255 \<and> \<not> hooks_cover_page (m_rhooks m) (t_vpn (m_rtlb m i)) \<and>
     (\<exists>p. lookup m (t_vpn (m_rtlb m i)) = Some p \<and> p_prot (m_pages m p) AND 1 \<noteq> 0 \<and>
        t_data (m_rtlb m i) = page_data m p))"

definition wtlb_ok :: "'a memory_scheme \<Rightarrow> bool" where
  "wtlb_ok m \<longleftrightarrow> (\<forall>i. t_vpn (m_wtlb m i) \<noteq> noVPN \<longrightarrow>
     i = t_vpn (m_wtlb m i) AND 255 \<and> \<not> hooks_cover_page (m_whooks m) (t_vpn (m_wtlb m i)) \<and>
     (\<exists>p. lookup m (t_vpn (m_wtlb m i)) = Some p \<and> p_prot (m_pages m p) AND 2 \<noteq> 0 \<and>
        p_data (m_pages m p) = Some (t_data (m_wtlb m i)) \<and> p_code (m_pages m p) = None))"

definition ctlb_ok :: "'a memory_scheme \<Rightarrow> bool" where
  "ctlb_ok m \<longleftrightarrow> (\<forall>i. c_vpn (m_ctlb m i) \<noteq> noVPN \<longrightarrow>
     i = c_vpn (m_ctlb m i) AND 63 \<and>
     (\<exists>p. lookup m (c_vpn (m_ctlb m i)) = Some p \<and> p_prot (m_pages m p) AND 4 \<noteq> 0 \<and>
        c_code (m_ctlb m i) \<noteq> None \<and> p_code (m_pages m p) = c_code (m_ctlb m i)))"

definition fetch_ok :: "'a memory_scheme \<Rightarrow> bool" where
  "fetch_ok m \<longleftrightarrow> (m_fetchVPN m \<noteq> noVPN \<longrightarrow>
     (\<exists>p. lookup m (m_fetchVPN m) = Some p \<and> p_prot (m_pages m p) AND 4 \<noteq> 0 \<and>
        m_fetchCode m \<noteq> None \<and> p_code (m_pages m p) = m_fetchCode m))"

definition core_inv :: "(u32 \<Rightarrow> u64 \<Rightarrow> inst) \<Rightarrow> 'a memory_scheme \<Rightarrow> bool" where
  "core_inv D m \<longleftrightarrow> pt_ok m \<and> data_ok m \<and> code_ok m \<and> insts_ok D m"

definition mem_inv :: "(u32 \<Rightarrow> u64 \<Rightarrow> inst) \<Rightarrow> 'a memory_scheme \<Rightarrow> bool" where
  "mem_inv D m \<longleftrightarrow> core_inv D m \<and> rtlb_ok m \<and> wtlb_ok m \<and> ctlb_ok m \<and> fetch_ok m"

lemmas inv_defs = mem_inv_def core_inv_def pt_ok_def data_ok_def code_ok_def insts_ok_def
  rtlb_ok_def wtlb_ok_def ctlb_ok_def fetch_ok_def

lemma mem_inv_core: "mem_inv D m \<Longrightarrow> core_inv D m"
  by (simp add: mem_inv_def)

lemma lookup_inj: "core_inv D m \<Longrightarrow> lookup m v = Some p \<Longrightarrow> lookup m w = Some p \<Longrightarrow> v = w"
  by (auto simp: core_inv_def pt_ok_def)

lemma lookup_alloc: "core_inv D m \<Longrightarrow> lookup m v = Some p \<Longrightarrow> p < m_npage m"
  by (auto simp: core_inv_def pt_ok_def)

lemma lookup_noVPN [simp]: "lookup m noVPN = None"
proof (rule lookup_not_ok)
  have "bit (drop_bit 36 noVPN) 0"
    by (simp add: bit_simps)
  then show "\<not> vpn_ok noVPN"
    by (metis bit_0_eq bot_apply bot_bool_def)
qed

lemma page_raw_frame:
  "p_data (m_pages m' p) = p_data (m_pages m p) \<Longrightarrow>
   (\<And>d. p_data (m_pages m p) = Some d \<Longrightarrow> m_arrs m' d = m_arrs m d) \<Longrightarrow>
   page_raw m' p pc = page_raw m p pc"
  by (auto simp: page_raw_def arr_bytes_def split: option.splits)

subsection \<open>Flushing, mapping, unmapping, protecting\<close>

lemma flush_frame [simp]:
  "lookup (flush_tlb m) = lookup m" "m_pages (flush_tlb m) = m_pages m"
  "m_npage (flush_tlb m) = m_npage m" "m_arrs (flush_tlb m) = m_arrs m"
  "m_narr (flush_tlb m) = m_narr m" "m_codes (flush_tlb m) = m_codes m"
  "m_ncode (flush_tlb m) = m_ncode m" "m_rhooks (flush_tlb m) = m_rhooks m"
  "m_whooks (flush_tlb m) = m_whooks m"
  by (simp_all add: flush_tlb_def)

lemma core_inv_cong:
  assumes "core_inv D m" "lookup m' = lookup m" "m_pages m' = m_pages m" "m_npage m' = m_npage m"
    "m_arrs m' = m_arrs m" "m_narr m' = m_narr m" "m_codes m' = m_codes m" "m_ncode m' = m_ncode m"
  shows "core_inv D m'"
proof -
  have "page_raw m' p pc = page_raw m p pc" for p pc
    using assms by (intro page_raw_frame) auto
  then show ?thesis
    using assms by (simp add: core_inv_def pt_ok_def data_ok_def code_ok_def insts_ok_def)
qed

lemma flush_inv: "core_inv D m \<Longrightarrow> mem_inv D (flush_tlb m)"
proof -
  assume "core_inv D m"
  then have "core_inv D (flush_tlb m)"
    by (rule core_inv_cong) simp_all
  then show ?thesis
    by (simp add: mem_inv_def rtlb_ok_def wtlb_ok_def ctlb_ok_def fetch_ok_def flush_tlb_def)
qed

lemma set_page_None_core: "vpn_ok v \<Longrightarrow> core_inv D m \<Longrightarrow> core_inv D (set_page v None m)"
proof -
  assume v: "vpn_ok v" and m: "core_inv D m"
  have r: "page_raw (set_page v None m) p pc = page_raw m p pc" for p pc
    by (rule page_raw_frame) simp_all
  show ?thesis
    using m v by (auto simp: core_inv_def pt_ok_def data_ok_def code_ok_def insts_ok_def r
        lookup_set_page split: if_splits)
qed

lemma mem_unmap_inv: "mem_inv D m \<Longrightarrow> mem_inv D (snd (mem_unmap a n m))"
proof (cases "check_mapped a n m")
  case (Inl e)
  assume "mem_inv D m"
  with Inl show ?thesis by (simp add: mem_unmap_def)
next
  case (Inr r)
  assume m: "mem_inv D m"
  obtain lo hi where r: "r = (lo, hi)" by (cases r)
  with Inr have "range_vpns a n = Inr (lo, hi)"
    by (auto simp: check_mapped_def split: sum.splits option.splits prod.splits)
  then have ok: "\<forall>v \<in> set (vpn_list lo hi). vpn_ok v"
    using range_vpn_ok by blast
  have fold: "\<forall>v \<in> set vs. vpn_ok v \<Longrightarrow> core_inv D m \<Longrightarrow> core_inv D (fold (\<lambda>v. set_page v None) vs m)" for vs
    by (induction vs arbitrary: m) (simp_all add: set_page_None_core)
  show ?thesis
    using Inr r fold [OF ok mem_inv_core [OF m]] by (simp add: mem_unmap_def flush_inv)
qed

lemma set_prot_core: "core_inv D m \<Longrightarrow> core_inv D (set_prot prot v m)"
proof -
  assume m: "core_inv D m"
  have r: "page_raw (set_prot prot v m) p pc = page_raw m p pc" for p pc
    by (rule page_raw_frame) (auto simp: set_prot_def split: option.splits)
  have l: "lookup (set_prot prot v m) = lookup m"
    by (simp add: set_prot_def split: option.splits)
  have d: "p_data (m_pages (set_prot prot v m) p) = p_data (m_pages m p)"
    "p_code (m_pages (set_prot prot v m) p) = p_code (m_pages m p)" for p
    by (auto simp: set_prot_def split: option.splits)
  have f: "m_npage (set_prot prot v m) = m_npage m" "m_arrs (set_prot prot v m) = m_arrs m"
    "m_narr (set_prot prot v m) = m_narr m" "m_codes (set_prot prot v m) = m_codes m"
    "m_ncode (set_prot prot v m) = m_ncode m"
    by (auto simp: set_prot_def split: option.splits)
  show ?thesis
    using m by (simp add: core_inv_def pt_ok_def data_ok_def code_ok_def insts_ok_def r l d f)
qed

lemma mem_protect_inv: "mem_inv D m \<Longrightarrow> mem_inv D (snd (mem_protect a n prot m))"
proof -
  assume m: "mem_inv D m"
  have fold: "core_inv D m \<Longrightarrow> core_inv D (fold (set_prot prot) vs m)" for vs
    by (induction vs arbitrary: m) (simp_all add: set_prot_core)
  show ?thesis
    using m fold [OF mem_inv_core [OF m]]
    by (auto simp: mem_protect_def flush_inv split: sum.splits prod.splits)
qed

end
