(* ===== verification/Memory_Keep.thy ===== *)
theory Memory_Keep
  imports Memory_Inv
begin

text \<open>
  Every access of theory Guest_Access keeps \<open>mem_inv\<close>, provided the caller's hooks do
  (\<open>env_ok\<close>): a hook function that calls the exported operations of the memory satisfies that by
  the lemmas of this theory.
\<close>

lemma insts_ok_mono:
  assumes "insts_ok D m" and "lookup m' = lookup m"
    and "\<And>v q c. lookup m v = Some q \<Longrightarrow> p_code (m_pages m' q) = Some c \<Longrightarrow>
      p_code (m_pages m q) = Some c \<and> cp_insts (m_codes m' c) = cp_insts (m_codes m c) \<and>
      (\<forall>pc. page_raw m' q pc = page_raw m q pc)"
  shows "insts_ok D m'"
  unfolding insts_ok_def assms(2)
proof (intro allI impI, elim conjE)
  fix v q c s
  assume l: "lookup m v = Some q" and c: "p_code (m_pages m' q) = Some c" and s: "s AND 0x3ff = s"
    and f: "i_fn (cp_insts (m_codes m' c) s) \<noteq> None"
  note k = assms(3) [OF l c]
  show "cp_insts (m_codes m' c) s = decoded D (page_raw m' q (slot_pc v s)) (slot_pc v s)"
    using assms(1) l k s f unfolding insts_ok_def by simp
qed

lemma mem_inv_insts: "mem_inv D m \<Longrightarrow> insts_ok D m"
  by (simp add: mem_inv_def core_inv_def)

subsection \<open>Mapping a fresh page\<close>

lemma map_page_core:
  assumes v: "vpn_ok v" and free: "lookup m v = None" and m: "mem_inv D m"
  shows "mem_inv D (map_page prot v m)"
proof -
  let ?p = "m_npage m"
  let ?m' = "map_page prot v m"
  have l: "lookup ?m' w = (if w = v then Some ?p else lookup m w)" for w
    using v by (simp add: map_page_def lookup_set_page)
  have pg: "m_pages ?m' q = (if q = ?p then \<lparr>p_data = None, p_prot = ucast prot, p_code = None\<rparr>
      else m_pages m q)" for q
    by (simp add: map_page_def)
  have f: "m_npage ?m' = Suc ?p" "m_arrs ?m' = m_arrs m" "m_narr ?m' = m_narr m"
    "m_codes ?m' = m_codes m" "m_ncode ?m' = m_ncode m" "m_rtlb ?m' = m_rtlb m"
    "m_wtlb ?m' = m_wtlb m" "m_ctlb ?m' = m_ctlb m" "m_fetchVPN ?m' = m_fetchVPN m"
    "m_fetchCode ?m' = m_fetchCode m" "m_rhooks ?m' = m_rhooks m" "m_whooks ?m' = m_whooks m"
    by (simp_all add: map_page_def)
  have old: "lookup m w = Some q \<Longrightarrow> q < ?p \<and> w \<noteq> v" for w q
    using m free by (auto dest: lookup_alloc [OF mem_inv_core])
  have pd: "lookup m w = Some q \<Longrightarrow> page_data ?m' q = page_data m q" for w q
    using old [of w q] by (simp add: page_data_def pg)
  have pr: "lookup m w = Some q \<Longrightarrow> page_raw ?m' q pc = page_raw m q pc" for w q pc
    using old [of w q] by (intro page_raw_frame) (simp_all add: pg f)
  have c: "core_inv D ?m'"
    unfolding core_inv_def
  proof (intro conjI)
    show "pt_ok ?m'"
      using m old by (auto simp: pt_ok_def l f mem_inv_def core_inv_def less_Suc_eq
          split: if_splits)
    show "data_ok ?m'"
      using m by (auto simp: data_ok_def pg f mem_inv_def core_inv_def less_Suc_eq)
    show "code_ok ?m'"
      using m by (auto simp: code_ok_def pg f mem_inv_def core_inv_def less_Suc_eq)
    show "insts_ok D ?m'"
      using m old pr unfolding insts_ok_def mem_inv_def core_inv_def
      by (simp add: pg l f) (metis less_irrefl)
  qed
  have "rtlb_ok ?m'" "wtlb_ok ?m'" "ctlb_ok ?m'" "fetch_ok ?m'"
    using m old pd unfolding mem_inv_def rtlb_ok_def wtlb_ok_def ctlb_ok_def fetch_ok_def
    by (simp_all add: l f pg) (metis less_irrefl)+
  with c show ?thesis by (simp add: mem_inv_def)
qed

lemma mem_map_fold:
  assumes "mem_inv D m" "\<forall>v \<in> set vs. vpn_ok v \<and> lookup m v = None" "distinct vs"
  shows "mem_inv D (fold (map_page prot) vs m)"
  using assms
proof (induction vs arbitrary: m)
  case Nil
  then show ?case by simp
next
  case (Cons v vs)
  have "mem_inv D (map_page prot v m)"
    using Cons.prems by (auto intro: map_page_core)
  moreover have "\<forall>w \<in> set vs. vpn_ok w \<and> lookup (map_page prot v m) w = None"
    using Cons.prems by (auto simp: map_page_def lookup_set_page)
  ultimately show ?case
    using Cons by simp
qed

lemma distinct_vpn_list: "distinct (vpn_list lo hi)"
proof -
  have lt: "n < 2 ^ LENGTH(64)" if "n < unat hi" for n
    using that unsigned_less [where w = hi and 'a = nat] by simp
  have "inj_on (of_nat :: nat \<Rightarrow> u64) {unat lo ..< unat hi}"
  proof (rule inj_onI)
    fix x y
    assume "x \<in> {unat lo ..< unat hi}" "y \<in> {unat lo ..< unat hi}" "(of_nat x :: u64) = of_nat y"
    then show "x = y"
      using lt [of x] lt [of y] by (simp add: word_of_nat_eq_iff take_bit_nat_eq_self)
  qed
  then show ?thesis
    by (simp add: vpn_list_def distinct_map)
qed

lemma mem_map_inv: "mem_inv D m \<Longrightarrow> mem_inv D (snd (mem_map a n prot m))"
proof -
  assume m: "mem_inv D m"
  have "range_vpns a n = Inr (lo, hi) \<Longrightarrow> find (\<lambda>v. lookup m v \<noteq> None) (vpn_list lo hi) = None \<Longrightarrow>
      mem_inv D (fold (map_page prot) (vpn_list lo hi) m)" for lo hi
    using m distinct_vpn_list range_vpn_ok by (intro mem_map_fold) (auto simp: find_None_iff)
  then show ?thesis
    using m by (auto simp: mem_map_def split: sum.splits option.splits)
qed

subsection \<open>Making a page writable\<close>

lemma hooks_cover_Nil [simp]: "\<not> hooks_cover_page [] v"
  by (simp add: hooks_cover_page_def)

lemma alloc_data_frame [simp]:
  "lookup (alloc_data v p m) = lookup m" "m_npage (alloc_data v p m) = m_npage m"
  "m_codes (alloc_data v p m) = m_codes m" "m_ncode (alloc_data v p m) = m_ncode m"
  "m_wtlb (alloc_data v p m) = m_wtlb m" "m_ctlb (alloc_data v p m) = m_ctlb m"
  "m_fetchVPN (alloc_data v p m) = m_fetchVPN m" "m_fetchCode (alloc_data v p m) = m_fetchCode m"
  "m_rhooks (alloc_data v p m) = m_rhooks m" "m_whooks (alloc_data v p m) = m_whooks m"
  "m_invalid (alloc_data v p m) = m_invalid m" "m_pc (alloc_data v p m) = m_pc m"
  "memory.more (alloc_data v p m) = memory.more m"
  "m_narr (alloc_data v p m) = Suc (m_narr m)"
  "m_arrs (alloc_data v p m) = (m_arrs m)(m_narr m := (\<lambda>_. 0))"
  "m_pages (alloc_data v p m) = (m_pages m)(p := (m_pages m p)\<lparr>p_data := Some (m_narr m)\<rparr>)"
  by (simp_all add: alloc_data_def Let_def)

lemma alloc_data_rtlb:
  "m_rtlb (alloc_data v p m) i =
     (if i = v AND 255 \<and> t_vpn (m_rtlb m i) = v then (m_rtlb m i)\<lparr>t_vpn := noVPN\<rparr> else m_rtlb m i)"
  by (auto simp: alloc_data_def Let_def)

lemma le_val_zeros [simp]: "le_val (map (\<lambda>k. 0) ks) = 0"
  by (induction ks) auto

lemma alloc_data_inv:
  assumes l: "lookup m v = Some p" and n: "p_data (m_pages m p) = None" and m: "mem_inv D m"
  shows "mem_inv D (alloc_data v p m)"
proof -
  let ?m' = "alloc_data v p m"
  have p: "p < m_npage m"
    using l m by (auto dest: lookup_alloc [OF mem_inv_core])
  have dok: "data_ok m"
    using m by (simp add: mem_inv_def core_inv_def)
  have raw: "q < m_npage m \<Longrightarrow> page_raw ?m' q pc = page_raw m q pc" for q pc
  proof (cases "q = p")
    case True
    then show ?thesis
      using n by (simp add: page_raw_def arr_bytes_def del: upt.simps)
  next
    case False
    assume "q < m_npage m"
    with False dok show ?thesis
      by (intro page_raw_frame) (auto simp: data_ok_def)
  qed
  have pd: "q \<noteq> p \<Longrightarrow> page_data ?m' q = page_data m q" for q
    by (simp add: page_data_def)
  have fields: "p_prot (m_pages ?m' q) = p_prot (m_pages m q)"
    "p_code (m_pages ?m' q) = p_code (m_pages m q)" for q
    by simp_all
  have dat: "p_data (m_pages ?m' q) = (if q = p then Some (m_narr m) else p_data (m_pages m q))" for q
    by simp
  have c: "core_inv D ?m'"
    unfolding core_inv_def
  proof (intro conjI)
    show "pt_ok ?m'" using m by (simp add: pt_ok_def mem_inv_def core_inv_def)
    show "data_ok ?m'"
      unfolding data_ok_def dat alloc_data_frame
      using dok unfolding data_ok_def by (auto simp: less_Suc_eq split: if_splits)
    show "code_ok ?m'" using m by (simp add: code_ok_def mem_inv_def core_inv_def)
    show "insts_ok D ?m'"
    proof (rule insts_ok_mono [OF mem_inv_insts [OF m]])
      fix v' q c
      assume a: "lookup m v' = Some q" and c: "p_code (m_pages ?m' q) = Some c"
      show "p_code (m_pages m q) = Some c \<and> cp_insts (m_codes ?m' c) = cp_insts (m_codes m c) \<and>
          (\<forall>pc. page_raw ?m' q pc = page_raw m q pc)"
        using c raw [OF lookup_alloc [OF mem_inv_core [OF m] a]] by (simp split: if_splits)
    qed simp
  qed
  have "rtlb_ok ?m'"
    unfolding rtlb_ok_def
  proof (intro allI impI)
    fix i
    assume i: "t_vpn (m_rtlb ?m' i) \<noteq> noVPN"
    then have e: "m_rtlb ?m' i = m_rtlb m i" and ne: "\<not> (i = v AND 255 \<and> t_vpn (m_rtlb m i) = v)"
      by (auto simp: alloc_data_rtlb split: if_splits)
    with i m obtain q where q: "i = t_vpn (m_rtlb m i) AND 255"
      "\<not> hooks_cover_page (m_rhooks m) (t_vpn (m_rtlb m i))"
      "lookup m (t_vpn (m_rtlb m i)) = Some q" "p_prot (m_pages m q) AND 1 \<noteq> 0"
      "t_data (m_rtlb m i) = page_data m q"
      by (fastforce simp: mem_inv_def rtlb_ok_def)
    have "t_vpn (m_rtlb m i) \<noteq> v"
      using q(1) ne by metis
    then have "q \<noteq> p"
      using q(3) l m lookup_inj mem_inv_core by metis
    then show "i = t_vpn (m_rtlb ?m' i) AND 255 \<and>
        \<not> hooks_cover_page (m_rhooks ?m') (t_vpn (m_rtlb ?m' i)) \<and>
        (\<exists>p. lookup ?m' (t_vpn (m_rtlb ?m' i)) = Some p \<and> p_prot (m_pages ?m' p) AND 1 \<noteq> 0 \<and>
           t_data (m_rtlb ?m' i) = page_data ?m' p)"
      using q e by (simp add: fields pd del: alloc_data_frame(16))
  qed
  moreover have "wtlb_ok ?m'"
    using m n unfolding mem_inv_def wtlb_ok_def fields dat alloc_data_frame by fastforce
  moreover have "ctlb_ok ?m'" "fetch_ok ?m'"
    using m by (simp_all add: mem_inv_def ctlb_ok_def fetch_ok_def fields del: alloc_data_frame(16))
  ultimately show ?thesis
    using c by (simp add: mem_inv_def)
qed


lemma drop_code_frame [simp]:
  "lookup (drop_code v p m) = lookup m" "m_npage (drop_code v p m) = m_npage m"
  "m_codes (drop_code v p m) = m_codes m" "m_ncode (drop_code v p m) = m_ncode m"
  "m_rtlb (drop_code v p m) = m_rtlb m" "m_wtlb (drop_code v p m) = m_wtlb m"
  "m_rhooks (drop_code v p m) = m_rhooks m" "m_whooks (drop_code v p m) = m_whooks m"
  "m_invalid (drop_code v p m) = m_invalid m" "m_pc (drop_code v p m) = m_pc m"
  "memory.more (drop_code v p m) = memory.more m"
  "m_narr (drop_code v p m) = m_narr m" "m_arrs (drop_code v p m) = m_arrs m"
  "m_pages (drop_code v p m) = (m_pages m)(p := (m_pages m p)\<lparr>p_code := None\<rparr>)"
  by (simp_all add: drop_code_def Let_def)

lemma drop_code_caches:
  "m_ctlb (drop_code v p m) i =
     (if i = v AND 63 \<and> c_vpn (m_ctlb m i) = v then \<lparr>c_vpn = noVPN, c_code = None\<rparr> else m_ctlb m i)"
  "m_fetchVPN (drop_code v p m) = (if m_fetchVPN m = v then noVPN else m_fetchVPN m)"
  "m_fetchCode (drop_code v p m) = (if m_fetchVPN m = v then None else m_fetchCode m)"
  by (auto simp: drop_code_def Let_def)

lemma drop_code_inv:
  assumes l: "lookup m v = Some p" and m: "mem_inv D m"
  shows "mem_inv D (drop_code v p m)"
proof -
  let ?m' = "drop_code v p m"
  have pr: "page_raw ?m' q pc = page_raw m q pc" for q pc
    by (rule page_raw_frame) simp_all
  have f: "p_prot (m_pages ?m' q) = p_prot (m_pages m q)"
    "p_data (m_pages ?m' q) = p_data (m_pages m q)"
    "p_code (m_pages ?m' q) = (if q = p then None else p_code (m_pages m q))" for q
    by simp_all
  have pd: "page_data ?m' q = page_data m q" for q
    by (simp add: page_data_def)
  have inj: "lookup m w = Some p \<Longrightarrow> w = v" for w
    using l m lookup_inj mem_inv_core by metis
  note fr = drop_code_frame(1-13)
  have c: "core_inv D ?m'"
    unfolding core_inv_def
  proof (intro conjI)
    show "pt_ok ?m'" using m by (simp add: pt_ok_def mem_inv_def core_inv_def)
    show "data_ok ?m'"
      using m unfolding data_ok_def mem_inv_def core_inv_def f fr by blast
    show "code_ok ?m'"
      using m unfolding code_ok_def mem_inv_def core_inv_def f fr by (auto split: if_splits)
    show "insts_ok D ?m'"
      by (rule insts_ok_mono [OF mem_inv_insts [OF m]]) (auto simp: pr split: if_splits)
  qed
  have "rtlb_ok ?m'"
    using m unfolding rtlb_ok_def mem_inv_def f fr pd by blast
  moreover have "wtlb_ok ?m'"
    using m unfolding wtlb_ok_def mem_inv_def f fr by fastforce
  moreover have "ctlb_ok ?m'"
    unfolding ctlb_ok_def
  proof (intro allI impI)
    fix i
    assume i: "c_vpn (m_ctlb ?m' i) \<noteq> noVPN"
    then have e: "m_ctlb ?m' i = m_ctlb m i" and ne: "\<not> (i = v AND 63 \<and> c_vpn (m_ctlb m i) = v)"
      by (auto simp: drop_code_caches split: if_splits)
    with i m obtain q where q: "i = c_vpn (m_ctlb m i) AND 63"
      "lookup m (c_vpn (m_ctlb m i)) = Some q" "p_prot (m_pages m q) AND 4 \<noteq> 0"
      "c_code (m_ctlb m i) \<noteq> None" "p_code (m_pages m q) = c_code (m_ctlb m i)"
      by (fastforce simp: mem_inv_def ctlb_ok_def)
    have "q \<noteq> p"
      using q(1,2) ne inj by metis
    then show "i = c_vpn (m_ctlb ?m' i) AND 63 \<and>
        (\<exists>p. lookup ?m' (c_vpn (m_ctlb ?m' i)) = Some p \<and> p_prot (m_pages ?m' p) AND 4 \<noteq> 0 \<and>
           c_code (m_ctlb ?m' i) \<noteq> None \<and> p_code (m_pages ?m' p) = c_code (m_ctlb ?m' i))"
      unfolding e f fr using q by auto
  qed
  moreover have "fetch_ok ?m'"
  proof (cases "m_fetchVPN m = v")
    case True
    then show ?thesis by (simp add: fetch_ok_def drop_code_caches)
  next
    case False
    with m obtain "m_fetchVPN m \<noteq> noVPN \<Longrightarrow>
       \<exists>q. q \<noteq> p \<and> lookup m (m_fetchVPN m) = Some q \<and> p_prot (m_pages m q) AND 4 \<noteq> 0 \<and>
        m_fetchCode m \<noteq> None \<and> p_code (m_pages m q) = m_fetchCode m"
      using inj by (fastforce simp: mem_inv_def fetch_ok_def)
    with False show ?thesis
      unfolding fetch_ok_def f fr drop_code_caches by auto
  qed
  ultimately show ?thesis
    using c by (simp add: mem_inv_def)
qed

lemma writable_inv:
  assumes l: "lookup m v = Some p" and m: "mem_inv D m"
  shows "mem_inv D (writable v p m)"
proof -
  let ?m1 = "if p_data (m_pages m p) = None then alloc_data v p m else m"
  have 1: "mem_inv D ?m1"
    using l m alloc_data_inv by auto
  have 2: "lookup ?m1 v = Some p"
    using l by auto
  show ?thesis
    using drop_code_inv [OF 2 1] 1 by (simp add: writable_def Let_def)
qed

text \<open>What \<open>writable\<close> guarantees about the page and leaves alone.\<close>

lemma writable_frame [simp]:
  "lookup (writable v p m) = lookup m" "m_npage (writable v p m) = m_npage m"
  "m_rhooks (writable v p m) = m_rhooks m" "m_whooks (writable v p m) = m_whooks m"
  "m_invalid (writable v p m) = m_invalid m" "m_pc (writable v p m) = m_pc m"
  "memory.more (writable v p m) = memory.more m" "m_wtlb (writable v p m) = m_wtlb m"
  "p_prot (m_pages (writable v p m) q) = p_prot (m_pages m q)"
  "p_code (m_pages (writable v p m) p) = None"
  by (auto simp: writable_def Let_def)

lemma writable_data: "p_data (m_pages (writable v p m) p) = Some (page_data (writable v p m) p)"
  by (auto simp: writable_def Let_def page_data_def split: option.splits)

lemma writable_data_other: "q \<noteq> p \<Longrightarrow> p_data (m_pages (writable v p m) q) = p_data (m_pages m q)"
  by (auto simp: writable_def Let_def)

subsection \<open>Storing bytes in a page\<close>

lemma arr_put_frame [simp]:
  "lookup (arr_put d off bs m) = lookup m" "m_npage (arr_put d off bs m) = m_npage m"
  "m_codes (arr_put d off bs m) = m_codes m" "m_ncode (arr_put d off bs m) = m_ncode m"
  "m_rtlb (arr_put d off bs m) = m_rtlb m" "m_wtlb (arr_put d off bs m) = m_wtlb m"
  "m_ctlb (arr_put d off bs m) = m_ctlb m" "m_fetchVPN (arr_put d off bs m) = m_fetchVPN m"
  "m_fetchCode (arr_put d off bs m) = m_fetchCode m"
  "m_rhooks (arr_put d off bs m) = m_rhooks m" "m_whooks (arr_put d off bs m) = m_whooks m"
  "m_invalid (arr_put d off bs m) = m_invalid m" "m_pc (arr_put d off bs m) = m_pc m"
  "memory.more (arr_put d off bs m) = memory.more m"
  "m_narr (arr_put d off bs m) = m_narr m" "m_pages (arr_put d off bs m) = m_pages m"
  "m_arrs (arr_put d off bs m) = (m_arrs m)(d := put_bytes off bs (m_arrs m d))"
  "page_data (arr_put d off bs m) = page_data m"
  by (simp_all add: arr_put_def page_data_def fun_eq_iff)

lemma arr_put_inv:
  assumes m: "mem_inv D m" and p: "p < m_npage m" and d: "p_data (m_pages m p) = Some d"
    and c: "p_code (m_pages m p) = None"
  shows "mem_inv D (arr_put d off bs m)"
proof -
  let ?m' = "arr_put d off bs m"
  have dok: "data_ok m"
    using m by (simp add: mem_inv_def core_inv_def)
  have inj: "q < m_npage m \<Longrightarrow> p_data (m_pages m q) = Some d \<Longrightarrow> q = p" for q
    using dok p d unfolding data_ok_def by blast
  have pr: "q < m_npage m \<Longrightarrow> p_code (m_pages m q) \<noteq> None \<Longrightarrow> page_raw ?m' q pc = page_raw m q pc"
    for q pc
    using inj [of q] c by (intro page_raw_frame) auto
  have "core_inv D ?m'"
    unfolding core_inv_def
  proof (intro conjI)
    show "pt_ok ?m'" using m by (simp add: pt_ok_def mem_inv_def core_inv_def)
    show "data_ok ?m'" using dok p d by (auto simp: data_ok_def)
    show "code_ok ?m'" using m by (simp add: code_ok_def mem_inv_def core_inv_def)
    show "insts_ok D ?m'"
    proof (rule insts_ok_mono [OF mem_inv_insts [OF m]])
      fix v q c
      assume "lookup m v = Some q" and "p_code (m_pages ?m' q) = Some c"
      then show "p_code (m_pages m q) = Some c \<and> cp_insts (m_codes ?m' c) = cp_insts (m_codes m c) \<and>
          (\<forall>pc. page_raw ?m' q pc = page_raw m q pc)"
        using pr [OF lookup_alloc [OF mem_inv_core [OF m]]] by simp
    qed simp
  qed
  then show ?thesis
    using m by (simp add: mem_inv_def rtlb_ok_def wtlb_ok_def ctlb_ok_def fetch_ok_def)
qed

lemma write_page_inv:
  assumes l: "lookup m v = Some p" and m: "mem_inv D m"
  shows "mem_inv D (arr_put (page_data (writable v p m) p) off bs (writable v p m))"
  using lookup_alloc [OF mem_inv_core [OF m] l]
  by (intro arr_put_inv [where p = p] writable_inv l m) (simp_all add: writable_data)

end
