(* ===== verification/Access_Keep.thy ===== *)
theory Access_Keep
  imports Memory_Keep
begin

text \<open>
  The loads, stores, host copies and hook operations keep \<open>mem_inv\<close>, and what a successful
  permission check says about the page it returns.
\<close>

definition env_ok :: "(u32 \<Rightarrow> u64 \<Rightarrow> inst) \<Rightarrow> ('a memory_scheme) env \<Rightarrow> bool" where
  "env_ok D E \<longleftrightarrow>
     (\<forall>i fk a n v m. mem_inv D m \<longrightarrow> mem_inv D (snd (inv_fn E i fk a n v m))) \<and>
     (\<forall>i a n v m. mem_inv D m \<longrightarrow> mem_inv D (mem_fn E i a n v m))"

lemma call_invalid_inv:
  "env_ok D E \<Longrightarrow> mem_inv D m \<Longrightarrow> mem_inv D (snd (call_invalid E is fk a n v h m))"
proof (induction "is" arbitrary: h m)
  case Nil
  then show ?case by simp
next
  case (Cons i "is")
  have "mem_inv D (snd (inv_fn E i fk a n v m))"
    using Cons.prems by (auto simp: env_ok_def)
  then show ?case
    using Cons by (simp add: split_beta)
qed

lemma call_mem_hooks_inv:
  "env_ok D E \<Longrightarrow> mem_inv D m \<Longrightarrow> mem_inv D (call_mem_hooks E hs a n v m)"
  by (induction hs arbitrary: m) (auto simp: env_ok_def)

subsection \<open>Permission checks\<close>

lemma page_access_Inr:
  "page_access k a m = Inr p \<longleftrightarrow>
     lookup m (vpn_of a) = Some p \<and> p_prot (m_pages m p) AND need_prot k \<noteq> 0"
  by (auto simp: page_access_def split: option.splits)

lemma guest_page_Inr:
  "guest_page E k a n v m = (Inr p, t) \<Longrightarrow>
     lookup t (vpn_of a) = Some p \<and> p_prot (m_pages t p) AND need_prot k \<noteq> 0"
  by (auto simp: guest_page_def page_access_Inr split: sum.splits prod.splits if_splits)

lemma guest_page_ok:
  "lookup m (vpn_of a) = Some p \<Longrightarrow> p_prot (m_pages m p) AND need_prot k \<noteq> 0 \<Longrightarrow>
   guest_page E k a n v m = (Inr p, m)"
  by (simp add: guest_page_def page_access_Inr [THEN iffD2])

lemma guest_page_keeps [keep_intros]:
  fixes E :: "('a memory_scheme) env"
  shows "env_ok D E \<Longrightarrow> keeps (mem_inv D) (guest_page E k a n v)"
  unfolding keeps_def
proof (intro allI impI)
  fix s :: "'a memory_scheme"
  assume E: "env_ok D E" and s: "mem_inv D s"
  show "mem_inv D (snd (guest_page E k a n v s))"
  proof (cases "page_access k a s")
    case (Inl fk)
    then show ?thesis
      using call_invalid_inv [OF E s, of "m_invalid s" fk a n v False]
      by (cases "call_invalid E (m_invalid s) fk a n v False s")
        (simp add: guest_page_def split: sum.splits)
  next
    case (Inr p)
    then show ?thesis using s by (simp add: guest_page_def)
  qed
qed

subsection \<open>TLB fills\<close>

lemma set_tlb_frame [simp]:
  "lookup (set_rtlb v d m) = lookup m" "lookup (set_wtlb v d m) = lookup m"
  "m_pages (set_rtlb v d m) = m_pages m" "m_pages (set_wtlb v d m) = m_pages m"
  "m_npage (set_rtlb v d m) = m_npage m" "m_npage (set_wtlb v d m) = m_npage m"
  "m_arrs (set_rtlb v d m) = m_arrs m" "m_arrs (set_wtlb v d m) = m_arrs m"
  "m_pc (set_rtlb v d m) = m_pc m" "m_pc (set_wtlb v d m) = m_pc m"
  "memory.more (set_rtlb v d m) = memory.more m" "memory.more (set_wtlb v d m) = memory.more m"
  "m_rhooks (set_rtlb v d m) = m_rhooks m" "m_rhooks (set_wtlb v d m) = m_rhooks m"
  "m_whooks (set_rtlb v d m) = m_whooks m" "m_whooks (set_wtlb v d m) = m_whooks m"
  "m_invalid (set_rtlb v d m) = m_invalid m" "m_invalid (set_wtlb v d m) = m_invalid m"
  by (simp_all add: set_rtlb_def set_wtlb_def)

lemma set_tlb_core: "core_inv D m \<Longrightarrow> core_inv D (set_rtlb v d m)"
  "core_inv D m \<Longrightarrow> core_inv D (set_wtlb v d m)"
  by (erule core_inv_cong, simp_all add: set_rtlb_def set_wtlb_def)+

lemma set_rtlb_inv:
  assumes "mem_inv D m" "lookup m v = Some p" "p_prot (m_pages m p) AND 1 \<noteq> 0"
    "\<not> hooks_cover_page (m_rhooks m) v"
  shows "mem_inv D (set_rtlb v (page_data m p) m)"
proof -
  have "rtlb_ok (set_rtlb v (page_data m p) m)"
    using assms by (auto simp: mem_inv_def rtlb_ok_def set_rtlb_def page_data_def)
  moreover have "wtlb_ok (set_rtlb v d m)" "ctlb_ok (set_rtlb v d m)" "fetch_ok (set_rtlb v d m)" for d
    using assms(1) by (auto simp: mem_inv_def wtlb_ok_def ctlb_ok_def fetch_ok_def set_rtlb_def)
  ultimately show ?thesis
    using assms(1) by (simp add: mem_inv_def set_tlb_core)
qed

lemma set_wtlb_inv:
  assumes "mem_inv D m" "lookup m v = Some p" "p_prot (m_pages m p) AND 2 \<noteq> 0"
    "p_data (m_pages m p) = Some d" "p_code (m_pages m p) = None"
    "\<not> hooks_cover_page (m_whooks m) v"
  shows "mem_inv D (set_wtlb v d m)"
proof -
  have "wtlb_ok (set_wtlb v d m)"
    using assms by (auto simp: mem_inv_def wtlb_ok_def set_wtlb_def)
  moreover have "rtlb_ok (set_wtlb v d m)" "ctlb_ok (set_wtlb v d m)" "fetch_ok (set_wtlb v d m)"
    using assms(1) by (auto simp: mem_inv_def rtlb_ok_def ctlb_ok_def fetch_ok_def set_wtlb_def
        page_data_def)
  ultimately show ?thesis
    using assms(1) by (simp add: mem_inv_def set_tlb_core)
qed

lemma storeN_arr_put: "storeN d off n v m = arr_put d off (le_bytes (acc_len n) v) m"
  by (simp add: storeN_def)

lemma set_wtlb_arr_put: "arr_put d off bs (set_wtlb v e m) = set_wtlb v e (arr_put d off bs m)"
  by (simp add: set_wtlb_def arr_put_def)

lemma need_prot_simps [simp]:
  "need_prot MemRead = 1" "need_prot MemWrite = 2" "need_prot MemFetch = 4"
  by (simp_all add: need_prot_def)

subsection \<open>Loads\<close>

lemma read_slow_keeps [keep_intros]:
  fixes E :: "('a memory_scheme) env"
  assumes E: "env_ok D E"
  shows "keeps (mem_inv D) (read_slow E a n)"
proof -
  note gp = guest_page_keeps [OF E]
  have fits: "keeps (mem_inv D) (bnd (guest_page E MemRead a n 0) (\<lambda>p m.
          if m_rhooks m \<noteq> [] \<and> hooks_cover_page (m_rhooks m) (vpn_of a) then
            bnd (upd (call_mem_hooks E (m_rhooks m) a n 0)) (\<lambda>_.
              bnd (guest_page E MemRead a n 0) (\<lambda>q m2.
                (Inr (loadN m2 (page_data m2 q) (off_of a) n), m2))) m
          else (Inr (loadN m (page_data m p) (off_of a) n), set_rtlb (vpn_of a) (page_data m p) m)))"
  proof (rule keeps_bnd_post [OF gp])
    fix p and s t :: "'a memory_scheme"
    assume t: "mem_inv D t" and g: "guest_page E MemRead a n 0 s = (Inr p, t)"
    note gi = guest_page_Inr [OF g]
    have h: "keeps (mem_inv D) (bnd (upd (call_mem_hooks E hs a n 0)) (\<lambda>_.
              bnd (guest_page E MemRead a n 0) (\<lambda>q m2.
                (Inr (loadN m2 (page_data m2 q) (off_of a) n), m2))))" for hs
      by (intro keeps_bnd keeps_upd gp call_mem_hooks_inv E) (simp_all add: keeps_def)
    show "mem_inv D (snd ((if m_rhooks t \<noteq> [] \<and> hooks_cover_page (m_rhooks t) (vpn_of a) then
            bnd (upd (call_mem_hooks E (m_rhooks t) a n 0)) (\<lambda>_.
              bnd (guest_page E MemRead a n 0) (\<lambda>q m2.
                (Inr (loadN m2 (page_data m2 q) (off_of a) n), m2))) t
          else (Inr (loadN t (page_data t p) (off_of a) n), set_rtlb (vpn_of a) (page_data t p) t))))"
      using t gi keepsD [OF h t] by (auto intro!: set_rtlb_inv)
  qed
  have cross: "keeps (mem_inv D) (\<lambda>m. upd (if m_rhooks m \<noteq> [] then call_mem_hooks E (m_rhooks m) a n 0
                           else (\<lambda>x. x)) m)"
    by (rule keeps_apply) (auto intro!: keeps_upd call_mem_hooks_inv E)
  show ?thesis
    unfolding read_slow_def
    by (intro keeps_if fits keeps_bnd gp cross keeps_gets)
qed

lemma tlb_read_keeps [keep_intros]: "env_ok D E \<Longrightarrow> keeps (mem_inv D) (tlb_read E n a)"
  using read_slow_keeps [of D E a n] by (simp add: keeps_def tlb_read_def Let_def)

lemma readN_keeps [keep_intros]: "env_ok D E \<Longrightarrow> keeps (mem_inv D) (readN E a n)"
  by (simp add: readN_def read8_def read16_def read32_def read64_def tlb_read_keeps)

subsection \<open>Stores\<close>

lemma cross_put_inv: "mem_inv D m \<Longrightarrow> mem_inv D (cross_put a b m)"
  by (auto simp: cross_put_def Let_def split: option.splits intro: write_page_inv)

lemma fold_cross_inv:
  "mem_inv D m \<Longrightarrow> mem_inv D (fold (\<lambda>k. cross_put (f k) (g k)) ks m)"
  by (induction ks arbitrary: m) (auto intro: cross_put_inv)

lemma write_slow_keeps [keep_intros]:
  fixes E :: "('a memory_scheme) env"
  assumes E: "env_ok D E"
  shows "keeps (mem_inv D) (write_slow E a n v)"
proof -
  note gp = guest_page_keeps [OF E]
  let ?w = "\<lambda>q m2. let m3 = writable (vpn_of a) q m2 in storeN (page_data m3 q) (off_of a) n v m3"
  have inner: "keeps (mem_inv D) (bnd (guest_page E MemWrite a n v) (\<lambda>q. upd (?w q)))"
    by (rule keeps_bnd_post [OF gp])
      (auto simp: upd_def Let_def storeN_arr_put dest!: guest_page_Inr intro!: write_page_inv)
  have h: "keeps (mem_inv D) (bnd (upd (call_mem_hooks E hs a n v)) (\<lambda>_.
             bnd (guest_page E MemWrite a n v) (\<lambda>q. upd (?w q))))" for hs
  proof (rule keeps_bnd [OF _ inner])
    show "keeps (mem_inv D) (upd (call_mem_hooks E hs a n v))"
      using E by (intro keeps_upd call_mem_hooks_inv)
  qed
  have fits: "keeps (mem_inv D) (bnd (guest_page E MemWrite a n v) (\<lambda>p m.
          if m_whooks m \<noteq> [] \<and> hooks_cover_page (m_whooks m) (vpn_of a) then
            bnd (upd (call_mem_hooks E (m_whooks m) a n v)) (\<lambda>_.
              bnd (guest_page E MemWrite a n v) (\<lambda>q. upd (?w q))) m
          else
            upd (\<lambda>m2. let m3 = writable (vpn_of a) p m2
                      in storeN (page_data m3 p) (off_of a) n v
                           (set_wtlb (vpn_of a) (page_data m3 p) m3)) m))"
  proof (rule keeps_bnd_post [OF gp])
    fix p and s t :: "'a memory_scheme"
    assume t: "mem_inv D t" and g: "guest_page E MemWrite a n v s = (Inr p, t)"
    let ?m3 = "writable (vpn_of a) p t"
    note gi = guest_page_Inr [OF g]
    have w: "mem_inv D (arr_put (page_data ?m3 p) (off_of a) bs ?m3)" for bs
      using gi t by (intro write_page_inv) auto
    have "mem_inv D (set_wtlb (vpn_of a) (page_data ?m3 p) (arr_put (page_data ?m3 p) (off_of a) bs ?m3))"
      if "\<not> hooks_cover_page (m_whooks t) (vpn_of a)" for bs
      using gi that by (intro set_wtlb_inv [OF w]) (auto simp: writable_data)
    then show "mem_inv D (snd ((if m_whooks t \<noteq> [] \<and> hooks_cover_page (m_whooks t) (vpn_of a) then
            bnd (upd (call_mem_hooks E (m_whooks t) a n v)) (\<lambda>_.
              bnd (guest_page E MemWrite a n v) (\<lambda>q. upd (?w q))) t
          else
            upd (\<lambda>m2. let m3 = writable (vpn_of a) p m2
                      in storeN (page_data m3 p) (off_of a) n v
                           (set_wtlb (vpn_of a) (page_data m3 p) m3)) t)))"
      using keepsD [OF h t] by (auto simp: upd_def Let_def storeN_arr_put set_wtlb_arr_put)
  qed
  have cross: "keeps (mem_inv D) (\<lambda>m. upd (if m_whooks m \<noteq> [] then call_mem_hooks E (m_whooks m) a n v
                           else (\<lambda>x. x)) m)"
    by (rule keeps_apply) (auto intro!: keeps_upd call_mem_hooks_inv E)
  show ?thesis
    unfolding write_slow_def
    by (intro keeps_if fits keeps_bnd gp cross keeps_upd fold_cross_inv)
qed

lemma tlb_write_keeps [keep_intros]:
  fixes E :: "('a memory_scheme) env"
  assumes E: "env_ok D E"
  shows "keeps (mem_inv D) (tlb_write E n a v)"
  unfolding keeps_def
proof (intro allI impI)
  fix m :: "'a memory_scheme"
  assume m: "mem_inv D m"
  let ?e = "m_wtlb m (vpn_of a AND 255)"
  show "mem_inv D (snd (tlb_write E n a v m))"
  proof (cases "t_vpn ?e = vpn_of a \<and> fits a n")
    case True
    then have "t_vpn ?e \<noteq> noVPN" by simp
    with m obtain p where p: "lookup m (t_vpn ?e) = Some p" "p_data (m_pages m p) = Some (t_data ?e)"
      "p_code (m_pages m p) = None"
      unfolding mem_inv_def wtlb_ok_def by blast
    have "mem_inv D (arr_put (t_data ?e) (off_of a) bs m)" for bs
      using lookup_alloc [OF mem_inv_core [OF m] p(1)] p(2,3) by (rule arr_put_inv [OF m])
    with True show ?thesis by (simp add: tlb_write_def Let_def storeN_arr_put)
  next
    case False
    then show ?thesis
      using keepsD [OF write_slow_keeps [OF E] m] by (auto simp: tlb_write_def Let_def)
  qed
qed

lemma writeN_keeps [keep_intros]: "env_ok D E \<Longrightarrow> keeps (mem_inv D) (writeN E a n v)"
  by (simp add: writeN_def write8_def write16_def write32_def write64_def tlb_write_keeps)

lemma check_write_keeps [keep_intros]: "env_ok D E \<Longrightarrow> keeps (mem_inv D) (check_write E a n)"
  by (auto simp: check_write_def Let_def intro!: keep_intros)

lemma read64_keeps [keep_intros]: "env_ok D E \<Longrightarrow> keeps (mem_inv D) (read64 E a)"
  by (simp add: read64_def tlb_read_keeps)

lemma write64_keeps [keep_intros]: "env_ok D E \<Longrightarrow> keeps (mem_inv D) (write64 E a v)"
  by (simp add: write64_def tlb_write_keeps)

subsection \<open>Host copies\<close>

lemma host_write_loop_inv: "mem_inv D m \<Longrightarrow> mem_inv D (host_write_loop a src m)"
proof (induction a src m rule: host_write_loop.induct)
  case (1 a src m)
  have "mem_inv D (case lookup m (vpn_of a) of None \<Rightarrow> m
      | Some p \<Rightarrow> (let m1 = writable (vpn_of a) p m in arr_put (page_data m1 p) (off_of a) bs m1))" for bs
    using 1(2) by (auto simp: Let_def split: option.splits intro: write_page_inv)
  then show ?case
    using 1 by (subst host_write_loop.simps) (simp add: Let_def)
qed

lemma host_write_inv: "mem_inv D m \<Longrightarrow> mem_inv D (snd (host_write a src m))"
  by (auto simp: host_write_def host_write_loop_inv split: option.splits)

lemma host_read_state [simp]: "snd (host_read a n m) = m"
  by (simp add: host_read_def split: option.splits)

subsection \<open>Hooks and the code caches\<close>

lemma hook_ops_inv:
  assumes m: "mem_inv D m"
  shows "mem_inv D (add_invalid_hook h m)" "mem_inv D (remove_invalid_hook h m)"
    "mem_inv D (add_read_hook b e h m)" "mem_inv D (add_write_hook b e h m)"
    "mem_inv D (remove_read_hook h m)" "mem_inv D (remove_write_hook h m)"
proof -
  have c: "core_inv D (m_rhooks_update f m)" "core_inv D (m_whooks_update f m)"
    "core_inv D (m_invalid_update g m)" for f g
    by (rule core_inv_cong [OF mem_inv_core [OF m]]; simp)+
  have less: "hooks_cover_page (remove_hook hs h) v \<Longrightarrow> hooks_cover_page hs v" for hs v
    by (auto simp: hooks_cover_page_def Let_def list_ex_iff remove_hook_def)
  show "mem_inv D (add_read_hook b e h m)" "mem_inv D (add_write_hook b e h m)"
    by (simp_all add: add_read_hook_def add_write_hook_def flush_inv c)
  show "mem_inv D (add_invalid_hook h m)" "mem_inv D (remove_invalid_hook h m)"
    using m c by (simp_all add: add_invalid_hook_def remove_invalid_hook_def mem_inv_def rtlb_ok_def
        wtlb_ok_def ctlb_ok_def fetch_ok_def page_data_def)
  show "mem_inv D (remove_read_hook h m)" "mem_inv D (remove_write_hook h m)"
    using m c less unfolding remove_read_hook_def remove_write_hook_def mem_inv_def rtlb_ok_def
      wtlb_ok_def ctlb_ok_def fetch_ok_def by (simp_all add: page_data_def) blast+
qed

lemma drop_all_code_inv: "mem_inv D m \<Longrightarrow> mem_inv D (drop_all_code m)"
proof -
  assume m: "mem_inv D m"
  have "core_inv D (drop_all_code m)"
    using m by (auto simp: drop_all_code_def mem_inv_def core_inv_def pt_ok_def data_ok_def code_ok_def
        insts_ok_def)
  moreover have "rtlb_ok (drop_all_code m)"
    using m by (simp add: drop_all_code_def mem_inv_def rtlb_ok_def page_data_def)
  moreover have "wtlb_ok (drop_all_code m)"
    using m unfolding mem_inv_def wtlb_ok_def by (auto simp: drop_all_code_def)
  moreover have "ctlb_ok (drop_all_code m)" "fetch_ok (drop_all_code m)"
    by (simp_all add: drop_all_code_def ctlb_ok_def fetch_ok_def)
  ultimately show ?thesis
    by (simp add: mem_inv_def)
qed

end
