(* ===== verification/Cpu.thy ===== *)
theory Cpu
  imports Access_Keep "HOL-Library.Signed_Division"
begin

text \<open>
  The CPU state of internal/arm64/cpu.go (\<open>type CPU struct\<close>), its context snapshots, the flag
  arithmetic and the condition table, and the functions of Go's math/bits and hash/crc32 that the
  instruction handlers use.
\<close>

subsection \<open>Functions of Go's standard library\<close>

text \<open>\<open>bits.RotateLeft64\<close> and \<open>bits.RotateLeft32\<close>: a negative count rotates right.\<close>

definition rot_left :: "'a::len word \<Rightarrow> int \<Rightarrow> 'a word" where
  "rot_left x k = (let s = nat (k mod int LENGTH('a))
                   in push_bit s x OR drop_bit (LENGTH('a) - s) x)"

abbreviation rot_right :: "'a::len word \<Rightarrow> nat \<Rightarrow> 'a word" where
  "rot_right x n \<equiv> rot_left x (- int n)"

text \<open>\<open>bits.LeadingZeros64\<close> and \<open>bits.LeadingZeros32\<close>.\<close>

definition leading_zeros :: "'a::len word \<Rightarrow> nat" where
  "leading_zeros x = length (takeWhile (\<lambda>i. \<not> bit x i) (rev [0..<LENGTH('a)]))"

text \<open>\<open>bits.Reverse64\<close> and \<open>bits.Reverse32\<close>; \<open>bits.ReverseBytes64\<close> and \<open>bits.ReverseBytes32\<close>.\<close>

definition reverse_bits :: "'a::len word \<Rightarrow> 'a word" where
  "reverse_bits x = horner_sum of_bool 2 (map (bit x) (rev [0..<LENGTH('a)]))"

definition reverse_bytes64 :: "u64 \<Rightarrow> u64" where
  "reverse_bytes64 x = le_val (rev (le_bytes 8 x))"

definition reverse_bytes32 :: "u32 \<Rightarrow> u32" where
  "reverse_bytes32 x = ucast (le_val (rev (le_bytes 4 (ucast x))))"

text \<open>\<open>bits.Add64\<close>, \<open>bits.Add32\<close> (sum and carry out) and the high half of \<open>bits.Mul64\<close>.\<close>

definition add64 :: "u64 \<Rightarrow> u64 \<Rightarrow> u64 \<Rightarrow> u64 \<times> u64" where
  "add64 x y cin = (let s = x + y + cin in (s, drop_bit 63 ((x AND y) OR ((x OR y) AND NOT s))))"

definition add32 :: "u32 \<Rightarrow> u32 \<Rightarrow> u32 \<Rightarrow> u32 \<times> u32" where
  "add32 x y cin =
     (let s = (ucast x :: u64) + ucast y + ucast cin in (ucast s, ucast (drop_bit 32 s)))"

definition mul64_hi :: "u64 \<Rightarrow> u64 \<Rightarrow> u64" where
  "mul64_hi x y = of_nat (unat x * unat y div 2 ^ 64)"

text \<open>Go's signed division truncates towards zero and wraps.\<close>

definition sdivide :: "'a::len word \<Rightarrow> 'a word \<Rightarrow> 'a word" where
  "sdivide x y = word_of_int (sint x sdiv sint y)"

text \<open>A table entry of \<open>crc32.MakeTable\<close>, and \<open>crc32.Update\<close>.\<close>

definition crc_step :: "u32 \<Rightarrow> u32 \<Rightarrow> u32" where
  "crc_step poly c = (if c AND 1 = 1 then drop_bit 1 c XOR poly else drop_bit 1 c)"

definition crc_table :: "u32 \<Rightarrow> u8 \<Rightarrow> u32" where
  "crc_table poly b = (crc_step poly ^^ 8) (ucast b)"

definition crc_go_update :: "u32 \<Rightarrow> u32 \<Rightarrow> u8 list \<Rightarrow> u32" where
  "crc_go_update poly crc p =
     NOT (fold (\<lambda>b c. crc_table poly (ucast c XOR b) XOR drop_bit 8 c) p (NOT crc))"

abbreviation crc_ieee :: u32 where "crc_ieee \<equiv> 0xedb88320"
abbreviation crc_castagnoli :: u32 where "crc_castagnoli \<equiv> 0x82f63b78"

subsection \<open>State\<close>

text \<open>Register file slots of cpu.go; \<open>R\<close> has 256 slots, so a \<open>uint8\<close> is always in range.\<close>

abbreviation rZR :: u8 where "rZR \<equiv> 31"
abbreviation rSP :: u8 where "rSP \<equiv> 32"
abbreviation rSink :: u8 where "rSink \<equiv> 33"
abbreviation rLR :: u8 where "rLR \<equiv> 30"

type_synonym vec = "u64 \<times> u64"

record cpu = memory +
  c_R :: "u8 \<Rightarrow> u64"
  c_NZCV :: u32
  c_V :: "u8 \<Rightarrow> vec"
  c_FPCR :: u32
  c_FPSR :: u32
  c_TPIDR :: u64
  c_TPIDRRO :: u64
  c_exclAddr :: u64
  c_exclVal :: u64
  c_exclVal2 :: u64
  c_exclSize :: nat
  c_exclValid :: bool
  c_icount :: u64
  c_stopReq :: bool
  c_codeHooks :: "mem_hook list"
  c_intrHooks :: "nat list"

type_synonym 'a exec = "('a cpu_scheme, cpu_err, unit) comp"
type_synonym 'a cpu_env = "('a cpu_scheme) env"

text \<open>\<open>type Context struct\<close>; its \<open>R\<close> is the first 33 slots of the register file.\<close>

record context_regs =
  x_R :: "u8 \<Rightarrow> u64"
  x_PC :: u64
  x_NZCV :: u32
  x_V :: "u8 \<Rightarrow> vec"
  x_FPCR :: u32
  x_FPSR :: u32
  x_TPIDR :: u64
  x_TPIDRRO :: u64
  x_exclAddr :: u64
  x_exclVal :: u64
  x_exclVal2 :: u64
  x_exclSize :: nat
  x_exclValid :: bool
  x_icount :: u64

definition SaveContext :: "'a cpu_scheme \<Rightarrow> context_regs" where
  "SaveContext c =
     \<lparr>x_R = (\<lambda>r. if r < 33 then c_R c r else 0), x_PC = m_pc c, x_NZCV = c_NZCV c, x_V = c_V c,
      x_FPCR = c_FPCR c, x_FPSR = c_FPSR c, x_TPIDR = c_TPIDR c, x_TPIDRRO = c_TPIDRRO c,
      x_exclAddr = c_exclAddr c, x_exclVal = c_exclVal c, x_exclVal2 = c_exclVal2 c,
      x_exclSize = c_exclSize c, x_exclValid = c_exclValid c, x_icount = c_icount c\<rparr>"

definition RestoreContext :: "context_regs \<Rightarrow> 'a cpu_scheme \<Rightarrow> 'a cpu_scheme" where
  "RestoreContext x c =
     c\<lparr>c_R := (\<lambda>r. if r < 31 \<or> r = rSP then x_R x r else c_R c r), m_pc := x_PC x,
       c_NZCV := x_NZCV x, c_V := x_V x, c_FPCR := x_FPCR x, c_FPSR := x_FPSR x,
       c_TPIDR := x_TPIDR x, c_TPIDRRO := x_TPIDRRO x, c_exclAddr := x_exclAddr x,
       c_exclVal := x_exclVal x, c_exclVal2 := x_exclVal2 x, c_exclSize := x_exclSize x,
       c_exclValid := x_exclValid x, c_icount := x_icount x\<rparr>"

text \<open>\<open>X\<close> and \<open>SetX\<close> take a Go \<open>int\<close>; the model takes its value, which callers keep in 0..31.\<close>

definition getX :: "'a cpu_scheme \<Rightarrow> nat \<Rightarrow> u64" where
  "getX c n = (if n = 31 then c_R c rSP else c_R c (of_nat n AND 31))"

definition setX :: "nat \<Rightarrow> u64 \<Rightarrow> 'a cpu_scheme \<Rightarrow> 'a cpu_scheme" where
  "setX n v c =
     (if n = 31 then c\<lparr>c_R := (c_R c)(rSP := v)\<rparr> else c\<lparr>c_R := (c_R c)(of_nat n AND 31 := v)\<rparr>)"

definition ReadGPRegs :: "'a cpu_scheme \<Rightarrow> u64 list" where
  "ReadGPRegs c =
     map (\<lambda>n. c_R c (of_nat n)) [0..<31] @ [c_R c rSP, m_pc c, ucast (c_NZCV c)]"

text \<open>
  \<open>Memory.init\<close> on a zero \<open>Memory\<close>, as \<open>New\<close> and \<open>Release\<close> use it: nothing mapped, no hooks,
  empty heaps but for the shared zero array.
\<close>

definition mem_init :: "'a memory_scheme \<Rightarrow> 'a memory_scheme" where
  "mem_init m =
     m\<lparr>m_l1 := (\<lambda>_. None),
       m_rtlb := (\<lambda>_. \<lparr>t_vpn = noVPN, t_data = 0\<rparr>), m_wtlb := (\<lambda>_. \<lparr>t_vpn = noVPN, t_data = 0\<rparr>),
       m_fetchVPN := noVPN, m_fetchCode := None, m_ctlb := (\<lambda>_. \<lparr>c_vpn = noVPN, c_code = None\<rparr>),
       m_invalid := [], m_rhooks := [], m_whooks := [],
       m_pages := (\<lambda>_. \<lparr>p_data = None, p_prot = 0, p_code = None\<rparr>), m_npage := 0,
       m_arrs := (\<lambda>_ _. 0), m_narr := 1,
       m_codes := (\<lambda>_. \<lparr>cp_pg = 0, cp_insts = (\<lambda>_. inst0)\<rparr>), m_ncode := 0\<rparr>"

definition Release :: "'a cpu_scheme \<Rightarrow> 'a cpu_scheme" where
  "Release c = (mem_init c)\<lparr>c_codeHooks := [], c_intrHooks := []\<rparr>"

definition Stop :: "'a cpu_scheme \<Rightarrow> 'a cpu_scheme" where
  "Stop c = c\<lparr>c_stopReq := True\<rparr>"

text \<open>Hooks, and the closures that remove them again.\<close>

definition AddCodeHook :: "u64 \<Rightarrow> u64 \<Rightarrow> nat \<Rightarrow> 'a cpu_scheme \<Rightarrow> 'a cpu_scheme" where
  "AddCodeHook b e h c = c\<lparr>c_codeHooks := c_codeHooks c @ [\<lparr>h_begin = b, h_end = e, h_id = h\<rparr>]\<rparr>"

definition remove_code_hook :: "nat \<Rightarrow> 'a cpu_scheme \<Rightarrow> 'a cpu_scheme" where
  "remove_code_hook h c = c\<lparr>c_codeHooks := filter (\<lambda>x. h_id x \<noteq> h) (c_codeHooks c)\<rparr>"

definition AddInterruptHook :: "nat \<Rightarrow> 'a cpu_scheme \<Rightarrow> 'a cpu_scheme" where
  "AddInterruptHook h c = c\<lparr>c_intrHooks := c_intrHooks c @ [h]\<rparr>"

definition remove_intr_hook :: "nat \<Rightarrow> 'a cpu_scheme \<Rightarrow> 'a cpu_scheme" where
  "remove_intr_hook h c = c\<lparr>c_intrHooks := filter (\<lambda>x. x \<noteq> h) (c_intrHooks c)\<rparr>"

subsection \<open>Condition codes and flags\<close>

abbreviation flagN :: u32 where "flagN \<equiv> 0x80000000"
abbreviation flagZ :: u32 where "flagZ \<equiv> 0x40000000"
abbreviation flagC :: u32 where "flagC \<equiv> 0x20000000"
abbreviation flagV :: u32 where "flagV \<equiv> 0x10000000"

text \<open>The \<open>init\<close> loop that fills \<open>condTab\<close>: \<open>r\<close> for flag value \<open>f\<close> and condition \<open>cc\<close>.\<close>

definition cond_entry :: "nat \<Rightarrow> nat \<Rightarrow> bool" where
  "cond_entry f cc =
     (let n = bit f 3; z = bit f 2; cf = bit f 1; v = bit f 0;
          base = [z, cf, n, v, cf \<and> \<not> z, n = v, \<not> z \<and> n = v, True];
          r = base ! (cc div 2)
      in if cc mod 2 = 1 \<and> cc \<noteq> 15 then \<not> r else r)"

definition condTab :: "nat \<Rightarrow> u16" where
  "condTab cc = fold (\<lambda>f t. if cond_entry f cc then t OR push_bit f 1 else t) [0..<16] 0"

definition cond :: "u8 \<Rightarrow> 'a cpu_scheme \<Rightarrow> bool" where
  "cond cc c \<longleftrightarrow> drop_bit (unat (drop_bit 28 (c_NZCV c))) (condTab (unat (cc AND 15))) AND 1 \<noteq> 0"

definition carry :: "'a cpu_scheme \<Rightarrow> u64" where
  "carry c = ucast (drop_bit 29 (c_NZCV c)) AND 1"

definition addFlags64 :: "u64 \<Rightarrow> u64 \<Rightarrow> u64 \<Rightarrow> u64 \<times> u32" where
  "addFlags64 a b cin =
     (let (r, co) = add64 a b cin;
          f = push_bit 31 (ucast (drop_bit 63 r)) OR push_bit 29 (ucast co)
              OR push_bit 28 (ucast (drop_bit 63 ((a XOR r) AND (b XOR r))))
      in (r, if r = 0 then f OR flagZ else f))"

definition addFlags32 :: "u32 \<Rightarrow> u32 \<Rightarrow> u32 \<Rightarrow> u32 \<times> u32" where
  "addFlags32 a b cin =
     (let (r, co) = add32 a b cin;
          f = push_bit 31 (drop_bit 31 r) OR push_bit 29 co
              OR push_bit 28 (drop_bit 31 ((a XOR r) AND (b XOR r)))
      in (r, if r = 0 then f OR flagZ else f))"

definition logicFlags64 :: "u64 \<Rightarrow> u32" where
  "logicFlags64 r =
     (let f = push_bit 31 (ucast (drop_bit 63 r)) in if r = 0 then f OR flagZ else f)"

definition logicFlags32 :: "u32 \<Rightarrow> u32" where
  "logicFlags32 r = (let f = push_bit 31 (drop_bit 31 r) in if r = 0 then f OR flagZ else f)"

text \<open>Decode-time register index helpers.\<close>

definition xr :: "u32 \<Rightarrow> u8" where
  "xr n = ucast (n AND 31)"

definition xsp :: "u32 \<Rightarrow> u8" where
  "xsp n = (if n AND 31 = 31 then rSP else ucast (n AND 31))"

definition xw :: "u32 \<Rightarrow> u8" where
  "xw n = (if n AND 31 = 31 then rSink else ucast (n AND 31))"

text \<open>\<open>sext\<close>: shift the \<open>n\<close>-bit value to the top and arithmetically back.\<close>

definition sext :: "u64 \<Rightarrow> nat \<Rightarrow> u64" where
  "sext v n = signed_drop_bit (64 - n) (push_bit (64 - n) v)"

subsection \<open>State updates the handlers share\<close>

definition setR :: "u8 \<Rightarrow> u64 \<Rightarrow> 'a cpu_scheme \<Rightarrow> 'a cpu_scheme" where
  "setR r v c = c\<lparr>c_R := (c_R c)(r := v)\<rparr>"

definition setV :: "u8 \<Rightarrow> vec \<Rightarrow> 'a cpu_scheme \<Rightarrow> 'a cpu_scheme" where
  "setV r v c = c\<lparr>c_V := (c_V c)(r := v)\<rparr>"

definition setPC :: "u64 \<Rightarrow> 'a cpu_scheme \<Rightarrow> 'a cpu_scheme" where
  "setPC a c = c\<lparr>m_pc := a\<rparr>"

definition setNZCV :: "u32 \<Rightarrow> 'a cpu_scheme \<Rightarrow> 'a cpu_scheme" where
  "setNZCV f c = c\<lparr>c_NZCV := f\<rparr>"

text \<open>\<open>c.PC += 4\<close>; a result and the next instruction; a result, its flags and the next one.\<close>

definition next_pc :: "'a cpu_scheme \<Rightarrow> 'a cpu_scheme" where
  "next_pc c = setPC (m_pc c + 4) c"

definition wr :: "u8 \<Rightarrow> u64 \<Rightarrow> 'a cpu_scheme \<Rightarrow> 'a cpu_scheme" where
  "wr r v c = next_pc (setR r v c)"

definition wrf :: "u8 \<Rightarrow> u64 \<times> u32 \<Rightarrow> 'a cpu_scheme \<Rightarrow> 'a cpu_scheme" where
  "wrf r vf c = next_pc (setNZCV (snd vf) (setR r (fst vf) c))"

definition w32 :: "u64 \<Rightarrow> u32" where
  "w32 v = ucast v"

definition z64 :: "u32 \<Rightarrow> u64" where
  "z64 v = ucast v"

definition wr32 :: "u8 \<Rightarrow> u32 \<Rightarrow> 'a cpu_scheme \<Rightarrow> 'a cpu_scheme" where
  "wr32 r v c = wr r (z64 v) c"

definition wrf32 :: "u8 \<Rightarrow> u32 \<times> u32 \<Rightarrow> 'a cpu_scheme \<Rightarrow> 'a cpu_scheme" where
  "wrf32 r vf c = wrf r (z64 (fst vf), snd vf) c"

lemmas state_defs = setR_def setV_def setPC_def setNZCV_def next_pc_def wr_def wrf_def wr32_def wrf32_def

end
