(* ===== verification/Decode.thy ===== *)
theory Decode
  imports Cpu
begin

text \<open>
  The A64 decoder (decode.go, the decoding halves of dpreg.go and ldst.go): \<open>decode simd i raw pc\<close>
  fills in the instruction \<open>i\<close>. A Go \<open>return\<close> before \<open>in.fn\<close> is set leaves \<open>fn\<close> nil with whatever
  fields were already written, and so does the model. \<open>decodeSIMDFP\<close> (vec.go, fp.go) is the
  parameter \<open>simd\<close>.
\<close>

text \<open>\<open>(raw >> s) & m\<close>\<close>

abbreviation fld :: "u32 \<Rightarrow> nat \<Rightarrow> u32 \<Rightarrow> u32" where
  "fld raw s m \<equiv> drop_bit s raw AND m"

abbreviation u64_of :: "u32 \<Rightarrow> u64" where
  "u64_of x \<equiv> ucast x"

abbreviation u8_of :: "u32 \<Rightarrow> u8" where
  "u8_of x \<equiv> ucast x"

definition pick4x2 :: "bool \<Rightarrow> u32 \<Rightarrow> 'h \<Rightarrow> 'h \<Rightarrow> 'h \<Rightarrow> 'h \<Rightarrow> 'h \<Rightarrow> 'h \<Rightarrow> 'h \<Rightarrow> 'h \<Rightarrow> 'h" where
  "pick4x2 sf sel a b c d a32 b32 c32 d32 =
     (if sf then [a, b, c, d] ! unat (sel AND 3) else [a32, b32, c32, d32] ! unat (sel AND 3))"

definition pick :: "bool \<Rightarrow> 'h \<Rightarrow> 'h \<Rightarrow> 'h" where
  "pick sf a b = (if sf then a else b)"

subsection \<open>DecodeBitMasks\<close>

text \<open>The loop of \<open>replicate\<close> runs over \<open>i = 0, esize, 2 * esize, ...\<close> below \<open>m\<close>.\<close>

function rep_loop :: "u64 \<Rightarrow> nat \<Rightarrow> nat \<Rightarrow> nat \<Rightarrow> u64 \<Rightarrow> u64" where
  "rep_loop v esize m i out =
     (if i < m \<and> 0 < esize then rep_loop v esize m (i + esize) (out OR push_bit i v) else out)"
  by pat_completeness auto
termination
  by (relation "measure (\<lambda>(v, esize, m, i, out). m - i)") auto

declare rep_loop.simps [simp del]

definition replicate_bits :: "u64 \<Rightarrow> nat \<Rightarrow> nat \<Rightarrow> u64" where
  "replicate_bits v esize m =
     (let out = rep_loop v esize m 0 0 in if m = 32 then z64 (w32 out) else out)"

text \<open>
  \<open>decodeBitMasks\<close>; the level \<open>l\<close> is \<open>31 - LeadingZeros32\<close>, which is negative for 0, so it is
  an \<open>int\<close>. \<open>None\<close> is the Go result \<open>(0, 0, false)\<close>.
\<close>

definition decodeBitMasks :: "u32 \<Rightarrow> u32 \<Rightarrow> u32 \<Rightarrow> bool \<Rightarrow> nat \<Rightarrow> (u64 \<times> u64) option" where
  "decodeBitMasks immN imms immr immediate m =
     (let l = 31 - int (leading_zeros (push_bit 6 immN OR (NOT imms AND 63)))
      in if l < 1 \<or> 2 ^ nat l > m then None
         else
           let levels = push_bit (nat l) 1 - 1
           in if immediate \<and> imms AND levels = levels then None
              else
                let s = imms AND levels;
                    r = immr AND levels;
                    d = (s - r) AND levels;
                    esize = 2 ^ nat l;
                    emask = (if esize = 64 then NOT 0 else push_bit esize 1 - 1);
                    welem = (if s + 1 = 64 then NOT 0 else push_bit (unat (s + 1)) 1 - 1);
                    telem = (if d + 1 = 64 then NOT 0 else push_bit (unat (d + 1)) 1 - 1);
                    welem = (if r \<noteq> 0
                             then (drop_bit (unat r) welem OR push_bit (esize - unat r) welem) AND emask
                             else welem)
                in Some (replicate_bits welem esize m, replicate_bits telem esize m))"

subsection \<open>Data processing (immediate)\<close>

definition decodeDPImm :: "inst \<Rightarrow> u32 \<Rightarrow> u64 \<Rightarrow> inst" where
  "decodeDPImm i raw pc =
     (let sf = (drop_bit 31 raw = 1); rd = raw AND 31; rn = fld raw 5 31; sel = fld raw 23 7
      in if sel = 0 \<or> sel = 1 then
           let imm = sext (push_bit 2 (u64_of (fld raw 5 0x7ffff)) OR u64_of (fld raw 29 3)) 21
           in i\<lparr>i_rd := xw rd,
                i_imm := (if drop_bit 31 raw = 0 then pc + imm else (pc AND NOT 0xfff) + push_bit 12 imm),
                i_fn := Some (HImm OpMovImm)\<rparr>
         else if sel = 2 then
           let imm = u64_of (fld raw 10 0xfff);
               imm = (if fld raw 22 1 = 1 then push_bit 12 imm else imm);
               s = fld raw 29 1
           in i\<lparr>i_imm := imm, i_rn := xsp rn, i_rd := (if s = 1 then xw rd else xsp rd),
                i_fn := Some (HImm (pick4x2 sf (fld raw 29 3) OpAddImm64 OpAddsImm64 OpSubImm64 OpSubsImm64
                   OpAddImm32 OpAddsImm32 OpSubImm32 OpSubsImm32))\<rparr>
         else if sel = 4 then
           let n = fld raw 22 1
           in if \<not> sf \<and> n = 1 then i
              else (case decodeBitMasks n (fld raw 10 63) (fld raw 16 63) True (if sf then 64 else 32) of
                      None \<Rightarrow> i
                    | Some (wmask, _) \<Rightarrow>
                        let opc = fld raw 29 3
                        in i\<lparr>i_imm := wmask, i_rn := xr rn, i_rd := (if opc = 3 then xw rd else xsp rd),
                             i_fn := Some (HImm (pick4x2 sf opc OpAndImm64 OpOrrImm64 OpEorImm64 OpAndsImm64
                                OpAndImm32 OpOrrImm32 OpEorImm32 OpAndsImm32))\<rparr>)
         else if sel = 5 then
           let opc = fld raw 29 3; hw = fld raw 21 3
           in if opc = 1 \<or> (\<not> sf \<and> hw \<ge> 2) then i
              else
                let shift = unat (hw * 16); imm = push_bit shift (u64_of (fld raw 5 0xffff));
                    j = i\<lparr>i_rd := xw rd\<rparr>
                in if opc = 0 then
                     j\<lparr>i_imm := (if \<not> sf then z64 (w32 (NOT imm)) else NOT imm), i_fn := Some (HImm OpMovImm)\<rparr>
                   else if opc = 2 then j\<lparr>i_imm := imm, i_fn := Some (HImm OpMovImm)\<rparr>
                   else j\<lparr>i_rn := xr rd, i_imm := imm, i_imm2 := NOT (push_bit shift 0xffff),
                          i_fn := Some (HImm (if sf then OpMovk64 else OpMovk32))\<rparr>
         else if sel = 6 then
           let opc = fld raw 29 3; n = fld raw 22 1; immr = fld raw 16 63; imms = fld raw 10 63
           in if \<not> sf \<and> (immr \<ge> 32 \<or> imms \<ge> 32) then i
              else if opc = 3 \<or> (sf \<and> n = 0) \<or> (\<not> sf \<and> n = 1) then i
              else (case decodeBitMasks n imms immr False (if sf then 64 else 32) of
                      None \<Rightarrow> i
                    | Some (wmask, tmask) \<Rightarrow>
                        i\<lparr>i_rd := xw rd, i_rn := xr rn, i_imm := wmask, i_imm2 := tmask,
                          i_amt := u8_of immr, i_sh := u8_of imms,
                          i_ra := (if opc = 1 then xr rd else i_ra i),
                          i_fn := pick4x2 sf opc (Some (HImm OpSbfm64)) (Some (HImm OpBfm64))
                             (Some (HImm OpUbfm64)) None (Some (HImm OpSbfm32)) (Some (HImm OpBfm32))
                             (Some (HImm OpUbfm32)) None\<rparr>)
         else if sel = 7 then
           if fld raw 29 3 \<noteq> 0 \<or> fld raw 21 1 \<noteq> 0 then i
           else
             let n = fld raw 22 1; imms = fld raw 10 63
             in if (sf \<and> n = 0) \<or> (\<not> sf \<and> (n = 1 \<or> imms \<ge> 32)) then i
                else i\<lparr>i_rd := xw rd, i_rn := xr rn, i_rm := xr (fld raw 16 31), i_amt := u8_of imms,
                       i_fn := Some (HImm (if sf then OpExtr64 else OpExtr32))\<rparr>
         else i)"

subsection \<open>Branches, exception generation, system\<close>

definition decodeBranchReg :: "inst \<Rightarrow> u32 \<Rightarrow> inst" where
  "decodeBranchReg i raw =
     (let opc = fld raw 21 15
      in if fld raw 16 31 \<noteq> 31 \<or> fld raw 10 63 \<noteq> 0 \<or> raw AND 31 \<noteq> 0 then i
         else
           let j = i\<lparr>i_rn := xr (drop_bit 5 raw)\<rparr>
           in if opc = 0 then j\<lparr>i_fn := Some (HBranch OpBr)\<rparr>
              else if opc = 1 then j\<lparr>i_fn := Some (HBranch OpBlr)\<rparr>
              else if opc = 2 then j\<lparr>i_fn := Some (HBranch OpBr)\<rparr>
              else j)"

definition decodeException :: "inst \<Rightarrow> u32 \<Rightarrow> inst" where
  "decodeException i raw =
     (let opc = fld raw 21 7; ll = raw AND 3
      in if fld raw 2 7 \<noteq> 0 then i
         else if opc = 0 \<and> ll = 1 then i\<lparr>i_fn := Some (HSys OpSvc)\<rparr>
         else if opc = 1 \<and> ll = 0 then i\<lparr>i_fn := Some (HSys OpBrk)\<rparr>
         else if opc = 2 \<and> ll = 0 then i\<lparr>i_fn := Some (HSys OpHlt)\<rparr>
         else i)"

definition sysreg :: "u32 \<Rightarrow> u32 \<Rightarrow> u32 \<Rightarrow> u32 \<Rightarrow> u32 \<Rightarrow> u32" where
  "sysreg op0 op1 crn crm op2 =
     push_bit 14 op0 OR push_bit 11 op1 OR push_bit 7 crn OR push_bit 3 crm OR op2"

definition "regNZCV = sysreg 3 3 4 2 0"
definition "regFPCR = sysreg 3 3 4 4 0"
definition "regFPSR = sysreg 3 3 4 4 1"
definition "regTPIDR = sysreg 3 3 13 0 2"
definition "regTPIDRRO = sysreg 3 3 13 0 3"
definition "regCNTPCT = sysreg 3 3 14 0 1"
definition "regCNTVCT = sysreg 3 3 14 0 2"

definition constSysregs :: "(u32 \<times> u64) list" where
  "constSysregs =
     [(sysreg 3 3 0 0 1, 0x8444c004), (sysreg 3 3 0 0 7, 4), (sysreg 3 3 14 0 0, 62500000),
      (sysreg 3 0 0 0 0, 0x410fd083), (sysreg 3 0 0 0 5, 0x80000000), (sysreg 3 0 0 0 6, 0),
      (sysreg 3 0 4 2 2, 0), (sysreg 3 0 0 4 0, 0x00002222), (sysreg 3 0 0 4 1, 0),
      (sysreg 3 0 0 6 0, 0x00011120), (sysreg 3 0 0 6 1, 0), (sysreg 3 0 0 7 0, 0x00001124)]"

definition decodeSystem :: "inst \<Rightarrow> u32 \<Rightarrow> inst" where
  "decodeSystem i raw =
     (let l = fld raw 21 1; op0 = fld raw 19 3; op1 = fld raw 16 7; crn = fld raw 12 15;
          crm = fld raw 8 15; op2 = fld raw 5 7; rt = raw AND 31;
          nop = i\<lparr>i_fn := Some (HSys OpNop)\<rparr>
      in if l = 0 \<and> op0 = 0 \<and> crn = 2 \<and> op1 = 3 \<and> rt = 31 then nop
         else if l = 0 \<and> op0 = 0 \<and> crn = 3 \<and> op1 = 3 \<and> rt = 31 then
           if op2 = 2 then i\<lparr>i_fn := Some (HSys OpClrex)\<rparr>
           else if op2 = 4 \<or> op2 = 5 \<or> op2 = 6 \<or> op2 = 7 then nop
           else i
         else if l = 0 \<and> op0 = 0 \<and> crn = 4 \<and> rt = 31 then
           if op1 = 3 \<and> (op2 = 6 \<or> op2 = 7) then nop else i
         else if op0 = 1 then
           if l = 1 then i
           else if op1 = 3 \<and> crn = 7 \<and> crm = 4 \<and> op2 = 1 then
             i\<lparr>i_rn := xr rt, i_fn := Some (HSys OpDcZva)\<rparr>
           else nop
         else if op0 \<ge> 2 then
           let reg = sysreg op0 op1 crn crm op2; j = i\<lparr>i_imm := u64_of reg\<rparr>
           in if l = 1 then
                let k = j\<lparr>i_rd := xw rt\<rparr>
                in (case map_of constSysregs reg of
                      Some v \<Rightarrow> k\<lparr>i_imm2 := v, i_fn := Some (HSys OpMovImm2)\<rparr>
                    | None \<Rightarrow>
                        if reg \<in> {regNZCV, regFPCR, regFPSR, regTPIDR, regTPIDRRO, regCNTPCT, regCNTVCT}
                        then k\<lparr>i_fn := Some (HSys OpMrs)\<rparr> else k)
              else
                let k = j\<lparr>i_rn := xr rt\<rparr>
                in if reg \<in> {regNZCV, regFPCR, regFPSR, regTPIDR} then k\<lparr>i_fn := Some (HSys OpMsr)\<rparr> else k
         else i)"

definition decodeBranchSys :: "inst \<Rightarrow> u32 \<Rightarrow> u64 \<Rightarrow> inst" where
  "decodeBranchSys i raw pc =
     (if raw AND 0x7c000000 = 0x14000000 then
        let j = i\<lparr>i_imm := pc + sext (push_bit 2 (u64_of (raw AND 0x3ffffff))) 28\<rparr>
        in if drop_bit 31 raw = 0 then j\<lparr>i_fn := Some (HBranch OpB)\<rparr>
           else j\<lparr>i_imm2 := pc + 4, i_fn := Some (HBranch OpBL)\<rparr>
      else if raw AND 0x7e000000 = 0x34000000 then
        i\<lparr>i_imm := pc + sext (push_bit 2 (u64_of (fld raw 5 0x7ffff))) 21, i_rn := xr raw,
          i_fn := pick4x2 (drop_bit 31 raw = 1) (fld raw 24 1)
             (Some (HBranch OpCbz64)) (Some (HBranch OpCbnz64)) None None
             (Some (HBranch OpCbz32)) (Some (HBranch OpCbnz32)) None None\<rparr>
      else if raw AND 0x7e000000 = 0x36000000 then
        i\<lparr>i_imm := pc + sext (push_bit 2 (u64_of (fld raw 5 0x3fff))) 16, i_rn := xr raw,
          i_amt := u8_of (push_bit 5 (drop_bit 31 raw) OR fld raw 19 31),
          i_fn := Some (HBranch (if fld raw 24 1 = 0 then OpTbz else OpTbnz))\<rparr>
      else if raw AND 0xff000010 = 0x54000000 then
        i\<lparr>i_imm := pc + sext (push_bit 2 (u64_of (fld raw 5 0x7ffff))) 21, i_cond := u8_of (raw AND 15),
          i_fn := Some (HBranch OpBcond)\<rparr>
      else if raw AND 0xff000000 = 0xd4000000 then decodeException i raw
      else if raw AND 0xfe000000 = 0xd6000000 then decodeBranchReg i raw
      else if raw AND 0xffc00000 = 0xd5000000 then decodeSystem i raw
      else i)"

end
