(* ===== verification/Decode_Regs.thy ===== *)
theory Decode_Regs
  imports Decode
begin

text \<open>
  The rest of the decoder: data processing on registers (dpreg.go) and loads and stores (ldst.go),
  and the top-level \<open>decode\<close>.
\<close>

subsection \<open>Data processing (register)\<close>

definition decodeDP2 :: "inst \<Rightarrow> u32 \<Rightarrow> bool \<Rightarrow> inst" where
  "decodeDP2 i raw sf =
     (let op = fld raw 10 63
      in if op = 2 then i\<lparr>i_fn := Some (HDp (pick sf OpUdiv64 OpUdiv32))\<rparr>
         else if op = 3 then i\<lparr>i_fn := Some (HDp (pick sf OpSdiv64 OpSdiv32))\<rparr>
         else if op \<in> {8, 9, 10, 11} then
           i\<lparr>i_sh := u8_of (op AND 3), i_fn := Some (HDp (pick sf OpShiftV64 OpShiftV32))\<rparr>
         else if op \<in> {16, 17, 18, 19, 20, 21, 22, 23} then
           let sz = op AND 3
           in if (sz = 3) \<noteq> sf then i
              else i\<lparr>i_sz := u8_of (push_bit (unat sz) 1),
                     i_fn := Some (HDp (if op AND 4 = 0 then OpCrc32 else OpCrc32c))\<rparr>
         else i)"

definition decodeDP1 :: "inst \<Rightarrow> u32 \<Rightarrow> bool \<Rightarrow> inst" where
  "decodeDP1 i raw sf =
     (let op = fld raw 10 63
      in if fld raw 16 31 \<noteq> 0 then i
         else if op = 0 then i\<lparr>i_fn := Some (HDp (pick sf OpRbit64 OpRbit32))\<rparr>
         else if op = 1 then i\<lparr>i_fn := Some (HDp (pick sf OpRev16_64 OpRev16_32))\<rparr>
         else if op = 2 then i\<lparr>i_fn := Some (HDp (pick sf OpRev32_64 OpRev32))\<rparr>
         else if op = 3 then (if sf then i\<lparr>i_fn := Some (HDp OpRev64)\<rparr> else i)
         else if op = 4 then i\<lparr>i_fn := Some (HDp (pick sf OpClz64 OpClz32))\<rparr>
         else if op = 5 then i\<lparr>i_fn := Some (HDp (pick sf OpCls64 OpCls32))\<rparr>
         else i)"

text \<open>The two halves of \<open>decodeDPReg\<close>: \<open>op1 = 0\<close> and \<open>op1 = 1\<close>.\<close>

definition decodeDPReg0 :: "inst \<Rightarrow> u32 \<Rightarrow> inst" where
  "decodeDPReg0 i raw =
     (let sf = (drop_bit 31 raw = 1); rd = raw AND 31; rn = fld raw 5 31; rm = fld raw 16 31;
          op2 = fld raw 21 15
      in if op2 AND 8 = 0 then
           let imm6 = fld raw 10 63
           in if \<not> sf \<and> imm6 \<ge> 32 then i
              else
                let j = i\<lparr>i_rd := xw rd, i_rn := xr rn, i_rm := xr rm, i_sh := u8_of (fld raw 22 3),
                          i_amt := u8_of imm6\<rparr>;
                    opc = push_bit 1 (fld raw 29 3) OR fld raw 21 1
                in if opc = 2 \<and> rn = 31 \<and> imm6 = 0 then
                     j\<lparr>i_fn := Some (HLogic (if sf then OpMovReg64 else OpMovReg32))\<rparr>
                   else
                     j\<lparr>i_fn := Some (HLogic
                        (if sf then [OpAndReg64, OpBicReg64, OpOrrReg64, OpOrnReg64, OpEorReg64,
                                     OpEonReg64, OpAndsReg64, OpBicsReg64] ! unat opc
                         else [OpAndReg32, OpBicReg32, OpOrrReg32, OpOrnReg32, OpEorReg32,
                               OpEonReg32, OpAndsReg32, OpBicsReg32] ! unat opc))\<rparr>
         else if op2 AND 1 = 0 then
           let sh = fld raw 22 3; imm6 = fld raw 10 63
           in if sh = 3 \<or> (\<not> sf \<and> imm6 \<ge> 32) then i
              else i\<lparr>i_rd := xw rd, i_rn := xr rn, i_rm := xr rm, i_sh := u8_of sh, i_amt := u8_of imm6,
                     i_fn := Some (HAddSub (pick4x2 sf (fld raw 29 3) OpAddReg64 OpAddsReg64 OpSubReg64
                        OpSubsReg64 OpAddReg32 OpAddsReg32 OpSubReg32 OpSubsReg32))\<rparr>
         else
           let imm3 = fld raw 10 7
           in if fld raw 22 3 \<noteq> 0 \<or> imm3 > 4 then i
              else i\<lparr>i_rn := xsp rn, i_rm := xr rm,
                     i_rd := (if fld raw 29 1 = 1 then xw rd else xsp rd),
                     i_sh := u8_of (fld raw 13 7), i_amt := u8_of imm3,
                     i_fn := Some (HAddSub (pick4x2 sf (fld raw 29 3) OpAddExt64 OpAddsExt64 OpSubExt64
                        OpSubsExt64 OpAddExt32 OpAddsExt32 OpSubExt32 OpSubsExt32))\<rparr>)"

definition decodeDPReg1 :: "inst \<Rightarrow> u32 \<Rightarrow> inst" where
  "decodeDPReg1 i raw =
     (let sf = (drop_bit 31 raw = 1); rd = raw AND 31; rn = fld raw 5 31; rm = fld raw 16 31;
          op2 = fld raw 21 15; three = i\<lparr>i_rd := xw rd, i_rn := xr rn, i_rm := xr rm\<rparr>
      in if op2 = 0 then
           if fld raw 10 63 \<noteq> 0 then i
           else three\<lparr>i_fn := Some (HAddSub (pick4x2 sf (fld raw 29 3) OpAdc64 OpAdcs64 OpSbc64 OpSbcs64
                        OpAdc32 OpAdcs32 OpSbc32 OpSbcs32))\<rparr>
         else if op2 = 2 then
           if fld raw 29 1 \<noteq> 1 \<or> fld raw 10 1 \<noteq> 0 \<or> fld raw 4 1 \<noteq> 0 then i
           else
             let imm = fld raw 11 1; sel = push_bit 1 (fld raw 30 1) OR imm
             in i\<lparr>i_rn := xr rn, i_cond := u8_of (fld raw 12 15), i_amt := u8_of (raw AND 15),
                  i_rm := xr rm, i_imm := u64_of rm,
                  i_fn := Some (HCond (pick4x2 sf sel OpCcmnReg64 OpCcmnImm64 OpCcmpReg64 OpCcmpImm64
                     OpCcmnReg32 OpCcmnImm32 OpCcmpReg32 OpCcmpImm32))\<rparr>
         else if op2 = 4 then
           if fld raw 29 1 \<noteq> 0 \<or> fld raw 11 1 \<noteq> 0 then i
           else
             let sel = push_bit 1 (fld raw 30 1) OR fld raw 10 1
             in three\<lparr>i_cond := u8_of (fld raw 12 15),
                  i_fn := Some (HCond (pick4x2 sf sel OpCsel64 OpCsinc64 OpCsinv64 OpCsneg64
                     OpCsel32 OpCsinc32 OpCsinv32 OpCsneg32))\<rparr>
         else if op2 = 6 then
           if fld raw 29 1 \<noteq> 0 then three
           else if fld raw 30 1 = 0 then decodeDP2 three raw sf
           else decodeDP1 three raw sf
         else if op2 AND 8 \<noteq> 0 then
           if fld raw 29 3 \<noteq> 0 then i
           else
             let j = three\<lparr>i_ra := xr (fld raw 10 31)\<rparr>;
                 sel = push_bit 1 (fld raw 21 7) OR fld raw 15 1;
                 k = (if sel = 0 then j\<lparr>i_fn := Some (HDp (pick sf OpMadd64 OpMadd32))\<rparr>
                      else if sel = 1 then j\<lparr>i_fn := Some (HDp (pick sf OpMsub64 OpMsub32))\<rparr>
                      else j)
             in if \<not> sf then k
                else if sel = 2 then k\<lparr>i_fn := Some (HDp OpSmaddl)\<rparr>
                else if sel = 3 then k\<lparr>i_fn := Some (HDp OpSmsubl)\<rparr>
                else if sel = 4 then k\<lparr>i_fn := Some (HDp OpSmulh)\<rparr>
                else if sel = 10 then k\<lparr>i_fn := Some (HDp OpUmaddl)\<rparr>
                else if sel = 11 then k\<lparr>i_fn := Some (HDp OpUmsubl)\<rparr>
                else if sel = 12 then k\<lparr>i_fn := Some (HDp OpUmulh)\<rparr>
                else k
         else i)"

definition decodeDPReg :: "inst \<Rightarrow> u32 \<Rightarrow> inst" where
  "decodeDPReg i raw = (if fld raw 28 1 = 0 then decodeDPReg0 i raw else decodeDPReg1 i raw)"

subsection \<open>Loads and stores: register forms\<close>

abbreviation modeOff :: u8 where "modeOff \<equiv> 0"
abbreviation modePre :: u8 where "modePre \<equiv> 1"
abbreviation modePost :: u8 where "modePost \<equiv> 2"
abbreviation modeReg :: u8 where "modeReg \<equiv> 3"
abbreviation extZero :: u8 where "extZero \<equiv> 0"
abbreviation extSign :: u8 where "extSign \<equiv> 1"
abbreviation extSign32 :: u8 where "extSign32 \<equiv> 2"

text \<open>\<open>ldstKind\<close>: bytes, extension, load, prfm; \<open>None\<close> when the Go result \<open>ok\<close> is false.\<close>

definition ldstKind :: "u32 \<Rightarrow> u32 \<Rightarrow> bool \<Rightarrow> (nat \<times> u8 \<times> bool \<times> bool) option" where
  "ldstKind sz opc vec =
     (if vec then
        if opc AND 2 \<noteq> 0 then
          if sz \<noteq> 0 then None else Some (16, extZero, opc AND 1 = 1, False)
        else Some (2 ^ unat sz, extZero, opc AND 1 = 1, False)
      else if opc = 0 then Some (2 ^ unat sz, extZero, False, False)
      else if opc = 1 then Some (2 ^ unat sz, extZero, True, False)
      else if opc = 2 then
        if sz = 3 then Some (0, 0, False, True) else Some (2 ^ unat sz, extSign, True, False)
      else if sz \<ge> 2 then None else Some (2 ^ unat sz, extSign32, True, False))"

definition hotLdSt :: "bool \<Rightarrow> nat \<Rightarrow> u8 \<Rightarrow> hhot option" where
  "hotLdSt load sz ext =
     (if ext \<noteq> extZero then None
      else if load then
        if sz = 8 then Some OpLdr64Off else if sz = 4 then Some OpLdr32Off
        else if sz = 1 then Some OpLdrb64Off else None
      else if sz = 8 then Some OpStr64Off else if sz = 4 then Some OpStr32Off
      else if sz = 1 then Some OpStrb64Off else None)"

definition hotLdStReg :: "bool \<Rightarrow> nat \<Rightarrow> u8 \<Rightarrow> hhot option" where
  "hotLdStReg load sz ext =
     (if ext \<noteq> extZero then None
      else if load then
        if sz = 8 then Some OpLdr64Reg else if sz = 4 then Some OpLdr32Reg
        else if sz = 1 then Some OpLdrb64Reg else None
      else if sz = 8 then Some OpStr64Reg else if sz = 4 then Some OpStr32Reg
      else if sz = 1 then Some OpStrb64Reg else None)"

definition setLdSt :: "inst \<Rightarrow> u32 \<Rightarrow> bool \<Rightarrow> bool \<Rightarrow> inst" where
  "setLdSt i raw vec load =
     (let j = i\<lparr>i_rd := (if vec then u8_of (raw AND 31) else if load then xw raw else xr raw)\<rparr>;
          hot = (if vec then None
                 else if i_cond j = modeOff then hotLdSt load (unat (i_sz j)) (i_sh j)
                 else if i_cond j = modeReg then hotLdStReg load (unat (i_sz j)) (i_sh j)
                 else None)
      in case hot of
           Some h \<Rightarrow> j\<lparr>i_fn := Some (HHot h)\<rparr>
         | None \<Rightarrow>
             j\<lparr>i_fn := Some (HLdSt
                (if vec \<and> load then [OpVLoadOff, OpVLoadWb, OpVLoadWb, OpVLoadReg] ! unat (i_cond j)
                 else if vec then [OpVStoreOff, OpVStoreWb, OpVStoreWb, OpVStoreReg] ! unat (i_cond j)
                 else if load then [OpLoadOff, OpLoadWb, OpLoadWb, OpLoadReg] ! unat (i_cond j)
                 else [OpStoreOff, OpStoreWb, OpStoreWb, OpStoreReg] ! unat (i_cond j)))\<rparr>)"

text \<open>\<open>finish\<close> is the end of \<open>decodeRegForm\<close> and \<open>decodeUnsignedImm\<close>: PRFM is a NOP.\<close>

definition finish_ldst :: "inst \<Rightarrow> u32 \<Rightarrow> bool \<Rightarrow> bool \<Rightarrow> bool \<Rightarrow> inst" where
  "finish_ldst i raw vec load prfm =
     (if prfm then i\<lparr>i_fn := Some (HSys OpNop)\<rparr> else setLdSt i raw vec load)"

definition decodeRegForm :: "inst \<Rightarrow> u32 \<Rightarrow> inst" where
  "decodeRegForm i raw =
     (let sz = drop_bit 30 raw; vec = (fld raw 26 1 = 1); opc = fld raw 22 3
      in case ldstKind sz opc vec of
           None \<Rightarrow> i
         | Some (bytes, ext, load, prfm) \<Rightarrow>
             let j = i\<lparr>i_rn := xsp (drop_bit 5 raw), i_sz := of_nat bytes, i_sh := ext\<rparr>;
                 sel = fld raw 10 3
             in if fld raw 21 1 = 1 then
                  if sel \<noteq> 2 then j
                  else
                    let option = fld raw 13 7
                    in if option AND 2 = 0 then j
                       else finish_ldst
                         (j\<lparr>i_cond := modeReg, i_rm := xr (drop_bit 16 raw), i_sh := ext,
                            i_ra := u8_of option,
                            i_amt := (if fld raw 12 1 = 1
                                      then (if vec \<and> opc AND 2 \<noteq> 0 then 4 else u8_of sz)
                                      else i_amt j)\<rparr>) raw vec load prfm
                else
                  let imm = sext (u64_of (fld raw 12 0x1ff)) 9
                  in if sel = 2 then
                       if vec \<or> prfm then j
                       else finish_ldst (j\<lparr>i_cond := modeOff, i_imm := imm\<rparr>) raw vec load prfm
                     else if sel = 0 then
                       finish_ldst (j\<lparr>i_cond := modeOff, i_imm := imm\<rparr>) raw vec load prfm
                     else if sel = 1 then
                       if prfm then j
                       else finish_ldst (j\<lparr>i_cond := modePost, i_imm := imm\<rparr>) raw vec load prfm
                     else if prfm then j
                     else finish_ldst (j\<lparr>i_cond := modePre, i_imm := imm\<rparr>) raw vec load prfm)"

definition decodeUnsignedImm :: "inst \<Rightarrow> u32 \<Rightarrow> inst" where
  "decodeUnsignedImm i raw =
     (let sz = drop_bit 30 raw; vec = (fld raw 26 1 = 1); opc = fld raw 22 3
      in case ldstKind sz opc vec of
           None \<Rightarrow> i
         | Some (bytes, ext, load, prfm) \<Rightarrow>
             let scale = (if vec \<and> opc AND 2 \<noteq> 0 then 4 else sz)
             in finish_ldst
                  (i\<lparr>i_rn := xsp (drop_bit 5 raw), i_sz := of_nat bytes, i_sh := ext, i_cond := modeOff,
                     i_imm := push_bit (unat scale) (u64_of (fld raw 10 0xfff))\<rparr>) raw vec load prfm)"

definition decodeLiteral :: "inst \<Rightarrow> u32 \<Rightarrow> u64 \<Rightarrow> inst" where
  "decodeLiteral i raw pc =
     (let opc = drop_bit 30 raw; vec = (fld raw 26 1 = 1);
          addr = pc + sext (push_bit 2 (u64_of (fld raw 5 0x7ffff))) 21;
          j = i\<lparr>i_imm := addr, i_cond := modeOff, i_rn := rZR\<rparr>
      in if vec then
           if opc > 2 then j
           else j\<lparr>i_sz := u8_of (push_bit (unat opc) 4), i_rd := u8_of (raw AND 31),
                  i_fn := Some (HLdSt OpVLoadOff)\<rparr>
         else if opc = 3 then j\<lparr>i_fn := Some (HSys OpNop)\<rparr>
         else j\<lparr>i_sz := [4, 8, 4] ! unat opc, i_rd := xw raw,
                i_sh := (if opc = 2 then extSign else i_sh j), i_fn := Some (HLdSt OpLoadOff)\<rparr>)"

end
