(* ===== verification/Decode_Top.thy ===== *)
theory Decode_Top
  imports Decode_Regs
begin

text \<open>
  Load/store pairs, exclusives, atomics and AdvSIMD multiple structures (ldst.go), and the
  top-level \<open>decode\<close> of decode.go.
\<close>

text \<open>\<open>for 1<<scale < bytes { scale++ }\<close>\<close>

function grow_scale :: "nat \<Rightarrow> nat \<Rightarrow> nat" where
  "grow_scale scale bytes = (if 2 ^ scale < bytes then grow_scale (scale + 1) bytes else scale)"
  by pat_completeness auto
termination
proof (relation "measure (\<lambda>(scale, bytes). bytes - scale)")
  fix scale bytes :: nat
  assume "2 ^ scale < bytes"
  then have "scale < bytes"
    using less_exp [of scale] by linarith
  then show "((scale + 1, bytes), scale, bytes) \<in> measure (\<lambda>(scale, bytes). bytes - scale)"
    by simp
qed simp

declare grow_scale.simps [simp del]

definition decodePair :: "inst \<Rightarrow> u32 \<Rightarrow> inst" where
  "decodePair i raw =
     (let opc = drop_bit 30 raw; vec = (fld raw 26 1 = 1); l = (fld raw 22 1 = 1)
      in if opc = 3 then i
         else if \<not> vec \<and> opc = 1 \<and> \<not> l then i
         else
           let bytes = (if vec then 4 * 2 ^ unat opc else if opc = 0 then 4 else if opc = 1 then 4 else 8);
               j = (if \<not> vec \<and> opc = 1 then i\<lparr>i_sh := extSign\<rparr> else i);
               scale = grow_scale 2 bytes;
               sel = fld raw 23 3
           in if sel = 0 \<and> \<not> vec \<and> opc = 1 then j
              else
                let mode = (if sel = 0 then modeOff else if sel = 1 then modePost
                            else if sel = 2 then modeOff else modePre);
                    k = j\<lparr>i_cond := mode,
                          i_imm := push_bit scale (sext (u64_of (fld raw 15 0x7f)) 7),
                          i_rn := xsp (drop_bit 5 raw), i_sz := of_nat bytes,
                          i_rd := (if vec then u8_of (raw AND 31) else if l then xw raw else xr raw),
                          i_ra := (if vec then u8_of (fld raw 10 31)
                                   else if l then xw (drop_bit 10 raw) else xr (drop_bit 10 raw))\<rparr>
                in k\<lparr>i_fn := Some
                      (if vec \<and> l then HLdSt OpVLoadPair
                       else if vec then HLdSt OpVStorePair
                       else if l then
                         (if bytes = 8 \<and> i_cond k = modeOff \<and> i_sh k = extZero
                          then HHot OpLdp64Off else HLdSt OpLoadPair)
                       else
                         (if bytes = 8 \<and> i_cond k = modeOff then HHot OpStp64Off else HLdSt OpStorePair))\<rparr>)"

text \<open>The modelled CPU has no FEAT_LSE (\<open>const featLSE = false\<close>).\<close>

definition featLSE :: bool where
  "featLSE = False"

definition decodeExclusive :: "inst \<Rightarrow> u32 \<Rightarrow> inst" where
  "decodeExclusive i raw =
     (let sz = drop_bit 30 raw; o2 = fld raw 23 1; l = fld raw 22 1; o1 = fld raw 21 1;
          j = i\<lparr>i_rn := xsp (drop_bit 5 raw), i_sz := u8_of (push_bit (unat sz) 1)\<rparr>
      in if o2 = 1 \<and> o1 = 1 then
           if \<not> featLSE \<or> fld raw 10 31 \<noteq> 31 then j
           else j\<lparr>i_rd := xr raw, i_rm := xr (drop_bit 16 raw), i_ra := xw (drop_bit 16 raw),
                  i_fn := Some (HLdSt OpCas)\<rparr>
         else if o2 = 1 \<and> o1 = 0 then
           if fld raw 15 1 = 0 \<or> fld raw 16 31 \<noteq> 31 \<or> fld raw 10 31 \<noteq> 31 then j
           else if l = 1 then
             j\<lparr>i_rd := xw raw, i_cond := modeOff, i_sh := extZero, i_fn := Some (HLdSt OpLoadOff)\<rparr>
           else j\<lparr>i_rd := xr raw, i_cond := modeOff, i_fn := Some (HLdSt OpStoreOff)\<rparr>
         else if o1 = 0 then
           if fld raw 10 31 \<noteq> 31 then j
           else if l = 1 then
             if fld raw 16 31 \<noteq> 31 then j
             else j\<lparr>i_rd := xw raw, i_fn := Some (HLdSt OpLdxr)\<rparr>
           else j\<lparr>i_rd := xr raw, i_ra := xw (drop_bit 16 raw), i_fn := Some (HLdSt OpStxr)\<rparr>
         else
           if sz < 2 then j
           else if l = 1 then
             if fld raw 16 31 \<noteq> 31 then j
             else j\<lparr>i_rd := xw raw, i_rm := xw (drop_bit 10 raw), i_fn := Some (HLdSt OpLdxp)\<rparr>
           else j\<lparr>i_rd := xr raw, i_rm := xr (drop_bit 10 raw), i_ra := xw (drop_bit 16 raw),
                  i_fn := Some (HLdSt OpStxp)\<rparr>)"

definition decodeAtomic :: "inst \<Rightarrow> u32 \<Rightarrow> inst" where
  "decodeAtomic i raw =
     (if \<not> featLSE \<or> fld raw 26 1 \<noteq> 0 then i
      else
        let sz = drop_bit 30 raw; o3 = fld raw 15 1; opc = fld raw 12 7;
            j = i\<lparr>i_sz := u8_of (push_bit (unat sz) 1), i_rn := xsp (drop_bit 5 raw),
                  i_rm := xr (drop_bit 16 raw), i_rd := xw raw\<rparr>
        in if o3 = 0 then j\<lparr>i_sh := u8_of opc, i_fn := Some (HLdSt OpLdAtomic)\<rparr>
           else if opc = 0 then j\<lparr>i_fn := Some (HLdSt OpSwp)\<rparr> else j)"

definition simd_multi_regs :: "u32 \<Rightarrow> (u8 \<times> u8) option" where
  "simd_multi_regs opcode =
     (if opcode = 0 then Some (4, 4) else if opcode = 2 then Some (4, 1)
      else if opcode = 4 then Some (3, 3) else if opcode = 6 then Some (3, 1)
      else if opcode = 7 then Some (1, 1) else if opcode = 8 then Some (2, 2)
      else if opcode = 10 then Some (2, 1) else None)"

definition decodeSIMDMulti :: "inst \<Rightarrow> u32 \<Rightarrow> inst" where
  "decodeSIMDMulti i raw =
     (let l = fld raw 22 1; opcode = fld raw 12 15; sz = fld raw 10 3; q = fld raw 30 1
      in case simd_multi_regs opcode of
           None \<Rightarrow> i
         | Some (regs, grp) \<Rightarrow>
             if grp \<ge> 2 \<and> q = 0 \<and> sz = 3 then i
             else if fld raw 21 1 \<noteq> 0 then i
             else if fld raw 23 1 = 0 \<and> fld raw 16 0x3f \<noteq> 0 then i
             else
               let j = i\<lparr>i_rd := u8_of (raw AND 31), i_rn := xsp (drop_bit 5 raw), i_sz := u8_of sz,
                         i_sh := regs, i_ra := grp, i_amt := u8_of (push_bit (unat q) 8)\<rparr>;
                   k = (if fld raw 23 1 = 1 then
                          let rm = fld raw 16 31
                          in if rm = 31
                             then j\<lparr>i_cond := modePost, i_imm := ucast regs * push_bit (unat q) 8\<rparr>
                             else j\<lparr>i_rm := xr rm, i_cond := modeReg\<rparr>
                        else j\<lparr>i_cond := modeOff\<rparr>)
               in k\<lparr>i_fn := Some (HLdSt (if l = 1 then OpSIMDLoadMulti else OpSIMDStoreMulti))\<rparr>)"

definition decodeLdSt :: "inst \<Rightarrow> u32 \<Rightarrow> u64 \<Rightarrow> inst" where
  "decodeLdSt i raw pc =
     (if raw AND 0x3f000000 = 0x08000000 then decodeExclusive i raw
      else if raw AND 0x3b000000 = 0x18000000 then decodeLiteral i raw pc
      else if raw AND 0x38000000 = 0x28000000 then decodePair i raw
      else if raw AND 0x3b000000 = 0x38000000 then
        if fld raw 21 1 = 1 \<and> fld raw 10 3 = 0 then decodeAtomic i raw else decodeRegForm i raw
      else if raw AND 0x3b000000 = 0x39000000 then decodeUnsignedImm i raw
      else if raw AND 0xbf000000 = 0x0c000000 then decodeSIMDMulti i raw
      else i)"

definition decode :: "(inst \<Rightarrow> u32 \<Rightarrow> inst) \<Rightarrow> inst \<Rightarrow> u32 \<Rightarrow> u64 \<Rightarrow> inst" where
  "decode simd i raw pc =
     (let op0 = fld raw 25 0xf
      in if op0 = 8 \<or> op0 = 9 then decodeDPImm i raw pc
         else if op0 = 10 \<or> op0 = 11 then decodeBranchSys i raw pc
         else if op0 = 4 \<or> op0 = 6 \<or> op0 = 12 \<or> op0 = 14 then decodeLdSt i raw pc
         else if op0 = 5 \<or> op0 = 13 then decodeDPReg i raw
         else if op0 = 7 \<or> op0 = 15 then simd i raw
         else i)"

text \<open>\<open>decodeAt\<close> starts from a zero instruction and turns a nil handler into \<open>opUndef\<close>.\<close>

definition decodeAt :: "(inst \<Rightarrow> u32 \<Rightarrow> inst) \<Rightarrow> u32 \<Rightarrow> u64 \<Rightarrow> inst" where
  "decodeAt simd raw pc =
     (let i = decode simd inst0 raw pc in if i_fn i = None then i\<lparr>i_fn := Some (HSys OpUndef)\<rparr> else i)"

text \<open>\<open>Decodable\<close> of decodable.go.\<close>

definition Decodable :: "(inst \<Rightarrow> u32 \<Rightarrow> inst) \<Rightarrow> u32 \<Rightarrow> bool" where
  "Decodable simd raw \<longleftrightarrow> i_fn (decode simd inst0 raw 0) \<noteq> None"

end
