(* ===== verification/Exec_Regs.thy ===== *)
theory Exec_Regs
  imports Decode_Top
begin

text \<open>
  The handlers that only touch registers (decode.go, dpreg.go): one equation per Go function, on
  the decoded instruction \<open>i\<close> and the CPU \<open>c\<close>. Every one of them is total and ends by setting the
  PC, to \<open>PC + 4\<close> or to a branch target.
\<close>

abbreviation Rd :: "'a cpu_scheme \<Rightarrow> u8 \<Rightarrow> u64" where
  "Rd c r \<equiv> c_R c r"

abbreviation Wd :: "'a cpu_scheme \<Rightarrow> u8 \<Rightarrow> u32" where
  "Wd c r \<equiv> w32 (c_R c r)"

subsection \<open>Immediate operands (decode.go)\<close>

fun exec_imm :: "himm \<Rightarrow> inst \<Rightarrow> 'a cpu_scheme \<Rightarrow> 'a cpu_scheme" where
  "exec_imm OpMovImm i c = wr (i_rd i) (i_imm i) c"
| "exec_imm OpAddImm64 i c = wr (i_rd i) (Rd c (i_rn i) + i_imm i) c"
| "exec_imm OpSubImm64 i c = wr (i_rd i) (Rd c (i_rn i) - i_imm i) c"
| "exec_imm OpAddImm32 i c = wr32 (i_rd i) (Wd c (i_rn i) + w32 (i_imm i)) c"
| "exec_imm OpSubImm32 i c = wr32 (i_rd i) (Wd c (i_rn i) - w32 (i_imm i)) c"
| "exec_imm OpAddsImm64 i c = wrf (i_rd i) (addFlags64 (Rd c (i_rn i)) (i_imm i) 0) c"
| "exec_imm OpSubsImm64 i c = wrf (i_rd i) (addFlags64 (Rd c (i_rn i)) (NOT (i_imm i)) 1) c"
| "exec_imm OpAddsImm32 i c = wrf32 (i_rd i) (addFlags32 (Wd c (i_rn i)) (w32 (i_imm i)) 0) c"
| "exec_imm OpSubsImm32 i c = wrf32 (i_rd i) (addFlags32 (Wd c (i_rn i)) (NOT (w32 (i_imm i))) 1) c"
| "exec_imm OpAndImm64 i c = wr (i_rd i) (Rd c (i_rn i) AND i_imm i) c"
| "exec_imm OpOrrImm64 i c = wr (i_rd i) (Rd c (i_rn i) OR i_imm i) c"
| "exec_imm OpEorImm64 i c = wr (i_rd i) (Rd c (i_rn i) XOR i_imm i) c"
| "exec_imm OpAndImm32 i c = wr32 (i_rd i) (Wd c (i_rn i) AND w32 (i_imm i)) c"
| "exec_imm OpOrrImm32 i c = wr32 (i_rd i) (Wd c (i_rn i) OR w32 (i_imm i)) c"
| "exec_imm OpEorImm32 i c = wr32 (i_rd i) (Wd c (i_rn i) XOR w32 (i_imm i)) c"
| "exec_imm OpAndsImm64 i c =
     (let r = Rd c (i_rn i) AND i_imm i in wrf (i_rd i) (r, logicFlags64 r) c)"
| "exec_imm OpAndsImm32 i c =
     (let r = Wd c (i_rn i) AND w32 (i_imm i) in wrf32 (i_rd i) (r, logicFlags32 r) c)"
| "exec_imm OpMovk64 i c = wr (i_rd i) (Rd c (i_rn i) AND i_imm2 i OR i_imm i) c"
| "exec_imm OpMovk32 i c = wr32 (i_rd i) (w32 (Rd c (i_rn i) AND i_imm2 i OR i_imm i)) c"
| "exec_imm OpUbfm64 i c =
     wr (i_rd i) (rot_right (Rd c (i_rn i)) (unat (i_amt i)) AND i_imm i AND i_imm2 i) c"
| "exec_imm OpUbfm32 i c =
     wr (i_rd i) (z64 (rot_right (Wd c (i_rn i)) (unat (i_amt i))) AND i_imm i AND i_imm2 i) c"
| "exec_imm OpSbfm64 i c =
     (let src = Rd c (i_rn i);
          bot = rot_right src (unat (i_amt i)) AND i_imm i;
          top = signed_drop_bit 63 (push_bit (unat (63 - i_sh i)) src)
      in wr (i_rd i) (top AND NOT (i_imm2 i) OR bot AND i_imm2 i) c)"
| "exec_imm OpSbfm32 i c =
     (let src = Wd c (i_rn i);
          bot = z64 (rot_right src (unat (i_amt i))) AND i_imm i;
          top = z64 (signed_drop_bit 31 (push_bit (unat (31 - i_sh i)) src))
      in wr (i_rd i) ((top AND NOT (i_imm2 i) OR bot AND i_imm2 i) AND 0xffffffff) c)"
| "exec_imm OpBfm64 i c =
     (let dst = Rd c (i_ra i);
          bot = dst AND NOT (i_imm i) OR rot_right (Rd c (i_rn i)) (unat (i_amt i)) AND i_imm i
      in wr (i_rd i) (dst AND NOT (i_imm2 i) OR bot AND i_imm2 i) c)"
| "exec_imm OpBfm32 i c =
     (let dst = z64 (Wd c (i_ra i));
          bot = dst AND NOT (i_imm i) OR z64 (rot_right (Wd c (i_rn i)) (unat (i_amt i))) AND i_imm i
      in wr (i_rd i) ((dst AND NOT (i_imm2 i) OR bot AND i_imm2 i) AND 0xffffffff) c)"
| "exec_imm OpExtr64 i c =
     wr (i_rd i) (drop_bit (unat (i_amt i)) (Rd c (i_rm i))
                  OR push_bit (64 - unat (i_amt i)) (Rd c (i_rn i))) c"
| "exec_imm OpExtr32 i c =
     wr32 (i_rd i) (drop_bit (unat (i_amt i)) (Wd c (i_rm i))
                    OR push_bit (32 - unat (i_amt i)) (Wd c (i_rn i))) c"

subsection \<open>Branches (decode.go)\<close>

definition branch_if :: "bool \<Rightarrow> u64 \<Rightarrow> 'a cpu_scheme \<Rightarrow> 'a cpu_scheme" where
  "branch_if b target c = (if b then setPC target c else next_pc c)"

fun exec_branch :: "hbranch \<Rightarrow> inst \<Rightarrow> 'a cpu_scheme \<Rightarrow> 'a cpu_scheme" where
  "exec_branch OpB i c = setPC (i_imm i) c"
| "exec_branch OpBL i c = setPC (i_imm i) (setR rLR (i_imm2 i) c)"
| "exec_branch OpBcond i c = branch_if (cond (i_cond i) c) (i_imm i) c"
| "exec_branch OpCbz64 i c = branch_if (Rd c (i_rn i) = 0) (i_imm i) c"
| "exec_branch OpCbnz64 i c = branch_if (Rd c (i_rn i) \<noteq> 0) (i_imm i) c"
| "exec_branch OpCbz32 i c = branch_if (Wd c (i_rn i) = 0) (i_imm i) c"
| "exec_branch OpCbnz32 i c = branch_if (Wd c (i_rn i) \<noteq> 0) (i_imm i) c"
| "exec_branch OpTbz i c = branch_if (drop_bit (unat (i_amt i)) (Rd c (i_rn i)) AND 1 = 0) (i_imm i) c"
| "exec_branch OpTbnz i c = branch_if (drop_bit (unat (i_amt i)) (Rd c (i_rn i)) AND 1 \<noteq> 0) (i_imm i) c"
| "exec_branch OpBr i c = setPC (Rd c (i_rn i)) c"
| "exec_branch OpBlr i c = (let t = Rd c (i_rn i) in setPC t (setR rLR (m_pc c + 4) c))"

subsection \<open>Logical, shifted register (dpreg.go)\<close>

definition shOp64 :: "'a cpu_scheme \<Rightarrow> inst \<Rightarrow> u64" where
  "shOp64 c i =
     (let v = Rd c (i_rm i); n = unat (i_amt i)
      in if i_sh i = 0 then push_bit n v else if i_sh i = 1 then drop_bit n v
         else if i_sh i = 2 then signed_drop_bit n v else rot_right v n)"

definition shOp32 :: "'a cpu_scheme \<Rightarrow> inst \<Rightarrow> u32" where
  "shOp32 c i =
     (let v = Wd c (i_rm i); n = unat (i_amt i)
      in if i_sh i = 0 then push_bit n v else if i_sh i = 1 then drop_bit n v
         else if i_sh i = 2 then signed_drop_bit n v else rot_right v n)"

definition extend :: "u64 \<Rightarrow> u8 \<Rightarrow> u64" where
  "extend v option =
     (let k = option AND 7
      in if k = 0 then ucast (ucast v :: u8) else if k = 1 then ucast (ucast v :: u16)
         else if k = 2 then ucast (ucast v :: u32) else if k = 4 then scast (ucast v :: u8)
         else if k = 5 then scast (ucast v :: u16) else if k = 6 then scast (ucast v :: u32) else v)"

definition extOp :: "'a cpu_scheme \<Rightarrow> inst \<Rightarrow> u64" where
  "extOp c i = push_bit (unat (i_amt i)) (extend (Rd c (i_rm i)) (i_sh i))"

fun exec_logic :: "hlogic \<Rightarrow> inst \<Rightarrow> 'a cpu_scheme \<Rightarrow> 'a cpu_scheme" where
  "exec_logic OpMovReg64 i c = wr (i_rd i) (Rd c (i_rm i)) c"
| "exec_logic OpMovReg32 i c = wr32 (i_rd i) (Wd c (i_rm i)) c"
| "exec_logic OpAndReg64 i c = wr (i_rd i) (Rd c (i_rn i) AND shOp64 c i) c"
| "exec_logic OpBicReg64 i c = wr (i_rd i) (Rd c (i_rn i) AND NOT (shOp64 c i)) c"
| "exec_logic OpOrrReg64 i c = wr (i_rd i) (Rd c (i_rn i) OR shOp64 c i) c"
| "exec_logic OpOrnReg64 i c = wr (i_rd i) (Rd c (i_rn i) OR NOT (shOp64 c i)) c"
| "exec_logic OpEorReg64 i c = wr (i_rd i) (Rd c (i_rn i) XOR shOp64 c i) c"
| "exec_logic OpEonReg64 i c = wr (i_rd i) (Rd c (i_rn i) XOR NOT (shOp64 c i)) c"
| "exec_logic OpAndsReg64 i c =
     (let r = Rd c (i_rn i) AND shOp64 c i in wrf (i_rd i) (r, logicFlags64 r) c)"
| "exec_logic OpBicsReg64 i c =
     (let r = Rd c (i_rn i) AND NOT (shOp64 c i) in wrf (i_rd i) (r, logicFlags64 r) c)"
| "exec_logic OpAndReg32 i c = wr32 (i_rd i) (Wd c (i_rn i) AND shOp32 c i) c"
| "exec_logic OpBicReg32 i c = wr32 (i_rd i) (Wd c (i_rn i) AND NOT (shOp32 c i)) c"
| "exec_logic OpOrrReg32 i c = wr32 (i_rd i) (Wd c (i_rn i) OR shOp32 c i) c"
| "exec_logic OpOrnReg32 i c = wr32 (i_rd i) (Wd c (i_rn i) OR NOT (shOp32 c i)) c"
| "exec_logic OpEorReg32 i c = wr32 (i_rd i) (Wd c (i_rn i) XOR shOp32 c i) c"
| "exec_logic OpEonReg32 i c = wr32 (i_rd i) (Wd c (i_rn i) XOR NOT (shOp32 c i)) c"
| "exec_logic OpAndsReg32 i c =
     (let r = Wd c (i_rn i) AND shOp32 c i in wrf32 (i_rd i) (r, logicFlags32 r) c)"
| "exec_logic OpBicsReg32 i c =
     (let r = Wd c (i_rn i) AND NOT (shOp32 c i) in wrf32 (i_rd i) (r, logicFlags32 r) c)"

subsection \<open>Addition and subtraction (dpreg.go)\<close>

fun exec_addsub :: "haddsub \<Rightarrow> inst \<Rightarrow> 'a cpu_scheme \<Rightarrow> 'a cpu_scheme" where
  "exec_addsub OpAddReg64 i c = wr (i_rd i) (Rd c (i_rn i) + shOp64 c i) c"
| "exec_addsub OpSubReg64 i c = wr (i_rd i) (Rd c (i_rn i) - shOp64 c i) c"
| "exec_addsub OpAddReg32 i c = wr32 (i_rd i) (Wd c (i_rn i) + shOp32 c i) c"
| "exec_addsub OpSubReg32 i c = wr32 (i_rd i) (Wd c (i_rn i) - shOp32 c i) c"
| "exec_addsub OpAddsReg64 i c = wrf (i_rd i) (addFlags64 (Rd c (i_rn i)) (shOp64 c i) 0) c"
| "exec_addsub OpSubsReg64 i c = wrf (i_rd i) (addFlags64 (Rd c (i_rn i)) (NOT (shOp64 c i)) 1) c"
| "exec_addsub OpAddsReg32 i c = wrf32 (i_rd i) (addFlags32 (Wd c (i_rn i)) (shOp32 c i) 0) c"
| "exec_addsub OpSubsReg32 i c = wrf32 (i_rd i) (addFlags32 (Wd c (i_rn i)) (NOT (shOp32 c i)) 1) c"
| "exec_addsub OpAddExt64 i c = wr (i_rd i) (Rd c (i_rn i) + extOp c i) c"
| "exec_addsub OpSubExt64 i c = wr (i_rd i) (Rd c (i_rn i) - extOp c i) c"
| "exec_addsub OpAddExt32 i c = wr32 (i_rd i) (w32 (Rd c (i_rn i) + extOp c i)) c"
| "exec_addsub OpSubExt32 i c = wr32 (i_rd i) (w32 (Rd c (i_rn i) - extOp c i)) c"
| "exec_addsub OpAddsExt64 i c = wrf (i_rd i) (addFlags64 (Rd c (i_rn i)) (extOp c i) 0) c"
| "exec_addsub OpSubsExt64 i c = wrf (i_rd i) (addFlags64 (Rd c (i_rn i)) (NOT (extOp c i)) 1) c"
| "exec_addsub OpAddsExt32 i c = wrf32 (i_rd i) (addFlags32 (Wd c (i_rn i)) (w32 (extOp c i)) 0) c"
| "exec_addsub OpSubsExt32 i c =
     wrf32 (i_rd i) (addFlags32 (Wd c (i_rn i)) (NOT (w32 (extOp c i))) 1) c"
| "exec_addsub OpAdc64 i c = wr (i_rd i) (Rd c (i_rn i) + Rd c (i_rm i) + carry c) c"
| "exec_addsub OpSbc64 i c = wr (i_rd i) (Rd c (i_rn i) + NOT (Rd c (i_rm i)) + carry c) c"
| "exec_addsub OpAdc32 i c = wr32 (i_rd i) (w32 (Rd c (i_rn i) + Rd c (i_rm i) + carry c)) c"
| "exec_addsub OpSbc32 i c = wr32 (i_rd i) (w32 (Rd c (i_rn i) + NOT (Rd c (i_rm i)) + carry c)) c"
| "exec_addsub OpAdcs64 i c = wrf (i_rd i) (addFlags64 (Rd c (i_rn i)) (Rd c (i_rm i)) (carry c)) c"
| "exec_addsub OpSbcs64 i c = wrf (i_rd i) (addFlags64 (Rd c (i_rn i)) (NOT (Rd c (i_rm i))) (carry c)) c"
| "exec_addsub OpAdcs32 i c =
     wrf32 (i_rd i) (addFlags32 (Wd c (i_rn i)) (Wd c (i_rm i)) (w32 (carry c))) c"
| "exec_addsub OpSbcs32 i c =
     wrf32 (i_rd i) (addFlags32 (Wd c (i_rn i)) (NOT (Wd c (i_rm i))) (w32 (carry c))) c"

subsection \<open>Conditional compare and select (dpreg.go)\<close>

definition ccmp64 :: "inst \<Rightarrow> u64 \<Rightarrow> bool \<Rightarrow> 'a cpu_scheme \<Rightarrow> 'a cpu_scheme" where
  "ccmp64 i b neg c =
     next_pc (setNZCV
       (if \<not> cond (i_cond i) c then push_bit 28 (ucast (i_amt i))
        else if neg then snd (addFlags64 (Rd c (i_rn i)) (NOT b) 1)
        else snd (addFlags64 (Rd c (i_rn i)) b 0)) c)"

definition ccmp32 :: "inst \<Rightarrow> u32 \<Rightarrow> bool \<Rightarrow> 'a cpu_scheme \<Rightarrow> 'a cpu_scheme" where
  "ccmp32 i b neg c =
     next_pc (setNZCV
       (if \<not> cond (i_cond i) c then push_bit 28 (ucast (i_amt i))
        else if neg then snd (addFlags32 (Wd c (i_rn i)) (NOT b) 1)
        else snd (addFlags32 (Wd c (i_rn i)) b 0)) c)"

fun exec_cond :: "hcond \<Rightarrow> inst \<Rightarrow> 'a cpu_scheme \<Rightarrow> 'a cpu_scheme" where
  "exec_cond OpCcmpReg64 i c = ccmp64 i (Rd c (i_rm i)) True c"
| "exec_cond OpCcmpImm64 i c = ccmp64 i (i_imm i) True c"
| "exec_cond OpCcmnReg64 i c = ccmp64 i (Rd c (i_rm i)) False c"
| "exec_cond OpCcmnImm64 i c = ccmp64 i (i_imm i) False c"
| "exec_cond OpCcmpReg32 i c = ccmp32 i (Wd c (i_rm i)) True c"
| "exec_cond OpCcmpImm32 i c = ccmp32 i (w32 (i_imm i)) True c"
| "exec_cond OpCcmnReg32 i c = ccmp32 i (Wd c (i_rm i)) False c"
| "exec_cond OpCcmnImm32 i c = ccmp32 i (w32 (i_imm i)) False c"
| "exec_cond OpCsel64 i c =
     wr (i_rd i) (if cond (i_cond i) c then Rd c (i_rn i) else Rd c (i_rm i)) c"
| "exec_cond OpCsinc64 i c =
     wr (i_rd i) (if cond (i_cond i) c then Rd c (i_rn i) else Rd c (i_rm i) + 1) c"
| "exec_cond OpCsinv64 i c =
     wr (i_rd i) (if cond (i_cond i) c then Rd c (i_rn i) else NOT (Rd c (i_rm i))) c"
| "exec_cond OpCsneg64 i c =
     wr (i_rd i) (if cond (i_cond i) c then Rd c (i_rn i) else - Rd c (i_rm i)) c"
| "exec_cond OpCsel32 i c =
     wr32 (i_rd i) (if cond (i_cond i) c then Wd c (i_rn i) else Wd c (i_rm i)) c"
| "exec_cond OpCsinc32 i c =
     wr32 (i_rd i) (if cond (i_cond i) c then Wd c (i_rn i) else Wd c (i_rm i) + 1) c"
| "exec_cond OpCsinv32 i c =
     wr32 (i_rd i) (if cond (i_cond i) c then Wd c (i_rn i) else NOT (Wd c (i_rm i))) c"
| "exec_cond OpCsneg32 i c =
     wr32 (i_rd i) (if cond (i_cond i) c then Wd c (i_rn i) else - Wd c (i_rm i)) c"

subsection \<open>One, two and three sources (dpreg.go)\<close>

text \<open>\<open>crcUpdate\<close> undoes the inversions of \<open>crc32.Update\<close>; \<open>b\<close> is the first \<open>n\<close> bytes of \<open>v\<close>.\<close>

definition crcUpdate :: "u32 \<Rightarrow> u32 \<Rightarrow> u64 \<Rightarrow> nat \<Rightarrow> u32" where
  "crcUpdate poly acc v n = NOT (crc_go_update poly (NOT acc) (le_bytes n v))"

definition shiftV :: "u8 \<Rightarrow> 'b::len word \<Rightarrow> nat \<Rightarrow> 'b word" where
  "shiftV sh v n =
     (if sh = 0 then push_bit n v else if sh = 1 then drop_bit n v
      else if sh = 2 then signed_drop_bit n v else rot_right v n)"

fun exec_dp :: "hdp \<Rightarrow> inst \<Rightarrow> 'a cpu_scheme \<Rightarrow> 'a cpu_scheme" where
  "exec_dp OpUdiv64 i c =
     (let d = Rd c (i_rm i) in wr (i_rd i) (if d = 0 then 0 else Rd c (i_rn i) div d) c)"
| "exec_dp OpUdiv32 i c =
     (let d = Wd c (i_rm i) in wr (i_rd i) (if d = 0 then 0 else z64 (Wd c (i_rn i) div d)) c)"
| "exec_dp OpSdiv64 i c =
     (let d = Rd c (i_rm i) in wr (i_rd i) (if d = 0 then 0 else sdivide (Rd c (i_rn i)) d) c)"
| "exec_dp OpSdiv32 i c =
     (let d = Wd c (i_rm i) in wr (i_rd i) (if d = 0 then 0 else z64 (sdivide (Wd c (i_rn i)) d)) c)"
| "exec_dp OpShiftV64 i c =
     wr (i_rd i) (shiftV (i_sh i) (Rd c (i_rn i)) (unat (Rd c (i_rm i) AND 63))) c"
| "exec_dp OpShiftV32 i c =
     wr32 (i_rd i) (shiftV (i_sh i) (Wd c (i_rn i)) (unat (Rd c (i_rm i) AND 31))) c"
| "exec_dp OpCrc32 i c =
     wr32 (i_rd i) (crcUpdate crc_ieee (Wd c (i_rn i)) (Rd c (i_rm i)) (unat (i_sz i))) c"
| "exec_dp OpCrc32c i c =
     wr32 (i_rd i) (crcUpdate crc_castagnoli (Wd c (i_rn i)) (Rd c (i_rm i)) (unat (i_sz i))) c"
| "exec_dp OpRbit64 i c = wr (i_rd i) (reverse_bits (Rd c (i_rn i))) c"
| "exec_dp OpRbit32 i c = wr32 (i_rd i) (reverse_bits (Wd c (i_rn i))) c"
| "exec_dp OpRev64 i c = wr (i_rd i) (reverse_bytes64 (Rd c (i_rn i))) c"
| "exec_dp OpRev32 i c = wr32 (i_rd i) (reverse_bytes32 (Wd c (i_rn i))) c"
| "exec_dp OpRev32_64 i c =
     (let v = reverse_bytes64 (Rd c (i_rn i)) in wr (i_rd i) (push_bit 32 v OR drop_bit 32 v) c)"
| "exec_dp OpRev16_64 i c =
     (let v = Rd c (i_rn i)
      in wr (i_rd i) (push_bit 8 (v AND 0x00ff00ff00ff00ff) OR drop_bit 8 v AND 0x00ff00ff00ff00ff) c)"
| "exec_dp OpRev16_32 i c =
     (let v = Wd c (i_rn i)
      in wr32 (i_rd i) (push_bit 8 (v AND 0x00ff00ff) OR drop_bit 8 v AND 0x00ff00ff) c)"
| "exec_dp OpClz64 i c = wr (i_rd i) (of_nat (leading_zeros (Rd c (i_rn i)))) c"
| "exec_dp OpClz32 i c = wr (i_rd i) (of_nat (leading_zeros (Wd c (i_rn i)))) c"
| "exec_dp OpCls64 i c =
     (let v = Rd c (i_rn i)
      in wr (i_rd i) (of_int (int (leading_zeros ((v XOR drop_bit 1 v) AND (push_bit 63 1 - 1))) - 1)) c)"
| "exec_dp OpCls32 i c =
     (let v = Wd c (i_rn i)
      in wr (i_rd i) (of_int (int (leading_zeros ((v XOR drop_bit 1 v) AND (push_bit 31 1 - 1))) - 1)) c)"
| "exec_dp OpMadd64 i c = wr (i_rd i) (Rd c (i_ra i) + Rd c (i_rn i) * Rd c (i_rm i)) c"
| "exec_dp OpMsub64 i c = wr (i_rd i) (Rd c (i_ra i) - Rd c (i_rn i) * Rd c (i_rm i)) c"
| "exec_dp OpMadd32 i c = wr32 (i_rd i) (Wd c (i_ra i) + Wd c (i_rn i) * Wd c (i_rm i)) c"
| "exec_dp OpMsub32 i c = wr32 (i_rd i) (Wd c (i_ra i) - Wd c (i_rn i) * Wd c (i_rm i)) c"
| "exec_dp OpSmaddl i c =
     wr (i_rd i) (Rd c (i_ra i) + scast (Wd c (i_rn i)) * scast (Wd c (i_rm i))) c"
| "exec_dp OpSmsubl i c =
     wr (i_rd i) (Rd c (i_ra i) - scast (Wd c (i_rn i)) * scast (Wd c (i_rm i))) c"
| "exec_dp OpUmaddl i c = wr (i_rd i) (Rd c (i_ra i) + z64 (Wd c (i_rn i)) * z64 (Wd c (i_rm i))) c"
| "exec_dp OpUmsubl i c = wr (i_rd i) (Rd c (i_ra i) - z64 (Wd c (i_rn i)) * z64 (Wd c (i_rm i))) c"
| "exec_dp OpUmulh i c = wr (i_rd i) (mul64_hi (Rd c (i_rn i)) (Rd c (i_rm i))) c"
| "exec_dp OpSmulh i c =
     (let a = Rd c (i_rn i); b = Rd c (i_rm i); hi = mul64_hi a b;
          hi = hi - (b AND signed_drop_bit 63 a);
          hi = hi - (a AND signed_drop_bit 63 b)
      in wr (i_rd i) hi c)"

end
