(* ===== verification/Exec_Mem.thy ===== *)
theory Exec_Mem
  imports Exec_Regs
begin

text \<open>
  The handlers that reach memory, the exclusive monitor, system registers or the interrupt hooks
  (ldst.go and the system part of decode.go). They may fault, so they are computations; what they
  changed before a fault stays.
\<close>

abbreviation getR :: "u8 \<Rightarrow> ('a cpu_scheme, cpu_err, u64) comp" where
  "getR r \<equiv> gets (\<lambda>c. c_R c r)"

abbreviation getV :: "u8 \<Rightarrow> ('a cpu_scheme, cpu_err, vec) comp" where
  "getV r \<equiv> gets (\<lambda>c. c_V c r)"

abbreviation nextI :: "'a exec" where
  "nextI \<equiv> upd next_pc"

subsection \<open>Addresses and writeback\<close>

definition addrFor :: "inst \<Rightarrow> 'a cpu_scheme \<Rightarrow> u64" where
  "addrFor i c = (if i_cond i = modePost then Rd c (i_rn i) else Rd c (i_rn i) + i_imm i)"

definition addr_off :: "inst \<Rightarrow> 'a cpu_scheme \<Rightarrow> u64" where
  "addr_off i c = Rd c (i_rn i) + i_imm i"

definition addr_reg :: "inst \<Rightarrow> 'a cpu_scheme \<Rightarrow> u64" where
  "addr_reg i c = Rd c (i_rn i) + push_bit (unat (i_amt i)) (extend (Rd c (i_rm i)) (i_ra i))"

definition writeback :: "inst \<Rightarrow> u64 \<Rightarrow> 'a cpu_scheme \<Rightarrow> 'a cpu_scheme" where
  "writeback i addr c =
     (if i_cond i = modePre then setR (i_rn i) addr c
      else if i_cond i = modePost then setR (i_rn i) (addr + i_imm i) c else c)"

abbreviation sz_of :: "inst \<Rightarrow> nat" where
  "sz_of i \<equiv> unat (i_sz i)"

subsection \<open>Integer and vector accesses\<close>

definition ld_ext :: "inst \<Rightarrow> u64 \<Rightarrow> u64" where
  "ld_ext i v =
     (if i_sh i = extSign then sext v (sz_of i * 8)
      else if i_sh i = extSign32 then z64 (w32 (sext v (sz_of i * 8))) else v)"

definition ldInt :: "'a cpu_env \<Rightarrow> inst \<Rightarrow> u64 \<Rightarrow> 'a exec" where
  "ldInt E i addr = bnd (readN E addr (sz_of i)) (\<lambda>v. upd (setR (i_rd i) (ld_ext i v)))"

definition stInt :: "'a cpu_env \<Rightarrow> inst \<Rightarrow> u64 \<Rightarrow> 'a exec" where
  "stInt E i addr = bnd (getR (i_rd i)) (\<lambda>v. writeN E addr (sz_of i) v)"

definition vLoad :: "'a cpu_env \<Rightarrow> inst \<Rightarrow> u64 \<Rightarrow> 'a exec" where
  "vLoad E i addr =
     (if i_sz i = 16 then
        bnd (guest_page E MemRead addr 16 0) (\<lambda>_.
          bnd (read64 E addr) (\<lambda>lo. bnd (read64 E (addr + 8)) (\<lambda>hi. upd (setV (i_rd i) (lo, hi)))))
      else bnd (readN E addr (sz_of i)) (\<lambda>v. upd (setV (i_rd i) (v, 0))))"

definition vStore :: "'a cpu_env \<Rightarrow> inst \<Rightarrow> u64 \<Rightarrow> 'a exec" where
  "vStore E i addr =
     (if i_sz i = 16 then
        andthen (check_write E addr 16)
          (andthen (bnd (getV (i_rd i)) (\<lambda>v. write64 E addr (fst v)))
             (bnd (getV (i_rd i)) (\<lambda>v. write64 E (addr + 8) (snd v))))
      else bnd (getV (i_rd i)) (\<lambda>v. writeN E addr (sz_of i) (fst v)))"

text \<open>
  The three shapes of a handler: the access at a fixed address, and the access with writeback,
  which is applied after it so that a fault leaves the base register alone.
\<close>

definition at_addr :: "('a cpu_scheme \<Rightarrow> u64) \<Rightarrow> (u64 \<Rightarrow> 'a exec) \<Rightarrow> 'a exec" where
  "at_addr f acc = andthen (bnd (gets f) acc) nextI"

definition with_wb :: "inst \<Rightarrow> (u64 \<Rightarrow> 'a exec) \<Rightarrow> 'a exec" where
  "with_wb i acc =
     andthen (bnd (gets (addrFor i)) (\<lambda>addr. andthen (acc addr) (upd (writeback i addr)))) nextI"

subsection \<open>Pairs\<close>

definition loadPair :: "'a cpu_env \<Rightarrow> inst \<Rightarrow> u64 \<Rightarrow> 'a exec" where
  "loadPair E i addr =
     (let n = sz_of i
      in bnd (guest_page E MemRead addr (2 * n) 0) (\<lambda>_.
           bnd (readN E addr n) (\<lambda>v1.
             bnd (readN E (addr + of_nat n) n) (\<lambda>v2.
               let sx = (\<lambda>v. if i_sh i = extSign then sext v (n * 8) else v)
               in upd (\<lambda>c. setR (i_ra i) (sx v2) (setR (i_rd i) (sx v1) c))))))"

definition storePair :: "'a cpu_env \<Rightarrow> inst \<Rightarrow> u64 \<Rightarrow> 'a exec" where
  "storePair E i addr =
     (let n = sz_of i
      in andthen (check_write E addr (2 * n))
           (andthen (bnd (getR (i_rd i)) (\<lambda>v. writeN E addr n v))
              (bnd (getR (i_ra i)) (\<lambda>v. writeN E (addr + of_nat n) n v))))"

definition vLoadPair :: "'a cpu_env \<Rightarrow> inst \<Rightarrow> u64 \<Rightarrow> 'a exec" where
  "vLoadPair E i addr =
     (let n = sz_of i
      in bnd (guest_page E MemRead addr (2 * n) 0) (\<lambda>_.
           if n = 16 then
             andthen
               (bnd (read64 E addr) (\<lambda>lo. bnd (read64 E (addr + 8)) (\<lambda>hi. upd (setV (i_rd i) (lo, hi)))))
               (bnd (read64 E (addr + 16)) (\<lambda>lo. bnd (read64 E (addr + 24)) (\<lambda>hi. upd (setV (i_ra i) (lo, hi)))))
           else
             andthen (bnd (readN E addr n) (\<lambda>v. upd (setV (i_rd i) (v, 0))))
               (bnd (readN E (addr + of_nat n) n) (\<lambda>v. upd (setV (i_ra i) (v, 0))))))"

definition vStorePair :: "'a cpu_env \<Rightarrow> inst \<Rightarrow> u64 \<Rightarrow> 'a exec" where
  "vStorePair E i addr =
     (let n = sz_of i
      in andthen (check_write E addr (2 * n))
           (if n = 16 then
              andthen (bnd (getV (i_rd i)) (\<lambda>v. write64 E addr (fst v)))
                (andthen (bnd (getV (i_rd i)) (\<lambda>v. write64 E (addr + 8) (snd v)))
                   (andthen (bnd (getV (i_ra i)) (\<lambda>v. write64 E (addr + 16) (fst v)))
                      (bnd (getV (i_ra i)) (\<lambda>v. write64 E (addr + 24) (snd v)))))
            else
              andthen (bnd (getV (i_rd i)) (\<lambda>v. writeN E addr n (fst v)))
                (bnd (getV (i_ra i)) (\<lambda>v. writeN E (addr + of_nat n) n (fst v)))))"

subsection \<open>Exclusives and atomics\<close>

definition opLdxr :: "'a cpu_env \<Rightarrow> inst \<Rightarrow> u64 \<Rightarrow> 'a exec" where
  "opLdxr E i addr =
     bnd (readN E addr (sz_of i)) (\<lambda>v. upd (\<lambda>c.
       (setR (i_rd i) v c)\<lparr>c_exclAddr := addr, c_exclVal := v, c_exclSize := sz_of i, c_exclValid := True\<rparr>))"

definition opLdxp :: "'a cpu_env \<Rightarrow> inst \<Rightarrow> u64 \<Rightarrow> 'a exec" where
  "opLdxp E i addr =
     (let n = sz_of i
      in bnd (guest_page E MemRead addr (2 * n) 0) (\<lambda>_.
           bnd (readN E addr n) (\<lambda>v1.
             bnd (readN E (addr + of_nat n) n) (\<lambda>v2. upd (\<lambda>c.
               (setR (i_rm i) v2 (setR (i_rd i) v1 c))
                 \<lparr>c_exclAddr := addr, c_exclVal := v1, c_exclVal2 := v2, c_exclSize := 2 * n,
                  c_exclValid := True\<rparr>)))))"

definition exclusiveOK :: "u64 \<Rightarrow> nat \<Rightarrow> ('a cpu_scheme, cpu_err, bool) comp" where
  "exclusiveOK addr sz c =
     (Inr (c_exclValid c \<and> c_exclAddr c = addr \<and> c_exclSize c = sz), c\<lparr>c_exclValid := False\<rparr>)"

definition opStxr :: "'a cpu_env \<Rightarrow> inst \<Rightarrow> u64 \<Rightarrow> 'a exec" where
  "opStxr E i addr =
     bnd (exclusiveOK addr (sz_of i)) (\<lambda>ok.
       if ok then andthen (bnd (getR (i_rd i)) (\<lambda>v. writeN E addr (sz_of i) v)) (upd (setR (i_ra i) 0))
       else upd (setR (i_ra i) 1))"

definition opStxp :: "'a cpu_env \<Rightarrow> inst \<Rightarrow> u64 \<Rightarrow> 'a exec" where
  "opStxp E i addr =
     (let n = sz_of i
      in bnd (exclusiveOK addr (2 * n)) (\<lambda>ok.
           if ok then
             andthen (check_write E addr (2 * n))
               (andthen (bnd (getR (i_rd i)) (\<lambda>v. writeN E addr n v))
                  (andthen (bnd (getR (i_rm i)) (\<lambda>v. writeN E (addr + of_nat n) n v))
                     (upd (setR (i_ra i) 0))))
           else upd (setR (i_ra i) 1)))"

definition opCas :: "'a cpu_env \<Rightarrow> inst \<Rightarrow> u64 \<Rightarrow> 'a exec" where
  "opCas E i addr =
     bnd (readN E addr (sz_of i)) (\<lambda>old.
       bnd (getR (i_rm i)) (\<lambda>r.
         let cmp = (if i_sz i < 8 then r AND (push_bit (8 * sz_of i) 1 - 1) else r)
         in andthen
              (if old = cmp then bnd (getR (i_rd i)) (\<lambda>v. writeN E addr (sz_of i) v) else ret ())
              (upd (setR (i_ra i) old))))"

definition opSwp :: "'a cpu_env \<Rightarrow> inst \<Rightarrow> u64 \<Rightarrow> 'a exec" where
  "opSwp E i addr =
     bnd (readN E addr (sz_of i)) (\<lambda>old.
       andthen (bnd (getR (i_rm i)) (\<lambda>v. writeN E addr (sz_of i) v)) (upd (setR (i_rd i) old)))"

definition mask_go :: "nat \<Rightarrow> u64" where
  "mask_go n = (if n \<ge> 64 then NOT 0 else push_bit n 1 - 1)"

definition atomic_val :: "u8 \<Rightarrow> nat \<Rightarrow> u64 \<Rightarrow> u64 \<Rightarrow> u64" where
  "atomic_val sh n old s =
     (if sh = 0 then old + s
      else if sh = 1 then old AND NOT s
      else if sh = 2 then old XOR s
      else if sh = 3 then old OR s
      else if sh = 4 then (if sint (sext old n) < sint (sext s n) then s else old)
      else if sh = 5 then (if sint (sext old n) > sint (sext s n) then s else old)
      else if sh = 6 then (if old < s AND mask_go n then s else old)
      else (if old > s AND mask_go n then s else old))"

definition opLdAtomic :: "'a cpu_env \<Rightarrow> inst \<Rightarrow> u64 \<Rightarrow> 'a exec" where
  "opLdAtomic E i addr =
     (let n = sz_of i * 8
      in bnd (readN E addr (sz_of i)) (\<lambda>old.
           bnd (getR (i_rm i)) (\<lambda>s.
             andthen (writeN E addr (sz_of i) (atomic_val (i_sh i) n old s)) (upd (setR (i_rd i) old)))))"

subsection \<open>AdvSIMD load/store multiple structures\<close>

text \<open>
  \<open>getLane\<close> and \<open>setLane\<close> of vec.go; a lane of a 16-byte register starts below bit 128, so the word
  index \<open>bitoff >> 6\<close> is 0 or 1.
\<close>

definition getLane :: "vec \<Rightarrow> nat \<Rightarrow> nat \<Rightarrow> u64" where
  "getLane v esize idx =
     (let bitoff = idx * esize * 8; w = (if bitoff div 64 = 0 then fst v else snd v)
      in drop_bit (bitoff mod 64) w AND mask_go (esize * 8))"

definition setLane :: "vec \<Rightarrow> nat \<Rightarrow> nat \<Rightarrow> u64 \<Rightarrow> vec" where
  "setLane v esize idx val =
     (let bitoff = idx * esize * 8; m = mask_go (esize * 8); sh = bitoff mod 64;
          put = (\<lambda>w. w AND NOT (push_bit sh m) OR push_bit sh (val AND m))
      in if bitoff div 64 = 0 then (put (fst v), snd v) else (fst v, put (snd v)))"

text \<open>The (register, lane) pairs in the order the loops visit them.\<close>

definition multi_order :: "bool \<Rightarrow> nat \<Rightarrow> nat \<Rightarrow> (nat \<times> nat) list" where
  "multi_order contiguous regs lanes =
     (if contiguous then concat (map (\<lambda>r. map (\<lambda>l. (r, l)) [0..<lanes]) [0..<regs])
      else concat (map (\<lambda>l. map (\<lambda>r. (r, l)) [0..<regs]) [0..<lanes]))"

definition vreg :: "inst \<Rightarrow> nat \<Rightarrow> u8" where
  "vreg i r = of_nat ((unat (i_rd i) + r) mod 32)"

definition simdAdvance :: "inst \<Rightarrow> u64 \<Rightarrow> 'a cpu_scheme \<Rightarrow> 'a cpu_scheme" where
  "simdAdvance i base c =
     (if i_cond i = modePost then setR (i_rn i) (base + i_imm i) c
      else if i_cond i = modeReg then setR (i_rn i) (base + Rd c (i_rm i)) c else c)"

primrec multi_load ::
  "'a cpu_env \<Rightarrow> nat \<Rightarrow> (nat \<times> nat) list \<Rightarrow> u64 \<Rightarrow> (nat \<Rightarrow> vec)
    \<Rightarrow> ('a cpu_scheme, cpu_err, nat \<Rightarrow> vec) comp" where
  "multi_load E esize [] addr out = ret out"
| "multi_load E esize (rl # rls) addr out =
     bnd (readN E addr esize) (\<lambda>v.
       multi_load E esize rls (addr + of_nat esize)
         (out(fst rl := setLane (out (fst rl)) esize (snd rl) v)))"

primrec multi_store ::
  "'a cpu_env \<Rightarrow> inst \<Rightarrow> nat \<Rightarrow> (nat \<times> nat) list \<Rightarrow> u64 \<Rightarrow> 'a exec" where
  "multi_store E i esize [] addr = ret ()"
| "multi_store E i esize (rl # rls) addr =
     andthen
       (bnd (getV (vreg i (fst rl))) (\<lambda>v. writeN E addr esize (getLane v esize (snd rl))))
       (multi_store E i esize rls (addr + of_nat esize))"

definition opSIMDLoadMulti :: "'a cpu_env \<Rightarrow> inst \<Rightarrow> u64 \<Rightarrow> 'a exec" where
  "opSIMDLoadMulti E i base =
     (let esize = 2 ^ unat (i_sz i); lanes = unat (i_amt i) div esize;
          regs = unat (i_sh i); total = unat (i_sh i) * unat (i_amt i)
      in bnd (guest_page E MemRead base total 0) (\<lambda>_.
           bnd (multi_load E esize (multi_order (i_ra i = 1) regs lanes) base (\<lambda>_. (0, 0))) (\<lambda>out.
             upd (\<lambda>c. simdAdvance i base
                        (fold (\<lambda>r. setV (vreg i r) (out r)) [0..<regs] c)))))"

definition opSIMDStoreMulti :: "'a cpu_env \<Rightarrow> inst \<Rightarrow> u64 \<Rightarrow> 'a exec" where
  "opSIMDStoreMulti E i base =
     (let esize = 2 ^ unat (i_sz i); lanes = unat (i_amt i) div esize;
          regs = unat (i_sh i); total = unat (i_sh i) * unat (i_amt i)
      in andthen (check_write E base total)
           (andthen (multi_store E i esize (multi_order (i_ra i = 1) regs lanes) base)
              (upd (simdAdvance i base))))"

subsection \<open>Dispatch over the generic handlers\<close>

abbreviation base_reg :: "inst \<Rightarrow> 'a cpu_scheme \<Rightarrow> u64" where
  "base_reg i \<equiv> \<lambda>c. Rd c (i_rn i)"

fun exec_ldst :: "'a cpu_env \<Rightarrow> hldst \<Rightarrow> inst \<Rightarrow> 'a exec" where
  "exec_ldst E OpLoadOff i = at_addr (addr_off i) (ldInt E i)"
| "exec_ldst E OpLoadWb i = with_wb i (ldInt E i)"
| "exec_ldst E OpLoadReg i = at_addr (addr_reg i) (ldInt E i)"
| "exec_ldst E OpStoreOff i = at_addr (addr_off i) (stInt E i)"
| "exec_ldst E OpStoreWb i = with_wb i (stInt E i)"
| "exec_ldst E OpStoreReg i = at_addr (addr_reg i) (stInt E i)"
| "exec_ldst E OpVLoadOff i = at_addr (addr_off i) (vLoad E i)"
| "exec_ldst E OpVLoadWb i = with_wb i (vLoad E i)"
| "exec_ldst E OpVLoadReg i = at_addr (addr_reg i) (vLoad E i)"
| "exec_ldst E OpVStoreOff i = at_addr (addr_off i) (vStore E i)"
| "exec_ldst E OpVStoreWb i = with_wb i (vStore E i)"
| "exec_ldst E OpVStoreReg i = at_addr (addr_reg i) (vStore E i)"
| "exec_ldst E OpLoadPair i = with_wb i (loadPair E i)"
| "exec_ldst E OpStorePair i = with_wb i (storePair E i)"
| "exec_ldst E OpVLoadPair i = with_wb i (vLoadPair E i)"
| "exec_ldst E OpVStorePair i = with_wb i (vStorePair E i)"
| "exec_ldst E OpLdxr i = at_addr (base_reg i) (opLdxr E i)"
| "exec_ldst E OpLdxp i = at_addr (base_reg i) (opLdxp E i)"
| "exec_ldst E OpStxr i = at_addr (base_reg i) (opStxr E i)"
| "exec_ldst E OpStxp i = at_addr (base_reg i) (opStxp E i)"
| "exec_ldst E OpCas i = at_addr (base_reg i) (opCas E i)"
| "exec_ldst E OpSwp i = at_addr (base_reg i) (opSwp E i)"
| "exec_ldst E OpLdAtomic i = at_addr (base_reg i) (opLdAtomic E i)"
| "exec_ldst E OpSIMDLoadMulti i = at_addr (base_reg i) (opSIMDLoadMulti E i)"
| "exec_ldst E OpSIMDStoreMulti i = at_addr (base_reg i) (opSIMDStoreMulti E i)"

subsection \<open>Specialised hot paths\<close>

text \<open>
  The inlined TLB test of a hot load: on a hit the value comes straight from the page's bytes,
  otherwise from \<open>readSlow\<close>. A one-byte access has no bounds test.
\<close>

definition hot_hit :: "tlb_entry \<Rightarrow> u64 \<Rightarrow> nat \<Rightarrow> bool" where
  "hot_hit e a n \<longleftrightarrow> t_vpn e = vpn_of a \<and> (n = 1 \<or> off_of a \<le> 4096 - of_nat n)"

definition hot_load :: "'a cpu_env \<Rightarrow> nat \<Rightarrow> inst \<Rightarrow> u64 \<Rightarrow> 'a exec" where
  "hot_load E n i a c =
     (let e = m_rtlb c (vpn_of a AND 255)
      in if hot_hit e a n then (Inr (), setR (i_rd i) (loadN c (t_data e) (off_of a) n) c)
         else bnd (read_slow E a n) (\<lambda>v. upd (setR (i_rd i) v)) c)"

definition hot_store :: "'a cpu_env \<Rightarrow> nat \<Rightarrow> inst \<Rightarrow> u64 \<Rightarrow> 'a exec" where
  "hot_store E n i a c =
     (let e = m_wtlb c (vpn_of a AND 255)
      in if hot_hit e a n then (Inr (), storeN (t_data e) (off_of a) n (Rd c (i_rd i)) c)
         else write_slow E a n (Rd c (i_rd i)) c)"

definition hot_ldp :: "'a cpu_env \<Rightarrow> inst \<Rightarrow> u64 \<Rightarrow> 'a exec" where
  "hot_ldp E i a c =
     (let e = m_rtlb c (vpn_of a AND 255); off = off_of a
      in if t_vpn e = vpn_of a \<and> off \<le> 4096 - 16 then
           (Inr (), setR (i_ra i) (loadN c (t_data e) (off + 8) 8)
                      (setR (i_rd i) (loadN c (t_data e) off 8) c))
         else
           bnd (guest_page E MemRead a 16 0) (\<lambda>_.
             andthen (bnd (read64 E a) (\<lambda>v. upd (setR (i_rd i) v)))
               (bnd (read64 E (a + 8)) (\<lambda>v. upd (setR (i_ra i) v)))) c)"

definition hot_stp :: "'a cpu_env \<Rightarrow> inst \<Rightarrow> u64 \<Rightarrow> 'a exec" where
  "hot_stp E i a c =
     (let e = m_wtlb c (vpn_of a AND 255); off = off_of a
      in if t_vpn e = vpn_of a \<and> off \<le> 4096 - 16 then
           (Inr (), storeN (t_data e) (off + 8) 8 (Rd c (i_ra i))
                      (storeN (t_data e) off 8 (Rd c (i_rd i)) c))
         else
           andthen (check_write E a 16)
             (andthen (bnd (getR (i_rd i)) (\<lambda>v. write64 E a v))
                (bnd (getR (i_ra i)) (\<lambda>v. write64 E (a + 8) v))) c)"

fun exec_hot :: "'a cpu_env \<Rightarrow> hhot \<Rightarrow> inst \<Rightarrow> 'a exec" where
  "exec_hot E OpLdr64Off i = at_addr (addr_off i) (hot_load E 8 i)"
| "exec_hot E OpLdr32Off i = at_addr (addr_off i) (hot_load E 4 i)"
| "exec_hot E OpLdrb64Off i = at_addr (addr_off i) (hot_load E 1 i)"
| "exec_hot E OpStr64Off i = at_addr (addr_off i) (hot_store E 8 i)"
| "exec_hot E OpStr32Off i = at_addr (addr_off i) (hot_store E 4 i)"
| "exec_hot E OpStrb64Off i = at_addr (addr_off i) (hot_store E 1 i)"
| "exec_hot E OpLdr64Reg i = at_addr (addr_reg i) (hot_load E 8 i)"
| "exec_hot E OpLdr32Reg i = at_addr (addr_reg i) (hot_load E 4 i)"
| "exec_hot E OpLdrb64Reg i = at_addr (addr_reg i) (hot_load E 1 i)"
| "exec_hot E OpStr64Reg i = at_addr (addr_reg i) (hot_store E 8 i)"
| "exec_hot E OpStr32Reg i = at_addr (addr_reg i) (hot_store E 4 i)"
| "exec_hot E OpStrb64Reg i = at_addr (addr_reg i) (hot_store E 1 i)"
| "exec_hot E OpLdp64Off i = at_addr (addr_off i) (hot_ldp E i)"
| "exec_hot E OpStp64Off i = at_addr (addr_off i) (hot_stp E i)"

subsection \<open>Exceptions and system registers (decode.go, cpu.go)\<close>

abbreviation ExcpSWI :: u32 where "ExcpSWI \<equiv> 2"
abbreviation ExcpBKPT :: u32 where "ExcpBKPT \<equiv> 7"
abbreviation ExcpHLT :: u32 where "ExcpHLT \<equiv> 8"

text \<open>\<open>raise\<close>: every hook is called, then the fetch cache is dropped and a stop request unwinds.\<close>

definition raise_exc :: "'a cpu_env \<Rightarrow> u32 \<Rightarrow> 'a exec" where
  "raise_exc E intno c =
     (if c_intrHooks c = [] then (Inl (Unhandled intno (m_pc c)), c)
      else
        let c1 = fold (\<lambda>h. intr_fn E h intno) (c_intrHooks c) c;
            c2 = c1\<lparr>m_fetchVPN := noVPN\<rparr>
        in if c_stopReq c2 then (Inl StopSignal, c2) else (Inr (), c2))"

definition mrs_val :: "u32 \<Rightarrow> 'a cpu_scheme \<Rightarrow> u64" where
  "mrs_val reg c =
     (if reg = regNZCV then z64 (c_NZCV c) else if reg = regFPCR then z64 (c_FPCR c)
      else if reg = regFPSR then z64 (c_FPSR c) else if reg = regTPIDR then c_TPIDR c
      else if reg = regTPIDRRO then c_TPIDRRO c
      else if reg = regCNTPCT \<or> reg = regCNTVCT then c_icount c else 0)"

definition msr :: "u32 \<Rightarrow> u64 \<Rightarrow> 'a cpu_scheme \<Rightarrow> 'a cpu_scheme" where
  "msr reg v c =
     (if reg = regNZCV then c\<lparr>c_NZCV := w32 v AND 0xf0000000\<rparr>
      else if reg = regFPCR then c\<lparr>c_FPCR := w32 v AND 0x07ff9f00\<rparr>
      else if reg = regFPSR then c\<lparr>c_FPSR := w32 v AND 0xf800009f\<rparr>
      else if reg = regTPIDR then c\<lparr>c_TPIDR := v\<rparr> else c)"

primrec zero_words :: "'a cpu_env \<Rightarrow> u64 \<Rightarrow> nat list \<Rightarrow> 'a exec" where
  "zero_words E a [] = ret ()"
| "zero_words E a (k # ks) = andthen (write64 E (a + of_nat (8 * k)) 0) (zero_words E a ks)"

definition dc_zva :: "'a cpu_env \<Rightarrow> u64 \<Rightarrow> 'a exec" where
  "dc_zva E base =
     (let a = base AND NOT 63 in andthen (check_write E a 64) (zero_words E a [0..<8]))"

text \<open>\<open>opUndef\<close> reports the encoding it re-reads from the current code page.\<close>

definition undef_raw :: "'a cpu_scheme \<Rightarrow> u32" where
  "undef_raw c =
     (case m_fetchCode c of None \<Rightarrow> 0 | Some cp \<Rightarrow> page_raw c (cp_pg (m_codes c cp)) (m_pc c))"

fun exec_sys :: "'a cpu_env \<Rightarrow> hsys \<Rightarrow> inst \<Rightarrow> 'a exec" where
  "exec_sys E OpSvc i = andthen nextI (raise_exc E ExcpSWI)"
| "exec_sys E OpBrk i = raise_exc E ExcpBKPT"
| "exec_sys E OpHlt i = raise_exc E ExcpHLT"
| "exec_sys E OpNop i = nextI"
| "exec_sys E OpClrex i = upd (\<lambda>c. next_pc (c\<lparr>c_exclValid := False\<rparr>))"
| "exec_sys E OpMovImm2 i = upd (wr (i_rd i) (i_imm2 i))"
| "exec_sys E OpMrs i = upd (\<lambda>c. wr (i_rd i) (mrs_val (w32 (i_imm i)) c) c)"
| "exec_sys E OpMsr i = upd (\<lambda>c. next_pc (msr (w32 (i_imm i)) (Rd c (i_rn i)) c))"
| "exec_sys E OpDcZva i = at_addr (base_reg i) (dc_zva E)"
| "exec_sys E OpUndef i = (\<lambda>c. (Inl (Undefined (m_pc c) (undef_raw c)), c))"

text \<open>\<open>in.fn(c, in)\<close>; the vector and floating-point handlers are the environment's.\<close>

fun exec_fn :: "'a cpu_env \<Rightarrow> handler \<Rightarrow> inst \<Rightarrow> 'a exec" where
  "exec_fn E (HImm h) i = upd (exec_imm h i)"
| "exec_fn E (HBranch h) i = upd (exec_branch h i)"
| "exec_fn E (HLogic h) i = upd (exec_logic h i)"
| "exec_fn E (HAddSub h) i = upd (exec_addsub h i)"
| "exec_fn E (HCond h) i = upd (exec_cond h i)"
| "exec_fn E (HDp h) i = upd (exec_dp h i)"
| "exec_fn E (HSys h) i = exec_sys E h i"
| "exec_fn E (HLdSt h) i = exec_ldst E h i"
| "exec_fn E (HHot h) i = exec_hot E h i"
| "exec_fn E (HSimd n) i = simd_fn E n i"

end
