(* ===== verification/Run.thy ===== *)
theory Run
  imports Exec_Mem
begin

text \<open>
  Fetching and the run loop of cpu.go. The loop is \<open>run_loop\<close> with fuel, one unit per iteration of
  the inner or the outer loop: a code hook that moves the PC makes the inner loop go on without
  retiring anything, so \<open>Run\<close> need not return and \<open>None\<close> is the run that is still going.
\<close>

subsection \<open>Fetching\<close>

text \<open>\<open>codePage\<close> of a page, allocated when the page has none.\<close>

definition get_code :: "nat \<Rightarrow> u64 \<Rightarrow> 'a memory_scheme \<Rightarrow> nat \<times> 'a memory_scheme" where
  "get_code p vpn m =
     (case p_code (m_pages m p) of
        Some cp \<Rightarrow> (cp, m)
      | None \<Rightarrow>
          let cp = m_ncode m;
              m1 = m\<lparr>m_codes := (m_codes m)(cp := \<lparr>cp_pg = p, cp_insts = (\<lambda>_. inst0)\<rparr>), m_ncode := Suc cp,
                     m_pages := (m_pages m)(p := (m_pages m p)\<lparr>p_code := Some cp\<rparr>)\<rparr>;
              i = vpn AND 255
          in (cp, if t_vpn (m_wtlb m1 i) = vpn
                  then m1\<lparr>m_wtlb := (m_wtlb m1)(i := (m_wtlb m1 i)\<lparr>t_vpn := noVPN\<rparr>)\<rparr> else m1))"

definition set_fetch :: "u64 \<Rightarrow> nat option \<Rightarrow> 'a memory_scheme \<Rightarrow> 'a memory_scheme" where
  "set_fetch vpn cp m = m\<lparr>m_fetchVPN := vpn, m_fetchCode := cp\<rparr>"

definition fetch :: "('a memory_scheme) env \<Rightarrow> u64 \<Rightarrow> ('a memory_scheme, cpu_err, unit) comp" where
  "fetch E pc m =
     (let vpn = vpn_of pc; e = m_ctlb m (vpn AND 63)
      in if c_vpn e = vpn then (Inr (), set_fetch vpn (c_code e) m)
         else bnd (guest_page E MemFetch pc 4 0) (\<lambda>p. upd (\<lambda>m1.
                let (cp, m2) = get_code p vpn m1
                in set_fetch vpn (Some cp)
                     (m2\<lparr>m_ctlb := (m_ctlb m2)(vpn AND 63 := \<lparr>c_vpn = vpn, c_code = Some cp\<rparr>)\<rparr>))) m)"

subsection \<open>One iteration of the inner loop\<close>

definition callCodeHooks :: "'a cpu_env \<Rightarrow> u64 \<Rightarrow> 'a cpu_scheme \<Rightarrow> 'a cpu_scheme" where
  "callCodeHooks E pc c =
     (fold (\<lambda>h c. if h_begin h > h_end h \<or> (pc \<ge> h_begin h \<and> pc \<le> h_end h)
                  then code_fn E (h_id h) pc c else c) (c_codeHooks c) c)
       \<lparr>m_fetchVPN := noVPN\<rparr>"

definition slot_of :: "u64 \<Rightarrow> u64" where
  "slot_of pc = drop_bit 2 pc AND 0x3ff"

text \<open>
  The decoded instruction at \<open>pc\<close>, decoded into its slot on first use. A nil \<open>fetchCode\<close> would be
  a nil dereference in Go; after a fetch it is never nil (lemma \<open>fetch_fetched\<close>).
\<close>

definition cached_inst :: "(inst \<Rightarrow> u32 \<Rightarrow> inst) \<Rightarrow> u64 \<Rightarrow> 'a memory_scheme \<Rightarrow> inst \<times> 'a memory_scheme" where
  "cached_inst simd pc m =
     (case m_fetchCode m of
        None \<Rightarrow> (inst0, m)
      | Some cp \<Rightarrow>
          let i = cp_insts (m_codes m cp) (slot_of pc)
          in if i_fn i = None then
               let j = decodeAt simd (page_raw m (cp_pg (m_codes m cp)) pc) pc
               in (j, m\<lparr>m_codes := (m_codes m)(cp := (m_codes m cp)
                        \<lparr>cp_insts := (cp_insts (m_codes m cp))(slot_of pc := j)\<rparr>)\<rparr>)
             else (i, m))"

definition exec_cached :: "(inst \<Rightarrow> u32 \<Rightarrow> inst) \<Rightarrow> 'a cpu_env \<Rightarrow> u64 \<Rightarrow> 'a exec" where
  "exec_cached simd E pc c =
     (let (i, c1) = cached_inst simd pc c
      in case i_fn i of
           None \<Rightarrow> (Inl (Undefined pc 0), c1)
         | Some h \<Rightarrow> andthen (exec_fn E h i) (upd (\<lambda>c. c\<lparr>c_icount := c_icount c + 1\<rparr>)) c1)"

definition ensure_fetch :: "'a cpu_env \<Rightarrow> u64 \<Rightarrow> 'a exec" where
  "ensure_fetch E pc c = (if vpn_of pc \<noteq> m_fetchVPN c then fetch E pc c else (Inr (), c))"

text \<open>\<open>True\<close> when the run is over (\<open>return nil\<close>), \<open>False\<close> when the loop goes on.\<close>

definition run_iter ::
  "(inst \<Rightarrow> u32 \<Rightarrow> inst) \<Rightarrow> 'a cpu_env \<Rightarrow> u64 \<Rightarrow> ('a cpu_scheme, cpu_err, bool) comp" where
  "run_iter simd E until c =
     (let pc = m_pc c
      in if pc = until then (Inr True, c)
         else if pc AND 3 \<noteq> 0 then (Inl (Misaligned pc), c)
         else
           bnd (ensure_fetch E pc) (\<lambda>_ c.
             if c_codeHooks c = [] then andthen (exec_cached simd E pc) (ret False) c
             else
               let c1 = callCodeHooks E pc c
               in if c_stopReq c1 then (Inr True, c1)
                  else if m_pc c1 \<noteq> pc then (Inr False, c1)
                  else andthen (ensure_fetch E pc) (andthen (exec_cached simd E pc) (ret False)) c1) c)"

subsection \<open>The loops\<close>

abbreviation stopCheckBatch :: u64 where "stopCheckBatch \<equiv> 512"

definition new_batch :: "u64 \<Rightarrow> 'a cpu_scheme \<Rightarrow> u64" where
  "new_batch limit c =
     (let batch = c_icount c + stopCheckBatch in if batch > limit then limit else batch)"

fun run_loop ::
  "nat \<Rightarrow> (inst \<Rightarrow> u32 \<Rightarrow> inst) \<Rightarrow> 'a cpu_env \<Rightarrow> u64 \<Rightarrow> u64 \<Rightarrow> u64 \<Rightarrow> 'a cpu_scheme
    \<Rightarrow> ((cpu_err + unit) \<times> 'a cpu_scheme) option" where
  "run_loop 0 simd E until limit batch c = None"
| "run_loop (Suc n) simd E until limit batch c =
     (if c_icount c < batch then
        (case run_iter simd E until c of
           (Inl e, c1) \<Rightarrow> Some (Inl e, c1)
         | (Inr fin, c1) \<Rightarrow>
             if fin then Some (Inr (), c1) else run_loop n simd E until limit batch c1)
      else if c_icount c \<ge> limit then Some (Inr (), c)
      else if c_stopReq c then Some (Inr (), c)
      else run_loop n simd E until limit (new_batch limit c) c)"

text \<open>\<open>Run\<close>: the deferred \<open>recover\<close> turns \<open>stopSignal\<close> into a nil error.\<close>

definition recover :: "(cpu_err + unit) \<times> 'a cpu_scheme \<Rightarrow> cpu_err option \<times> 'a cpu_scheme" where
  "recover rc =
     ((case fst rc of Inr _ \<Rightarrow> None | Inl StopSignal \<Rightarrow> None | Inl e \<Rightarrow> Some e), snd rc)"

definition Run ::
  "nat \<Rightarrow> (inst \<Rightarrow> u32 \<Rightarrow> inst) \<Rightarrow> 'a cpu_env \<Rightarrow> u64 \<Rightarrow> u64 \<Rightarrow> 'a cpu_scheme
    \<Rightarrow> (cpu_err option \<times> 'a cpu_scheme) option" where
  "Run fuel simd E until count c =
     (let c0 = c\<lparr>c_stopReq := False\<rparr>;
          limit = (if count \<noteq> 0 then c_icount c0 + count else NOT 0)
      in map_option recover (run_loop fuel simd E until limit (new_batch limit c0) c0))"

end
