(* ===== verification/Cpu_Keep.thy ===== *)
theory Cpu_Keep
  imports Run
begin

text \<open>
  What every instruction keeps. The locale \<open>step_inv\<close> states once what a predicate on the CPU state
  must satisfy (blind to register writes outside a protected set, kept by the memory accesses and by
  exception delivery) to be kept by every handler. It is interpreted on the memory invariant here,
  on the zero register in Cpu_Regs and on the quiet state of a hook-free run in Cpu_Quiet.
\<close>

subsection \<open>The registers a handler may write\<close>

fun dests_ldst :: "hldst \<Rightarrow> inst \<Rightarrow> u8 set" where
  "dests_ldst OpLoadOff i = {i_rd i}"
| "dests_ldst OpLoadReg i = {i_rd i}"
| "dests_ldst OpLoadWb i = {i_rd i, i_rn i}"
| "dests_ldst OpStoreOff i = {}"
| "dests_ldst OpStoreReg i = {}"
| "dests_ldst OpStoreWb i = {i_rn i}"
| "dests_ldst OpVLoadOff i = {}"
| "dests_ldst OpVLoadReg i = {}"
| "dests_ldst OpVLoadWb i = {i_rn i}"
| "dests_ldst OpVStoreOff i = {}"
| "dests_ldst OpVStoreReg i = {}"
| "dests_ldst OpVStoreWb i = {i_rn i}"
| "dests_ldst OpLoadPair i = {i_rd i, i_ra i, i_rn i}"
| "dests_ldst OpStorePair i = {i_rn i}"
| "dests_ldst OpVLoadPair i = {i_rn i}"
| "dests_ldst OpVStorePair i = {i_rn i}"
| "dests_ldst OpLdxr i = {i_rd i}"
| "dests_ldst OpLdxp i = {i_rd i, i_rm i}"
| "dests_ldst OpStxr i = {i_ra i}"
| "dests_ldst OpStxp i = {i_ra i}"
| "dests_ldst OpCas i = {i_ra i}"
| "dests_ldst OpSwp i = {i_rd i}"
| "dests_ldst OpLdAtomic i = {i_rd i}"
| "dests_ldst OpSIMDLoadMulti i = {i_rn i}"
| "dests_ldst OpSIMDStoreMulti i = {i_rn i}"

fun dests :: "handler \<Rightarrow> inst \<Rightarrow> u8 set" where
  "dests (HImm h) i = {i_rd i}"
| "dests (HLogic h) i = {i_rd i}"
| "dests (HAddSub h) i = {i_rd i}"
| "dests (HDp h) i = {i_rd i}"
| "dests (HCond h) i = (if h \<in> {OpCcmnReg64, OpCcmnImm64, OpCcmpReg64, OpCcmpImm64,
     OpCcmnReg32, OpCcmnImm32, OpCcmpReg32, OpCcmpImm32} then {} else {i_rd i})"
| "dests (HBranch h) i = (if h \<in> {OpBL, OpBlr} then {rLR} else {})"
| "dests (HSys h) i = (if h \<in> {OpMovImm2, OpMrs} then {i_rd i} else {})"
| "dests (HLdSt h) i = dests_ldst h i"
| "dests (HHot h) i = (if h \<in> {OpStr64Off, OpStr32Off, OpStrb64Off, OpStr64Reg, OpStr32Reg,
     OpStrb64Reg, OpStp64Off} then {} else if h = OpLdp64Off then {i_rd i, i_ra i} else {i_rd i})"
| "dests (HSimd n) i = {}"

subsection \<open>Predicates that every handler keeps\<close>

locale step_inv =
  fixes E :: "'a cpu_env" and P :: "'a cpu_scheme \<Rightarrow> bool"
    and free :: "u8 \<Rightarrow> bool" and simd_ok :: "hsimd \<Rightarrow> inst \<Rightarrow> bool"
  assumes P_setR: "free r \<Longrightarrow> P c \<Longrightarrow> P (setR r v c)"
    and P_setV: "P c \<Longrightarrow> P (setV q w c)"
    and P_setPC: "P c \<Longrightarrow> P (setPC a c)"
    and P_setNZCV: "P c \<Longrightarrow> P (setNZCV f c)"
    and P_msr: "P c \<Longrightarrow> P (msr reg x c)"
    and P_excl: "P c \<Longrightarrow> P (c\<lparr>c_exclAddr := a, c_exclVal := v1, c_exclVal2 := v2, c_exclSize := sz,
      c_exclValid := b\<rparr>)"
    and P_store: "P c \<Longrightarrow> vpn \<noteq> noVPN \<Longrightarrow> t_vpn (m_wtlb c (vpn AND 255)) = vpn \<Longrightarrow>
      P (storeN (t_data (m_wtlb c (vpn AND 255))) off n v c)"
    and P_guest: "keeps P (guest_page E k a n v)"
    and P_readN: "keeps P (readN E a n)"
    and P_read_slow: "keeps P (read_slow E a n)"
    and P_writeN: "keeps P (writeN E a n v)"
    and P_write_slow: "keeps P (write_slow E a n v)"
    and P_raise: "keeps P (raise_exc E k')"
    and P_simd: "simd_ok sh i \<Longrightarrow> keeps P (simd_fn E sh i)"
begin

lemma P_read64: "keeps P (read64 E a)"
  using P_readN [of a 8] by (simp add: readN_def)

lemma P_write64: "keeps P (write64 E a v)"
  using P_writeN [of a 8 v] by (simp add: writeN_def)

lemma P_check_write: "keeps P (check_write E a n)"
  by (auto simp: check_write_def Let_def intro!: keeps_bnd P_guest keeps_ret)

lemma P_next: "P c \<Longrightarrow> P (next_pc c)"
  by (simp add: next_pc_def P_setPC)

lemma P_wr: "free r \<Longrightarrow> P c \<Longrightarrow> P (wr r v c)"
  by (simp add: wr_def P_next P_setR)

lemma P_wr32: "free r \<Longrightarrow> P c \<Longrightarrow> P (wr32 r x c)"
  by (simp add: wr32_def P_wr)

lemma P_wrf: "free r \<Longrightarrow> P c \<Longrightarrow> P (wrf r vf c)"
  by (simp add: wrf_def P_next P_setR P_setNZCV)

lemma P_wrf32: "free r \<Longrightarrow> P c \<Longrightarrow> P (wrf32 r xf c)"
  by (simp add: wrf32_def P_wrf)

lemmas P_state = P_wr P_wr32 P_wrf P_wrf32 P_next P_setPC P_setR P_setNZCV P_setV P_msr

lemma P_imm: "free (i_rd i) \<Longrightarrow> P c \<Longrightarrow> P (exec_imm h i c)"
  by (cases h) (simp_all add: P_state Let_def)

lemma P_logic: "free (i_rd i) \<Longrightarrow> P c \<Longrightarrow> P (exec_logic h i c)"
  by (cases h) (simp_all add: P_state Let_def)

lemma P_addsub: "free (i_rd i) \<Longrightarrow> P c \<Longrightarrow> P (exec_addsub h i c)"
  by (cases h) (simp_all add: P_state Let_def)

lemma P_dp: "free (i_rd i) \<Longrightarrow> P c \<Longrightarrow> P (exec_dp h i c)"
  by (cases h) (simp_all add: P_state Let_def)

lemma P_cond: "\<forall>r \<in> dests (HCond h) i. free r \<Longrightarrow> P c \<Longrightarrow> P (exec_cond h i c)"
  by (cases h) (simp_all add: P_state ccmp64_def ccmp32_def)

lemma P_branch: "\<forall>r \<in> dests (HBranch h) i. free r \<Longrightarrow> P c \<Longrightarrow> P (exec_branch h i c)"
  by (cases h) (simp_all add: P_state branch_if_def Let_def)

lemma P_excl_valid: "P c \<Longrightarrow> P (c\<lparr>c_exclValid := b\<rparr>)"
  using P_excl [where a = "c_exclAddr c" and ?v1.0 = "c_exclVal c" and ?v2.0 = "c_exclVal2 c"
      and sz = "c_exclSize c" and b = b and c = c] by simp

lemma P_excl1: "P c \<Longrightarrow> P (c\<lparr>c_exclAddr := a, c_exclVal := v1, c_exclSize := sz, c_exclValid := b\<rparr>)"
  using P_excl [where a = a and ?v1.0 = v1 and ?v2.0 = "c_exclVal2 c" and sz = sz and b = b and c = c]
  by simp

lemma P_writeback: "free (i_rn i) \<Longrightarrow> P c \<Longrightarrow> P (writeback i a c)"
  by (simp add: writeback_def P_setR)

lemma P_advance: "free (i_rn i) \<Longrightarrow> P c \<Longrightarrow> P (simdAdvance i a c)"
  by (simp add: simdAdvance_def P_setR)

lemma P_fold_setV: "P c \<Longrightarrow> P (fold (\<lambda>r. setV (g r) (w r)) rs c)"
  by (induction rs arbitrary: c) (simp_all add: P_setV)

lemmas P_mem = P_guest P_readN P_read_slow P_writeN P_write_slow P_read64 P_write64 P_check_write P_raise

lemma P_at_addr: "(\<And>a. keeps P (acc a)) \<Longrightarrow> keeps P (at_addr f acc)"
  by (auto simp: at_addr_def intro!: keep_intros P_next)

lemma P_with_wb: "free (i_rn i) \<Longrightarrow> (\<And>a. keeps P (acc a)) \<Longrightarrow> keeps P (with_wb i acc)"
  by (auto simp: with_wb_def intro!: keep_intros P_next P_writeback)

lemma P_access:
  "free (i_rd i) \<Longrightarrow> keeps P (ldInt E i a)"
  "keeps P (stInt E i a)" "keeps P (vLoad E i a)" "keeps P (vStore E i a)"
  by (auto simp: ldInt_def stInt_def vLoad_def vStore_def intro!: keep_intros P_mem P_setR P_setV)

lemma P_pairs:
  "free (i_rd i) \<Longrightarrow> free (i_ra i) \<Longrightarrow> keeps P (loadPair E i a)"
  "keeps P (storePair E i a)" "keeps P (vLoadPair E i a)" "keeps P (vStorePair E i a)"
  by (auto simp: loadPair_def storePair_def vLoadPair_def vStorePair_def Let_def
      intro!: keep_intros P_mem P_setR P_setV)

lemma P_exclOK: "keeps P (exclusiveOK a n)"
  by (auto simp: keeps_def exclusiveOK_def P_excl_valid)

lemma P_exclusives:
  "free (i_rd i) \<Longrightarrow> keeps P (opLdxr E i a)"
  "free (i_rd i) \<Longrightarrow> free (i_rm i) \<Longrightarrow> keeps P (opLdxp E i a)"
  "free (i_ra i) \<Longrightarrow> keeps P (opStxr E i a)" "free (i_ra i) \<Longrightarrow> keeps P (opStxp E i a)"
  by (auto simp: opLdxr_def opLdxp_def opStxr_def opStxp_def Let_def
      intro!: keep_intros P_mem P_setR P_excl P_excl1 P_exclOK)

lemma P_atomics:
  "free (i_ra i) \<Longrightarrow> keeps P (opCas E i a)" "free (i_rd i) \<Longrightarrow> keeps P (opSwp E i a)"
  "free (i_rd i) \<Longrightarrow> keeps P (opLdAtomic E i a)"
  by (auto simp: opCas_def opSwp_def opLdAtomic_def Let_def intro!: keep_intros P_mem P_setR)

lemma P_multi_load: "keeps P (multi_load E n rls a out)"
  by (induction rls arbitrary: a out) (auto intro!: keep_intros P_mem)

lemma P_multi_store: "keeps P (multi_store E i n rls a)"
  by (induction rls arbitrary: a) (auto intro!: keep_intros P_mem)

lemma P_multi:
  "free (i_rn i) \<Longrightarrow> keeps P (opSIMDLoadMulti E i a)" "free (i_rn i) \<Longrightarrow> keeps P (opSIMDStoreMulti E i a)"
  by (auto simp: opSIMDLoadMulti_def opSIMDStoreMulti_def Let_def
      intro!: keep_intros P_mem P_multi_load P_multi_store P_advance P_fold_setV)

lemma P_ldst: "\<forall>r \<in> dests_ldst h i. free r \<Longrightarrow> keeps P (exec_ldst E h i)"
  by (cases h)
    (auto intro!: P_at_addr P_with_wb P_access P_pairs P_exclusives P_atomics P_multi)

lemma P_hot_load: "free (i_rd i) \<Longrightarrow> keeps P (hot_load E n i a)"
  unfolding keeps_def hot_load_def Let_def
  using keepsD [OF keeps_bnd [OF P_read_slow keeps_upd]] by (auto simp: P_setR)

lemma P_hot_store: "keeps P (hot_store E n i a)"
  unfolding keeps_def hot_store_def Let_def
  using keepsD [OF P_write_slow] P_store [of _ "vpn_of a"] by (auto simp: hot_hit_def)

lemma P_hot_ldp: "free (i_rd i) \<Longrightarrow> free (i_ra i) \<Longrightarrow> keeps P (hot_ldp E i a)"
proof -
  assume f: "free (i_rd i)" "free (i_ra i)"
  have "keeps P (bnd (guest_page E MemRead a 16 0) (\<lambda>_.
      andthen (bnd (read64 E a) (\<lambda>v. upd (setR (i_rd i) v)))
        (bnd (read64 E (a + 8)) (\<lambda>v. upd (setR (i_ra i) v)))))"
    using f by (auto intro!: keep_intros P_mem P_setR)
  then show ?thesis
    using f by (auto simp: keeps_def hot_ldp_def Let_def P_setR)
qed

lemma P_hot_stp: "keeps P (hot_stp E i a)"
proof -
  have "keeps P (andthen (check_write E a 16)
      (andthen (bnd (getR (i_rd i)) (\<lambda>v. write64 E a v)) (bnd (getR (i_ra i)) (\<lambda>v. write64 E (a + 8) v))))"
    by (auto intro!: keep_intros P_mem)
  moreover have "P (storeN (t_data (m_wtlb c (vpn_of a AND 255))) o2 8 w
      (storeN (t_data (m_wtlb c (vpn_of a AND 255))) o1 8 v c))"
    if "P c" "t_vpn (m_wtlb c (vpn_of a AND 255)) = vpn_of a" for c o1 o2 v w
  proof -
    let ?c = "storeN (t_data (m_wtlb c (vpn_of a AND 255))) o1 8 v c"
    have "P ?c" using that by (intro P_store) simp_all
    moreover have "m_wtlb ?c = m_wtlb c" by (simp add: storeN_arr_put)
    ultimately show ?thesis
      using P_store [of ?c "vpn_of a"] that(2) by simp
  qed
  ultimately show ?thesis
    by (auto simp: keeps_def hot_stp_def Let_def)
qed

lemma P_hot: "\<forall>r \<in> dests (HHot h) i. free r \<Longrightarrow> keeps P (exec_hot E h i)"
  by (cases h) (auto intro!: P_at_addr P_hot_load P_hot_store P_hot_ldp P_hot_stp)

lemma P_zero_words: "keeps P (zero_words E a ks)"
  by (induction ks) (auto intro!: keep_intros P_mem)

lemma P_nextI: "keeps P nextI"
  by (rule keeps_upd) (rule P_next)

lemma P_sys: "\<forall>r \<in> dests (HSys h) i. free r \<Longrightarrow> keeps P (exec_sys E h i)"
proof (cases h)
  case OpDcZva
  have "keeps P (dc_zva E a)" for a
    by (auto simp: dc_zva_def Let_def intro!: keeps_andthen P_check_write P_zero_words)
  then show ?thesis
    using OpDcZva by (simp add: P_at_addr)
next
  case OpUndef
  then show ?thesis by (simp add: keeps_def)
qed (auto intro: keeps_andthen P_raise P_nextI keeps_upd simp: P_state P_excl_valid)

text \<open>Every handler keeps \<open>P\<close> when the registers it may write are free.\<close>

lemma P_exec:
  "\<forall>r \<in> dests h i. free r \<Longrightarrow> (\<And>n. h = HSimd n \<Longrightarrow> simd_ok n i) \<Longrightarrow> keeps P (exec_fn E h i)"
  by (cases h)
    (simp_all add: P_imm P_logic P_addsub P_dp P_cond P_branch P_ldst P_hot P_sys P_simd keeps_upd
      del: dests.simps(5-7,9))

end

end
