(* ===== verification/Memory_Spec.thy ===== *)
theory Memory_Spec
  imports Access_Keep
begin

text \<open>
  What the guest memory promises: a partial map from addresses to bytes (\<open>mbyte\<close>) and to
  protections (\<open>mprot\<close>). Under \<open>mem_inv\<close> every operation of mem.go acts on these maps in the
  obvious way, whatever the state of its caches.
\<close>

definition mbyte :: "'a memory_scheme \<Rightarrow> u64 \<Rightarrow> u8 option" where
  "mbyte m a = map_option (\<lambda>p. m_arrs m (page_data m p) (off_of a)) (lookup m (vpn_of a))"

definition mprot :: "'a memory_scheme \<Rightarrow> u64 \<Rightarrow> u8 option" where
  "mprot m a = map_option (\<lambda>p. p_prot (m_pages m p)) (lookup m (vpn_of a))"

definition allows :: "u8 \<Rightarrow> 'a memory_scheme \<Rightarrow> u64 \<Rightarrow> bool" where
  "allows need m a \<longleftrightarrow> (\<exists>q. mprot m a = Some q \<and> q AND need \<noteq> 0)"

text \<open>The \<open>n\<close> bytes from \<open>a\<close>, and a map with \<open>bs\<close> stored from \<open>a\<close> on.\<close>

definition mbytes :: "'a memory_scheme \<Rightarrow> u64 \<Rightarrow> nat \<Rightarrow> u8 list" where
  "mbytes m a n = map (\<lambda>k. the (mbyte m (a + of_nat k))) [0..<n]"

definition mem_put :: "u64 \<Rightarrow> u8 list \<Rightarrow> (u64 \<Rightarrow> u8 option) \<Rightarrow> (u64 \<Rightarrow> u8 option)" where
  "mem_put a bs f = (\<lambda>x. if unat (x - a) < length bs then Some (bs ! unat (x - a)) else f x)"

subsection \<open>Address arithmetic\<close>

lemma addr_split: "unat (a :: u64) = unat (vpn_of a) * 4096 + unat (off_of a)"
  by (simp add: unat_vpn_of unat_off_of)

lemma unat_off_less: "unat (off_of a) < 4096"
  by (simp add: unat_off_of)

lemma same_page:
  assumes "unat (off_of a) + k < 4096"
  shows "vpn_of (a + of_nat k) = vpn_of a" and "unat (off_of (a + of_nat k)) = unat (off_of a) + k"
proof -
  have "unat (vpn_of a) < 4503599627370496"
    using vpn_of_less [of a] by simp
  then have "unat a + k < 18446744073709551616"
    using addr_split [of a] assms by linarith
  then have lt: "unat a + k < 2 ^ 64"
    by simp
  have k: "unat (of_nat k :: u64) = k"
    using assms by (simp add: unat_of_nat take_bit_nat_eq_self)
  have s: "unat (a + of_nat k) = unat a + k"
    using lt k by (subst unat_add_lem [THEN iffD1]) simp_all
  have d: "(unat a + k) div 4096 = unat a div 4096" and r: "(unat a + k) mod 4096 = unat a mod 4096 + k"
  proof -
    have r: "unat a mod 4096 + k < 4096"
      using assms by (simp only: unat_off_of)
    have e: "unat a + k = unat a mod 4096 + k + unat a div 4096 * 4096"
      by simp
    show "(unat a + k) div 4096 = unat a div 4096"
      unfolding e using r by (subst div_mult_self1) simp_all
    show "(unat a + k) mod 4096 = unat a mod 4096 + k"
      unfolding e using r by (subst mod_mult_self1) simp
  qed
  show "vpn_of (a + of_nat k) = vpn_of a"
    by (rule unsigned_word_eqI [where 'a = nat]) (simp only: unat_vpn_of s d)
  show "unat (off_of (a + of_nat k)) = unat (off_of a) + k"
    by (simp only: unat_off_of s r)
qed

lemma same_page_off:
  assumes "unat (off_of a) + k < 4096"
  shows "off_of (a + of_nat k) = off_of a + of_nat k"
proof (rule unsigned_word_eqI [where 'a = nat])
  have k: "unat (of_nat k :: u64) = k"
    using assms by (simp add: unat_of_nat take_bit_nat_eq_self)
  have "unat (off_of a + of_nat k) = unat (off_of a) + k"
    using assms k by (subst unat_add_lem [THEN iffD1]) simp_all
  then show "unat (off_of (a + of_nat k)) = unat (off_of a + of_nat k)"
    using same_page(2) [OF assms] by simp
qed

lemma fits_iff: "n \<le> 4096 \<Longrightarrow> fits a n \<longleftrightarrow> unat (off_of a) + n \<le> 4096"
proof -
  assume n: "n \<le> 4096"
  have k: "unat (of_nat n :: u64) = n"
    using n by (simp add: unat_of_nat take_bit_nat_eq_self)
  have "unat (4096 - of_nat n :: u64) = 4096 - n"
    using n k by (subst unat_sub) (simp_all add: word_le_nat_alt)
  then show ?thesis
    using n by (simp add: fits_def word_le_nat_alt) linarith
qed

lemma next_page_split: "next_page a = push_bit 12 (vpn_of a) + 4096"
proof -
  have "a OR 0xfff = push_bit 12 (vpn_of a) OR 0xfff"
    by (rule bit_word_eqI) (auto simp: bit_simps mask12)
  also have "\<dots> = push_bit 12 (vpn_of a) + 0xfff"
    by (rule disjunctive_add [symmetric]) (auto simp: bit_simps mask12)
  finally show ?thesis
    by (simp add: next_page_def)
qed

lemma addr_page_off: "a = push_bit 12 (vpn_of a) + off_of a"
proof -
  have "a = push_bit 12 (vpn_of a) OR off_of a"
    by (rule bit_word_eqI) (auto simp: bit_simps mask12)
  also have "\<dots> = push_bit 12 (vpn_of a) + off_of a"
    by (rule disjunctive_add [symmetric]) (auto simp: bit_simps mask12)
  finally show ?thesis .
qed

lemma off_next_page: "off_of (next_page a) = 0"
proof -
  have "push_bit 12 (vpn_of a) + 4096 = push_bit 12 (vpn_of a + 1)"
    by (simp add: push_bit_eq_mult algebra_simps)
  then show ?thesis
    by (simp only: next_page_split) (rule bit_word_eqI, auto simp: bit_simps mask12)
qed

lemma crossing_addr:
  assumes "4096 \<le> unat (off_of a) + k"
  shows "a + of_nat k = next_page a + of_nat (unat (off_of a) + k - 4096)"
proof -
  have "(of_nat (unat (off_of a) + k - 4096) :: u64) = off_of a + of_nat k - 4096"
    using assms by (simp add: of_nat_diff)
  then show ?thesis
    using addr_page_off [of a] by (simp add: next_page_split algebra_simps)
qed

lemma crossing_page:
  assumes "4096 \<le> unat (off_of a) + k" "k \<le> 4096"
  shows "vpn_of (a + of_nat k) = vpn_of (next_page a)"
proof -
  have "unat (off_of (next_page a)) + (unat (off_of a) + k - 4096) < 4096"
    using assms unat_off_less [of a] by (simp add: off_next_page)
  then show ?thesis
    using same_page(1) crossing_addr [OF assms(1)] by metis
qed


subsection \<open>Effect of the primitive updates\<close>

lemma mprot_cong: "lookup m' = lookup m \<Longrightarrow>
   (\<And>p. p_prot (m_pages m' p) = p_prot (m_pages m p)) \<Longrightarrow> mprot m' = mprot m"
  by (simp add: mprot_def fun_eq_iff)

lemma mbyte_Some: "lookup m (vpn_of a) = Some p \<Longrightarrow> mbyte m a = Some (m_arrs m (page_data m p) (off_of a))"
  by (simp add: mbyte_def)

lemma writable_mbyte:
  assumes m: "mem_inv D m" and l: "lookup m v = Some p"
  shows "mbyte (writable v p m) = mbyte m" and "mprot (writable v p m) = mprot m"
proof -
  have dok: "data_ok m"
    using m by (simp add: mem_inv_def core_inv_def)
  have a: "m_arrs (writable v p m) (page_data (writable v p m) q) x = m_arrs m (page_data m q) x"
    if "q < m_npage m" for q x
    using dok that
    by (cases "p_data (m_pages m q)")
      (auto simp: writable_def Let_def page_data_def data_ok_def split: option.splits)
  show "mbyte (writable v p m) = mbyte m"
    using a lookup_alloc [OF mem_inv_core [OF m]]
    by (auto simp: mbyte_def fun_eq_iff map_option_case split: option.splits)
  show "mprot (writable v p m) = mprot m"
    by (rule mprot_cong) simp_all
qed

lemma put_bytes_nth:
  "length bs \<le> 2 ^ 63 \<Longrightarrow>
   put_bytes off bs f x = (if unat (x - off) < length bs then bs ! unat (x - off) else f x)"
proof (induction bs arbitrary: off f)
  case Nil
  then show ?case by simp
next
  case (Cons b bs)
  show ?case
  proof (cases "x = off")
    case True
    have "unat (x - (off + 1)) = 2 ^ 64 - 1"
      using True by (simp add: unsigned_minus_1_eq_mask mask_eq_exp_minus_1)
    with True Cons show ?thesis by simp
  next
    case False
    then have "x - off \<noteq> 0" by simp
    then have "unat (x - off) = Suc (unat (x - off - 1))"
      by (simp add: unat_minus_one unat_gt_0)
    then have u: "unat (x - off) = Suc (unat (x - (off + 1)))"
      by (simp add: diff_diff_eq)
    with False Cons show ?thesis by simp
  qed
qed

lemma off_diff:
  assumes "vpn_of x = vpn_of a"
  shows "x - a = off_of x - off_of a"
  using addr_page_off [of x] addr_page_off [of a] assms by (metis add_diff_cancel_left)

text \<open>Addresses of \<open>[a, a + n)\<close> when the range stays inside one page.\<close>

lemma in_page_range:
  assumes f: "unat (off_of a) + n \<le> 4096"
  shows "unat (x - a) < n \<longleftrightarrow> vpn_of x = vpn_of a \<and> unat (off_of x - off_of a) < n"
proof
  assume lt: "unat (x - a) < n"
  have "unat (off_of a) + unat (x - a) < 4096"
    using lt f by simp
  then have "vpn_of (a + of_nat (unat (x - a))) = vpn_of a"
    by (rule same_page(1))
  then have v: "vpn_of x = vpn_of a"
    by simp
  with lt show "vpn_of x = vpn_of a \<and> unat (off_of x - off_of a) < n"
    using off_diff by metis
next
  assume "vpn_of x = vpn_of a \<and> unat (off_of x - off_of a) < n"
  then show "unat (x - a) < n"
    using off_diff by metis
qed

lemma arr_put_mbyte:
  assumes m: "mem_inv D m" and l: "lookup m (vpn_of a) = Some p" and d: "p_data (m_pages m p) = Some d"
    and f: "unat (off_of a) + length bs \<le> 4096"
  shows "mbyte (arr_put d (off_of a) bs m) = mem_put a bs (mbyte m)"
    and "mprot (arr_put d (off_of a) bs m) = mprot m"
proof -
  have dok: "data_ok m"
    using m by (simp add: mem_inv_def core_inv_def)
  have p: "p < m_npage m"
    using lookup_alloc [OF mem_inv_core [OF m] l] .
  have d0: "0 < d"
    using dok p d by (auto simp: data_ok_def)
  have inj: "lookup m w = Some q \<Longrightarrow> page_data m q = d \<Longrightarrow> w = vpn_of a \<and> q = p" for w q
  proof -
    assume lw: "lookup m w = Some q" and pd: "page_data m q = d"
    have "p_data (m_pages m q) = Some d"
      using pd d0 by (auto simp: page_data_def split: option.splits)
    then have "q = p"
      using dok p d lookup_alloc [OF mem_inv_core [OF m] lw] unfolding data_ok_def by blast
    then show ?thesis
      using lookup_inj [OF mem_inv_core [OF m]] lw l by auto
  qed
  have pd: "page_data m p = d"
    using d by (simp add: page_data_def)
  have len: "length bs \<le> 2 ^ 63"
    using f by simp
  show "mbyte (arr_put d (off_of a) bs m) = mem_put a bs (mbyte m)"
  proof
    fix x
    show "mbyte (arr_put d (off_of a) bs m) x = mem_put a bs (mbyte m) x"
    proof (cases "vpn_of x = vpn_of a")
      case True
      then show ?thesis
        using l pd off_diff [OF True]
        by (simp add: mbyte_def mem_put_def put_bytes_nth [OF len])
    next
      case False
      then have "\<not> unat (x - a) < length bs"
        using in_page_range [OF f] by simp
      with False show ?thesis
        using inj by (auto simp: mbyte_def mem_put_def map_option_case split: option.splits)
    qed
  qed
  show "mprot (arr_put d (off_of a) bs m) = mprot m"
    by (rule mprot_cong) simp_all
qed

text \<open>A store of bytes inside one page, through \<open>writable\<close>.\<close>

lemma write_page_mbyte:
  assumes m: "mem_inv D m" and l: "lookup m (vpn_of a) = Some p"
    and f: "unat (off_of a) + length bs \<le> 4096"
  defines "m' \<equiv> writable (vpn_of a) p m"
  shows "mbyte (arr_put (page_data m' p) (off_of a) bs m') = mem_put a bs (mbyte m)"
    and "mprot (arr_put (page_data m' p) (off_of a) bs m') = mprot m"
proof -
  have w: "mem_inv D m'"
    unfolding m'_def using l m by (rule writable_inv)
  have l': "lookup m' (vpn_of a) = Some p"
    using l by (simp add: m'_def)
  have d: "p_data (m_pages m' p) = Some (page_data m' p)"
    unfolding m'_def by (rule writable_data)
  show "mbyte (arr_put (page_data m' p) (off_of a) bs m') = mem_put a bs (mbyte m)"
    using arr_put_mbyte(1) [OF w l' d f] writable_mbyte(1) [OF m l] by (simp add: m'_def)
  show "mprot (arr_put (page_data m' p) (off_of a) bs m') = mprot m"
    using arr_put_mbyte(2) [OF w l' d f] writable_mbyte(2) [OF m l] by (simp add: m'_def)
qed

lemma tlb_mbyte [simp]:
  "mbyte (set_rtlb v d m) = mbyte m" "mbyte (set_wtlb v d m) = mbyte m"
  "mprot (set_rtlb v d m) = mprot m" "mprot (set_wtlb v d m) = mprot m"
  by (simp_all add: mbyte_def mprot_def page_data_def fun_eq_iff)

end
