(* ===== verification/Memory_Correct.thy ===== *)
theory Memory_Correct
  imports Memory_Spec
begin

text \<open>
  Functional correctness of the guest memory against \<open>mbyte\<close> and \<open>mprot\<close>: mapping, unmapping and
  protecting a range, loads and stores of every size with their page-crossing cases, the fast
  paths, and the host's copies.
\<close>

subsection \<open>Loads\<close>

lemma arr_bytes_mbytes:
  assumes l: "lookup m (vpn_of a) = Some p" and f: "unat (off_of a) + n \<le> 4096"
  shows "arr_bytes m (page_data m p) (off_of a) n = mbytes m a n"
proof -
  have "m_arrs m (page_data m p) (off_of a + of_nat k) = the (mbyte m (a + of_nat k))" if "k < n" for k
  proof -
    have k: "unat (off_of a) + k < 4096" using f that by simp
    show ?thesis
      using l by (simp add: mbyte_def same_page(1) [OF k] same_page_off [OF k])
  qed
  then show ?thesis
    by (auto simp: arr_bytes_def mbytes_def)
qed

lemma cross_byte_mbyte:
  assumes m: "mem_inv D m" and l: "lookup m (vpn_of a) = Some p"
  shows "cross_byte m a = the (mbyte m a)"
proof -
  have "\<forall>x. m_arrs m 0 x = 0"
    using m by (simp add: mem_inv_def core_inv_def data_ok_def)
  then show ?thesis
    using l by (simp add: cross_byte_def mbyte_def page_data_def split: option.splits)
qed

lemma allows_lookup:
  "allows need m a \<longleftrightarrow> (\<exists>p. lookup m (vpn_of a) = Some p \<and> p_prot (m_pages m p) AND need \<noteq> 0)"
  by (auto simp: allows_def mprot_def)

lemma acc_len_id: "n \<in> {1, 2, 4, 8} \<Longrightarrow> acc_len n = n"
  by (auto simp: acc_len_def)

text \<open>The permissions a crossing access needs at its two pages.\<close>

lemma crossing_allows:
  assumes nf: "\<not> fits a n" and n: "n \<in> {1, 2, 4, 8}"
    and al: "\<forall>k < n. allows need m (a + of_nat k)"
  shows "allows need m a" and "allows need m (next_page a)"
proof -
  show "allows need m a"
    using al n by (auto dest: spec [of _ 0])
  let ?k = "4096 - unat (off_of a)"
  have k: "?k < n"
    using nf n by (auto simp: fits_iff)
  then have "allows need m (a + of_nat ?k)"
    using al by blast
  moreover have "a + of_nat ?k = next_page a"
    using crossing_addr [of a ?k] unat_off_less [of a] by simp
  ultimately show "allows need m (next_page a)"
    by simp
qed

lemma read_slow_correct:
  assumes m: "mem_inv D m" and h: "m_rhooks m = []" and n: "n \<in> {1, 2, 4, 8}"
    and al: "\<forall>k < n. allows 1 m (a + of_nat k)"
  obtains m' where "read_slow E a n m = (Inr (le_val (mbytes m a n)), m')"
    and "mbyte m' = mbyte m" and "mprot m' = mprot m"
proof (cases "fits a n")
  case True
  then have f: "unat (off_of a) + n \<le> 4096"
    using n by (auto simp: fits_iff)
  have "allows 1 m a"
    using al n by (auto dest: spec [of _ 0])
  then obtain p where p: "lookup m (vpn_of a) = Some p" "p_prot (m_pages m p) AND 1 \<noteq> 0"
    by (auto simp: allows_lookup)
  let ?m' = "set_rtlb (vpn_of a) (page_data m p) m"
  have "read_slow E a n m = (Inr (le_val (mbytes m a n)), ?m')"
    using True p h by (simp add: read_slow_def bnd_def guest_page_ok loadN_def acc_len_id [OF n]
        arr_bytes_mbytes [OF p(1) f])
  then show ?thesis
    by (rule that) simp_all
next
  case False
  obtain p q where p: "lookup m (vpn_of a) = Some p" "p_prot (m_pages m p) AND 1 \<noteq> 0"
    and q: "lookup m (vpn_of (next_page a)) = Some q" "p_prot (m_pages m q) AND 1 \<noteq> 0"
    using crossing_allows [OF False n al] by (auto simp: allows_lookup)
  have b: "cross_byte m (a + of_nat k) = the (mbyte m (a + of_nat k))" if k: "k < n" for k
  proof -
    have "allows 1 m (a + of_nat k)" using al k by blast
    then show ?thesis
      using cross_byte_mbyte [OF m] by (auto simp: allows_lookup)
  qed
  have bs: "map (\<lambda>k. cross_byte m (a + of_nat k)) [0..<n] = mbytes m a n"
    unfolding mbytes_def by (rule map_cong) (auto intro: b)
  have "read_slow E a n m = (Inr (le_val (mbytes m a n)), m)"
    using False p q h by (simp add: read_slow_def bnd_def guest_page_ok gets_def upd_def bs)
  then show ?thesis
    by (rule that) simp_all
qed

lemma tlb_read_correct:
  assumes m: "mem_inv D m" and h: "m_rhooks m = []" and n: "n \<in> {1, 2, 4, 8}"
    and al: "\<forall>k < n. allows 1 m (a + of_nat k)"
  obtains m' where "tlb_read E n a m = (Inr (le_val (mbytes m a n)), m')"
    and "mbyte m' = mbyte m" and "mprot m' = mprot m"
proof (cases "t_vpn (m_rtlb m (vpn_of a AND 255)) = vpn_of a \<and> fits a n")
  case True
  then have f: "unat (off_of a) + n \<le> 4096"
    using n by (auto simp: fits_iff)
  have "t_vpn (m_rtlb m (vpn_of a AND 255)) \<noteq> noVPN"
    using True by simp
  then obtain p where p: "lookup m (vpn_of a) = Some p"
    "t_data (m_rtlb m (vpn_of a AND 255)) = page_data m p"
    using m True unfolding mem_inv_def rtlb_ok_def by metis
  have "tlb_read E n a m = (Inr (le_val (mbytes m a n)), m)"
    using True p by (simp add: tlb_read_def Let_def loadN_def acc_len_id [OF n]
        arr_bytes_mbytes [OF p(1) f])
  then show ?thesis
    by (rule that) simp_all
next
  case False
  obtain m' where "read_slow E a n m = (Inr (le_val (mbytes m a n)), m')"
    and "mbyte m' = mbyte m" and "mprot m' = mprot m"
    using m h n al by (rule read_slow_correct)
  with False show ?thesis
    by (intro that [of m']) (auto simp: tlb_read_def Let_def)
qed

lemma readN_tlb: "n \<in> {1, 2, 4, 8} \<Longrightarrow> readN E a n = tlb_read E n a"
  by (auto simp: readN_def read8_def read16_def read32_def read64_def)

subsection \<open>Stores\<close>

lemma ucast_le_bytes:
  "le_bytes 1 (ucast (ucast v :: u8)) = le_bytes 1 v"
  "le_bytes 2 (ucast (ucast v :: u16)) = le_bytes 2 v"
  "le_bytes 4 (ucast (ucast v :: u32)) = le_bytes 4 v"
  by (rule nth_equalityI, simp, rule bit_word_eqI, auto simp: nth_le_bytes bit_simps)+

lemma mem_put_Nil [simp]: "mem_put a [] f = f"
  by (simp add: mem_put_def fun_eq_iff)

lemma mem_put_snoc:
  assumes "length bs < 2 ^ 63"
  shows "mem_put (a + of_nat (length bs)) [b] (mem_put a bs f) = mem_put a (bs @ [b]) f"
proof
  fix x
  let ?n = "of_nat (length bs) :: u64"
  have n: "unat ?n = length bs"
    using assms by (simp add: unat_of_nat take_bit_nat_eq_self)
  have e: "unat (x - (a + ?n)) = 0 \<longleftrightarrow> unat (x - a) = length bs"
  proof
    assume "unat (x - (a + ?n)) = 0"
    then have "x = a + ?n" by (simp add: unat_0_iff)
    then show "unat (x - a) = length bs" by (simp add: n)
  next
    assume "unat (x - a) = length bs"
    then have "x - a = ?n"
      using n by (metis unsigned_word_eqI)
    then show "unat (x - (a + ?n)) = 0"
      by (simp add: diff_diff_eq [symmetric])
  qed
  show "mem_put (a + ?n) [b] (mem_put a bs f) x = mem_put a (bs @ [b]) f x"
    using e by (auto simp: mem_put_def nth_append less_Suc_eq)
qed

lemma cross_put_correct:
  assumes m: "mem_inv D m" and l: "lookup m (vpn_of a) = Some p"
  shows "mem_inv D (cross_put a b m)" and "mbyte (cross_put a b m) = mem_put a [b] (mbyte m)"
    and "mprot (cross_put a b m) = mprot m" and "lookup (cross_put a b m) = lookup m"
proof -
  show "mem_inv D (cross_put a b m)"
    using m by (rule cross_put_inv)
qed (use write_page_mbyte [OF m l, of "[b]"] unat_off_less [of a] in
    \<open>simp_all add: cross_put_def l Let_def\<close>)

abbreviation cross_fold :: "u64 \<Rightarrow> u64 \<Rightarrow> nat \<Rightarrow> 'a memory_scheme \<Rightarrow> 'a memory_scheme" where
  "cross_fold a v n \<equiv> fold (\<lambda>k. cross_put (a + of_nat k) (ucast (drop_bit (8 * k) v))) [0..<n]"

lemma fold_cross_correct:
  assumes m: "mem_inv D m" and "\<forall>k < n. lookup m (vpn_of (a + of_nat k)) \<noteq> None" and "n < 2 ^ 63"
  shows "mem_inv D (cross_fold a v n m) \<and> mbyte (cross_fold a v n m) = mem_put a (le_bytes n v) (mbyte m) \<and>
    mprot (cross_fold a v n m) = mprot m \<and> lookup (cross_fold a v n m) = lookup m"
  using assms(2,3)
proof (induction n)
  case 0
  then show ?case using m by simp
next
  case (Suc n)
  let ?m = "cross_fold a v n m"
  have IH: "mem_inv D ?m" "mbyte ?m = mem_put a (le_bytes n v) (mbyte m)" "mprot ?m = mprot m"
    "lookup ?m = lookup m"
    using Suc by auto
  obtain p where "lookup ?m (vpn_of (a + of_nat n)) = Some p"
    using IH(4) Suc.prems by auto
  note c = cross_put_correct [OF IH(1) this, of "ucast (drop_bit (8 * n) v)"]
  have snoc: "le_bytes n v @ [ucast (drop_bit (8 * n) v)] = le_bytes (Suc n) v"
    by (rule nth_equalityI) (auto simp: nth_append nth_le_bytes less_Suc_eq simp del: le_bytes.simps)
  show ?case
    using c IH mem_put_snoc [of "le_bytes n v" a] Suc.prems(2) snoc
    by (simp del: le_bytes.simps)
qed

lemma write_slow_correct:
  assumes m: "mem_inv D m" and h: "m_whooks m = []" and n: "n \<in> {1, 2, 4, 8}"
    and al: "\<forall>k < n. allows 2 m (a + of_nat k)"
  obtains m' where "write_slow E a n v m = (Inr (), m')"
    and "mbyte m' = mem_put a (le_bytes n v) (mbyte m)" and "mprot m' = mprot m"
proof (cases "fits a n")
  case True
  then have f: "unat (off_of a) + n \<le> 4096"
    using n by (auto simp: fits_iff)
  have "allows 2 m a"
    using al n by (auto dest: spec [of _ 0])
  then obtain p where p: "lookup m (vpn_of a) = Some p" "p_prot (m_pages m p) AND 2 \<noteq> 0"
    by (auto simp: allows_lookup)
  let ?w = "writable (vpn_of a) p m"
  let ?m' = "set_wtlb (vpn_of a) (page_data ?w p)
       (arr_put (page_data ?w p) (off_of a) (le_bytes n v) ?w)"
  have e: "write_slow E a n v m = (Inr (), ?m')"
    using True p h by (simp add: write_slow_def bnd_def guest_page_ok upd_def Let_def
        storeN_arr_put acc_len_id [OF n] set_wtlb_arr_put)
  show ?thesis
    using write_page_mbyte [OF m p(1), of "le_bytes n v"] f by (intro that [OF e]) simp_all
next
  case False
  obtain p q where p: "lookup m (vpn_of a) = Some p" "p_prot (m_pages m p) AND 2 \<noteq> 0"
    and q: "lookup m (vpn_of (next_page a)) = Some q" "p_prot (m_pages m q) AND 2 \<noteq> 0"
    using crossing_allows [OF False n al] by (auto simp: allows_lookup)
  have mapped: "\<forall>k < n. lookup m (vpn_of (a + of_nat k)) \<noteq> None"
    using al by (auto simp: allows_lookup)
  have small: "n < 2 ^ 63"
    using n by auto
  note c = fold_cross_correct [OF m mapped small, of v]
  have e: "write_slow E a n v m =
      (Inr (), cross_fold a v n m)"
    using False p q h by (simp add: write_slow_def bnd_def guest_page_ok upd_def)
  show ?thesis
    using c by (intro that [OF e]) simp_all
qed

lemma tlb_write_correct:
  assumes m: "mem_inv D m" and h: "m_whooks m = []" and n: "n \<in> {1, 2, 4, 8}"
    and al: "\<forall>k < n. allows 2 m (a + of_nat k)"
  obtains m' where "tlb_write E n a v m = (Inr (), m')"
    and "mbyte m' = mem_put a (le_bytes n v) (mbyte m)" and "mprot m' = mprot m"
proof (cases "t_vpn (m_wtlb m (vpn_of a AND 255)) = vpn_of a \<and> fits a n")
  case True
  let ?d = "t_data (m_wtlb m (vpn_of a AND 255))"
  have f: "unat (off_of a) + length (le_bytes n v) \<le> 4096"
    using n True by (auto simp: fits_iff)
  have "t_vpn (m_wtlb m (vpn_of a AND 255)) \<noteq> noVPN"
    using True by simp
  then obtain p where p: "lookup m (vpn_of a) = Some p" "p_data (m_pages m p) = Some ?d"
    using m True unfolding mem_inv_def wtlb_ok_def by metis
  have e: "tlb_write E n a v m = (Inr (), arr_put ?d (off_of a) (le_bytes n v) m)"
    using True by (simp add: tlb_write_def Let_def storeN_arr_put acc_len_id [OF n])
  show ?thesis
    using arr_put_mbyte [OF m p f] by (intro that [OF e]) simp_all
next
  case False
  obtain m' where "write_slow E a n v m = (Inr (), m')"
    and "mbyte m' = mem_put a (le_bytes n v) (mbyte m)" and "mprot m' = mprot m"
    using m h n al by (rule write_slow_correct)
  with False show ?thesis
    by (intro that [of m']) (auto simp: tlb_write_def Let_def)
qed

lemma writeN_correct:
  assumes m: "mem_inv D m" and h: "m_whooks m = []" and n: "n \<in> {1, 2, 4, 8}"
    and al: "\<forall>k < n. allows 2 m (a + of_nat k)"
  obtains m' where "writeN E a n v m = (Inr (), m')"
    and "mbyte m' = mem_put a (le_bytes n v) (mbyte m)" and "mprot m' = mprot m"
proof -
  define w where "w = (if n = 1 then ucast (ucast v :: u8) else if n = 2 then ucast (ucast v :: u16)
      else if n = 4 then ucast (ucast v :: u32) else v)"
  have "writeN E a n v = tlb_write E n a w"
    using n by (auto simp: writeN_def w_def write8_def write16_def write32_def write64_def)
  moreover have "le_bytes n w = le_bytes n v"
    using n ucast_le_bytes [of v] by (auto simp: w_def simp del: le_bytes.simps)
  ultimately show ?thesis
    using tlb_write_correct [OF m h n al, of E w] that by metis
qed

subsection \<open>Mapping, unmapping, protecting\<close>

lemma range_vpns_member:
  assumes "range_vpns a n = Inr (lo, hi)"
  shows "vpn_of x \<in> set (vpn_list lo hi) \<longleftrightarrow> x - a < n"
proof -
  note b = range_vpns_bound [OF assms]
  have lo: "lo \<le> vpn_of x \<longleftrightarrow> a \<le> x"
  proof -
    have "unat lo * 4096 \<le> unat x \<longleftrightarrow> unat lo \<le> unat x div 4096"
      by (simp add: less_eq_div_iff_mult_less_eq)
    then show ?thesis
      using b(3) by (simp only: word_le_nat_alt unat_vpn_of)
  qed
  have hi: "vpn_of x < hi \<longleftrightarrow> unat x < unat a + unat n"
    using b(4) by (simp only: word_less_nat_alt unat_vpn_of div_less_iff_less_mult)
  have "x - a < n \<longleftrightarrow> a \<le> x \<and> unat x < unat a + unat n"
  proof (cases "a \<le> x")
    case True
    then have "unat (x - a) = unat x - unat a" "unat a \<le> unat x"
      by (simp_all add: unat_sub word_le_nat_alt)
    with True show ?thesis
      by (simp add: word_less_nat_alt) linarith
  next
    case False
    then have "unat x < unat a" by (simp add: word_le_nat_alt)
    then have "unat (x - a) = 2 ^ 64 + unat x - unat a"
      using unsigned_less [where w = a and 'a = nat]
      by (simp add: unat_sub_if_size word_size word_le_nat_alt)
    moreover have "unat a + unat n \<le> 2 ^ 48"
      using b(2,4) by simp
    ultimately show ?thesis
      using False by (simp add: word_less_nat_alt)
  qed
  then show ?thesis
    using lo hi by (simp add: set_vpn_list)
qed

lemma map_page_effect:
  assumes v: "vpn_ok v" and free: "lookup m v = None" and m: "mem_inv D m"
  shows "mbyte (map_page prot v m) x = (if vpn_of x = v then Some 0 else mbyte m x)"
    and "mprot (map_page prot v m) x = (if vpn_of x = v then Some (ucast prot) else mprot m x)"
proof -
  have z: "m_arrs m 0 y = 0" for y
    using m by (simp add: mem_inv_def core_inv_def data_ok_def)
  have old: "lookup m w = Some q \<Longrightarrow> q \<noteq> m_npage m" for w q
    using lookup_alloc [OF mem_inv_core [OF m]] by blast
  show "mbyte (map_page prot v m) x = (if vpn_of x = v then Some 0 else mbyte m x)"
    using v free z old by (auto simp: mbyte_def map_page_def lookup_set_page page_data_def map_option_case
        split: option.splits)
  show "mprot (map_page prot v m) x = (if vpn_of x = v then Some (ucast prot) else mprot m x)"
    using v free old by (auto simp: mprot_def map_page_def lookup_set_page map_option_case
        split: option.splits)
qed

lemma fold_map_page_effect:
  assumes "mem_inv D m" "\<forall>v \<in> set vs. vpn_ok v \<and> lookup m v = None" "distinct vs"
  shows "mbyte (fold (map_page prot) vs m) x = (if vpn_of x \<in> set vs then Some 0 else mbyte m x) \<and>
    mprot (fold (map_page prot) vs m) x = (if vpn_of x \<in> set vs then Some (ucast prot) else mprot m x)"
  using assms
proof (induction vs arbitrary: m)
  case Nil
  then show ?case by simp
next
  case (Cons v vs)
  have v: "vpn_ok v" "lookup m v = None"
    using Cons.prems by auto
  have "\<forall>w \<in> set vs. vpn_ok w \<and> lookup (map_page prot v m) w = None"
    using Cons.prems by (auto simp: map_page_def lookup_set_page)
  then show ?case
    using Cons.IH [OF map_page_core [OF v Cons.prems(1)]] Cons.prems(3)
      map_page_effect [OF v Cons.prems(1)] by auto
qed

lemma mem_map_effect:
  assumes m: "mem_inv D m" and ok: "mem_map a n prot m = (Inr (), m')"
  shows "mbyte m' x = (if x - a < n then Some 0 else mbyte m x)"
    and "mprot m' x = (if x - a < n then Some (ucast prot) else mprot m x)"
    and "x - a < n \<Longrightarrow> mbyte m x = None"
proof -
  obtain lo hi where r: "range_vpns a n = Inr (lo, hi)"
    and free: "find (\<lambda>v. lookup m v \<noteq> None) (vpn_list lo hi) = None"
    and m': "m' = fold (map_page prot) (vpn_list lo hi) m"
    using ok by (auto simp: mem_map_def split: sum.splits option.splits if_splits prod.splits)
  have vs: "\<forall>v \<in> set (vpn_list lo hi). vpn_ok v \<and> lookup m v = None"
    using free range_vpn_ok [OF r] by (auto simp: find_None_iff)
  note f = fold_map_page_effect [OF m vs distinct_vpn_list, of prot x]
  show "mbyte m' x = (if x - a < n then Some 0 else mbyte m x)"
    and "mprot m' x = (if x - a < n then Some (ucast prot) else mprot m x)"
    using f by (simp_all add: m' range_vpns_member [OF r])
  show "x - a < n \<Longrightarrow> mbyte m x = None"
    using vs by (simp add: range_vpns_member [OF r, symmetric] mbyte_def)
qed

text \<open>Exactly when a call to \<open>Map\<close>, \<open>Unmap\<close> or \<open>Protect\<close> succeeds.\<close>

definition good_range :: "u64 \<Rightarrow> u64 \<Rightarrow> bool" where
  "good_range a n \<longleftrightarrow> n \<noteq> 0 \<and> 4096 dvd unat a \<and> 4096 dvd unat n \<and> unat a + unat n \<le> 2 ^ 48"

lemma range_vpns_good: "(\<exists>r. range_vpns a n = Inr r) \<longleftrightarrow> good_range a n"
proof
  assume "\<exists>r. range_vpns a n = Inr r"
  then obtain lo hi where r: "range_vpns a n = Inr (lo, hi)" by auto
  note b = range_vpns_bound [OF r]
  have "n \<noteq> 0"
    using b(1,3,4) by auto
  moreover have a: "4096 dvd unat a"
    using b(3) by (metis dvd_triv_right)
  moreover have "4096 dvd unat n"
  proof -
    have "4096 dvd unat a + unat n"
      using b(4) by (metis dvd_triv_right)
    then show ?thesis
      using a by (simp add: dvd_add_right_iff)
  qed
  moreover have "unat a + unat n \<le> 2 ^ 48"
    using b(2,4) by simp
  ultimately show "good_range a n"
    by (simp add: good_range_def)
next
  assume g: "good_range a n"
  have o: "off_of a = 0" "off_of n = 0"
    using g unat_off_of [of a] unat_off_of [of n]
    by (simp_all add: good_range_def unat_0_iff [symmetric] del: unat_0_iff)
  have pos: "0 < unat n"
    using g by (simp add: good_range_def unat_gt_0)
  have s: "unat (a + n) = unat a + unat n"
    using g by (subst unat_add_lem [THEN iffD1]) (simp_all add: good_range_def)
  have "unat (a + n - 1) = unat a + unat n - 1"
    using s pos by (subst unat_sub) (auto simp: word_le_nat_alt)
  then have "unat (a + n - 1) < 2 ^ 48"
    using g pos by (auto simp: good_range_def)
  then have "unat (drop_bit 48 (a + n - 1)) = 0"
    by (simp only: unat_drop_bit_eq) (simp add: drop_bit_eq_div)
  then have d: "drop_bit 48 (a + n - 1) = 0"
    by (simp only: unat_0_iff)
  have "\<not> a + n < a"
    by (simp add: word_less_nat_alt s)
  then show "\<exists>r. range_vpns a n = Inr r"
    using o d g by (simp add: range_vpns_def good_range_def Let_def)
qed

lemma vpn_of_push:
  assumes "vpn_ok v"
  shows "vpn_of (push_bit 12 v) = v"
proof (rule bit_word_eqI)
  fix i :: nat
  assume "i < LENGTH(64)"
  have "\<not> bit (drop_bit 36 v) (i - 36)"
    using assms by simp
  then have "52 \<le> i \<Longrightarrow> \<not> bit v i"
    by (simp add: bit_simps)
  then show "bit (vpn_of (push_bit 12 v)) i = bit v i"
    using \<open>i < LENGTH(64)\<close> by (cases "52 \<le> i") (simp_all add: bit_simps)
qed

lemma range_all_pages:
  assumes "range_vpns a n = Inr (lo, hi)"
  shows "(\<forall>v \<in> set (vpn_list lo hi). P (lookup m v)) \<longleftrightarrow> (\<forall>x. x - a < n \<longrightarrow> P (lookup m (vpn_of x)))"
proof
  assume all: "\<forall>x. x - a < n \<longrightarrow> P (lookup m (vpn_of x))"
  show "\<forall>v \<in> set (vpn_list lo hi). P (lookup m v)"
  proof
    fix v
    assume v: "v \<in> set (vpn_list lo hi)"
    have e: "vpn_of (push_bit 12 v) = v"
      using range_vpn_ok [OF assms v] by (rule vpn_of_push)
    then have "push_bit 12 v - a < n"
      using v range_vpns_member [OF assms, of "push_bit 12 v"] by simp
    then have "P (lookup m (vpn_of (push_bit 12 v)))"
      using all by blast
    then show "P (lookup m v)"
      by (simp only: e)
  qed
qed (auto simp: range_vpns_member [OF assms, symmetric])

lemma mbyte_None_iff: "mbyte m x = None \<longleftrightarrow> lookup m (vpn_of x) = None"
  by (simp add: mbyte_def)

lemma mem_map_succeeds:
  "(\<exists>m'. mem_map a n prot m = (Inr (), m')) \<longleftrightarrow>
     good_range a n \<and> prot AND NOT 7 = 0 \<and> (\<forall>x. x - a < n \<longrightarrow> mbyte m x = None)"
proof (cases "range_vpns a n")
  case (Inl e)
  then have "\<not> good_range a n"
    using range_vpns_good [of a n] by auto
  with Inl show ?thesis by (simp add: mem_map_def)
next
  case (Inr r)
  obtain lo hi where r: "range_vpns a n = Inr (lo, hi)"
    using Inr by (cases r) auto
  have g: "good_range a n"
    using r range_vpns_good by blast
  have "find (\<lambda>v. lookup m v \<noteq> None) (vpn_list lo hi) = None \<longleftrightarrow> (\<forall>x. x - a < n \<longrightarrow> mbyte m x = None)"
    using range_all_pages [OF r, of "\<lambda>q. q = None" m] by (simp add: find_None_iff mbyte_None_iff Ball_def)
  then show ?thesis
    using r g by (auto simp: mem_map_def split: option.splits)
qed

lemma check_mapped_good:
  "(\<exists>r. check_mapped a n m = Inr r) \<longleftrightarrow> good_range a n \<and> (\<forall>x. x - a < n \<longrightarrow> mbyte m x \<noteq> None)"
proof (cases "range_vpns a n")
  case (Inl e)
  then have "\<not> good_range a n"
    using range_vpns_good [of a n] by auto
  with Inl show ?thesis by (simp add: check_mapped_def)
next
  case (Inr r)
  obtain lo hi where r: "range_vpns a n = Inr (lo, hi)"
    using Inr by (cases r) auto
  have g: "good_range a n"
    using r range_vpns_good by blast
  have "find (\<lambda>v. lookup m v = None) (vpn_list lo hi) = None \<longleftrightarrow> (\<forall>x. x - a < n \<longrightarrow> mbyte m x \<noteq> None)"
    using range_all_pages [OF r, of "\<lambda>q. q \<noteq> None" m] by (simp add: find_None_iff mbyte_None_iff Ball_def)
  then show ?thesis
    using r g by (auto simp: check_mapped_def split: option.splits)
qed

lemma mem_unmap_effect:
  assumes ok: "mem_unmap a n m = (Inr (), m')"
  shows "mbyte m' x = (if x - a < n then None else mbyte m x)"
    and "mprot m' x = (if x - a < n then None else mprot m x)"
proof -
  obtain lo hi where c: "check_mapped a n m = Inr (lo, hi)"
    and m': "m' = flush_tlb (fold (\<lambda>v. set_page v None) (vpn_list lo hi) m)"
    using ok by (auto simp: mem_unmap_def split: sum.splits prod.splits)
  have r: "range_vpns a n = Inr (lo, hi)"
    using c by (auto simp: check_mapped_def split: sum.splits option.splits prod.splits)
  have vs: "\<forall>v \<in> set (vpn_list lo hi). vpn_ok v"
    using range_vpn_ok [OF r] by blast
  have l: "lookup m' (vpn_of x) = (if x - a < n then None else lookup m (vpn_of x))"
    using pt.look_fold_clear [OF vs, of m "vpn_of x"] by (simp add: m' range_vpns_member [OF r])
  have f: "m_arrs (fold (\<lambda>v. set_page v None) vs m) = m_arrs m"
    "m_pages (fold (\<lambda>v. set_page v None) vs m) = m_pages m" for vs
    by (induction vs arbitrary: m) simp_all
  show "mbyte m' x = (if x - a < n then None else mbyte m x)"
    using l by (simp add: mbyte_def page_data_def m' f)
  show "mprot m' x = (if x - a < n then None else mprot m x)"
    using l by (simp add: mprot_def m' f)
qed

lemma set_prot_lookup [simp]: "lookup (set_prot prot v m) = lookup m"
  by (simp add: set_prot_def split: option.splits)

lemma fold_set_prot_effect:
  assumes "core_inv D m"
  shows "mbyte (fold (set_prot prot) vs m) = mbyte m \<and> lookup (fold (set_prot prot) vs m) = lookup m \<and>
    mprot (fold (set_prot prot) vs m) x =
      (if vpn_of x \<in> set vs \<and> mprot m x \<noteq> None then Some (ucast prot) else mprot m x)"
  using assms
proof (induction vs arbitrary: m)
  case Nil
  then show ?case by simp
next
  case (Cons v vs)
  have b: "mbyte (set_prot prot v m) = mbyte m"
    by (auto simp: mbyte_def set_prot_def page_data_def fun_eq_iff map_option_case split: option.splits)
  have p: "mprot (set_prot prot v m) x =
      (if vpn_of x = v \<and> mprot m x \<noteq> None then Some (ucast prot) else mprot m x)"
    using lookup_inj [OF Cons.prems]
    by (fastforce simp: mprot_def set_prot_def map_option_case split: option.splits)
  show ?case
    using Cons.IH [OF set_prot_core [OF Cons.prems]] b p by auto
qed

lemma mem_protect_effect:
  assumes m: "mem_inv D m" and ok: "mem_protect a n prot m = (Inr (), m')"
  shows "mbyte m' = mbyte m" and "mprot m' x = (if x - a < n then Some (ucast prot) else mprot m x)"
proof -
  obtain lo hi where c: "check_mapped a n m = Inr (lo, hi)"
    and m': "m' = flush_tlb (fold (set_prot prot) (vpn_list lo hi) m)"
    using ok by (auto simp: mem_protect_def split: sum.splits prod.splits if_splits)
  have r: "range_vpns a n = Inr (lo, hi)"
    using c by (auto simp: check_mapped_def split: sum.splits option.splits prod.splits)
  have e: "mbyte (flush_tlb k) = mbyte k" "mprot (flush_tlb k) = mprot k" for k :: "'a memory_scheme"
    by (simp_all add: mbyte_def mprot_def page_data_def fun_eq_iff)
  note f = fold_set_prot_effect [OF mem_inv_core [OF m], of prot "vpn_list lo hi" x]
  have "x - a < n \<Longrightarrow> mprot m x \<noteq> None"
    using c check_mapped_good [of a n m] by (auto simp: mprot_def mbyte_def)
  then show "mprot m' x = (if x - a < n then Some (ucast prot) else mprot m x)"
    using f by (simp add: m' e range_vpns_member [OF r])
  show "mbyte m' = mbyte m"
    using f by (simp add: m' e)
qed

subsection \<open>The host's copies\<close>

lemma unat_add_of_nat: "unat (a :: u64) + k < 2 ^ 64 \<Longrightarrow> unat (a + of_nat k) = unat a + k"
proof -
  assume s: "unat a + k < 2 ^ 64"
  then have "unat (of_nat k :: u64) = k"
    by (simp add: unat_of_nat take_bit_nat_eq_self)
  with s show ?thesis
    by (subst unat_add_lem [THEN iffD1]) simp_all
qed

lemma host_check_None:
  assumes n: "0 < n" and ok: "unat addr + n < 2 ^ 64"
  shows "host_check addr n m = None \<longleftrightarrow> (\<forall>k < n. mbyte m (addr + of_nat k) \<noteq> None)"
proof -
  have e: "unat (addr + of_nat n) = unat addr + n"
    using ok by (rule unat_add_of_nat)
  have nw: "\<not> addr + of_nat n < addr"
    by (simp add: word_less_nat_alt e)
  have last: "addr + of_nat n - 1 = addr + of_nat (n - 1)"
    using n by (simp add: of_nat_diff)
  have l: "unat (vpn_of (addr + of_nat n - 1)) = (unat addr + (n - 1)) div 4096"
    using ok by (simp add: unat_vpn_of last unat_add_of_nat)
  have top: "unat (vpn_of (addr + of_nat n - 1) + 1) = (unat addr + (n - 1)) div 4096 + 1"
    using vpn_of_less [of "addr + of_nat n - 1"] l by (subst unat_add_lem [THEN iffD1]) simp_all
  have mem: "v \<in> set (vpn_list (vpn_of addr) (vpn_of (addr + of_nat n - 1) + 1)) \<longleftrightarrow>
      unat addr div 4096 \<le> unat v \<and> unat v \<le> (unat addr + (n - 1)) div 4096" for v
    by (auto simp only: set_vpn_list mem_Collect_eq word_le_nat_alt word_less_nat_alt top unat_vpn_of)
  have "(\<forall>v \<in> set (vpn_list (vpn_of addr) (vpn_of (addr + of_nat n - 1) + 1)). lookup m v \<noteq> None) \<longleftrightarrow>
      (\<forall>k < n. lookup m (vpn_of (addr + of_nat k)) \<noteq> None)" (is "?L \<longleftrightarrow> ?R")
  proof
    assume L: ?L
    show ?R
    proof (intro allI impI)
      fix k
      assume k: "k < n"
      have "unat (vpn_of (addr + of_nat k)) = (unat addr + k) div 4096"
        using k ok by (simp add: unat_vpn_of unat_add_of_nat)
      then have "vpn_of (addr + of_nat k) \<in> set (vpn_list (vpn_of addr) (vpn_of (addr + of_nat n - 1) + 1))"
        using k by (auto simp: mem intro: div_le_mono)
      with L show "lookup m (vpn_of (addr + of_nat k)) \<noteq> None" by blast
    qed
  next
    assume R: ?R
    show ?L
    proof
      fix v
      assume "v \<in> set (vpn_list (vpn_of addr) (vpn_of (addr + of_nat n - 1) + 1))"
      then have v: "unat addr div 4096 \<le> unat v" "unat v \<le> (unat addr + (n - 1)) div 4096"
        by (simp_all only: mem)
      let ?k = "unat v * 4096 - unat addr"
      have lt: "?k < n"
        using v(2) n by (simp add: less_eq_div_iff_mult_less_eq)
      have "(unat addr + ?k) div 4096 = unat v"
      proof (cases "unat v * 4096 \<le> unat addr")
        case True
        then have "unat v \<le> unat addr div 4096"
          by (simp add: less_eq_div_iff_mult_less_eq)
        with True v(1) show ?thesis by simp
      next
        case False
        then show ?thesis by simp
      qed
      then have "vpn_of (addr + of_nat ?k) = v"
        using lt ok
        by (intro unsigned_word_eqI [where 'a = nat]) (simp add: unat_vpn_of unat_add_of_nat)
      with R lt show "lookup m v \<noteq> None" by metis
    qed
  qed
  then show ?thesis
    using n nw by (auto simp: host_check_def find_None_iff mbyte_None_iff)
qed

lemma shift_all:
  fixes a :: u64
  assumes "\<forall>k < len. P (a + of_nat k)" and "n \<le> len"
  shows "\<forall>k < len - n. P (a + of_nat n + of_nat k)"
proof (intro allI impI)
  fix k
  assume "k < len - n"
  then have "n + k < len"
    using assms(2) by simp
  then have "P (a + of_nat (n + k))"
    using assms(1) by blast
  then show "P (a + of_nat n + of_nat k)"
    by (simp add: add.assoc)
qed

lemma mbytes_append: "mbytes m a (n + k) = mbytes m a n @ mbytes m (a + of_nat n) k"
  by (rule nth_equalityI) (auto simp: mbytes_def nth_append add.assoc)

lemma host_read_loop_correct:
  assumes "mem_inv D m" and "\<forall>k < n. mbyte m (a + of_nat k) \<noteq> None"
  shows "host_read_loop m a n = mbytes m a n"
  using assms
proof (induction m a n rule: host_read_loop.induct)
  case (1 m a len)
  show ?case
  proof (cases "len = 0")
    case True
    then show ?thesis by (simp add: host_read_loop.simps mbytes_def)
  next
    case False
    let ?n = "min (4096 - unat (off_of a)) len"
    have f: "unat (off_of a) + ?n \<le> 4096" "0 < ?n" "?n + (len - ?n) = len"
      using unat_off_less [of a] False by auto
    have "mbyte m (a + of_nat 0) \<noteq> None"
      using 1(3) False by blast
    then obtain p where p: "lookup m (vpn_of a) = Some p"
      by (auto simp: mbyte_None_iff)
    have z: "m_arrs m 0 x = 0" for x
      using 1(2) by (simp add: mem_inv_def core_inv_def data_ok_def)
    have d: "(case p_data (m_pages m p) of Some d \<Rightarrow> arr_bytes m d (off_of a) ?n | None \<Rightarrow> replicate ?n 0)
        = mbytes m a ?n"
      using arr_bytes_mbytes [OF p f(1)] z
      by (auto simp: page_data_def arr_bytes_def map_replicate_const split: option.splits)
    have "\<forall>k < len - ?n. mbyte m (a + of_nat ?n + of_nat k) \<noteq> None"
      using 1(3) by (intro shift_all) simp_all
    then have "host_read_loop m (a + of_nat ?n) (len - ?n) = mbytes m (a + of_nat ?n) (len - ?n)"
      using 1(1) [OF False refl refl 1(2)] by blast
    then show ?thesis
      using False p d mbytes_append [of m a ?n "len - ?n"] f(3)
      by (subst host_read_loop.simps) (simp add: Let_def)
  qed
qed

lemma host_read_correct:
  assumes "mem_inv D m" and "unat a + n < 2 ^ 64" and "\<forall>k < n. mbyte m (a + of_nat k) \<noteq> None"
  shows "host_read a n m = (Inr (mbytes m a n), m)"
  using host_read_loop_correct [OF assms(1,3)] host_check_None [of n a m] assms
  by (cases "n = 0") (simp_all add: host_read_def host_check_def)

lemma mem_put_append:
  "length bs + length cs < 2 ^ 63 \<Longrightarrow>
   mem_put (a + of_nat (length bs)) cs (mem_put a bs f) = mem_put a (bs @ cs) f"
proof (induction cs rule: rev_induct)
  case Nil
  then show ?case by simp
next
  case (snoc c cs)
  let ?b = "a + of_nat (length bs)"
  have "mem_put ?b (cs @ [c]) (mem_put a bs f) = mem_put (?b + of_nat (length cs)) [c] (mem_put ?b cs (mem_put a bs f))"
    using snoc.prems by (subst mem_put_snoc) simp_all
  also have "\<dots> = mem_put (a + of_nat (length (bs @ cs))) [c] (mem_put a (bs @ cs) f)"
    using snoc by (simp add: add.assoc)
  also have "\<dots> = mem_put a (bs @ cs @ [c]) f"
    using snoc.prems mem_put_snoc [of "bs @ cs" a c f] by simp
  finally show ?case .
qed

lemma host_write_loop_correct:
  assumes "mem_inv D m" and "\<forall>k < length src. mbyte m (a + of_nat k) \<noteq> None" and "length src < 2 ^ 63"
  shows "mbyte (host_write_loop a src m) = mem_put a src (mbyte m) \<and> mprot (host_write_loop a src m) = mprot m"
  using assms
proof (induction a src m rule: host_write_loop.induct)
  case (1 a src m)
  show ?case
  proof (cases "src = []")
    case True
    then show ?thesis by (simp add: host_write_loop.simps)
  next
    case False
    let ?n = "min (4096 - unat (off_of a)) (length src)"
    have f: "unat (off_of a) + length (take ?n src) \<le> 4096" "length (take ?n src) = ?n"
      using unat_off_less [of a] False by auto
    have "mbyte m (a + of_nat 0) \<noteq> None"
      using 1(3) False by blast
    then obtain p where p: "lookup m (vpn_of a) = Some p"
      by (auto simp: mbyte_None_iff)
    let ?w = "writable (vpn_of a) p m"
    let ?m = "arr_put (page_data ?w p) (off_of a) (take ?n src) ?w"
    note w = write_page_mbyte [OF 1(2) p f(1)]
    have inv: "mem_inv D ?m"
      using p 1(2) by (rule write_page_inv)
    have l: "lookup ?m = lookup m"
      using p by simp
    have "\<forall>k < length src - ?n. mbyte m (a + of_nat ?n + of_nat k) \<noteq> None"
      using 1(3) by (intro shift_all) simp_all
    then have later: "\<forall>k < length (drop ?n src). mbyte ?m (a + of_nat ?n + of_nat k) \<noteq> None"
      by (simp only: mbyte_None_iff l length_drop simp_thms)
    have len: "length (drop ?n src) < 2 ^ 63"
      using 1(4) by simp
    have ih: "mbyte (host_write_loop (a + of_nat ?n) (drop ?n src) ?m) =
        mem_put (a + of_nat ?n) (drop ?n src) (mbyte ?m) \<and>
      mprot (host_write_loop (a + of_nat ?n) (drop ?n src) ?m) = mprot ?m"
      using 1(1) [OF False refl refl refl] inv later len p by (simp add: Let_def)
    have "host_write_loop a src m = host_write_loop (a + of_nat ?n) (drop ?n src) ?m"
      using False p by (subst host_write_loop.simps) (simp add: Let_def)
    moreover have "mem_put (a + of_nat ?n) (drop ?n src) (mem_put a (take ?n src) (mbyte m)) =
        mem_put a src (mbyte m)"
      using mem_put_append [of "take ?n src" "drop ?n src" a "mbyte m"] f(2) 1(4) by simp
    ultimately show ?thesis
      using ih w by simp
  qed
qed

lemma host_write_correct:
  assumes m: "mem_inv D m" and n: "unat a + length src < 2 ^ 64" "length src < 2 ^ 63"
    and all: "\<forall>k < length src. mbyte m (a + of_nat k) \<noteq> None"
  obtains m' where "host_write a src m = (Inr (), m')" and "mbyte m' = mem_put a src (mbyte m)"
    and "mprot m' = mprot m"
proof -
  have "host_check a (length src) m = None"
    using host_check_None [of "length src" a m] n all by (cases "length src = 0") (simp_all add: host_check_def)
  then show ?thesis
    using host_write_loop_correct [OF m all n(2)]
    by (intro that [of "host_write_loop a src m"]) (simp_all add: host_write_def)
qed

end
