(* ===== verification/Cpu_Fetch.thy ===== *)
theory Cpu_Fetch
  imports Cpu_Keep Memory_Correct
begin

text \<open>
  The CPU keeps the memory invariant through every handler, the fetch path, the decode cache and
  the run loop. With it, the instruction that is executed is the decoding of the bytes that are in
  memory at that moment, however the code got there.
\<close>

subsection \<open>Updates outside the memory\<close>

lemma mem_inv_cong:
  fixes m m' :: "'a memory_scheme"
  assumes "lookup m' = lookup m" "m_pages m' = m_pages m" "m_npage m' = m_npage m"
    "m_arrs m' = m_arrs m" "m_narr m' = m_narr m" "m_codes m' = m_codes m" "m_ncode m' = m_ncode m"
    "m_rtlb m' = m_rtlb m" "m_wtlb m' = m_wtlb m" "m_ctlb m' = m_ctlb m"
    "m_fetchVPN m' = m_fetchVPN m" "m_fetchCode m' = m_fetchCode m"
    "m_rhooks m' = m_rhooks m" "m_whooks m' = m_whooks m"
  shows "mem_inv D m' = mem_inv D m"
proof -
  have a: "arr_bytes m' d x n = arr_bytes m d x n" for d x n
    using assms by (simp add: arr_bytes_def)
  have "page_raw m' p pc = page_raw m p pc" "page_data m' p = page_data m p" for p pc
    using assms a by (simp_all add: page_raw_def page_data_def split: option.splits)
  then show ?thesis
    using assms by (simp add: inv_defs)
qed

lemma lookup_cpu [simp]:
  "lookup (c_R_update f c) = lookup c" "lookup (c_NZCV_update g c) = lookup c"
  "lookup (c_V_update h c) = lookup c" "lookup (c_FPCR_update g c) = lookup c"
  "lookup (c_FPSR_update g c) = lookup c" "lookup (c_TPIDR_update k c) = lookup c"
  "lookup (c_TPIDRRO_update k c) = lookup c" "lookup (c_exclAddr_update k c) = lookup c"
  "lookup (c_exclVal_update k c) = lookup c" "lookup (c_exclVal2_update k c) = lookup c"
  "lookup (c_exclSize_update n c) = lookup c" "lookup (c_exclValid_update b c) = lookup c"
  "lookup (c_icount_update k c) = lookup c" "lookup (c_stopReq_update b c) = lookup c"
  "lookup (c_codeHooks_update hs c) = lookup c" "lookup (c_intrHooks_update is c) = lookup c"
  by (simp_all add: fun_eq_iff lookup_def)

lemma mem_inv_cpu [simp]:
  "mem_inv D (c_R_update f c) = mem_inv D c" "mem_inv D (c_NZCV_update g c) = mem_inv D c"
  "mem_inv D (c_V_update h c) = mem_inv D c" "mem_inv D (c_FPCR_update g c) = mem_inv D c"
  "mem_inv D (c_FPSR_update g c) = mem_inv D c" "mem_inv D (c_TPIDR_update k c) = mem_inv D c"
  "mem_inv D (c_TPIDRRO_update k c) = mem_inv D c" "mem_inv D (c_exclAddr_update k c) = mem_inv D c"
  "mem_inv D (c_exclVal_update k c) = mem_inv D c" "mem_inv D (c_exclVal2_update k c) = mem_inv D c"
  "mem_inv D (c_exclSize_update n c) = mem_inv D c" "mem_inv D (c_exclValid_update b c) = mem_inv D c"
  "mem_inv D (c_icount_update k c) = mem_inv D c" "mem_inv D (c_stopReq_update b c) = mem_inv D c"
  "mem_inv D (c_codeHooks_update hs c) = mem_inv D c" "mem_inv D (c_intrHooks_update is c) = mem_inv D c"
  "mem_inv D (m_pc_update k c) = mem_inv D c"
  by (rule mem_inv_cong, simp_all)+

lemma mem_inv_noVPN: "mem_inv D c \<Longrightarrow> mem_inv D (c\<lparr>m_fetchVPN := noVPN\<rparr>)"
proof -
  assume m: "mem_inv D c"
  have "core_inv D (c\<lparr>m_fetchVPN := noVPN\<rparr>)"
    using mem_inv_core [OF m] by (rule core_inv_cong) simp_all
  then show ?thesis
    using m by (simp add: mem_inv_def rtlb_ok_def wtlb_ok_def ctlb_ok_def fetch_ok_def page_data_def)
qed

definition cpu_env_ok :: "(u32 \<Rightarrow> u64 \<Rightarrow> inst) \<Rightarrow> 'a cpu_env \<Rightarrow> bool" where
  "cpu_env_ok D E \<longleftrightarrow> env_ok D E \<and>
     (\<forall>h k c. mem_inv D c \<longrightarrow> mem_inv D (intr_fn E h k c)) \<and>
     (\<forall>h a c. mem_inv D c \<longrightarrow> mem_inv D (code_fn E h a c)) \<and>
     (\<forall>n i. keeps (mem_inv D) (simd_fn E n i))"

lemma fold_intr_inv:
  "cpu_env_ok D E \<Longrightarrow> mem_inv D c \<Longrightarrow> mem_inv D (fold (\<lambda>h. intr_fn E h k) hs c)"
  by (induction hs arbitrary: c) (auto simp: cpu_env_ok_def)

lemma raise_inv: "cpu_env_ok D E \<Longrightarrow> mem_inv D c \<Longrightarrow> mem_inv D (snd (raise_exc E k c))"
  by (simp add: raise_exc_def Let_def fold_intr_inv mem_inv_noVPN)

lemma tlb_store_inv:
  assumes m: "mem_inv D m" and v: "v \<noteq> noVPN" "t_vpn (m_wtlb m (v AND 255)) = v"
  shows "mem_inv D (storeN (t_data (m_wtlb m (v AND 255))) off n x m)"
proof -
  obtain p where p: "lookup m v = Some p" "p_data (m_pages m p) = Some (t_data (m_wtlb m (v AND 255)))"
    "p_code (m_pages m p) = None"
    using m v unfolding mem_inv_def wtlb_ok_def by metis
  show ?thesis
    using arr_put_inv [OF m lookup_alloc [OF mem_inv_core [OF m] p(1)] p(2,3)] by (simp add: storeN_arr_put)
qed

lemma keeps_cond: "(A \<Longrightarrow> keeps P m) \<Longrightarrow> keeps (\<lambda>s. A \<longrightarrow> P s) m"
  by (auto simp: keeps_def)

lemma slow_keeps:
  "env_ok D E \<Longrightarrow> keeps (mem_inv D) (read_slow E a n)" "env_ok D E \<Longrightarrow> keeps (mem_inv D) (write_slow E a n v)"
  by (rule read_slow_keeps write_slow_keeps, assumption)+

interpretation mi: step_inv E "\<lambda>c. cpu_env_ok D E \<longrightarrow> mem_inv D c" "\<lambda>_. True" "\<lambda>_ _. True"
proof unfold_locales
  show "keeps (\<lambda>c. cpu_env_ok D E \<longrightarrow> mem_inv D c) (raise_exc E k)" for k
    using raise_inv by (auto simp: keeps_def)
  show "keeps (\<lambda>c. cpu_env_ok D E \<longrightarrow> mem_inv D c) (simd_fn E n i)" for n i
    by (auto simp: keeps_def cpu_env_ok_def)
qed (auto simp: state_defs msr_def tlb_store_inv cpu_env_ok_def
    intro!: keeps_cond guest_page_keeps readN_keeps writeN_keeps slow_keeps)

lemma exec_fn_inv: "cpu_env_ok D E \<Longrightarrow> keeps (mem_inv D) (exec_fn E h i)"
  using mi.P_exec [where D = D and E = E and h = h and i = i] by (simp add: keeps_def)

subsection \<open>Fetching\<close>

lemma get_code_frame [simp]:
  "lookup (snd (get_code p v m)) = lookup m" "m_npage (snd (get_code p v m)) = m_npage m"
  "m_arrs (snd (get_code p v m)) = m_arrs m" "m_narr (snd (get_code p v m)) = m_narr m"
  "m_rtlb (snd (get_code p v m)) = m_rtlb m" "m_ctlb (snd (get_code p v m)) = m_ctlb m"
  "m_fetchVPN (snd (get_code p v m)) = m_fetchVPN m" "m_fetchCode (snd (get_code p v m)) = m_fetchCode m"
  "m_rhooks (snd (get_code p v m)) = m_rhooks m" "m_whooks (snd (get_code p v m)) = m_whooks m"
  "m_invalid (snd (get_code p v m)) = m_invalid m" "m_pc (snd (get_code p v m)) = m_pc m"
  "memory.more (snd (get_code p v m)) = memory.more m"
  "p_data (m_pages (snd (get_code p v m)) q) = p_data (m_pages m q)"
  "p_prot (m_pages (snd (get_code p v m)) q) = p_prot (m_pages m q)"
  by (simp_all add: get_code_def Let_def split: option.splits)

lemma get_code_other:
  "q \<noteq> p \<Longrightarrow> p_code (m_pages (snd (get_code p v m)) q) = p_code (m_pages m q)"
  "p_code (m_pages (snd (get_code p v m)) p) = Some (fst (get_code p v m))"
  "p_code (m_pages m p) = Some cp \<Longrightarrow> p_code (m_pages (snd (get_code p v m)) q) = p_code (m_pages m q)"
  by (auto simp: get_code_def Let_def split: option.splits)

lemma get_code_inv:
  assumes m: "mem_inv D m" and l: "lookup m v = Some p"
  shows "mem_inv D (snd (get_code p v m))"
proof (cases "p_code (m_pages m p)")
  case (Some cp)
  then show ?thesis using m by (simp add: get_code_def)
next
  case None
  let ?m = "snd (get_code p v m)"
  have pl: "p < m_npage m"
    using lookup_alloc [OF mem_inv_core [OF m] l] .
  have cok: "code_ok m" using m by (simp add: mem_inv_def core_inv_def)
  have codes: "m_codes ?m = (m_codes m)(m_ncode m := \<lparr>cp_pg = p, cp_insts = (\<lambda>_. inst0)\<rparr>)"
    "m_ncode ?m = Suc (m_ncode m)" "fst (get_code p v m) = m_ncode m"
    using None by (simp_all add: get_code_def Let_def)
  have raw: "page_raw ?m q pc = page_raw m q pc" for q pc
    by (rule page_raw_frame) simp_all
  have old: "lookup m w = Some q \<Longrightarrow> p_code (m_pages m q) = Some c \<Longrightarrow> c \<noteq> m_ncode m" for w q c
    using cok lookup_alloc [OF mem_inv_core [OF m]] unfolding code_ok_def by blast
  have "core_inv D ?m"
    unfolding core_inv_def
  proof (intro conjI)
    show "pt_ok ?m" using m by (simp add: pt_ok_def mem_inv_def core_inv_def)
    show "data_ok ?m" using m by (simp add: data_ok_def mem_inv_def core_inv_def)
    show "code_ok ?m"
      unfolding code_ok_def
    proof (intro allI impI, elim conjE)
      fix q c
      assume q: "q < m_npage ?m" "p_code (m_pages ?m q) = Some c"
      show "c < m_ncode ?m \<and> cp_pg (m_codes ?m c) = q"
      proof (cases "q = p")
        case True
        then show ?thesis using q(2) codes get_code_other(2) [of p v m] by simp
      next
        case False
        then have "c < m_ncode m \<and> cp_pg (m_codes m c) = q"
          using q cok get_code_other(1) [of q p v m] by (simp add: code_ok_def)
        then show ?thesis by (simp add: codes)
      qed
    qed
    show "insts_ok D ?m"
      unfolding insts_ok_def
    proof (intro allI impI, elim conjE)
      fix w q c s
      assume a: "lookup ?m w = Some q" "p_code (m_pages ?m q) = Some c" "s AND 0x3ff = s"
        "i_fn (cp_insts (m_codes ?m c) s) \<noteq> None"
      have c: "c \<noteq> m_ncode m"
        using a(4) by (auto simp: codes)
      then have "q \<noteq> p"
        using a(2) get_code_other(2) [of p v m] codes(3) by auto
      then have "p_code (m_pages m q) = Some c"
        using a(2) get_code_other(1) by metis
      then have "cp_insts (m_codes m c) s = decoded D (page_raw m q (slot_pc w s)) (slot_pc w s)"
        using a c mem_inv_insts [OF m] unfolding insts_ok_def by (simp add: codes)
      then show "cp_insts (m_codes ?m c) s = decoded D (page_raw ?m q (slot_pc w s)) (slot_pc w s)"
        using c by (simp add: codes raw)
    qed
  qed
  moreover have "rtlb_ok ?m"
    using m by (simp add: mem_inv_def rtlb_ok_def page_data_def)
  moreover have "wtlb_ok ?m"
    unfolding wtlb_ok_def
  proof (intro allI impI)
    fix i
    assume ne: "t_vpn (m_wtlb ?m i) \<noteq> noVPN"
    have w: "m_wtlb ?m i = m_wtlb m i"
      using ne None by (auto simp: get_code_def Let_def split: if_splits)
    obtain q where q: "i = t_vpn (m_wtlb m i) AND 255" "\<not> hooks_cover_page (m_whooks m) (t_vpn (m_wtlb m i))"
      "lookup m (t_vpn (m_wtlb m i)) = Some q" "p_prot (m_pages m q) AND 2 \<noteq> 0"
      "p_data (m_pages m q) = Some (t_data (m_wtlb m i))" "p_code (m_pages m q) = None"
      using m ne w unfolding mem_inv_def wtlb_ok_def by metis
    have "q \<noteq> p"
    proof
      assume "q = p"
      then have "t_vpn (m_wtlb m i) = v"
        using lookup_inj [OF mem_inv_core [OF m]] q(3) l by metis
      then have "t_vpn (m_wtlb ?m i) = noVPN"
        using None q(1) by (auto simp: get_code_def Let_def)
      with ne show False by simp
    qed
    then show "i = t_vpn (m_wtlb ?m i) AND 255 \<and> \<not> hooks_cover_page (m_whooks ?m) (t_vpn (m_wtlb ?m i)) \<and>
        (\<exists>p'. lookup ?m (t_vpn (m_wtlb ?m i)) = Some p' \<and> p_prot (m_pages ?m p') AND 2 \<noteq> 0 \<and>
          p_data (m_pages ?m p') = Some (t_data (m_wtlb ?m i)) \<and> p_code (m_pages ?m p') = None)"
      using q by (auto simp: w get_code_other(1))
  qed
  moreover have keep: "p_code (m_pages m q) \<noteq> None \<Longrightarrow> p_code (m_pages ?m q) = p_code (m_pages m q)" for q
    using None by (cases "q = p") (auto simp: get_code_other(1))
  have "ctlb_ok ?m"
    using m keep unfolding mem_inv_def ctlb_ok_def by (simp, metis)
  moreover have "fetch_ok ?m"
    using m keep unfolding mem_inv_def fetch_ok_def by (simp, metis)
  ultimately show ?thesis
    by (simp add: mem_inv_def)
qed

lemma set_fetch_inv:
  assumes m: "mem_inv D m" and l: "lookup m v = Some p" and x: "p_prot (m_pages m p) AND 4 \<noteq> 0"
    and c: "p_code (m_pages m p) = Some cp"
  shows "mem_inv D (set_fetch v (Some cp) m)"
    and "mem_inv D (set_fetch v (Some cp) (m\<lparr>m_ctlb := (m_ctlb m)(v AND 63 := \<lparr>c_vpn = v, c_code = Some cp\<rparr>)\<rparr>))"
proof -
  have 1: "core_inv D (set_fetch v (Some cp) m)"
    "core_inv D (set_fetch v (Some cp) (m\<lparr>m_ctlb := (m_ctlb m)(v AND 63 := \<lparr>c_vpn = v, c_code = Some cp\<rparr>)\<rparr>))"
    by (rule core_inv_cong [OF mem_inv_core [OF m]], simp_all add: set_fetch_def)+
  show "mem_inv D (set_fetch v (Some cp) m)"
    using m 1(1) l x c
    by (auto simp: mem_inv_def rtlb_ok_def wtlb_ok_def ctlb_ok_def fetch_ok_def set_fetch_def page_data_def)
  show "mem_inv D (set_fetch v (Some cp) (m\<lparr>m_ctlb := (m_ctlb m)(v AND 63 := \<lparr>c_vpn = v, c_code = Some cp\<rparr>)\<rparr>))"
    using m 1(2) l x c
    by (auto simp: mem_inv_def rtlb_ok_def wtlb_ok_def ctlb_ok_def fetch_ok_def set_fetch_def page_data_def)
qed

text \<open>What holds of the fetch cache once the page of \<open>pc\<close> has been fetched.\<close>

definition fetched :: "u64 \<Rightarrow> 'a memory_scheme \<Rightarrow> bool" where
  "fetched pc m \<longleftrightarrow> m_fetchVPN m = vpn_of pc \<and>
     (\<exists>p cp. lookup m (vpn_of pc) = Some p \<and> m_fetchCode m = Some cp \<and> p_code (m_pages m p) = Some cp)"

lemma fetched_cached: "mem_inv D m \<Longrightarrow> m_fetchVPN m = vpn_of pc \<Longrightarrow> fetched pc m"
  using vpn_of_not_noVPN [of pc] by (fastforce simp: fetched_def mem_inv_def fetch_ok_def)

lemma fetch_inv:
  fixes E :: "('a memory_scheme) env"
  assumes E: "env_ok D E"
  shows "keeps (mem_inv D) (fetch E pc)"
  unfolding keeps_def
proof (intro allI impI)
  fix m :: "'a memory_scheme"
  assume m: "mem_inv D m"
  let ?v = "vpn_of pc"
  show "mem_inv D (snd (fetch E pc m))"
  proof (cases "c_vpn (m_ctlb m (?v AND 63)) = ?v")
    case True
    then have "c_vpn (m_ctlb m (?v AND 63)) \<noteq> noVPN" by simp
    then obtain p where p: "lookup m (c_vpn (m_ctlb m (?v AND 63))) = Some p"
      "p_prot (m_pages m p) AND 4 \<noteq> 0" "c_code (m_ctlb m (?v AND 63)) \<noteq> None"
      "p_code (m_pages m p) = c_code (m_ctlb m (?v AND 63))"
      using m unfolding mem_inv_def ctlb_ok_def by metis
    then show ?thesis
      using set_fetch_inv(1) [OF m] True by (auto simp: fetch_def Let_def)
  next
    case False
    have "keeps (mem_inv D) (bnd (guest_page E MemFetch pc 4 0) (\<lambda>p. upd (\<lambda>m1.
        let (cp, m2) = get_code p ?v m1
        in set_fetch ?v (Some cp)
             (m2\<lparr>m_ctlb := (m_ctlb m2)(?v AND 63 := \<lparr>c_vpn = ?v, c_code = Some cp\<rparr>)\<rparr>))))"
    proof (rule keeps_bnd_post [OF guest_page_keeps [OF E]])
      fix p s t
      assume t: "mem_inv D t" and g: "guest_page E MemFetch pc 4 0 s = (Inr p, t)"
      have l: "lookup t ?v = Some p" "p_prot (m_pages t p) AND 4 \<noteq> 0"
        using guest_page_Inr [OF g] by (simp_all add: need_prot_def)
      show "mem_inv D (snd (upd (\<lambda>m1. let (cp, m2) = get_code p ?v m1
          in set_fetch ?v (Some cp)
               (m2\<lparr>m_ctlb := (m_ctlb m2)(?v AND 63 := \<lparr>c_vpn = ?v, c_code = Some cp\<rparr>)\<rparr>)) t))"
        using set_fetch_inv(2) [OF get_code_inv [OF t l(1)], of ?v p "fst (get_code p ?v t)"] l
          get_code_other(2) [of p ?v t]
        by (simp add: upd_def split_beta)
    qed
    then show ?thesis
      using False m by (simp add: fetch_def Let_def keeps_def)
  qed
qed

lemma fetch_fetched:
  fixes m :: "'a memory_scheme"
  assumes E: "env_ok D E" and m: "mem_inv D m" and ok: "fetch E pc m = (Inr u, m')"
  shows "fetched pc m'"
proof (rule fetched_cached)
  show "mem_inv D m'"
    using keepsD_eq [OF fetch_inv [OF E] m ok] .
  show "m_fetchVPN m' = vpn_of pc"
    using ok by (auto simp: fetch_def Let_def bnd_def upd_def set_fetch_def split_beta split: if_splits sum.splits prod.splits)
qed

subsection \<open>The decode cache\<close>

lemma slot_pc_slot_of:
  assumes "pc AND 3 = 0"
  shows "slot_pc (vpn_of pc) (slot_of pc) = pc"
proof (rule bit_word_eqI)
  fix i :: nat
  assume i: "i < LENGTH(64)"
  have m: "(3 :: u64) = mask 2" "(0x3ff :: u64) = mask 10"
    by (simp_all add: mask_eq_exp_minus_1)
  have "\<not> bit (pc AND mask 2) i"
    using assms unfolding m by simp
  then have low: "i < 2 \<Longrightarrow> \<not> bit pc i"
    by (simp add: bit_simps)
  have e: "\<not> i < 2 \<Longrightarrow> Suc (Suc (i - 2)) = i" "12 \<le> i \<Longrightarrow> 12 + (i - 12) = i"
    by simp_all
  consider "i < 2" | "\<not> i < 2" "i < 12" | "12 \<le> i"
    by linarith
  then show "bit (slot_pc (vpn_of pc) (slot_of pc)) i = bit pc i"
    using i low e unfolding slot_pc_def slot_of_def m by cases (auto simp: bit_simps)
qed

lemma slot_of_masked: "slot_of pc AND 0x3ff = slot_of pc"
  by (simp add: slot_of_def and.assoc)

lemma slot_pc_inj:
  assumes "slot_pc v s = slot_pc w t" "s AND 0x3ff = s" "t AND 0x3ff = t"
  shows "s = t"
proof (rule bit_word_eqI)
  fix i :: nat
  assume i: "i < LENGTH(64)"
  have m: "(0x3ff :: u64) = mask 10"
    by (simp add: mask_eq_exp_minus_1)
  have "bit (slot_pc v s) (i + 2) = bit (slot_pc w t) (i + 2)"
    using assms by simp
  moreover have "10 \<le> i \<Longrightarrow> \<not> bit s i" "10 \<le> i \<Longrightarrow> \<not> bit t i"
    using assms(2,3) unfolding m by (metis bit_and_iff bit_mask_iff not_le)+
  ultimately show "bit s i = bit t i"
    using i by (cases "i < 10") (auto simp: slot_pc_def bit_simps)
qed

lemma decoded_decodeAt: "decoded (decode simd inst0) raw pc = decodeAt simd raw pc"
  by (simp add: decoded_def decodeAt_def Let_def)

lemma decodeAt_fn: "i_fn (decodeAt simd raw pc) \<noteq> None"
  by (simp add: decodeAt_def Let_def)

text \<open>The instruction at \<open>pc\<close> as the cache holds or decodes it.\<close>

lemma cached_inst_correct:
  assumes m: "mem_inv (decode simd inst0) m" and f: "fetched pc m" and al: "pc AND 3 = 0"
  shows "fst (cached_inst simd pc m) = decodeAt simd (ucast (le_val (mbytes m pc 4))) pc"
    and "mem_inv (decode simd inst0) (snd (cached_inst simd pc m))"
proof -
  obtain p cp where p: "lookup m (vpn_of pc) = Some p" "m_fetchCode m = Some cp" "p_code (m_pages m p) = Some cp"
    using f by (auto simp: fetched_def)
  have cok: "cp_pg (m_codes m cp) = p"
    using m p lookup_alloc [OF mem_inv_core [OF m]] by (auto simp: mem_inv_def core_inv_def code_ok_def)
  let ?s = "slot_of pc"
  have sp: "slot_pc (vpn_of pc) ?s = pc"
    using al by (rule slot_pc_slot_of)
  have old: "i_fn (cp_insts (m_codes m cp) ?s) \<noteq> None \<Longrightarrow>
      cp_insts (m_codes m cp) ?s = decodeAt simd (page_raw m p pc) pc"
    using mem_inv_insts [OF m] p slot_of_masked [of pc] unfolding insts_ok_def
    by (metis decoded_decodeAt sp)
  have off: "unat (off_of pc) + 4 \<le> 4096"
  proof -
    have m2: "(3 :: u64) = mask 2" by (simp add: mask_eq_exp_minus_1)
    have "unat (take_bit 2 pc) = 0"
      using al unfolding m2 take_bit_eq_mask [symmetric] by simp
    then have "unat pc mod 4 = 0"
      by (simp only: unsigned_take_bit_eq) (simp add: take_bit_eq_mod)
    then have "unat (off_of pc) mod 4 = 0"
      by (simp add: unat_off_of mod_mod_cancel)
    then show ?thesis
      using unat_off_less [of pc] by presburger
  qed
  have raw: "page_raw m p pc = ucast (le_val (mbytes m pc 4))"
  proof -
    have "m_arrs m 0 x = 0" for x
      using m by (simp add: mem_inv_def core_inv_def data_ok_def)
    then have "page_raw m p pc = ucast (le_val (arr_bytes m (page_data m p) (off_of pc) 4))"
      by (auto simp: page_raw_def page_data_def arr_bytes_def split: option.splits)
    then show ?thesis
      by (simp only: arr_bytes_mbytes [OF p(1) off])
  qed
  show "fst (cached_inst simd pc m) = decodeAt simd (ucast (le_val (mbytes m pc 4))) pc"
    using old cok p by (auto simp: cached_inst_def Let_def raw)
  show "mem_inv (decode simd inst0) (snd (cached_inst simd pc m))"
  proof (cases "i_fn (cp_insts (m_codes m cp) ?s) = None")
    case False
    then show ?thesis using m p by (auto simp: cached_inst_def Let_def)
  next
    case True
    let ?j = "decodeAt simd (page_raw m p pc) pc"
    let ?m = "m\<lparr>m_codes := (m_codes m)(cp := (m_codes m cp)
                 \<lparr>cp_insts := (cp_insts (m_codes m cp))(?s := ?j)\<rparr>)\<rparr>"
    have e: "snd (cached_inst simd pc m) = ?m"
      using True p cok by (simp add: cached_inst_def Let_def)
    have raw': "page_raw ?m q x = page_raw m q x" for q x
      by (rule page_raw_frame) simp_all
    have only: "lookup m w = Some q \<Longrightarrow> p_code (m_pages m q) = Some cp \<Longrightarrow> w = vpn_of pc \<and> q = p" for w q
    proof -
      assume w: "lookup m w = Some q" "p_code (m_pages m q) = Some cp"
      then have "cp_pg (m_codes m cp) = q"
        using m lookup_alloc [OF mem_inv_core [OF m]] by (auto simp: mem_inv_def core_inv_def code_ok_def)
      then show ?thesis
        using cok lookup_inj [OF mem_inv_core [OF m]] w(1) p(1) by auto
    qed
    have "insts_ok (decode simd inst0) ?m"
      unfolding insts_ok_def
    proof (intro allI impI, elim conjE)
      fix w q c s
      assume a: "lookup ?m w = Some q" "p_code (m_pages ?m q) = Some c" "s AND 0x3ff = s"
        "i_fn (cp_insts (m_codes ?m c) s) \<noteq> None"
      show "cp_insts (m_codes ?m c) s = decoded (decode simd inst0) (page_raw ?m q (slot_pc w s)) (slot_pc w s)"
      proof (cases "c = cp \<and> s = ?s")
        case True
        then show ?thesis
          using only [of w q] a by (simp add: raw' decoded_decodeAt sp)
      next
        case False
        then have "cp_insts (m_codes ?m c) s = cp_insts (m_codes m c) s"
          by auto
        then show ?thesis
          using a mem_inv_insts [OF m] unfolding insts_ok_def raw' by simp
      qed
    qed
    moreover have "pt_ok ?m" "data_ok ?m" "code_ok ?m" "rtlb_ok ?m" "wtlb_ok ?m" "ctlb_ok ?m" "fetch_ok ?m"
      using m by (auto simp: mem_inv_def core_inv_def pt_ok_def data_ok_def code_ok_def rtlb_ok_def
          wtlb_ok_def ctlb_ok_def fetch_ok_def page_data_def)
    ultimately show ?thesis
      unfolding e by (simp add: mem_inv_def core_inv_def)
  qed
qed

subsection \<open>The run loop\<close>

text \<open>Two states that differ in the caches only.\<close>

definition same_machine :: "'a memory_scheme \<Rightarrow> 'a memory_scheme \<Rightarrow> bool" where
  "same_machine m m' \<longleftrightarrow> mbyte m' = mbyte m \<and> mprot m' = mprot m \<and> m_pc m' = m_pc m \<and>
     memory.more m' = memory.more m \<and> m_invalid m' = m_invalid m \<and> m_rhooks m' = m_rhooks m \<and>
     m_whooks m' = m_whooks m"

lemma same_machine_refl [simp]: "same_machine m m"
  by (simp add: same_machine_def)

lemma same_machine_trans: "same_machine a b \<Longrightarrow> same_machine b c \<Longrightarrow> same_machine a c"
  by (simp add: same_machine_def)

lemma same_machineI:
  "lookup m' = lookup m \<Longrightarrow> (\<And>q. p_data (m_pages m' q) = p_data (m_pages m q)) \<Longrightarrow>
   (\<And>q. p_prot (m_pages m' q) = p_prot (m_pages m q)) \<Longrightarrow> m_arrs m' = m_arrs m \<Longrightarrow> m_pc m' = m_pc m \<Longrightarrow>
   memory.more m' = memory.more m \<Longrightarrow> m_invalid m' = m_invalid m \<Longrightarrow> m_rhooks m' = m_rhooks m \<Longrightarrow>
   m_whooks m' = m_whooks m \<Longrightarrow> same_machine m m'"
  by (simp add: same_machine_def mbyte_def mprot_def page_data_def fun_eq_iff)

lemma cached_inst_same: "same_machine m (snd (cached_inst simd pc m))"
  by (rule same_machineI) (auto simp: cached_inst_def Let_def split: option.splits)

lemma fetch_allowed:
  fixes E :: "('a memory_scheme) env"
  assumes m: "mem_inv D m" and x: "allows 4 m pc"
  obtains m' where "fetch E pc m = (Inr (), m')" and "same_machine m m'" and "mem_inv D m'"
    and "fetched pc m'"
proof (cases "c_vpn (m_ctlb m (vpn_of pc AND 63)) = vpn_of pc")
  case True
  let ?e = "m_ctlb m (vpn_of pc AND 63)" and ?m = "set_fetch (vpn_of pc) (c_code (m_ctlb m (vpn_of pc AND 63))) m"
  have "c_vpn ?e \<noteq> noVPN" using True by simp
  then obtain p where p: "lookup m (c_vpn ?e) = Some p" "p_prot (m_pages m p) AND 4 \<noteq> 0"
      "c_code ?e \<noteq> None" "p_code (m_pages m p) = c_code ?e"
    using m unfolding mem_inv_def ctlb_ok_def by metis
  have "mem_inv D ?m"
    using set_fetch_inv(1) [OF m] p True by auto
  moreover have "same_machine m ?m"
    by (rule same_machineI) (simp_all add: set_fetch_def)
  moreover have "fetched pc ?m"
    using calculation(1) by (rule fetched_cached) (simp add: set_fetch_def)
  ultimately show ?thesis
    using that True by (simp add: fetch_def Let_def)
next
  case False
  obtain p where p: "lookup m (vpn_of pc) = Some p" "p_prot (m_pages m p) AND 4 \<noteq> 0"
    using x by (auto simp: allows_lookup)
  let ?g = "get_code p (vpn_of pc) m"
  let ?m = "set_fetch (vpn_of pc) (Some (fst ?g)) ((snd ?g)
      \<lparr>m_ctlb := (m_ctlb (snd ?g))(vpn_of pc AND 63 := \<lparr>c_vpn = vpn_of pc, c_code = Some (fst ?g)\<rparr>)\<rparr>)"
  have e: "fetch E pc m = (Inr (), ?m)"
    using False p by (simp add: fetch_def Let_def bnd_def guest_page_ok need_prot_def upd_def split_beta)
  have i: "mem_inv D ?m"
    using set_fetch_inv(2) [OF get_code_inv [OF m p(1)], of "vpn_of pc" p "fst ?g"] p
      get_code_other(2) [of p "vpn_of pc" m] by simp
  have "same_machine m ?m"
    by (rule same_machineI) (simp_all add: set_fetch_def)
  moreover have "fetched pc ?m"
    using i by (rule fetched_cached) (simp add: set_fetch_def)
  ultimately show ?thesis
    using that e i by blast
qed

lemma ensure_fetch_allowed:
  fixes E :: "'a cpu_env"
  assumes m: "mem_inv D c" and x: "allows 4 c pc"
  obtains c' where "ensure_fetch E pc c = (Inr (), c')" and "same_machine c c'" and "mem_inv D c'"
    and "fetched pc c'"
proof (cases "vpn_of pc = m_fetchVPN c")
  case True
  then show ?thesis
    using that [of c] m fetched_cached [OF m, of pc] by (simp add: ensure_fetch_def)
next
  case False
  then show ?thesis
    using that fetch_allowed [OF m x, of E] by (auto simp: ensure_fetch_def)
qed

lemma mbytes_same: "mbyte m' = mbyte m \<Longrightarrow> mbytes m' = mbytes m"
  by (simp add: mbytes_def fun_eq_iff)

lemma more_fields:
  fixes c c' :: "'a cpu_scheme"
  assumes "memory.more c' = memory.more c"
  shows "c_R c' = c_R c" "c_NZCV c' = c_NZCV c" "c_V c' = c_V c" "c_icount c' = c_icount c"
    "c_codeHooks c' = c_codeHooks c" "c_intrHooks c' = c_intrHooks c" "c_stopReq c' = c_stopReq c"
    "c_FPCR c' = c_FPCR c" "c_FPSR c' = c_FPSR c" "c_TPIDR c' = c_TPIDR c" "c_TPIDRRO c' = c_TPIDRRO c"
    "c_exclValid c' = c_exclValid c" "c_exclAddr c' = c_exclAddr c" "c_exclSize c' = c_exclSize c"
  using assms by (cases c; cases c'; simp)+

text \<open>
  One iteration at an executable address without code hooks: whatever the fetch cache, the code TLB
  and the decode cache hold, the handler that runs is the decoding of the four bytes now at \<open>pc\<close>.
\<close>

lemma run_iter_executes:
  fixes c :: "'a cpu_scheme"
  assumes m: "mem_inv (decode simd inst0) c" and h: "c_codeHooks c = []"
    and pc: "m_pc c \<noteq> until" "m_pc c AND 3 = 0" and x: "allows 4 c (m_pc c)"
  obtains c1 f where "same_machine c c1" and "mem_inv (decode simd inst0) c1"
    and "i_fn (decodeAt simd (ucast (le_val (mbytes c (m_pc c) 4))) (m_pc c)) = Some f"
    and "run_iter simd E until c =
      andthen (exec_fn E f (decodeAt simd (ucast (le_val (mbytes c (m_pc c) 4))) (m_pc c)))
        (andthen (upd (\<lambda>c. c\<lparr>c_icount := c_icount c + 1\<rparr>)) (ret False)) c1"
proof -
  let ?pc = "m_pc c" and ?i = "decodeAt simd (ucast (le_val (mbytes c (m_pc c) 4))) (m_pc c)"
  obtain c' where c': "ensure_fetch E ?pc c = (Inr (), c')" "same_machine c c'"
    "mem_inv (decode simd inst0) c'" "fetched ?pc c'"
    using ensure_fetch_allowed [OF m x] by blast
  have h': "c_codeHooks c' = []"
    using more_fields(5) [of c' c] c'(2) h by (simp add: same_machine_def)
  note ci = cached_inst_correct [OF c'(3,4) pc(2)]
  have i: "fst (cached_inst simd ?pc c') = ?i"
    using ci(1) c'(2) mbytes_same [of c' c] by (simp add: same_machine_def)
  obtain f where f: "i_fn ?i = Some f"
    using decodeAt_fn by blast
  let ?c1 = "snd (cached_inst simd ?pc c')"
  have "run_iter simd E until c = andthen (exec_cached simd E ?pc) (ret False) c'"
    using pc c'(1) h' by (simp add: run_iter_def Let_def bnd_def)
  also have "\<dots> = andthen (exec_fn E f ?i)
        (andthen (upd (\<lambda>c. c\<lparr>c_icount := c_icount c + 1\<rparr>)) (ret False)) ?c1"
    using i f by (simp add: exec_cached_def andthen_def bnd_def split_beta split: sum.splits prod.splits)
  finally show ?thesis
    using that same_machine_trans [OF c'(2) cached_inst_same] ci(2) f by blast
qed

text \<open>The run loop keeps the memory invariant, whatever the hooks of a sound environment do.\<close>

lemma exec_cached_inv:
  assumes E: "cpu_env_ok (decode simd inst0) E" and m: "mem_inv (decode simd inst0) c"
    and f: "fetched pc c" and al: "pc AND 3 = 0"
  shows "mem_inv (decode simd inst0) (snd (exec_cached simd E pc c))"
proof -
  let ?D = "decode simd inst0"
  have k: "keeps (mem_inv ?D) (andthen (exec_fn E h i) (upd (\<lambda>c. c\<lparr>c_icount := c_icount c + 1\<rparr>)))" for h i
    by (intro keeps_andthen exec_fn_inv [OF E] keeps_upd) simp
  show ?thesis
    using cached_inst_correct(2) [OF m f al] keepsD [OF k]
    by (auto simp: exec_cached_def split_beta split: option.splits)
qed

lemma ensure_fetch_inv:
  fixes c :: "'a cpu_scheme"
  assumes E: "env_ok D E" and m: "mem_inv D c"
  shows "mem_inv D (snd (ensure_fetch E pc c))"
    and "ensure_fetch E pc c = (Inr u, c') \<Longrightarrow> fetched pc c'"
proof -
  show "mem_inv D (snd (ensure_fetch E pc c))"
    using keepsD [OF fetch_inv [OF E] m] m by (simp add: ensure_fetch_def)
  show "ensure_fetch E pc c = (Inr u, c') \<Longrightarrow> fetched pc c'"
    using fetch_fetched [OF E m] fetched_cached [OF m] by (auto simp: ensure_fetch_def split: if_splits)
qed

lemma code_hooks_inv: "cpu_env_ok D E \<Longrightarrow> mem_inv D c \<Longrightarrow> mem_inv D (callCodeHooks E pc c)"
proof -
  assume E: "cpu_env_ok D E"
  have "mem_inv D c \<Longrightarrow> mem_inv D (fold (\<lambda>h c. if h_begin h > h_end h \<or> (pc \<ge> h_begin h \<and> pc \<le> h_end h)
      then code_fn E (h_id h) pc c else c) hs c)" for hs
    using E by (induction hs arbitrary: c) (auto simp: cpu_env_ok_def)
  then show "mem_inv D c \<Longrightarrow> mem_inv D (callCodeHooks E pc c)"
    unfolding callCodeHooks_def by (intro mem_inv_noVPN)
qed

lemma run_iter_inv:
  fixes c :: "'a cpu_scheme"
  assumes E: "cpu_env_ok (decode simd inst0) E" and m: "mem_inv (decode simd inst0) c"
  shows "mem_inv (decode simd inst0) (snd (run_iter simd E until c))"
proof -
  let ?D = "decode simd inst0" and ?pc = "m_pc c"
  have E0: "env_ok ?D E" using E by (simp add: cpu_env_ok_def)
  have go1: "mem_inv ?D (snd (andthen (exec_cached simd E ?pc) (ret False) k))"
    if "mem_inv ?D k" "fetched ?pc k" "?pc AND 3 = 0" for k
    using exec_cached_inv [OF E that] by (auto simp: andthen_def bnd_def ret_def split: sum.splits prod.splits)
  have go: "mem_inv ?D (snd (andthen (ensure_fetch E ?pc) (andthen (exec_cached simd E ?pc) (ret False)) k))"
    if "mem_inv ?D k" "?pc AND 3 = 0" for k
  proof (cases "ensure_fetch E ?pc k")
    case (Pair r b)
    then show ?thesis
      using ensure_fetch_inv [OF E0 that(1), of ?pc] go1 [of b] that(2)
      by (cases r) (simp_all add: andthen_def [of "ensure_fetch E ?pc"] bnd_def [of "ensure_fetch E ?pc"])
  qed
  show ?thesis
  proof (cases "?pc = until \<or> ?pc AND 3 \<noteq> 0")
    case True
    then show ?thesis using m by (auto simp: run_iter_def Let_def)
  next
    case False
    obtain r k where k: "ensure_fetch E ?pc c = (r, k)" by fastforce
    have mk: "mem_inv ?D k" using ensure_fetch_inv(1) [OF E0 m, of ?pc] k by simp
    show ?thesis
    proof (cases r)
      case (Inl e)
      then show ?thesis using False k mk by (simp add: run_iter_def Let_def bnd_def)
    next
      case (Inr u)
      have fk: "fetched ?pc k" using ensure_fetch_inv(2) [OF E0 m] k Inr by blast
      have hk: "mem_inv ?D (callCodeHooks E ?pc k)" using E mk by (rule code_hooks_inv)
      show ?thesis
        using False k Inr go1 [OF mk fk] go [OF hk] hk by (auto simp: run_iter_def Let_def bnd_def)
    qed
  qed
qed

lemma run_loop_inv:
  fixes c :: "'a cpu_scheme"
  assumes E: "cpu_env_ok (decode simd inst0) E"
  shows "mem_inv (decode simd inst0) c \<Longrightarrow> run_loop n simd E until limit batch c = Some (r, c') \<Longrightarrow>
    mem_inv (decode simd inst0) c'"
proof (induction n arbitrary: batch c)
  case 0
  then show ?case by simp
next
  case (Suc n)
  note i = run_iter_inv [OF E Suc.prems(1), of until]
  show ?case
    using Suc.prems Suc.IH i
    by (auto split: if_splits sum.splits prod.splits)
qed

lemma Run_inv:
  fixes c :: "'a cpu_scheme"
  assumes "cpu_env_ok (decode simd inst0) E" "mem_inv (decode simd inst0) c"
    "Run fuel simd E until count c = Some (r, c')"
  shows "mem_inv (decode simd inst0) c'"
  using run_loop_inv [OF assms(1), of "c\<lparr>c_stopReq := False\<rparr>"] assms(2,3)
  by (auto simp: Run_def Let_def recover_def)

end
