(* ===== verification/Mem_Blind.thy ===== *)
theory Mem_Blind
  imports Cpu_Fetch
begin

text \<open>
  Predicates that do not look at the guest memory. The locale \<open>mem_blind\<close> shows that every load
  and store keeps such a predicate, provided the hooks do or there are none; with \<open>step_inv\<close> this
  gives that every instruction does.
\<close>

definition outside_eq :: "'a memory_scheme \<Rightarrow> 'a memory_scheme \<Rightarrow> bool" where
  "outside_eq m m' \<longleftrightarrow> memory.more m' = memory.more m \<and> m_pc m' = m_pc m \<and> m_invalid m' = m_invalid m \<and>
     m_rhooks m' = m_rhooks m \<and> m_whooks m' = m_whooks m"

definition no_mem_hooks :: "'a memory_scheme \<Rightarrow> bool" where
  "no_mem_hooks m \<longleftrightarrow> m_invalid m = [] \<and> m_rhooks m = [] \<and> m_whooks m = []"

lemma outside_eq_prims:
  "outside_eq m (set_rtlb v d m)" "outside_eq m (set_wtlb v d m)" "outside_eq m (writable v p m)"
  "outside_eq m (arr_put d off bs m)" "outside_eq m (storeN d off n x m)" "outside_eq m (cross_put a b m)"
  by (simp_all add: outside_eq_def set_rtlb_def set_wtlb_def storeN_arr_put cross_put_def Let_def split: option.splits)

locale mem_blind =
  fixes E :: "('a memory_scheme) env" and P :: "'a memory_scheme \<Rightarrow> bool"
  assumes P_blind: "outside_eq m m' \<Longrightarrow> P m \<Longrightarrow> P m'"
    and P_hooks: "(\<forall>m. P m \<longrightarrow> no_mem_hooks m) \<or>
      (\<forall>i fk a n v m. P m \<longrightarrow> P (snd (inv_fn E i fk a n v m)) \<and> P (mem_fn E i a n v m))"
begin

lemma P_call_invalid: "P m \<Longrightarrow> P (snd (call_invalid E (m_invalid m) fk a n v h m))"
proof -
  assume m: "P m"
  have "P m \<Longrightarrow> P (snd (call_invalid E hs fk a n v h m))"
    if "\<forall>i fk a n v m. P m \<longrightarrow> P (snd (inv_fn E i fk a n v m)) \<and> P (mem_fn E i a n v m)" for hs
    using that by (induction hs arbitrary: m h) (auto simp: split_beta)
  then show ?thesis
    using P_hooks m by (auto simp: no_mem_hooks_def)
qed

lemma P_call_mem: "P m \<Longrightarrow> hs = m_rhooks m \<or> hs = m_whooks m \<Longrightarrow> P (call_mem_hooks E hs a n v m)"
proof -
  assume m: "P m" "hs = m_rhooks m \<or> hs = m_whooks m"
  have "P m \<Longrightarrow> P (call_mem_hooks E hs a n v m)"
    if "\<forall>i fk a n v m. P m \<longrightarrow> P (snd (inv_fn E i fk a n v m)) \<and> P (mem_fn E i a n v m)" for hs
    using that by (induction hs arbitrary: m) auto
  then show ?thesis
    using P_hooks m by (auto simp: no_mem_hooks_def)
qed

lemma P_guest: "keeps P (guest_page E k a n v)"
  unfolding keeps_def
proof (intro allI impI)
  fix m
  assume "P m"
  then have "P (snd (call_invalid E (m_invalid m) fk a n v False m))" for fk
    by (rule P_call_invalid)
  then show "P (snd (guest_page E k a n v m))"
    using \<open>P m\<close> by (auto simp: guest_page_def split: sum.splits prod.splits) (metis snd_conv)+
qed

lemmas P_prims = outside_eq_prims [THEN P_blind]

lemma P_read_slow: "keeps P (read_slow E a n)"
proof -
  have a: "keeps P (\<lambda>m. if m_rhooks m \<noteq> [] \<and> hooks_cover_page (m_rhooks m) (vpn_of a)
      then bnd (upd (call_mem_hooks E (m_rhooks m) a n 0)) (\<lambda>_.
        bnd (guest_page E MemRead a n 0) (\<lambda>q m2. (Inr (loadN m2 (page_data m2 q) (off_of a) n), m2))) m
      else (Inr (loadN m (page_data m p) (off_of a) n), set_rtlb (vpn_of a) (page_data m p) m))" for p
    unfolding keeps_def
  proof (intro allI impI)
    fix m
    assume m: "P m"
    have k: "keeps P (bnd (guest_page E MemRead a n 0) (\<lambda>q m2. (Inr (loadN m2 (page_data m2 q) (off_of a) n), m2)))"
      by (rule keeps_bnd [OF P_guest]) (simp add: keeps_def)
    have "P (call_mem_hooks E (m_rhooks m) a n 0 m)"
      using m by (rule P_call_mem) simp
    then show "P (snd (if m_rhooks m \<noteq> [] \<and> hooks_cover_page (m_rhooks m) (vpn_of a)
        then bnd (upd (call_mem_hooks E (m_rhooks m) a n 0)) (\<lambda>_.
          bnd (guest_page E MemRead a n 0) (\<lambda>q m2. (Inr (loadN m2 (page_data m2 q) (off_of a) n), m2))) m
        else (Inr (loadN m (page_data m p) (off_of a) n), set_rtlb (vpn_of a) (page_data m p) m)))"
      using keepsD [OF k] P_prims(1) m by (simp add: bnd_def [of "upd _"] upd_def)
  qed
  have b: "keeps P (\<lambda>m. upd (if m_rhooks m \<noteq> [] then call_mem_hooks E (m_rhooks m) a n 0 else (\<lambda>x. x)) m)"
    using P_call_mem by (auto simp: keeps_def upd_def)
  show ?thesis
    unfolding read_slow_def by (intro keeps_if keeps_bnd P_guest a b keeps_gets)
qed

lemma P_write_slow: "keeps P (write_slow E a n v)"
proof -
  have w: "keeps P (upd (\<lambda>m2. let m3 = writable (vpn_of a) q m2 in storeN (page_data m3 q) (off_of a) n v m3))"
    "keeps P (upd (\<lambda>m2. let m3 = writable (vpn_of a) q m2
        in storeN (page_data m3 q) (off_of a) n v (set_wtlb (vpn_of a) (page_data m3 q) m3)))" for q
    by (auto simp: keeps_def upd_def Let_def intro!: P_prims)
  have a: "keeps P (\<lambda>m. if m_whooks m \<noteq> [] \<and> hooks_cover_page (m_whooks m) (vpn_of a)
      then bnd (upd (call_mem_hooks E (m_whooks m) a n v)) (\<lambda>_.
        bnd (guest_page E MemWrite a n v) (\<lambda>q. upd (\<lambda>m2. let m3 = writable (vpn_of a) q m2
          in storeN (page_data m3 q) (off_of a) n v m3))) m
      else upd (\<lambda>m2. let m3 = writable (vpn_of a) p m2
        in storeN (page_data m3 p) (off_of a) n v (set_wtlb (vpn_of a) (page_data m3 p) m3)) m)" for p
    unfolding keeps_def
  proof (intro allI impI)
    fix m
    assume m: "P m"
    have k: "keeps P (bnd (guest_page E MemWrite a n v) (\<lambda>q. upd (\<lambda>m2. let m3 = writable (vpn_of a) q m2
          in storeN (page_data m3 q) (off_of a) n v m3)))"
      by (rule keeps_bnd [OF P_guest w(1)])
    have "P (call_mem_hooks E (m_whooks m) a n v m)"
      using m by (rule P_call_mem) simp
    then show "P (snd (if m_whooks m \<noteq> [] \<and> hooks_cover_page (m_whooks m) (vpn_of a)
      then bnd (upd (call_mem_hooks E (m_whooks m) a n v)) (\<lambda>_.
        bnd (guest_page E MemWrite a n v) (\<lambda>q. upd (\<lambda>m2. let m3 = writable (vpn_of a) q m2
          in storeN (page_data m3 q) (off_of a) n v m3))) m
      else upd (\<lambda>m2. let m3 = writable (vpn_of a) p m2
        in storeN (page_data m3 p) (off_of a) n v (set_wtlb (vpn_of a) (page_data m3 p) m3)) m))"
      using keepsD [OF k] keepsD [OF w(2) m] by (simp add: bnd_def [of "upd (call_mem_hooks _ _ _ _ _)"] upd_def)
  qed
  have b: "keeps P (\<lambda>m. upd (if m_whooks m \<noteq> [] then call_mem_hooks E (m_whooks m) a n v else (\<lambda>x. x)) m)"
    using P_call_mem by (auto simp: keeps_def upd_def)
  have c: "keeps P (upd (fold (\<lambda>k. cross_put (a + of_nat k) (ucast (drop_bit (8 * k) v))) [0..<n]))"
  proof (rule keeps_upd)
    fix m
    show "P m \<Longrightarrow> P (fold (\<lambda>k. cross_put (a + of_nat k) (ucast (drop_bit (8 * k) v))) [0..<n] m)"
      by (rule fold_invariant [where Q = "\<lambda>_. True"]) (auto intro: P_prims)
  qed
  show ?thesis
    unfolding write_slow_def by (intro keeps_if keeps_bnd P_guest a b c)
qed

lemma P_readN: "keeps P (readN E a n)"
proof -
  have "keeps P (tlb_read E k a)" for k
    using keepsD [OF P_read_slow] by (auto simp: keeps_def tlb_read_def Let_def)
  then show ?thesis by (simp add: readN_def read8_def read16_def read32_def read64_def)
qed

lemma P_writeN: "keeps P (writeN E a n v)"
proof -
  have "keeps P (tlb_write E k a w)" for k w
    using keepsD [OF P_write_slow] P_prims(5) by (auto simp: keeps_def tlb_write_def Let_def)
  then show ?thesis by (simp add: writeN_def write8_def write16_def write32_def write64_def)
qed

lemmas P_memory = P_guest P_read_slow P_write_slow P_readN P_writeN

end

end
