(* ===== verification/Cpu_Regs.thy ===== *)
theory Cpu_Regs
  imports Mem_Blind
begin

text \<open>
  The zero register: \<open>R[31]\<close> is read as XZR without a test, so it must stay 0. Decoding never
  names slot 31 as a destination (XZR is remapped to the sink, SP to slot 32), and no instruction
  so decoded writes it.
\<close>

subsection \<open>Decoded destinations\<close>

definition safe_dests :: "inst \<Rightarrow> bool" where
  "safe_dests i \<longleftrightarrow> (\<forall>h. i_fn i = Some h \<longrightarrow> (\<forall>r \<in> dests h i. r \<noteq> rZR))"

lemma masked31: "unat ((n :: u32) AND 31) < 32"
proof -
  have "(31 :: u32) = mask 5" by (simp add: mask_eq_exp_minus_1)
  then show ?thesis
    by (simp only: take_bit_eq_mask [symmetric] unsigned_take_bit_eq) (simp add: take_bit_eq_mod)
qed

lemma ucast_31: "ucast (n AND 31 :: u32) = (31 :: u8) \<longleftrightarrow> n AND 31 = 31"
proof
  assume "ucast (n AND 31) = (31 :: u8)"
  then have "unat (ucast (n AND 31) :: u8) = 31" by simp
  moreover have "unat (ucast (n AND 31) :: u8) = unat (n AND 31)"
    using masked31 [of n] by (simp add: unsigned_ucast_eq take_bit_nat_eq_self)
  ultimately show "n AND 31 = 31"
    by (simp add: word_unat_eq_iff)
qed simp

lemma reg_not_zr [simp]: "xw n \<noteq> 31" "xsp n \<noteq> 31"
  by (simp_all add: xw_def xsp_def ucast_31)

lemma inst0_fields [simp]:
  "i_rd inst0 = 0" "i_rn inst0 = 0" "i_rm inst0 = 0" "i_ra inst0 = 0" "i_cond inst0 = 0" "i_sh inst0 = 0"
  by (simp_all add: inst0_def)

text \<open>The decoders are trees of conditionals, and only the leaves matter.\<close>

lemma safe_if: "safe_dests x \<Longrightarrow> safe_dests y \<Longrightarrow> safe_dests (if b then x else y)"
  by simp

lemma safe_option: "safe_dests x \<Longrightarrow> (\<And>v. safe_dests (f v)) \<Longrightarrow> safe_dests (case q of None \<Rightarrow> x | Some v \<Rightarrow> f v)"
  by (cases q) simp_all

lemma safe_pair: "(\<And>a b. safe_dests (f a b)) \<Longrightarrow> safe_dests (case q of (a, b) \<Rightarrow> f a b)"
  by (cases q) simp

lemmas safe_tree = safe_if safe_option safe_pair

lemma safe_None: "i_fn i = None \<Longrightarrow> safe_dests i"
  by (simp add: safe_dests_def)

lemma safe_rd:
  "i_fn i = Some (HImm h1) \<Longrightarrow> i_rd i \<noteq> rZR \<Longrightarrow> safe_dests i"
  "i_fn i = Some (HLogic h2) \<Longrightarrow> i_rd i \<noteq> rZR \<Longrightarrow> safe_dests i"
  "i_fn i = Some (HAddSub h3) \<Longrightarrow> i_rd i \<noteq> rZR \<Longrightarrow> safe_dests i"
  "i_fn i = Some (HDp h4) \<Longrightarrow> i_rd i \<noteq> rZR \<Longrightarrow> safe_dests i"
  "i_fn i = Some (HCond h5) \<Longrightarrow> i_rd i \<noteq> rZR \<Longrightarrow> safe_dests i"
  "i_fn i = Some (HSys h6) \<Longrightarrow> i_rd i \<noteq> rZR \<Longrightarrow> safe_dests i"
  "i_fn i = Some (HBranch h7) \<Longrightarrow> safe_dests i"
  by (auto simp: safe_dests_def split: if_splits)

lemma if_not_zr: "a \<noteq> rZR \<Longrightarrow> b \<noteq> rZR \<Longrightarrow> (if q then a else b) \<noteq> rZR"
  by simp

lemmas leaf_simps = safe_None safe_rd if_not_zr

lemma safe_bfm:
  "i_rd i \<noteq> rZR \<Longrightarrow> safe_dests (i\<lparr>i_fn := pick4x2 sf sel (Some (HImm a)) (Some (HImm b)) (Some (HImm c)) None
     (Some (HImm a')) (Some (HImm b')) (Some (HImm c')) None\<rparr>)"
proof -
  have "unat (sel AND 3) < 4"
  proof -
    have "(3 :: u32) = mask 2" by (simp add: mask_eq_exp_minus_1)
    then show ?thesis
      by (simp only: take_bit_eq_mask [symmetric] unsigned_take_bit_eq) (simp add: take_bit_eq_mod)
  qed
  then have "unat (sel AND 3) = 0 \<or> unat (sel AND 3) = 1 \<or> unat (sel AND 3) = 2 \<or> unat (sel AND 3) = 3"
    by linarith
  then show "i_rd i \<noteq> rZR \<Longrightarrow> ?thesis"
    by (elim disjE) (auto simp: pick4x2_def safe_dests_def)
qed

lemma safe_DPImm: "safe_dests (decodeDPImm inst0 raw pc)"
  unfolding decodeDPImm_def Let_def
  by (intro safe_tree; (rule safe_bfm, simp)?; simp add: leaf_simps)

lemma safe_DPReg: "safe_dests (decodeDPReg inst0 raw)"
  unfolding decodeDPReg_def decodeDPReg0_def decodeDPReg1_def decodeDP1_def decodeDP2_def Let_def
  by (intro safe_tree; simp add: leaf_simps)

lemma safe_branch_pick:
  "safe_dests (i\<lparr>i_fn := pick4x2 sf sel (Some (HBranch a)) (Some (HBranch b)) None None
     (Some (HBranch c)) (Some (HBranch d)) None None\<rparr>)"
proof -
  have "unat (sel AND 3) < 4"
  proof -
    have "(3 :: u32) = mask 2" by (simp add: mask_eq_exp_minus_1)
    then show ?thesis
      by (simp only: take_bit_eq_mask [symmetric] unsigned_take_bit_eq) (simp add: take_bit_eq_mod)
  qed
  then have "unat (sel AND 3) = 0 \<or> unat (sel AND 3) = 1 \<or> unat (sel AND 3) = 2 \<or> unat (sel AND 3) = 3"
    by linarith
  then show ?thesis
    by (elim disjE) (auto simp: pick4x2_def safe_dests_def)
qed

lemma safe_BranchSys: "safe_dests (decodeBranchSys inst0 raw pc)"
  unfolding decodeBranchSys_def decodeException_def decodeBranchReg_def decodeSystem_def Let_def
  by (intro safe_tree; (rule safe_branch_pick)?; simp add: leaf_simps)

lemma safe_setLdSt:
  assumes rn: "i_rn i \<noteq> rZR" and c: "i_cond i \<in> {modeOff, modePre, modePost, modeReg}"
  shows "safe_dests (setLdSt i raw vec load)"
proof -
  consider "i_cond i = modeOff" | "i_cond i = modePre" | "i_cond i = modePost" | "i_cond i = modeReg"
    using c by auto
  then show ?thesis
    using rn
    by cases (cases vec; cases load;
      auto simp: setLdSt_def Let_def safe_dests_def hotLdSt_def hotLdStReg_def split: option.splits if_splits)+
qed

lemma safe_finish:
  "i_rn i \<noteq> rZR \<Longrightarrow> i_cond i \<in> {modeOff, modePre, modePost, modeReg} \<Longrightarrow> i_rd i \<noteq> rZR \<Longrightarrow>
   safe_dests (finish_ldst i raw vec load prfm)"
  by (auto simp: finish_ldst_def intro: safe_setLdSt safe_rd)

lemma safe_RegForm: "safe_dests (decodeRegForm inst0 raw)"
  unfolding decodeRegForm_def Let_def
  by (intro safe_tree safe_finish; simp add: safe_None)

lemma safe_UnsignedImm: "safe_dests (decodeUnsignedImm inst0 raw)"
  unfolding decodeUnsignedImm_def Let_def
  by (intro safe_tree safe_finish; simp add: safe_None)

lemma safe_literal:
  "i_fn i = Some (HLdSt OpVLoadOff) \<Longrightarrow> safe_dests i"
  "i_fn i = Some (HLdSt OpLoadOff) \<Longrightarrow> i_rd i \<noteq> rZR \<Longrightarrow> safe_dests i"
  "i_fn i = Some (HLdSt OpStoreOff) \<Longrightarrow> safe_dests i"
  "i_fn i = Some (HLdSt OpLdxr) \<Longrightarrow> i_rd i \<noteq> rZR \<Longrightarrow> safe_dests i"
  "i_fn i = Some (HLdSt OpLdxp) \<Longrightarrow> i_rd i \<noteq> rZR \<Longrightarrow> i_rm i \<noteq> rZR \<Longrightarrow> safe_dests i"
  "i_fn i = Some (HLdSt OpStxr) \<Longrightarrow> i_ra i \<noteq> rZR \<Longrightarrow> safe_dests i"
  "i_fn i = Some (HLdSt OpStxp) \<Longrightarrow> i_ra i \<noteq> rZR \<Longrightarrow> safe_dests i"
  "i_fn i = Some (HLdSt OpCas) \<Longrightarrow> i_ra i \<noteq> rZR \<Longrightarrow> safe_dests i"
  "i_fn i = Some (HLdSt OpLdAtomic) \<Longrightarrow> i_rd i \<noteq> rZR \<Longrightarrow> safe_dests i"
  "i_fn i = Some (HLdSt OpSwp) \<Longrightarrow> i_rd i \<noteq> rZR \<Longrightarrow> safe_dests i"
  "i_fn i = Some (HLdSt (if b then OpSIMDLoadMulti else OpSIMDStoreMulti)) \<Longrightarrow> i_rn i \<noteq> rZR \<Longrightarrow> safe_dests i"
  by (auto simp: safe_dests_def)

lemma safe_Literal: "safe_dests (decodeLiteral inst0 raw pc)"
  unfolding decodeLiteral_def Let_def
  by (intro safe_tree; simp add: leaf_simps safe_literal)

lemma safe_Exclusive: "safe_dests (decodeExclusive inst0 raw)"
  unfolding decodeExclusive_def Let_def
  by (intro safe_tree; simp add: leaf_simps safe_literal)

lemma safe_Atomic: "safe_dests (decodeAtomic inst0 raw)"
  unfolding decodeAtomic_def Let_def
  by (intro safe_tree; simp add: leaf_simps safe_literal)

lemma safe_SIMDMulti: "safe_dests (decodeSIMDMulti inst0 raw)"
  unfolding decodeSIMDMulti_def Let_def
  by (intro safe_tree; simp add: leaf_simps safe_literal)

lemma safe_Pair: "safe_dests (decodePair inst0 raw)"
  unfolding decodePair_def Let_def
  by (intro safe_tree; simp add: safe_None; simp add: safe_dests_def)

lemma safe_LdSt: "safe_dests (decodeLdSt inst0 raw pc)"
  unfolding decodeLdSt_def
  by (intro safe_tree safe_Exclusive safe_Literal safe_Pair safe_Atomic safe_RegForm safe_UnsignedImm
      safe_SIMDMulti) (simp add: safe_None)

text \<open>What the vector decoder must promise: its handlers are vector handlers.\<close>

definition simd_only :: "(inst \<Rightarrow> u32 \<Rightarrow> inst) \<Rightarrow> bool" where
  "simd_only simd \<longleftrightarrow> (\<forall>raw. i_fn (simd inst0 raw) = None \<or> (\<exists>n. i_fn (simd inst0 raw) = Some (HSimd n)))"

lemma safe_decode: "simd_only simd \<Longrightarrow> safe_dests (decode simd inst0 raw pc)"
proof -
  assume s: "simd_only simd"
  then have "safe_dests (simd inst0 raw)"
    unfolding simd_only_def safe_dests_def by (metis dests.simps(10) empty_iff option.distinct(1) option.inject)
  then show ?thesis
    unfolding decode_def Let_def
    by (intro safe_tree safe_DPImm safe_BranchSys safe_LdSt safe_DPReg) (simp_all add: safe_None)
qed

lemma safe_decodeAt: "simd_only simd \<Longrightarrow> safe_dests (decodeAt simd raw pc)"
proof -
  assume "simd_only simd"
  then have "safe_dests (decode simd inst0 raw pc)" by (rule safe_decode)
  moreover have "safe_dests (j\<lparr>i_fn := Some (HSys OpUndef)\<rparr>)" for j
    by (simp add: safe_dests_def)
  ultimately show ?thesis by (simp add: decodeAt_def Let_def)
qed

subsection \<open>Execution\<close>

abbreviation zr_zero :: "'a cpu_scheme \<Rightarrow> bool" where
  "zr_zero c \<equiv> c_R c rZR = 0"

text \<open>Hooks and vector handlers must not write slot 31 (they go through \<open>SetX\<close> and decoded operands).\<close>

definition zr_env_ok :: "'a cpu_env \<Rightarrow> bool" where
  "zr_env_ok E \<longleftrightarrow>
     (\<forall>i fk a n v c. zr_zero c \<longrightarrow> zr_zero (snd (inv_fn E i fk a n v c)) \<and> zr_zero (mem_fn E i a n v c)) \<and>
     (\<forall>h k c. zr_zero c \<longrightarrow> zr_zero (intr_fn E h k c))"

lemma outside_eq_R: "outside_eq c c' \<Longrightarrow> c_R c' = c_R (c :: 'a cpu_scheme)"
  using more_fields(1) [of c' c] by (simp add: outside_eq_def)

interpretation zm: mem_blind E "\<lambda>c. zr_env_ok E \<longrightarrow> zr_zero c"
proof unfold_locales
  show "(\<forall>m. (zr_env_ok E \<longrightarrow> zr_zero m) \<longrightarrow> no_mem_hooks m) \<or>
    (\<forall>i fk a n v m. (zr_env_ok E \<longrightarrow> zr_zero m) \<longrightarrow>
      (zr_env_ok E \<longrightarrow> zr_zero (snd (inv_fn E i fk a n v m))) \<and> (zr_env_ok E \<longrightarrow> zr_zero (mem_fn E i a n v m)))"
    by (rule disjI2) (auto simp: zr_env_ok_def)
qed (simp add: outside_eq_R)

lemma raise_zr: "zr_env_ok E \<Longrightarrow> zr_zero c \<Longrightarrow> zr_zero (snd (raise_exc E k c))"
proof -
  assume E: "zr_env_ok E" and c: "zr_zero c"
  have "zr_zero (fold (\<lambda>h. intr_fn E h k) hs c)" for hs
    using c E by (induction hs arbitrary: c) (auto simp: zr_env_ok_def)
  then show ?thesis using c by (simp add: raise_exc_def Let_def)
qed

interpretation zr: step_inv E "\<lambda>c. zr_env_ok E \<longrightarrow> zr_zero c" "\<lambda>r. r \<noteq> rZR"
  "\<lambda>n i. keeps (\<lambda>c. zr_env_ok E \<longrightarrow> zr_zero c) (simd_fn E n i)"
proof unfold_locales
  show "keeps (\<lambda>c. zr_env_ok E \<longrightarrow> zr_zero c) (raise_exc E k)" for k
    using raise_zr by (auto simp: keeps_def)
qed (auto simp: state_defs msr_def storeN_def arr_put_def intro: zm.P_memory)

lemma zr_step:
  assumes "zr_env_ok E" "simd_only simd" and i: "i = decodeAt simd raw pc" "i_fn i = Some h"
    and v: "\<forall>n. h = HSimd n \<longrightarrow> keeps zr_zero (simd_fn E n i)"
  shows "keeps zr_zero (exec_fn E h i)"
proof -
  have "keeps (\<lambda>c. zr_env_ok E \<longrightarrow> zr_zero c) (exec_fn E h i)"
  proof (rule zr.P_exec)
    show "\<forall>r \<in> dests h i. r \<noteq> rZR"
      using safe_decodeAt [OF assms(2), of raw pc] i by (simp add: safe_dests_def)
    show "keeps (\<lambda>c. zr_env_ok E \<longrightarrow> zr_zero c) (simd_fn E n i)" if "h = HSimd n" for n
      using v that by (auto simp: keeps_def)
  qed
  with assms(1) show ?thesis by (simp add: keeps_def)
qed

end
