(* ===== verification/Cpu_Flags.thy ===== *)
theory Cpu_Flags
  imports Cpu_Fetch
begin

text \<open>
  The arithmetic of the CPU against its mathematical meaning: the NZCV flags of additions and
  logical operations, the condition table, sign extension, rotation, high products, division and
  the bit-reversal instructions.
\<close>

subsection \<open>Words as numbers\<close>

lemma sint_top:
  fixes w :: "'a::len word"
  shows "sint w = int (unat w) - 2 ^ LENGTH('a) * of_bool (bit w (LENGTH('a) - 1))"
proof -
  have "sint w = signed_take_bit (LENGTH('a) - 1) (uint w)"
    by (simp add: sint_uint)
  also have "\<dots> = take_bit LENGTH('a) (uint w) - 2 ^ LENGTH('a) * of_bool (bit w (LENGTH('a) - 1))"
    by (simp add: signed_take_bit_eq_take_bit_minus bit_uint_iff)
  also have "take_bit LENGTH('a) (uint w) = uint w"
    by transfer simp
  finally show ?thesis by simp
qed

lemma top_bit_iff:
  fixes w :: "'a::len word"
  shows "bit w (LENGTH('a) - 1) \<longleftrightarrow> 2 ^ (LENGTH('a) - 1) \<le> unat w"
proof -
  have p: "(2 :: int) ^ LENGTH('a) = 2 * 2 ^ (LENGTH('a) - 1)"
    by (metis One_nat_def Suc_pred len_gt_0 power_Suc)
  have "int (2 ^ (LENGTH('a) - 1)) \<le> int (unat w) \<longleftrightarrow> bit w (LENGTH('a) - 1)"
    using sint_top [of w] sint_less [of w] sint_greater_eq [of w] p
    by (cases "bit w (LENGTH('a) - 1)") simp_all
  then show ?thesis
    by (simp only: of_nat_le_iff)
qed

lemmas top64 = top_bit_iff [where 'a = 64, simplified] sint_top [where 'a = 64, simplified]
lemmas top32 = top_bit_iff [where 'a = 32, simplified] sint_top [where 'a = 32, simplified]

lemma unat_lt64: "unat (w :: u64) < 2 ^ 64" and unat_lt32: "unat (x :: u32) < 2 ^ 32"
  using unsigned_less [where w = w and 'a = nat] unsigned_less [where w = x and 'a = nat] by simp_all

lemma unat_add64: "unat (x + y :: u64) = (if unat x + unat y < 2 ^ 64 then unat x + unat y else unat x + unat y - 2 ^ 64)"
  using unat_lt64 [of x] unat_lt64 [of y] by (simp add: unat_word_ariths mod_if)

lemma unat_add32: "unat (x + y :: u32) = (if unat x + unat y < 2 ^ 32 then unat x + unat y else unat x + unat y - 2 ^ 32)"
  using unat_lt32 [of x] unat_lt32 [of y] by (simp add: unat_word_ariths mod_if)

text \<open>The same over \<open>uint\<close>, as the overflow argument uses it.\<close>

lemma top_uint64: "bit (w :: u64) 63 \<longleftrightarrow> 2 ^ 63 \<le> uint w"
  "sint w = uint w - 2 * 2 ^ 63 * of_bool (2 ^ 63 \<le> uint w)"
proof -
  show 1: "bit w 63 \<longleftrightarrow> 2 ^ 63 \<le> uint w"
    unfolding top64(1) uint_nat by (simp del: of_nat_unat)
  show "sint w = uint w - 2 * 2 ^ 63 * of_bool (2 ^ 63 \<le> uint w)"
    unfolding top64(2) uint_nat 1 [unfolded uint_nat] by (simp del: of_nat_unat)
qed

lemma top_uint32: "bit (w :: u32) 31 \<longleftrightarrow> 2 ^ 31 \<le> uint w"
  "sint w = uint w - 2 * 2 ^ 31 * of_bool (2 ^ 31 \<le> uint w)"
proof -
  show 1: "bit w 31 \<longleftrightarrow> 2 ^ 31 \<le> uint w"
    unfolding top32(1) uint_nat by (simp del: of_nat_unat)
  show "sint w = uint w - 2 * 2 ^ 31 * of_bool (2 ^ 31 \<le> uint w)"
    unfolding top32(2) uint_nat 1 [unfolded uint_nat] by (simp del: of_nat_unat)
qed

subsection \<open>Flags of an addition\<close>

definition add_carries :: "u64 \<Rightarrow> u64 \<Rightarrow> u64 \<Rightarrow> bool" where
  "add_carries a b cin \<longleftrightarrow> 2 ^ 64 \<le> unat a + unat b + unat cin"

definition add_overflows :: "u64 \<Rightarrow> u64 \<Rightarrow> u64 \<Rightarrow> bool" where
  "add_overflows a b cin \<longleftrightarrow> sint (a + b + cin) \<noteq> sint a + sint b + uint cin"

lemma bit63: "bit (drop_bit 63 w AND 1) k \<longleftrightarrow> k = 0 \<and> bit (w :: u64) 63"
  by (auto simp: bit_simps bit_1_iff)

lemma drop63: "drop_bit 63 (w :: u64) = of_bool (bit w 63)"
proof (rule bit_word_eqI)
  fix i :: nat
  show "bit (drop_bit 63 w) i = bit (of_bool (bit w 63) :: u64) i"
    using bit_imp_le_length [of w "63 + i"]
    by (cases i) (auto simp: bit_drop_bit_eq bit_1_iff bit_of_bool_iff)
qed

lemma unat_sum64:
  assumes "unat cin \<le> 1"
  shows "unat (a + b + cin :: u64) = (if unat a + unat b + unat cin < 2 ^ 64 then unat a + unat b + unat cin
    else unat a + unat b + unat cin - 2 ^ 64)"
  using unat_lt64 [of a] unat_lt64 [of b] assms unat_add64 [of a b] unat_add64 [of "a + b" cin]
  by (auto split: if_splits)

lemma add64_carry:
  assumes "unat cin \<le> 1"
  shows "add64 a b cin = (a + b + cin, of_bool (add_carries a b cin))"
proof -
  let ?s = "a + b + cin"
  have "bit ((a AND b) OR ((a OR b) AND NOT ?s)) 63 \<longleftrightarrow>
      bit a 63 \<and> bit b 63 \<or> (bit a 63 \<or> bit b 63) \<and> \<not> bit ?s 63"
    by (simp add: bit_simps)
  also have "\<dots> \<longleftrightarrow> add_carries a b cin"
    using unat_sum64 [OF assms, of a b] unat_lt64 [of a] unat_lt64 [of b] unat_lt64 [of ?s] assms
    by (auto simp: top64(1) add_carries_def split: if_splits)
  finally show ?thesis
    by (simp only: add64_def Let_def drop63)
qed

lemma overflow_arith:
  fixes X Y C S M :: int
  assumes "0 \<le> X" "X < 2 * M" "0 \<le> Y" "Y < 2 * M" "0 \<le> C" "C \<le> 1"
    and "S = (if X + Y + C < 2 * M then X + Y + C else X + Y + C - 2 * M)"
  shows "(M \<le> X) \<noteq> (M \<le> S) \<and> (M \<le> Y) \<noteq> (M \<le> S) \<longleftrightarrow>
    S - 2 * M * of_bool (M \<le> S) \<noteq> (X - 2 * M * of_bool (M \<le> X)) + (Y - 2 * M * of_bool (M \<le> Y)) + C"
  using assms by (auto simp: of_bool_def)

lemma add64_overflow:
  assumes "unat cin \<le> 1"
  shows "bit ((a XOR (a + b + cin)) AND (b XOR (a + b + cin))) 63 \<longleftrightarrow> add_overflows a b cin"
proof -
  let ?s = "a + b + cin"
  have "bit ((a XOR ?s) AND (b XOR ?s)) 63 \<longleftrightarrow> bit a 63 \<noteq> bit ?s 63 \<and> bit b 63 \<noteq> bit ?s 63"
    by (simp add: bit_simps)
  also have "\<dots> \<longleftrightarrow> add_overflows a b cin"
    unfolding add_overflows_def top_uint64
  proof (rule overflow_arith)
    show "uint ?s = (if uint a + uint b + uint cin < 2 * 2 ^ 63 then uint a + uint b + uint cin
        else uint a + uint b + uint cin - 2 * 2 ^ 63)"
      unfolding uint_nat unat_sum64 [OF assms, of a b] by (simp add: of_nat_diff del: of_nat_unat)
    show "uint cin \<le> 1"
      using assms unfolding uint_nat by (simp del: of_nat_unat)
  qed (use unat_lt64 in \<open>simp_all add: uint_nat del: of_nat_unat\<close>)
  finally show ?thesis .
qed

definition nzcv :: "bool \<Rightarrow> bool \<Rightarrow> bool \<Rightarrow> bool \<Rightarrow> u32" where
  "nzcv n z c v = push_bit 31 (of_bool n) OR push_bit 30 (of_bool z) OR push_bit 29 (of_bool c)
     OR push_bit 28 (of_bool v)"

lemma flag_assemble:
  "(if z then (push_bit 31 (of_bool n) OR push_bit 29 (of_bool c) OR push_bit 28 (of_bool v)) OR flagZ
    else push_bit 31 (of_bool n) OR push_bit 29 (of_bool c) OR push_bit 28 (of_bool v)) = nzcv n z c v"
  by (cases n; cases z; cases c; cases v) (simp_all add: nzcv_def)

lemma ucast_of_bool: "ucast (of_bool b :: u64) = (of_bool b :: u32)"
  by (cases b) simp_all

lemma sint_neg64: "bit (w :: u64) 63 \<longleftrightarrow> sint w < 0"
  using bit_last_iff [of w] by simp

lemma addFlags64_correct:
  assumes "unat cin \<le> 1"
  shows "addFlags64 a b cin =
    (a + b + cin, nzcv (sint (a + b + cin) < 0) (a + b + cin = 0) (add_carries a b cin) (add_overflows a b cin))"
  by (simp only: addFlags64_def add64_carry [OF assms] Let_def prod.case drop63 add64_overflow [OF assms, unfolded sint_neg64]
      ucast_of_bool flag_assemble sint_neg64 prod.inject simp_thms)

text \<open>The 32-bit additions, through their 64-bit sum.\<close>

definition add_carries32 :: "u32 \<Rightarrow> u32 \<Rightarrow> u32 \<Rightarrow> bool" where
  "add_carries32 a b cin \<longleftrightarrow> 2 ^ 32 \<le> unat a + unat b + unat cin"

definition add_overflows32 :: "u32 \<Rightarrow> u32 \<Rightarrow> u32 \<Rightarrow> bool" where
  "add_overflows32 a b cin \<longleftrightarrow> sint (a + b + cin) \<noteq> sint a + sint b + uint cin"

lemma drop31: "drop_bit 31 (w :: u32) = of_bool (bit w 31)"
proof (rule bit_word_eqI)
  fix i :: nat
  show "bit (drop_bit 31 w) i = bit (of_bool (bit w 31) :: u32) i"
    using bit_imp_le_length [of w "31 + i"]
    by (cases i) (auto simp: bit_drop_bit_eq bit_1_iff bit_of_bool_iff)
qed

lemma unat_sum32:
  assumes "unat cin \<le> 1"
  shows "unat (a + b + cin :: u32) = (if unat a + unat b + unat cin < 2 ^ 32 then unat a + unat b + unat cin
    else unat a + unat b + unat cin - 2 ^ 32)"
  using unat_lt32 [of a] unat_lt32 [of b] assms unat_add32 [of a b] unat_add32 [of "a + b" cin]
  by (auto split: if_splits)

lemma add32_carry:
  assumes "unat cin \<le> 1"
  shows "add32 a b cin = (a + b + cin, of_bool (add_carries32 a b cin))"
proof -
  let ?s = "(ucast a :: u64) + ucast b + ucast cin"
  have u: "unat ?s = unat a + unat b + unat cin"
    using unat_lt32 [of a] unat_lt32 [of b] assms
    by (simp add: unat_word_ariths unsigned_ucast_eq take_bit_nat_eq_self)
  have "unat (ucast ?s :: u32) = unat (a + b + cin)"
    by (simp add: unsigned_ucast_eq u unat_word_ariths mod_simps take_bit_eq_mod mod_mod_cancel)
  then have 1: "ucast ?s = a + b + cin"
    by (simp only: word_unat_eq_iff)
  have "unat (drop_bit 32 ?s) = (if add_carries32 a b cin then 1 else 0)"
    using unat_lt32 [of a] unat_lt32 [of b] assms
    by (simp only: unat_drop_bit_eq u) (auto simp: drop_bit_eq_div add_carries32_def div_if)
  then have "drop_bit 32 ?s = of_bool (add_carries32 a b cin)"
    by (simp add: word_unat_eq_iff)
  with 1 show ?thesis
    by (simp add: add32_def Let_def)
qed

lemma add32_overflow:
  assumes "unat cin \<le> 1"
  shows "bit ((a XOR (a + b + cin)) AND (b XOR (a + b + cin))) 31 \<longleftrightarrow> add_overflows32 a b cin"
proof -
  let ?s = "a + b + cin"
  have "bit ((a XOR ?s) AND (b XOR ?s)) 31 \<longleftrightarrow> bit a 31 \<noteq> bit ?s 31 \<and> bit b 31 \<noteq> bit ?s 31"
    by (simp add: bit_simps)
  also have "\<dots> \<longleftrightarrow> add_overflows32 a b cin"
    unfolding add_overflows32_def top_uint32
  proof (rule overflow_arith)
    show "uint ?s = (if uint a + uint b + uint cin < 2 * 2 ^ 31 then uint a + uint b + uint cin
        else uint a + uint b + uint cin - 2 * 2 ^ 31)"
      unfolding uint_nat unat_sum32 [OF assms, of a b] by (simp add: of_nat_diff del: of_nat_unat)
    show "uint cin \<le> 1"
      using assms unfolding uint_nat by (simp del: of_nat_unat)
  qed (use unat_lt32 in \<open>simp_all add: uint_nat del: of_nat_unat\<close>)
  finally show ?thesis .
qed

lemma sint_neg32: "bit (w :: u32) 31 \<longleftrightarrow> sint w < 0"
  using bit_last_iff [of w] by simp

lemma addFlags32_correct:
  assumes "unat cin \<le> 1"
  shows "addFlags32 a b cin =
    (a + b + cin, nzcv (sint (a + b + cin) < 0) (a + b + cin = 0) (add_carries32 a b cin) (add_overflows32 a b cin))"
  by (simp only: addFlags32_def add32_carry [OF assms] Let_def prod.case drop31 add32_overflow [OF assms, unfolded sint_neg32]
      flag_assemble sint_neg32 prod.inject simp_thms)

lemma logicFlags_correct:
  "logicFlags64 r = nzcv (sint r < 0) (r = 0) False False"
  "logicFlags32 q = nzcv (sint q < 0) (q = 0) False False"
  by (simp_all add: logicFlags64_def logicFlags32_def drop63 drop31 Let_def nzcv_def sint_neg64 [symmetric]
      sint_neg32 [symmetric])

text \<open>A subtraction is the addition of the complement with carry in: its flags compare.\<close>

lemma sub_add_not: "(a :: 'a::len word) + NOT b + 1 = a - b"
  by (simp add: not_eq_complement)

lemma cmp_flags64:
  "addFlags64 a (NOT b) 1 = (a - b, nzcv (sint (a - b) < 0) (a = b) (b \<le> a) (sint (a - b) \<noteq> sint a - sint b))"
proof -
  have "NOT b = - 1 - b"
    by (simp add: not_eq_complement)
  then have "unat (NOT b) = 2 ^ 64 - 1 - unat b"
    by (simp add: unat_sub unsigned_minus_1_eq_mask mask_eq_exp_minus_1)
  then have c: "add_carries a (NOT b) 1 \<longleftrightarrow> b \<le> a"
    using unat_lt64 [of a] unat_lt64 [of b]
    by (simp add: add_carries_def word_le_nat_alt) linarith
  have "sint (NOT b) = - sint b - 1"
  proof -
    have "sint (NOT b) = signed_take_bit 64 (NOT (sint b))"
      by (subst signed_not_eq) simp
    also have "\<dots> = NOT (sint b)"
      using sint_greater_eq [of b] sint_less [of b]
      by (intro signed_take_bit_int_eq_self) (simp_all add: not_int_def)
    finally show ?thesis by (simp add: not_int_def)
  qed
  then have v: "add_overflows a (NOT b) 1 \<longleftrightarrow> sint (a - b) \<noteq> sint a - sint b"
    by (simp add: add_overflows_def sub_add_not)
  show ?thesis
    using addFlags64_correct [of 1 a "NOT b"] by (simp add: sub_add_not c v)
qed

subsection \<open>Conditions\<close>

text \<open>ConditionHolds of the architecture: the base condition, inverted for odd codes but AL.\<close>

definition condition_holds :: "u8 \<Rightarrow> u32 \<Rightarrow> bool" where
  "condition_holds cc f =
     (let n = bit f 31; z = bit f 30; cf = bit f 29; v = bit f 28; k = unat (cc AND 15) div 2;
          base = (if k = 0 then z else if k = 1 then cf else if k = 2 then n else if k = 3 then v
                  else if k = 4 then cf \<and> \<not> z else if k = 5 then n = v
                  else if k = 6 then n = v \<and> \<not> z else True)
      in if odd (unat (cc AND 15)) \<and> unat (cc AND 15) \<noteq> 15 then \<not> base else base)"

lemma fold_or_bit:
  "bit (fold (\<lambda>f t. if P f then t OR push_bit f 1 else t) fs (t :: u16)) k \<longleftrightarrow>
     bit t k \<or> (k \<in> set fs \<and> P k \<and> k < 16)"
  by (induction fs arbitrary: t) (auto simp: bit_simps bit_1_iff)

lemma condTab_bit: "k < 16 \<Longrightarrow> bit (condTab cc) k \<longleftrightarrow> cond_entry k cc"
  by (simp add: condTab_def fold_or_bit)

lemma and_one_bit: "w AND 1 \<noteq> 0 \<longleftrightarrow> bit (w :: 'a::len word) 0"
  by (auto simp: bit_0 and_one_eq odd_iff_mod_2_eq_one)

lemma cond_correct: "cond cc c \<longleftrightarrow> condition_holds cc (c_NZCV c)"
proof -
  let ?f = "drop_bit 28 (c_NZCV c)"
  have "unat (c_NZCV c) < 2 ^ 32" by (rule unat_lt32)
  then have f: "unat ?f < 16"
    by (simp only: unat_drop_bit_eq) (simp add: drop_bit_eq_div less_mult_imp_div_less)
  have b: "bit (unat ?f) k \<longleftrightarrow> bit (c_NZCV c) (28 + k)" for k
    by (simp add: bit_unsigned_iff bit_drop_bit_eq)
  have cc: "unat (cc AND 15) < 16"
  proof -
    have "(15 :: u8) = mask 4" by (simp add: mask_eq_exp_minus_1)
    then show ?thesis
      by (simp only: take_bit_eq_mask [symmetric] unsigned_take_bit_eq) (simp add: take_bit_eq_mod)
  qed
  have e: "cond_entry (unat ?f) (unat (cc AND 15)) \<longleftrightarrow> condition_holds cc (c_NZCV c)"
  proof -
    define k where "k = unat (cc AND 15)"
    have k: "k < 16" using cc by (simp add: k_def)
    then have "k = 0 \<or> k = 1 \<or> k = 2 \<or> k = 3 \<or> k = 4 \<or> k = 5 \<or> k = 6 \<or> k = 7 \<or> k = 8 \<or> k = 9 \<or>
        k = 10 \<or> k = 11 \<or> k = 12 \<or> k = 13 \<or> k = 14 \<or> k = 15"
      by presburger
    then show ?thesis
      unfolding cond_entry_def condition_holds_def Let_def k_def [symmetric] b by (elim disjE) auto
  qed
  have "cond cc c \<longleftrightarrow> bit (condTab (unat (cc AND 15))) (unat ?f)"
    by (simp only: cond_def and_one_bit bit_drop_bit_eq o_def add_0_right)
  then show ?thesis
    using condTab_bit [OF f] e by simp
qed

text \<open>After a comparison the signed and unsigned conditions mean what their names say.\<close>

lemma nzcv_bits:
  "bit (nzcv n z c v) 31 = n" "bit (nzcv n z c v) 30 = z" "bit (nzcv n z c v) 29 = c" "bit (nzcv n z c v) 28 = v"
  by (cases n; cases z; cases c; cases v; simp add: nzcv_def bit_simps)+

lemma compare_arith:
  fixes A B S M :: int
  assumes "0 \<le> A" "A < 2 * M" "0 \<le> B" "B < 2 * M"
    and "S = (if B \<le> A then A - B else A - B + 2 * M)"
    and "a = A - 2 * M * of_bool (M \<le> A)" "b = B - 2 * M * of_bool (M \<le> B)" "s = S - 2 * M * of_bool (M \<le> S)"
  shows "(s < 0) = (s \<noteq> a - b) \<longleftrightarrow> b \<le> a"
  using assms by (auto simp: of_bool_def split: if_splits)

lemma signed_compare: "(sint (a - b) < 0) = (sint (a - b) \<noteq> sint a - sint b) \<longleftrightarrow> sint b \<le> sint (a :: u64)"
proof (rule compare_arith [OF _ _ _ _ _ top_uint64(2) top_uint64(2) top_uint64(2)])
  show "uint (a - b) = (if uint b \<le> uint a then uint a - uint b else uint a - uint b + 2 * 2 ^ 63)"
    by (simp add: uint_sub_if_size word_size)
qed (use unsigned_less [where w = a and 'a = int] unsigned_less [where w = b and 'a = int] in simp_all)

lemma cmp_conditions:
  fixes c :: "'a cpu_scheme"
  assumes f: "c_NZCV c = snd (addFlags64 a (NOT b) 1)"
  shows "cond 0 c \<longleftrightarrow> a = b" and "cond 2 c \<longleftrightarrow> b \<le> a" and "cond 8 c \<longleftrightarrow> b < a" and "cond 9 c \<longleftrightarrow> a \<le> b"
    and "cond 10 c \<longleftrightarrow> sint b \<le> sint a" and "cond 11 c \<longleftrightarrow> sint a < sint b"
    and "cond 12 c \<longleftrightarrow> sint b < sint a" and "cond 13 c \<longleftrightarrow> sint a \<le> sint b"
proof -
  have nz: "c_NZCV c = nzcv (sint (a - b) < 0) (a = b) (b \<le> a) (sint (a - b) \<noteq> sint a - sint b)"
    using f by (simp add: cmp_flags64)
  have n15: "(15 :: u8) = mask 4"
    by (simp add: mask_eq_exp_minus_1)
  have sl: "sint a = sint b \<longleftrightarrow> a = b"
    by (metis signed_word_eqI)
  note simps = cond_correct nz condition_holds_def Let_def nzcv_bits
  show "cond 0 c \<longleftrightarrow> a = b" "cond 2 c \<longleftrightarrow> b \<le> a" "cond 8 c \<longleftrightarrow> b < a" "cond 9 c \<longleftrightarrow> a \<le> b"
    by (auto simp: simps)
  show "cond 10 c \<longleftrightarrow> sint b \<le> sint a" "cond 11 c \<longleftrightarrow> sint a < sint b"
    using signed_compare [of a b] by (auto simp: simps)
  show "cond 12 c \<longleftrightarrow> sint b < sint a" "cond 13 c \<longleftrightarrow> sint a \<le> sint b"
    using signed_compare [of a b] sl by (auto simp: simps)
qed

end
