(* ===== verification/Cpu_Quiet.thy ===== *)
theory Cpu_Quiet
  imports Mem_Blind Cpu_Flags
begin

text \<open>
  A run without hooks. Nothing but the retiring of instructions changes the instruction counter, so
  \<open>Run\<close> with a count returns: it reaches \<open>until\<close>, retires exactly \<open>count\<close> instructions, or reports
  an error.
\<close>

definition quiet :: "u64 \<Rightarrow> 'a cpu_scheme \<Rightarrow> bool" where
  "quiet k c \<longleftrightarrow> no_mem_hooks c \<and> c_codeHooks c = [] \<and> c_intrHooks c = [] \<and> \<not> c_stopReq c \<and> c_icount c = k"

lemma outside_eq_quiet: "outside_eq c c' \<Longrightarrow> quiet k c' = quiet k (c :: 'a cpu_scheme)"
  using more_fields [of c' c] by (simp add: outside_eq_def quiet_def no_mem_hooks_def)

interpretation qm: mem_blind E "quiet k"
proof unfold_locales
  show "(\<forall>m. quiet k m \<longrightarrow> no_mem_hooks m) \<or>
    (\<forall>i fk a n v m. quiet k m \<longrightarrow> quiet k (snd (inv_fn E i fk a n v m)) \<and> quiet k (mem_fn E i a n v m))"
    by (rule disjI1) (simp add: quiet_def)
qed (simp add: outside_eq_quiet)

lemma quiet_outside: "quiet k c \<Longrightarrow> outside_eq c c' \<Longrightarrow> quiet k c'"
  by (simp add: outside_eq_quiet)

lemma quiet_regs:
  "quiet k (setR r v c) = quiet k c" "quiet k (setV r w c) = quiet k c" "quiet k (setPC a c) = quiet k c"
  "quiet k (setNZCV f c) = quiet k c" "quiet k (msr reg x c) = quiet k c"
  by (simp_all add: state_defs msr_def quiet_def no_mem_hooks_def)

interpretation q: step_inv E "quiet k" "\<lambda>_. True" "\<lambda>n i. keeps (quiet k) (simd_fn E n i)"
proof unfold_locales
  show "keeps (quiet k) (raise_exc E e)" for e
    by (auto simp: keeps_def raise_exc_def quiet_def)
  show "quiet k c \<Longrightarrow> vpn \<noteq> noVPN \<Longrightarrow> t_vpn (m_wtlb c (vpn AND 255)) = vpn \<Longrightarrow>
      quiet k (storeN (t_data (m_wtlb c (vpn AND 255))) off n v c)" for c vpn off n v
    by (rule qm.P_prims(5))
  show "quiet k c \<Longrightarrow> quiet k (c\<lparr>c_exclAddr := a, c_exclVal := v1, c_exclVal2 := v2, c_exclSize := sz,
      c_exclValid := b\<rparr>)" for c a v1 v2 sz b
    by (simp add: quiet_def no_mem_hooks_def)
qed (simp_all add: quiet_regs qm.P_memory)

text \<open>Vector handlers that leave the counter, the stop flag and the hook lists alone.\<close>

definition quiet_simd :: "'a cpu_env \<Rightarrow> bool" where
  "quiet_simd E \<longleftrightarrow> (\<forall>k n i. keeps (quiet k) (simd_fn E n i))"

lemma exec_fn_quiet: "quiet_simd E \<Longrightarrow> keeps (quiet k) (exec_fn E h i)"
  by (rule q.P_exec) (auto simp: quiet_simd_def)

lemma cached_inst_outside: "outside_eq m (snd (cached_inst simd pc m))"
  using cached_inst_same [of m simd pc] by (simp add: same_machine_def outside_eq_def)

lemma get_code_outside: "outside_eq m (snd (get_code p v m))"
  by (simp add: outside_eq_def)

lemma fetch_quiet: "keeps (quiet k) (fetch E pc)"
proof -
  have "keeps (quiet k) (bnd (guest_page E MemFetch pc 4 0) (\<lambda>p. upd (\<lambda>m1.
      let (cp, m2) = get_code p (vpn_of pc) m1
      in set_fetch (vpn_of pc) (Some cp)
           (m2\<lparr>m_ctlb := (m_ctlb m2)(vpn_of pc AND 63 := \<lparr>c_vpn = vpn_of pc, c_code = Some cp\<rparr>)\<rparr>))))"
  proof (intro keeps_bnd qm.P_guest keeps_upd)
    fix p and c :: "'a cpu_scheme"
    assume "quiet k c"
    moreover have "outside_eq c (set_fetch (vpn_of pc) (Some (fst (get_code p (vpn_of pc) c)))
        ((snd (get_code p (vpn_of pc) c))\<lparr>m_ctlb := (m_ctlb (snd (get_code p (vpn_of pc) c)))
          (vpn_of pc AND 63 := \<lparr>c_vpn = vpn_of pc, c_code = Some (fst (get_code p (vpn_of pc) c))\<rparr>)\<rparr>))"
      by (simp add: outside_eq_def set_fetch_def)
    ultimately show "quiet k (let (cp, m2) = get_code p (vpn_of pc) c
        in set_fetch (vpn_of pc) (Some cp)
             (m2\<lparr>m_ctlb := (m_ctlb m2)(vpn_of pc AND 63 := \<lparr>c_vpn = vpn_of pc, c_code = Some cp\<rparr>)\<rparr>))"
      by (simp add: split_beta outside_eq_quiet)
  qed
  moreover have "outside_eq c (set_fetch (vpn_of pc) x c)" for x and c :: "'a cpu_scheme"
    by (simp add: outside_eq_def set_fetch_def)
  ultimately show ?thesis
    by (auto simp: keeps_def fetch_def Let_def intro: quiet_outside)
qed

lemma ensure_fetch_quiet: "keeps (quiet k) (ensure_fetch E pc)"
  using keepsD [OF fetch_quiet] by (auto simp: keeps_def ensure_fetch_def)

lemma exec_cached_quiet:
  assumes E: "quiet_simd E" and q: "quiet k c" and r: "exec_cached simd E pc c = (r, c')"
  shows "r = Inr () \<Longrightarrow> quiet (k + 1) c'"
proof -
  assume ok: "r = Inr ()"
  have q1: "quiet k (snd (cached_inst simd pc c))"
    using q cached_inst_outside by (rule quiet_outside)
  obtain i c1 where c1: "cached_inst simd pc c = (i, c1)" by fastforce
  show ?thesis
  proof (cases "i_fn i")
    case None
    then show ?thesis using r ok c1 by (simp add: exec_cached_def)
  next
    case (Some h)
    obtain x c2 where c2: "exec_fn E h i c1 = (x, c2)" by fastforce
    have "quiet k c2"
      using keepsD_eq [OF exec_fn_quiet [OF E] _ c2] q1 c1 by simp
    then show ?thesis
      using r ok c1 c2 Some
      by (cases x) (auto simp: exec_cached_def andthen_def bnd_def upd_def quiet_def no_mem_hooks_def)
  qed
qed

lemma run_iter_quiet:
  assumes E: "quiet_simd E" and q: "quiet k c" and r: "run_iter simd E until c = (Inr b, c')"
  shows "b \<Longrightarrow> c' = c \<and> m_pc c = until" and "\<not> b \<Longrightarrow> quiet (k + 1) c'"
proof -
  obtain x c1 where f: "ensure_fetch E (m_pc c) c = (x, c1)" by fastforce
  have q1: "quiet k c1" using keepsD_eq [OF ensure_fetch_quiet q f] .
  then have h: "c_codeHooks c1 = []" by (simp add: quiet_def)
  obtain y c2 where e: "exec_cached simd E (m_pc c) c1 = (y, c2)" by fastforce
  have e2: "y = Inr () \<Longrightarrow> quiet (k + 1) c2" using exec_cached_quiet [OF E q1 e] .
  have "b \<and> c' = c \<and> m_pc c = until \<or> \<not> b \<and> y = Inr () \<and> c' = c2"
    using r f h e by (auto simp: run_iter_def Let_def bnd_def andthen_def ret_def split: if_splits sum.splits)
  with e2 show "b \<Longrightarrow> c' = c \<and> m_pc c = until" "\<not> b \<Longrightarrow> quiet (k + 1) c'"
    by auto
qed

text \<open>Fuel: an iteration retires an instruction, and a new batch is opened before one that does.\<close>

lemma run_loop_returns:
  assumes E: "quiet_simd E" and q: "quiet k c" and k: "k \<le> limit" "unat limit + 512 < 2 ^ 64" "batch \<le> limit"
    and fuel: "2 * (unat limit - unat k) + (if k < batch then 0 else 1) < fuel"
  shows "\<exists>r c'. run_loop fuel simd E until limit batch c = Some (r, c') \<and>
    (r = Inr () \<longrightarrow> quiet (c_icount c') c' \<and> c_icount c' \<le> limit \<and> (m_pc c' = until \<or> c_icount c' = limit))"
  using q k fuel
proof (induction fuel arbitrary: c k batch)
  case 0
  then show ?case by simp
next
  case (Suc fuel)
  have ic: "c_icount c = k" using Suc.prems(1) by (simp add: quiet_def)
  show ?case
  proof (cases "k < batch")
    case True
    obtain x c1 where r: "run_iter simd E until c = (x, c1)" by fastforce
    show ?thesis
    proof (cases x)
      case (Inl e)
      then show ?thesis using True ic r by simp
    next
      case (Inr b)
      note it = run_iter_quiet [OF E Suc.prems(1) r [unfolded Inr]]
      show ?thesis
      proof (cases b)
        case b: True
        then show ?thesis
          using True ic r Inr it(1) Suc.prems(1,2) by (auto simp: quiet_def)
      next
        case False
        have lt: "k < limit" using True Suc.prems(4) by simp
        then have u: "unat (k + 1) = unat k + 1"
          using Suc.prems(3) unat_add64 [of k 1] by (simp add: word_less_nat_alt)
        have fu: "2 * (unat limit - unat (k + 1)) + (if k + 1 < batch then 0 else 1) < fuel"
          using Suc.prems(5) True lt u by (auto simp: word_less_nat_alt)
        have kl: "k + 1 \<le> limit"
          using lt u by (simp add: word_less_nat_alt word_le_nat_alt)
        have "\<exists>r c'. run_loop fuel simd E until limit batch c1 = Some (r, c') \<and>
            (r = Inr () \<longrightarrow> quiet (c_icount c') c' \<and> c_icount c' \<le> limit \<and> (m_pc c' = until \<or> c_icount c' = limit))"
          using Suc.IH [OF it(2) [OF False] kl Suc.prems(3,4) fu] .
        then show ?thesis using True ic r Inr False by simp
      qed
    qed
  next
    case False
    show ?thesis
    proof (cases "limit \<le> k")
      case True
      then show ?thesis using False ic Suc.prems(1,2) by simp
    next
      case lt: False
      have "unat (k + 512) = unat k + 512"
        using Suc.prems(2,3) unat_add64 [of k 512] by (simp add: word_le_nat_alt)
      then have nb: "new_batch limit c \<le> limit" "k < new_batch limit c"
        using lt by (auto simp: new_batch_def Let_def ic word_less_nat_alt word_le_nat_alt)
      have "\<not> c_stopReq c" using Suc.prems(1) by (simp add: quiet_def)
      then show ?thesis
        using Suc.IH [OF Suc.prems(1,2,3) nb(1)] Suc.prems(5) False lt nb(2) ic by simp
    qed
  qed
qed

subsection \<open>Only exception delivery stops a run\<close>

definition no_stop :: "('s, cpu_err, 'r) comp \<Rightarrow> bool" where
  "no_stop m \<longleftrightarrow> (\<forall>s. fst (m s) \<noteq> Inl StopSignal)"

named_theorems stop_intros \<open>computations that never raise \<open>stopSignal\<close>\<close>

lemma no_stop_basic [stop_intros]:
  "no_stop (ret x)" "no_stop (gets f)" "no_stop (upd g)"
  by (simp_all add: no_stop_def comp_defs)

lemma no_stop_bnd [stop_intros]:
  assumes "no_stop m" "\<And>x. no_stop (k x)"
  shows "no_stop (bnd m k)"
  unfolding no_stop_def
proof
  fix s
  show "fst (bnd m k s) \<noteq> Inl StopSignal"
    using assms by (cases "m s"; cases "fst (m s)") (auto simp: no_stop_def bnd_def dest: spec [of _ s])
qed

lemma no_stop_andthen [stop_intros]: "no_stop m \<Longrightarrow> no_stop k \<Longrightarrow> no_stop (andthen m k)"
  by (simp add: andthen_def no_stop_bnd)

lemma no_stop_if [stop_intros]: "no_stop m \<Longrightarrow> no_stop k \<Longrightarrow> no_stop (if b then m else k)"
  by simp

lemma no_stop_guest [stop_intros]: "no_stop (guest_page E k a n v)"
  by (auto simp: no_stop_def guest_page_def split: sum.splits prod.splits)

lemma no_stop_Inr [stop_intros]: "no_stop (\<lambda>s. (Inr (f s), g s))"
  by (simp add: no_stop_def)

lemma no_stop_at: "no_stop m \<Longrightarrow> fst (m s) \<noteq> Inl StopSignal"
  by (simp add: no_stop_def)

lemma no_stop_read_slow [stop_intros]: "no_stop (read_slow E a n)"
proof -
  have k: "no_stop (bnd (guest_page E MemRead a n 0) (\<lambda>q m2. (Inr (loadN m2 (page_data m2 q) (off_of a) n), m2)))"
    by (intro stop_intros)
  have 1: "no_stop (\<lambda>m. if m_rhooks m \<noteq> [] \<and> hooks_cover_page (m_rhooks m) (vpn_of a)
      then bnd (upd (call_mem_hooks E (m_rhooks m) a n 0)) (\<lambda>_.
        bnd (guest_page E MemRead a n 0) (\<lambda>q m2. (Inr (loadN m2 (page_data m2 q) (off_of a) n), m2))) m
      else (Inr (loadN m (page_data m p) (off_of a) n), set_rtlb (vpn_of a) (page_data m p) m))" for p
    unfolding no_stop_def using no_stop_at [OF k] by (simp add: bnd_def [of "upd _"] upd_def)
  have 2: "no_stop (\<lambda>m. upd (f m) m)" for f :: "'a memory_scheme \<Rightarrow> 'a memory_scheme \<Rightarrow> 'a memory_scheme"
    by (simp add: no_stop_def upd_def)
  show ?thesis
    unfolding read_slow_def by (intro no_stop_if no_stop_bnd no_stop_guest 1 2 no_stop_basic)
qed

lemma no_stop_write_slow [stop_intros]: "no_stop (write_slow E a n v)"
proof -
  have k: "no_stop (bnd (guest_page E MemWrite a n v) (\<lambda>q. upd (\<lambda>m2. let m3 = writable (vpn_of a) q m2
          in storeN (page_data m3 q) (off_of a) n v m3)))"
    by (intro stop_intros)
  have 1: "no_stop (\<lambda>m. if m_whooks m \<noteq> [] \<and> hooks_cover_page (m_whooks m) (vpn_of a)
      then bnd (upd (call_mem_hooks E (m_whooks m) a n v)) (\<lambda>_.
        bnd (guest_page E MemWrite a n v) (\<lambda>q. upd (\<lambda>m2. let m3 = writable (vpn_of a) q m2
          in storeN (page_data m3 q) (off_of a) n v m3))) m
      else upd (\<lambda>m2. let m3 = writable (vpn_of a) p m2
        in storeN (page_data m3 p) (off_of a) n v (set_wtlb (vpn_of a) (page_data m3 p) m3)) m)" for p
    unfolding no_stop_def using no_stop_at [OF k]
    by (simp add: bnd_def [of "upd (call_mem_hooks _ _ _ _ _)"] upd_def)
  have 2: "no_stop (\<lambda>m. upd (f m) m)" for f :: "'a memory_scheme \<Rightarrow> 'a memory_scheme \<Rightarrow> 'a memory_scheme"
    by (simp add: no_stop_def upd_def)
  show ?thesis
    unfolding write_slow_def by (intro no_stop_if no_stop_bnd no_stop_guest 1 2 no_stop_basic)
qed

lemma no_stop_readN [stop_intros]: "no_stop (readN E a n)" "no_stop (read64 E a)"
proof -
  have "no_stop (tlb_read E k a)" for k
    by (simp add: no_stop_def tlb_read_def Let_def no_stop_at [OF no_stop_read_slow])
  then show "no_stop (readN E a n)" "no_stop (read64 E a)"
    by (simp_all add: readN_def read8_def read16_def read32_def read64_def)
qed

lemma no_stop_writeN [stop_intros]: "no_stop (writeN E a n v)" "no_stop (write64 E a v)"
proof -
  have "no_stop (tlb_write E k a w)" for k w
    by (simp add: no_stop_def tlb_write_def Let_def no_stop_at [OF no_stop_write_slow])
  then show "no_stop (writeN E a n v)" "no_stop (write64 E a v)"
    by (simp_all add: writeN_def write8_def write16_def write32_def write64_def)
qed

lemma no_stop_check_write [stop_intros]: "no_stop (check_write E a n)"
  by (simp add: check_write_def Let_def stop_intros)

lemma no_stop_at_addr [stop_intros]: "(\<And>a. no_stop (acc a)) \<Longrightarrow> no_stop (at_addr f acc)"
  by (simp add: at_addr_def stop_intros)

lemma no_stop_with_wb [stop_intros]: "(\<And>a. no_stop (acc a)) \<Longrightarrow> no_stop (with_wb i acc)"
  by (simp add: with_wb_def stop_intros)

lemma no_stop_multi [stop_intros]:
  "no_stop (multi_load E n rls a out)" "no_stop (multi_store E i n rls a)" "no_stop (zero_words E a ks)"
proof -
  show "no_stop (multi_load E n rls a out)"
    by (induction rls arbitrary: a out) (simp_all add: stop_intros)
  show "no_stop (multi_store E i n rls a)"
    by (induction rls arbitrary: a) (simp_all add: stop_intros)
  show "no_stop (zero_words E a ks)"
    by (induction ks) (simp_all add: stop_intros)
qed

lemma no_stop_ldst: "no_stop (exec_ldst E h i)"
proof -
  have x: "no_stop (exclusiveOK a n)" for a n
    by (simp add: no_stop_def exclusiveOK_def)
  show ?thesis
    by (cases h) (simp_all add: ldInt_def stInt_def vLoad_def vStore_def loadPair_def storePair_def
        vLoadPair_def vStorePair_def opLdxr_def opLdxp_def opStxr_def opStxp_def opCas_def opSwp_def
        opLdAtomic_def opSIMDLoadMulti_def opSIMDStoreMulti_def Let_def x stop_intros)
qed

lemma no_stop_hot: "no_stop (exec_hot E h i)"
proof -
  have 1: "no_stop (hot_load E n i a)" for n a
  proof -
    have "no_stop (bnd (read_slow E a n) (\<lambda>v. upd (setR (i_rd i) v)))" by (intro stop_intros)
    then show ?thesis by (simp add: no_stop_def hot_load_def Let_def)
  qed
  have 2: "no_stop (hot_store E n i a)" for n a
    by (simp add: no_stop_def hot_store_def Let_def no_stop_at [OF no_stop_write_slow])
  have 3: "no_stop (hot_ldp E i a)" for a
  proof -
    have "no_stop (bnd (guest_page E MemRead a 16 0) (\<lambda>_. andthen (bnd (read64 E a) (\<lambda>v. upd (setR (i_rd i) v)))
        (bnd (read64 E (a + 8)) (\<lambda>v. upd (setR (i_ra i) v)))))" by (intro stop_intros)
    then show ?thesis by (simp add: no_stop_def hot_ldp_def Let_def)
  qed
  have 4: "no_stop (hot_stp E i a)" for a
  proof -
    have "no_stop (andthen (check_write E a 16) (andthen (bnd (getR (i_rd i)) (\<lambda>v. write64 E a v))
        (bnd (getR (i_ra i)) (\<lambda>v. write64 E (a + 8) v))))" by (intro stop_intros)
    then show ?thesis by (simp add: no_stop_def hot_stp_def Let_def)
  qed
  show ?thesis
    by (cases h) (simp_all add: 1 2 3 4 stop_intros)
qed

lemma no_stop_exec:
  assumes "c_intrHooks c = []" and v: "\<forall>n. h = HSimd n \<longrightarrow> no_stop (simd_fn E n i)"
  shows "fst (exec_fn E h i c) \<noteq> Inl StopSignal"
proof (cases h)
  case (HSys s)
  have "no_stop (dc_zva E a)" for a
    by (simp add: dc_zva_def Let_def stop_intros)
  then show ?thesis
    using assms(1)
    by (cases s) (simp_all add: HSys no_stop_at [OF no_stop_at_addr] raise_exc_def andthen_def bnd_def upd_def state_defs)
qed (use v in \<open>simp_all add: upd_def no_stop_def no_stop_at [OF no_stop_ldst] no_stop_at [OF no_stop_hot]\<close>)

definition no_stop_simd :: "'a cpu_env \<Rightarrow> bool" where
  "no_stop_simd E \<longleftrightarrow> (\<forall>n i. no_stop (simd_fn E n i))"

lemma fetch_no_stop: "no_stop (ensure_fetch E pc)"
proof -
  have "no_stop (bnd (guest_page E MemFetch pc 4 0) (\<lambda>p. upd (\<lambda>m1.
      let (cp, m2) = get_code p (vpn_of pc) m1
      in set_fetch (vpn_of pc) (Some cp)
           (m2\<lparr>m_ctlb := (m_ctlb m2)(vpn_of pc AND 63 := \<lparr>c_vpn = vpn_of pc, c_code = Some cp\<rparr>)\<rparr>))))"
    by (intro stop_intros)
  then show ?thesis
    by (simp add: no_stop_def ensure_fetch_def fetch_def Let_def)
qed

lemma run_iter_no_stop:
  assumes E: "no_stop_simd E" and q: "quiet k c"
  shows "fst (run_iter simd E until c) \<noteq> Inl StopSignal"
proof -
  obtain x c1 where f: "ensure_fetch E (m_pc c) c = (x, c1)" by fastforce
  have q1: "quiet k c1" using keepsD_eq [OF ensure_fetch_quiet q f] .
  then have h: "c_codeHooks c1 = []" by (simp add: quiet_def)
  have x: "x \<noteq> Inl StopSignal"
    using no_stop_at [OF fetch_no_stop [of E "m_pc c"], of c] f by simp
  obtain i c2 where c2: "cached_inst simd (m_pc c) c1 = (i, c2)" by fastforce
  have "quiet k c2"
    using quiet_outside [OF q1 cached_inst_outside, of simd "m_pc c"] c2 by simp
  then have h2: "c_intrHooks c2 = []" by (simp add: quiet_def)
  have v: "\<forall>n. h = HSimd n \<longrightarrow> no_stop (simd_fn E n i)" for h
    using E by (simp add: no_stop_simd_def)
  have e: "fst (exec_cached simd E (m_pc c) c1) \<noteq> Inl StopSignal"
  proof (cases "i_fn i")
    case (Some h)
    show ?thesis
      using no_stop_exec [OF h2 v, of h] Some
      by (cases "exec_fn E h i c2"; cases "fst (exec_fn E h i c2)")
        (auto simp: exec_cached_def c2 andthen_def bnd_def upd_def)
  qed (simp add: exec_cached_def c2)
  have r: "run_iter simd E until c =
    (if m_pc c = until then (Inr True, c) else if m_pc c AND 3 \<noteq> 0 then (Inl (Misaligned (m_pc c)), c)
     else case x of Inl e \<Rightarrow> (Inl e, c1) | Inr _ \<Rightarrow> andthen (exec_cached simd E (m_pc c)) (ret False) c1)"
    using f h by (auto simp: run_iter_def Let_def bnd_def split: sum.splits)
  obtain y c3 where y: "exec_cached simd E (m_pc c) c1 = (y, c3)" by fastforce
  show ?thesis
    unfolding r using x e y by (auto simp: andthen_def bnd_def ret_def split: sum.splits)
qed

lemma run_loop_no_stop:
  assumes E: "no_stop_simd E" "quiet_simd E"
  shows "quiet k c \<Longrightarrow> run_loop fuel simd E until limit batch c = Some (r, c') \<Longrightarrow> r \<noteq> Inl StopSignal"
proof (induction fuel arbitrary: c k batch)
  case 0
  then show ?case by simp
next
  case (Suc fuel)
  obtain x c1 where i: "run_iter simd E until c = (x, c1)" by fastforce
  have x: "x \<noteq> Inl StopSignal"
    using run_iter_no_stop [OF E(1) Suc.prems(1), of simd until] i by simp
  show ?case
  proof (cases x)
    case (Inl e)
    then show ?thesis
      using Suc.prems Suc.IH [OF Suc.prems(1)] i x by (auto split: if_splits)
  next
    case (Inr b)
    have "\<not> b \<Longrightarrow> quiet (k + 1) c1"
      using run_iter_quiet(2) [OF E(2) Suc.prems(1) i [unfolded Inr]] .
    then show ?thesis
      using Suc.prems Suc.IH i Inr by (auto split: if_splits)
  qed
qed

lemma Run_returns:
  fixes c :: "'a cpu_scheme"
  assumes E: "quiet_simd E" "no_stop_simd E" and h: "no_mem_hooks c" "c_codeHooks c = []" "c_intrHooks c = []"
    and n: "count \<noteq> 0" "unat (c_icount c) + unat count + 512 < 2 ^ 64"
    and fuel: "2 * unat count + 2 \<le> fuel"
  shows "\<exists>e c'. Run fuel simd E until count c = Some (e, c') \<and>
    (e = None \<longrightarrow> m_pc c' = until \<or> c_icount c' = c_icount c + count)"
proof -
  let ?c = "c\<lparr>c_stopReq := False\<rparr>" and ?k = "c_icount c"
  let ?limit = "?k + count"
  have q: "quiet ?k ?c"
    using h by (simp add: quiet_def no_mem_hooks_def)
  have ul: "unat ?limit = unat ?k + unat count"
    using n(2) unat_add64 [of ?k count] by simp
  have c0: "0 < unat count" using n(1) by (simp add: unat_gt_0)
  have kl: "?k \<le> ?limit"
    using ul by (simp add: word_le_nat_alt)
  have nb: "new_batch ?limit ?c \<le> ?limit"
    by (auto simp: new_batch_def Let_def not_less)
  have fu: "2 * (unat ?limit - unat ?k) + (if ?k < new_batch ?limit ?c then 0 else 1) < fuel"
    using ul fuel by simp
  have ov: "unat ?limit + 512 < 2 ^ 64"
    using ul n(2) by simp
  obtain r c' where r: "run_loop fuel simd E until ?limit (new_batch ?limit ?c) ?c = Some (r, c')"
    "r = Inr () \<longrightarrow> quiet (c_icount c') c' \<and> c_icount c' \<le> ?limit \<and> (m_pc c' = until \<or> c_icount c' = ?limit)"
    using run_loop_returns [OF E(1) q kl ov nb fu, of simd until] by blast
  have "Run fuel simd E until count c = Some (recover (r, c'))"
    using n(1) r(1) by (simp add: Run_def Let_def)
  moreover have "r \<noteq> Inl StopSignal"
    using run_loop_no_stop [OF E(2,1) q r(1)] .
  then have "fst (recover (r, c')) = None \<Longrightarrow> r = Inr ()"
    by (auto simp: recover_def split: sum.splits cpu_err.splits)
  ultimately show ?thesis
    using r(2) by (auto simp: recover_def)
qed

end
