(* ===== verification/Cpu_Access.thy ===== *)
theory Cpu_Access
  imports Mem_Blind
begin

text \<open>
  Load and store instructions against the byte-level memory: what they read and write when the
  access is allowed, that a refused access leaves the whole CPU as it was, and that the specialised
  hot handlers do what the generic ones do.
\<close>

subsection \<open>Refused accesses\<close>

lemma guest_page_fault:
  assumes "no_mem_hooks m" and "\<not> allows (need_prot k) m a"
  shows "\<exists>fk. guest_page E k a n v m = (Inl (Fault fk a n (m_pc m)), m)"
proof (cases "page_access k a m")
  case (Inl fk)
  then show ?thesis
    using assms(1) by (simp add: guest_page_def no_mem_hooks_def)
next
  case (Inr p)
  then show ?thesis
    using assms(2) by (auto simp: allows_lookup page_access_Inr)
qed

lemma guest_page_allowed:
  assumes "allows (need_prot k) m a"
  obtains p where "guest_page E k a n v m = (Inr p, m)" and "lookup m (vpn_of a) = Some p"
  using assms guest_page_ok [of m a _ k E n v] by (auto simp: allows_lookup)

text \<open>Which pages an access of \<open>n\<close> bytes touches.\<close>

lemma access_pages:
  assumes n: "n \<in> {1, 2, 4, 8}"
  shows "(\<forall>k < n. allows need m (a + of_nat k)) \<longleftrightarrow>
    allows need m a \<and> (\<not> fits a n \<longrightarrow> allows need m (next_page a))"
proof
  assume al: "\<forall>k < n. allows need m (a + of_nat k)"
  have "allows need m a"
    using al n by (auto dest: spec [of _ 0])
  moreover have "\<not> fits a n \<longrightarrow> allows need m (next_page a)"
    using crossing_allows(2) [OF _ n al] by blast
  ultimately show "allows need m a \<and> (\<not> fits a n \<longrightarrow> allows need m (next_page a))"
    by blast
next
  assume al: "allows need m a \<and> (\<not> fits a n \<longrightarrow> allows need m (next_page a))"
  have pg: "vpn_of x = vpn_of y \<Longrightarrow> allows need m x = allows need m y" for x y
    by (simp add: allows_lookup)
  show "\<forall>k < n. allows need m (a + of_nat k)"
  proof (intro allI impI)
    fix k
    assume k: "k < n"
    show "allows need m (a + of_nat k)"
    proof (cases "unat (off_of a) + k < 4096")
      case True
      then show ?thesis using al pg [OF same_page(1) [OF True]] by simp
    next
      case False
      then have "\<not> fits a n" using k n by (auto simp: fits_iff)
      moreover have "vpn_of (a + of_nat k) = vpn_of (next_page a)"
        using False k n by (intro crossing_page) auto
      ultimately show ?thesis using al pg by blast
    qed
  qed
qed

lemma read_slow_fault:
  assumes h: "no_mem_hooks m" and n: "n \<in> {1, 2, 4, 8}" and na: "\<not> (\<forall>k < n. allows 1 m (a + of_nat k))"
  shows "\<exists>e. read_slow E a n m = (Inl e, m)"
proof (cases "allows 1 m a")
  case False
  then obtain fk where "guest_page E MemRead a n 0 m = (Inl (Fault fk a n (m_pc m)), m)"
    using guest_page_fault [OF h, of MemRead a E n 0] by (auto simp: need_prot_def)
  then show ?thesis by (auto simp: read_slow_def bnd_def)
next
  case True
  then have cr: "\<not> fits a n" "\<not> allows 1 m (next_page a)"
    using na access_pages [OF n, of 1 m a] by blast+
  obtain p where p: "guest_page E MemRead a n 0 m = (Inr p, m)"
    using guest_page_allowed [of MemRead m a E n 0] True by (auto simp: need_prot_def)
  obtain fk where "guest_page E MemRead (next_page a) n 0 m = (Inl (Fault fk (next_page a) n (m_pc m)), m)"
    using guest_page_fault [OF h, of MemRead "next_page a" E n 0] cr(2) by (auto simp: need_prot_def)
  then show ?thesis using p cr(1) by (auto simp: read_slow_def bnd_def)
qed

lemma write_slow_fault:
  assumes h: "no_mem_hooks m" and n: "n \<in> {1, 2, 4, 8}" and na: "\<not> (\<forall>k < n. allows 2 m (a + of_nat k))"
  shows "\<exists>e. \<forall>v. write_slow E a n v m = (Inl e, m)"
proof (cases "allows 2 m a")
  case False
  have "page_access MemWrite a m = Inl fk \<Longrightarrow> \<forall>v. guest_page E MemWrite a n v m = (Inl (Fault fk a n (m_pc m)), m)" for fk
    using h by (simp add: guest_page_def no_mem_hooks_def)
  moreover have "\<exists>fk. page_access MemWrite a m = Inl fk"
    using False by (cases "page_access MemWrite a m") (auto simp: allows_lookup page_access_Inr need_prot_def)
  ultimately show ?thesis by (auto simp: write_slow_def bnd_def)
next
  case True
  then have cr: "\<not> fits a n" "\<not> allows 2 m (next_page a)"
    using na access_pages [OF n, of 2 m a] by blast+
  obtain p where p: "lookup m (vpn_of a) = Some p" "p_prot (m_pages m p) AND need_prot MemWrite \<noteq> 0"
    using True by (auto simp: allows_lookup need_prot_def)
  have "page_access MemWrite (next_page a) m = Inl fk \<Longrightarrow>
      \<forall>v. guest_page E MemWrite (next_page a) n v m = (Inl (Fault fk (next_page a) n (m_pc m)), m)" for fk
    using h by (simp add: guest_page_def no_mem_hooks_def)
  moreover have "\<exists>fk. page_access MemWrite (next_page a) m = Inl fk"
    using cr(2) by (cases "page_access MemWrite (next_page a) m")
      (auto simp: allows_lookup page_access_Inr need_prot_def)
  ultimately show ?thesis using guest_page_ok [OF p] cr(1) by (auto simp: write_slow_def bnd_def)
qed

text \<open>A TLB hit implies the permission, so the fast paths refuse what the slow ones refuse.\<close>

lemma rtlb_hit_allows:
  assumes m: "mem_inv D m" and "t_vpn (m_rtlb m (vpn_of a AND 255)) = vpn_of a" "fits a n" and n: "n \<in> {1, 2, 4, 8}"
  shows "\<forall>k < n. allows 1 m (a + of_nat k)"
proof -
  have "t_vpn (m_rtlb m (vpn_of a AND 255)) \<noteq> noVPN" using assms(2) by simp
  then have "allows 1 m a"
    using m assms(2) unfolding mem_inv_def rtlb_ok_def allows_lookup by metis
  then show ?thesis using access_pages [OF n] assms(3) by blast
qed

lemma wtlb_hit_allows:
  assumes m: "mem_inv D m" and "t_vpn (m_wtlb m (vpn_of a AND 255)) = vpn_of a" "fits a n" and n: "n \<in> {1, 2, 4, 8}"
  shows "\<forall>k < n. allows 2 m (a + of_nat k)"
proof -
  have "t_vpn (m_wtlb m (vpn_of a AND 255)) \<noteq> noVPN" using assms(2) by simp
  then have "allows 2 m a"
    using m assms(2) unfolding mem_inv_def wtlb_ok_def allows_lookup by metis
  then show ?thesis using access_pages [OF n] assms(3) by blast
qed

lemma readN_fault:
  assumes "mem_inv D m" "no_mem_hooks m" "n \<in> {1, 2, 4, 8}" "\<not> (\<forall>k < n. allows 1 m (a + of_nat k))"
  shows "\<exists>e. readN E a n m = (Inl e, m)"
  using read_slow_fault [OF assms(2-4)] rtlb_hit_allows [OF assms(1) _ _ assms(3)] assms(4)
  by (auto simp: readN_tlb [OF assms(3)] tlb_read_def Let_def)

lemma writeN_fault:
  assumes "mem_inv D m" "no_mem_hooks m" "n \<in> {1, 2, 4, 8}" "\<not> (\<forall>k < n. allows 2 m (a + of_nat k))"
  shows "\<exists>e. writeN E a n v m = (Inl e, m)"
proof -
  have "\<exists>e. \<forall>w. tlb_write E n a w m = (Inl e, m)"
    using write_slow_fault [OF assms(2-4)] wtlb_hit_allows [OF assms(1) _ _ assms(3)] assms(4)
    by (auto simp: tlb_write_def Let_def)
  then show ?thesis
    using assms(3) by (auto simp: writeN_def write8_def write16_def write32_def write64_def)
qed

subsection \<open>Loads and stores as instructions\<close>

text \<open>The single-register forms, with the address they use.\<close>

fun ldst_addr :: "hldst \<Rightarrow> inst \<Rightarrow> 'a cpu_scheme \<Rightarrow> u64" where
  "ldst_addr h i c =
     (if h \<in> {OpLoadWb, OpStoreWb} then addrFor i c
      else if h \<in> {OpLoadReg, OpStoreReg} then addr_reg i c else addr_off i c)"

lemma fst_snd_bnd: "m s = (Inl e, t) \<Longrightarrow> bnd m k s = (Inl e, t)" "m s = (Inr x, t) \<Longrightarrow> bnd m k s = k x t"
  by (simp_all add: bnd_def)

lemma load_store_fault_precise:
  fixes c :: "'a cpu_scheme"
  assumes m: "mem_inv D c" and h: "no_mem_hooks c" and n: "sz_of i \<in> {1, 2, 4, 8}"
  shows "l \<in> {OpLoadOff, OpLoadReg, OpLoadWb} \<Longrightarrow>
      \<not> (\<forall>k < sz_of i. allows 1 c (ldst_addr l i c + of_nat k)) \<Longrightarrow> \<exists>e. exec_ldst E l i c = (Inl e, c)"
    and "s \<in> {OpStoreOff, OpStoreReg, OpStoreWb} \<Longrightarrow>
      \<not> (\<forall>k < sz_of i. allows 2 c (ldst_addr s i c + of_nat k)) \<Longrightarrow> \<exists>e. exec_ldst E s i c = (Inl e, c)"
proof -
  have r: "\<not> (\<forall>k < sz_of i. allows 1 c (a + of_nat k)) \<Longrightarrow> \<exists>e. ldInt E i a c = (Inl e, c)" for a
    using readN_fault [OF m h n, of a E] by (auto simp: ldInt_def bnd_def)
  show "l \<in> {OpLoadOff, OpLoadReg, OpLoadWb} \<Longrightarrow>
      \<not> (\<forall>k < sz_of i. allows 1 c (ldst_addr l i c + of_nat k)) \<Longrightarrow> \<exists>e. exec_ldst E l i c = (Inl e, c)"
    using r [of "ldst_addr l i c"]
    by (auto simp: at_addr_def with_wb_def andthen_def bnd_def gets_def)
  have w: "\<not> (\<forall>k < sz_of i. allows 2 c (a + of_nat k)) \<Longrightarrow> \<exists>e. stInt E i a c = (Inl e, c)" for a
    using writeN_fault [OF m h n, of a E "c_R c (i_rd i)"] by (auto simp: stInt_def bnd_def gets_def)
  show "s \<in> {OpStoreOff, OpStoreReg, OpStoreWb} \<Longrightarrow>
      \<not> (\<forall>k < sz_of i. allows 2 c (ldst_addr s i c + of_nat k)) \<Longrightarrow> \<exists>e. exec_ldst E s i c = (Inl e, c)"
    using w [of "ldst_addr s i c"]
    by (auto simp: at_addr_def with_wb_def andthen_def bnd_def gets_def)
qed

text \<open>An allowed access: the value comes from, or goes to, exactly the bytes at the address.\<close>

lemma mbyte_cpu [simp]:
  "mbyte (setR r v c) = mbyte c" "mbyte (setPC a c) = mbyte c" "mbyte (next_pc c) = mbyte c"
  "mbyte (writeback i b c) = mbyte c" "mprot (setR r v c) = mprot c" "mprot (setPC a c) = mprot c"
  "mprot (next_pc c) = mprot c" "mprot (writeback i b c) = mprot c"
  by (simp_all add: state_defs writeback_def mbyte_def mprot_def page_data_def fun_eq_iff)

lemma readN_correct:
  fixes c :: "'a cpu_scheme"
  assumes m: "mem_inv D c" and h: "no_mem_hooks c" and n: "n \<in> {1, 2, 4, 8}"
    and al: "\<forall>k < n. allows 1 c (a + of_nat k)"
  obtains c' where "readN E a n c = (Inr (le_val (mbytes c a n)), c')" and "mbyte c' = mbyte c"
    and "mprot c' = mprot c" and "outside_eq c c'"
proof -
  have h0: "m_rhooks c = []" using h by (simp add: no_mem_hooks_def)
  obtain c' where c': "tlb_read E n a c = (Inr (le_val (mbytes c a n)), c')" "mbyte c' = mbyte c" "mprot c' = mprot c"
    using tlb_read_correct [OF m h0 n al, of E] .
  have "mem_blind E (\<lambda>x. no_mem_hooks x \<and> outside_eq c x)"
    by unfold_locales (auto simp: outside_eq_def no_mem_hooks_def)
  then have "keeps (\<lambda>x. no_mem_hooks x \<and> outside_eq c x) (readN E a n)"
    by (rule mem_blind.P_readN)
  moreover have "no_mem_hooks c \<and> outside_eq c c"
    using h by (simp add: outside_eq_def)
  ultimately have "outside_eq c c'"
    using keepsD_eq c'(1) readN_tlb [OF n, of E a] by metis
  then show ?thesis
    using that c' readN_tlb [OF n, of E a] by simp
qed

lemma writeN_correct_cpu:
  fixes c :: "'a cpu_scheme"
  assumes m: "mem_inv D c" and h: "no_mem_hooks c" and n: "n \<in> {1, 2, 4, 8}"
    and al: "\<forall>k < n. allows 2 c (a + of_nat k)"
  obtains c' where "writeN E a n v c = (Inr (), c')" and "mbyte c' = mem_put a (le_bytes n v) (mbyte c)"
    and "mprot c' = mprot c" and "outside_eq c c'"
proof -
  have h0: "m_whooks c = []" using h by (simp add: no_mem_hooks_def)
  obtain c' where c': "writeN E a n v c = (Inr (), c')" "mbyte c' = mem_put a (le_bytes n v) (mbyte c)" "mprot c' = mprot c"
    using writeN_correct [OF m h0 n al, of E v] .
  have "mem_blind E (\<lambda>x. no_mem_hooks x \<and> outside_eq c x)"
    by unfold_locales (auto simp: outside_eq_def no_mem_hooks_def)
  then have "keeps (\<lambda>x. no_mem_hooks x \<and> outside_eq c x) (writeN E a n v)"
    by (rule mem_blind.P_writeN)
  moreover have "no_mem_hooks c \<and> outside_eq c c"
    using h by (simp add: outside_eq_def)
  ultimately have "outside_eq c c'"
    using keepsD_eq c'(1) by metis
  then show ?thesis using that c' by simp
qed

text \<open>The register file after a load or a store of the form \<open>h\<close> at address \<open>a\<close>.\<close>

definition wb_regs :: "hldst \<Rightarrow> inst \<Rightarrow> u64 \<Rightarrow> (u8 \<Rightarrow> u64) \<Rightarrow> (u8 \<Rightarrow> u64)" where
  "wb_regs h i a R =
     (if h \<in> {OpLoadWb, OpStoreWb} \<and> i_cond i = modePre then R(i_rn i := a)
      else if h \<in> {OpLoadWb, OpStoreWb} \<and> i_cond i = modePost then R(i_rn i := a + i_imm i) else R)"

lemma cpu_fields_R [simp]:
  "c_R (setR r v c) = (c_R c)(r := v)" "c_R (setPC b c) = c_R c" "c_R (next_pc c) = c_R c"
  "m_pc (setR r v c) = m_pc c" "m_pc (setPC b c) = b" "m_pc (next_pc c) = m_pc c + 4"
  "m_pc (writeback i a c) = m_pc c"
  by (simp_all add: state_defs writeback_def)

lemma writeback_R: "c_R (writeback i a c) = (if i_cond i = modePre then (c_R c)(i_rn i := a)
    else if i_cond i = modePost then (c_R c)(i_rn i := a + i_imm i) else c_R c)"
  by (simp add: writeback_def)

lemma outside_eq_cpu: "outside_eq c c' \<Longrightarrow> c_R c' = c_R c \<and> m_pc c' = m_pc (c :: 'a cpu_scheme)"
  using more_fields(1) [of c' c] by (simp add: outside_eq_def)

lemma load_correct:
  fixes c :: "'a cpu_scheme"
  assumes m: "mem_inv D c" and h: "no_mem_hooks c" and n: "sz_of i \<in> {1, 2, 4, 8}"
    and l: "l \<in> {OpLoadOff, OpLoadReg, OpLoadWb}"
    and al: "\<forall>k < sz_of i. allows 1 c (ldst_addr l i c + of_nat k)"
  shows "\<exists>c'. exec_ldst E l i c = (Inr (), c') \<and> mbyte c' = mbyte c \<and> mprot c' = mprot c \<and>
    m_pc c' = m_pc c + 4 \<and>
    c_R c' = wb_regs l i (ldst_addr l i c)
      ((c_R c)(i_rd i := ld_ext i (le_val (mbytes c (ldst_addr l i c) (sz_of i)))))"
proof -
  obtain c1 where c1: "readN E (ldst_addr l i c) (sz_of i) c =
      (Inr (le_val (mbytes c (ldst_addr l i c) (sz_of i))), c1)" "mbyte c1 = mbyte c" "mprot c1 = mprot c" "outside_eq c c1"
    using readN_correct [OF m h n al, of E] .
  note o = outside_eq_cpu [OF c1(4)]
  consider "l = OpLoadOff" | "l = OpLoadReg" | "l = OpLoadWb" using l by auto
  then show ?thesis
  proof cases
    case 1
    then show ?thesis
      using c1 o by (auto simp: at_addr_def andthen_def bnd_def gets_def ldInt_def upd_def wb_regs_def)
  next
    case 2
    then show ?thesis
      using c1 o by (auto simp: at_addr_def andthen_def bnd_def gets_def ldInt_def upd_def wb_regs_def)
  next
    case 3
    then show ?thesis
      using c1 o by (auto simp: with_wb_def andthen_def bnd_def gets_def ldInt_def upd_def wb_regs_def writeback_R)
  qed
qed

lemma store_correct:
  fixes c :: "'a cpu_scheme"
  assumes m: "mem_inv D c" and h: "no_mem_hooks c" and n: "sz_of i \<in> {1, 2, 4, 8}"
    and s: "s \<in> {OpStoreOff, OpStoreReg, OpStoreWb}"
    and al: "\<forall>k < sz_of i. allows 2 c (ldst_addr s i c + of_nat k)"
  shows "\<exists>c'. exec_ldst E s i c = (Inr (), c') \<and>
    mbyte c' = mem_put (ldst_addr s i c) (le_bytes (sz_of i) (c_R c (i_rd i))) (mbyte c) \<and> mprot c' = mprot c \<and>
    m_pc c' = m_pc c + 4 \<and> c_R c' = wb_regs s i (ldst_addr s i c) (c_R c)"
proof -
  obtain c1 where c1: "writeN E (ldst_addr s i c) (sz_of i) (c_R c (i_rd i)) c = (Inr (), c1)"
      "mbyte c1 = mem_put (ldst_addr s i c) (le_bytes (sz_of i) (c_R c (i_rd i))) (mbyte c)" "mprot c1 = mprot c"
      "outside_eq c c1"
    using writeN_correct_cpu [OF m h n al, of E "c_R c (i_rd i)"] .
  note o = outside_eq_cpu [OF c1(4)]
  consider "s = OpStoreOff" | "s = OpStoreReg" | "s = OpStoreWb" using s by auto
  then show ?thesis
  proof cases
    case 1
    then show ?thesis
      using c1 o by (auto simp: at_addr_def andthen_def bnd_def gets_def stInt_def upd_def wb_regs_def)
  next
    case 2
    then show ?thesis
      using c1 o by (auto simp: at_addr_def andthen_def bnd_def gets_def stInt_def upd_def wb_regs_def)
  next
    case 3
    then show ?thesis
      using c1 o by (auto simp: with_wb_def andthen_def bnd_def gets_def stInt_def upd_def wb_regs_def writeback_R)
  qed
qed

subsection \<open>The hot handlers\<close>

lemma hot_hit_fits: "n \<in> {1, 4, 8} \<Longrightarrow> hot_hit e a n \<longleftrightarrow> t_vpn e = vpn_of a \<and> fits a n"
proof -
  have "fits a 1"
    using unat_off_less [of a] by (simp add: fits_iff)
  then show "n \<in> {1, 4, 8} \<Longrightarrow> ?thesis"
    by (auto simp: hot_hit_def fits_def)
qed

text \<open>A hot load is the generic load, in every state and with any hooks.\<close>

lemma hot_load_generic:
  assumes n: "sz_of i \<in> {1, 4, 8}" and z: "i_sh i = extZero"
  shows "hot_load E (sz_of i) i a = ldInt E i a"
proof
  fix c
  have "sz_of i \<in> {1, 2, 4, 8}" using n by auto
  then show "hot_load E (sz_of i) i a c = ldInt E i a c"
    using z by (simp add: hot_load_def ldInt_def readN_tlb tlb_read_def Let_def hot_hit_fits [OF n] bnd_def
        ld_ext_def upd_def)
qed

text \<open>
  A hot store is the generic store when no hook watches: the narrow forms pass a hook the whole
  register where the generic form passes the truncated value.
\<close>

lemma cross_fold_bytes:
  assumes "le_bytes n v = le_bytes n w"
  shows "cross_fold a v n = cross_fold a w n"
proof
  fix m
  have "k < n \<Longrightarrow> ucast (drop_bit (8 * k) v) = (ucast (drop_bit (8 * k) w) :: u8)" for k
    using arg_cong [OF assms, of "\<lambda>bs. bs ! k"] by (simp add: nth_le_bytes)
  then show "cross_fold a v n m = cross_fold a w n m"
    by (intro fold_cong) auto
qed

lemma write_slow_bytes:
  assumes h: "no_mem_hooks m" and n: "n \<in> {1, 2, 4, 8}" and e: "le_bytes n v = le_bytes n w"
  shows "write_slow E a n v m = write_slow E a n w m"
proof -
  have g: "guest_page E k b n v m = guest_page E k b n w m" for k b
    using h by (simp add: guest_page_def no_mem_hooks_def split: sum.splits)
  have s: "snd (guest_page E k b n x m) = m" for k b x
    using h by (simp add: guest_page_def no_mem_hooks_def split: sum.splits)
  have st: "storeN d off n v = storeN d off n w" for d off
    by (rule ext) (simp add: storeN_arr_put acc_len_id [OF n] e)
  have w0: "m_whooks m = []" using h by (simp add: no_mem_hooks_def)
  show ?thesis
  proof (cases "fits a n")
    case True
    then show ?thesis
      using w0 s [of MemWrite a w] g [of MemWrite a]
      by (cases "guest_page E MemWrite a n w m") (simp add: write_slow_def bnd_def st split: sum.splits)
  next
    case False
    then show ?thesis
      using w0 s [of MemWrite a w] g [of MemWrite a] s [of MemWrite "next_page a" w] g [of MemWrite "next_page a"]
        cross_fold_bytes [OF e, of a]
      by (cases "guest_page E MemWrite a n w m"; cases "guest_page E MemWrite (next_page a) n w m")
        (simp add: write_slow_def bnd_def upd_def split: sum.splits, blast intro: fun_cong)
  qed
qed

lemma hot_store_generic:
  assumes h: "no_mem_hooks c" and n: "sz_of i \<in> {1, 4, 8}"
  shows "hot_store E (sz_of i) i a c = stInt E i a c"
proof -
  let ?n = "sz_of i" and ?v = "c_R c (i_rd i)"
  define w where "w = (if ?n = 1 then ucast (ucast ?v :: u8) else if ?n = 4 then ucast (ucast ?v :: u32) else ?v)"
  have e: "le_bytes ?n w = le_bytes ?n ?v"
    using n ucast_le_bytes [of ?v] by (auto simp: w_def simp del: le_bytes.simps)
  have n4: "?n \<in> {1, 2, 4, 8}" using n by auto
  have wr: "writeN E a ?n ?v = tlb_write E ?n a w"
    using n by (auto simp: writeN_def w_def write8_def write16_def write32_def write64_def)
  have st: "storeN d off ?n w = storeN d off ?n ?v" for d off
    by (rule ext) (simp add: storeN_arr_put acc_len_id [OF n4] e)
  show ?thesis
    using write_slow_bytes [OF h n4 e, of E a]
    by (simp add: hot_store_def stInt_def bnd_def gets_def wr tlb_write_def Let_def hot_hit_fits [OF n] st)
qed

end
