(* ===== verification/Cpu_Arith.thy ===== *)
theory Cpu_Arith
  imports Cpu_Flags
begin

text \<open>
  The shift, rotate, multiply, divide and bit-reversal primitives of the handlers, and the bitfield
  moves decoded through \<open>decodeBitMasks\<close>, against their architectural meaning.
\<close>

subsection \<open>Sign extension and rotation\<close>

lemma sext_bits:
  assumes "0 < n" "n \<le> 64"
  shows "bit (sext v n) i \<longleftrightarrow> i < 64 \<and> bit v (min i (n - 1))"
proof (cases "n = 64")
  case True
  then show ?thesis
    using bit_imp_le_length [of v i] by (auto simp: sext_def min_def)
next
  case False
  then have "n < 64" using assms by simp
  then show ?thesis
    using assms(1) by (auto simp: sext_def bit_signed_drop_bit_iff bit_push_bit_iff min_def not_le)
qed

lemma sext_value: "0 < n \<Longrightarrow> n \<le> 64 \<Longrightarrow> sint (sext v n) = signed_take_bit (n - 1) (uint v)"
  by (rule bit_eqI, cases "n = 64") (auto simp: bit_sint_iff bit_signed_take_bit_iff sext_bits bit_uint_iff min_def)

lemma rot_right_bits:
  fixes x :: "'a::len word"
  shows "bit (rot_right x n) i \<longleftrightarrow> i < LENGTH('a) \<and> bit x ((i + n) mod LENGTH('a))"
proof -
  let ?L = "LENGTH('a)"
  define s where "s = nat ((- int n) mod int ?L)"
  have s: "s < ?L" "int s = (- int n) mod int ?L"
    by (simp_all add: s_def nat_less_iff)
  have "(int s + int n) mod int ?L = 0"
    by (simp add: s(2) mod_add_left_eq)
  then have "int ?L dvd int (s + n)"
    by (simp add: dvd_eq_mod_eq_0)
  then have "?L dvd s + n"
    by (simp only: of_nat_dvd_iff)
  then obtain q where q: "s + n = q * ?L"
    by (metis dvd_def mult.commute)
  show ?thesis
  proof (cases "i < ?L")
    case False
    then show ?thesis using bit_imp_le_length by blast
  next
    case i: True
    have r: "(i + n) mod ?L = (if s \<le> i then i - s else ?L - s + i)"
    proof (cases "s \<le> i")
      case True
      then have "i + n = (i - s) + q * ?L" using q by simp
      then have "(i + n) mod ?L = (i - s) mod ?L" by (simp only: mod_mult_self1)
      then show ?thesis using True i by (simp add: less_imp_diff_less)
    next
      case False
      then have "q \<noteq> 0"
        using q i by (cases q) auto
      then obtain q' where "q = Suc q'" by (cases q) auto
      then have "i + n = (?L - s + i) + q' * ?L" using q s(1) by simp
      then have "(i + n) mod ?L = (?L - s + i) mod ?L" by (simp only: mod_mult_self1)
      then show ?thesis using False s(1) by simp
    qed
    have "bit x (?L - s + i) \<Longrightarrow> i < s"
      using bit_imp_le_length [of x "?L - s + i"] s(1) by simp
    then show ?thesis
      using i s(1) bit_imp_le_length [of x]
      by (auto simp: rot_left_def Let_def s_def [symmetric] bit_or_iff bit_push_bit_iff bit_drop_bit_eq r)
  qed
qed

lemma rot_right_word_rotr: "rot_right x n = word_rotr n x"
  by (rule bit_word_eqI) (simp add: rot_right_bits bit_word_rotr_iff)

subsection \<open>Bit and byte reversal\<close>

lemma reverse_bits_bit:
  fixes x :: "'a::len word"
  shows "bit (reverse_bits x) i \<longleftrightarrow> i < LENGTH('a) \<and> bit x (LENGTH('a) - 1 - i)"
  by (auto simp: reverse_bits_def bit_horner_sum_bit_word_iff rev_nth)

lemma reverse_bits_involution: "reverse_bits (reverse_bits x) = x"
  by (rule bit_word_eqI) (simp add: reverse_bits_bit)

lemma reverse_bytes64_involution: "reverse_bytes64 (reverse_bytes64 x) = x"
proof -
  have "le_bytes 8 (le_val (rev (le_bytes 8 x))) = rev (le_bytes 8 x)"
    using le_bytes_le_val [of "rev (le_bytes 8 x)"] by simp
  then have "reverse_bytes64 (reverse_bytes64 x) = le_val (le_bytes 8 x)"
    by (simp add: reverse_bytes64_def)
  also have "\<dots> = x"
    by (rule bit_word_eqI) (simp add: le_val_le_bytes bit_simps)
  finally show ?thesis .
qed

subsection \<open>High products\<close>

lemma umulh_correct: "unat (mul64_hi a b) = unat a * unat b div 2 ^ 64"
proof -
  have "unat a * unat b \<le> (2 ^ 64 - 1) * (2 ^ 64 - 1)"
    using unat_lt64 [of a] unat_lt64 [of b] by (intro mult_mono) auto
  then have "unat a * unat b div 2 ^ 64 < 2 ^ 64"
    by (simp add: div_less_iff_less_mult)
  then show ?thesis
    by (simp add: mul64_hi_def unat_of_nat take_bit_nat_eq_self)
qed

definition smulh :: "u64 \<Rightarrow> u64 \<Rightarrow> u64" where
  "smulh a b = mul64_hi a b - (b AND signed_drop_bit 63 a) - (a AND signed_drop_bit 63 b)"

lemma sign_mask: "signed_drop_bit 63 (a :: u64) = (if bit a 63 then - 1 else 0)"
proof (rule bit_word_eqI)
  fix i :: nat
  assume "i < LENGTH(64)"
  then show "bit (signed_drop_bit 63 a) i = bit (if bit a 63 then - 1 else 0 :: u64) i"
    by (cases i) (auto simp: bit_signed_drop_bit_iff)
qed

lemma sint_word_of_int_id:
  assumes "- (2 ^ (LENGTH('a::len) - 1)) \<le> k" "k < 2 ^ (LENGTH('a) - 1)"
  shows "sint (word_of_int k :: 'a word) = k"
  using assms by (simp add: signed_of_int signed_take_bit_int_eq_self)

lemma smulh_correct: "sint (smulh a b) = sint a * sint b div 2 ^ 64"
proof -
  let ?A = "uint a" and ?B = "uint b" and ?M = "2 ^ 64 :: int"
  define x where "x = (if bit a 63 then 1 else 0 :: int)"
  define y where "y = (if bit b 63 then 1 else 0 :: int)"
  have s: "sint a = ?A - ?M * x" "sint b = ?B - ?M * y"
    using top_uint64 [of a] top_uint64 [of b] by (simp_all add: x_def y_def)
  have "sint a * sint b = ?A * ?B + ?M * (?M * (x * y) - x * ?B - y * ?A)"
    unfolding s by (simp add: algebra_simps)
  then have q: "sint a * sint b div ?M = ?A * ?B div ?M + (?M * (x * y) - x * ?B - y * ?A)"
    by (simp only: div_mult_self2) simp
  have h: "mul64_hi a b = word_of_int (?A * ?B div ?M)"
  proof -
    have "?A * ?B div ?M = int (unat a * unat b div 2 ^ 64)"
      unfolding uint_nat by (simp add: zdiv_int del: of_nat_unat)
    then show ?thesis
      by (simp only: mul64_hi_def of_int_of_nat_eq)
  qed
  have m: "(b AND signed_drop_bit 63 a) = word_of_int (x * ?B)" "(a AND signed_drop_bit 63 b) = word_of_int (y * ?A)"
    by (simp_all add: sign_mask x_def y_def)
  have "(word_of_int (?M * (x * y)) :: u64) = 0"
  proof -
    have "(2 :: u64) ^ 64 = 0"
      by (simp only: exp_eq_zero_iff) simp
    then show ?thesis
      by (simp only: of_int_mult of_int_power of_int_numeral mult_zero_left)
  qed
  then have e: "smulh a b = word_of_int (sint a * sint b div ?M)"
    unfolding q smulh_def h m by simp
  have bound: "\<bar>sint a * sint b\<bar> \<le> 2 ^ 126"
  proof -
    have "\<bar>sint a\<bar> \<le> 2 ^ 63" "\<bar>sint b\<bar> \<le> 2 ^ 63"
      using sint_greater_eq [of a] sint_less [of a] sint_greater_eq [of b] sint_less [of b] by auto
    then have "\<bar>sint a\<bar> * \<bar>sint b\<bar> \<le> 2 ^ 63 * 2 ^ 63"
      by (intro mult_mono) auto
    then show ?thesis by (simp add: abs_mult)
  qed
  show ?thesis
    unfolding e using bound by (intro sint_word_of_int_id) (auto simp: abs_le_iff)
qed

subsection \<open>Division\<close>

lemma sdivide_correct:
  fixes a b :: "'a::len word"
  assumes "\<not> (sint a = - (2 ^ (LENGTH('a) - 1)) \<and> sint b = -1)"
  shows "sint (sdivide a b) = sint a sdiv sint b"
proof -
  let ?x = "sint a" and ?y = "sint b" and ?M = "2 ^ (LENGTH('a) - 1) :: int"
  have x: "- ?M \<le> ?x" "?x < ?M"
    using sint_greater_eq [of a] sint_less [of a] by simp_all
  have "\<bar>?x\<bar> div \<bar>?y\<bar> = int (nat \<bar>?x\<bar> div nat \<bar>?y\<bar>)"
    by (simp add: zdiv_int)
  moreover have "nat \<bar>?x\<bar> div nat \<bar>?y\<bar> \<le> nat \<bar>?x\<bar>"
    by (rule div_le_dividend)
  ultimately have q: "0 \<le> \<bar>?x\<bar> div \<bar>?y\<bar>" "\<bar>?x\<bar> div \<bar>?y\<bar> \<le> \<bar>?x\<bar>"
    by linarith+
  have d: "?x sdiv ?y = \<bar>?x\<bar> div \<bar>?y\<bar> \<or> ?x sdiv ?y = - (\<bar>?x\<bar> div \<bar>?y\<bar>)"
    by (auto simp: signed_divide_int_def sgn_if)
  have "?x sdiv ?y < ?M"
  proof (rule ccontr)
    assume "\<not> ?x sdiv ?y < ?M"
    moreover have "0 < ?M" by simp
    ultimately have big: "?M \<le> \<bar>?x\<bar> div \<bar>?y\<bar>" "0 < ?x sdiv ?y"
      using d q by linarith+
    then have min: "?x = - ?M"
      using q x by linarith
    then have "?y < 0"
      using big(2) q(1) by (auto simp: signed_divide_int_def sgn_if split: if_splits)
    moreover have "\<bar>?y\<bar> < 2"
    proof (rule ccontr)
      assume "\<not> \<bar>?y\<bar> < 2"
      then have "?M div \<bar>?y\<bar> \<le> ?M div 2"
        by (intro zdiv_mono2) auto
      moreover have "?M div 2 < ?M" by (rule int_div_less_self) simp_all
      ultimately show False
        using big(1) min by simp
    qed
    ultimately have "?y = - 1" by linarith
    with min assms show False by simp
  qed
  moreover have "- ?M \<le> ?x sdiv ?y"
    using d q x by linarith
  ultimately show ?thesis
    unfolding sdivide_def by (rule sint_word_of_int_id [rotated])
qed

lemma sdivide_overflow: "sdivide a (- 1) = - (a :: 'a::len word)"
proof -
  have "sint a sdiv - 1 = - sint a"
    by (simp add: signed_divide_int_def sgn_if)
  then show ?thesis
    by (simp add: sdivide_def)
qed

subsection \<open>Bitfield moves\<close>

text \<open>\<open>ones n\<close> is the low \<open>n\<close> bits set.\<close>

lemma leading_zeros_bound: "leading_zeros (x :: 'a::len word) \<le> LENGTH('a)"
  using length_takeWhile_le [of "\<lambda>i. \<not> bit x i" "rev [0..<LENGTH('a)]"]
  by (simp add: leading_zeros_def)

text \<open>\<open>31 - LeadingZeros32\<close> is the highest set bit.\<close>

lemma leading_zeros_eq:
  fixes x :: "'a::len word"
  assumes "bit x k" "\<And>j. k < j \<Longrightarrow> \<not> bit x j"
  shows "leading_zeros x = LENGTH('a) - 1 - k"
proof -
  have k: "k < LENGTH('a)" using assms(1) by (rule bit_imp_le_length)
  have split: "rev [0..<LENGTH('a)] = rev [Suc k..<LENGTH('a)] @ k # rev [0..<k]"
    using k by (metis append_Cons append_Nil append_assoc le0 less_imp_le_nat rev_append rev_singleton_conv
        rev.simps(2) upt_add_eq_append upt_conv_Cons le_add_diff_inverse)
  have "takeWhile (\<lambda>i. \<not> bit x i) (rev [Suc k..<LENGTH('a)] @ k # rev [0..<k]) = rev [Suc k..<LENGTH('a)]"
    using assms by (subst takeWhile_append2) auto
  then show ?thesis
    using k by (simp add: leading_zeros_def split)
qed

lemma and63: "(x :: u32) AND 63 = take_bit 6 x"
  by (simp add: take_bit_eq_mask mask_eq_exp_minus_1)

lemma unat_and63: "unat ((x :: u32) AND 63) = unat x mod 64"
  by (simp only: and63 unsigned_take_bit_eq) (simp add: take_bit_eq_mod)

lemma level64: "leading_zeros (push_bit 6 (1 :: u32) OR (NOT imms AND 63)) = 25"
proof -
  have "leading_zeros (push_bit 6 (1 :: u32) OR (NOT imms AND 63)) = LENGTH(32) - 1 - 6"
  proof (rule leading_zeros_eq)
    show "bit (push_bit 6 (1 :: u32) OR (NOT imms AND 63)) 6"
      by (simp only: bit_or_iff bit_push_bit_iff bit_1_iff) simp
    show "\<not> bit (push_bit 6 (1 :: u32) OR (NOT imms AND 63)) j" if "6 < j" for j
      using that by (simp only: and63 bit_or_iff bit_push_bit_iff bit_1_iff bit_take_bit_iff) auto
  qed
  then show ?thesis by simp
qed

lemma ones_mask:
  fixes s :: u32
  assumes "unat s < 64"
  shows "(if s + 1 = 64 then NOT 0 else push_bit (unat (s + 1)) 1 - 1 :: u64) = mask (Suc (unat s))"
proof -
  have u: "unat (s + 1) = Suc (unat s)"
    using assms by (subst unat_add_lem [THEN iffD1]) simp_all
  show ?thesis
  proof (cases "s + 1 = 64")
    case True
    then have "Suc (unat s) = 64" using u by simp
    then show ?thesis
      using True by (intro bit_word_eqI) (simp add: bit_simps)
  next
    case False
    then show ?thesis
      unfolding u by (simp add: mask_eq_exp_minus_1 push_bit_eq_mult)
  qed
qed

lemma replicate64: "replicate_bits v 64 64 = v"
  by (simp add: replicate_bits_def rep_loop.simps)

lemma bitmasks64:
  assumes s: "unat imms < 64" and r: "unat immr < 64"
  shows "decodeBitMasks 1 imms immr False 64 =
    Some (rot_right (mask (Suc (unat imms))) (unat immr), mask (Suc ((64 + unat imms - unat immr) mod 64)))"
proof -
  have eq: "imms AND 63 = imms" "immr AND 63 = immr"
    using s r by (simp_all add: word_unat_eq_iff unat_and63)
  have d: "unat ((imms - immr) AND 63) = (64 + unat imms - unat immr) mod 64"
  proof (cases "immr \<le> imms")
    case True
    then have "unat (imms - immr) = unat imms - unat immr" "unat immr \<le> unat imms"
      by (simp_all add: unat_sub word_le_nat_alt)
    moreover have "64 + unat imms - unat immr = (unat imms - unat immr) + 1 * 64"
      using calculation(2) by simp
    ultimately show ?thesis
      by (simp only: unat_and63 mod_mult_self1)
  next
    case False
    then have lt: "unat imms < unat immr" by (simp add: word_le_nat_alt)
    then have "unat (imms - immr) = 2 ^ 32 + unat imms - unat immr"
      by (simp add: unat_sub_if_size word_size)
    also have "\<dots> = (64 + unat imms - unat immr) + 67108863 * 64"
      using lt r by simp
    finally show ?thesis
      by (simp only: unat_and63 mod_mult_self1)
  qed
  have l: "31 - int 25 = 6" "((6 :: int) < 1) = False" "((64 :: nat) < 64) = False"
    and lev: "push_bit (nat 6) (1 :: u32) - 1 = 63" "(2 :: nat) ^ nat 6 = 64"
    by simp_all
  have w: "unat (imms + 1 :: u32) = Suc (unat imms)"
    using s by (subst unat_add_lem [THEN iffD1]) simp_all
  let ?d = "(imms - immr) AND 63"
  have dlt: "unat ?d < 64" by (simp add: d)
  have rot: "(if immr \<noteq> 0 then (drop_bit (unat immr) x OR push_bit (64 - unat immr) x) AND NOT 0 else x)
      = rot_right x (unat immr)" for x :: u64
  proof (rule bit_word_eqI)
    fix i :: nat
    assume i: "i < LENGTH(64)"
    then have i: "i < 64" by simp
    have z: "immr = 0 \<longleftrightarrow> unat immr = 0" by (simp add: unat_0_iff)
    have big: "64 \<le> k \<Longrightarrow> \<not> bit x k" for k
      using bit_imp_le_length [of x k] by auto
    have m: "(i + unat immr) mod 64 = (if i + unat immr < 64 then i + unat immr else i + unat immr - 64)"
      using i r by (simp add: mod_if)
    have lhs: "bit (if immr \<noteq> 0 then (drop_bit (unat immr) x OR push_bit (64 - unat immr) x) AND NOT 0 else x) i
        \<longleftrightarrow> (if unat immr = 0 then bit x i
            else bit x (i + unat immr) \<or> (64 - unat immr \<le> i \<and> bit x (i - (64 - unat immr))))"
      using i unfolding z by (simp add: bit_simps add.commute)
    show "bit (if immr \<noteq> 0 then (drop_bit (unat immr) x OR push_bit (64 - unat immr) x) AND NOT 0 else x) i
        = bit (rot_right x (unat immr)) i"
    proof (cases "i + unat immr < 64")
      case True
      then show ?thesis
        unfolding lhs rot_right_bits using i m by (cases "unat immr = 0") auto
    next
      case False
      then have "i - (64 - unat immr) = i + unat immr - 64" "unat immr \<noteq> 0" "64 - unat immr \<le> i"
        using i r by auto
      then show ?thesis
        unfolding lhs rot_right_bits using i m False big [of "i + unat immr"] by simp
    qed
  qed
  show ?thesis
    by (simp only: decodeBitMasks_def level64 Let_def l lev eq ones_mask [OF s] ones_mask [OF dlt] rot
        replicate64 d simp_thms if_True if_False)
qed

text \<open>UBFM and SBFM on 64 bits: extract from bit \<open>r\<close> up to \<open>s\<close>, or insert the low bits at \<open>64 - r\<close>.\<close>

definition ubfm_spec :: "nat \<Rightarrow> nat \<Rightarrow> u64 \<Rightarrow> u64" where
  "ubfm_spec r s x = (if r \<le> s then drop_bit r x AND mask (s - r + 1)
                      else push_bit (64 - r) (x AND mask (s + 1)))"

definition sbfm_spec :: "nat \<Rightarrow> nat \<Rightarrow> u64 \<Rightarrow> u64" where
  "sbfm_spec r s x = (if r \<le> s then signed_drop_bit r (sext x (s + 1))
                      else push_bit (64 - r) (sext x (s + 1)))"

lemma rot_index: "i < 64 \<Longrightarrow> r < (64 :: nat) \<Longrightarrow>
  (i + r) mod 64 = (if i + r < 64 then i + r else i + r - 64)"
  by (simp add: mod_if)

lemma tmask_len: "r < 64 \<Longrightarrow> s < (64 :: nat) \<Longrightarrow>
  (64 + s - r) mod 64 = (if r \<le> s then s - r else 64 + s - r)"
proof -
  assume a: "r < 64" "s < (64 :: nat)"
  show ?thesis
  proof (cases "r \<le> s")
    case True
    then have "64 + s - r = (s - r) + 1 * 64" by simp
    then have "(64 + s - r) mod 64 = (s - r) mod 64" by (simp only: mod_mult_self1)
    then show ?thesis using True a by simp
  qed (use a in simp)
qed

lemma ubfm_value:
  assumes "r < 64" "s < 64"
  shows "rot_right x r AND rot_right (mask (Suc s)) r AND mask (Suc ((64 + s - r) mod 64)) = ubfm_spec r s x"
proof (rule bit_word_eqI)
  fix i :: nat
  assume "i < LENGTH(64)"
  then have i: "i < 64" by simp
  have L: "bit (rot_right x r AND rot_right (mask (Suc s)) r AND mask (Suc ((64 + s - r) mod 64))) i \<longleftrightarrow>
      bit x ((i + r) mod 64) \<and> (i + r) mod 64 < Suc s \<and> i < Suc ((64 + s - r) mod 64)"
    using i assms by (simp add: bit_and_iff rot_right_bits bit_mask_iff)
  have R: "bit (ubfm_spec r s x) i \<longleftrightarrow>
      (if r \<le> s then bit x (r + i) \<and> i < s - r + 1
       else 64 - r \<le> i \<and> bit x (i - (64 - r)) \<and> i - (64 - r) < s + 1)"
    using i by (simp add: ubfm_spec_def bit_simps) auto
  show "bit (rot_right x r AND rot_right (mask (Suc s)) r AND mask (Suc ((64 + s - r) mod 64))) i =
      bit (ubfm_spec r s x) i"
    unfolding L R
    unfolding rot_index [OF i assms(1)] tmask_len [OF assms]
  proof (cases "i + r < 64")
    case False
    then have "i - (64 - r) = i + r - 64" using assms by simp
    then show "(bit x (if i + r < 64 then i + r else i + r - 64) \<and> (if i + r < 64 then i + r else i + r - 64) < Suc s \<and>
        i < Suc (if r \<le> s then s - r else 64 + s - r)) =
      (if r \<le> s then bit x (r + i) \<and> i < s - r + 1
       else 64 - r \<le> i \<and> bit x (i - (64 - r)) \<and> i - (64 - r) < s + 1)"
      using False i assms bit_imp_le_length [of x "r + i"] by auto
  qed (use i assms in \<open>auto simp: add.commute\<close>)
qed

lemma sign_top: "s < 64 \<Longrightarrow> signed_drop_bit 63 (push_bit (63 - s) (x :: u64)) = (if bit x s then - 1 else 0)"
  by (simp add: sign_mask bit_push_bit_iff)

lemma sbfm_value:
  assumes "r < 64" "s < 64"
  shows "signed_drop_bit 63 (push_bit (63 - s) x) AND NOT (mask (Suc ((64 + s - r) mod 64))) OR
    (rot_right x r AND rot_right (mask (Suc s)) r) AND mask (Suc ((64 + s - r) mod 64)) = sbfm_spec r s x"
proof (rule bit_word_eqI)
  fix i :: nat
  assume "i < LENGTH(64)"
  then have i: "i < 64" by simp
  let ?t = "(64 + s - r) mod 64"
  have L: "bit (signed_drop_bit 63 (push_bit (63 - s) x) AND NOT (mask (Suc ?t)) OR
      (rot_right x r AND rot_right (mask (Suc s)) r) AND mask (Suc ?t)) i \<longleftrightarrow>
      (if i < Suc ?t then bit x ((i + r) mod 64) \<and> (i + r) mod 64 < Suc s else bit x s)"
    using i assms unfolding sign_top [OF assms(2)]
    by (simp add: bit_and_iff bit_or_iff bit_not_iff rot_right_bits bit_mask_iff)
  have R: "bit (sbfm_spec r s x) i \<longleftrightarrow>
      (if r \<le> s then bit x (min (if 64 - r \<le> i then 63 else r + i) s)
       else 64 - r \<le> i \<and> bit x (min (i - (64 - r)) s))"
    using i assms by (simp add: sbfm_spec_def bit_simps sext_bits) auto
  show "bit (signed_drop_bit 63 (push_bit (63 - s) x) AND NOT (mask (Suc ?t)) OR
      (rot_right x r AND rot_right (mask (Suc s)) r) AND mask (Suc ?t)) i = bit (sbfm_spec r s x) i"
    unfolding L R
    unfolding rot_index [OF i assms(1)] tmask_len [OF assms]
    using i assms by (cases "s = 63") (auto simp: min_def add.commute)
qed

lemma fields_bfm:
  assumes "fld raw 23 63 = 38"
  shows "fld raw 25 15 = 9" "fld raw 23 7 = 6"
proof -
  have "fld raw 25 15 = drop_bit 2 (fld raw 23 63)"
  proof -
    have "(15 :: u32) = mask 4" "(63 :: u32) = mask 6"
      by (simp_all add: mask_eq_exp_minus_1)
    then show ?thesis
      by (simp only:) (rule bit_word_eqI, auto simp: bit_simps)
  qed
  with assms show "fld raw 25 15 = 9" by simp
  have "fld raw 23 7 = fld raw 23 63 AND 7"
    by (simp add: and.assoc)
  with assms show "fld raw 23 7 = 6" by simp
qed

text \<open>
  A 64-bit UBFM or SBFM encoding, decoded and executed: \<open>LSR\<close>, \<open>LSL\<close>, \<open>UBFX\<close>, \<open>UXTB\<close>, \<open>ASR\<close>, \<open>SXTW\<close>
  are its aliases.
\<close>

lemma bitfield_exec:
  fixes c :: "'a cpu_scheme" and simd :: "inst \<Rightarrow> u32 \<Rightarrow> inst" and pc :: u64
  assumes g: "fld raw 23 63 = 38" and sf: "drop_bit 31 raw = 1" and n: "fld raw 22 1 = 1"
  defines "r \<equiv> unat (fld raw 16 63)" and "s \<equiv> unat (fld raw 10 63)"
    and "i \<equiv> decode simd inst0 raw pc"
  shows "fld raw 29 3 = 2 \<Longrightarrow> i_fn i = Some (HImm OpUbfm64) \<and>
      exec_imm OpUbfm64 i c = wr (xw (raw AND 31)) (ubfm_spec r s (c_R c (xr (fld raw 5 31)))) c"
    and "fld raw 29 3 = 0 \<Longrightarrow> i_fn i = Some (HImm OpSbfm64) \<and>
      exec_imm OpSbfm64 i c = wr (xw (raw AND 31)) (sbfm_spec r s (c_R c (xr (fld raw 5 31)))) c"
proof -
  have lt: "unat (fld raw 16 63) < 64" "unat (fld raw 10 63) < 64"
    by (simp_all add: unat_and63)
  have u8: "unat (u8_of x) = unat x" if "unat x < 64" for x :: u32
    using that by (simp add: unsigned_ucast_eq take_bit_nat_eq_self)
  note m = bitmasks64 [OF lt(2,1)]
  have d: "decode simd inst0 raw pc = decodeDPImm inst0 raw pc"
    using fields_bfm(1) [OF g] by (simp add: decode_def)
  show "fld raw 29 3 = 2 \<Longrightarrow> i_fn i = Some (HImm OpUbfm64) \<and>
      exec_imm OpUbfm64 i c = wr (xw (raw AND 31)) (ubfm_spec r s (c_R c (xr (fld raw 5 31)))) c"
    using ubfm_value [OF lt] fields_bfm(2) [OF g]
    by (simp add: i_def d decodeDPImm_def sf n m Let_def pick4x2_def r_def s_def u8 [OF lt(1)] and.assoc)
  have t: "unat (63 - u8_of (fld raw 10 63)) = 63 - unat (fld raw 10 63)"
    using u8 [OF lt(2)] lt(2) by (simp add: unat_sub word_le_nat_alt)
  show "fld raw 29 3 = 0 \<Longrightarrow> i_fn i = Some (HImm OpSbfm64) \<and>
      exec_imm OpSbfm64 i c = wr (xw (raw AND 31)) (sbfm_spec r s (c_R c (xr (fld raw 5 31)))) c"
    using sbfm_value [OF lt] fields_bfm(2) [OF g]
    by (simp add: i_def d decodeDPImm_def sf n m Let_def pick4x2_def r_def s_def u8 [OF lt(1)] t and.assoc)
qed

end
