(* ===== verification/Sample_Machine.thy ===== *)
theory Sample_Machine
  imports Cpu_Regs Cpu_Quiet Cpu_Access Cpu_Arith
begin

text \<open>
  The CPU as \<open>New\<close> makes it, and a small machine set up the way an embedder does: two pages mapped
  readable, writable and executable at 0x1000, one instruction written into the first, the PC on
  it. It is the concrete state the properties are instantiated with.
\<close>

definition New :: cpu where
  "New = mem_init
     \<lparr>m_l1 = (\<lambda>_. None), m_rtlb = (\<lambda>_. \<lparr>t_vpn = 0, t_data = 0\<rparr>), m_wtlb = (\<lambda>_. \<lparr>t_vpn = 0, t_data = 0\<rparr>),
      m_fetchVPN = 0, m_fetchCode = None, m_ctlb = (\<lambda>_. \<lparr>c_vpn = 0, c_code = None\<rparr>),
      m_invalid = [], m_rhooks = [], m_whooks = [],
      m_pages = (\<lambda>_. \<lparr>p_data = None, p_prot = 0, p_code = None\<rparr>), m_npage = 0,
      m_arrs = (\<lambda>_ _. 0), m_narr = 1, m_codes = (\<lambda>_. \<lparr>cp_pg = 0, cp_insts = (\<lambda>_. inst0)\<rparr>), m_ncode = 0,
      m_pc = 0, c_R = (\<lambda>_. 0), c_NZCV = 0, c_V = (\<lambda>_. (0, 0)), c_FPCR = 0, c_FPSR = 0, c_TPIDR = 0,
      c_TPIDRRO = 0, c_exclAddr = 0, c_exclVal = 0, c_exclVal2 = 0, c_exclSize = 0, c_exclValid = False,
      c_icount = 0, c_stopReq = False, c_codeHooks = [], c_intrHooks = []\<rparr>"

lemma mem_init_inv: "mem_inv D (mem_init m)"
proof -
  have l: "lookup (mem_init m) v = None" for v
    by (simp add: lookup_def mem_init_def)
  show ?thesis
    by (simp add: inv_defs l) (simp add: mem_init_def)
qed

lemma Release_inv: "mem_inv D (Release c)"
  using mem_init_inv [of D c] by (simp add: Release_def)

lemma New_blank [simp]: "mbyte New x = None" "mprot New x = None"
  by (simp_all add: New_def mbyte_def mprot_def lookup_def mem_init_def)

lemma map_page_outside: "outside_eq m (map_page q v m)"
  by (simp add: outside_eq_def map_page_def)

lemma outside_eq_trans: "outside_eq a b \<Longrightarrow> outside_eq b c \<Longrightarrow> outside_eq a c"
  by (simp add: outside_eq_def)

lemma outside_eq_refl [simp]: "outside_eq a a"
  by (simp add: outside_eq_def)

lemma fold_map_page_outside: "outside_eq m (fold (map_page q) vs m)"
  by (induction vs arbitrary: m) (auto intro: outside_eq_trans map_page_outside)

lemma mem_map_outside: "outside_eq m (snd (mem_map a n q m))"
  by (simp add: mem_map_def fold_map_page_outside split: sum.split option.split prod.split)

lemma host_write_loop_outside: "outside_eq m (host_write_loop a src m)"
proof (induction a src m rule: host_write_loop.induct)
  case (1 a src m)
  show ?case
  proof (cases "src = []")
    case True
    then show ?thesis by (simp add: host_write_loop.simps)
  next
    case False
    have "outside_eq m (case lookup m (vpn_of a) of None \<Rightarrow> m
      | Some p \<Rightarrow> let m1 = writable (vpn_of a) p m
          in arr_put (page_data m1 p) (off_of a) (take (min (4096 - unat (off_of a)) (length src)) src) m1)"
      by (auto simp: Let_def split: option.splits intro: outside_eq_trans outside_eq_prims)
    then show ?thesis
      using 1 [OF False] False by (subst host_write_loop.simps) (auto simp: Let_def intro: outside_eq_trans)
  qed
qed

lemma host_write_outside: "outside_eq m (snd (host_write a src m))"
  by (simp add: host_write_def host_write_loop_outside split: option.splits)

subsection \<open>The sample machine\<close>

text \<open>\<open>add x0, x0, #1\<close>\<close>

abbreviation sample_code :: "u8 list" where
  "sample_code \<equiv> [0x00, 0x04, 0x00, 0x91]"

definition sample0 :: cpu where
  "sample0 = snd (mem_map 0x1000 0x2000 7 New)"

definition sample :: cpu where
  "sample = (snd (host_write 0x1000 sample_code sample0))\<lparr>m_pc := 0x1000\<rparr>"

definition plain_env :: "cpu env" where
  "plain_env = \<lparr>inv_fn = (\<lambda>_ _ _ _ _ c. (False, c)), mem_fn = (\<lambda>_ _ _ _ c. c), code_fn = (\<lambda>_ _ c. c),
     intr_fn = (\<lambda>_ _ c. c), simd_fn = (\<lambda>_ _. throw (Undefined 0 0))\<rparr>"

definition no_simd :: "inst \<Rightarrow> u32 \<Rightarrow> inst" where
  "no_simd i raw = i"

lemma plain_env_ok: "cpu_env_ok D plain_env" "zr_env_ok plain_env" "quiet_simd plain_env" "no_stop_simd plain_env"
  by (simp_all add: cpu_env_ok_def env_ok_def plain_env_def zr_env_ok_def quiet_simd_def no_stop_simd_def
      no_stop_def throw_def keeps_def)

lemma no_simd_only: "simd_only no_simd"
  by (simp add: simd_only_def no_simd_def inst0_fields)

lemma sample_good: "good_range 0x1000 0x2000"
  by (simp add: good_range_def)

lemma sample0_ok: "mem_map 0x1000 0x2000 7 New = (Inr (), sample0)"
proof -
  have "\<exists>m'. mem_map 0x1000 0x2000 7 New = (Inr (), m')"
    by (simp add: mem_map_succeeds sample_good)
  then show ?thesis by (auto simp: sample0_def)
qed

lemma New_inv: "mem_inv D New"
  by (simp add: New_def mem_init_inv)

lemma sample0_inv: "mem_inv D sample0"
  using mem_map_inv [OF New_inv] by (simp add: sample0_def)

lemma sample0_byte: "mbyte sample0 x = (if x - 0x1000 < 0x2000 then Some 0 else None)"
  and sample0_prot: "mprot sample0 x = (if x - 0x1000 < 0x2000 then Some 7 else None)"
  using mem_map_effect [OF New_inv sample0_ok] by simp_all

lemma small_index: "k < 4 \<Longrightarrow> (of_nat k :: u64) < 0x2000"
proof -
  assume "k < 4"
  then consider "k = 0" | "k = 1" | "k = 2" | "k = 3" by linarith
  then show ?thesis by cases simp_all
qed

lemma sample_effect:
  "mem_inv D sample" "mbyte sample = mem_put 0x1000 sample_code (mbyte sample0)" "mprot sample = mprot sample0"
proof -
  have b: "\<forall>k < length sample_code. mbyte sample0 (0x1000 + of_nat k) \<noteq> None"
    using small_index by (simp add: sample0_byte)
  obtain m' where w: "host_write 0x1000 sample_code sample0 = (Inr (), m')"
    "mbyte m' = mem_put 0x1000 sample_code (mbyte sample0)" "mprot m' = mprot sample0"
    by (rule host_write_correct [OF sample0_inv _ _ b]) simp_all
  have s: "mbyte (m'\<lparr>m_pc := p\<rparr>) = mbyte m'" "mprot (m'\<lparr>m_pc := p\<rparr>) = mprot m'" for p
    by (simp_all add: mbyte_def mprot_def page_data_def fun_eq_iff)
  show "mem_inv D sample"
    using host_write_inv [OF sample0_inv] by (simp add: sample_def)
  show "mbyte sample = mem_put 0x1000 sample_code (mbyte sample0)" "mprot sample = mprot sample0"
    using w s by (simp_all add: sample_def)
qed

lemma sample_allows: "allows need sample a \<longleftrightarrow> a - 0x1000 < 0x2000 \<and> 7 AND need \<noteq> 0"
  by (simp add: allows_def sample_effect(3) sample0_prot)

lemma sample_unmapped: "mbyte sample a = None \<longleftrightarrow> \<not> a - 0x1000 < 0x2000"
proof -
  have "mbyte sample a = None \<longleftrightarrow> mprot sample a = None"
    by (simp add: mbyte_None_iff mprot_def)
  then show ?thesis
    by (simp add: sample_effect(3) sample0_prot)
qed

lemma sample_fields:
  "no_mem_hooks sample" "c_codeHooks sample = []" "c_intrHooks sample = []" "\<not> c_stopReq sample"
  "m_pc sample = 0x1000" "c_R sample = (\<lambda>_. 0)" "c_NZCV sample = 0" "c_icount sample = 0"
  "c_exclValid sample = False"
proof -
  define s where "s = snd (host_write 0x1000 sample_code sample0)"
  have o: "outside_eq New s"
    using outside_eq_trans [OF mem_map_outside host_write_outside] by (simp add: sample0_def s_def)
  then have f: "m_invalid s = []" "m_rhooks s = []" "m_whooks s = []" and m: "memory.more s = memory.more New"
    by (simp_all add: outside_eq_def New_def mem_init_def)
  show "no_mem_hooks sample" "c_codeHooks sample = []" "c_intrHooks sample = []" "\<not> c_stopReq sample"
    "m_pc sample = 0x1000" "c_R sample = (\<lambda>_. 0)" "c_NZCV sample = 0" "c_icount sample = 0"
    "c_exclValid sample = False"
    using f more_fields [OF m]
    by (simp_all add: sample_def no_mem_hooks_def s_def [symmetric]) (simp_all add: New_def mem_init_def)
qed

lemma sample_word: "mbytes sample 0x1000 4 = sample_code"
  by (simp add: mbytes_def sample_effect mem_put_def upt_rec)

end
