(* ===== verification/Memory_Props.thy ===== *)
theory Memory_Props
  imports Sample_Machine
begin

text \<open>
  What the guest memory of internal/arm64/mem.go guarantees to the CPU and to the host.
\<close>

lemma mem_map_fails: "\<forall>m'. mem_map a n prot m \<noteq> (Inr (), m') \<Longrightarrow> \<exists>e. mem_map a n prot m = (Inl e, m)"
  by (fastforce simp: mem_map_def split: sum.splits option.splits if_splits prod.splits)

lemma unmap_cases: "mem_unmap a n m = (case check_mapped a n m of Inl e \<Rightarrow> (Inl e, m) | Inr _ \<Rightarrow> (Inr (), snd (mem_unmap a n m)))"
  by (simp add: mem_unmap_def split: sum.splits prod.splits)

lemma check_mapped_cases:
  "if good_range a n \<and> (\<forall>x. x - a < n \<longrightarrow> mbyte m x \<noteq> None) then \<exists>r. check_mapped a n m = Inr r
   else \<exists>e. check_mapped a n m = Inl e"
  using check_mapped_good [of a n m] by (cases "check_mapped a n m") auto

lemma host_check_fails: "host_check a n m \<noteq> None \<Longrightarrow> \<exists>e. host_read a n m = (Inl e, m)"
  by (auto simp: host_read_def)

subsection \<open>Mapping\<close>

text \<open>
  C8: \<open>Map\<close> succeeds exactly on a page-aligned, non-empty range below 2^48 with a valid protection
  and no mapped byte in it; it then adds zero bytes with that protection at exactly those addresses.
  Otherwise it reports an error and changes nothing.
\<close>
theorem map_law:
  assumes m: "mem_inv D m"
  shows "if good_range a n \<and> prot AND NOT 7 = 0 \<and> (\<forall>x. x - a < n \<longrightarrow> mbyte m x = None)
    then \<exists>m'. mem_map a n prot m = (Inr (), m') \<and>
      (\<forall>x. mbyte m' x = (if x - a < n then Some 0 else mbyte m x) \<and>
           mprot m' x = (if x - a < n then Some (ucast prot) else mprot m x))
    else \<exists>e. mem_map a n prot m = (Inl e, m)"
proof (cases "\<exists>m'. mem_map a n prot m = (Inr (), m')")
  case True
  then obtain m' where ok: "mem_map a n prot m = (Inr (), m')" by blast
  then show ?thesis
    using mem_map_effect [OF m ok] True unfolding mem_map_succeeds by (simp del: bit.conj_disj_distrib2)
next
  case False
  then show ?thesis
    using mem_map_fails unfolding mem_map_succeeds [symmetric] by metis
qed

theorem map_law_witness:
  "\<exists>m'. mem_map 0x5000 0x1000 3 New = (Inr (), m') \<and> mbyte m' 0x5abc = Some 0 \<and> mprot m' 0x5abc = Some 3
      \<and> mbyte m' 0x6000 = None"
  using map_law [OF New_inv, where a = "0x5000" and n = "0x1000" and prot = 3] by (auto simp: good_range_def)

text \<open>
  \<open>Unmap\<close> succeeds exactly on a well-formed range in which every byte is mapped, and then removes
  exactly those bytes; otherwise it reports an error and changes nothing.
\<close>
theorem unmap_law:
  "if good_range a n \<and> (\<forall>x. x - a < n \<longrightarrow> mbyte m x \<noteq> None)
   then \<exists>m'. mem_unmap a n m = (Inr (), m') \<and>
      (\<forall>x. mbyte m' x = (if x - a < n then None else mbyte m x) \<and>
           mprot m' x = (if x - a < n then None else mprot m x))
   else \<exists>e. mem_unmap a n m = (Inl e, m)"
proof (cases "\<exists>r. check_mapped a n m = Inr r")
  case True
  then have ok: "mem_unmap a n m = (Inr (), snd (mem_unmap a n m))"
    using unmap_cases [of a n m] by auto
  then show ?thesis
    using mem_unmap_effect [OF ok] True unfolding check_mapped_good by auto
next
  case False
  then show ?thesis
    using unmap_cases [of a n m] unfolding check_mapped_good [symmetric]
    by (cases "check_mapped a n m") auto
qed

theorem unmap_law_witness:
  "\<exists>m'. mem_unmap 0x2000 0x1000 sample = (Inr (), m') \<and> mbyte m' 0x2abc = None \<and> mbyte m' 0x1003 = Some 0x91"
proof -
  have "x - 0x2000 < 0x1000 \<Longrightarrow> x - 0x1000 < (0x2000 :: u64)" for x
    by unat_arith
  then have "x - 0x2000 < 0x1000 \<Longrightarrow> mbyte sample x \<noteq> None" for x
    by (auto simp: sample_unmapped)
  then show ?thesis
    using unmap_law [where a = "0x2000" and n = "0x1000" and m = sample] by (auto simp: good_range_def sample_effect mem_put_def)
qed

text \<open>
  \<open>Protect\<close> succeeds exactly on a well-formed, fully mapped range with a valid protection; it then
  changes the protection of exactly those addresses and no byte. Otherwise it changes nothing.
\<close>
theorem protect_law:
  assumes m: "mem_inv D m"
  shows "if good_range a n \<and> prot AND NOT 7 = 0 \<and> (\<forall>x. x - a < n \<longrightarrow> mbyte m x \<noteq> None)
    then \<exists>m'. mem_protect a n prot m = (Inr (), m') \<and> mbyte m' = mbyte m \<and>
      (\<forall>x. mprot m' x = (if x - a < n then Some (ucast prot) else mprot m x))
    else \<exists>e. mem_protect a n prot m = (Inl e, m)"
proof (cases "prot AND NOT 7 = 0 \<and> (\<exists>r. check_mapped a n m = Inr r)")
  case True
  then have ok: "mem_protect a n prot m = (Inr (), snd (mem_protect a n prot m))"
    by (auto simp: mem_protect_def split: prod.splits)
  then show ?thesis
    using mem_protect_effect [OF m ok] True unfolding check_mapped_good by auto
next
  case False
  then have "\<exists>e. mem_protect a n prot m = (Inl e, m)"
    by (cases "check_mapped a n m") (auto simp: mem_protect_def)
  then show ?thesis
    using False unfolding check_mapped_good by auto
qed

theorem protect_law_witness:
  "\<exists>m'. mem_protect 0x1000 0x2000 1 sample = (Inr (), m') \<and> mprot m' 0x1000 = Some 1 \<and> mbyte m' 0x1003 = Some 0x91"
proof -
  have "x - 0x1000 < 0x2000 \<Longrightarrow> mbyte sample x \<noteq> None" for x
    by (auto simp: sample_unmapped)
  then show ?thesis
    using protect_law [OF sample_effect(1), where a = "0x1000" and n = "0x2000" and prot = 1]
    by (auto simp: good_range_def sample_effect mem_put_def)
qed

subsection \<open>Host access\<close>

lemma host_check_wraps:
  assumes "n < 2 ^ 63" "2 ^ 64 \<le> unat a + n"
  shows "host_check a n m \<noteq> None"
proof -
  have k: "unat (of_nat n :: u64) = n"
    using assms by (simp add: unat_of_nat take_bit_nat_eq_self)
  have "a + of_nat n < a"
    using assms k unat_lt64 [of a] by (simp add: word_less_nat_alt unat_add64)
  moreover have "n \<noteq> 0"
    using assms unat_lt64 [of a] by (intro notI) simp
  ultimately show ?thesis
    by (simp add: host_check_def)
qed

lemma host_check_iff:
  assumes "n < 2 ^ 63"
  shows "host_check a n m = None \<longleftrightarrow> unat a + n < 2 ^ 64 \<and> (\<forall>k < n. mbyte m (a + of_nat k) \<noteq> None)"
proof (cases "n = 0")
  case True
  then show ?thesis
    using unat_lt64 [of a] by (simp add: host_check_def)
next
  case False
  then show ?thesis
    using host_check_None [of n a m] host_check_wraps [OF assms, of a m] by (cases "unat a + n < 2 ^ 64") auto
qed

lemma mbytes_put: "length bs < 2 ^ 63 \<Longrightarrow> mbyte m' = mem_put a bs f \<Longrightarrow> mbytes m' a (length bs) = bs"
  by (rule nth_equalityI)
    (simp_all add: mbytes_def mem_put_def unat_of_nat take_bit_nat_eq_self)

text \<open>
  C9: the host reads and writes exactly the mapped bytes, whatever the protection and the caches:
  a read gives the bytes, a write changes them and nothing else and is read back, and both refuse a
  range that wraps around or has an unmapped byte, changing nothing. (\<open>len\<close> of a Go slice is below
  2^63.)
\<close>
theorem host_access_law:
  assumes m: "mem_inv D m" and n: "length src < 2 ^ 63"
  shows "if unat a + length src < 2 ^ 64 \<and> (\<forall>k < length src. mbyte m (a + of_nat k) \<noteq> None)
    then host_read a (length src) m = (Inr (mbytes m a (length src)), m) \<and>
      (\<exists>m'. host_write a src m = (Inr (), m') \<and> mbyte m' = mem_put a src (mbyte m) \<and> mprot m' = mprot m \<and>
         host_read a (length src) m' = (Inr src, m'))
    else \<exists>e. host_read a (length src) m = (Inl e, m) \<and> host_write a src m = (Inl e, m)"
proof (cases "unat a + length src < 2 ^ 64 \<and> (\<forall>k < length src. mbyte m (a + of_nat k) \<noteq> None)")
  case True
  obtain m' where w: "host_write a src m = (Inr (), m')" "mbyte m' = mem_put a src (mbyte m)" "mprot m' = mprot m"
    using host_write_correct [OF m, of a src] True n by blast
  have m': "mem_inv D m'"
    using host_write_inv [OF m, of a src] w(1) by simp
  have k: "unat (of_nat k :: u64) = k" if "k < length src" for k
    using that n by (simp add: unat_of_nat take_bit_nat_eq_self)
  have all: "\<forall>k < length src. mbyte m' (a + of_nat k) \<noteq> None"
    by (simp add: w(2) mem_put_def k)
  have "host_read a (length src) m' = (Inr src, m')"
    using host_read_correct [OF m' _ all] mbytes_put [OF n w(2)] True by simp
  then show ?thesis
    using host_read_correct [OF m, of a "length src"] True w by auto
next
  case False
  then obtain e where "host_check a (length src) m = Some e"
    using host_check_iff [OF n, of a m] by auto
  then show ?thesis
    using False by (auto simp: host_read_def host_write_def)
qed

theorem host_access_law_witness:
  "\<exists>m'. host_write 0x1ffe [1, 2, 3, 4] sample = (Inr (), m') \<and> host_read 0x1ffe 4 m' = (Inr [1, 2, 3, 4], m')
      \<and> mbyte m' 0x2001 = Some 4"
proof -
  have "(of_nat k :: u64) + 0xffe < 0x2000" if k4: "k < 4" for k :: nat
  proof -
    consider "k = 0" | "k = 1" | "k = 2" | "k = 3" using k4 by linarith
    then show ?thesis by cases simp_all
  qed
  then have "\<forall>k < 4. mbyte sample (0x1ffe + of_nat k) \<noteq> None"
    by (simp add: sample_unmapped not_less add.commute flip: not_le)
  then show ?thesis
    using host_access_law [OF sample_effect(1), where a = "0x1ffe" and src = "[1, 2, 3, 4]"]
    by (auto simp: mem_put_def) (simp_all add: eval_nat_numeral)
qed

subsection \<open>Guest access\<close>

text \<open>
  C3: a guest load of 1, 2, 4 or 8 bytes that no hook watches returns the little-endian value of the
  bytes now at the address when every byte is readable, across a page boundary as within a page and
  whatever the TLB holds; otherwise it faults and changes nothing at all.
\<close>
theorem guest_read_law:
  fixes c :: "'a cpu_scheme"
  assumes m: "mem_inv D c" and h: "no_mem_hooks c" and n: "n \<in> {1, 2, 4, 8}"
  shows "if \<forall>k < n. allows 1 c (a + of_nat k)
    then \<exists>c'. readN E a n c = (Inr (le_val (mbytes c a n)), c') \<and> same_machine c c'
    else \<exists>e. readN E a n c = (Inl e, c)"
proof (cases "\<forall>k < n. allows 1 c (a + of_nat k)")
  case True
  obtain c' where "readN E a n c = (Inr (le_val (mbytes c a n)), c')" "mbyte c' = mbyte c" "mprot c' = mprot c"
    "outside_eq c c'"
    by (rule readN_correct [OF m h n True])
  then show ?thesis
    using True by (auto simp: same_machine_def outside_eq_def)
next
  case False
  then show ?thesis
    using readN_fault [OF m h n False, of E] by auto
qed

theorem guest_read_law_witness:
  "(\<exists>c'. readN plain_env 0x1000 4 sample = (Inr 0x91000400, c')) \<and> (\<exists>e. readN plain_env 0x2ffe 4 sample = (Inl e, sample))"
proof -
  have ok: "\<forall>k < 4. allows 1 sample (0x1000 + of_nat k)"
    using small_index by (simp add: sample_allows)
  have "\<not> allows 1 sample (0x2ffe + of_nat 2)"
    by (simp add: sample_allows)
  then have no: "\<not> (\<forall>k < 4. allows 1 sample (0x2ffe + of_nat k))"
    by (auto intro!: exI [of _ 2])
  show ?thesis
    using guest_read_law [OF sample_effect(1) sample_fields(1), where E = plain_env and n = 4 and a = "0x1000"]
      guest_read_law [OF sample_effect(1) sample_fields(1), where E = plain_env and n = 4 and a = "0x2ffe"]
      ok no by (auto simp: sample_word)
qed

text \<open>
  C4: a guest store of 1, 2, 4 or 8 bytes that no hook watches changes exactly the addressed bytes to
  the little-endian bytes of the value when all of them are writable; otherwise it faults and changes
  nothing at all, not even the bytes before the refused one.
\<close>
theorem guest_write_law:
  fixes c :: "'a cpu_scheme"
  assumes m: "mem_inv D c" and h: "no_mem_hooks c" and n: "n \<in> {1, 2, 4, 8}"
  shows "if \<forall>k < n. allows 2 c (a + of_nat k)
    then \<exists>c'. writeN E a n v c = (Inr (), c') \<and> mbyte c' = mem_put a (le_bytes n v) (mbyte c) \<and>
      mprot c' = mprot c \<and> outside_eq c c'
    else \<exists>e. writeN E a n v c = (Inl e, c)"
proof (cases "\<forall>k < n. allows 2 c (a + of_nat k)")
  case True
  obtain c' where "writeN E a n v c = (Inr (), c')" "mbyte c' = mem_put a (le_bytes n v) (mbyte c)"
    "mprot c' = mprot c" "outside_eq c c'"
    by (rule writeN_correct_cpu [OF m h n True])
  then show ?thesis
    using True by auto
next
  case False
  then show ?thesis
    using writeN_fault [OF m h n False, of E v] by auto
qed

theorem guest_write_law_witness:
  "(\<exists>c'. writeN plain_env 0x1000 4 0xd503201f sample = (Inr (), c') \<and> mbyte c' 0x1003 = Some 0xd5)
    \<and> (\<exists>e. writeN plain_env 0x2ffe 4 7 sample = (Inl e, sample))"
proof -
  have ok: "\<forall>k < 4. allows 2 sample (0x1000 + of_nat k)"
    using small_index by (simp add: sample_allows)
  have "\<not> allows 2 sample (0x2ffe + of_nat 2)"
    by (simp add: sample_allows)
  then have no: "\<not> (\<forall>k < 4. allows 2 sample (0x2ffe + of_nat k))"
    by (auto intro!: exI [of _ 2])
  show ?thesis
    using guest_write_law [OF sample_effect(1) sample_fields(1), where E = plain_env and n = 4 and a = "0x1000" and v = "0xd503201f"]
      guest_write_law [OF sample_effect(1) sample_fields(1), where E = plain_env and n = 4 and a = "0x2ffe" and v = 7]
      ok no by (auto simp: mem_put_def nth_le_bytes)
qed

text \<open>
  C5: every operation of the guest memory keeps the caches coherent (\<open>mem_inv\<close>), whether it succeeds
  or fails and whatever the hooks of a sound environment do: mapping, unmapping, protecting, host and
  guest accesses, the store check, dropping decoded code, adding and removing hooks. A new CPU and a
  released one satisfy the invariant.
\<close>
theorem memory_ops_keep_inv:
  assumes m: "mem_inv D m" and E: "env_ok D E"
  shows "mem_inv D (snd (mem_map a n prot m)) \<and> mem_inv D (snd (mem_unmap a n m)) \<and>
    mem_inv D (snd (mem_protect a n prot m)) \<and> mem_inv D (snd (host_write a bs m)) \<and>
    mem_inv D (snd (readN E a k m)) \<and> mem_inv D (snd (writeN E a k v m)) \<and>
    mem_inv D (snd (check_write E a k m)) \<and> mem_inv D (drop_all_code m) \<and>
    mem_inv D (add_read_hook a b h m) \<and> mem_inv D (add_write_hook a b h m) \<and>
    mem_inv D (add_invalid_hook h m) \<and> mem_inv D (remove_read_hook h m) \<and>
    mem_inv D (remove_write_hook h m) \<and> mem_inv D (remove_invalid_hook h m) \<and> mem_inv D (mem_init m)"
  using m keepsD [OF readN_keeps [OF E] m] keepsD [OF writeN_keeps [OF E] m] keepsD [OF check_write_keeps [OF E] m]
  by (simp add: mem_map_inv mem_unmap_inv mem_protect_inv host_write_inv drop_all_code_inv hook_ops_inv mem_init_inv)

theorem memory_ops_keep_inv_witness:
  "mem_inv (decode no_simd inst0) (snd (writeN plain_env 0x1000 8 0 sample)) \<and>
   mem_inv (decode no_simd inst0) (snd (mem_protect 0x1000 0x1000 1 sample))"
proof -
  have E: "env_ok (decode no_simd inst0) plain_env"
    using plain_env_ok(1) by (simp add: cpu_env_ok_def)
  show ?thesis
    using memory_ops_keep_inv [OF sample_effect(1) E] by blast
qed

end
