(* ===== verification/Cpu_Props.thy ===== *)
theory Cpu_Props
  imports Memory_Props
begin

text \<open>
  What the ARM64 interpreter of internal/arm64 guarantees: what it executes, what its arithmetic and
  its flags mean, what its loads and stores do, and that it returns.
\<close>

subsection \<open>Fetching and running\<close>

abbreviation inst_at :: "(inst \<Rightarrow> u32 \<Rightarrow> inst) \<Rightarrow> 'a cpu_scheme \<Rightarrow> inst" where
  "inst_at simd c \<equiv> decodeAt simd (ucast (le_val (mbytes c (m_pc c) 4))) (m_pc c)"

text \<open>
  C1: an iteration of the run loop at an executable address executes the decoding of the four bytes
  that are in memory at that moment, whatever the fetch cache, the code TLB and the decode cache hold.
\<close>
theorem run_executes_memory:
  fixes c :: "'a cpu_scheme"
  assumes "mem_inv (decode simd inst0) c" "c_codeHooks c = []" "m_pc c \<noteq> until" "m_pc c AND 3 = 0"
    "allows 4 c (m_pc c)"
  shows "\<exists>c1 f. same_machine c c1 \<and> mem_inv (decode simd inst0) c1 \<and> i_fn (inst_at simd c) = Some f \<and>
    run_iter simd E until c = andthen (exec_fn E f (inst_at simd c))
      (andthen (upd (\<lambda>c. c\<lparr>c_icount := c_icount c + 1\<rparr>)) (ret False)) c1"
  by (rule run_iter_executes [OF assms]) blast

lemma sample_le: "ucast (le_val sample_code) = (0x91000400 :: u32)"
  by simp

theorem run_executes_memory_witness:
  "\<exists>c' :: cpu. run_iter no_simd plain_env 0 sample = (Inr False, c') \<and> c_R c' 0 = 1 \<and> m_pc c' = 0x1004 \<and> c_icount c' = 1"
proof -
  have al: "allows 4 sample (m_pc sample)"
    by (simp add: sample_allows sample_fields)
  have i: "inst_at no_simd sample = decodeAt no_simd 0x91000400 0x1000"
    by (simp add: sample_fields sample_word)
  obtain c1 f where s: "same_machine sample c1" and f: "i_fn (inst_at no_simd sample) = Some f"
    and r: "run_iter no_simd plain_env 0 sample = andthen (exec_fn plain_env f (inst_at no_simd sample))
      (andthen (upd (\<lambda>c. c\<lparr>c_icount := c_icount c + 1\<rparr>)) (ret False)) c1"
    using run_executes_memory [OF sample_effect(1) sample_fields(2) _ _ al, where E = plain_env and until = 0 and simd = no_simd]
    by (auto simp: sample_fields)
  have d: "decodeAt no_simd 0x91000400 0x1000 = inst0\<lparr>i_imm := 1, i_fn := Some (HImm OpAddImm64)\<rparr>"
    by code_simp
  have f': "f = HImm OpAddImm64"
    using f unfolding i d by simp
  have c1: "c_R c1 = (\<lambda>_. 0)" "m_pc c1 = 0x1000" "c_icount c1 = 0"
    using s more_fields [of sample c1] by (simp_all add: same_machine_def sample_fields)
  show ?thesis
    unfolding r i d f' by (simp add: comp_defs state_defs c1)
qed

text \<open>
  C2: self-modifying code: after the guest stores a word at the PC, the next iteration executes the
  decoding of that word, even if the old instruction had been decoded and cached.
\<close>
theorem store_then_run:
  fixes c :: "'a cpu_scheme"
  assumes m: "mem_inv (decode simd inst0) c" and E: "env_ok (decode simd inst0) E"
    and h: "no_mem_hooks c" "c_codeHooks c = []" and pc: "m_pc c \<noteq> until" "m_pc c AND 3 = 0"
    and al: "\<forall>k < 4. allows 2 c (m_pc c + of_nat k)" "allows 4 c (m_pc c)"
  shows "\<exists>c' c1 f. writeN E (m_pc c) 4 v c = (Inr (), c') \<and> same_machine c' c1 \<and>
    i_fn (decodeAt simd (ucast v) (m_pc c)) = Some f \<and>
    run_iter simd E until c' = andthen (exec_fn E f (decodeAt simd (ucast v) (m_pc c)))
      (andthen (upd (\<lambda>c. c\<lparr>c_icount := c_icount c + 1\<rparr>)) (ret False)) c1"
proof -
  obtain c' where w: "writeN E (m_pc c) 4 v c = (Inr (), c')" "mbyte c' = mem_put (m_pc c) (le_bytes 4 v) (mbyte c)"
    "mprot c' = mprot c" and o: "outside_eq c c'"
    using writeN_correct_cpu [OF m h(1) _ al(1)] by auto
  have f: "m_pc c' = m_pc c" "c_codeHooks c' = []"
    using o h more_fields [of c c'] by (simp_all add: outside_eq_def)
  have i: "mem_inv (decode simd inst0) c'"
    using keepsD_eq [OF writeN_keeps [OF E] m w(1)] .
  have x: "allows 4 c' (m_pc c')"
    using al(2) w(3) f by (simp add: allows_def)
  have "mbytes c' (m_pc c) 4 = le_bytes 4 v"
    using mbytes_put [OF _ w(2)] by simp
  then have "ucast (le_val (mbytes c' (m_pc c') 4)) = (ucast v :: u32)"
    using f by (simp only: le_val_le_bytes) (rule bit_word_eqI, auto simp: bit_simps)
  then have j: "inst_at simd c' = decodeAt simd (ucast v) (m_pc c)"
    using f by simp
  have until: "m_pc c' \<noteq> until" "m_pc c' AND 3 = 0"
    using pc f by simp_all
  obtain c1 g where "same_machine c' c1" "i_fn (inst_at simd c') = Some g"
    "run_iter simd E until c' = andthen (exec_fn E g (inst_at simd c'))
      (andthen (upd (\<lambda>c. c\<lparr>c_icount := c_icount c + 1\<rparr>)) (ret False)) c1"
    by (rule run_iter_executes [OF i f(2) until x])
  then show ?thesis
    using w(1) unfolding j by blast
qed

theorem store_then_run_witness:
  "\<exists>c' c1. writeN plain_env 0x1000 4 0xd503201f sample = (Inr (), c') \<and> same_machine c' c1 \<and>
     run_iter no_simd plain_env 0 c' = (Inr False, c1\<lparr>m_pc := 0x1004, c_icount := 1\<rparr>)"
proof -
  have E: "env_ok (decode no_simd inst0) plain_env"
    using plain_env_ok(1) by (simp add: cpu_env_ok_def)
  have al: "\<forall>k < 4. allows 2 sample (m_pc sample + of_nat k)" "allows 4 sample (m_pc sample)"
    using small_index by (simp_all add: sample_allows sample_fields)
  obtain c' c1 f where w: "writeN plain_env 0x1000 4 0xd503201f sample = (Inr (), c')" and s: "same_machine c' c1"
    and f: "i_fn (decodeAt no_simd 0xd503201f 0x1000) = Some f"
    and r: "run_iter no_simd plain_env 0 c' = andthen (exec_fn plain_env f (decodeAt no_simd 0xd503201f 0x1000))
      (andthen (upd (\<lambda>c. c\<lparr>c_icount := c_icount c + 1\<rparr>)) (ret False)) c1"
    using store_then_run [OF sample_effect(1) E sample_fields(1,2) _ _ al, where until = 0 and v = "0xd503201f"]
    by (auto simp: sample_fields)
  have "i_fn (decodeAt no_simd 0xd503201f 0x1000) = Some (HSys OpNop)"
    by code_simp
  then have f': "f = HSys OpNop"
    using f by simp
  have al2: "\<forall>k < 4. allows 2 sample (0x1000 + of_nat k)"
    using al(1) by (simp add: sample_fields)
  obtain c2 where "writeN plain_env 0x1000 4 0xd503201f sample = (Inr (), c2)" "outside_eq sample c2"
    by (rule writeN_correct_cpu [OF sample_effect(1) sample_fields(1) _ al2]) simp_all
  then have "outside_eq sample c'"
    using w by simp
  then have c1: "m_pc c1 = 0x1000" "c_icount c1 = 0"
    using s more_fields [of sample c'] more_fields [of c' c1]
    by (simp_all add: same_machine_def outside_eq_def sample_fields)
  have "run_iter no_simd plain_env 0 c' = (Inr False, c1\<lparr>m_pc := 0x1004, c_icount := 1\<rparr>)"
    unfolding r f' by (simp add: comp_defs state_defs c1)
  then show ?thesis
    using w s by blast
qed

text \<open>
  C6: \<open>Run\<close> keeps the caches coherent, however it ends and whatever the hooks of a sound environment
  do in between, so that C5, C6 and C8 hold again after it.
\<close>
theorem run_keeps_inv:
  fixes c :: "'a cpu_scheme"
  assumes "cpu_env_ok (decode simd inst0) E" "mem_inv (decode simd inst0) c"
    "Run fuel simd E until count c = Some (r, c')"
  shows "mem_inv (decode simd inst0) c'"
  by (rule Run_inv [OF assms])

theorem run_keeps_inv_witness:
  "\<exists>e c'. Run 6 no_simd plain_env 0 2 sample = Some (e, c') \<and> mem_inv (decode no_simd inst0) c'"
proof -
  obtain e c' where r: "Run 6 no_simd plain_env 0 2 sample = Some (e, c')"
    using Run_returns [OF plain_env_ok(3,4) sample_fields(1-3), where count = 2 and fuel = 6 and simd = no_simd and until = 0]
    by (auto simp: sample_fields)
  then show ?thesis
    using run_keeps_inv [OF plain_env_ok(1) sample_effect(1) r] by blast
qed

text \<open>
  C7: \<open>Run\<close> with an instruction count returns when no hook is installed: two loop iterations per
  instruction and two more are enough fuel. It returns with an error, at \<open>until\<close>, or after exactly
  \<open>count\<close> instructions.
\<close>
theorem run_returns:
  fixes c :: "'a cpu_scheme"
  assumes "quiet_simd E" "no_stop_simd E" "no_mem_hooks c" "c_codeHooks c = []" "c_intrHooks c = []"
    and "count \<noteq> 0" "unat (c_icount c) + unat count + 512 < 2 ^ 64" and "2 * unat count + 2 \<le> fuel"
  shows "\<exists>e c'. Run fuel simd E until count c = Some (e, c') \<and>
    (e = None \<longrightarrow> m_pc c' = until \<or> c_icount c' = c_icount c + count)"
  by (rule Run_returns [OF assms])

theorem run_returns_witness:
  "\<exists>e c'. Run 22 no_simd plain_env 0 10 sample = Some (e, c') \<and> (e = None \<longrightarrow> m_pc c' = 0 \<or> c_icount c' = 10)"
  using run_returns [OF plain_env_ok(3,4) sample_fields(1-3), where count = 10 and fuel = 22 and simd = no_simd and until = 0]
  by (simp add: sample_fields)

end
