(* ===== verification/Bits32.thy ===== *)
theory Bits32
  imports Cpu_Arith
begin

text \<open>The same on 32 bits: the masks stay below \<open>2 ^ 32\<close> and the result is zero-extended.\<close>

definition ubfm32_spec :: "nat \<Rightarrow> nat \<Rightarrow> u32 \<Rightarrow> u32" where
  "ubfm32_spec r s x = (if r \<le> s then drop_bit r x AND mask (s - r + 1)
                        else push_bit (32 - r) (x AND mask (s + 1)))"

definition sbfm32_spec :: "nat \<Rightarrow> nat \<Rightarrow> u32 \<Rightarrow> u32" where
  "sbfm32_spec r s x = (let y = signed_drop_bit (31 - s) (push_bit (31 - s) x)
                        in if r \<le> s then signed_drop_bit r y else push_bit (32 - r) y)"

lemma z64_bit: "bit (z64 x) i \<longleftrightarrow> bit x i"
  using bit_imp_le_length [of x i] by (auto simp: z64_def bit_ucast_iff)

lemma z64_and: "z64 x AND z64 y = z64 (x AND y)"
  and z64_or: "z64 x OR z64 y = z64 (x OR y)"
  and z64_andnot: "z64 x AND NOT (z64 y) = z64 (x AND NOT y)"
  by (rule bit_word_eqI, auto simp: z64_bit bit_and_iff bit_or_iff bit_not_iff dest: bit_imp_le_length)+

lemma z64_low: "z64 x AND 0xffffffff = z64 x"
proof -
  have "(0xffffffff :: u64) = mask 32"
    by (simp add: mask_eq_exp_minus_1)
  then show ?thesis
    using bit_imp_le_length [of x]
    by (intro bit_word_eqI) (simp only: z64_bit bit_and_iff bit_mask_iff, auto)
qed

lemma and31_take: "(x :: u32) AND 31 = take_bit 5 x"
  by (simp add: take_bit_eq_mask mask_eq_exp_minus_1)

lemma unat_and31: "unat ((x :: u32) AND 31) = unat x mod 32"
  by (simp only: and31_take unsigned_take_bit_eq) (simp add: take_bit_eq_mod)

lemma level32:
  assumes "unat imms < 32"
  shows "leading_zeros (push_bit 6 (0 :: u32) OR (NOT imms AND 63)) = 26"
proof -
  have "unat (take_bit 5 imms) = unat imms"
    using assms by (simp only: unsigned_take_bit_eq take_bit_nat_eq_self) (simp add: take_bit_nat_eq_self)
  then have "imms = take_bit 5 imms"
    by (simp only: word_unat_eq_iff)
  then have n: "\<not> bit imms 5"
    by (metis bit_take_bit_iff less_irrefl)
  have "leading_zeros (push_bit 6 (0 :: u32) OR (NOT imms AND 63)) = LENGTH(32) - 1 - 5"
  proof (rule leading_zeros_eq)
    show "bit (push_bit 6 (0 :: u32) OR (NOT imms AND 63)) 5"
      using n by (simp only: and63 bit_or_iff bit_take_bit_iff bit_not_iff) simp
    show "\<not> bit (push_bit 6 (0 :: u32) OR (NOT imms AND 63)) j" if "5 < j" for j
      using that by (simp only: and63 bit_or_iff bit_push_bit_iff bit_take_bit_iff) auto
  qed
  then show ?thesis by simp
qed

lemma replicate32: "replicate_bits (z64 v) 32 32 = z64 v"
proof -
  have "w32 (z64 v) = v"
    by (rule bit_word_eqI) (simp add: w32_def z64_bit bit_ucast_iff)
  then show ?thesis by (simp add: replicate_bits_def rep_loop.simps)
qed

lemma mask32: "n \<le> 32 \<Longrightarrow> (mask n :: u64) = z64 (mask n)"
  by (rule bit_word_eqI) (auto simp: z64_bit bit_mask_iff)

lemma rot32:
  fixes x :: u32
  assumes r: "r < 32"
  shows "(if r \<noteq> 0 then (drop_bit r (z64 x) OR push_bit (32 - r) (z64 x)) AND mask 32 else z64 x) = z64 (rot_right x r)"
proof (rule bit_word_eqI)
  fix i :: nat
  assume i: "i < LENGTH(64)"
  have big: "32 \<le> k \<Longrightarrow> \<not> bit x k" for k
    using bit_imp_le_length [of x k] by auto
  show "bit (if r \<noteq> 0 then (drop_bit r (z64 x) OR push_bit (32 - r) (z64 x)) AND mask 32 else z64 x) i =
      bit (z64 (rot_right x r)) i"
  proof (cases "i < 32")
    case True
    then have m: "(i + r) mod 32 = (if i + r < 32 then i + r else i + r - 32)"
      using r by (simp add: mod_if)
    show ?thesis
    proof (cases "i + r < 32")
      case True
      then show ?thesis
        using i m \<open>i < 32\<close> by (auto simp: z64_bit rot_right_bits bit_simps add.commute)
    next
      case False
      then have "i - (32 - r) = i + r - 32" "r \<noteq> 0" "32 - r \<le> i"
        using r \<open>i < 32\<close> by auto
      then show ?thesis
        using i m False \<open>i < 32\<close> big [of "i + r"]
        by (simp add: z64_bit rot_right_bits bit_and_iff bit_or_iff bit_drop_bit_eq bit_push_bit_iff bit_mask_iff add.commute)
    qed
  next
    case False
    then show ?thesis
      using big [of i] by (auto simp: z64_bit rot_right_bits bit_and_iff bit_mask_iff)
  qed
qed

lemma bitmasks32:
  assumes s: "unat imms < 32" and r: "unat immr < 32"
  shows "decodeBitMasks 0 imms immr False 32 =
    Some (z64 (rot_right (mask (Suc (unat imms))) (unat immr)), z64 (mask (Suc ((32 + unat imms - unat immr) mod 32))))"
proof -
  have eq: "imms AND 31 = imms" "immr AND 31 = immr"
    using s r by (simp_all add: word_unat_eq_iff unat_and31)
  have d: "unat ((imms - immr) AND 31) = (32 + unat imms - unat immr) mod 32"
  proof (cases "immr \<le> imms")
    case True
    then have "unat (imms - immr) = unat imms - unat immr" "unat immr \<le> unat imms"
      by (simp_all add: unat_sub word_le_nat_alt)
    moreover have "32 + unat imms - unat immr = (unat imms - unat immr) + 1 * 32"
      using calculation(2) by simp
    ultimately show ?thesis
      by (simp only: unat_and31 mod_mult_self1)
  next
    case False
    then have lt: "unat imms < unat immr" by (simp add: word_le_nat_alt)
    then have "unat (imms - immr) = 2 ^ 32 + unat imms - unat immr"
      by (simp add: unat_sub_if_size word_size)
    also have "\<dots> = (32 + unat imms - unat immr) + 134217727 * 32"
      using lt r by simp
    finally show ?thesis
      by (simp only: unat_and31 mod_mult_self1)
  qed
  have l: "31 - int 26 = 5" "((5 :: int) < 1) = False" "((32 :: nat) < 32) = False" "((32 :: nat) = 64) = False"
    and lev: "push_bit (nat 5) (1 :: u32) - 1 = 31" "(2 :: nat) ^ nat 5 = 32"
    and em: "push_bit 32 1 - 1 = (mask 32 :: u64)"
    by (simp_all add: mask_eq_exp_minus_1)
  let ?d = "(imms - immr) AND 31"
  have lt: "unat imms < 64" "unat ?d < 64" "Suc (unat imms) \<le> 32" "Suc ((32 + unat imms - unat immr) mod 32) \<le> 32"
    using s by (simp_all add: d less_eq_Suc_le [symmetric] order_less_le_trans [OF mod_less_divisor])
  have z: "immr \<noteq> 0 \<longleftrightarrow> unat immr \<noteq> 0" by (simp add: unat_0_iff)
  show ?thesis
    by (simp only: decodeBitMasks_def level32 [OF s] Let_def l lev eq ones_mask [OF lt(1)] ones_mask [OF lt(2)] em
        mask32 [OF lt(3)] mask32 [OF lt(4)] z rot32 [OF r] replicate32 d simp_thms if_True if_False)
qed

lemma rot_index32: "i < 32 \<Longrightarrow> r < (32 :: nat) \<Longrightarrow>
  (i + r) mod 32 = (if i + r < 32 then i + r else i + r - 32)"
  by (simp add: mod_if)

lemma tmask_len32: "r < 32 \<Longrightarrow> s < (32 :: nat) \<Longrightarrow>
  (32 + s - r) mod 32 = (if r \<le> s then s - r else 32 + s - r)"
  by (auto simp: mod_if)

lemma ubfm32_value:
  fixes x :: u32
  assumes "r < 32" "s < 32"
  shows "rot_right x r AND rot_right (mask (Suc s)) r AND mask (Suc ((32 + s - r) mod 32)) = ubfm32_spec r s x"
proof (rule bit_word_eqI)
  fix i :: nat
  assume "i < LENGTH(32)"
  then have i: "i < 32" by simp
  have L: "bit (rot_right x r AND rot_right (mask (Suc s)) r AND mask (Suc ((32 + s - r) mod 32))) i \<longleftrightarrow>
      bit x ((i + r) mod 32) \<and> (i + r) mod 32 < Suc s \<and> i < Suc ((32 + s - r) mod 32)"
    using i assms by (simp add: bit_and_iff rot_right_bits bit_mask_iff)
  have R: "bit (ubfm32_spec r s x) i \<longleftrightarrow>
      (if r \<le> s then bit x (r + i) \<and> i < s - r + 1
       else 32 - r \<le> i \<and> bit x (i - (32 - r)) \<and> i - (32 - r) < s + 1)"
    using i by (simp add: ubfm32_spec_def bit_simps) auto
  show "bit (rot_right x r AND rot_right (mask (Suc s)) r AND mask (Suc ((32 + s - r) mod 32))) i =
      bit (ubfm32_spec r s x) i"
    unfolding L R
    unfolding rot_index32 [OF i assms(1)] tmask_len32 [OF assms]
  proof (cases "i + r < 32")
    case False
    then have "i - (32 - r) = i + r - 32" using assms by simp
    then show "(bit x (if i + r < 32 then i + r else i + r - 32) \<and> (if i + r < 32 then i + r else i + r - 32) < Suc s \<and>
        i < Suc (if r \<le> s then s - r else 32 + s - r)) =
      (if r \<le> s then bit x (r + i) \<and> i < s - r + 1
       else 32 - r \<le> i \<and> bit x (i - (32 - r)) \<and> i - (32 - r) < s + 1)"
      using False i assms bit_imp_le_length [of x "r + i"] by auto
  qed (use i assms in \<open>auto simp: add.commute\<close>)
qed

lemma sdrop32: "bit (signed_drop_bit n (x :: u32)) i \<longleftrightarrow> i < 32 \<and> bit x (min (n + i) 31)"
  by (auto simp: bit_signed_drop_bit_iff min_def dest: bit_imp_le_length)

lemma sbfm32_value:
  fixes x :: u32
  assumes "r < 32" "s < 32"
  shows "signed_drop_bit 31 (push_bit (31 - s) x) AND NOT (mask (Suc ((32 + s - r) mod 32))) OR
    (rot_right x r AND rot_right (mask (Suc s)) r) AND mask (Suc ((32 + s - r) mod 32)) = sbfm32_spec r s x"
proof (rule bit_word_eqI)
  fix i :: nat
  assume "i < LENGTH(32)"
  then have i: "i < 32" by simp
  let ?t = "(32 + s - r) mod 32"
  have L: "bit (signed_drop_bit 31 (push_bit (31 - s) x) AND NOT (mask (Suc ?t)) OR
      (rot_right x r AND rot_right (mask (Suc s)) r) AND mask (Suc ?t)) i \<longleftrightarrow>
      (if i < Suc ?t then bit x ((i + r) mod 32) \<and> (i + r) mod 32 < Suc s else bit x s)"
    using i assms by (simp add: bit_and_iff bit_or_iff bit_not_iff rot_right_bits bit_mask_iff sdrop32 bit_push_bit_iff)
  have R: "bit (sbfm32_spec r s x) i \<longleftrightarrow>
      (if r \<le> s then bit x (min (r + i) s) else 32 - r \<le> i \<and> bit x (min (i - (32 - r)) s))"
    using i assms by (auto simp: sbfm32_spec_def Let_def sdrop32 bit_push_bit_iff min_def add.commute)
  show "bit (signed_drop_bit 31 (push_bit (31 - s) x) AND NOT (mask (Suc ?t)) OR
      (rot_right x r AND rot_right (mask (Suc s)) r) AND mask (Suc ?t)) i = bit (sbfm32_spec r s x) i"
    unfolding L R
    unfolding rot_index32 [OF i assms(1)] tmask_len32 [OF assms]
    using i assms by (cases "s = 31") (auto simp: min_def add.commute)
qed

text \<open>A 32-bit UBFM or SBFM encoding, decoded and executed.\<close>

lemma bitfield32_exec:
  fixes c :: "'a cpu_scheme" and simd :: "inst \<Rightarrow> u32 \<Rightarrow> inst" and pc :: u64
  assumes g: "fld raw 23 63 = 38" and sf: "drop_bit 31 raw = 0" and n: "fld raw 22 1 = 0"
    and lt: "unat (fld raw 16 63) < 32" "unat (fld raw 10 63) < 32"
  defines "r \<equiv> unat (fld raw 16 63)" and "s \<equiv> unat (fld raw 10 63)"
    and "i \<equiv> decode simd inst0 raw pc"
  shows "fld raw 29 3 = 2 \<Longrightarrow> i_fn i = Some (HImm OpUbfm32) \<and>
      exec_imm OpUbfm32 i c = wr (xw (raw AND 31)) (z64 (ubfm32_spec r s (w32 (c_R c (xr (fld raw 5 31)))))) c"
    and "fld raw 29 3 = 0 \<Longrightarrow> i_fn i = Some (HImm OpSbfm32) \<and>
      exec_imm OpSbfm32 i c = wr (xw (raw AND 31)) (z64 (sbfm32_spec r s (w32 (c_R c (xr (fld raw 5 31)))))) c"
proof -
  have u8: "unat (u8_of x) = unat x" if "unat x < 32" for x :: u32
    using that by (simp add: unsigned_ucast_eq take_bit_nat_eq_self)
  have small: "\<not> 32 \<le> fld raw 16 63" "\<not> 32 \<le> fld raw 10 63"
    using lt by (simp_all add: word_le_nat_alt not_le)
  note m = bitmasks32 [OF lt(2,1)]
  have d: "decode simd inst0 raw pc = decodeDPImm inst0 raw pc"
    using fields_bfm(1) [OF g] by (simp add: decode_def)
  show "fld raw 29 3 = 2 \<Longrightarrow> i_fn i = Some (HImm OpUbfm32) \<and>
      exec_imm OpUbfm32 i c = wr (xw (raw AND 31)) (z64 (ubfm32_spec r s (w32 (c_R c (xr (fld raw 5 31)))))) c"
    using ubfm32_value [OF lt] fields_bfm(2) [OF g]
    by (simp add: i_def d decodeDPImm_def sf n m small Let_def pick4x2_def r_def s_def u8 [OF lt(1)] z64_and and.assoc)
  have t: "unat (31 - u8_of (fld raw 10 63)) = 31 - unat (fld raw 10 63)"
    using u8 [OF lt(2)] lt(2) by (simp add: unat_sub word_le_nat_alt)
  show "fld raw 29 3 = 0 \<Longrightarrow> i_fn i = Some (HImm OpSbfm32) \<and>
      exec_imm OpSbfm32 i c = wr (xw (raw AND 31)) (z64 (sbfm32_spec r s (w32 (c_R c (xr (fld raw 5 31)))))) c"
    using sbfm32_value [OF lt, of "w32 (c_R c (xr (fld raw 5 31)))"] fields_bfm(2) [OF g]
    by (simp add: i_def d decodeDPImm_def sf n m small Let_def pick4x2_def r_def s_def u8 [OF lt(1)] t
        z64_and z64_or z64_andnot z64_low and.assoc)
qed

end
