(* ===== verification/Isa_Props.thy ===== *)
theory Isa_Props
  imports Cpu_Props Bits32
begin

text \<open>
  What single instructions mean: flags and conditions, arithmetic, bitfields, loads and stores.
\<close>

subsection \<open>Flags and conditions\<close>

text \<open>
  \<open>addFlags64\<close> and \<open>addFlags32\<close> give the sum and NZCV flags of an addition with carry in: N and Z
  of the result, C when the unsigned sum overflows, V when the signed sum does.
\<close>
theorem add_flags:
  assumes "unat cin \<le> 1" and "unat cin' \<le> 1"
  shows "addFlags64 a b cin = (a + b + cin,
      nzcv (sint (a + b + cin) < 0) (a + b + cin = 0) (2 ^ 64 \<le> unat a + unat b + unat cin)
        (sint (a + b + cin) \<noteq> sint a + sint b + uint cin)) \<and>
    addFlags32 a' b' cin' = (a' + b' + cin',
      nzcv (sint (a' + b' + cin') < 0) (a' + b' + cin' = 0) (2 ^ 32 \<le> unat a' + unat b' + unat cin')
        (sint (a' + b' + cin') \<noteq> sint a' + sint b' + uint cin'))"
  using addFlags64_correct [OF assms(1), of a b] addFlags32_correct [OF assms(2), of a' b']
  by (simp add: add_carries_def add_overflows_def add_carries32_def add_overflows32_def)

theorem add_flags_witness:
  "addFlags64 0x7fffffffffffffff 1 0 = (0x8000000000000000, 0x90000000) \<and> addFlags32 0xffffffff 0 1 = (0, 0x60000000)"
  using add_flags [of 0 1 "0x7fffffffffffffff" 1 "0xffffffff" 0] by (simp add: nzcv_def)

text \<open>
  \<open>cond\<close>, which reads the table \<open>condTab\<close>, decides the sixteen ARM conditions over NZCV: the
  eight base conditions, negated by the low bit except for the fifteenth.
\<close>
theorem condition_codes: "cond cc c \<longleftrightarrow> condition_holds cc (c_NZCV c)"
  by (rule cond_correct)

text \<open>
  Executing \<open>cmp xn, xm\<close> makes EQ, HS, HI, LS the unsigned comparisons and GE, LT, GT, LE the
  signed comparisons of the two registers.
\<close>
theorem compare_conditions:
  fixes c :: "'a cpu_scheme"
  assumes "i_sh i = 0" "i_amt i = 0"
  defines "a \<equiv> c_R c (i_rn i)" and "b \<equiv> c_R c (i_rm i)" and "c' \<equiv> exec_addsub OpSubsReg64 i c"
  shows "(cond 0 c' \<longleftrightarrow> a = b) \<and> (cond 2 c' \<longleftrightarrow> b \<le> a) \<and> (cond 8 c' \<longleftrightarrow> b < a) \<and> (cond 9 c' \<longleftrightarrow> a \<le> b) \<and>
    (cond 10 c' \<longleftrightarrow> sint b \<le> sint a) \<and> (cond 11 c' \<longleftrightarrow> sint a < sint b) \<and>
    (cond 12 c' \<longleftrightarrow> sint b < sint a) \<and> (cond 13 c' \<longleftrightarrow> sint a \<le> sint b)"
proof -
  have "c_NZCV c' = snd (addFlags64 a (NOT b) 1)"
    by (simp add: c'_def a_def b_def state_defs assms(1,2) Let_def shOp64_def)
  then show ?thesis
    using cmp_conditions [of c' a b] by blast
qed

theorem compare_conditions_witness:
  "let c = exec_addsub OpSubsReg64 (inst0\<lparr>i_rn := 1, i_rm := 2\<rparr>) (New\<lparr>c_R := (\<lambda>_. 5)(1 := -3)\<rparr>)
   in cond 11 c \<and> cond 8 c \<and> \<not> cond 0 c"
  using compare_conditions [of "inst0\<lparr>i_rn := 1, i_rm := 2\<rparr>" "New\<lparr>c_R := (\<lambda>_. 5)(1 := -3)\<rparr>"]
  by (simp add: Let_def inst0_def)

subsection \<open>Arithmetic\<close>

text \<open>
  \<open>smulh\<close> and \<open>umulh\<close> give the high 64 bits of the signed and of the unsigned 128-bit product.
\<close>
theorem high_products:
  "unat (c_R (exec_dp OpUmulh i c) (i_rd i)) = unat (c_R c (i_rn i)) * unat (c_R c (i_rm i)) div 2 ^ 64 \<and>
   sint (c_R (exec_dp OpSmulh i c) (i_rd i)) = sint (c_R c (i_rn i)) * sint (c_R c (i_rm i)) div 2 ^ 64"
  using smulh_correct [of "c_R c (i_rn i)" "c_R c (i_rm i)"]
  by (simp add: state_defs Let_def smulh_def umulh_correct)

text \<open>
  The divisions round toward zero, give 0 for a zero divisor and the dividend for the one signed
  quotient that overflows; no division panics.
\<close>
theorem divisions:
  fixes c :: "'a cpu_scheme" and i :: inst
  defines "a \<equiv> c_R c (i_rn i)" and "b \<equiv> c_R c (i_rm i)"
  shows "unat (c_R (exec_dp OpUdiv64 i c) (i_rd i)) = unat a div unat b \<and>
    sint (c_R (exec_dp OpSdiv64 i c) (i_rd i)) =
      (if sint b = 0 then 0 else if sint a = - (2 ^ 63) \<and> sint b = -1 then - (2 ^ 63) else sint a sdiv sint b)"
proof -
  have z: "sint b = 0 \<longleftrightarrow> b = 0"
    by (metis signed_0 signed_word_eqI)
  have u: "unat (c_R (exec_dp OpUdiv64 i c) (i_rd i)) = unat a div unat b"
    by (simp add: state_defs Let_def a_def b_def unat_div)
  have s: "c_R (exec_dp OpSdiv64 i c) (i_rd i) = (if b = 0 then 0 else sdivide a b)"
    by (simp add: state_defs Let_def a_def b_def)
  show ?thesis
  proof (cases "sint a = - (2 ^ 63) \<and> sint b = -1")
    case True
    have "sint (- 1 :: u64) = -1" "sint (0x8000000000000000 :: u64) = - (2 ^ 63)"
      by simp_all
    then have "b = - 1" "a = 0x8000000000000000"
      using True by (metis signed_word_eqI)+
    then show ?thesis
      using u s True by (simp add: sdivide_overflow)
  next
    case False
    then have "sint (sdivide a b) = sint a sdiv sint b"
      using sdivide_correct [of a b] by simp
    then show ?thesis
      using u s False by (auto simp: z simp del: exec_dp.simps)
  qed
qed

text \<open>\<open>rbit\<close> and \<open>rev\<close> undo themselves: executed twice in place they restore the register.\<close>
theorem reversals:
  fixes c :: "'a cpu_scheme"
  assumes "i_rn i = i_rd i"
  shows "c_R (exec_dp OpRbit64 i (exec_dp OpRbit64 i c)) = c_R c \<and> c_R (exec_dp OpRev64 i (exec_dp OpRev64 i c)) = c_R c"
  using assms by (simp add: state_defs reverse_bits_involution reverse_bytes64_involution fun_upd_idem)

theorem reversals_witness:
  "c_R (exec_dp OpRev64 (inst0\<lparr>i_rd := 3, i_rn := 3\<rparr>) (exec_dp OpRev64 (inst0\<lparr>i_rd := 3, i_rn := 3\<rparr>)
     (New\<lparr>c_R := \<lambda>_. 0x0102030405060708\<rparr>))) 3 = 0x0102030405060708"
  using reversals [of "inst0\<lparr>i_rd := 3, i_rn := 3\<rparr>" "New\<lparr>c_R := \<lambda>_. 0x0102030405060708\<rparr>"] by simp

text \<open>
  C13: the 64-bit and 32-bit \<open>ubfm\<close> and \<open>sbfm\<close> words decode to their handlers, and these extract or
  insert the bitfield the architecture defines: bits \<open>s..r\<close> zero- or sign-extended when \<open>r \<le> s\<close>, the
  low \<open>s + 1\<close> bits moved to position \<open>64 - r\<close> (or \<open>32 - r\<close>) otherwise. The 32-bit forms work on the low
  half of the source and leave the upper half of the destination zero.
\<close>
theorem bitfields:
  fixes c :: "'a cpu_scheme" and simd :: "inst \<Rightarrow> u32 \<Rightarrow> inst" and pc :: u64
  assumes "fld raw 23 63 = 38" "drop_bit 31 raw = (if sf then 1 else 0)" "fld raw 22 1 = (if sf then 1 else 0)"
    and "fld raw 29 3 = (if sgnd then 0 else 2)"
    and "\<not> sf \<Longrightarrow> fld raw 16 63 < 32 \<and> fld raw 10 63 < 32"
  defines "r \<equiv> unat (fld raw 16 63)" and "s \<equiv> unat (fld raw 10 63)" and "i \<equiv> decode simd inst0 raw pc"
    and "x \<equiv> c_R c (xr (fld raw 5 31))"
  shows "if sf then
      i_fn i = Some (HImm (if sgnd then OpSbfm64 else OpUbfm64)) \<and>
      exec_imm (if sgnd then OpSbfm64 else OpUbfm64) i c =
        wr (xw (raw AND 31)) (if sgnd then sbfm_spec r s x else ubfm_spec r s x) c
    else
      i_fn i = Some (HImm (if sgnd then OpSbfm32 else OpUbfm32)) \<and>
      exec_imm (if sgnd then OpSbfm32 else OpUbfm32) i c =
        wr (xw (raw AND 31)) (z64 (if sgnd then sbfm32_spec r s (w32 x) else ubfm32_spec r s (w32 x))) c"
proof (cases sf)
  case True
  then have f: "drop_bit 31 raw = 1" "fld raw 22 1 = 1"
    using assms(2,3) by simp_all
  show ?thesis
    using bitfield_exec [OF assms(1) f, of simd pc c] assms(4) True
    by (cases sgnd) (simp_all only: i_def r_def s_def x_def if_True if_False simp_thms)
next
  case False
  then have f: "drop_bit 31 raw = 0" "fld raw 22 1 = 0" "unat (fld raw 16 63) < 32" "unat (fld raw 10 63) < 32"
    using assms(2,3,5) by (simp_all add: word_less_nat_alt)
  show ?thesis
    using bitfield32_exec [OF assms(1) f, of simd pc c] assms(4) False
    by (cases sgnd) (simp_all only: i_def r_def s_def x_def if_True if_False simp_thms)
qed

theorem bitfields_witness:
  "c_R (exec_imm OpUbfm64 (decode no_simd inst0 0xd344fc20 0) (New\<lparr>c_R := \<lambda>_. 0xabcd\<rparr>)) 0 = 0xabc \<and>
   c_R (exec_imm OpSbfm32 (decode no_simd inst0 0x13047c20 0) (New\<lparr>c_R := \<lambda>_. 0x1234567880000010\<rparr>)) 0 = 0xf8000001"
proof -
  have f: "fld 0xd344fc20 23 63 = 38" "drop_bit 31 0xd344fc20 = (if True then 1 else 0 :: u32)"
    "fld 0xd344fc20 22 1 = (if True then 1 else 0)" "fld 0xd344fc20 29 3 = (if False then 0 else 2)"
    "\<not> True \<Longrightarrow> fld 0xd344fc20 16 63 < 32 \<and> fld 0xd344fc20 10 63 < 32"
    by simp_all
  have g: "fld 0x13047c20 23 63 = 38" "drop_bit 31 0x13047c20 = (if False then 1 else 0 :: u32)"
    "fld 0x13047c20 22 1 = (if False then 1 else 0)" "fld 0x13047c20 29 3 = (if True then 0 else 2)"
    "\<not> False \<Longrightarrow> fld 0x13047c20 16 63 < 32 \<and> fld 0x13047c20 10 63 < 32"
    by simp_all
  have x: "exec_imm OpUbfm64 (decode no_simd inst0 0xd344fc20 0) (New\<lparr>c_R := \<lambda>_. 0xabcd\<rparr>) =
      wr (xw (0xd344fc20 AND 31)) (ubfm_spec 4 63 0xabcd) (New\<lparr>c_R := \<lambda>_. 0xabcd\<rparr>)"
    using bitfields [OF f, of no_simd 0 "New\<lparr>c_R := \<lambda>_. 0xabcd\<rparr>"] by simp
  have y: "exec_imm OpSbfm32 (decode no_simd inst0 0x13047c20 0) (New\<lparr>c_R := \<lambda>_. 0x1234567880000010\<rparr>) =
      wr (xw (0x13047c20 AND 31)) (z64 (sbfm32_spec 4 31 (w32 0x1234567880000010))) (New\<lparr>c_R := \<lambda>_. 0x1234567880000010\<rparr>)"
    using bitfields [OF g, of no_simd 0 "New\<lparr>c_R := \<lambda>_. 0x1234567880000010\<rparr>"] by simp
  have "z64 (sbfm32_spec 4 31 (w32 0x1234567880000010)) = 0xf8000001"
    by (simp add: sbfm32_spec_def w32_def z64_def)
  then show ?thesis
    unfolding x y by (simp add: ubfm_spec_def state_defs xw_def mask_eq_exp_minus_1)
qed

end
