(* ===== verification/Ldst_Props.thy ===== *)
theory Ldst_Props
  imports Isa_Props
begin

text \<open>
  What the load and store instructions do to memory and registers, and when they fault.
\<close>

text \<open>
  C10: a single-register load (offset, register-offset, pre- or post-indexed) that no hook watches puts
  the extended little-endian value of the bytes at its address into its register, writes the base
  back and moves on; if any byte is not readable it faults and the whole CPU is as before.
\<close>
theorem integer_loads:
  fixes c :: "'a cpu_scheme"
  assumes m: "mem_inv D c" and h: "no_mem_hooks c" and n: "sz_of i \<in> {1, 2, 4, 8}"
    and l: "l \<in> {OpLoadOff, OpLoadReg, OpLoadWb}"
  defines "a \<equiv> ldst_addr l i c"
  shows "if \<forall>k < sz_of i. allows 1 c (a + of_nat k)
    then \<exists>c'. exec_ldst E l i c = (Inr (), c') \<and> mbyte c' = mbyte c \<and> mprot c' = mprot c \<and> m_pc c' = m_pc c + 4 \<and>
      c_R c' = wb_regs l i a ((c_R c)(i_rd i := ld_ext i (le_val (mbytes c a (sz_of i)))))
    else \<exists>e. exec_ldst E l i c = (Inl e, c)"
proof (cases "\<forall>k < sz_of i. allows 1 c (a + of_nat k)")
  case True
  then show ?thesis
    using load_correct [OF m h n l, of E] by (simp add: a_def del: ldst_addr.simps)
next
  case False
  show ?thesis
    unfolding if_not_P [OF False] by (rule load_store_fault_precise(1) [OF m h n l False [unfolded a_def]])
qed

theorem integer_loads_witness:
  "\<exists>c'. exec_ldst plain_env OpLoadOff (inst0\<lparr>i_rd := 2, i_imm := 0x1000, i_sz := 4, i_sh := extSign\<rparr>) sample = (Inr (), c')
     \<and> c_R c' 2 = 0xffffffff91000400"
proof -
  define i where "i = inst0\<lparr>i_rd := 2, i_imm := 0x1000, i_sz := 4, i_sh := extSign\<rparr>"
  have n: "sz_of i \<in> {1, 2, 4, 8}" and s: "sz_of i = 4" and a: "ldst_addr OpLoadOff i sample = 0x1000"
    by (simp_all add: i_def addr_off_def sample_fields)
  have "\<forall>k < 4. allows 1 sample (0x1000 + of_nat k)"
    using small_index by (simp add: sample_allows)
  then have "\<exists>c'. exec_ldst plain_env OpLoadOff i sample = (Inr (), c') \<and> c_R c' 2 = ld_ext i (le_val sample_code)"
    using integer_loads [OF sample_effect(1) sample_fields(1) n, of OpLoadOff plain_env]
    unfolding a s by (auto simp: wb_regs_def sample_word i_def)
  moreover have "ld_ext i (le_val sample_code) = 0xffffffff91000400"
    by (simp add: i_def ld_ext_def sext_def)
  ultimately show ?thesis
    by (simp add: i_def)
qed

text \<open>
  C11: a single-register store that no hook watches changes exactly the addressed bytes, to the low
  bytes of its register, writes the base back and moves on; if any byte is not writable it faults and
  the whole CPU, with its memory, is as before.
\<close>
theorem integer_stores:
  fixes c :: "'a cpu_scheme"
  assumes m: "mem_inv D c" and h: "no_mem_hooks c" and n: "sz_of i \<in> {1, 2, 4, 8}"
    and s: "s \<in> {OpStoreOff, OpStoreReg, OpStoreWb}"
  defines "a \<equiv> ldst_addr s i c"
  shows "if \<forall>k < sz_of i. allows 2 c (a + of_nat k)
    then \<exists>c'. exec_ldst E s i c = (Inr (), c') \<and>
      mbyte c' = mem_put a (le_bytes (sz_of i) (c_R c (i_rd i))) (mbyte c) \<and> mprot c' = mprot c \<and>
      m_pc c' = m_pc c + 4 \<and> c_R c' = wb_regs s i a (c_R c)
    else \<exists>e. exec_ldst E s i c = (Inl e, c)"
proof (cases "\<forall>k < sz_of i. allows 2 c (a + of_nat k)")
  case True
  then show ?thesis
    using store_correct [OF m h n s, of E] by (simp add: a_def del: ldst_addr.simps)
next
  case False
  show ?thesis
    unfolding if_not_P [OF False] by (rule load_store_fault_precise(2) [OF m h n s False [unfolded a_def]])
qed

theorem integer_stores_witness:
  "\<exists>c'. exec_ldst plain_env OpStoreWb (inst0\<lparr>i_rn := 1, i_imm := 0x2ff8, i_sz := 8, i_cond := modePre\<rparr>) sample = (Inr (), c')
     \<and> c_R c' 1 = 0x2ff8"
proof -
  define i where "i = inst0\<lparr>i_rn := 1, i_imm := 0x2ff8, i_sz := 8, i_cond := modePre\<rparr>"
  have n: "sz_of i \<in> {1, 2, 4, 8}" and s: "sz_of i = 8" and a: "ldst_addr OpStoreWb i sample = 0x2ff8"
    by (simp_all add: i_def addrFor_def sample_fields)
  have "(0x2ff8 :: u64) + of_nat k - 0x1000 < 0x2000" if k8: "k < 8" for k :: nat
  proof -
    consider "k = 0" | "k = 1" | "k = 2" | "k = 3" | "k = 4" | "k = 5" | "k = 6" | "k = 7" using k8 by linarith
    then show ?thesis by cases simp_all
  qed
  then have "\<forall>k < 8. allows 2 sample (0x2ff8 + of_nat k)"
    by (simp add: sample_allows)
  then show ?thesis
    using integer_stores [OF sample_effect(1) sample_fields(1) n, of OpStoreWb plain_env]
    unfolding a s by (auto simp: wb_regs_def i_def)
qed

text \<open>
  C12: the single-register hot handlers, those that hotLdSt and hotLdStReg select for an immediate or a
  register offset, do exactly what the generic single-register load and store handlers do, whatever the
  TLB holds, when no hook watches the memory. The hot pair handlers are not covered: see hot_pair_not_precise.
\<close>
theorem hot_handlers:
  fixes c :: "'a cpu_scheme"
  assumes "no_mem_hooks c" and "f = hotLdSt \<and> g = (if load then OpLoadOff else OpStoreOff) \<or>
      f = hotLdStReg \<and> g = (if load then OpLoadReg else OpStoreReg)"
    and "f load (sz_of i) (i_sh i) = Some h"
  shows "exec_hot E h i c = exec_ldst E g i c"
proof -
  have n: "sz_of i \<in> {1, 4, 8}" and z: "i_sh i = extZero"
    using assms(2,3) by (auto simp: hotLdSt_def hotLdStReg_def split: if_splits)
  have ld: "hot_load E (sz_of i) i = ldInt E i"
    by (rule ext) (rule hot_load_generic [OF n z])
  have st: "hot_store E (sz_of i) i a c = stInt E i a c" for a
    by (rule hot_store_generic [OF assms(1) n])
  have at: "at_addr p (hot_store E (sz_of i) i) c = at_addr p (stInt E i) c" for p
    using st by (simp add: at_addr_def andthen_def bnd_def gets_def)
  show ?thesis
    using assms(2,3) ld at n
    by (auto simp: hotLdSt_def hotLdStReg_def split: if_splits)
qed

theorem hot_handlers_witness:
  "exec_hot plain_env OpStr32Off (inst0\<lparr>i_rn := 1, i_imm := 0x1ffe, i_sz := 4\<rparr>) sample =
   exec_ldst plain_env OpStoreOff (inst0\<lparr>i_rn := 1, i_imm := 0x1ffe, i_sz := 4\<rparr>) sample"
  by (rule hot_handlers [OF sample_fields(1), of hotLdSt _ False]) (simp_all add: hotLdSt_def)

subsection \<open>Pairs\<close>

lemma guest_page_none:
  "no_mem_hooks m \<Longrightarrow> allows 1 m a \<Longrightarrow> \<exists>p. guest_page E MemRead a n v m = (Inr p, m)"
  using guest_page_allowed [of MemRead m a E n v] by auto

lemma outside_eq_no_hooks: "outside_eq m m' \<Longrightarrow> no_mem_hooks m \<Longrightarrow> no_mem_hooks m'"
  by (simp add: outside_eq_def no_mem_hooks_def)

text \<open>The first word of a pair, read with its page checked; the second refused.\<close>

lemma first_word:
  fixes c :: "'a cpu_scheme"
  assumes m: "mem_inv D c" and E: "env_ok D E" and h: "no_mem_hooks c" and ok: "\<forall>k < 8. allows 1 c (a + of_nat k)"
    and no: "\<not> (\<forall>k < 8. allows 1 c (a + 8 + of_nat k))"
  obtains p c1 e e' where "guest_page E MemRead a 16 0 c = (Inr p, c)"
    and "readN E a 8 c = (Inr (le_val (mbytes c a 8)), c1)" and "c_R c1 = c_R c"
    and "readN E (a + 8) 8 c1 = (Inl e, c1)" and "readN E (a + 8) 8 (setR r v c1) = (Inl e', setR r v c1)"
proof -
  have a0: "allows 1 c a"
    using ok [rule_format, of 0] by simp
  obtain p where p: "guest_page E MemRead a 16 0 c = (Inr p, c)"
    using guest_page_none [OF h a0] by blast
  obtain c1 where r: "readN E a 8 c = (Inr (le_val (mbytes c a 8)), c1)" "mprot c1 = mprot c" "outside_eq c c1"
    using readN_correct [OF m h _ ok] by auto
  have i1: "mem_inv D c1"
    using keepsD_eq [OF readN_keeps [OF E] m r(1)] .
  have no1: "\<not> (\<forall>k < 8. allows 1 c1 (a + 8 + of_nat k))"
    using no r(2) by (simp add: allows_def)
  have h1: "no_mem_hooks c1"
    using outside_eq_no_hooks [OF r(3) h] .
  obtain e where e: "readN E (a + 8) 8 c1 = (Inl e, c1)"
    using readN_fault [OF i1 h1 _ no1, of E] by auto
  have i2: "mem_inv D (setR r v c1)" and h2: "no_mem_hooks (setR r v c1)"
    and no2: "\<not> (\<forall>k < 8. allows 1 (setR r v c1) (a + 8 + of_nat k))"
    using i1 h1 no1 by (simp_all add: setR_def no_mem_hooks_def allows_def mprot_def)
  obtain e2 where e2: "readN E (a + 8) 8 (setR r v c1) = (Inl e2, setR r v c1)"
    using readN_fault [OF i2 h2 _ no2, of E] by auto
  show ?thesis
    using that p r e e2 outside_eq_cpu by blast
qed

lemma same_page_allows: "vpn_of b = vpn_of a \<Longrightarrow> allows need m b = allows need m a"
  by (simp add: allows_lookup)

lemma pair_hit:
  assumes m: "mem_inv D m" and t: "t_vpn (m_rtlb m (vpn_of a AND 255)) = vpn_of a" and f: "off_of a \<le> 4096 - 16"
  shows "\<forall>k < 8. allows 1 m (a + 8 + of_nat k)"
proof (intro allI impI)
  fix k :: nat
  assume k: "k < 8"
  have f16: "unat (off_of a) + 16 \<le> 4096"
    using f by (simp add: word_le_nat_alt)
  have "fits a 8"
    using f16 by (simp add: fits_iff)
  then have al: "allows 1 m a"
    using rtlb_hit_allows [OF m t, of 8, rule_format, of 0] by simp
  have v: "vpn_of (a + of_nat (8 + k)) = vpn_of a"
    using k f16 by (intro same_page(1)) simp
  have "a + 8 + of_nat k = a + of_nat (8 + k)"
    by simp
  then show "allows 1 m (a + 8 + of_nat k)"
    using same_page_allows [OF v, of 1 m] al by (simp only:)
qed

text \<open>
  When only the first word of an unindexed 64-bit load pair is readable, the generic handler
  faults with every register as before, but the hot handler that decoding selects for this form has
  already overwritten its first destination when it faults.
\<close>
theorem hot_pair_not_precise:
  fixes c :: "'a cpu_scheme"
  assumes m: "mem_inv D c" and E: "env_ok D E" and h: "no_mem_hooks c" and i: "sz_of i = 8" "i_cond i = modeOff"
    and ok: "\<forall>k < 8. allows 1 c (addr_off i c + of_nat k)"
    and no: "\<not> (\<forall>k < 8. allows 1 c (addr_off i c + 8 + of_nat k))"
  shows "\<exists>e e' c1 c2. exec_ldst E OpLoadPair i c = (Inl e, c1) \<and> c_R c1 = c_R c \<and>
    exec_hot E OpLdp64Off i c = (Inl e', c2) \<and> c_R c2 = (c_R c)(i_rd i := le_val (mbytes c (addr_off i c) 8))"
proof -
  let ?a = "addr_off i c" and ?v = "le_val (mbytes c (addr_off i c) 8)"
  obtain p c1 e e' where g: "guest_page E MemRead ?a 16 0 c = (Inr p, c)" and r: "readN E ?a 8 c = (Inr ?v, c1)"
    and R: "c_R c1 = c_R c" and e: "readN E (?a + 8) 8 c1 = (Inl e, c1)"
    and e': "readN E (?a + 8) 8 (setR (i_rd i) ?v c1) = (Inl e', setR (i_rd i) ?v c1)"
    by (rule first_word [OF m E h ok no])
  have r64: "readN E a 8 = read64 E a" for a
    by (simp add: readN_def)
  have a: "addrFor i c = ?a"
    using i(2) by (simp add: addrFor_def addr_off_def)
  have "exec_ldst E OpLoadPair i c = (Inl e, c1)"
    using g r e by (simp add: with_wb_def loadPair_def comp_defs a i(1))
  moreover have miss: "(t_vpn (m_rtlb c (vpn_of ?a AND 255)) = vpn_of ?a \<and> off_of ?a \<le> 4096 - 16) = False"
    using pair_hit [OF m] no by blast
  have "hot_ldp E i ?a c = (Inl e', setR (i_rd i) ?v c1)"
    using g r e' unfolding hot_ldp_def Let_def miss if_False by (simp add: comp_defs r64)
  then have "exec_hot E OpLdp64Off i c = (Inl e', setR (i_rd i) ?v c1)"
    by (simp add: at_addr_def comp_defs)
  ultimately show ?thesis
    using R by auto
qed


lemma small_index8: "k < 8 \<Longrightarrow> (0x1ff8 :: u64) + of_nat k < 0x2000"
proof -
  assume "k < 8"
  then consider "k = 0" | "k = 1" | "k = 2" | "k = 3" | "k = 4" | "k = 5" | "k = 6" | "k = 7" by linarith
  then show ?thesis by cases simp_all
qed

theorem hot_pair_not_precise_witness:
  "\<exists>e c'. exec_hot plain_env OpLdp64Off (inst0\<lparr>i_rd := 1, i_ra := 2, i_imm := 0x2ff8, i_sz := 8\<rparr>) (setR 1 7 sample)
     = (Inl e, c') \<and> c_R (setR 1 7 sample) 1 = 7 \<and> c_R c' 1 = 0"
proof -
  define i where "i = inst0\<lparr>i_rd := 1, i_ra := 2, i_imm := 0x2ff8, i_sz := 8\<rparr>"
  define c where "c = setR 1 7 sample"
  have E: "env_ok (decode no_simd inst0) plain_env"
    using plain_env_ok(1) by (simp add: cpu_env_ok_def)
  have m: "mem_inv (decode no_simd inst0) c" and h: "no_mem_hooks c"
    using sample_effect(1) sample_fields(1) by (simp_all add: c_def setR_def no_mem_hooks_def)
  have i: "sz_of i = 8" "i_cond i = modeOff" and a: "addr_off i c = 0x2ff8"
    by (simp_all add: i_def c_def addr_off_def setR_def sample_fields)
  have al: "allows 1 c x \<longleftrightarrow> x - 0x1000 < 0x2000" for x
    by (simp add: allows_def c_def sample_effect(3) sample0_prot)
  have ok: "\<forall>k < 8. allows 1 c (addr_off i c + of_nat k)"
    using small_index8 by (simp add: al a)
  have no: "\<not> (\<forall>k < 8. allows 1 c (addr_off i c + 8 + of_nat k))"
    by (auto simp: al a intro!: exI [of _ 0])
  have z: "mbytes c 0x2ff8 8 = replicate 8 0"
    by (simp add: mbytes_def c_def sample_effect mem_put_def sample0_byte upt_rec) (simp add: eval_nat_numeral)
  have "le_val (replicate 8 0) = 0"
    by (simp add: eval_nat_numeral)
  then show ?thesis
    using hot_pair_not_precise [OF m E h i ok no] unfolding a z
    by (auto simp: i_def [symmetric] c_def [symmetric]) (auto simp: i_def c_def setR_def)
qed

subsection \<open>Exclusive access\<close>

text \<open>
  A store-exclusive succeeds (status 0, the bytes written) exactly when the last exclusive access
  armed the monitor for the same address and length; otherwise it gives status 1 and writes nothing.
  Either way the monitor is open afterwards, so a second one fails.
\<close>
theorem store_exclusive:
  fixes c :: "'a cpu_scheme"
  assumes m: "mem_inv D c" and h: "no_mem_hooks c" and n: "sz_of i \<in> {1, 2, 4, 8}"
    and al: "\<forall>k < sz_of i. allows 2 c (a + of_nat k)"
  shows "\<exists>c'. opStxr E i a c = (Inr (), c') \<and> \<not> c_exclValid c' \<and>
    (if c_exclValid c \<and> c_exclAddr c = a \<and> c_exclSize c = sz_of i
     then mbyte c' = mem_put a (le_bytes (sz_of i) (c_R c (i_rd i))) (mbyte c) \<and> c_R c' = (c_R c)(i_ra i := 0)
     else mbyte c' = mbyte c \<and> c_R c' = (c_R c)(i_ra i := 1))"
proof -
  define d where "d = c\<lparr>c_exclValid := False\<rparr>"
  have md: "mem_inv D d" and hd: "no_mem_hooks d" and bd: "mbyte d = mbyte c" "c_R d = c_R c" "\<not> c_exclValid d"
    using m h by (simp_all add: d_def no_mem_hooks_def mbyte_def page_data_def fun_eq_iff)
  have ald: "\<forall>k < sz_of i. allows 2 d (a + of_nat k)"
    using al by (simp add: d_def allows_def mprot_def)
  obtain c1 where w: "writeN E a (sz_of i) (c_R d (i_rd i)) d = (Inr (), c1)"
    "mbyte c1 = mem_put a (le_bytes (sz_of i) (c_R d (i_rd i))) (mbyte d)" "outside_eq d c1"
    using writeN_correct_cpu [OF md hd n ald] by metis
  have c1: "c_R c1 = c_R c" "\<not> c_exclValid c1"
    using w(3) more_fields [of d c1] bd by (simp_all add: outside_eq_def)
  have "opStxr E i a c = (if c_exclValid c \<and> c_exclAddr c = a \<and> c_exclSize c = sz_of i
      then (Inr (), setR (i_ra i) 0 c1) else (Inr (), setR (i_ra i) 1 d))"
    using w(1) by (simp add: opStxr_def exclusiveOK_def comp_defs d_def [symmetric])
  then show ?thesis
    using w(2) c1 bd by (auto simp: setR_def mbyte_def page_data_def fun_eq_iff)
qed

theorem store_exclusive_witness:
  "\<exists>c'. opStxr plain_env (inst0\<lparr>i_rd := 3, i_ra := 4, i_sz := 4\<rparr>) 0x1000 sample = (Inr (), c') \<and> c_R c' 4 = 1"
proof -
  define i where "i = inst0\<lparr>i_rd := 3, i_ra := 4, i_sz := 4\<rparr>"
  have n: "sz_of i \<in> {1, 2, 4, 8}" and al: "\<forall>k < sz_of i. allows 2 sample (0x1000 + of_nat k)"
    using small_index by (simp_all add: i_def sample_allows)
  show ?thesis
    using store_exclusive [OF sample_effect(1) sample_fields(1) n al, of plain_env]
    by (auto simp: i_def sample_fields)
qed

subsection \<open>Registers\<close>

text \<open>
  C14: register 31 reads as zero for ever: no decoded instruction, whatever word it was decoded from,
  changes the slot the decoder uses for XZR, as long as hooks and vector handlers do not.
\<close>
theorem zero_register:
  assumes "zr_env_ok E" "simd_only simd" "i_fn (decodeAt simd raw pc) = Some h"
    and "\<forall>n. h = HSimd n \<longrightarrow> keeps zr_zero (simd_fn E n (decodeAt simd raw pc))" and "c_R c rZR = 0"
  shows "c_R (snd (exec_fn E h (decodeAt simd raw pc) c)) rZR = 0"
  using keepsD [OF zr_step [OF assms(1,2) refl assms(3,4)] assms(5)] .

theorem zero_register_witness:
  "c_R (snd (exec_fn plain_env (HImm OpAddsImm64) (decodeAt no_simd 0xb100041f 0) sample)) rZR = 0"
proof -
  have "i_fn (decodeAt no_simd 0xb100041f 0) = Some (HImm OpAddsImm64)"
    by code_simp
  then show ?thesis
    by (rule zero_register [OF plain_env_ok(2) no_simd_only]) (simp_all add: sample_fields)
qed

text \<open>
  \<open>RestoreContext\<close> of a saved context brings back every register, flag and counter and the
  exclusive monitor, and touches neither the memory nor the zero register.
\<close>
theorem context_round_trip:
  assumes "c_R c rZR = 0" "c_R d rZR = 0"
  defines "d' \<equiv> RestoreContext (SaveContext c) d"
  shows "SaveContext d' = SaveContext c \<and> mbyte d' = mbyte d \<and> mprot d' = mprot d \<and> c_R d' rZR = 0 \<and>
    c_stopReq d' = c_stopReq d \<and> c_codeHooks d' = c_codeHooks d"
proof -
  have r: "r < 33 \<longleftrightarrow> r < 31 \<or> r = rZR \<or> r = rSP" for r :: u8
    by unat_arith
  have lt: "rZR < 33" "\<not> rZR < 31"
    by simp_all
  have R: "(\<lambda>r. if r < 33 then c_R d' r else 0) = (\<lambda>r. if r < 33 then c_R c r else 0)"
  proof
    fix q :: u8
    show "(if q < 33 then c_R d' q else 0) = (if q < 33 then c_R c q else 0)"
      using assms(1,2) r [of q] by (auto simp: d'_def RestoreContext_def SaveContext_def)
  qed
  have f: "m_pc d' = m_pc c" "c_NZCV d' = c_NZCV c" "c_V d' = c_V c" "c_FPCR d' = c_FPCR c" "c_FPSR d' = c_FPSR c"
    "c_TPIDR d' = c_TPIDR c" "c_TPIDRRO d' = c_TPIDRRO c" "c_exclAddr d' = c_exclAddr c"
    "c_exclVal d' = c_exclVal c" "c_exclVal2 d' = c_exclVal2 c" "c_exclSize d' = c_exclSize c"
    "c_exclValid d' = c_exclValid c" "c_icount d' = c_icount c"
    by (simp_all add: d'_def RestoreContext_def SaveContext_def)
  have "SaveContext d' = SaveContext c"
    unfolding SaveContext_def R f ..
  moreover have "mbyte d' = mbyte d" "mprot d' = mprot d" "c_R d' rZR = 0" "c_stopReq d' = c_stopReq d"
    "c_codeHooks d' = c_codeHooks d"
    using assms(2) by (simp_all add: d'_def RestoreContext_def mbyte_def mprot_def page_data_def fun_eq_iff)
  ultimately show ?thesis by blast
qed

theorem context_round_trip_witness:
  "SaveContext (RestoreContext (SaveContext (setR 5 42 sample)) New) = SaveContext (setR 5 42 sample)"
proof -
  have z: "c_R (setR 5 42 sample) rZR = 0" "c_R New rZR = 0"
    by (simp_all add: sample_fields New_def mem_init_def)
  show ?thesis
    using context_round_trip [OF z] by simp
qed

end
