(* ===== verification/Packed_Relocs.thy ===== *)
theory Packed_Relocs
  imports Prelude
begin

text \<open>
  The compressed relocation formats of internal/loader/packed.go: the signed LEB128 stream of an
  APS2 section, RELR bitmaps and plain REL entries. Go's \<open>int64\<close> values are 64-bit words read as
  signed where the code compares them. The implicit addend, a Go function or nil, is an option.
\<close>

datatype load_err =
    Truncated nat | Overlong nat | BadMagic | BadCount u64 | BadGroup u64
  | ReadSection string | BadSymIndex u32 | Unresolved string | UnhandledReloc u32 u64
  | MapSeg u64 | WriteSeg u64 | ProtectSeg u64 | WriteFailed u64 | ReadFile

record reloc =
  rl_offset :: u64
  rl_type :: u32
  rl_sym :: u32
  rl_addend :: u64

definition ebnd :: "'e + 'a \<Rightarrow> ('a \<Rightarrow> 'e + 'b) \<Rightarrow> 'e + 'b" where
  "ebnd m k = (case m of Inl e \<Rightarrow> Inl e | Inr x \<Rightarrow> k x)"

lemma ebnd_simps [simp]: "ebnd (Inl e) k = Inl e" "ebnd (Inr x) k = k x"
  by (simp_all add: ebnd_def)

lemma ebnd_cong [fundef_cong]: "m = m' \<Longrightarrow> (\<And>x. m' = Inr x \<Longrightarrow> k x = k' x) \<Longrightarrow> ebnd m k = ebnd m' k'"
  by (cases m') (simp_all add: ebnd_def)

subsection \<open>Signed LEB128\<close>

text \<open>\<open>next\<close>: the result is the value and the new position.\<close>

function sleb_loop :: "u8 list \<Rightarrow> nat \<Rightarrow> u64 \<Rightarrow> nat \<Rightarrow> load_err + (u64 \<times> nat)" where
  "sleb_loop b pos v shift =
     (if pos \<ge> length b then Inl (Truncated pos)
      else let c = b ! pos;
               v1 = (if shift < 64 then v OR push_bit shift (ucast (c AND 0x7f)) else v);
               shift1 = shift + 7
           in if c AND 0x80 = 0 then
                Inr (if shift1 < 64 \<and> c AND 0x40 \<noteq> 0 then v1 OR push_bit shift1 (- 1) else v1, pos + 1)
              else if shift1 > 70 then Inl (Overlong (pos + 1))
              else sleb_loop b (pos + 1) v1 shift1)"
  by pat_completeness auto
termination
  by (relation "measure (\<lambda>(b, pos, v, shift). length b - pos)") auto

declare sleb_loop.simps [simp del]

definition sleb_next :: "u8 list \<Rightarrow> nat \<Rightarrow> load_err + (u64 \<times> nat)" where
  "sleb_next b pos = sleb_loop b pos 0 0"

subsection \<open>APS2\<close>

abbreviation maxPackedRelocs :: u64 where "maxPackedRelocs \<equiv> 0x1000000"

definition mk_reloc :: "u64 \<Rightarrow> u64 \<Rightarrow> u64 \<Rightarrow> reloc" where
  "mk_reloc offset info a =
     \<lparr>rl_offset = offset, rl_type = ucast (info AND 0xffffffff), rl_sym = ucast (drop_bit 32 info), rl_addend = a\<rparr>"

text \<open>An optional field of the stream: read when \<open>b\<close>, else the default.\<close>

definition opt_next :: "bool \<Rightarrow> u8 list \<Rightarrow> nat \<Rightarrow> u64 \<Rightarrow> load_err + (u64 \<times> nat)" where
  "opt_next b data pos d = (if b then sleb_next data pos else Inr (d, pos))"

abbreviation byInfo :: "u64 \<Rightarrow> bool" where "byInfo flags \<equiv> flags AND 1 \<noteq> 0"
abbreviation byDelta :: "u64 \<Rightarrow> bool" where "byDelta flags \<equiv> flags AND 2 \<noteq> 0"
abbreviation byAddend :: "u64 \<Rightarrow> bool" where "byAddend flags \<equiv> flags AND 4 \<noteq> 0"
abbreviation hasAddend :: "u64 \<Rightarrow> bool" where "hasAddend flags \<equiv> flags AND 8 \<noteq> 0"

text \<open>
  The entries of one group: \<open>n\<close> are left. The state is the position, the running offset and the
  running addend; the relocations come out in order.
\<close>

fun aps_entries ::
  "nat \<Rightarrow> u64 \<Rightarrow> u64 \<Rightarrow> u64 \<Rightarrow> (u64 \<Rightarrow> u64) option \<Rightarrow> u8 list \<Rightarrow> nat \<Rightarrow> u64 \<Rightarrow> u64
    \<Rightarrow> load_err + (nat \<times> u64 \<times> u64 \<times> reloc list)" where
  "aps_entries 0 flags gdelta ginfo implicit data pos offset addend = Inr (pos, offset, addend, [])"
| "aps_entries (Suc n) flags gdelta ginfo implicit data pos offset addend =
     ebnd (opt_next (\<not> byDelta flags) data pos gdelta) (\<lambda>(d, pos).
       let offset = offset + d in
       ebnd (opt_next (\<not> byInfo flags) data pos ginfo) (\<lambda>(info, pos).
         ebnd (opt_next (hasAddend flags \<and> \<not> byAddend flags) data pos 0) (\<lambda>(da, pos).
           let addend = addend + da;
               a = (if hasAddend flags then addend
                    else case implicit of None \<Rightarrow> 0 | Some f \<Rightarrow> f offset) in
           ebnd (aps_entries n flags gdelta ginfo implicit data pos offset addend)
             (\<lambda>(pos, off', add', rs). Inr (pos, off', add', mk_reloc offset info a # rs)))))"

text \<open>The outer loop: \<open>left\<close> relocations (\<open>total - len(out)\<close>) are still to come.\<close>

lemma sint_pos: "0 < sint (g :: u64) \<Longrightarrow> 0 < unat g"
  by (cases "g = 0") (auto simp: unat_gt_0)

lemma group_shrinks: "0 < sint (g :: u64) \<Longrightarrow> \<not> int left < sint g \<Longrightarrow> left - unat g < left"
  using sint_pos [of g] by (intro diff_less) linarith+

function aps_groups ::
  "nat \<Rightarrow> (u64 \<Rightarrow> u64) option \<Rightarrow> u8 list \<Rightarrow> nat \<Rightarrow> u64 \<Rightarrow> u64 \<Rightarrow> load_err + reloc list" where
  "aps_groups left implicit data pos offset addend =
     (if left = 0 then Inr []
      else
        ebnd (sleb_next data pos) (\<lambda>(groupSize, pos).
          if sint groupSize \<le> 0 \<or> sint groupSize > int left then Inl (BadGroup groupSize)
          else
            ebnd (sleb_next data pos) (\<lambda>(flags, pos).
            ebnd (opt_next (byDelta flags) data pos 0) (\<lambda>(gdelta, pos).
            ebnd (opt_next (byInfo flags) data pos 0) (\<lambda>(ginfo, pos).
            ebnd (opt_next (hasAddend flags \<and> byAddend flags) data pos 0) (\<lambda>(d, pos).
              let addend = (if hasAddend flags then addend + d else 0) in
              ebnd (aps_entries (unat groupSize) flags gdelta ginfo implicit data pos offset addend)
                (\<lambda>(pos, offset, addend, rs).
                  ebnd (aps_groups (left - unat groupSize) implicit data pos offset addend)
                    (\<lambda>more. Inr (rs @ more)))))))))"
  by pat_completeness auto
termination
  by (relation "measure (\<lambda>(left, _). left)") (auto intro: group_shrinks simp: not_le)

declare aps_groups.simps [simp del]

definition decodeAPS2 :: "u8 list \<Rightarrow> (u64 \<Rightarrow> u64) option \<Rightarrow> load_err + reloc list" where
  "decodeAPS2 data implicit =
     (if length data < 4 \<or> take 4 data \<noteq> [0x41, 0x50, 0x53, 0x32] then Inl BadMagic
      else ebnd (sleb_next data 4) (\<lambda>(total, pos).
        if sint total < 0 \<or> sint total > sint maxPackedRelocs then Inl (BadCount total)
        else ebnd (sleb_next data pos) (\<lambda>(offset, pos).
          aps_groups (unat total) implicit data pos offset 0)))"

subsection \<open>RELR and REL\<close>

abbreviation R_RELATIVE :: u32 where "R_RELATIVE \<equiv> 1027"

definition emit :: "(u64 \<Rightarrow> u64) option \<Rightarrow> u64 \<Rightarrow> reloc" where
  "emit implicit at =
     \<lparr>rl_offset = at, rl_type = R_RELATIVE, rl_sym = 0,
      rl_addend = (case implicit of None \<Rightarrow> 0 | Some f \<Rightarrow> f at)\<rparr>"

function relr_bits :: "u64 \<Rightarrow> u64 \<Rightarrow> u64 list" where
  "relr_bits bits at =
     (if bits = 0 then [] else (if bits AND 1 \<noteq> 0 then [at] else []) @ relr_bits (drop_bit 1 bits) (at + 8))"
  by pat_completeness auto
termination
proof (relation "measure (\<lambda>(bits, at). unat bits)")
  fix bits at :: u64
  assume "bits \<noteq> 0"
  then have "unat bits div 2 < unat bits"
    by (intro div_less_dividend) (simp_all add: unat_gt_0)
  then show "((drop_bit 1 bits, at + 8), (bits, at)) \<in> measure (\<lambda>(bits, at). unat bits)"
    by (simp add: unat_div drop_bit_eq_div)
qed simp

declare relr_bits.simps [simp del]

text \<open>The little-endian words at offsets 0, 8, 16, ... of the data, as long as they are complete.\<close>

fun words64 :: "u8 list \<Rightarrow> u64 list" where
  "words64 data = (if length data < 8 then [] else le_val (take 8 data) # words64 (drop 8 data))"

declare words64.simps [simp del]

fun relr_loop :: "u64 list \<Rightarrow> u64 \<Rightarrow> u64 list" where
  "relr_loop [] w = []"
| "relr_loop (e # es) w =
     (if e AND 1 = 0 then e # relr_loop es (e + 8)
      else relr_bits (drop_bit 1 e) w @ relr_loop es (w + 63 * 8))"

definition decodeRELR :: "u8 list \<Rightarrow> (u64 \<Rightarrow> u64) option \<Rightarrow> reloc list" where
  "decodeRELR data implicit = map (emit implicit) (relr_loop (words64 data) 0)"

fun decodeREL :: "u8 list \<Rightarrow> (u64 \<Rightarrow> u64) option \<Rightarrow> reloc list" where
  "decodeREL data implicit =
     (if length data < 16 then []
      else let rOff = le_val (take 8 data); rInfo = le_val (take 8 (drop 8 data))
           in mk_reloc rOff rInfo (case implicit of None \<Rightarrow> 0 | Some f \<Rightarrow> f rOff)
              # decodeREL (drop 16 data) implicit)"

declare decodeREL.simps [simp del]

text \<open>\<open>SHT_RELA\<close> entries, decoded in place by \<open>Parse\<close>.\<close>

fun decodeRELA :: "u8 list \<Rightarrow> reloc list" where
  "decodeRELA data =
     (if length data < 24 then []
      else mk_reloc (le_val (take 8 data)) (le_val (take 8 (drop 8 data))) (le_val (take 8 (drop 16 data)))
           # decodeRELA (drop 24 data))"

declare decodeRELA.simps [simp del]

end
