(* ===== verification/Elf_Parse.thy ===== *)
theory Elf_Parse
  imports Packed_Relocs
begin

text \<open>
  internal/loader/elf.go: from a parsed ELF file to the load plan. Reading and splitting the file is
  Go's debug/elf; its result is the record \<open>elf_file\<close>. A section whose data cannot be read has data
  \<open>None\<close>, a missing dynamic symbol table is \<open>None\<close>; \<open>pg_data\<close> is what \<open>ReadAt\<close> can deliver of a
  program segment.
\<close>

record prog =
  pg_type :: u32
  pg_vaddr :: u64
  pg_filesz :: u64
  pg_memsz :: u64
  pg_off :: u64
  pg_flags :: u32
  pg_data :: "u8 list"

record elf_sym =
  es_name :: string
  es_info :: u8
  es_section :: u16
  es_value :: u64
  es_size :: u64

record elf_section =
  sec_name :: string
  sec_type :: u32
  sec_data :: "u8 list option"
  sec_addr :: u64
  sec_size :: u64

record elf_file =
  f_machine :: u16
  f_needed :: "string list"
  f_progs :: "prog list"
  f_dynsyms :: "elf_sym list option"
  f_sections :: "elf_section list"
  f_dt_init :: "u64 list option"

abbreviation (input) PT_LOAD :: u32 where "PT_LOAD \<equiv> 1"
abbreviation SHT_RELA :: u32 where "SHT_RELA \<equiv> 4"
abbreviation SHT_REL :: u32 where "SHT_REL \<equiv> 9"
abbreviation SHT_INIT_ARRAY :: u32 where "SHT_INIT_ARRAY \<equiv> 14"
abbreviation shtAndroidRel :: u32 where "shtAndroidRel \<equiv> 0x60000001"
abbreviation shtAndroidRela :: u32 where "shtAndroidRela \<equiv> 0x60000002"
abbreviation shtAndroidRelr :: u32 where "shtAndroidRelr \<equiv> 0x6fffff00"
abbreviation shtRelr :: u32 where "shtRelr \<equiv> 19"
abbreviation STB_GLOBAL :: u8 where "STB_GLOBAL \<equiv> 1"
abbreviation STB_WEAK :: u8 where "STB_WEAK \<equiv> 2"
abbreviation STT_TLS :: u8 where "STT_TLS \<equiv> 6"

record segment =
  sg_vaddr :: u64
  sg_filesz :: u64
  sg_memsz :: u64
  sg_off :: u64
  sg_flags :: u32
  sg_aligned :: u64

record elf_symbol =
  sy_name :: string
  sy_value :: u64
  sy_size :: u64
  sy_undef :: bool
  sy_absolute :: bool
  sy_bind :: u8
  sy_type :: u8

record image =
  im_machine :: u16
  im_segments :: "segment list"
  im_relocs :: "reloc list"
  im_syms :: "elf_symbol list"
  im_imports :: "string list"
  im_exports :: "string \<rightharpoonup> u64"
  im_init_array :: "u64 list"
  im_init_array_addr :: u64
  im_init_array_len :: nat
  im_init :: u64
  im_needed :: "string list"
  im_load_span :: u64

definition exportable :: "u8 \<Rightarrow> u8 \<Rightarrow> bool \<Rightarrow> bool" where
  "exportable bind typ absolute =
     (if absolute \<or> typ = STT_TLS then False else bind = STB_GLOBAL \<or> bind = STB_WEAK)"

definition parse_segments :: "prog list \<Rightarrow> segment list" where
  "parse_segments ps =
     map (\<lambda>p. \<lparr>sg_vaddr = pg_vaddr p, sg_filesz = pg_filesz p, sg_memsz = pg_memsz p, sg_off = pg_off p,
               sg_flags = pg_flags p, sg_aligned = pageUp (pg_vaddr p + pg_memsz p) - pageDown (pg_vaddr p)\<rparr>)
       (filter (\<lambda>p. pg_type p = PT_LOAD) ps)"

definition load_span :: "prog list \<Rightarrow> u64" where
  "load_span ps =
     pageUp (fold (\<lambda>p m. let e = pg_vaddr p + pg_memsz p in if e > m then e else m)
               (filter (\<lambda>p. pg_type p = PT_LOAD) ps) 0)"

definition mk_sym :: "elf_sym \<Rightarrow> elf_symbol" where
  "mk_sym s =
     \<lparr>sy_name = es_name s, sy_value = es_value s, sy_size = es_size s, sy_undef = (es_section s = 0),
      sy_absolute = (es_section s = 0xfff1), sy_bind = drop_bit 4 (es_info s), sy_type = es_info s AND 0xf\<rparr>"

definition null_sym :: elf_symbol where
  "null_sym = \<lparr>sy_name = '''', sy_value = 0, sy_size = 0, sy_undef = False, sy_absolute = False,
     sy_bind = 0, sy_type = 0\<rparr>"

definition parse_syms :: "elf_sym list option \<Rightarrow> elf_symbol list" where
  "parse_syms dyn = (case dyn of None \<Rightarrow> [] | Some ss \<Rightarrow> null_sym # map mk_sym ss)"

text \<open>The \<open>switch\<close> on a dynamic symbol: an import, an export, or neither.\<close>

definition parse_imports :: "elf_sym list option \<Rightarrow> string list" where
  "parse_imports dyn =
     (case dyn of None \<Rightarrow> []
      | Some ss \<Rightarrow> map sy_name (filter (\<lambda>s. sy_name s \<noteq> '''' \<and> sy_undef s) (map mk_sym ss)))"

definition parse_exports :: "elf_sym list option \<Rightarrow> string \<rightharpoonup> u64" where
  "parse_exports dyn =
     (case dyn of None \<Rightarrow> Map.empty
      | Some ss \<Rightarrow>
          fold (\<lambda>s m. if sy_name s \<noteq> '''' \<and> \<not> sy_undef s \<and> exportable (sy_bind s) (sy_type s) (sy_absolute s)
                      then m(sy_name s \<mapsto> sy_value s) else m)
            (map mk_sym ss) Map.empty)"

text \<open>\<open>implicitAddendFunc\<close>: the word in the first load segment that contains all of it.\<close>

fun implicitAddend :: "prog list \<Rightarrow> u64 \<Rightarrow> u64" where
  "implicitAddend [] vaddr = 0"
| "implicitAddend (p # ps) vaddr =
     (if pg_type p \<noteq> PT_LOAD \<or> vaddr < pg_vaddr p \<or> vaddr + 8 > pg_vaddr p + pg_filesz p
      then implicitAddend ps vaddr
      else let off = unat (vaddr - pg_vaddr p)
           in if off + 8 > length (pg_data p) then 0 else le_val (take 8 (drop off (pg_data p))))"

text \<open>The relocation sections, in order.\<close>

fun parse_relocs :: "(u64 \<Rightarrow> u64) \<Rightarrow> elf_section list \<Rightarrow> load_err + reloc list" where
  "parse_relocs implicit [] = Inr []"
| "parse_relocs implicit (sec # secs) =
     (if sec_type sec \<notin> {SHT_RELA, SHT_REL, shtAndroidRela, shtAndroidRel, shtRelr, shtAndroidRelr}
      then parse_relocs implicit secs
      else case sec_data sec of
          None \<Rightarrow> Inl (ReadSection (sec_name sec))
        | Some data \<Rightarrow>
            ebnd (if sec_type sec = SHT_RELA then Inr (decodeRELA data)
                  else if sec_type sec = shtAndroidRela \<or> sec_type sec = shtAndroidRel then
                    decodeAPS2 data (if sec_type sec = shtAndroidRel then Some implicit else None)
                  else if sec_type sec = shtRelr \<or> sec_type sec = shtAndroidRelr then Inr (decodeRELR data (Some implicit))
                  else Inr (decodeREL data (Some implicit)))
              (\<lambda>rs. ebnd (parse_relocs implicit secs) (\<lambda>more. Inr (rs @ more))))"

text \<open>The init arrays: the address and length of the last one, the contents of all.\<close>

fun parse_init :: "elf_section list \<Rightarrow> u64 \<Rightarrow> nat \<Rightarrow> u64 list \<Rightarrow> load_err + (u64 \<times> nat \<times> u64 list)" where
  "parse_init [] addr len ws = Inr (addr, len, ws)"
| "parse_init (sec # secs) addr len ws =
     (if sec_type sec \<noteq> SHT_INIT_ARRAY then parse_init secs addr len ws
      else case sec_data sec of
          None \<Rightarrow> Inl (ReadSection (sec_name sec))
        | Some data \<Rightarrow> parse_init secs (sec_addr sec) (unat (sec_size sec div 8)) (ws @ words64 data))"

definition Parse :: "elf_file \<Rightarrow> load_err + image" where
  "Parse f =
     ebnd (parse_relocs (implicitAddend (f_progs f)) (f_sections f)) (\<lambda>relocs.
     ebnd (parse_init (f_sections f) 0 0 []) (\<lambda>(addr, len, ws). Inr
       \<lparr>im_machine = f_machine f, im_segments = parse_segments (f_progs f), im_relocs = relocs,
        im_syms = parse_syms (f_dynsyms f), im_imports = parse_imports (f_dynsyms f),
        im_exports = parse_exports (f_dynsyms f), im_init_array = ws, im_init_array_addr = addr,
        im_init_array_len = len,
        im_init = (case f_dt_init f of Some (v # vs) \<Rightarrow> v | _ \<Rightarrow> 0),
        im_needed = f_needed f, im_load_span = load_span (f_progs f)\<rparr>))"

definition SymbolRelocCount :: "image \<Rightarrow> nat" where
  "SymbolRelocCount img =
     length (filter (\<lambda>r. rl_sym r \<noteq> 0 \<and> unat (rl_sym r) < length (im_syms img) \<and>
                        sy_undef (im_syms img ! unat (rl_sym r))) (im_relocs img))"

definition RelocHistogram :: "image \<Rightarrow> u32 \<rightharpoonup> nat" where
  "RelocHistogram img =
     fold (\<lambda>r h. h(rl_type r \<mapsto> (case h (rl_type r) of None \<Rightarrow> 0 | Some n \<Rightarrow> n) + 1)) (im_relocs img) Map.empty"

end
