(* ===== verification/Backend.thy ===== *)
theory Backend
  imports Memory_Spec
begin

text \<open>
  The CPU backend interface of internal/emu/backend.go. Kernel, linker and scheduler are written
  against \<open>emu.Backend\<close>, so their models take a record of its operations over a state \<open>'b\<close>; an
  operation that can fail says whether it succeeded (the error text is not modelled). \<open>StartCount\<close> is
  \<open>None\<close> while the guest is still running. The locale
  \<open>guest_backend\<close> is the contract of the memory operations: what the code above relies on. Theory
  Interp provides the record for the interpreter and proves the contract.
\<close>

abbreviation (input) ProtRead :: u64 where "ProtRead \<equiv> 1"
abbreviation (input) ProtWrite :: u64 where "ProtWrite \<equiv> 2"
abbreviation (input) ProtExec :: u64 where "ProtExec \<equiv> 4"

text \<open>\<open>type Reg int\<close>: X0 to X10 are 0 to 10.\<close>

abbreviation (input) RegX23 :: nat where "RegX23 \<equiv> 11"
abbreviation (input) RegSP :: nat where "RegSP \<equiv> 12"
abbreviation (input) RegPC :: nat where "RegPC \<equiv> 13"
abbreviation (input) RegLR :: nat where "RegLR \<equiv> 14"
abbreviation (input) RegNZCV :: nat where "RegNZCV \<equiv> 15"
abbreviation (input) RegTPIDR :: nat where "RegTPIDR \<equiv> 16"

definition MaxMemReadLen :: u64 where
  "MaxMemReadLen = 0x10000000"

record ('b, 'x) backend =
  RegRead :: "nat \<Rightarrow> 'b \<Rightarrow> u64 option"
  RegWrite :: "nat \<Rightarrow> u64 \<Rightarrow> 'b \<Rightarrow> bool \<times> 'b"
  MemMap :: "u64 \<Rightarrow> u64 \<Rightarrow> u64 \<Rightarrow> 'b \<Rightarrow> bool \<times> 'b"
  MemUnmap :: "u64 \<Rightarrow> u64 \<Rightarrow> 'b \<Rightarrow> bool \<times> 'b"
  MemProtect :: "u64 \<Rightarrow> u64 \<Rightarrow> u64 \<Rightarrow> 'b \<Rightarrow> bool \<times> 'b"
  MemWrite :: "u64 \<Rightarrow> u8 list \<Rightarrow> 'b \<Rightarrow> bool \<times> 'b"
  MemRead :: "u64 \<Rightarrow> u64 \<Rightarrow> 'b \<Rightarrow> u8 list option"
  StartCount :: "u64 \<Rightarrow> u64 \<Rightarrow> u64 \<Rightarrow> 'b \<Rightarrow> (bool \<times> 'b) option"
  StopRun :: "'b \<Rightarrow> 'b"
  SaveCtx :: "'b \<Rightarrow> 'x option"
  RestoreCtx :: "'x \<Rightarrow> 'b \<Rightarrow> bool \<times> 'b"
  FlushCache :: "'b \<Rightarrow> bool \<times> 'b"

lemma mem_put_same: "length bs \<le> 2 ^ 63 \<Longrightarrow> k < length bs \<Longrightarrow> mem_put a bs f (a + of_nat k) = Some (bs ! k)"
  by (simp add: mem_put_def unat_of_nat take_bit_nat_eq_self)

lemma mem_put_other: "\<not> unat (x - a) < length bs \<Longrightarrow> mem_put a bs f x = f x"
  by (simp add: mem_put_def)

text \<open>The state predicate \<open>inv\<close> and the byte map \<open>bytes\<close> are the provider's; lengths of Go slices are below 2^63.\<close>

locale guest_backend =
  fixes B :: "('b, 'x) backend" and inv :: "'b \<Rightarrow> bool" and bytes :: "'b \<Rightarrow> u64 \<Rightarrow> u8 option"
  assumes be_map: "inv b \<Longrightarrow> inv (snd (MemMap B a n p b)) \<and>
      bytes (snd (MemMap B a n p b)) x =
        (if fst (MemMap B a n p b) \<and> x - a < n then Some 0 else bytes b x)"
    and be_unmap: "inv b \<Longrightarrow> inv (snd (MemUnmap B a n b)) \<and>
      bytes (snd (MemUnmap B a n b)) x =
        (if fst (MemUnmap B a n b) \<and> x - a < n then None else bytes b x)"
    and be_protect: "inv b \<Longrightarrow> inv (snd (MemProtect B a n p b)) \<and> bytes (snd (MemProtect B a n p b)) = bytes b"
    and be_write: "inv b \<Longrightarrow> length bs < 2 ^ 63 \<Longrightarrow> inv (snd (MemWrite B a bs b)) \<and>
      bytes (snd (MemWrite B a bs b)) = (if fst (MemWrite B a bs b) then mem_put a bs (bytes b) else bytes b)"
    and be_read: "inv b \<Longrightarrow> MemRead B a n b = Some bs \<Longrightarrow>
      length bs = unat n \<and> (\<forall>k < length bs. bytes b (a + of_nat k) = Some (bs ! k))"
    and be_reg: "inv b \<Longrightarrow> inv (snd (RegWrite B r v b)) \<and> bytes (snd (RegWrite B r v b)) = bytes b"
    and be_stop: "inv b \<Longrightarrow> inv (StopRun B b) \<and> bytes (StopRun B b) = bytes b"

end
