(* ===== verification/Linker.thy ===== *)
theory Linker
  imports Elf_Parse Backend
begin

text \<open>
  The dynamic linker (internal/loader/linker.go): \<open>Apply\<close> maps an image's segments into the backend,
  copies the file contents, relocates and sets the final protections. The file, re-read with
  \<open>os.ReadFile\<close>, is a parameter (\<open>None\<close>: the read failed), as is the resolver of imported names.
  A segment outside the file is a slice panic in Go; \<open>seg_in_file\<close> is the check the slice
  makes, with the capacity of the file's bytes taken to be their length.
\<close>

type_synonym resolver = "string \<Rightarrow> bool \<Rightarrow> u64 option"

definition symValue :: "image \<Rightarrow> u32 \<Rightarrow> u64 \<Rightarrow> resolver option \<Rightarrow> load_err + u64" where
  "symValue img idx base resolve =
     (if unat idx \<ge> length (im_syms img) then Inl (BadSymIndex idx)
      else let s = im_syms img ! unat idx
           in if \<not> sy_undef s then Inr (if sy_absolute s then sy_value s else base + sy_value s)
              else let weak = (sy_bind s = STB_WEAK)
                   in case (case resolve of None \<Rightarrow> None | Some f \<Rightarrow> f (sy_name s) weak) of
                        Some v \<Rightarrow> Inr v
                      | None \<Rightarrow> if weak then Inr 0 else Inl (Unresolved (sy_name s)))"

definition protOf :: "u32 \<Rightarrow> u64" where
  "protOf f =
     (let p = (if f AND 4 \<noteq> 0 then ProtRead else 0);
          p = (if f AND 2 \<noteq> 0 then p OR ProtWrite else p)
      in if f AND 1 \<noteq> 0 then p OR ProtExec else p)"

definition put64 :: "('b, 'x) backend \<Rightarrow> u64 \<Rightarrow> u64 \<Rightarrow> 'b \<Rightarrow> bool \<times> 'b" where
  "put64 B addr val b = MemWrite B addr (le_bytes 8 val) b"

definition seg_va :: "u64 \<Rightarrow> segment \<Rightarrow> u64" where
  "seg_va base s = base + pageDown (sg_vaddr s)"

definition seg_sz :: "segment \<Rightarrow> u64" where
  "seg_sz s = pageUp (sg_vaddr s + sg_memsz s) - pageDown (sg_vaddr s)"

definition seg_in_file :: "u8 list \<Rightarrow> segment \<Rightarrow> bool" where
  "seg_in_file raw s \<longleftrightarrow> sg_off s \<le> sg_off s + sg_filesz s \<and> unat (sg_off s + sg_filesz s) \<le> length raw"

definition seg_bytes :: "u8 list \<Rightarrow> segment \<Rightarrow> u8 list" where
  "seg_bytes raw s = take (unat (sg_filesz s)) (drop (unat (sg_off s)) raw)"

text \<open>An error is \<open>Some\<close>; \<open>Some None\<close> is the slice panic.\<close>

fun map_segments ::
  "('b, 'x) backend \<Rightarrow> u64 \<Rightarrow> u8 list \<Rightarrow> segment list \<Rightarrow> 'b \<Rightarrow> load_err option option \<times> 'b" where
  "map_segments B base raw [] b = (None, b)"
| "map_segments B base raw (s # ss) b =
     (case MemMap B (seg_va base s) (seg_sz s) (ProtRead OR ProtWrite OR ProtExec) b of
        (False, b) \<Rightarrow> (Some (Some (MapSeg (seg_va base s))), b)
      | (True, b) \<Rightarrow>
          if sg_filesz s > 0 then
            if \<not> seg_in_file raw s then (Some None, b)
            else (case MemWrite B (base + sg_vaddr s) (seg_bytes raw s) b of
                    (False, b) \<Rightarrow> (Some (Some (WriteSeg (base + sg_vaddr s))), b)
                  | (True, b) \<Rightarrow> map_segments B base raw ss b)
          else map_segments B base raw ss b)"

abbreviation R_ABS64 :: u32 where "R_ABS64 \<equiv> 257"
abbreviation R_GLOB_DAT :: u32 where "R_GLOB_DAT \<equiv> 1025"
abbreviation R_JUMP_SLOT :: u32 where "R_JUMP_SLOT \<equiv> 1026"

text \<open>The value a relocation stores.\<close>

definition reloc_value :: "image \<Rightarrow> u64 \<Rightarrow> resolver option \<Rightarrow> reloc \<Rightarrow> load_err + u64" where
  "reloc_value img base resolve r =
     (if rl_type r = R_RELATIVE then Inr (base + rl_addend r)
      else if rl_type r \<in> {R_GLOB_DAT, R_JUMP_SLOT, R_ABS64} then
        ebnd (symValue img (rl_sym r) base resolve) (\<lambda>v. Inr (v + rl_addend r))
      else Inl (UnhandledReloc (rl_type r) (rl_offset r)))"

fun relocate ::
  "('b, 'x) backend \<Rightarrow> image \<Rightarrow> u64 \<Rightarrow> resolver option \<Rightarrow> reloc list \<Rightarrow> 'b \<Rightarrow> load_err option option \<times> 'b" where
  "relocate B img base resolve [] b = (None, b)"
| "relocate B img base resolve (r # rs) b =
     (case reloc_value img base resolve r of
        Inl e \<Rightarrow> (Some (Some e), b)
      | Inr v \<Rightarrow>
          (case put64 B (base + rl_offset r) v b of
             (False, b) \<Rightarrow> (Some (Some (WriteFailed (base + rl_offset r))), b)
           | (True, b) \<Rightarrow> relocate B img base resolve rs b))"

fun protect_segments ::
  "('b, 'x) backend \<Rightarrow> u64 \<Rightarrow> segment list \<Rightarrow> 'b \<Rightarrow> load_err option option \<times> 'b" where
  "protect_segments B base [] b = (None, b)"
| "protect_segments B base (s # ss) b =
     (case MemProtect B (seg_va base s) (seg_sz s) (protOf (sg_flags s)) b of
        (False, b) \<Rightarrow> (Some (Some (ProtectSeg (seg_va base s))), b)
      | (True, b) \<Rightarrow> protect_segments B base ss b)"

text \<open>The three steps, each only after the one before it has succeeded.\<close>

definition Apply ::
  "('b, 'x) backend \<Rightarrow> image \<Rightarrow> u64 \<Rightarrow> resolver option \<Rightarrow> u8 list option \<Rightarrow> 'b \<Rightarrow> load_err option option \<times> 'b" where
  "Apply B img base resolve file b =
     (case file of
        None \<Rightarrow> (Some (Some ReadFile), b)
      | Some raw \<Rightarrow>
          (case map_segments B base raw (im_segments img) b of
             (Some e, b) \<Rightarrow> (Some e, b)
           | (None, b) \<Rightarrow>
               (case relocate B img base resolve (im_relocs img) b of
                  (Some e, b) \<Rightarrow> (Some e, b)
                | (None, b) \<Rightarrow> protect_segments B base (im_segments img) b)))"

subsection \<open>What Apply leaves in memory\<close>

text \<open>The same steps on a byte map.\<close>

definition seg_effect :: "u64 \<Rightarrow> u8 list \<Rightarrow> segment \<Rightarrow> (u64 \<Rightarrow> u8 option) \<Rightarrow> (u64 \<Rightarrow> u8 option)" where
  "seg_effect base raw s f =
     (let g = (\<lambda>x. if x - seg_va base s < seg_sz s then Some 0 else f x)
      in if sg_filesz s > 0 then mem_put (base + sg_vaddr s) (seg_bytes raw s) g else g)"

definition reloc_effect :: "image \<Rightarrow> u64 \<Rightarrow> resolver option \<Rightarrow> reloc \<Rightarrow> (u64 \<Rightarrow> u8 option) \<Rightarrow> (u64 \<Rightarrow> u8 option)" where
  "reloc_effect img base resolve r f =
     (case reloc_value img base resolve r of
        Inl _ \<Rightarrow> f | Inr v \<Rightarrow> mem_put (base + rl_offset r) (le_bytes 8 v) f)"

context guest_backend
begin

lemma map_segments_effect:
  assumes "inv b" and "length raw < 2 ^ 63" and "map_segments B base raw ss b = (e, b')"
  shows "inv b' \<and> (e = None \<longrightarrow> bytes b' = fold (seg_effect base raw) ss (bytes b))"
  using assms
proof (induction ss arbitrary: b)
  case Nil
  then show ?case by simp
next
  case (Cons s ss)
  let ?M = "MemMap B (seg_va base s) (seg_sz s) (ProtRead OR ProtWrite OR ProtExec) b"
  have len: "length (seg_bytes raw s) < 2 ^ 63"
    using Cons.prems(2) by (auto simp: seg_bytes_def min_def)
  obtain b1 where m: "?M = (fst ?M, b1)" by (cases ?M) auto
  have i1: "inv b1" and y1: "bytes b1 x = (if fst ?M \<and> x - seg_va base s < seg_sz s then Some 0 else bytes b x)" for x
    using be_map [OF Cons.prems(1)] m by (metis snd_conv)+
  show ?case
  proof (cases "fst ?M")
    case False
    then show ?thesis
      using Cons.prems(3) m i1 by (cases ?M) auto
  next
    case True
    then have b1: "bytes b1 = (\<lambda>x. if x - seg_va base s < seg_sz s then Some 0 else bytes b x)"
      using y1 by auto
    show ?thesis
    proof (cases "sg_filesz s > 0")
      case False
      then show ?thesis
        using Cons.IH [OF i1 Cons.prems(2)] Cons.prems(3) m True b1 by (cases ?M) (auto simp: seg_effect_def)
    next
      case fs: True
      let ?W = "MemWrite B (base + sg_vaddr s) (seg_bytes raw s) b1"
      obtain b2 where w: "?W = (fst ?W, b2)" by (cases ?W) auto
      have i2: "inv b2" and y2: "bytes b2 = (if fst ?W then mem_put (base + sg_vaddr s) (seg_bytes raw s) (bytes b1) else bytes b1)"
        using be_write [OF i1 len] w by (metis snd_conv)+
      show ?thesis
        using Cons.IH [OF i2 Cons.prems(2)] Cons.prems(3) m True b1 fs w y2 i1 i2
        by (cases ?M; cases ?W) (auto simp: seg_effect_def split: if_splits bool.splits)
    qed
  qed
qed

lemma relocate_effect:
  assumes "inv b" and "relocate B img base resolve rs b = (e, b')"
  shows "inv b' \<and> (e = None \<longrightarrow> (\<forall>r \<in> set rs. \<exists>v. reloc_value img base resolve r = Inr v) \<and>
    bytes b' = fold (reloc_effect img base resolve) rs (bytes b))"
  using assms
proof (induction rs arbitrary: b)
  case Nil
  then show ?case by simp
next
  case (Cons r rs)
  show ?case
  proof (cases "reloc_value img base resolve r")
    case (Inl x)
    then show ?thesis using Cons.prems by auto
  next
    case (Inr v)
    let ?W = "MemWrite B (base + rl_offset r) (le_bytes 8 v) b"
    have l: "length (le_bytes 8 v) < 2 ^ 63" by simp
    obtain b2 where w: "?W = (fst ?W, b2)" by (cases ?W) auto
    have i2: "inv b2" and y2: "bytes b2 = (if fst ?W then mem_put (base + rl_offset r) (le_bytes 8 v) (bytes b) else bytes b)"
      using be_write [OF Cons.prems(1) l] w by (metis snd_conv)+
    show ?thesis
      using Cons.IH [OF i2] Cons.prems(2) w y2 i2 Inr
      by (cases ?W) (auto simp: put64_def reloc_effect_def split: bool.splits)
  qed
qed

lemma protect_segments_effect:
  assumes "inv b" and "protect_segments B base ss b = (e, b')"
  shows "inv b' \<and> bytes b' = bytes b"
  using assms
proof (induction ss arbitrary: b)
  case Nil
  then show ?case by simp
next
  case (Cons s ss)
  let ?P = "MemProtect B (seg_va base s) (seg_sz s) (protOf (sg_flags s)) b"
  obtain b1 where p: "?P = (fst ?P, b1)" by (cases ?P) auto
  have "inv b1" "bytes b1 = bytes b"
    using be_protect [OF Cons.prems(1)] p by (metis snd_conv)+
  then show ?case
    using Cons.IH [of b1] Cons.prems(2) p by (cases ?P) (auto split: bool.splits)
qed

lemma Apply_effect:
  assumes "inv b" and "length raw < 2 ^ 63" and "Apply B img base resolve (Some raw) b = (None, b')"
  shows "inv b' \<and> (\<forall>r \<in> set (im_relocs img). \<exists>v. reloc_value img base resolve r = Inr v) \<and>
    bytes b' = fold (reloc_effect img base resolve) (im_relocs img)
      (fold (seg_effect base raw) (im_segments img) (bytes b))"
proof -
  obtain b1 where m: "map_segments B base raw (im_segments img) b = (None, b1)"
    using assms(3) by (auto simp: Apply_def split: prod.splits option.splits)
  then obtain b2 where r: "relocate B img base resolve (im_relocs img) b1 = (None, b2)"
    and p: "protect_segments B base (im_segments img) b2 = (None, b')"
    using assms(3) by (auto simp: Apply_def split: prod.splits option.splits)
  show ?thesis
    using map_segments_effect [OF assms(1,2) m] relocate_effect [OF _ r] protect_segments_effect [OF _ p] by auto
qed

end

lemma unat_add_of_nat': "unat (a :: u64) + k < 2 ^ 64 \<Longrightarrow> unat (a + of_nat k) = unat a + k"
  by (subst unat_add_lem [THEN iffD1]) (simp_all add: unat_of_nat take_bit_nat_eq_self)

subsection \<open>Relocated slots\<close>

text \<open>Two slots that do not overlap.\<close>

definition apart :: "u64 \<Rightarrow> u64 \<Rightarrow> bool" where
  "apart a b \<longleftrightarrow> 8 \<le> unat (a - b) \<and> 8 \<le> unat (b - a)"

lemma apart_byte: "apart a b \<Longrightarrow> k < 8 \<Longrightarrow> \<not> unat (a + of_nat k - b) < 8"
proof -
  assume ap: "apart a b" and k: "k < 8"
  define d where "d = a - b"
  have lt: "unat d < 2 ^ 64"
    using unsigned_less [of d] by simp
  then have "(of_nat (2 ^ 64 - unat d) :: u64) = - d"
    by (simp add: of_nat_diff)
  then have "unat (- d) = unat (of_nat (2 ^ 64 - unat d) :: u64)"
    by simp
  also have "\<dots> = 2 ^ 64 - unat d"
    using ap by (simp add: unat_of_nat take_bit_nat_eq_self apart_def d_def)
  finally have "unat (b - a) = 2 ^ 64 - unat d"
    by (simp add: d_def)
  then have d8: "8 \<le> unat d" and "8 \<le> 2 ^ 64 - unat d"
    using ap by (simp_all add: apart_def d_def)
  then have "unat d + k < 2 ^ 64"
    using k by arith
  then have u: "unat (d + of_nat k) = unat d + k"
    by (intro unat_add_of_nat')
  have "a + of_nat k - b = d + of_nat k"
    by (simp add: d_def)
  then have "unat (a + of_nat k - b) = unat d + k"
    by (simp only: u)
  then show ?thesis
    using d8 by linarith
qed

lemma fold_reloc_other:
  "\<forall>q \<in> set rs. \<not> unat (x - (base + rl_offset q)) < 8 \<Longrightarrow> fold (reloc_effect img base resolve) rs f x = f x"
  by (induction rs arbitrary: f) (auto simp: reloc_effect_def mem_put_def split: sum.splits)

lemma fold_reloc_slot:
  assumes "sorted_wrt (\<lambda>q r. apart (rl_offset q) (rl_offset r)) rs" and "r \<in> set rs"
    and "reloc_value img base resolve r = Inr v" and "k < 8"
  shows "fold (reloc_effect img base resolve) rs f (base + rl_offset r + of_nat k) = Some (le_bytes 8 v ! k)"
  using assms(1,2)
proof (induction rs arbitrary: f)
  case Nil
  then show ?case by simp
next
  case (Cons q rs)
  show ?case
  proof (cases "r \<in> set rs")
    case True
    then show ?thesis using Cons by simp
  next
    case False
    then have q: "q = r" using Cons.prems by simp
    have "\<not> unat (base + rl_offset r + of_nat k - (base + rl_offset p)) < 8" if "p \<in> set rs" for p
    proof -
      have "apart (rl_offset r) (rl_offset p)"
        using Cons.prems(1) that q by simp
      then show ?thesis
        using apart_byte [of "rl_offset r" "rl_offset p" k] assms(4) by (simp add: algebra_simps)
    qed
    then have "fold (reloc_effect img base resolve) rs (reloc_effect img base resolve r f) (base + rl_offset r + of_nat k)
        = reloc_effect img base resolve r f (base + rl_offset r + of_nat k)"
      by (intro fold_reloc_other) blast
    moreover have "reloc_effect img base resolve r f (base + rl_offset r + of_nat k) = Some (le_bytes 8 v ! k)"
      using assms(3,4) mem_put_same [of "le_bytes 8 v" k] by (simp add: reloc_effect_def del: le_bytes.simps)
    ultimately show ?thesis
      using q by simp
  qed
qed

end
