(* ===== verification/Packed_Props.thy ===== *)
theory Packed_Props
  imports Packed_Relocs
begin

text \<open>
  The decoders of packed.go against reference encoders: SLEB128 as DWARF defines it, APS2 streams of
  groups, and the slots a RELR bitmap selects.
\<close>

subsection \<open>Signed LEB128\<close>

function sleb_enc :: "int \<Rightarrow> u8 list" where
  "sleb_enc y = (if - 64 \<le> y \<and> y < 64 then [word_of_int (y mod 128)]
                 else word_of_int (y mod 128 + 128) # sleb_enc (y div 128))"
  by pat_completeness auto
termination
  by (relation "measure (\<lambda>y. nat (abs y))") (auto simp: abs_if div_less_dividend)

declare sleb_enc.simps [simp del]

lemma low7: "bit (y mod 128 :: int) n \<longleftrightarrow> n < 7 \<and> bit y n"
proof -
  have "y mod 128 = take_bit 7 y"
    by (simp add: take_bit_eq_mod)
  then show ?thesis
    by (simp add: bit_take_bit_iff)
qed

lemma low7_cont: "bit (y mod 128 + 128 :: int) n \<longleftrightarrow> n = 7 \<or> n < 7 \<and> bit y n"
proof -
  have "take_bit 7 y + push_bit 7 1 = take_bit 7 y OR push_bit 7 1"
    by (rule disjunctive_add) (simp only: bit_take_bit_iff bit_push_bit_iff bit_1_iff, simp)
  moreover have "y mod 128 + 128 = take_bit 7 y + push_bit 7 1"
    by (simp add: take_bit_eq_mod)
  ultimately have "y mod 128 + 128 = take_bit 7 y OR push_bit 7 1"
    by (simp only:)
  then show ?thesis
    by (simp only: bit_or_iff bit_take_bit_iff bit_push_bit_iff bit_1_iff) auto
qed

lemma bit_div128: "bit (y div 128 :: int) n = bit y (n + 7)"
proof -
  have "y div 128 = drop_bit 7 y"
    by (simp add: drop_bit_eq_div)
  then show ?thesis
    by (simp add: bit_drop_bit_eq add.commute)
qed

lemma u8_masks: "(0x7f :: u8) = mask 7" "(0x80 :: u8) = push_bit 7 1" "(0x40 :: u8) = push_bit 6 1"
  by (simp_all add: mask_eq_exp_minus_1)

lemma and_bit_zero: "(w :: u8) AND push_bit k 1 = 0 \<longleftrightarrow> \<not> (bit w k \<and> k < 8)"
proof
  assume z: "w AND push_bit k 1 = 0"
  show "\<not> (bit w k \<and> k < 8)"
  proof
    assume "bit w k \<and> k < 8"
    then have "bit (w AND push_bit k 1) k"
      by (simp add: bit_simps)
    with z show False by simp
  qed
next
  assume "\<not> (bit w k \<and> k < 8)"
  then show "w AND push_bit k 1 = 0"
    by (intro bit_word_eqI) (auto simp: bit_simps)
qed

text \<open>The sign of a number that fits in seven bits, and its higher bits.\<close>

lemma small_sign: "- 64 \<le> y \<Longrightarrow> y < 64 \<Longrightarrow> 6 \<le> n \<Longrightarrow> bit (y :: int) n \<longleftrightarrow> y < 0"
proof -
  assume y: "- 64 \<le> y" "y < 64" and n: "6 \<le> n"
  have "y div 2 ^ n = (if y < 0 then - 1 else 0)"
  proof -
    have "(64 :: int) \<le> 2 ^ n"
      using power_increasing [of 6 n "2 :: int"] n by simp
    then show ?thesis
      using y int_div_pos_eq [of y "2 ^ n" "- 1" "y + 2 ^ n"] by (auto simp: div_pos_pos_trivial)
  qed
  then show ?thesis
    by (simp add: bit_iff_odd)
qed

lemma sleb_loop_enc:
  assumes "shift \<le> 63" and "- (2 ^ (63 - shift)) \<le> y" and "y < 2 ^ (63 - shift)"
  shows "sleb_loop (pre @ sleb_enc y @ rest) (length pre) v shift =
    Inr (v OR push_bit shift (word_of_int y), length pre + length (sleb_enc y))"
  using assms
proof (induction y arbitrary: pre v shift rule: sleb_enc.induct)
  case (1 y)
  let ?c = "word_of_int (y mod 128) :: u8" and ?d = "word_of_int (y mod 128 + 128) :: u8"
  show ?case
  proof (cases "- 64 \<le> y \<and> y < 64")
    case True
    have c7: "\<not> bit ?c 7" and c6: "bit ?c 6 \<longleftrightarrow> y < 0"
      using small_sign [of y 6] True by (simp_all add: bit_word_of_int_iff low7)
    have m6: "m < 7 \<and> m < 8" if "bit y m" "0 \<le> y" for m
      using small_sign [of y m] True that by (cases "6 \<le> m") auto
    have a7: "?c AND 0x80 = 0" and a6: "?c AND 0x40 = 0 \<longleftrightarrow> \<not> y < 0"
      unfolding u8_masks and_bit_zero using c7 c6 by simp_all
    have "(v OR push_bit shift (ucast (?c AND 0x7f))) OR (if shift + 7 < 64 \<and> y < 0 then push_bit (shift + 7) (- 1) else 0)
        = v OR push_bit shift (word_of_int y :: u64)"
      using True small_sign [of y] 1(2) m6
      unfolding u8_masks
      by (intro bit_word_eqI) (auto simp: bit_simps bit_word_of_int_iff low7 not_less dest: m6)
    then show ?thesis
      using True 1(2)
      by (subst sleb_loop.simps) (auto simp: Let_def sleb_enc.simps [of y] nth_append a7 a6 split: if_splits)
  next
    case False
    have "\<not> 63 - shift < 7"
    proof
      assume "63 - shift < 7"
      then have "(2 :: int) ^ (63 - shift) \<le> 2 ^ 6"
        by (intro power_increasing) simp_all
      then show False
        using False 1(3,4) by simp
    qed
    then have sh: "shift + 7 \<le> 63"
      using 1(2) by simp
    have p: "(2 :: int) ^ (63 - shift) = 128 * 2 ^ (63 - (shift + 7))"
    proof -
      have "63 - shift = 7 + (63 - (shift + 7))"
        using sh by simp
      then show ?thesis
        by (simp only: power_add) simp
    qed
    have b: "- (2 ^ (63 - (shift + 7))) \<le> y div 128" "y div 128 < 2 ^ (63 - (shift + 7))"
      using 1(3,4) unfolding p by linarith+
    define d where "d = ?d"
    have db: "bit d n \<longleftrightarrow> n < 8 \<and> (n = 7 \<or> n < 7 \<and> bit y n)" for n
      unfolding d_def by (simp only: bit_word_of_int_iff low7_cont) auto
    have d7: "bit d 7"
      by (simp add: db)
    have q: "shift + 7 \<le> n \<Longrightarrow> bit (y div 128) (n - (shift + 7)) = bit y (n - shift)" for n
      using bit_div128 [of y "n - (shift + 7)"] by simp
    define w where "w = v OR push_bit shift (ucast (d AND 0x7f))"
    have w: "w OR push_bit (shift + 7) (word_of_int (y div 128)) = v OR push_bit shift (word_of_int y)"
      unfolding w_def u8_masks
    proof (rule bit_word_eqI)
      fix n :: nat
      show "bit ((v OR push_bit shift (ucast (d AND mask 7))) OR push_bit (shift + 7) (word_of_int (y div 128))) n
          = bit (v OR push_bit shift (word_of_int y)) n"
        by (cases "shift + 7 \<le> n") (auto simp: bit_simps bit_word_of_int_iff db q)
    qed
    have "sleb_loop ((pre @ [d]) @ sleb_enc (y div 128) @ rest) (length (pre @ [d])) w (shift + 7) =
        Inr (w OR push_bit (shift + 7) (word_of_int (y div 128)), length (pre @ [d]) + length (sleb_enc (y div 128)))"
      by (rule 1(1)) (use False sh b in auto)
    then have "sleb_loop (pre @ d # sleb_enc (y div 128) @ rest) (Suc (length pre)) w (shift + 7) =
        Inr (v OR push_bit shift (word_of_int y), Suc (length pre) + length (sleb_enc (y div 128)))"
      unfolding w by simp
    moreover have "sleb_enc y = d # sleb_enc (y div 128)"
      using False by (subst sleb_enc.simps) (simp add: d_def)
    moreover have "d AND 0x80 \<noteq> 0"
      unfolding u8_masks and_bit_zero using d7 by simp
    ultimately show ?thesis
      using sh by (subst sleb_loop.simps) (simp add: Let_def w_def)
  qed
qed

text \<open>A field of the stream that starts at \<open>length pre\<close>.\<close>

lemma sleb_next_enc:
  "sleb_next (pre @ sleb_enc (sint w) @ rest) (length pre) = Inr (w, length pre + length (sleb_enc (sint w)))"
proof -
  have "- (2 ^ 63) \<le> sint (w :: u64)" "sint w < 2 ^ 63"
    using sint_ge [of w] sint_lt [of w] by simp_all
  then show ?thesis
    using sleb_loop_enc [of 0 "sint w" pre rest 0] by (simp add: sleb_next_def)
qed

subsection \<open>APS2 streams\<close>

text \<open>A group of the format: its flags, its shared fields, and per entry an offset step, an info and an addend step.\<close>

record aps_group =
  ag_flags :: u64
  ag_delta :: u64
  ag_info :: u64
  ag_addend :: u64
  ag_entries :: "(u64 \<times> u64 \<times> u64) list"

definition opt_enc :: "bool \<Rightarrow> u64 \<Rightarrow> u8 list" where
  "opt_enc b w = (if b then sleb_enc (sint w) else [])"

definition enc_entry :: "u64 \<Rightarrow> u64 \<times> u64 \<times> u64 \<Rightarrow> u8 list" where
  "enc_entry f e = (case e of (d, i, a) \<Rightarrow>
     opt_enc (\<not> byDelta f) d @ opt_enc (\<not> byInfo f) i @ opt_enc (hasAddend f \<and> \<not> byAddend f) a)"

definition enc_group :: "aps_group \<Rightarrow> u8 list" where
  "enc_group g = (let f = ag_flags g in
     sleb_enc (int (length (ag_entries g))) @ sleb_enc (sint f) @ opt_enc (byDelta f) (ag_delta g) @
     opt_enc (byInfo f) (ag_info g) @ opt_enc (hasAddend f \<and> byAddend f) (ag_addend g) @
     concat (map (enc_entry f) (ag_entries g)))"

definition count :: "aps_group list \<Rightarrow> nat" where
  "count gs = sum_list (map (\<lambda>g. length (ag_entries g)) gs)"

definition enc_aps :: "u64 \<Rightarrow> aps_group list \<Rightarrow> u8 list" where
  "enc_aps offset gs = [0x41, 0x50, 0x53, 0x32] @ sleb_enc (int (count gs)) @ sleb_enc (sint offset) @
     concat (map enc_group gs)"

text \<open>The relocations the groups stand for: offsets and addends are running sums.\<close>

fun sem_entries ::
  "u64 \<Rightarrow> u64 \<Rightarrow> u64 \<Rightarrow> (u64 \<Rightarrow> u64) option \<Rightarrow> u64 \<Rightarrow> u64 \<Rightarrow> (u64 \<times> u64 \<times> u64) list \<Rightarrow> u64 \<times> u64 \<times> reloc list" where
  "sem_entries f gd gi imp off add [] = (off, add, [])"
| "sem_entries f gd gi imp off add ((d, i, a) # es) =
     (let off = off + (if byDelta f then gd else d);
          add = add + (if hasAddend f \<and> \<not> byAddend f then a else 0);
          v = (if hasAddend f then add else case imp of None \<Rightarrow> 0 | Some g \<Rightarrow> g off);
          (off', add', rs) = sem_entries f gd gi imp off add es
      in (off', add', mk_reloc off (if byInfo f then gi else i) v # rs))"

fun sem_groups :: "(u64 \<Rightarrow> u64) option \<Rightarrow> u64 \<Rightarrow> u64 \<Rightarrow> aps_group list \<Rightarrow> reloc list" where
  "sem_groups imp off add [] = []"
| "sem_groups imp off add (g # gs) =
     (let f = ag_flags g;
          add = (if hasAddend f then add + (if byAddend f then ag_addend g else 0) else 0);
          (off', add', rs) = sem_entries f (ag_delta g) (ag_info g) imp off add (ag_entries g)
      in rs @ sem_groups imp off' add' gs)"

lemma opt_next_enc:
  "opt_next b (pre @ opt_enc b w @ rest) (length pre) d =
     Inr (if b then w else d, length (pre @ opt_enc b w))"
  using sleb_next_enc [of pre w rest] by (simp add: opt_next_def opt_enc_def)

lemma aps_entries_enc:
  "aps_entries (length es) f gd gi imp (pre @ concat (map (enc_entry f) es) @ rest) (length pre) off add =
     (case sem_entries f gd gi imp off add es of
        (off', add', rs) \<Rightarrow> Inr (length (pre @ concat (map (enc_entry f) es)), off', add', rs))"
proof (induction es arbitrary: pre off add)
  case Nil
  then show ?case by simp
next
  case (Cons e es)
  obtain d i a where e: "e = (d, i, a)"
    by (cases e)
  let ?D = "opt_enc (\<not> byDelta f) d" and ?I = "opt_enc (\<not> byInfo f) i" and ?A = "opt_enc (hasAddend f \<and> \<not> byAddend f) a"
  let ?more = "concat (map (enc_entry f) es) @ rest"
  define data where "data = pre @ ?D @ ?I @ ?A @ ?more"
  define p1 p2 p3 where "p1 = length (pre @ ?D)" and "p2 = length (pre @ ?D @ ?I)" and "p3 = length (pre @ ?D @ ?I @ ?A)"
  have s1: "opt_next (\<not> byDelta f) data (length pre) gd = Inr (if byDelta f then gd else d, p1)"
    using opt_next_enc [of "\<not> byDelta f" pre d "?I @ ?A @ ?more" gd] by (simp add: data_def p1_def)
  have s2: "opt_next (\<not> byInfo f) data p1 gi = Inr (if byInfo f then gi else i, p2)"
    using opt_next_enc [of "\<not> byInfo f" "pre @ ?D" i "?A @ ?more" gi] by (simp add: data_def p1_def p2_def)
  have s3: "opt_next (hasAddend f \<and> \<not> byAddend f) data p2 0 = Inr (if hasAddend f \<and> \<not> byAddend f then a else 0, p3)"
    using opt_next_enc [of "hasAddend f \<and> \<not> byAddend f" "pre @ ?D @ ?I" a ?more 0] by (simp add: data_def p2_def p3_def)
  have ih: "aps_entries (length es) f gd gi imp data p3 o' a' = (case sem_entries f gd gi imp o' a' es of
      (off', add', rs) \<Rightarrow> Inr (p3 + length (concat (map (enc_entry f) es)), off', add', rs))" for o' a'
    using Cons.IH [of "pre @ ?D @ ?I @ ?A" o' a'] by (simp add: data_def p3_def)
  have d: "pre @ concat (map (enc_entry f) (e # es)) @ rest = data"
    by (simp add: data_def e enc_entry_def)
  have l: "length (pre @ concat (map (enc_entry f) (e # es))) = p3 + length (concat (map (enc_entry f) es))"
    by (simp add: p3_def e enc_entry_def)
  show ?case
    unfolding d l by (simp only: list.size add_Suc_right add_0_right aps_entries.simps s1 s2 s3 ih ebnd_simps Let_def prod.case e
        sem_entries.simps) (simp split: prod.splits)
qed

lemma enc_count: "n < 2 ^ 63 \<Longrightarrow> sleb_enc (int n) = sleb_enc (sint (of_nat n :: u64))"
  by (subst signed_of_nat) (simp add: signed_take_bit_int_eq_self)

lemma aps_groups_enc:
  assumes "\<forall>g \<in> set gs. ag_entries g \<noteq> []" and "count gs < 2 ^ 63"
  shows "aps_groups (count gs) imp (pre @ concat (map enc_group gs) @ rest) (length pre) off add = Inr (sem_groups imp off add gs)"
  using assms
proof (induction gs arbitrary: pre off add)
  case Nil
  then show ?case by (simp add: count_def aps_groups.simps)
next
  case (Cons g gs)
  let ?f = "ag_flags g" and ?n = "length (ag_entries g)"
  let ?G = "sleb_enc (int ?n)" and ?F = "sleb_enc (sint ?f)" and ?D = "opt_enc (byDelta ?f) (ag_delta g)"
    and ?I = "opt_enc (byInfo ?f) (ag_info g)" and ?A = "opt_enc (hasAddend ?f \<and> byAddend ?f) (ag_addend g)"
    and ?E = "concat (map (enc_entry ?f) (ag_entries g))" and ?more = "concat (map enc_group gs) @ rest"
  define data where "data = pre @ ?G @ ?F @ ?D @ ?I @ ?A @ ?E @ ?more"
  define p1 p2 p3 p4 p5 p6 where "p1 = length (pre @ ?G)" and "p2 = length (pre @ ?G @ ?F)" and "p3 = length (pre @ ?G @ ?F @ ?D)"
    and "p4 = length (pre @ ?G @ ?F @ ?D @ ?I)" and "p5 = length (pre @ ?G @ ?F @ ?D @ ?I @ ?A)"
    and "p6 = length (pre @ ?G @ ?F @ ?D @ ?I @ ?A @ ?E)"
  note pd = data_def p1_def p2_def p3_def p4_def p5_def p6_def
  have n: "0 < ?n" "?n < 2 ^ 63" "?n \<le> count (g # gs)"
    using Cons.prems by (simp_all add: count_def)
  then have u: "unat (of_nat ?n :: u64) = ?n" and si: "sint (of_nat ?n :: u64) = int ?n"
    by (simp_all add: unat_of_nat take_bit_nat_eq_self signed_of_nat signed_take_bit_int_eq_self)
  have s0: "sleb_next data (length pre) = Inr (of_nat ?n, p1)"
    using sleb_next_enc [of pre "of_nat ?n" "?F @ ?D @ ?I @ ?A @ ?E @ ?more"] by (simp add: pd si)
  have s1: "sleb_next data p1 = Inr (?f, p2)"
    using sleb_next_enc [of "pre @ ?G" ?f "?D @ ?I @ ?A @ ?E @ ?more"] by (simp add: pd)
  have s2: "opt_next (byDelta ?f) data p2 0 = Inr (if byDelta ?f then ag_delta g else 0, p3)"
    using opt_next_enc [of "byDelta ?f" "pre @ ?G @ ?F" "ag_delta g" "?I @ ?A @ ?E @ ?more" 0] by (simp add: pd)
  have s3: "opt_next (byInfo ?f) data p3 0 = Inr (if byInfo ?f then ag_info g else 0, p4)"
    using opt_next_enc [of "byInfo ?f" "pre @ ?G @ ?F @ ?D" "ag_info g" "?A @ ?E @ ?more" 0] by (simp add: pd)
  have s4: "opt_next (hasAddend ?f \<and> byAddend ?f) data p4 0 = Inr (if hasAddend ?f \<and> byAddend ?f then ag_addend g else 0, p5)"
    using opt_next_enc [of "hasAddend ?f \<and> byAddend ?f" "pre @ ?G @ ?F @ ?D @ ?I" "ag_addend g" "?E @ ?more" 0] by (simp add: pd)
  have s5: "aps_entries ?n ?f gd gi imp data p5 o' a' = (case sem_entries ?f gd gi imp o' a' (ag_entries g) of
      (off', add', rs) \<Rightarrow> Inr (p6, off', add', rs))" for gd gi o' a'
    using aps_entries_enc [of "ag_entries g" ?f gd gi imp "pre @ ?G @ ?F @ ?D @ ?I @ ?A" ?more o' a'] by (simp add: pd add.assoc)
  have ih: "aps_groups (count (g # gs) - ?n) imp data p6 o' a' = Inr (sem_groups imp o' a' gs)" for o' a'
    using Cons.IH [of "pre @ ?G @ ?F @ ?D @ ?I @ ?A @ ?E" o' a'] Cons.prems by (simp add: pd count_def)
  have same: "sem_entries ?f (if byDelta ?f then gd else x) (if byInfo ?f then gi else y) imp o' a' es = sem_entries ?f gd gi imp o' a' es"
    for gd gi x y o' a' es
    by (induction es arbitrary: o' a') auto
  have d: "pre @ concat (map enc_group (g # gs)) @ rest = data"
    by (simp add: data_def enc_group_def Let_def)
  have ok: "\<not> (sint (of_nat ?n :: u64) \<le> 0 \<or> int (count (g # gs)) < sint (of_nat ?n :: u64))" "count (g # gs) \<noteq> 0"
    using n by (simp_all add: si) (use n in linarith)
  show ?case
    unfolding d
    by (subst aps_groups.simps) (simp add: ok s0 s1 s2 s3 s4 s5 u ih same Let_def split: prod.splits)
qed

text \<open>
  C16: decoding an APS2 stream gives exactly the relocations its groups stand for, for every
  combination of group flags, every offset, info and addend, with running offsets and addends and the
  implicit addend of the REL form.
\<close>
theorem aps2_round_trip:
  assumes "\<forall>g \<in> set gs. ag_entries g \<noteq> []" and "count gs \<le> 2 ^ 24"
  shows "decodeAPS2 (enc_aps offset gs) imp = Inr (sem_groups imp offset 0 gs)"
proof -
  let ?n = "of_nat (count gs) :: u64"
  have c: "count gs < 2 ^ 63"
    using assms(2) by simp
  then have u: "unat ?n = count gs" and si: "sint ?n = int (count gs)"
    by (simp_all add: unat_of_nat take_bit_nat_eq_self signed_of_nat signed_take_bit_int_eq_self)
  let ?M = "[0x41, 0x50, 0x53, 0x32] :: u8 list" and ?N = "sleb_enc (int (count gs))" and ?O = "sleb_enc (sint offset)"
    and ?R = "concat (map enc_group gs)"
  have s0: "sleb_next (enc_aps offset gs) 4 = Inr (?n, length (?M @ ?N))"
    using sleb_next_enc [of ?M ?n "?O @ ?R"] by (simp add: enc_aps_def si eval_nat_numeral)
  have s1: "sleb_next (enc_aps offset gs) (length (?M @ ?N)) = Inr (offset, length (?M @ ?N @ ?O))"
    using sleb_next_enc [of "?M @ ?N" offset ?R] by (simp add: enc_aps_def)
  have g: "aps_groups (count gs) imp (enc_aps offset gs) (length (?M @ ?N @ ?O)) offset 0 = Inr (sem_groups imp offset 0 gs)"
    using aps_groups_enc [OF assms(1) c, of imp "?M @ ?N @ ?O" "[]" offset 0] by (simp add: enc_aps_def)
  have m: "\<not> (length (enc_aps offset gs) < 4 \<or> take 4 (enc_aps offset gs) \<noteq> ?M)"
    by (simp add: enc_aps_def)
  have k: "\<not> (sint ?n < 0 \<or> sint maxPackedRelocs < sint ?n)"
    using assms(2) by (simp add: si)
  show ?thesis
    unfolding decodeAPS2_def if_not_P [OF m] s0 ebnd_simps prod.case if_not_P [OF k] s1 u g ..
qed

theorem aps2_round_trip_witness:
  "decodeAPS2 (enc_aps 0x1000 [\<lparr>ag_flags = 3, ag_delta = 8, ag_info = 1027, ag_addend = 0, ag_entries = [(0, 0, 0), (0, 0, 0)]\<rparr>])
     (Some (\<lambda>a. a + 1)) = Inr [mk_reloc 0x1008 1027 0x1009, mk_reloc 0x1010 1027 0x1011]"
  using aps2_round_trip [of "[\<lparr>ag_flags = 3, ag_delta = 8, ag_info = 1027, ag_addend = 0, ag_entries = [(0, 0, 0), (0, 0, 0)]\<rparr>]" "0x1000" "Some (\<lambda>a. a + 1)"]
  by (simp add: count_def Let_def)

subsection \<open>RELR bitmaps\<close>

lemma relr_bits_slots: "relr_bits b at = map (\<lambda>k. at + 8 * of_nat k) (filter (bit b) [0..<64])"
proof -
  have gen: "n \<le> 64 \<Longrightarrow> \<forall>k. n \<le> k \<longrightarrow> \<not> bit b k \<Longrightarrow> relr_bits b at = map (\<lambda>k. at + 8 * of_nat k) (filter (bit b) [0..<n])" for n b at
  proof (induction n arbitrary: b at)
    case 0
    then have "b = 0"
      by (intro bit_word_eqI) simp
    then show ?case by (simp add: relr_bits.simps)
  next
    case (Suc n)
    have ih: "relr_bits (drop_bit 1 b) (at + 8) = map (\<lambda>k. at + 8 + 8 * of_nat k) (filter (bit (drop_bit 1 b)) [0..<n])"
      using Suc.prems by (intro Suc.IH) (auto simp: bit_drop_bit_eq)
    have sh: "filter (bit b) [0..<Suc n] = (if bit b 0 then [0] else []) @ map Suc (filter (\<lambda>k. bit b (Suc k)) [0..<n])"
      by (simp add: upt_conv_Cons map_Suc_upt [symmetric] filter_map comp_def del: upt_Suc)
    have odd: "b AND 1 \<noteq> 0 \<longleftrightarrow> bit b 0"
      by (simp add: and_one_eq bit_0 odd_iff_mod_2_eq_one)
    show ?case
    proof (cases "b = 0")
      case True
      then show ?thesis by (simp add: relr_bits.simps)
    next
      case False
      then show ?thesis
        using ih by (subst relr_bits.simps) (simp add: sh odd bit_drop_bit_eq comp_def algebra_simps del: upt_Suc)
    qed
  qed
  show ?thesis
    by (rule gen) (auto dest: bit_imp_le_length)
qed

text \<open>What the words of a RELR section select.\<close>

fun relr_slots :: "u64 list \<Rightarrow> u64 \<Rightarrow> u64 list" where
  "relr_slots [] w = []"
| "relr_slots (e # es) w =
     (if even e then e # relr_slots es (e + 8)
      else map (\<lambda>k. w + 8 * of_nat k) (filter (\<lambda>k. bit e (k + 1)) [0..<63]) @ relr_slots es (w + 504))"

text \<open>
  A RELR section relocates exactly the slots its words select: an even word its own address, an
  odd word the 8-byte slots after the cursor whose bits are set, in ascending order; the addend is the
  implicit one.
\<close>
theorem relr_selects:
  "decodeRELR data imp = map (emit imp) (relr_slots (words64 data) 0)"
proof -
  have e: "(e :: u64) AND 1 = 0 \<longleftrightarrow> even e" for e
    by (simp add: and_one_eq even_iff_mod_2_eq_zero)
  have "filter (bit (drop_bit 1 e)) [0..<64] = filter (\<lambda>k. bit e (k + 1)) [0..<63]" for e :: u64
  proof -
    have "\<not> bit e 64" by (auto dest: bit_imp_le_length)
    then show ?thesis
      by (simp add: bit_drop_bit_eq comp_def upt_Suc_append [of 0 63, simplified] add.commute)
  qed
  then have "relr_loop ws w = relr_slots ws w" for ws w
    by (induction ws w rule: relr_loop.induct) (auto simp: e relr_bits_slots)
  then show ?thesis
    by (simp add: decodeRELR_def)
qed

end
