(* ===== verification/Interp.thy ===== *)
theory Interp
  imports Backend Memory_Props
begin

text \<open>
  The interpreter backend (internal/emu/interp.go): the operations of \<open>emu.Backend\<close> over the CPU of
  theory Cpu. A run takes fuel and is \<open>None\<close> when that does not reach its end; \<open>run_returns\<close> gives the
  fuel that is enough. A context handle is the saved registers, or nothing
  after \<open>Free\<close>.
\<close>

definition interp_RegRead :: "nat \<Rightarrow> 'a cpu_scheme \<Rightarrow> u64 option" where
  "interp_RegRead r c =
     (if r = RegSP then Some (c_R c rSP)
      else if r = RegPC then Some (m_pc c)
      else if r = RegLR then Some (getX c 30)
      else if r = RegNZCV then Some (ucast (c_NZCV c))
      else if r = RegTPIDR then Some (c_TPIDR c)
      else if r = RegX23 then Some (getX c 23)
      else if r \<le> 10 then Some (getX c r) else None)"

definition interp_RegWrite :: "nat \<Rightarrow> u64 \<Rightarrow> 'a cpu_scheme \<Rightarrow> bool \<times> 'a cpu_scheme" where
  "interp_RegWrite r v c =
     (if r = RegSP then (True, c\<lparr>c_R := (c_R c)(rSP := v)\<rparr>)
      else if r = RegPC then (True, c\<lparr>m_pc := v\<rparr>)
      else if r = RegLR then (True, setX 30 v c)
      else if r = RegNZCV then (True, c\<lparr>c_NZCV := ucast v AND 0xf0000000\<rparr>)
      else if r = RegTPIDR then (True, c\<lparr>c_TPIDR := v\<rparr>)
      else if r = RegX23 then (True, setX 23 v c)
      else if r \<le> 10 then (True, setX r v c) else (False, c))"

text \<open>An operation of the memory as the backend reports it.\<close>

definition report :: "('e + 'a) \<times> 's \<Rightarrow> bool \<times> 's" where
  "report r = ((case fst r of Inl _ \<Rightarrow> False | Inr _ \<Rightarrow> True), snd r)"

definition interp_MemWrite :: "u64 \<Rightarrow> u8 list \<Rightarrow> 'a cpu_scheme \<Rightarrow> bool \<times> 'a cpu_scheme" where
  "interp_MemWrite a bs c = (if bs = [] then (True, c) else report (host_write a bs c))"

definition interp_MemRead :: "u64 \<Rightarrow> u64 \<Rightarrow> 'a cpu_scheme \<Rightarrow> u8 list option" where
  "interp_MemRead a n c =
     (if n = 0 then Some []
      else if n > MaxMemReadLen then None
      else case fst (host_read a (unat n) c) of Inl _ \<Rightarrow> None | Inr bs \<Rightarrow> Some bs)"

definition interp_StartCount ::
  "nat \<Rightarrow> (inst \<Rightarrow> u32 \<Rightarrow> inst) \<Rightarrow> 'a cpu_env \<Rightarrow> u64 \<Rightarrow> u64 \<Rightarrow> u64 \<Rightarrow> 'a cpu_scheme
    \<Rightarrow> (bool \<times> 'a cpu_scheme) option" where
  "interp_StartCount fuel simd E begin_pc until count c =
     map_option (\<lambda>(e, c'). (e = None, c')) (Run fuel simd E until count (c\<lparr>m_pc := begin_pc\<rparr>))"

definition interp_RestoreContext :: "context_regs option \<Rightarrow> 'a cpu_scheme \<Rightarrow> bool \<times> 'a cpu_scheme" where
  "interp_RestoreContext x c =
     (case x of None \<Rightarrow> (False, c) | Some r \<Rightarrow> (True, RestoreContext r c))"

definition interp_backend ::
  "nat \<Rightarrow> (inst \<Rightarrow> u32 \<Rightarrow> inst) \<Rightarrow> 'a cpu_env \<Rightarrow> ('a cpu_scheme, context_regs option) backend" where
  "interp_backend fuel simd E =
     \<lparr>RegRead = interp_RegRead, RegWrite = interp_RegWrite,
      MemMap = (\<lambda>a n p c. report (mem_map a n p c)),
      MemUnmap = (\<lambda>a n c. report (mem_unmap a n c)),
      MemProtect = (\<lambda>a n p c. report (mem_protect a n p c)),
      MemWrite = interp_MemWrite, MemRead = interp_MemRead,
      StartCount = interp_StartCount fuel simd E,
      StopRun = Stop, SaveCtx = (\<lambda>c. Some (Some (SaveContext c))), RestoreCtx = interp_RestoreContext,
      FlushCache = (\<lambda>c. (True, drop_all_code c))\<rparr>"

subsection \<open>The memory contract\<close>

lemma report_cases: "report r = (case fst r of Inl _ \<Rightarrow> (False, snd r) | Inr _ \<Rightarrow> (True, snd r))"
  by (simp add: report_def split: sum.splits)

lemma map_ok:
  assumes "mem_inv D m" and "good_range a n" and "prot AND NOT 7 = 0" and "\<forall>x. x - a < n \<longrightarrow> mbyte m x = None"
  obtains m' where "mem_map a n prot m = (Inr (), m')" and "\<forall>x. mbyte m' x = (if x - a < n then Some 0 else mbyte m x)"
proof -
  obtain m' where m': "mem_map a n prot m = (Inr (), m')"
    using assms(2-4) mem_map_succeeds [of a n prot m] by (auto simp del: bit.conj_disj_distrib2)
  then show ?thesis
    using mem_map_effect(1) [OF assms(1) m'] by (intro that) auto
qed

lemma map_refused:
  assumes "x - a < n" and "mbyte m x \<noteq> None"
  obtains e where "mem_map a n prot m = (Inl e, m)"
proof -
  have "\<forall>m'. mem_map a n prot m \<noteq> (Inr (), m')"
    using assms mem_map_succeeds [of a n prot m] by auto
  then show ?thesis
    using mem_map_fails that by blast
qed

lemma protect_ok:
  assumes "mem_inv D m" and "good_range a n" and "prot AND NOT 7 = 0" and "\<forall>x. x - a < n \<longrightarrow> mbyte m x \<noteq> None"
  obtains m' where "mem_protect a n prot m = (Inr (), m')" and "mbyte m' = mbyte m"
proof -
  have "\<exists>r. check_mapped a n m = Inr r"
    using assms(2,4) by (simp only: check_mapped_good simp_thms)
  then have m': "mem_protect a n prot m = (Inr (), snd (mem_protect a n prot m))"
    using assms(3) by (auto simp: mem_protect_def split: prod.splits)
  then show ?thesis
    using mem_protect_effect(1) [OF assms(1) m'] by (intro that)
qed

lemma interp_map_law:
  fixes c :: "'a cpu_scheme"
  assumes "mem_inv D c"
  shows "mem_inv D (snd (report (mem_map a n p c)))" and "mbyte (snd (report (mem_map a n p c))) x =
    (if fst (report (mem_map a n p c)) \<and> x - a < n then Some 0 else mbyte c x)"
proof -
  show "mem_inv D (snd (report (mem_map a n p c)))"
    using mem_map_inv [OF assms] by (simp add: report_def)
  show "mbyte (snd (report (mem_map a n p c))) x = (if fst (report (mem_map a n p c)) \<and> x - a < n then Some 0 else mbyte c x)"
  proof (cases "\<exists>m'. mem_map a n p c = (Inr (), m')")
    case True
    then show ?thesis
      using mem_map_effect(1) [OF assms] by (auto simp: report_def)
  next
    case False
    then obtain e where "mem_map a n p c = (Inl e, c)"
      using mem_map_fails by blast
    then show ?thesis by (simp add: report_def)
  qed
qed

lemma interp_unmap_law:
  fixes c :: "'a cpu_scheme"
  assumes "mem_inv D c"
  shows "mem_inv D (snd (report (mem_unmap a n c)))" and "mbyte (snd (report (mem_unmap a n c))) x =
    (if fst (report (mem_unmap a n c)) \<and> x - a < n then None else mbyte c x)"
proof -
  show "mem_inv D (snd (report (mem_unmap a n c)))"
    using mem_unmap_inv [OF assms] by (simp add: report_def)
  show "mbyte (snd (report (mem_unmap a n c))) x = (if fst (report (mem_unmap a n c)) \<and> x - a < n then None else mbyte c x)"
  proof (cases "check_mapped a n c")
    case (Inl e)
    then show ?thesis using unmap_cases [of a n c] by (simp add: report_def)
  next
    case (Inr r)
    then have u: "mem_unmap a n c = (Inr (), snd (mem_unmap a n c))"
      using unmap_cases [of a n c] by simp
    then show ?thesis
      using mem_unmap_effect(1) [OF u] by (simp add: report_def) (metis fst_conv snd_conv old.sum.simps(6))
  qed
qed

lemma interp_protect_law:
  fixes c :: "'a cpu_scheme"
  assumes "mem_inv D c"
  shows "mem_inv D (snd (report (mem_protect a n p c)))" and "mbyte (snd (report (mem_protect a n p c))) = mbyte c"
proof -
  show "mem_inv D (snd (report (mem_protect a n p c)))"
    using mem_protect_inv [OF assms] by (simp add: report_def)
  show "mbyte (snd (report (mem_protect a n p c))) = mbyte c"
  proof (cases "fst (mem_protect a n p c)")
    case (Inl e)
    then show ?thesis
      by (auto simp: mem_protect_def report_def split: if_splits sum.splits prod.splits)
  next
    case (Inr u)
    then have "mem_protect a n p c = (Inr (), snd (mem_protect a n p c))"
      by (cases "mem_protect a n p c") simp
    from mem_protect_effect(1) [OF assms this] show ?thesis
      by (simp add: report_def)
  qed
qed

lemma interp_write_law:
  fixes c :: "'a cpu_scheme"
  assumes m: "mem_inv D c" and n: "length bs < 2 ^ 63"
  shows "mem_inv D (snd (interp_MemWrite a bs c))" and "mbyte (snd (interp_MemWrite a bs c)) =
    (if fst (interp_MemWrite a bs c) then mem_put a bs (mbyte c) else mbyte c)"
proof -
  show "mem_inv D (snd (interp_MemWrite a bs c))"
    using host_write_inv [OF m] m by (simp add: interp_MemWrite_def report_def)
  show "mbyte (snd (interp_MemWrite a bs c)) = (if fst (interp_MemWrite a bs c) then mem_put a bs (mbyte c) else mbyte c)"
  proof (cases "bs = []")
    case True
    then show ?thesis by (simp add: interp_MemWrite_def)
  next
    case False
    show ?thesis
    proof (cases "host_check a (length bs) c")
      case None
      then have "unat a + length bs < 2 ^ 64" "\<forall>k < length bs. mbyte c (a + of_nat k) \<noteq> None"
        using host_check_iff [OF n, of a c] by simp_all
      then obtain m' where "host_write a bs c = (Inr (), m')" "mbyte m' = mem_put a bs (mbyte c)"
        using host_write_correct [OF m _ n] by metis
      then show ?thesis
        using False by (simp add: interp_MemWrite_def report_def)
    next
      case (Some e)
      then show ?thesis
        using False by (simp add: interp_MemWrite_def report_def host_write_def)
    qed
  qed
qed

lemma interp_read_law:
  fixes c :: "'a cpu_scheme"
  assumes m: "mem_inv D c" and r: "interp_MemRead a n c = Some bs"
  shows "length bs = unat n \<and> (\<forall>k < length bs. mbyte c (a + of_nat k) = Some (bs ! k))"
proof (cases "n = 0")
  case True
  then show ?thesis using r by (simp add: interp_MemRead_def)
next
  case False
  then have n: "unat n < 2 ^ 63"
    using r by (auto simp: interp_MemRead_def MaxMemReadLen_def word_less_nat_alt not_less split: if_splits)
  have ok: "host_check a (unat n) c = None"
    using r False by (auto simp: interp_MemRead_def host_read_def split: if_splits option.splits)
  then have all: "unat a + unat n < 2 ^ 64" "\<forall>k < unat n. mbyte c (a + of_nat k) \<noteq> None"
    using host_check_iff [OF n, of a c] by simp_all
  have "bs = mbytes c a (unat n)"
    using r False host_read_correct [OF m all] by (auto simp: interp_MemRead_def split: if_splits)
  then show ?thesis
    using all(2) by (auto simp: mbytes_def)
qed

lemma interp_reg_law:
  fixes c :: "'a cpu_scheme"
  assumes "mem_inv D c"
  shows "mem_inv D (snd (interp_RegWrite r v c))" and "mbyte (snd (interp_RegWrite r v c)) = mbyte c"
  using assms by (simp_all add: interp_RegWrite_def setX_def mbyte_def page_data_def fun_eq_iff)

lemma interp_stop_law:
  fixes c :: "'a cpu_scheme"
  assumes "mem_inv D c"
  shows "mem_inv D (Stop c)" and "mbyte (Stop c) = mbyte c"
  using assms by (simp_all add: Stop_def mbyte_def page_data_def fun_eq_iff)

interpretation ib: guest_backend "interp_backend fuel simd E" "mem_inv D" mbyte
  by unfold_locales
    (simp_all add: interp_backend_def interp_map_law interp_unmap_law interp_protect_law interp_write_law interp_reg_law
      interp_stop_law,
      use interp_read_law in blast)+

end
