(* ===== verification/Loader_Props.thy ===== *)
theory Loader_Props
  imports Linker Packed_Props Interp
begin

text \<open>
  The linker on the interpreter: what a successful \<open>Apply\<close> leaves in guest memory.
\<close>

text \<open>
  C15: when \<open>Apply\<close> succeeds on the interpreter, every relocation has a value (no unknown type, no
  unresolved import) and, its slot being apart from the others, the eight bytes at its target hold that
  value; the memory's caches are coherent.
\<close>
theorem apply_relocates:
  fixes c c' :: "'a cpu_scheme"
  assumes "mem_inv D c" and "length raw < 2 ^ 63"
    and "Apply (interp_backend fuel simd E) img base resolve (Some raw) c = (None, c')"
    and "sorted_wrt (\<lambda>q r. apart (rl_offset q) (rl_offset r)) (im_relocs img)"
  shows "mem_inv D c' \<and> (\<forall>r \<in> set (im_relocs img). \<exists>v. reloc_value img base resolve r = Inr v \<and>
    mbytes c' (base + rl_offset r) 8 = le_bytes 8 v)"
proof -
  have a: "mem_inv D c'" "\<forall>r \<in> set (im_relocs img). \<exists>v. reloc_value img base resolve r = Inr v"
    "mbyte c' = fold (reloc_effect img base resolve) (im_relocs img)
      (fold (seg_effect base raw) (im_segments img) (mbyte c))"
    using guest_backend.Apply_effect [OF ib.guest_backend_axioms assms(1-3)] by blast+
  have "mbytes c' (base + rl_offset r) 8 = le_bytes 8 v"
    if "r \<in> set (im_relocs img)" "reloc_value img base resolve r = Inr v" for r v
    by (rule nth_equalityI) (simp_all add: mbytes_def a(3) fold_reloc_slot [OF assms(4) that] del: le_bytes.simps)
  with a(1,2) show ?thesis by blast
qed

definition sample_image :: image where
  "sample_image =
     \<lparr>im_machine = 183, im_segments = [\<lparr>sg_vaddr = 0, sg_filesz = 0, sg_memsz = 0x1000, sg_off = 0, sg_flags = 6, sg_aligned = 0x1000\<rparr>],
      im_relocs = [\<lparr>rl_offset = 8, rl_type = R_RELATIVE, rl_sym = 0, rl_addend = 0x20\<rparr>], im_syms = [],
      im_imports = [], im_exports = Map.empty, im_init_array = [], im_init_array_addr = 0, im_init_array_len = 0,
      im_init = 0, im_needed = [], im_load_span = 0x1000\<rparr>"

theorem apply_relocates_witness:
  "\<exists>c'. Apply (interp_backend 0 no_simd plain_env) sample_image 0x40000000 None (Some []) New = (None, c') \<and>
     mbytes c' 0x40000008 8 = le_bytes 8 0x40000020"
proof -
  let ?B = "interp_backend 0 no_simd plain_env" and ?D = "decode no_simd inst0"
  obtain c1 where m: "mem_map 0x40000000 0x1000 7 New = (Inr (), c1)" and b1: "\<forall>x. mbyte c1 x = (if x - 0x40000000 < 0x1000 then Some 0 else None)"
    by (rule map_ok [OF New_inv [of ?D], where a = "0x40000000" and n = "0x1000" and prot = 7])
      (simp_all add: good_range_def)
  have i1: "mem_inv ?D c1"
    using mem_map_inv [OF New_inv [of ?D], of "0x40000000" "0x1000" 7] m by simp
  have "(0x40000008 :: u64) + of_nat k - 0x40000000 < 0x1000" if "k < 8" for k
  proof -
    have "unat (8 + of_nat k :: u64) = 8 + k"
      using that by (simp add: unat_add_of_nat)
    then show ?thesis using that by (simp add: word_less_nat_alt)
  qed
  then have ok: "\<forall>k < length (le_bytes 8 0x40000020). mbyte c1 (0x40000008 + of_nat k) \<noteq> None"
    using b1 by (simp del: le_bytes.simps)
  obtain c2 where w: "host_write 0x40000008 (le_bytes 8 0x40000020) c1 = (Inr (), c2)"
    and b2: "mbyte c2 = mem_put 0x40000008 (le_bytes 8 0x40000020) (mbyte c1)"
    by (rule host_write_correct [OF i1 _ _ ok]) simp_all
  have i2: "mem_inv ?D c2"
    using host_write_inv [OF i1, of "0x40000008" "le_bytes 8 0x40000020"] w by simp
  have m2: "\<forall>x. x - 0x40000000 < 0x1000 \<longrightarrow> mbyte c2 x \<noteq> None"
    using b1 b2 by (simp add: mem_put_def)
  obtain c3 where p: "mem_protect 0x40000000 0x1000 3 c2 = (Inr (), c3)"
    by (rule protect_ok [OF i2, where a = "0x40000000" and n = "0x1000" and prot = 3]) (use m2 in \<open>simp_all add: good_range_def\<close>)
  have ne: "le_bytes 8 (0x40000020 :: u64) \<noteq> []"
    by (metis length_le_bytes list.size(3) zero_neq_numeral)
  have ap: "Apply ?B sample_image 0x40000000 None (Some []) New = (None, c3)"
    using m w p ne
    by (simp add: Apply_def sample_image_def interp_backend_def report_def seg_va_def seg_sz_def pageUp_def pageDown_def
        reloc_value_def put64_def interp_MemWrite_def protOf_def Let_def)
  show ?thesis
    using apply_relocates [OF New_inv [of ?D] _ ap] ap by (simp add: sample_image_def reloc_value_def)
qed

end
