(* ===== verification/Address_Space.thy ===== *)
theory Address_Space
  imports Prelude
begin

text \<open>
  The address-space allocator (internal/memory/memory.go): a sorted list of regions and a monotonic
  mmap cursor. It tracks ranges and protections only; the bytes live in the CPU backend.

  Descriptions are strings, protections a Go \<open>int\<close> that is only stored. \<open>sort.Slice\<close> orders by
  address; the result is unique when the addresses are distinct, as they are in a well-formed space.
\<close>

abbreviation PageSize :: u64 where "PageSize \<equiv> 0x1000"
abbreviation MmapBase :: u64 where "MmapBase \<equiv> 0x40000000"

record region =
  r_addr :: u64
  r_size :: u64
  r_prot :: int
  r_desc :: string

definition End :: "region \<Rightarrow> u64" where
  "End r = r_addr r + r_size r"

record space =
  s_regions :: "region list"
  s_mmapTop :: u64

datatype space_err = ZeroSize u64 | MapOverlaps u64 u64 string u64 | NoFullRegion u64 u64

definition NewSpace :: space where
  "NewSpace = \<lparr>s_regions = [], s_mmapTop = MmapBase\<rparr>"

definition sortRegions :: "region list \<Rightarrow> region list" where
  "sortRegions rs = sort_key r_addr rs"

definition insert_region :: "region \<Rightarrow> space \<Rightarrow> space" where
  "insert_region r s = s\<lparr>s_regions := sortRegions (s_regions s @ [r])\<rparr>"

definition space_Map :: "u64 \<Rightarrow> u64 \<Rightarrow> int \<Rightarrow> string \<Rightarrow> space \<Rightarrow> space_err option \<times> space" where
  "space_Map addr0 size0 prot desc s =
     (let addr = pageDown addr0; sz = pageUp size0
      in if sz = 0 then (Some (ZeroSize addr), s)
         else case find (\<lambda>r. addr < End r \<and> r_addr r < addr + sz) (s_regions s) of
             Some r \<Rightarrow> (Some (MapOverlaps addr sz (r_desc r) (r_addr r)), s)
           | None \<Rightarrow> (None, insert_region \<lparr>r_addr = addr, r_size = sz, r_prot = prot, r_desc = desc\<rparr> s))"

definition Mmap :: "u64 \<Rightarrow> int \<Rightarrow> string \<Rightarrow> space \<Rightarrow> u64 \<times> space" where
  "Mmap size0 prot desc s =
     (let sz = pageUp size0; addr = s_mmapTop s; s1 = s\<lparr>s_mmapTop := s_mmapTop s + sz\<rparr>
      in (addr, insert_region \<lparr>r_addr = addr, r_size = sz, r_prot = prot, r_desc = desc\<rparr> s1))"

text \<open>What is left of a region outside \<open>[addr, e)\<close>.\<close>

definition cut :: "u64 \<Rightarrow> u64 \<Rightarrow> region \<Rightarrow> region list" where
  "cut addr e r =
     (if addr \<ge> End r \<or> e \<le> r_addr r then [r]
      else (if r_addr r < addr then [r\<lparr>r_size := addr - r_addr r\<rparr>] else []) @
           (if e < End r then [r\<lparr>r_addr := e, r_size := End r - e\<rparr>] else []))"

definition Munmap :: "u64 \<Rightarrow> u64 \<Rightarrow> space \<Rightarrow> space" where
  "Munmap addr0 size0 s =
     (let addr = pageDown addr0; e = addr + pageUp size0
      in s\<lparr>s_regions := sortRegions (concat (map (cut addr e) (s_regions s)))\<rparr>)"

definition space_Protect :: "u64 \<Rightarrow> u64 \<Rightarrow> int \<Rightarrow> space \<Rightarrow> space_err option \<times> space" where
  "space_Protect addr0 size0 prot s =
     (let addr = pageDown addr0; e = addr + pageUp size0;
          full = (\<lambda>r. r_addr r \<ge> addr \<and> End r \<le> e)
      in (if list_ex full (s_regions s) then None else Some (NoFullRegion addr size0),
          s\<lparr>s_regions := map (\<lambda>r. if full r then r\<lparr>r_prot := prot\<rparr> else r) (s_regions s)\<rparr>))"

text \<open>\<open>sort.Search\<close>: the smallest index in \<open>[i, j]\<close> at which \<open>f\<close> is true, if \<open>f\<close> is monotone.\<close>

function search :: "(nat \<Rightarrow> bool) \<Rightarrow> nat \<Rightarrow> nat \<Rightarrow> nat" where
  "search f i j =
     (if i < j then (let h = (i + j) div 2 in if \<not> f h then search f (h + 1) j else search f i h) else i)"
  by pat_completeness auto
termination
  by (relation "measure (\<lambda>(f, i, j). j - i)") (auto simp: Let_def)

declare search.simps [simp del]

definition Find :: "u64 \<Rightarrow> space \<Rightarrow> region option" where
  "Find addr s =
     (let rs = s_regions s; i = search (\<lambda>i. End (rs ! i) > addr) 0 (length rs)
      in if i < length rs \<and> r_addr (rs ! i) \<le> addr then Some (rs ! i) else None)"

definition SetLayout :: "region list \<Rightarrow> u64 \<Rightarrow> space \<Rightarrow> space" where
  "SetLayout rs cursor s = s\<lparr>s_regions := sortRegions rs, s_mmapTop := cursor\<rparr>"

subsection \<open>Well-formed spaces\<close>

text \<open>Regions are non-empty, end below 2^64, and follow each other without overlap.\<close>

abbreviation lo :: "region \<Rightarrow> nat" where "lo r \<equiv> unat (r_addr r)"
abbreviation hi :: "region \<Rightarrow> nat" where "hi r \<equiv> unat (r_addr r) + unat (r_size r)"

definition region_ok :: "region \<Rightarrow> bool" where
  "region_ok r \<longleftrightarrow> r_size r \<noteq> 0 \<and> hi r < 2 ^ 64"

definition space_ok :: "space \<Rightarrow> bool" where
  "space_ok s \<longleftrightarrow> (\<forall>r \<in> set (s_regions s). region_ok r) \<and>
     sorted_wrt (\<lambda>r q. hi r \<le> lo q) (s_regions s)"

lemma unat_End: "region_ok r \<Longrightarrow> unat (End r) = hi r"
  by (simp add: region_ok_def End_def unat_add_lem [THEN iffD1])

lemma region_pos: "region_ok r \<Longrightarrow> lo r < hi r"
  by (simp add: region_ok_def unat_gt_0)

text \<open>The abstract view: which region's protection and description each address has.\<close>

definition holds :: "region \<Rightarrow> u64 \<Rightarrow> bool" where
  "holds r x \<longleftrightarrow> r_addr r \<le> x \<and> x < End r"

definition view :: "region list \<Rightarrow> u64 \<Rightarrow> (int \<times> string) option" where
  "view rs x = map_option (\<lambda>r. (r_prot r, r_desc r)) (find (\<lambda>r. holds r x) rs)"

lemma holds_unat: "region_ok r \<Longrightarrow> holds r x \<longleftrightarrow> lo r \<le> unat x \<and> unat x < hi r"
  by (simp add: holds_def word_le_nat_alt word_less_nat_alt unat_End)

text \<open>In a disjoint list at most one region holds an address, so the order does not matter.\<close>

definition disj :: "region list \<Rightarrow> bool" where
  "disj rs \<longleftrightarrow> (\<forall>r \<in> set rs. region_ok r) \<and> distinct rs \<and>
     (\<forall>r \<in> set rs. \<forall>q \<in> set rs. r \<noteq> q \<longrightarrow> hi r \<le> lo q \<or> hi q \<le> lo r)"

lemma disj_unique: "disj rs \<Longrightarrow> r \<in> set rs \<Longrightarrow> q \<in> set rs \<Longrightarrow> holds r x \<Longrightarrow> holds q x \<Longrightarrow> r = q"
proof (rule ccontr)
  assume d: "disj rs" and m: "r \<in> set rs" "q \<in> set rs" and h: "holds r x" "holds q x" and "r \<noteq> q"
  then have "hi r \<le> lo q \<or> hi q \<le> lo r" and "region_ok r" "region_ok q"
    unfolding disj_def by blast+
  with h show False
    by (auto simp: holds_unat)
qed

lemma find_SomeD: "find P xs = Some y \<Longrightarrow> y \<in> set xs \<and> P y"
  by (induction xs) (auto split: if_splits)

lemma view_Some_iff: "disj rs \<Longrightarrow> view rs x = Some pd \<longleftrightarrow> (\<exists>r \<in> set rs. holds r x \<and> pd = (r_prot r, r_desc r))"
proof -
  assume d: "disj rs"
  show ?thesis
  proof (cases "find (\<lambda>r. holds r x) rs")
    case None
    then have "view rs x = None" "\<forall>r \<in> set rs. \<not> holds r x"
      by (simp add: view_def) (use None in \<open>auto simp: find_None_iff\<close>)
    then show ?thesis by auto
  next
    case (Some r)
    then have r: "r \<in> set rs" "holds r x"
      using find_SomeD [OF Some] by simp_all
    have "view rs x = Some (r_prot r, r_desc r)"
      using Some by (simp add: view_def)
    moreover have "q = r" if "q \<in> set rs" "holds q x" for q
      using disj_unique [OF d that(1) r(1) that(2) r(2)] .
    ultimately show ?thesis
      using r by (metis option.inject)
  qed
qed

lemma view_set_eq: "disj rs \<Longrightarrow> disj qs \<Longrightarrow> set rs = set qs \<Longrightarrow> view rs = view qs"
proof
  fix x
  assume d: "disj rs" "disj qs" "set rs = set qs"
  have "view rs x = Some pd \<longleftrightarrow> view qs x = Some pd" for pd
    unfolding view_Some_iff [OF d(1)] view_Some_iff [OF d(2)] d(3) ..
  then show "view rs x = view qs x"
    by (metis not_None_eq)
qed

lemma space_ok_disj: "space_ok s \<Longrightarrow> disj (s_regions s)"
proof -
  have gen: "(\<forall>r \<in> set rs. region_ok r) \<Longrightarrow> sorted_wrt (\<lambda>r q. hi r \<le> lo q) rs \<Longrightarrow> disj rs" for rs
  proof (induction rs)
    case Nil
    then show ?case by (simp add: disj_def)
  next
    case (Cons a rs)
    then have d: "disj rs" and a: "region_ok a" "\<forall>q \<in> set rs. hi a \<le> lo q"
      by simp_all
    have "a \<notin> set rs"
      using a region_pos [OF a(1)] by force
    then show ?case
      using d a by (auto simp: disj_def)
  qed
  show "space_ok s \<Longrightarrow> disj (s_regions s)"
    using gen by (simp add: space_ok_def)
qed

lemma disj_space_ok: "disj rs \<Longrightarrow> s_regions s = sortRegions rs \<Longrightarrow> space_ok s"
proof -
  assume d: "disj rs" and s: "s_regions s = sortRegions rs"
  define qs where "qs = sortRegions rs"
  have set: "set qs = set rs" and di: "distinct qs" and so: "sorted_wrt (\<lambda>r q. r_addr r \<le> r_addr q) qs"
    using d sorted_sort_key [of r_addr rs] by (simp_all add: qs_def sortRegions_def disj_def sorted_map)
  have "sorted_wrt (\<lambda>r q. hi r \<le> lo q) qs"
  proof (rule sorted_wrt_mono_rel [rotated])
    show "sorted_wrt (\<lambda>r q. r \<noteq> q \<and> r_addr r \<le> r_addr q) qs"
      using so di by (induction qs) auto
    fix r q
    assume "r \<in> set qs" "q \<in> set qs" and le: "r \<noteq> q \<and> r_addr r \<le> r_addr q"
    then have m: "r \<in> set rs" "q \<in> set rs"
      by (simp_all add: set)
    have "hi r \<le> lo q \<or> hi q \<le> lo r"
      using d le m unfolding disj_def by blast
    moreover have "lo q < hi q"
      using d m by (intro region_pos) (auto simp: disj_def)
    moreover have "lo r \<le> lo q"
      using le by (simp add: word_le_nat_alt)
    ultimately show "hi r \<le> lo q"
      by linarith
  qed
  then show ?thesis
    using d set by (simp add: space_ok_def s qs_def disj_def)
qed

lemma disj_view_sort: "disj rs \<Longrightarrow> view (sortRegions rs) = view rs"
  by (rule view_set_eq) (auto simp: disj_def sortRegions_def)

subsection \<open>Unmapping\<close>

definition chain :: "region list \<Rightarrow> bool" where
  "chain rs \<longleftrightarrow> (\<forall>r \<in> set rs. region_ok r) \<and> sorted_wrt (\<lambda>r q. hi r \<le> lo q) rs"

lemma space_ok_chain: "space_ok s = chain (s_regions s)"
  by (simp add: space_ok_def chain_def)

lemma chain_disj: "chain rs \<Longrightarrow> disj rs"
  using space_ok_disj [of "\<lparr>s_regions = rs, s_mmapTop = 0\<rparr>"] by (simp add: space_ok_chain)

lemma piece_sizes:
  "region_ok r \<Longrightarrow> r_addr r < (a :: u64) \<Longrightarrow> unat (a - r_addr r) = unat a - lo r"
  "region_ok r \<Longrightarrow> e < End r \<Longrightarrow> unat (End r - e) = hi r - unat e"
  by (simp_all add: unat_sub word_le_nat_alt word_less_nat_alt flip: unat_End)

text \<open>The pieces of a region: inside it, outside the range, and covering all that is outside the range.\<close>

lemma cut_pieces:
  assumes r: "region_ok r" and ae: "a \<le> e"
  shows "chain (cut a e r)" and "\<forall>q \<in> set (cut a e r). lo r \<le> lo q \<and> hi q \<le> hi r \<and> r_prot q = r_prot r \<and> r_desc q = r_desc r"
    and "(\<exists>q \<in> set (cut a e r). holds q x) \<longleftrightarrow> holds r x \<and> \<not> (a \<le> x \<and> x < e)"
proof -
  note sz = piece_sizes [OF r]
  have h: "hi r < 2 ^ 64" and z: "0 < unat (r_size r)"
    using r by (simp_all add: region_ok_def unat_gt_0)
  have ok: "r_addr r < a \<Longrightarrow> a < End r \<Longrightarrow> region_ok (r\<lparr>r_size := a - r_addr r\<rparr>)"
    "e < End r \<Longrightarrow> region_ok (r\<lparr>r_addr := e, r_size := End r - e\<rparr>)"
    using h sz(1) [of a] sz(2) [of e] by (auto simp: region_ok_def word_less_nat_alt unat_End [OF r])
  note n = word_less_nat_alt word_le_nat_alt not_less not_le unat_End [OF r]
  show "chain (cut a e r)"
    using r ok sz(1) [of a] sz(2) [of e] ae by (auto simp: chain_def cut_def n)
  show "\<forall>q \<in> set (cut a e r). lo r \<le> lo q \<and> hi q \<le> hi r \<and> r_prot q = r_prot r \<and> r_desc q = r_desc r"
    using sz(1) [of a] sz(2) [of e] ae by (auto simp: cut_def n)
  show "(\<exists>q \<in> set (cut a e r). holds q x) \<longleftrightarrow> holds r x \<and> \<not> (a \<le> x \<and> x < e)"
  proof (cases "a \<ge> End r \<or> e \<le> r_addr r")
    case True
    then show ?thesis
      by (auto simp: cut_def holds_def)
  next
    case False
    then have "r_addr r < e" "a < End r"
      by auto
    then show ?thesis
      using False ae r ok sz(1) [of a] sz(2) [of e]
      by (auto simp: cut_def holds_unat n)
  qed
qed

lemma chain_append: "chain (xs @ ys) \<longleftrightarrow> chain xs \<and> chain ys \<and> (\<forall>x \<in> set xs. \<forall>y \<in> set ys. hi x \<le> lo y)"
  by (auto simp: chain_def sorted_wrt_append)

lemma chain_cut: "a \<le> e \<Longrightarrow> chain rs \<Longrightarrow> chain (concat (map (cut a e) rs))"
proof (induction rs)
  case Nil
  then show ?case by (simp add: chain_def)
next
  case (Cons r rs)
  then have r: "region_ok r" "chain rs" and le: "\<forall>q \<in> set rs. region_ok q \<and> hi r \<le> lo q"
    by (auto simp: chain_def)
  have "hi x \<le> lo y" if "x \<in> set (cut a e r)" "q \<in> set rs" "y \<in> set (cut a e q)" for x y q
  proof -
    have "hi x \<le> hi r" "lo q \<le> lo y"
      using cut_pieces(2) [OF r(1) Cons.prems(1)] cut_pieces(2) [of q a e] le Cons.prems(1) that by blast+
    then show ?thesis
      using le that(2) by fastforce
  qed
  then show ?case
    using Cons.IH Cons.prems(1) r cut_pieces(1) [OF r(1)] by (auto simp: chain_append)
qed

lemma view_cut:
  assumes ae: "a \<le> e" and c: "chain rs"
  shows "view (concat (map (cut a e) rs)) x = (if a \<le> x \<and> x < e then None else view rs x)"
proof -
  have ok: "\<forall>r \<in> set rs. region_ok r"
    using c by (simp add: chain_def)
  have v: "view (concat (map (cut a e) rs)) x = Some pd \<longleftrightarrow> \<not> (a \<le> x \<and> x < e) \<and> view rs x = Some pd" for pd
    unfolding view_Some_iff [OF chain_disj [OF chain_cut [OF ae c]]] view_Some_iff [OF chain_disj [OF c]]
  proof (intro iffI conjI)
    assume "\<exists>q \<in> set (concat (map (cut a e) rs)). holds q x \<and> pd = (r_prot q, r_desc q)"
    then obtain r q where rq: "r \<in> set rs" "q \<in> set (cut a e r)" "holds q x" "pd = (r_prot q, r_desc q)"
      by auto
    then have r: "region_ok r"
      using ok by blast
    have "holds r x \<and> \<not> (a \<le> x \<and> x < e)"
      using cut_pieces(3) [OF r ae, of x] rq(2,3) by blast
    moreover have "r_prot q = r_prot r" "r_desc q = r_desc r"
      using cut_pieces(2) [OF r ae] rq(2) by blast+
    ultimately show "\<not> (a \<le> x \<and> x < e)" and "\<exists>r \<in> set rs. holds r x \<and> pd = (r_prot r, r_desc r)"
      using rq(1,4) by auto
  next
    assume "\<not> (a \<le> x \<and> x < e) \<and> (\<exists>r \<in> set rs. holds r x \<and> pd = (r_prot r, r_desc r))"
    then obtain r where r: "r \<in> set rs" "holds r x" "pd = (r_prot r, r_desc r)" "\<not> (a \<le> x \<and> x < e)"
      by blast
    then have "region_ok r"
      using ok by blast
    note p = cut_pieces(2,3) [OF this ae]
    obtain q where q: "q \<in> set (cut a e r)" "holds q x"
      using p(2) r by blast
    then have "r_prot q = r_prot r" "r_desc q = r_desc r"
      using p(1) by blast+
    then have "pd = (r_prot q, r_desc q)"
      using r(3) by simp
    moreover have "q \<in> set (concat (map (cut a e) rs))"
      using q(1) r(1) by auto
    ultimately show "\<exists>q \<in> set (concat (map (cut a e) rs)). holds q x \<and> pd = (r_prot q, r_desc q)"
      using q(2) by blast
  qed
  show ?thesis
    using v by (cases "a \<le> x \<and> x < e") (metis not_None_eq)+
qed

lemma sorted_chain: "chain rs \<Longrightarrow> sortRegions rs = rs"
proof -
  assume "chain rs"
  then have "sorted (map r_addr rs)"
    unfolding chain_def sorted_map by (auto elim!: sorted_wrt_mono_rel [rotated] simp: word_le_nat_alt)
  then show ?thesis
    by (simp add: sortRegions_def sort_key_id_if_sorted)
qed

subsection \<open>Inserting\<close>

lemma insert_ok:
  assumes s: "space_ok s" and r: "region_ok r" and fr: "\<forall>q \<in> set (s_regions s). hi q \<le> lo r \<or> hi r \<le> lo q"
  shows "space_ok (insert_region r s)"
    and "view (s_regions (insert_region r s)) x = (if holds r x then Some (r_prot r, r_desc r) else view (s_regions s) x)"
proof -
  let ?rs = "s_regions s @ [r]"
  have ds: "disj (s_regions s)"
    using s by (rule space_ok_disj)
  have "r \<notin> set (s_regions s)"
    using fr region_pos [OF r] by force
  then have d: "disj ?rs"
    using ds r fr by (auto simp: disj_def)
  show "space_ok (insert_region r s)"
    by (rule disj_space_ok [OF d]) (simp add: insert_region_def)
  have n: "\<forall>q \<in> set (s_regions s). holds r x \<longrightarrow> \<not> holds q x"
    using disj_unique [OF d] \<open>r \<notin> set (s_regions s)\<close> by fastforce
  have "view ?rs x = (if holds r x then Some (r_prot r, r_desc r) else view (s_regions s) x)"
  proof -
    have "view ?rs x = Some pd \<longleftrightarrow> (if holds r x then pd = (r_prot r, r_desc r) else view (s_regions s) x = Some pd)" for pd
      unfolding view_Some_iff [OF d] using n by (auto simp: view_Some_iff [OF ds])
    then show ?thesis
      by (cases "holds r x"; cases "view (s_regions s) x"; cases "view ?rs x") (simp_all, blast+)
  qed
  then show "view (s_regions (insert_region r s)) x = (if holds r x then Some (r_prot r, r_desc r) else view (s_regions s) x)"
    using disj_view_sort [OF d] by (simp add: insert_region_def)
qed

text \<open>A range is free exactly when it is apart from every region.\<close>

lemma free_apart:
  assumes ds: "disj rs" and r: "region_ok r"
  shows "(\<forall>x. holds r x \<longrightarrow> view rs x = None) \<longleftrightarrow> (\<forall>q \<in> set rs. hi q \<le> lo r \<or> hi r \<le> lo q)" (is "?free \<longleftrightarrow> ?apart")
proof
  assume f: ?free
  show ?apart
  proof (intro ballI, rule ccontr)
    fix q
    assume q: "q \<in> set rs" and o: "\<not> (hi q \<le> lo r \<or> hi r \<le> lo q)"
    define x where "x = max (r_addr r) (r_addr q)"
    have qk: "region_ok q"
      using ds q by (simp add: disj_def)
    have "unat x = max (lo r) (lo q)"
      by (auto simp: x_def max_def word_le_nat_alt)
    then have "holds r x" "holds q x"
      using o r qk region_pos [OF qk] region_pos [OF r] by (auto simp: holds_unat)
    then show False
      using f q view_Some_iff [OF ds, of x "(r_prot q, r_desc q)"] by auto
  qed
next
  assume a: ?apart
  have "\<not> holds q x" if "holds r x" "q \<in> set rs" for x q
  proof -
    have "region_ok q"
      using ds that by (simp add: disj_def)
    then show ?thesis
      using a that r by (fastforce simp: holds_unat)
  qed
  then show ?free
    by (auto simp: view_def find_None_iff)
qed

subsection \<open>Searching\<close>

definition first_index :: "(nat \<Rightarrow> bool) \<Rightarrow> nat \<Rightarrow> nat \<Rightarrow> bool" where
  "first_index f n m \<longleftrightarrow> m \<le> n \<and> (\<forall>k < m. \<not> f k) \<and> (m < n \<longrightarrow> f m)"

lemma search_first:
  assumes mono: "\<And>k l. k \<le> l \<Longrightarrow> l < n \<Longrightarrow> f k \<Longrightarrow> f l"
  shows "i \<le> j \<Longrightarrow> j \<le> n \<Longrightarrow> \<forall>k < i. \<not> f k \<Longrightarrow> j < n \<longrightarrow> f j \<Longrightarrow> first_index f n (search f i j)"
proof (induction "j - i" arbitrary: i j rule: less_induct)
  case less
  show ?case
  proof (cases "i < j")
    case False
    then have "i = j" using less.prems by simp
    then show ?thesis using less.prems by (simp add: search.simps first_index_def)
  next
    case True
    define h where "h = (i + j) div 2"
    have h: "i \<le> h" "h < j"
      using True by (auto simp: h_def)
    show ?thesis
    proof (cases "f h")
      case fh: True
      have "first_index f n (search f i h)"
        using less.prems h fh by (intro less.hyps) auto
      then show ?thesis
        using True fh by (subst search.simps) (simp add: h_def Let_def)
    next
      case nf: False
      have nfk: "\<forall>k < h + 1. \<not> f k"
        using nf mono [of _ h] h less.prems(2) by (auto simp: less_Suc_eq_le)
      have "first_index f n (search f (h + 1) j)"
        using less.prems h nfk by (intro less.hyps) auto
      then show ?thesis
        using True nf by (subst search.simps) (simp add: h_def Let_def)
    qed
  qed
qed

lemma Find_linear:
  assumes "space_ok s"
  shows "Find x s = find (\<lambda>r. holds r x) (s_regions s)"
proof -
  let ?rs = "s_regions s" and ?f = "\<lambda>i. End (s_regions s ! i) > x"
  have ok: "region_ok (?rs ! k)" if "k < length ?rs" for k
    using assms that by (simp add: space_ok_def)
  have so: "hi (?rs ! k) \<le> lo (?rs ! l)" if "k < l" "l < length ?rs" for k l
    using assms that by (simp add: space_ok_def sorted_wrt_iff_nth_less)
  have mono: "?f l" if "k \<le> l" "l < length ?rs" "?f k" for k l
  proof (cases "k = l")
    case False
    have "hi (?rs ! k) \<le> hi (?rs ! l)"
      using so [of k l] False that by simp
    then show ?thesis
      using that ok [of k] ok [of l] by (simp add: word_less_nat_alt unat_End)
  qed (use that in simp)
  define m where "m = search ?f 0 (length ?rs)"
  have m: "first_index ?f (length ?rs) m"
    unfolding m_def by (rule search_first) (use mono in auto)
  have below: "\<not> holds (?rs ! k) x" if "k < m" for k
    using m that by (auto simp: first_index_def holds_def)
  show ?thesis
  proof (cases "m < length ?rs \<and> r_addr (?rs ! m) \<le> x")
    case True
    then have "holds (?rs ! m) x"
      using m by (auto simp: first_index_def holds_def)
    then have "find (\<lambda>r. holds r x) ?rs = Some (?rs ! m)"
      using True below by (auto simp: find_Some_iff)
    then show ?thesis
      using True by (simp add: Find_def m_def Let_def)
  next
    case False
    have "\<not> holds (?rs ! k) x" if "k < length ?rs" for k
    proof (cases "k < m")
      case ge: False
      have "lo (?rs ! m) \<le> lo (?rs ! k)"
        using so [of m k] ge that by (cases "k = m") (auto simp: not_less)
      moreover have "\<not> r_addr (?rs ! m) \<le> x"
        using False ge that by auto
      ultimately show ?thesis
        by (auto simp: holds_def word_le_nat_alt)
    qed (rule below)
    then have "find (\<lambda>r. holds r x) ?rs = None"
      by (auto simp: find_None_iff in_set_conv_nth)
    then show ?thesis
      using False by (simp add: Find_def m_def Let_def)
  qed
qed

subsection \<open>Properties\<close>

text \<open>
  C20: \<open>Find\<close>, which searches the sorted list by bisection, finds the region that holds the address:
  it agrees with a linear scan.
\<close>
theorem find_by_bisection:
  assumes "space_ok s"
  shows "Find x s = find (\<lambda>r. holds r x) (s_regions s)"
  by (rule Find_linear [OF assms])

definition sample_space :: space where
  "sample_space = \<lparr>s_regions = [\<lparr>r_addr = 0x1000, r_size = 0x3000, r_prot = 5, r_desc = ''libc.so''\<rparr>,
     \<lparr>r_addr = 0x40000000, r_size = 0x1000, r_prot = 3, r_desc = ''mmap''\<rparr>], s_mmapTop = 0x40001000\<rparr>"

lemma sample_space_ok: "space_ok sample_space"
  by (simp add: sample_space_def space_ok_def region_ok_def)

theorem find_by_bisection_witness:
  "map_option r_desc (Find 0x3fff sample_space) = Some ''libc.so'' \<and> Find 0x4000 sample_space = None"
  using find_by_bisection [OF sample_space_ok, of "0x3fff"] find_by_bisection [OF sample_space_ok, of "0x4000"]
  by (simp add: sample_space_def holds_def End_def)

text \<open>
  C19: \<open>Map\<close> of a range that does not wrap adds exactly the page-rounded range when it is non-empty and
  free, and otherwise reports an error and changes nothing; either way the space stays sorted and
  free of overlaps.
\<close>
theorem space_map_law:
  assumes s: "space_ok s" and n: "unat (pageDown a) + unat (pageUp n) < 2 ^ 64"
  defines "free \<equiv> \<forall>x. pageDown a \<le> x \<and> x < pageDown a + pageUp n \<longrightarrow> view (s_regions s) x = None"
  shows "space_ok (snd (space_Map a n prot desc s)) \<and>
    (fst (space_Map a n prot desc s) = None \<longleftrightarrow> pageUp n \<noteq> 0 \<and> free) \<and>
    view (s_regions (snd (space_Map a n prot desc s))) x =
      (if pageUp n \<noteq> 0 \<and> free \<and> pageDown a \<le> x \<and> x < pageDown a + pageUp n then Some (prot, desc)
       else view (s_regions s) x)"
proof -
  let ?r = "\<lparr>r_addr = pageDown a, r_size = pageUp n, r_prot = prot, r_desc = desc\<rparr>"
  let ?olap = "\<lambda>q. pageDown a < End q \<and> r_addr q < pageDown a + pageUp n"
  have ok: "\<forall>q \<in> set (s_regions s). region_ok q"
    using s by (simp add: space_ok_def)
  have e: "unat (pageDown a + pageUp n) = unat (pageDown a) + unat (pageUp n)"
    using n by (simp add: unat_add_lem [THEN iffD1])
  show ?thesis
  proof (cases "pageUp n = 0")
    case True
    then show ?thesis using s by (simp add: space_Map_def Let_def)
  next
    case False
    then have r: "region_ok ?r"
      using n by (simp add: region_ok_def)
    have apart: "hi q \<le> lo ?r \<or> hi ?r \<le> lo q \<longleftrightarrow> \<not> ?olap q" if "q \<in> set (s_regions s)" for q
      using ok that e by (auto simp: word_less_nat_alt unat_End)
    have free: "free \<longleftrightarrow> (\<forall>q \<in> set (s_regions s). \<not> ?olap q)"
      using free_apart [OF space_ok_disj [OF s] r] apart by (simp add: free_def holds_def End_def)
    show ?thesis
    proof (cases "find ?olap (s_regions s)")
      case None
      then have nf: "\<forall>q \<in> set (s_regions s). \<not> ?olap q"
        by (auto simp: find_None_iff)
      have "\<forall>q \<in> set (s_regions s). hi q \<le> lo ?r \<or> hi ?r \<le> lo q"
        using nf apart by blast
      note i = insert_ok [OF s r this]
      have "space_Map a n prot desc s = (None, insert_region ?r s)"
        using None False by (simp add: space_Map_def Let_def)
      then show ?thesis
        using i False nf free by (simp add: holds_def End_def)
    next
      case (Some q)
      then have "\<not> free"
        using free find_SomeD [OF Some] by auto
      moreover have "snd (space_Map a n prot desc s) = s" "fst (space_Map a n prot desc s) \<noteq> None"
        using Some False by (simp_all add: space_Map_def Let_def)
      ultimately show ?thesis
        using s by simp
    qed
  qed
qed

theorem space_map_law_witness:
  "fst (space_Map 0x4000 0x10 1 ''x'' sample_space) = None \<and> view (s_regions (snd (space_Map 0x4000 0x10 1 ''x'' sample_space))) 0x4abc = Some (1, ''x'')"
proof -
  have d: "pageDown 0x4000 = 0x4000" "pageUp 0x10 = 0x1000"
    by (simp_all add: pageDown_def pageUp_def)
  have "\<forall>x. 0x4000 \<le> x \<and> x < 0x5000 \<longrightarrow> view (s_regions sample_space) x = None"
    by (auto simp: view_def sample_space_def holds_def End_def word_le_nat_alt word_less_nat_alt)
  then show ?thesis
    using space_map_law [OF sample_space_ok, of "0x4000" "0x10" 1 "''x''" "0x4abc"] by (simp add: d)
qed

text \<open>
  C17: \<open>Munmap\<close> of a range that does not wrap removes exactly the addresses of the page-rounded range,
  splitting the regions at its ends, and keeps the space well-formed.
\<close>
theorem munmap_law:
  assumes s: "space_ok s" and n: "unat (pageDown a) + unat (pageUp n) < 2 ^ 64"
  shows "space_ok (Munmap a n s) \<and>
    view (s_regions (Munmap a n s)) x =
      (if pageDown a \<le> x \<and> x < pageDown a + pageUp n then None else view (s_regions s) x)"
proof -
  have ae: "pageDown a \<le> pageDown a + pageUp n"
    using n by (simp add: word_le_nat_alt unat_add_lem [THEN iffD1])
  have c: "chain (s_regions s)"
    using s by (simp add: space_ok_chain)
  have m: "s_regions (Munmap a n s) = concat (map (cut (pageDown a) (pageDown a + pageUp n)) (s_regions s))"
    using sorted_chain [OF chain_cut [OF ae c]] by (simp add: Munmap_def Let_def)
  show ?thesis
    using chain_cut [OF ae c] view_cut [OF ae c, of x] by (simp add: m space_ok_chain)
qed

theorem munmap_law_witness:
  "let s = Munmap 0x2000 0x1000 sample_space in
     space_ok s \<and> view (s_regions s) 0x2abc = None \<and> view (s_regions s) 0x3000 = Some (5, ''libc.so'')"
proof -
  have d: "pageDown 0x2000 = 0x2000" "pageUp 0x1000 = 0x1000"
    by (simp_all add: pageDown_def pageUp_def)
  have "view (s_regions sample_space) 0x3000 = Some (5, ''libc.so'')"
    by (simp add: view_def sample_space_def holds_def End_def)
  then show ?thesis
    using munmap_law [OF sample_space_ok, of "0x2000" "0x1000" "0x2abc"]
      munmap_law [OF sample_space_ok, of "0x2000" "0x1000" "0x3000"] by (simp add: d Let_def)
qed

text \<open>
  C18: \<open>Mmap\<close> returns the cursor and moves it past the new range. It never looks at the regions: the
  result is a well-formed space exactly when the range at the cursor is free, so a range mapped
  before at a fixed address above the cursor is overlapped silently.
\<close>
theorem mmap_law:
  assumes s: "space_ok s" and n: "pageUp n \<noteq> 0" "unat (s_mmapTop s) + unat (pageUp n) < 2 ^ 64"
  shows "fst (Mmap n prot desc s) = s_mmapTop s \<and> s_mmapTop (snd (Mmap n prot desc s)) = s_mmapTop s + pageUp n \<and>
    (space_ok (snd (Mmap n prot desc s)) \<longleftrightarrow>
      (\<forall>x. s_mmapTop s \<le> x \<and> x < s_mmapTop s + pageUp n \<longrightarrow> view (s_regions s) x = None))"
proof -
  let ?r = "\<lparr>r_addr = s_mmapTop s, r_size = pageUp n, r_prot = prot, r_desc = desc\<rparr>"
  let ?s1 = "s\<lparr>s_mmapTop := s_mmapTop s + pageUp n\<rparr>"
  have ds: "disj (s_regions s)"
    using s by (rule space_ok_disj)
  have r: "region_ok ?r"
    using n by (simp add: region_ok_def)
  have v: "(\<forall>x. s_mmapTop s \<le> x \<and> x < s_mmapTop s + pageUp n \<longrightarrow> view (s_regions s) x = None) \<longleftrightarrow>
      (\<forall>q \<in> set (s_regions s). hi q \<le> lo ?r \<or> hi ?r \<le> lo q)"
    using free_apart [OF ds r] by (simp add: holds_def End_def)
  have "space_ok (insert_region ?r ?s1) \<longleftrightarrow> (\<forall>q \<in> set (s_regions s). hi q \<le> lo ?r \<or> hi ?r \<le> lo q)"
  proof
    assume "space_ok (insert_region ?r ?s1)"
    then have d: "disj (sortRegions (s_regions s @ [?r]))"
      using space_ok_disj by (fastforce simp: insert_region_def)
    then have "distinct (s_regions s @ [?r])" and "\<forall>q \<in> set (s_regions s). q \<noteq> ?r \<longrightarrow> hi q \<le> lo ?r \<or> hi ?r \<le> lo q"
      by (auto simp: disj_def sortRegions_def)
    then show "\<forall>q \<in> set (s_regions s). hi q \<le> lo ?r \<or> hi ?r \<le> lo q"
      by auto
  next
    assume "\<forall>q \<in> set (s_regions s). hi q \<le> lo ?r \<or> hi ?r \<le> lo q"
    then show "space_ok (insert_region ?r ?s1)"
      using insert_ok(1) [of ?s1 ?r] s r by (simp add: space_ok_def)
  qed
  then show ?thesis
    using v by (simp add: Mmap_def Let_def insert_region_def)
qed

definition fixed_space :: space where
  "fixed_space = snd (space_Map 0x40001000 0x1000 3 ''fixed'' NewSpace)"

theorem mmap_law_witness:
  "space_ok fixed_space \<and> fst (Mmap 0x2000 1 ''anon'' fixed_space) = 0x40000000 \<and> \<not> space_ok (snd (Mmap 0x2000 1 ''anon'' fixed_space))"
proof -
  have f: "fixed_space = \<lparr>s_regions = [\<lparr>r_addr = 0x40001000, r_size = 0x1000, r_prot = 3, r_desc = ''fixed''\<rparr>], s_mmapTop = MmapBase\<rparr>"
    by (simp add: fixed_space_def space_Map_def NewSpace_def insert_region_def sortRegions_def pageUp_def pageDown_def)
  have ok: "space_ok fixed_space"
    by (simp add: f space_ok_def region_ok_def)
  have v: "view (s_regions fixed_space) 0x40001000 \<noteq> None" and d: "pageUp 0x2000 = 0x2000"
    by (simp_all add: f view_def holds_def End_def pageUp_def)
  have "\<not> (\<forall>x. s_mmapTop fixed_space \<le> x \<and> x < s_mmapTop fixed_space + pageUp 0x2000 \<longrightarrow> view (s_regions fixed_space) x = None)"
    using v by (intro notI) (drule spec [of _ "0x40001000"], simp add: f d)
  then show ?thesis
    using mmap_law [OF ok, of "0x2000" 1 "''anon''"] ok by (simp add: d) (simp add: f)
qed

end
