(* ===== verification/Registry.thy ===== *)
theory Registry
  imports Prelude
begin

text \<open>
  Engine selection (internal/emu/registry.go). A registry is the map from names to
  factories with the order of registration; a factory is a parameter type \<open>'f\<close>, the nil factory
  \<open>None\<close>, and the environment variable an argument. Names are ASCII, for which \<open>strings.ToLower\<close> and
  \<open>strings.TrimSpace\<close> are the two functions below.
\<close>

definition lower_char :: "char \<Rightarrow> char" where
  "lower_char c = (if 65 \<le> (of_char c :: nat) \<and> (of_char c :: nat) \<le> 90 then char_of ((of_char c :: nat) + 32) else c)"

definition ToLower :: "string \<Rightarrow> string" where
  "ToLower = map lower_char"

definition white :: "char \<Rightarrow> bool" where
  "white c \<longleftrightarrow> (of_char c :: nat) \<in> {9, 10, 11, 12, 13, 32}"

definition TrimSpace :: "string \<Rightarrow> string" where
  "TrimSpace s = rev (dropWhile white (rev (dropWhile white s)))"

lemma ToLower_idem [simp]: "ToLower (ToLower s) = ToLower s"
proof -
  have "lower_char (lower_char c) = lower_char c" for c
    by (simp add: lower_char_def)
  then show ?thesis by (simp add: ToLower_def)
qed

lemma ToLower_Nil [simp]: "ToLower s = [] \<longleftrightarrow> s = []"
  by (simp add: ToLower_def)

record 'f engines =
  e_registry :: "string \<rightharpoonup> 'f"
  e_regOrder :: "string list"

definition no_engines :: "'f engines" where
  "no_engines = \<lparr>e_registry = Map.empty, e_regOrder = []\<rparr>"

definition Register :: "string \<Rightarrow> 'f option \<Rightarrow> 'f engines \<Rightarrow> 'f engines" where
  "Register name0 fo g =
     (case fo of
        None \<Rightarrow> g
      | Some f \<Rightarrow>
          let name = ToLower name0;
              g1 = (if e_registry g name = None then g\<lparr>e_regOrder := e_regOrder g @ [name]\<rparr> else g)
          in g1\<lparr>e_registry := (e_registry g1)(name \<mapsto> f)\<rparr>)"

definition Available :: "'f engines \<Rightarrow> string list" where
  "Available g = e_regOrder g"

definition defaultPreference :: "string list" where
  "defaultPreference = [''unicorn'', ''dynarmic'', ''interp'']"

datatype resolve_err = ErrNoBackend | NoneCompiledIn string | NotCompiledIn string "string list"

definition Resolve :: "string \<Rightarrow> string \<Rightarrow> 'f engines \<Rightarrow> resolve_err + string" where
  "Resolve env name0 g =
     (let name = (if name0 = [] then TrimSpace env else name0)
      in if name = [] then
           (case List.find (\<lambda>p. e_registry g p \<noteq> None) defaultPreference of
              Some p \<Rightarrow> Inr p
            | None \<Rightarrow> (case e_regOrder g of p # _ \<Rightarrow> Inr p | [] \<Rightarrow> Inl ErrNoBackend))
         else
           let name = ToLower name
           in if e_registry g name = None then
                if e_regOrder g = [] then Inl (NoneCompiledIn name) else Inl (NotCompiledIn name (e_regOrder g))
              else Inr name)"

text \<open>\<open>NewNamed\<close>: the factory it calls; calling it is the caller's.\<close>

definition NewNamed :: "string \<Rightarrow> string \<Rightarrow> 'f engines \<Rightarrow> resolve_err + 'f" where
  "NewNamed env name g =
     (case Resolve env name g of Inl e \<Rightarrow> Inl e | Inr n \<Rightarrow> Inr (the (e_registry g n)))"

subsection \<open>Correctness\<close>

definition engines_ok :: "'f engines \<Rightarrow> bool" where
  "engines_ok g \<longleftrightarrow> distinct (e_regOrder g) \<and> set (e_regOrder g) = dom (e_registry g) \<and>
     (\<forall>n \<in> dom (e_registry g). ToLower n = n)"

lemma no_engines_ok: "engines_ok no_engines"
  by (simp add: engines_ok_def no_engines_def)

lemma Register_ok: "engines_ok g \<Longrightarrow> engines_ok (Register n f g)"
  by (auto simp: engines_ok_def Register_def Let_def split: option.splits)

lemma Resolve_registered: "engines_ok g \<Longrightarrow> Resolve env name g = Inr n \<Longrightarrow> n \<in> dom (e_registry g)"
  by (auto simp: Resolve_def Let_def engines_ok_def find_Some_iff split: if_splits option.splits list.splits)

text \<open>The engines registered by a sequence of calls, in order.\<close>

definition registered :: "(string \<times> 'f option) list \<Rightarrow> 'f engines" where
  "registered calls = fold (\<lambda>(n, f). Register n f) calls no_engines"

lemma registered_ok: "engines_ok (registered calls)"
proof -
  have "engines_ok g \<Longrightarrow> engines_ok (fold (\<lambda>(n, f). Register n f) calls g)" for g
    by (induction calls arbitrary: g) (auto simp: Register_ok)
  then show ?thesis by (simp add: registered_def no_engines_ok)
qed

text \<open>The latest factory under each name.\<close>

definition table :: "(string \<times> 'f option) list \<Rightarrow> (string \<times> 'f) list" where
  "table calls = rev [(ToLower n, f). (n, Some f) \<leftarrow> calls]"

lemma registered_lookup: "e_registry (registered calls) m = map_of (table calls) m"
proof -
  have "e_registry (fold (\<lambda>(n, f). Register n f) calls g) m =
      (case map_of (table calls) m of None \<Rightarrow> e_registry g m | Some f \<Rightarrow> Some f)" for g
  proof (induction calls arbitrary: g)
    case Nil
    then show ?case by (simp add: table_def)
  next
    case (Cons c calls)
    then show ?case
      by (cases c; cases "snd c") (auto simp: table_def Register_def Let_def map_add_def split: option.splits)
  qed
  from this [of no_engines] show ?thesis
    by (simp add: registered_def no_engines_def split: option.splits)
qed

text \<open>
  Whatever was registered, an engine that \<open>Resolve\<close> names is one of them, \<open>NewNamed\<close> calls the last factory
  registered under that name without regard to case, an explicit name wins over the environment, an
  unknown explicit name is an error, and with no name at all some engine is chosen unless none is
  registered.
\<close>
theorem resolve_law:
  "case Resolve env name (registered calls) of
     Inr n \<Rightarrow> n \<in> set (Available (registered calls)) \<and> (\<exists>f. map_of (table calls) n = Some f \<and>
         NewNamed env name (registered calls) = Inr f) \<and> (name = [] \<or> n = ToLower name)
   | Inl e \<Rightarrow> (if name = [] \<and> TrimSpace env = [] then Available (registered calls) = []
               else map_of (table calls) (ToLower (if name = [] then TrimSpace env else name)) = None)"
proof -
  have ok: "engines_ok (registered calls)" and tab: "map_of (table calls) m = e_registry (registered calls) m" for m
    by (simp_all add: registered_ok registered_lookup)
  show ?thesis
  proof (cases "Resolve env name (registered calls)")
    case (Inl e)
    then show ?thesis
      by (auto simp: Resolve_def Let_def Available_def tab split: if_splits option.splits list.splits)
  next
    case (Inr n)
    have "n \<in> dom (e_registry (registered calls))"
      using Resolve_registered [OF ok Inr] .
    moreover have "name = [] \<or> n = ToLower name"
      using Inr by (auto simp: Resolve_def Let_def split: if_splits)
    ultimately show ?thesis
      using Inr ok by (auto simp: Available_def engines_ok_def NewNamed_def tab)
  qed
qed

end
