(* ===== verification/Kernel_Files.thy ===== *)
theory Kernel_Files
  imports Backend Address_Space "HOL-Library.AList"
begin

text \<open>
  The Linux system calls (internal/kernel/syscall.go). The record \<open>kernel\<close> is the mutable part of
  \<open>Context\<close> with the state of the backend and of the address space it points to; \<open>kenv\<close> holds what
  does not change: the backend's operations, the file system below, \<open>Pid\<close>, \<open>Epoch\<close>, \<open>RandSeed\<close>, and
  the host: its clock, its entropy and the ChaCha8 generator of the standard library, all over a
  host state. Byte slices are views of arrays in a heap, because an open file may share
  its array with the writable overlay. A read from a generator fills the whole buffer and is given by the
  byte at each index; \<open>ke_grow\<close> is the runtime's choice of capacity in \<open>append\<close>.
  A handler gives the value for x0, or \<open>None\<close> when it panics. Printing under \<open>Verbose\<close> is left out;
  the reads it makes do not change the state. Host memory is unbounded.
\<close>

type_synonym path = string

text \<open>A nil slice views the empty array 0.\<close>

record slice =
  sl_arr :: nat
  sl_len :: nat

definition nil_slice :: slice where
  "nil_slice = \<lparr>sl_arr = 0, sl_len = 0\<rparr>"

record open_file =
  of_path :: path
  of_data :: slice
  of_pos :: u64
  of_writable :: bool

record ('b, 'h, 'r) kernel =
  k_be :: 'b
  k_mem :: space
  k_host :: 'h
  k_heap :: "u8 list list"
  k_brkCur :: u64
  k_Exited :: bool
  k_ExitCode :: u32
  k_files :: "(u32 \<rightharpoonup> open_file) option"
  k_nextFd :: u32
  k_wfiles :: "(path \<times> slice) list option"
  k_dirs :: "path set option"
  k_rng :: "'r option"

record ('b, 'x, 'h, 'r) kenv =
  ke_B :: "('b, 'x) backend"
  ke_vfs_Read :: "path \<Rightarrow> u8 list option"
  ke_vfs_Exists :: "path \<Rightarrow> bool"
  ke_Pid :: u64
  ke_Epoch :: u64
  ke_RandSeed :: u64
  ke_now :: "'h \<Rightarrow> (u64 \<times> u64) \<times> 'h"
  ke_entropy :: "'h \<Rightarrow> nat \<Rightarrow> (nat \<Rightarrow> u8) option \<times> 'h"
  ke_NewChaCha8 :: "u8 list \<Rightarrow> 'r"
  ke_chacha_Read :: "'r \<Rightarrow> nat \<Rightarrow> (nat \<Rightarrow> u8) \<times> 'r"
  ke_grow :: "nat \<Rightarrow> nat \<Rightarrow> nat"

type_synonym args = "nat \<Rightarrow> u64"
type_synonym ('b, 'h, 'r) result = "u64 option \<times> ('b, 'h, 'r) kernel"

abbreviation (input) BrkBase :: u64 where "BrkBase \<equiv> 0x30000000"
abbreviation (input) maxRWLen :: u64 where "maxRWLen \<equiv> 0x7ffff000"
abbreviation (input) EPERM :: u64 where "EPERM \<equiv> 1"
abbreviation (input) ENOENT :: u64 where "ENOENT \<equiv> 2"
abbreviation (input) EBADF :: u64 where "EBADF \<equiv> 9"
abbreviation (input) EFAULT :: u64 where "EFAULT \<equiv> 14"
abbreviation (input) EINVAL :: u64 where "EINVAL \<equiv> 22"
abbreviation (input) ERANGE :: u64 where "ERANGE \<equiv> 34"
abbreviation (input) ENOSYS :: u64 where "ENOSYS \<equiv> 38"

subsection \<open>The backend under the kernel\<close>

text \<open>An operation of the backend on the kernel's state; \<open>True\<close> is success.\<close>

definition on_be :: "('b \<Rightarrow> bool \<times> 'b) \<Rightarrow> ('b, 'h, 'r) kernel \<Rightarrow> bool \<times> ('b, 'h, 'r) kernel" where
  "on_be f k = (case f (k_be k) of (ok, b) \<Rightarrow> (ok, k\<lparr>k_be := b\<rparr>))"

definition kread :: "('b, 'x, 'h, 'r) kenv \<Rightarrow> u64 \<Rightarrow> u64 \<Rightarrow> ('b, 'h, 'r) kernel \<Rightarrow> u8 list option" where
  "kread E a n k = MemRead (ke_B E) a n (k_be k)"

definition kwrite :: "('b, 'x, 'h, 'r) kenv \<Rightarrow> u64 \<Rightarrow> u8 list \<Rightarrow> ('b, 'h, 'r) kernel \<Rightarrow> bool \<times> ('b, 'h, 'r) kernel" where
  "kwrite E a bs k = on_be (MemWrite (ke_B E) a bs) k"

definition ret :: "u64 \<Rightarrow> ('b, 'h, 'r) kernel \<Rightarrow> ('b, 'h, 'r) result" where
  "ret v k = (Some v, k)"

subsection \<open>Slices\<close>

definition slice_bytes :: "u8 list list \<Rightarrow> slice \<Rightarrow> u8 list" where
  "slice_bytes h s = take (sl_len s) (h ! sl_arr s)"

definition new_slice :: "u8 list \<Rightarrow> u8 list list \<Rightarrow> slice \<times> u8 list list" where
  "new_slice bs h = (\<lparr>sl_arr = length h, sl_len = length bs\<rparr>, h @ [bs])"

text \<open>\<open>copy(s[i:], bs)\<close>: as many bytes as there is room for.\<close>

definition slice_put :: "slice \<Rightarrow> nat \<Rightarrow> u8 list \<Rightarrow> u8 list list \<Rightarrow> u8 list list" where
  "slice_put s i bs h =
     (let a = h ! sl_arr s; d = take (length a - i) bs in h[sl_arr s := take i a @ d @ drop (i + length d) a])"

text \<open>\<open>append\<close>: in place when the capacity, the length of the array, allows it.\<close>

definition slice_append :: "(nat \<Rightarrow> nat \<Rightarrow> nat) \<Rightarrow> slice \<Rightarrow> u8 list \<Rightarrow> u8 list list \<Rightarrow> slice \<times> u8 list list" where
  "slice_append grow s bs h =
     (let n = sl_len s + length bs; cap = length (h ! sl_arr s)
      in if n \<le> cap then (s\<lparr>sl_len := n\<rparr>, slice_put s (sl_len s) bs h)
         else (\<lparr>sl_arr = length h, sl_len = n\<rparr>,
               h @ [slice_bytes h s @ bs @ replicate (max n (grow cap n) - n) 0]))"

subsection \<open>Descriptors and the overlay\<close>

definition fdTable :: "('b, 'h, 'r) kernel \<Rightarrow> ('b, 'h, 'r) kernel" where
  "fdTable k = (case k_files k of None \<Rightarrow> k\<lparr>k_files := Some Map.empty, k_nextFd := 100\<rparr> | Some _ \<Rightarrow> k)"

definition fd_file :: "('b, 'h, 'r) kernel \<Rightarrow> u32 \<Rightarrow> open_file option" where
  "fd_file k fd = (case k_files k of None \<Rightarrow> None | Some t \<Rightarrow> t fd)"

definition set_fd :: "u32 \<Rightarrow> open_file option \<Rightarrow> ('b, 'h, 'r) kernel \<Rightarrow> ('b, 'h, 'r) kernel" where
  "set_fd fd f k = k\<lparr>k_files := map_option (\<lambda>t. t(fd := f)) (k_files k)\<rparr>"

definition wstore :: "('b, 'h, 'r) kernel \<Rightarrow> ('b, 'h, 'r) kernel" where
  "wstore k = (case k_wfiles k of None \<Rightarrow> k\<lparr>k_wfiles := Some []\<rparr> | Some _ \<Rightarrow> k)"

definition wfile :: "('b, 'h, 'r) kernel \<Rightarrow> path \<Rightarrow> slice option" where
  "wfile k p = (case k_wfiles k of None \<Rightarrow> None | Some w \<Rightarrow> map_of w p)"

text \<open>\<open>w[path]\<close>, nil when absent.\<close>

definition wslice :: "('b, 'h, 'r) kernel \<Rightarrow> path \<Rightarrow> slice" where
  "wslice k p = (case wfile k p of None \<Rightarrow> nil_slice | Some s \<Rightarrow> s)"

definition set_wfile :: "path \<Rightarrow> slice \<Rightarrow> ('b, 'h, 'r) kernel \<Rightarrow> ('b, 'h, 'r) kernel" where
  "set_wfile p s k = k\<lparr>k_wfiles := map_option (AList.update p s) (k_wfiles k)\<rparr>"

definition is_dir :: "('b, 'h, 'r) kernel \<Rightarrow> path \<Rightarrow> bool" where
  "is_dir k p = (case k_dirs k of None \<Rightarrow> False | Some d \<Rightarrow> p \<in> d)"

definition fileData :: "open_file \<Rightarrow> ('b, 'h, 'r) kernel \<Rightarrow> slice \<times> ('b, 'h, 'r) kernel" where
  "fileData f k = (if of_writable f then (let k = wstore k in (wslice k (of_path f), k)) else (of_data f, k))"

abbreviation fd32 :: "u64 \<Rightarrow> u32" where "fd32 \<equiv> ucast"

definition stdio :: "u32 \<Rightarrow> bool" where
  "stdio fd \<longleftrightarrow> 0 \<le> sint fd \<and> sint fd \<le> 2"

subsection \<open>Paths\<close>

text \<open>\<open>readCStr\<close>: at most 4096 bytes, up to the first that is zero or cannot be read.\<close>

fun cstr :: "('b, 'x, 'h, 'r) kenv \<Rightarrow> ('b, 'h, 'r) kernel \<Rightarrow> nat \<Rightarrow> u64 \<Rightarrow> string" where
  "cstr E k 0 a = []"
| "cstr E k (Suc n) a =
     (case kread E a 1 k of
        None \<Rightarrow> []
      | Some bs \<Rightarrow> if bs ! 0 = 0 then [] else char_of (unat (bs ! 0)) # cstr E k n (a + 1))"

definition readCStr :: "('b, 'x, 'h, 'r) kenv \<Rightarrow> u64 \<Rightarrow> ('b, 'h, 'r) kernel \<Rightarrow> string" where
  "readCStr E a k = cstr E k 4096 a"

definition bytes_of :: "string \<Rightarrow> u8 list" where
  "bytes_of = map of_char"

abbreviation (input) oWRONLY :: u64 where "oWRONLY \<equiv> 1"
abbreviation (input) oRDWR :: u64 where "oRDWR \<equiv> 2"
abbreviation (input) oCREAT :: u64 where "oCREAT \<equiv> 0x40"
abbreviation (input) oTRUNC :: u64 where "oTRUNC \<equiv> 0x200"
abbreviation (input) oAPPEND :: u64 where "oAPPEND \<equiv> 0x400"

subsection \<open>Files\<close>

definition sysOpenat :: "('b, 'x, 'h, 'r) kenv \<Rightarrow> args \<Rightarrow> ('b, 'h, 'r) kernel \<Rightarrow> ('b, 'h, 'r) result" where
  "sysOpenat E a k =
     (let p = readCStr E (a 1) k; flags = a 2; k = fdTable k; fd = k_nextFd k
      in if flags AND (oWRONLY OR oRDWR OR oCREAT) \<noteq> 0 then
           let k = wstore k;
               k = (if wfile k p = None \<or> flags AND oTRUNC \<noteq> 0 then set_wfile p nil_slice k else k);
               pos = (if flags AND oAPPEND \<noteq> 0 then of_nat (sl_len (wslice k p)) else 0);
               k = set_fd fd (Some \<lparr>of_path = p, of_data = nil_slice, of_pos = pos, of_writable = True\<rparr>)
                     (k\<lparr>k_nextFd := fd + 1\<rparr>)
           in ret (scast fd) k
         else
           let open_read = (\<lambda>d k. ret (scast fd)
                 (set_fd fd (Some \<lparr>of_path = p, of_data = d, of_pos = 0, of_writable = False\<rparr>) (k\<lparr>k_nextFd := fd + 1\<rparr>)))
           in case ke_vfs_Read E p of
                Some bs \<Rightarrow> (case new_slice bs (k_heap k) of (d, h) \<Rightarrow> open_read d (k\<lparr>k_heap := h\<rparr>))
              | None \<Rightarrow>
                  let k = wstore k
                  in case wfile k p of Some d \<Rightarrow> open_read d k | None \<Rightarrow> ret (- ENOENT) k)"

text \<open>Room for the bytes before \<open>e\<close>, an \<open>int64\<close>: a longer copy of the slice when it is shorter.\<close>

definition room :: "u64 \<Rightarrow> slice \<Rightarrow> u8 list list \<Rightarrow> slice \<times> u8 list list" where
  "room e cur h =
     (if int (sl_len cur) < sint e then new_slice (slice_bytes h cur @ replicate (unat e - sl_len cur) 0) h
      else (cur, h))"

text \<open>The overlay part of \<open>sysWrite\<close>: a negative offset or end is a slice panic.\<close>

definition write_file :: "u32 \<Rightarrow> open_file \<Rightarrow> u8 list \<Rightarrow> ('b, 'h, 'r) kernel \<Rightarrow> ('b, 'h, 'r) result" where
  "write_file fd f d k =
     (let k = wstore k; e = of_pos f + of_nat (length d); (cur, h) = room e (wslice k (of_path f)) (k_heap k)
      in if sint (of_pos f) < 0 \<or> sint e < sint (of_pos f) \<or> sint e > int (length (h ! sl_arr cur)) then (None, k\<lparr>k_heap := h\<rparr>)
         else
           let k = set_wfile (of_path f) cur (k\<lparr>k_heap := slice_put cur (unat (of_pos f)) d h\<rparr>)
           in ret (of_nat (length d)) (set_fd fd (Some (f\<lparr>of_pos := e\<rparr>)) k))"

definition sysWrite :: "('b, 'x, 'h, 'r) kenv \<Rightarrow> args \<Rightarrow> ('b, 'h, 'r) kernel \<Rightarrow> ('b, 'h, 'r) result" where
  "sysWrite E a k =
     (let fd = fd32 (a 0); k = fdTable k
      in case fd_file k fd of
           Some f \<Rightarrow>
             if of_writable f then
               (case kread E (a 1) (a 2) k of None \<Rightarrow> ret (- EBADF) k | Some d \<Rightarrow> write_file fd f d k)
             else if \<not> stdio fd then ret (- EBADF) k else ret (a 2) k
         | None \<Rightarrow> if \<not> stdio fd then ret (- EBADF) k else ret (a 2) k)"

text \<open>
  The loop of \<open>sysWritev\<close> over the entries still to do; \<open>fd\<close>'s file is the one looked up before the loop.
\<close>

fun writev_loop ::
  "('b, 'x, 'h, 'r) kenv \<Rightarrow> u32 \<Rightarrow> u64 \<Rightarrow> u64 list \<Rightarrow> u64 \<Rightarrow> ('b, 'h, 'r) kernel \<Rightarrow> ('b, 'h, 'r) result" where
  "writev_loop E fd iov [] tot k = ret tot k"
| "writev_loop E fd iov (i # is') tot k =
     (case kread E (iov + i * 16) 16 k of
        None \<Rightarrow> ret tot k
      | Some ent \<Rightarrow>
          let base = le_val (take 8 ent); ln = le_val (take 8 (drop 8 ent))
          in if ln = 0 \<or> ln \<ge> 0x10000 then writev_loop E fd iov is' tot k
             else case kread E base ln k of
                 None \<Rightarrow> writev_loop E fd iov is' tot k
               | Some d \<Rightarrow>
                   (case fd_file k fd of
                      Some f \<Rightarrow>
                        if of_writable f then
                          let k = wstore k;
                              (s, h) = slice_append (ke_grow E) (wslice k (of_path f)) d (k_heap k);
                              k = set_wfile (of_path f) s (k\<lparr>k_heap := h\<rparr>);
                              k = set_fd fd (Some (f\<lparr>of_pos := of_pos f + of_nat (length d)\<rparr>)) k
                          in writev_loop E fd iov is' (tot + ln) k
                        else writev_loop E fd iov is' (tot + ln) k
                    | None \<Rightarrow> writev_loop E fd iov is' (tot + ln) k))"

definition sysWritev :: "('b, 'x, 'h, 'r) kenv \<Rightarrow> args \<Rightarrow> ('b, 'h, 'r) kernel \<Rightarrow> ('b, 'h, 'r) result" where
  "sysWritev E a k =
     writev_loop E (fd32 (a 0)) (a 1) (map of_nat [0..<min (unat (a 2)) 64]) 0 (fdTable k)"

text \<open>How much of the file is left from the position, at most what was asked for.\<close>

definition read_count :: "slice \<Rightarrow> open_file \<Rightarrow> u64 \<Rightarrow> u64" where
  "read_count data f n =
     (let rem = of_nat (sl_len data) - of_pos f in if sint n > sint rem then rem else n)"

definition read_at ::
  "('b, 'x, 'h, 'r) kenv \<Rightarrow> u32 \<Rightarrow> open_file \<Rightarrow> slice \<Rightarrow> u64 \<Rightarrow> u64 \<Rightarrow> ('b, 'h, 'r) kernel \<Rightarrow> ('b, 'h, 'r) result" where
  "read_at E fd f data buf n k =
     (if sint n \<le> 0 then ret 0 k
      else if sint (of_pos f) < 0 \<or> sint (of_pos f + n) < sint (of_pos f) then (None, k)
      else let d = take (unat n) (drop (unat (of_pos f)) (slice_bytes (k_heap k) data))
           in case kwrite E buf d k of
                (False, k) \<Rightarrow> ret (- EFAULT) k
              | (True, k) \<Rightarrow> ret n (set_fd fd (Some (f\<lparr>of_pos := of_pos f + n\<rparr>)) k))"

definition sysRead :: "('b, 'x, 'h, 'r) kenv \<Rightarrow> args \<Rightarrow> ('b, 'h, 'r) kernel \<Rightarrow> ('b, 'h, 'r) result" where
  "sysRead E a k =
     (let fd = fd32 (a 0); k = fdTable k
      in case fd_file k fd of
           None \<Rightarrow> ret (- EBADF) k
         | Some f \<Rightarrow> (case fileData f k of (data, k) \<Rightarrow> read_at E fd f data (a 1) (read_count data f (a 2)) k))"

definition sysClose :: "args \<Rightarrow> ('b, 'h, 'r) kernel \<Rightarrow> ('b, 'h, 'r) result" where
  "sysClose a k =
     (let fd = fd32 (a 0); k = fdTable k
      in if \<not> stdio fd \<and> fd_file k fd = None then ret (- EBADF) k else ret 0 (set_fd fd None k))"

definition sysMkdirat :: "('b, 'x, 'h, 'r) kenv \<Rightarrow> args \<Rightarrow> ('b, 'h, 'r) kernel \<Rightarrow> ('b, 'h, 'r) result" where
  "sysMkdirat E a k =
     ret 0 (k\<lparr>k_dirs := Some (insert (readCStr E (a 1) k) (case k_dirs k of None \<Rightarrow> {} | Some d \<Rightarrow> d))\<rparr>)"

definition sysLseek :: "args \<Rightarrow> ('b, 'h, 'r) kernel \<Rightarrow> ('b, 'h, 'r) result" where
  "sysLseek a k =
     (let fd = fd32 (a 0); k = fdTable k
      in case fd_file k fd of
           None \<Rightarrow> ret (- EBADF) k
         | Some f \<Rightarrow>
             let (pos, k) = (if a 2 = 0 then (a 1, k)
                             else if a 2 = 1 then (of_pos f + a 1, k)
                             else if a 2 = 2 then (case fileData f k of (d, k) \<Rightarrow> (of_nat (sl_len d) + a 1, k))
                             else (of_pos f, k))
             in ret pos (set_fd fd (Some (f\<lparr>of_pos := pos\<rparr>)) k))"

definition sysFaccessat :: "('b, 'x, 'h, 'r) kenv \<Rightarrow> args \<Rightarrow> ('b, 'h, 'r) kernel \<Rightarrow> ('b, 'h, 'r) result" where
  "sysFaccessat E a k =
     (let p = readCStr E (a 1) k
      in if ke_vfs_Exists E p \<or> is_dir k p then ret 0 k
         else let k = wstore k in if wfile k p \<noteq> None then ret 0 k else ret (- ENOENT) k)"

end
