(* ===== verification/Kernel.thy ===== *)
theory Kernel
  imports Kernel_Files
begin

text \<open>
  The rest of internal/kernel/syscall.go: stat structures, memory, time, entropy, the small calls, the
  table, \<open>Dispatch\<close>, \<open>Snapshot\<close> and \<open>Restore\<close>.
\<close>

subsection \<open>Structures written to the guest\<close>

text \<open>The \<open>Put\<close> functions of encoding/binary, at an offset inside the buffer.\<close>

definition poke :: "nat \<Rightarrow> u8 list \<Rightarrow> u8 list \<Rightarrow> u8 list" where
  "poke off bs buf = take off buf @ bs @ drop (off + length bs) buf"

lemma length_poke [simp]: "off + length bs \<le> length buf \<Longrightarrow> length (poke off bs buf) = length buf"
  by (simp add: poke_def)

definition zeros :: "nat \<Rightarrow> u8 list" where
  "zeros n = replicate n 0"

lemma length_zeros [simp]: "length (zeros n) = n"
  by (simp add: zeros_def)

definition fnv_step :: "u64 \<Rightarrow> char \<Rightarrow> u64" where
  "fnv_step h c = (h XOR of_char c) * 1099511628211"

definition inoFor :: "string \<Rightarrow> u64" where
  "inoFor p = (let h = foldl fnv_step 1469598103934665603 p in if h = 0 then 1 else h)"

definition blocks :: "u64 \<Rightarrow> u64" where
  "blocks n = (n + 511) div 512"

definition stat_bytes :: "u64 \<Rightarrow> u32 \<Rightarrow> u64 \<Rightarrow> u8 list" where
  "stat_bytes n mode ino =
     poke 64 (le_bytes 8 (blocks n)) (poke 56 (le_bytes 4 0x1000) (poke 48 (le_bytes 8 n)
       (poke 20 (le_bytes 4 1) (poke 16 (le_bytes 4 (ucast mode)) (poke 8 (le_bytes 8 ino)
         (poke 0 (le_bytes 8 1) (zeros 128)))))))"

definition writeStatMode ::
  "('b, 'x, 'h, 'r) kenv \<Rightarrow> u64 \<Rightarrow> u64 \<Rightarrow> u32 \<Rightarrow> u64 \<Rightarrow> ('b, 'h, 'r) kernel \<Rightarrow> ('b, 'h, 'r) kernel" where
  "writeStatMode E addr n mode ino k = snd (kwrite E addr (stat_bytes n mode ino) k)"

definition writeStat ::
  "('b, 'x, 'h, 'r) kenv \<Rightarrow> u64 \<Rightarrow> u64 \<Rightarrow> bool \<Rightarrow> path \<Rightarrow> ('b, 'h, 'r) kernel \<Rightarrow> ('b, 'h, 'r) kernel" where
  "writeStat E addr n isDir p k = writeStatMode E addr n (if isDir then 0x41ed else 0x81a4) (inoFor p) k"

definition sysFstat :: "('b, 'x, 'h, 'r) kenv \<Rightarrow> args \<Rightarrow> ('b, 'h, 'r) kernel \<Rightarrow> ('b, 'h, 'r) result" where
  "sysFstat E a k =
     (let fd = fd32 (a 0); k = fdTable k
      in case fd_file k fd of
           None \<Rightarrow> if stdio fd then ret 0 (writeStatMode E (a 1) 0 0x2190 (scast fd + 1) k) else ret (- EBADF) k
         | Some f \<Rightarrow> (case fileData f k of (d, k) \<Rightarrow> ret 0 (writeStat E (a 1) (of_nat (sl_len d)) False (of_path f) k)))"

text \<open>The size of a plain file, \<open>None\<close> for -1: the file system first, then the overlay.\<close>

definition file_size ::
  "('b, 'x, 'h, 'r) kenv \<Rightarrow> path \<Rightarrow> ('b, 'h, 'r) kernel \<Rightarrow> u64 option \<times> ('b, 'h, 'r) kernel" where
  "file_size E p k =
     (case ke_vfs_Read E p of
        Some bs \<Rightarrow> (Some (of_nat (length bs)), k)
      | None \<Rightarrow> let k = wstore k in (map_option (\<lambda>s. of_nat (sl_len s)) (wfile k p), k))"

definition sysNewfstatat :: "('b, 'x, 'h, 'r) kenv \<Rightarrow> args \<Rightarrow> ('b, 'h, 'r) kernel \<Rightarrow> ('b, 'h, 'r) result" where
  "sysNewfstatat E a k =
     (let p = readCStr E (a 1) k
      in if is_dir k p then ret 0 (writeStat E (a 2) 4096 True p k)
         else case file_size E p k of
             (None, k) \<Rightarrow> ret (- ENOENT) k
           | (Some n, k) \<Rightarrow> ret 0 (writeStat E (a 2) n False p k))"

definition statx_bytes :: "u64 \<Rightarrow> bool \<Rightarrow> u8 list" where
  "statx_bytes n isDir =
     poke 48 (le_bytes 8 (blocks n)) (poke 40 (le_bytes 8 n)
       (poke 28 (le_bytes 2 (if isDir then 0x41ed else 0x81a4)) (poke 16 (le_bytes 4 1)
         (poke 4 (le_bytes 4 0x1000) (poke 0 (le_bytes 4 0x7ff) (zeros 256))))))"

definition sysStatx :: "('b, 'x, 'h, 'r) kenv \<Rightarrow> args \<Rightarrow> ('b, 'h, 'r) kernel \<Rightarrow> ('b, 'h, 'r) result" where
  "sysStatx E a k =
     (let p = readCStr E (a 1) k; isDir = is_dir k p
      in case (if isDir then (Some 4096, k) else file_size E p k) of
           (None, k) \<Rightarrow> ret (- ENOENT) k
         | (Some n, k) \<Rightarrow> ret 0 (snd (kwrite E (a 4) (statx_bytes n isDir) k)))"

subsection \<open>Memory\<close>

abbreviation (input) mapFixed :: u64 where "mapFixed \<equiv> 0x10"

text \<open>Where the mapping goes: at the hint, replacing what is there, or at the allocator's cursor.\<close>

definition mmap_place :: "('b, 'x, 'h, 'r) kenv \<Rightarrow> args \<Rightarrow> ('b, 'h, 'r) kernel \<Rightarrow> u64 \<times> ('b, 'h, 'r) kernel" where
  "mmap_place E a k =
     (let hint = a 0; len = pageUp (a 1); prot = a 2; flags = a 3
      in if flags AND mapFixed \<noteq> 0 \<and> hint \<noteq> 0 then
           let addr = pageDown hint; s = Munmap addr len (k_mem k);
               s = snd (space_Map addr len (sint prot) ''mmap-fixed'' s)
           in (addr, snd (on_be (MemUnmap (ke_B E) addr len) (k\<lparr>k_mem := s\<rparr>)))
         else (case Mmap len (sint prot) ''mmap'' (k_mem k) of (addr, s) \<Rightarrow> (addr, k\<lparr>k_mem := s\<rparr>)))"

definition sysMmap :: "('b, 'x, 'h, 'r) kenv \<Rightarrow> args \<Rightarrow> ('b, 'h, 'r) kernel \<Rightarrow> ('b, 'h, 'r) result" where
  "sysMmap E a k =
     (case mmap_place E a k of (addr, k) \<Rightarrow>
        (case on_be (MemMap (ke_B E) addr (pageUp (a 1)) (a 2 OR ProtRead)) k of
           (False, k) \<Rightarrow> ret (- ENOSYS) k
         | (True, k) \<Rightarrow> ret addr k))"

definition sysMunmap :: "('b, 'x, 'h, 'r) kenv \<Rightarrow> args \<Rightarrow> ('b, 'h, 'r) kernel \<Rightarrow> ('b, 'h, 'r) result" where
  "sysMunmap E a k =
     ret 0 (snd (on_be (MemUnmap (ke_B E) (a 0) (pageUp (a 1))) (k\<lparr>k_mem := Munmap (a 0) (a 1) (k_mem k)\<rparr>)))"

definition sysMprotect :: "('b, 'x, 'h, 'r) kenv \<Rightarrow> args \<Rightarrow> ('b, 'h, 'r) kernel \<Rightarrow> ('b, 'h, 'r) result" where
  "sysMprotect E a k =
     (let k = k\<lparr>k_mem := snd (space_Protect (a 0) (a 1) (sint (a 2)) (k_mem k))\<rparr>
      in case on_be (MemProtect (ke_B E) (pageDown (a 0)) (pageUp (a 1)) (a 2)) k of
           (False, k) \<Rightarrow> ret (- EPERM) k
         | (True, k) \<Rightarrow> ret 0 k)"

definition brk_set :: "('b, 'x, 'h, 'r) kenv \<Rightarrow> u64 \<Rightarrow> ('b, 'h, 'r) kernel \<Rightarrow> ('b, 'h, 'r) result" where
  "brk_set E want k =
     (let hi = pageUp want; lo = pageUp (k_brkCur k)
      in if hi > lo then
           (case on_be (MemMap (ke_B E) lo (hi - lo) (ProtRead OR ProtWrite)) k of
              (False, k) \<Rightarrow> ret (k_brkCur k) k
            | (True, k) \<Rightarrow> ret want (k\<lparr>k_brkCur := want\<rparr>))
         else ret want (k\<lparr>k_brkCur := want\<rparr>))"

definition sysBrk :: "('b, 'x, 'h, 'r) kenv \<Rightarrow> args \<Rightarrow> ('b, 'h, 'r) kernel \<Rightarrow> ('b, 'h, 'r) result" where
  "sysBrk E a k =
     (let k = (if k_brkCur k = 0 then k\<lparr>k_brkCur := BrkBase\<rparr> else k); want = a 0
      in if want = 0 \<or> want < BrkBase then ret (k_brkCur k) k else brk_set E want k)"

definition brkTopOf :: "u64 \<Rightarrow> u64" where
  "brkTopOf cur = (if cur > BrkBase then pageUp cur else BrkBase)"

definition BrkTop :: "('b, 'h, 'r) kernel \<Rightarrow> u64" where
  "BrkTop k = brkTopOf (k_brkCur k)"

subsection \<open>Time and entropy\<close>

definition nowTime :: "('b, 'x, 'h, 'r) kenv \<Rightarrow> ('b, 'h, 'r) kernel \<Rightarrow> (u64 \<times> u64) \<times> ('b, 'h, 'r) kernel" where
  "nowTime E k =
     (if ke_Epoch E \<noteq> 0 then ((ke_Epoch E, 0), k)
      else case ke_now E (k_host k) of (t, h) \<Rightarrow> (t, k\<lparr>k_host := h\<rparr>))"

definition sysClockGettime :: "('b, 'x, 'h, 'r) kenv \<Rightarrow> args \<Rightarrow> ('b, 'h, 'r) kernel \<Rightarrow> ('b, 'h, 'r) result" where
  "sysClockGettime E a k =
     (case nowTime E k of ((sec, nsec), k) \<Rightarrow> ret 0 (snd (kwrite E (a 1) (le_bytes 8 sec @ le_bytes 8 nsec) k)))"

definition sysGettimeofday :: "('b, 'x, 'h, 'r) kenv \<Rightarrow> args \<Rightarrow> ('b, 'h, 'r) kernel \<Rightarrow> ('b, 'h, 'r) result" where
  "sysGettimeofday E a k =
     (case nowTime E k of ((sec, nsec), k) \<Rightarrow>
        ret 0 (snd (kwrite E (a 0) (le_bytes 8 sec @ le_bytes 8 (nsec div 1000)) k)))"

definition randRead ::
  "('b, 'x, 'h, 'r) kenv \<Rightarrow> nat \<Rightarrow> ('b, 'h, 'r) kernel \<Rightarrow> u8 list option \<times> ('b, 'h, 'r) kernel" where
  "randRead E n k =
     (if ke_RandSeed E = 0 then 
       (case ke_entropy E (k_host k) n of (r, h) \<Rightarrow> (map_option (\<lambda>f. map f [0..<n]) r, k\<lparr>k_host := h\<rparr>))
      else
        let r0 = (case k_rng k of None \<Rightarrow> ke_NewChaCha8 E (poke 0 (le_bytes 8 (ke_RandSeed E)) (zeros 32)) | Some r \<Rightarrow> r);
            (f, r1) = ke_chacha_Read E r0 n
        in (Some (map f [0..<n]), k\<lparr>k_rng := Some r1\<rparr>))"

text \<open>\<open>filled\<close> of the \<open>n\<close> bytes are already written; the chunk is what is left, at most 4096.\<close>

function getrandom_loop ::
  "('b, 'x, 'h, 'r) kenv \<Rightarrow> u64 \<Rightarrow> nat \<Rightarrow> nat \<Rightarrow> ('b, 'h, 'r) kernel \<Rightarrow> ('b, 'h, 'r) result" where
  "getrandom_loop E dst n filled k =
     (if \<not> filled < n then ret (of_nat filled) k
      else
        let len = min (n - filled) (min n 4096)
        in case randRead E len k of
             (None, k) \<Rightarrow> ret (if filled = 0 then - EINVAL else of_nat filled) k
           | (Some bs, k) \<Rightarrow>
               (case kwrite E (dst + of_nat filled) bs k of
                  (False, k) \<Rightarrow> ret (if filled = 0 then - EFAULT else of_nat filled) k
                | (True, k) \<Rightarrow> getrandom_loop E dst n (filled + len) k))"
  by pat_completeness auto
termination
  by (relation "measure (\<lambda>(E, dst, n, filled, k). n - filled)") auto

declare getrandom_loop.simps [simp del]

definition sysGetrandom :: "('b, 'x, 'h, 'r) kenv \<Rightarrow> args \<Rightarrow> ('b, 'h, 'r) kernel \<Rightarrow> ('b, 'h, 'r) result" where
  "sysGetrandom E a k = getrandom_loop E (a 0) (unat (if a 1 > maxRWLen then maxRWLen else a 1)) 0 k"

subsection \<open>Small calls\<close>

definition sysExit :: "('b, 'x, 'h, 'r) kenv \<Rightarrow> args \<Rightarrow> ('b, 'h, 'r) kernel \<Rightarrow> ('b, 'h, 'r) result" where
  "sysExit E a k = ret 0 (k\<lparr>k_Exited := True, k_ExitCode := ucast (a 0), k_be := StopRun (ke_B E) (k_be k)\<rparr>)"

definition uname_bytes :: "u8 list" where
  "uname_bytes =
     fold (\<lambda>(i, s). poke (i * 65) (bytes_of s))
       [(0, ''Linux''), (1, ''localhost''), (2, ''4.14.117-gonidbg''), (3, ''#1 SMP PREEMPT''), (4, ''aarch64''),
        (5, ''localdomain'')] (zeros (6 * 65))"

definition sysUname :: "('b, 'x, 'h, 'r) kenv \<Rightarrow> args \<Rightarrow> ('b, 'h, 'r) kernel \<Rightarrow> ('b, 'h, 'r) result" where
  "sysUname E a k = ret 0 (snd (kwrite E (a 0) uname_bytes k))"

definition sysinfo_bytes :: "u8 list" where
  "sysinfo_bytes =
     poke 104 (le_bytes 4 1) (poke 80 (le_bytes 2 64) (poke 40 (le_bytes 8 0x80000000)
       (poke 32 (le_bytes 8 0x100000000) (poke 0 (le_bytes 8 1000) (zeros 112)))))"

definition sysSysinfo :: "('b, 'x, 'h, 'r) kenv \<Rightarrow> args \<Rightarrow> ('b, 'h, 'r) kernel \<Rightarrow> ('b, 'h, 'r) result" where
  "sysSysinfo E a k = ret 0 (snd (kwrite E (a 0) sysinfo_bytes k))"

definition readlink_target :: "path \<Rightarrow> string option" where
  "readlink_target p =
     (if p = ''/proc/self/exe'' then Some ''/system/bin/app_process64''
      else if p = ''/proc/self/cwd'' then Some ''/'' else None)"

definition sysReadlinkat :: "('b, 'x, 'h, 'r) kenv \<Rightarrow> args \<Rightarrow> ('b, 'h, 'r) kernel \<Rightarrow> ('b, 'h, 'r) result" where
  "sysReadlinkat E a k =
     (case readlink_target (readCStr E (a 1) k) of
        None \<Rightarrow> ret (- ENOENT) k
      | Some t \<Rightarrow>
          let n = min (length t) (unat (a 3))
          in ret (of_nat n) (snd (kwrite E (a 2) (take n (bytes_of t)) k)))"

definition sysGetcwd :: "('b, 'x, 'h, 'r) kenv \<Rightarrow> args \<Rightarrow> ('b, 'h, 'r) kernel \<Rightarrow> ('b, 'h, 'r) result" where
  "sysGetcwd E a k =
     (let cwd = bytes_of ''/'' @ [0]
      in if 2 > a 1 then ret (- ERANGE) k else ret 2 (snd (kwrite E (a 0) cwd k)))"

definition rlimit :: "u64 \<Rightarrow> u64 \<times> u64" where
  "rlimit r = (if r = 3 then (0x800000, 0x800000) else if r = 7 then (1024, 4096) else (- 1, - 1))"

definition sysPrlimit64 :: "('b, 'x, 'h, 'r) kenv \<Rightarrow> args \<Rightarrow> ('b, 'h, 'r) kernel \<Rightarrow> ('b, 'h, 'r) result" where
  "sysPrlimit64 E a k =
     ret 0 (if a 3 \<noteq> 0 then case rlimit (a 1) of (cur, mx) \<Rightarrow> snd (kwrite E (a 3) (le_bytes 8 cur @ le_bytes 8 mx) k)
            else k)"

definition sysSchedGetaffinity :: "('b, 'x, 'h, 'r) kenv \<Rightarrow> args \<Rightarrow> ('b, 'h, 'r) kernel \<Rightarrow> ('b, 'h, 'r) result" where
  "sysSchedGetaffinity E a k =
     (if a 1 = 0 then ret (- EINVAL) k
      else let n = (if a 1 > 8 then 8 else a 1)
           in ret n (snd (kwrite E (a 2) (0xff # zeros (unat n - 1)) k)))"

text \<open>Handlers that answer with a constant: \<open>futex\<close>, \<open>ioctl\<close> and \<open>getdents64\<close> among them.\<close>

definition const_ret :: "u64 \<Rightarrow> ('b, 'h, 'r) kernel \<Rightarrow> ('b, 'h, 'r) result" where
  "const_ret v k = ret v k"

subsection \<open>The table\<close>

type_synonym ('b, 'h, 'r) sys_handler = "args \<Rightarrow> ('b, 'h, 'r) kernel \<Rightarrow> ('b, 'h, 'r) result"

definition table_pairs :: "('b, 'x, 'h, 'r) kenv \<Rightarrow> (u64 \<times> ('b, 'h, 'r) sys_handler) list" where
  "table_pairs E =
     [(172, \<lambda>_. const_ret (ke_Pid E)), (173, \<lambda>_. const_ret 1), (178, \<lambda>_. const_ret (ke_Pid E)),
      (174, \<lambda>_. const_ret 10000), (175, \<lambda>_. const_ret 10000), (124, \<lambda>_. const_ret 0),
      (96, \<lambda>_. const_ret (ke_Pid E)), (99, \<lambda>_. const_ret 0), (134, \<lambda>_. const_ret 0), (135, \<lambda>_. const_ret 0),
      (167, \<lambda>_. const_ret 0), (233, \<lambda>_. const_ret 0),
      (222, sysMmap E), (215, sysMunmap E), (226, sysMprotect E), (93, sysExit E), (94, sysExit E),
      (214, sysBrk E), (56, sysOpenat E), (57, sysClose), (63, sysRead E), (64, sysWrite E), (66, sysWritev E),
      (78, sysReadlinkat E), (79, sysNewfstatat E), (80, sysFstat E), (48, sysFaccessat E), (34, sysMkdirat E),
      (62, sysLseek), (17, sysGetcwd E), (61, \<lambda>_. const_ret 0), (113, sysClockGettime E),
      (169, sysGettimeofday E), (160, sysUname E), (179, sysSysinfo E), (278, sysGetrandom E),
      (261, sysPrlimit64 E), (98, \<lambda>_. const_ret 0), (29, \<lambda>_. const_ret 0), (291, sysStatx E),
      (123, sysSchedGetaffinity E)]"

definition syscall :: "('b, 'x, 'h, 'r) kenv \<Rightarrow> u64 \<Rightarrow> ('b, 'h, 'r) sys_handler" where
  "syscall E num a k = (case map_of (table_pairs E) num of None \<Rightarrow> ret (- ENOSYS) k | Some h \<Rightarrow> h a k)"

text \<open>\<open>False\<close> when the handler panics: x0 is not written then.\<close>

definition reg_or_zero :: "('b, 'x, 'h, 'r) kenv \<Rightarrow> nat \<Rightarrow> ('b, 'h, 'r) kernel \<Rightarrow> u64" where
  "reg_or_zero E r k = (case RegRead (ke_B E) r (k_be k) of None \<Rightarrow> 0 | Some v \<Rightarrow> v)"

definition Dispatch :: "('b, 'x, 'h, 'r) kenv \<Rightarrow> ('b, 'h, 'r) kernel \<Rightarrow> bool \<times> ('b, 'h, 'r) kernel" where
  "Dispatch E k =
     (let a = (\<lambda>i. if i < 6 then reg_or_zero E i k else 0)
      in case syscall E (reg_or_zero E 8 k) a k of
           (None, k) \<Rightarrow> (False, k)
         | (Some v, k) \<Rightarrow> (True, snd (on_be (RegWrite (ke_B E) 0 v) k)))"

subsection \<open>Snapshot and Restore\<close>

record 'r kstate =
  st_brkCur :: u64
  st_exited :: bool
  st_exitCode :: u32
  st_nextFd :: u32
  st_files :: "(u32 \<rightharpoonup> open_file) option"
  st_wfiles :: "(path \<times> slice) list option"
  st_dirs :: "path set option"
  st_rng :: "'r option"

text \<open>\<open>append([]byte(nil), v...)\<close> for every overlay file; the arrays are fresh.\<close>

fun copy_wfiles :: "(nat \<Rightarrow> nat \<Rightarrow> nat) \<Rightarrow> (path \<times> slice) list \<Rightarrow> u8 list list \<Rightarrow> (path \<times> slice) list \<times> u8 list list" where
  "copy_wfiles grow [] h = ([], h)"
| "copy_wfiles grow ((p, s) # w) h =
     (let (s', h) = slice_append grow nil_slice (slice_bytes h s) h; (w', h) = copy_wfiles grow w h in ((p, s') # w', h))"

definition copyWfiles ::
  "(nat \<Rightarrow> nat \<Rightarrow> nat) \<Rightarrow> (path \<times> slice) list option \<Rightarrow> u8 list list \<Rightarrow> (path \<times> slice) list option \<times> u8 list list" where
  "copyWfiles grow w h = (case w of None \<Rightarrow> (None, h) | Some w \<Rightarrow> (case copy_wfiles grow w h of (w', h) \<Rightarrow> (Some w', h)))"

definition kSnapshot :: "('b, 'x, 'h, 'r) kenv \<Rightarrow> ('b, 'h, 'r) kernel \<Rightarrow> 'r kstate \<times> ('b, 'h, 'r) kernel" where
  "kSnapshot E k =
     (case copyWfiles (ke_grow E) (k_wfiles k) (k_heap k) of (w, h) \<Rightarrow>
        (\<lparr>st_brkCur = k_brkCur k, st_exited = k_Exited k, st_exitCode = k_ExitCode k, st_nextFd = k_nextFd k,
          st_files = k_files k, st_wfiles = w, st_dirs = k_dirs k, st_rng = k_rng k\<rparr>, k\<lparr>k_heap := h\<rparr>))"

definition kRestore :: "('b, 'x, 'h, 'r) kenv \<Rightarrow> 'r kstate \<Rightarrow> ('b, 'h, 'r) kernel \<Rightarrow> ('b, 'h, 'r) kernel" where
  "kRestore E st k =
     (let cur = BrkTop k; tgt = brkTopOf (st_brkCur st);
          k = (if cur > tgt then snd (on_be (MemUnmap (ke_B E) tgt (cur - tgt)) k) else k);
          (w, h) = copyWfiles (ke_grow E) (st_wfiles st) (k_heap k);
          rng = (case st_rng st of None \<Rightarrow> None | Some r \<Rightarrow> (if k_rng k = None then None else Some r))
      in k\<lparr>k_brkCur := st_brkCur st, k_Exited := st_exited st, k_ExitCode := st_exitCode st,
           k_nextFd := st_nextFd st, k_files := st_files st, k_wfiles := w, k_heap := h,
           k_dirs := st_dirs st, k_rng := rng\<rparr>)"

end
