(* ===== verification/Vfs.thy ===== *)
theory Vfs
  imports Kernel
begin

text \<open>
  The guest-visible file system (internal/vfs/vfs.go). \<open>Clean\<close>, \<open>Base\<close> and \<open>Join\<close> are the functions of
  the standard packages path and path/filepath on a host whose separator is a slash, given by the
  components of a path. A generator of \<open>synth\<close> is one of the closures the code stores; the host's
  \<open>os.ReadFile\<close> and \<open>os.Stat\<close> are parameters.
\<close>

subsection \<open>Paths\<close>

abbreviation slash :: char where "slash \<equiv> CHR ''/''"
abbreviation backslash :: char where "backslash \<equiv> CHR 0x5C"

text \<open>\<open>comps\<close> splits at every slash; \<open>unsplit\<close> puts the slashes back.\<close>

fun comps :: "string \<Rightarrow> string list" where
  "comps [] = [[]]"
| "comps (c # s) = (if c = slash then [] # comps s else (c # hd (comps s)) # tl (comps s))"

fun unsplit :: "string list \<Rightarrow> string" where
  "unsplit [] = []"
| "unsplit [w] = w"
| "unsplit (w # ws) = w @ slash # unsplit ws"

definition rooted :: "string \<Rightarrow> bool" where
  "rooted p \<longleftrightarrow> p \<noteq> [] \<and> hd p = slash"

text \<open>
  The components kept, last one first: empty ones and dots go, \<open>..\<close> takes the one before it away, stays at
  the front of a relative path and goes at the front of a rooted one.
\<close>

fun clean_step :: "bool \<Rightarrow> string \<Rightarrow> string list \<Rightarrow> string list" where
  "clean_step r c st =
     (if c = [] \<or> c = ''.'' then st
      else if c = ''..'' then (if st \<noteq> [] \<and> hd st \<noteq> ''..'' then tl st else if r then st else c # st)
      else c # st)"

definition clean_comps :: "bool \<Rightarrow> string list \<Rightarrow> string list" where
  "clean_comps r ws = rev (fold (clean_step r) ws [])"

definition Clean :: "string \<Rightarrow> string" where
  "Clean p = (let ws = clean_comps (rooted p) (comps p)
     in if rooted p then slash # unsplit ws else if ws = [] then ''.'' else unsplit ws)"

text \<open>The last component without trailing slashes.\<close>

definition Base :: "string \<Rightarrow> string" where
  "Base p = (if p = [] then ''.''
     else let q = rev (dropWhile (\<lambda>c. c = slash) (rev p)) in if q = [] then [slash] else last (comps q))"

definition Join :: "string list \<Rightarrow> string" where
  "Join ws = (let ws = filter (\<lambda>w. w \<noteq> []) ws in if ws = [] then [] else Clean (unsplit ws))"

definition HasPrefix :: "string \<Rightarrow> string \<Rightarrow> bool" where
  "HasPrefix s p \<longleftrightarrow> take (length p) s = p"

text \<open>\<open>%d\<close>\<close>

fun digits :: "nat \<Rightarrow> string" where
  "digits n = (if n < 10 then [char_of (48 + n)] else digits (n div 10) @ [char_of (48 + n mod 10)])"

declare digits.simps [simp del]

definition format_d :: "int \<Rightarrow> string" where
  "format_d i = (if i < 0 then CHR ''-'' # digits (nat (- i)) else digits (nat i))"

subsection \<open>The file system\<close>

datatype generator = Cmdline | Status | Content "u8 list"

record vfs =
  v_assetRoot :: string
  v_synth :: "string \<rightharpoonup> generator"
  v_pid :: int
  v_procName :: string
  v_fallback :: "(string \<Rightarrow> u8 list option option) option"

text \<open>
  The answer of the fallback: \<open>None\<close> is ``not mine'', \<open>Some None\<close> an error, \<open>Some (Some bs)\<close> the contents.
\<close>

record host_fs =
  ReadFile :: "string \<Rightarrow> u8 list option"
  StatOk :: "string \<Rightarrow> bool"

definition SetFallback :: "(string \<Rightarrow> u8 list option option) option \<Rightarrow> vfs \<Rightarrow> vfs" where
  "SetFallback fn v = v\<lparr>v_fallback := fn\<rparr>"

definition comm :: "string \<Rightarrow> string" where
  "comm p = (if length p > 15 then drop (length p - 15) p else p)"

abbreviation tab :: char where "tab \<equiv> CHR 0x09"
abbreviation nl :: char where "nl \<equiv> CHR 0x0A"

definition status_text :: "vfs \<Rightarrow> string" where
  "status_text v = ''Name:'' @ [tab] @ comm (v_procName v) @ [nl] @ ''Pid:'' @ [tab] @ format_d (v_pid v) @ [nl] @
     ''PPid:'' @ [tab] @ ''1'' @ [nl] @ ''TracerPid:'' @ [tab] @ ''0'' @ [nl] @
     ''Uid:'' @ [tab] @ ''10000'' @ [tab] @ ''10000'' @ [tab] @ ''10000'' @ [tab] @ ''10000'' @ [nl]"

fun generate :: "vfs \<Rightarrow> generator \<Rightarrow> u8 list" where
  "generate v Cmdline = bytes_of (v_procName v) @ [0]"
| "generate v Status = bytes_of (status_text v)"
| "generate v (Content bs) = bs"

definition registerSynthetic :: "vfs \<Rightarrow> vfs" where
  "registerSynthetic v = v\<lparr>v_synth := (v_synth v)
     (''/proc/self/cmdline'' \<mapsto> Cmdline, ''/proc/self/status'' \<mapsto> Status, ''/proc/self/maps'' \<mapsto> Content [],
      ''/proc/self/auxv'' \<mapsto> Content [],
      ''/proc/sys/kernel/random/boot_id'' \<mapsto> Content (bytes_of (''00000000-0000-0000-0000-000000000000'' @ [nl])))\<rparr>"

definition vfs_New :: "string \<Rightarrow> int \<Rightarrow> string \<Rightarrow> vfs" where
  "vfs_New assetRoot pid procName = registerSynthetic
     \<lparr>v_assetRoot = assetRoot, v_synth = Map.empty, v_pid = pid,
      v_procName = (if procName = '''' then ''com.gonidbg.app'' else procName), v_fallback = None\<rparr>"

definition SetMaps :: "string \<Rightarrow> vfs \<Rightarrow> vfs" where
  "SetMaps content v = v\<lparr>v_synth := (v_synth v)(''/proc/self/maps'' \<mapsto> Content (bytes_of content))\<rparr>"

definition assetBase :: "string \<Rightarrow> string" where
  "assetBase guest =
     (let b = Base guest
      in if b = ''.'' \<or> b = ''..'' \<or> b = [slash] \<or> slash \<in> set b \<or> backslash \<in> set b then '''' else b)"

text \<open>The prefixes of the asset directories, and \<open>hostPath\<close>, empty when nothing maps the path.\<close>

definition hostPath :: "vfs \<Rightarrow> string \<Rightarrow> string" where
  "hostPath v guest =
     (let guest = Clean guest; sdk = Join [v_assetRoot v, ''android'', ''sdk23'']; b = assetBase guest
      in if HasPrefix guest ''/system/lib64/'' \<or> HasPrefix guest ''/apex/com.android.runtime/lib64/'' then
           (if b \<noteq> '''' then Join [sdk, ''lib64'', b] else '''')
         else if guest = ''/dev/__properties__'' then Join [sdk, ''dev'', ''__properties__'']
         else if guest = ''/proc/stat'' then Join [sdk, ''proc'', ''stat'']
         else if HasPrefix guest ''/system/usr/share/zoneinfo/'' then
           (if b \<noteq> '''' then Join [sdk, ''system'', ''usr'', ''share'', ''zoneinfo'', b] else '''')
         else '''')"

definition fallback :: "vfs \<Rightarrow> string \<Rightarrow> u8 list option option" where
  "fallback v guest = (case v_fallback v of None \<Rightarrow> None | Some f \<Rightarrow> f guest)"

text \<open>The built-in part of \<open>Read\<close>, after the fallback.\<close>

definition read_builtin :: "host_fs \<Rightarrow> vfs \<Rightarrow> string \<Rightarrow> u8 list option" where
  "read_builtin H v guest =
     (case v_synth v guest of
        Some g \<Rightarrow> Some (generate v g)
      | None \<Rightarrow> (let hp = hostPath v guest in if hp \<noteq> '''' then ReadFile H hp else None))"

definition vfs_Read :: "host_fs \<Rightarrow> vfs \<Rightarrow> string \<Rightarrow> u8 list option" where
  "vfs_Read H v guest =
     (let guest = Clean guest
      in case fallback v guest of Some r \<Rightarrow> r | None \<Rightarrow> read_builtin H v guest)"

definition vfs_Exists :: "host_fs \<Rightarrow> vfs \<Rightarrow> string \<Rightarrow> bool" where
  "vfs_Exists H v guest =
     (let guest = Clean guest; hp = hostPath v guest
      in if v_synth v guest \<noteq> None then True
         else if hp \<noteq> '''' then StatOk H hp
         else case fallback v guest of Some (Some _) \<Rightarrow> True | _ \<Rightarrow> False)"

text \<open>The file system under the kernel.\<close>

definition with_vfs :: "host_fs \<Rightarrow> vfs \<Rightarrow> ('b, 'x, 'h, 'r) kenv \<Rightarrow> ('b, 'x, 'h, 'r) kenv" where
  "with_vfs H v E = E\<lparr>ke_vfs_Read := vfs_Read H v, ke_vfs_Exists := vfs_Exists H v\<rparr>"

subsection \<open>Components of paths\<close>

lemma comps_ne [simp]: "comps s \<noteq> []"
  by (induction s) auto

lemma comps_noslash: "w \<in> set (comps s) \<Longrightarrow> slash \<notin> set w"
proof (induction s arbitrary: w)
  case (Cons c s)
  have "comps s = hd (comps s) # tl (comps s)" by simp
  then have "hd (comps s) \<in> set (comps s)" "set (tl (comps s)) \<subseteq> set (comps s)"
    by (metis hd_in_set comps_ne, metis comps_ne list.set_sel(2) subsetI)
  then show ?case using Cons by (auto split: if_splits)
qed simp

lemma unsplit_Cons: "ws \<noteq> [] \<Longrightarrow> unsplit (w # ws) = w @ slash # unsplit ws"
  by (cases ws) simp_all

lemma comps_app: "slash \<notin> set w \<Longrightarrow> comps (w @ s) = (w @ hd (comps s)) # tl (comps s)"
  by (induction w) auto

lemma comps_unsplit: "ws \<noteq> [] \<Longrightarrow> (\<forall>w \<in> set ws. slash \<notin> set w) \<Longrightarrow> comps (unsplit ws) = ws"
proof (induction ws)
  case (Cons w ws)
  show ?case
  proof (cases "ws = []")
    case True
    then show ?thesis using comps_app [of w "[]"] Cons.prems by simp
  next
    case False
    then show ?thesis using comps_app [of w "slash # unsplit ws"] Cons by (simp add: unsplit_Cons)
  qed
qed simp

lemma unsplit_comps: "unsplit (comps s) = s"
proof (induction s)
  case (Cons c s)
  obtain w ws where "comps s = w # ws" by (cases "comps s") auto
  then show ?case using Cons by (cases ws) auto
qed simp

text \<open>A plain component names an entry of a directory: cleaning keeps it.\<close>

definition plain :: "string \<Rightarrow> bool" where
  "plain w \<longleftrightarrow> w \<noteq> '''' \<and> w \<noteq> ''.'' \<and> w \<noteq> ''..'' \<and> slash \<notin> set w"

lemma clean_step_plain [simp]: "plain w \<Longrightarrow> clean_step r w st = w # st"
  by (simp add: plain_def)

lemma clean_comps_plain: "list_all plain ws \<Longrightarrow> clean_comps r (us @ ws) = clean_comps r us @ ws"
proof -
  have "list_all plain ws \<Longrightarrow> fold (clean_step r) ws st = rev ws @ st" for st
    by (induction ws arbitrary: st) (simp_all del: clean_step.simps)
  then show "list_all plain ws \<Longrightarrow> ?thesis" by (simp add: clean_comps_def)
qed

text \<open>What cleaning leaves: plain components after a run of \<open>..\<close>, which a rooted path has not.\<close>

definition cleaned :: "bool \<Rightarrow> string list \<Rightarrow> bool" where
  "cleaned r ws \<longleftrightarrow> (\<exists>n ps. ws = replicate n ''..'' @ ps \<and> list_all plain ps \<and> (r \<longrightarrow> n = 0))"

lemma cleaned_step:
  assumes "cleaned r (rev st)" and "slash \<notin> set c"
  shows "cleaned r (rev (clean_step r c st))"
proof -
  obtain n ps where st: "rev st = replicate n ''..'' @ ps" and ps: "list_all plain ps" and r: "r \<longrightarrow> n = 0"
    using assms(1) unfolding cleaned_def by blast
  have st': "st = rev ps @ replicate n ''..''" using st by (metis rev_append rev_replicate rev_rev_ident)
  consider "c = [] \<or> c = ''.''" | "c = ''..''" | "plain c" using assms(2) by (auto simp: plain_def)
  then show ?thesis
  proof cases
    case 2
    show ?thesis
    proof (cases "ps = []")
      case True
      then have s: "st = replicate n ''..''" using st' by simp
      have e: "clean_step r ''..'' st = replicate (if r then 0 else Suc n) ''..''"
        using r s by (cases n) auto
      have "rev (clean_step r c st) = replicate (if r then 0 else Suc n) ''..''"
        using 2 by (simp only: e rev_replicate)
      then show ?thesis
        unfolding cleaned_def by (intro exI [of _ "if r then 0 else Suc n"] exI [of _ "[]"]) (simp del: replicate_Suc)
    next
      case False
      then obtain qs q where q: "ps = qs @ [q]" by (metis rev_exhaust)
      then have "plain q" "list_all plain qs" using ps by simp_all
      then have "clean_step r ''..'' st = rev qs @ replicate n ''..''" using st' q by (simp add: plain_def)
      then have "rev (clean_step r c st) = replicate n ''..'' @ qs" using 2 by simp
      then show ?thesis unfolding cleaned_def using r \<open>list_all plain qs\<close> by blast
    qed
  next
    case 3
    then have "rev (clean_step r c st) = replicate n ''..'' @ (ps @ [c])" using st by (simp del: clean_step.simps)
    moreover have "list_all plain (ps @ [c])" using ps 3 by simp
    ultimately show ?thesis unfolding cleaned_def using r by blast
  qed (use assms(1) in auto)
qed

lemma cleaned_comps: "\<forall>w \<in> set ws. slash \<notin> set w \<Longrightarrow> cleaned r (clean_comps r ws)"
proof -
  have "\<forall>w \<in> set ws. slash \<notin> set w \<Longrightarrow> cleaned r (rev st) \<Longrightarrow> cleaned r (rev (fold (clean_step r) ws st))" for st
    by (induction ws arbitrary: st) (auto simp: cleaned_step simp del: clean_step.simps)
  moreover have "cleaned r (rev [])" by (simp add: cleaned_def)
  ultimately show "\<forall>w \<in> set ws. slash \<notin> set w \<Longrightarrow> ?thesis" by (simp add: clean_comps_def)
qed

lemma clean_comps_id: "cleaned r ws \<Longrightarrow> clean_comps r ws = ws"
proof -
  assume "cleaned r ws"
  then obtain n ps where ws: "ws = replicate n ''..'' @ ps" and ps: "list_all plain ps" and r: "r \<longrightarrow> n = 0"
    unfolding cleaned_def by blast
  have "fold (clean_step False) (replicate n ''..'') (replicate m ''..'') = replicate (n + m) ''..''" for m
  proof (induction n arbitrary: m)
    case (Suc n)
    have "clean_step False ''..'' (replicate m ''..'') = replicate (Suc m) ''..''" by (cases m) auto
    then show ?case using Suc [of "Suc m"] by (simp del: clean_step.simps)
  qed simp
  from this [of 0] have "clean_comps r (replicate n ''..'') = replicate n ''..''"
    using r by (cases r) (simp_all add: clean_comps_def)
  then show ?thesis using clean_comps_plain [OF ps] ws by simp
qed

subsection \<open>Cleaned paths\<close>

definition parts :: "string \<Rightarrow> string list" where
  "parts p = clean_comps (rooted p) (comps p)"

definition path_of :: "bool \<Rightarrow> string list \<Rightarrow> string" where
  "path_of r ws = (if r then slash # unsplit ws else if ws = [] then ''.'' else unsplit ws)"

lemma Clean_parts: "Clean p = path_of (rooted p) (parts p)"
  by (simp add: Clean_def parts_def path_of_def Let_def)

lemma cleaned_parts: "cleaned (rooted p) (parts p)"
  by (simp add: parts_def cleaned_comps comps_noslash)

lemma clean_comps_skip: "clean_comps r ([] # ws) = clean_comps r ws"
  by (simp add: clean_comps_def)

lemma cleaned_words: "cleaned r ws \<Longrightarrow> w \<in> set ws \<Longrightarrow> w \<noteq> [] \<and> slash \<notin> set w"
proof -
  assume "cleaned r ws" and w: "w \<in> set ws"
  then obtain n ps where ws: "ws = replicate n ''..'' @ ps" and ps: "list_all plain ps" unfolding cleaned_def by blast
  then have "w = ''..'' \<or> plain w" using w by (auto simp: list_all_iff dest: in_set_replicate [THEN iffD1])
  then show ?thesis by (auto simp: plain_def)
qed

lemma unsplit_front: "unsplit (w # ws) = w @ (if ws = [] then [] else slash # unsplit ws)"
  by (simp add: unsplit_Cons)

lemma path_of_parts:
  assumes "cleaned r ws"
  shows "rooted (path_of r ws) = r" and "parts (path_of r ws) = ws"
proof -
  have w: "slash \<notin> set w" "w \<noteq> []" if "w \<in> set ws" for w using cleaned_words [OF assms that] by simp_all
  have c: "comps (unsplit ws) = (if ws = [] then [[]] else ws)" using comps_unsplit [of ws] w by auto
  show r: "rooted (path_of r ws) = r"
  proof (cases ws)
    case (Cons u us)
    then show ?thesis using w [of u] by (cases u) (auto simp: path_of_def rooted_def unsplit_front)
  qed (simp add: path_of_def rooted_def)
  show "parts (path_of r ws) = ws"
  proof -
    have e: "clean_comps r [[], []] = []" "clean_comps r [''.''] = []" by (simp_all add: clean_comps_def)
    have "comps (path_of r ws) = (if r then [] # (if ws = [] then [[]] else ws) else if ws = [] then [''.''] else ws)"
      using c by (simp add: path_of_def)
    then show ?thesis
      unfolding parts_def r using clean_comps_id [OF assms] clean_comps_skip [of r ws] e by (cases r; cases "ws = []") simp_all
  qed
qed

lemma Clean_Clean: "Clean (Clean p) = Clean p"
  using path_of_parts [OF cleaned_parts] by (simp add: Clean_parts)

lemma comps_slash: "comps (p @ slash # q) = comps p @ comps q"
  by (induction p) auto

lemma unsplit_append: "us \<noteq> [] \<Longrightarrow> ws \<noteq> [] \<Longrightarrow> unsplit (us @ ws) = unsplit us @ slash # unsplit ws"
  by (induction us) (auto simp: unsplit_front)

text \<open>Joining plain names to a path appends them to its parts.\<close>

lemma Join_plain:
  assumes "list_all plain ws" and "ws \<noteq> []"
  shows "Join (p # ws) = path_of (rooted p) (parts p @ ws)"
proof -
  have f: "filter (\<lambda>w. w \<noteq> []) ws = ws"
    using assms(1) by (induction ws) (simp_all add: plain_def)
  have c: "comps (unsplit ws) = ws"
    by (rule comps_unsplit [OF assms(2)]) (use assms(1) in \<open>simp add: list_all_iff plain_def\<close>)
  have nr: "\<not> rooted (unsplit ws)"
    using assms by (cases ws; cases "hd ws") (auto simp: plain_def rooted_def unsplit_front)
  show ?thesis
  proof (cases "p = []")
    case True
    then show ?thesis
      using f c nr assms(2) clean_comps_plain [OF assms(1), of False "[[]]"] clean_comps_plain [OF assms(1), of False "[]"]
      by (simp add: Join_def Clean_parts parts_def clean_comps_def rooted_def [of "[]"])
  next
    case False
    then have "unsplit (p # ws) = p @ slash # unsplit ws" "rooted (p @ slash # unsplit ws) = rooted p"
      using assms(2) by (auto simp: unsplit_Cons rooted_def)
    then show ?thesis
      using False f c assms(2) clean_comps_plain [OF assms(1), of "rooted p" "comps p"]
      by (simp add: Join_def Clean_parts parts_def comps_slash)
  qed
qed

lemma Join_cleaned: "list_all plain ws \<Longrightarrow> cleaned (rooted p) (parts p @ ws)"
proof -
  assume ws: "list_all plain ws"
  obtain n ps where "parts p = replicate n ''..'' @ ps" "list_all plain ps" "rooted p \<longrightarrow> n = 0"
    using cleaned_parts [of p] unfolding cleaned_def by blast
  then show ?thesis
    unfolding cleaned_def using ws by (intro exI [of _ n] exI [of _ "ps @ ws"]) simp
qed

lemma Join_Join:
  assumes "list_all plain us" and "us \<noteq> []" and "list_all plain ws" and "ws \<noteq> []"
  shows "Join (Join (p # us) # ws) = Join (p # us @ ws)"
  using assms path_of_parts [OF Join_cleaned [OF assms(1), of p]] by (simp add: Join_plain)

lemma parts_Join:
  assumes "list_all plain ws" and "ws \<noteq> []"
  shows "parts (Join (p # ws)) = parts p @ ws"
  using path_of_parts(2) [OF Join_cleaned [OF assms(1), of p]] assms by (simp add: Join_plain)

lemma Base_noslash: "slash \<notin> set (Base p) \<or> Base p = [slash]"
  using comps_noslash [OF last_in_set [OF comps_ne]] by (auto simp: Base_def Let_def)

lemma assetBase_plain: "assetBase g \<noteq> '''' \<Longrightarrow> plain (assetBase g) \<and> backslash \<notin> set (assetBase g)"
  by (auto simp: assetBase_def Let_def plain_def split: if_splits)

definition asset_dirs :: "string list list" where
  "asset_dirs = [[''lib64''], [''dev''], [''proc''], [''system'', ''usr'', ''share'', ''zoneinfo'']]"

lemma hostPath_in:
  "hostPath v guest = '''' \<or>
   (\<exists>dir b. dir \<in> set asset_dirs \<and> plain b \<and> backslash \<notin> set b \<and>
      hostPath v guest = Join (v_assetRoot v # [''android'', ''sdk23''] @ dir @ [b]))"
proof -
  have J: "Join (Join [r, ''android'', ''sdk23''] # dir @ [b]) = Join (r # [''android'', ''sdk23''] @ dir @ [b])"
    if "dir \<in> set asset_dirs" and "plain b" for r dir b
    by (rule Join_Join) (use that in \<open>auto simp: asset_dirs_def plain_def\<close>)
  let ?b = "assetBase (Clean guest)"
  define sdk where "sdk = Join [v_assetRoot v, ''android'', ''sdk23'']"
  have "hostPath v guest = '''' \<or>
    ?b \<noteq> '''' \<and> hostPath v guest = Join (sdk # [''lib64''] @ [?b]) \<or>
    hostPath v guest = Join (sdk # [''dev''] @ [''__properties__'']) \<or>
    hostPath v guest = Join (sdk # [''proc''] @ [''stat'']) \<or>
    ?b \<noteq> '''' \<and> hostPath v guest = Join (sdk # [''system'', ''usr'', ''share'', ''zoneinfo''] @ [?b])"
    by (simp only: hostPath_def Let_def sdk_def append.simps split: if_split) blast
  then consider "hostPath v guest = ''''"
    | "?b \<noteq> ''''" "hostPath v guest = Join (sdk # [''lib64''] @ [?b])"
    | "hostPath v guest = Join (sdk # [''dev''] @ [''__properties__''])"
    | "hostPath v guest = Join (sdk # [''proc''] @ [''stat''])"
    | "?b \<noteq> ''''" "hostPath v guest = Join (sdk # [''system'', ''usr'', ''share'', ''zoneinfo''] @ [?b])"
    by blast
  then show ?thesis
  proof cases
    case 2
    then show ?thesis using J [of "[''lib64'']" ?b] assetBase_plain [of "Clean guest"] unfolding sdk_def
      by (intro disjI2 exI [of _ "[''lib64'']"] exI [of _ ?b]) (simp add: asset_dirs_def)
  next
    case 3
    then show ?thesis using J [of "[''dev'']" "''__properties__''"] unfolding sdk_def
      by (intro disjI2 exI [of _ "[''dev'']"] exI [of _ "''__properties__''"]) (simp add: asset_dirs_def plain_def)
  next
    case 4
    then show ?thesis using J [of "[''proc'']" "''stat''"] unfolding sdk_def
      by (intro disjI2 exI [of _ "[''proc'']"] exI [of _ "''stat''"]) (simp add: asset_dirs_def plain_def)
  next
    case 5
    then show ?thesis
      using J [of "[''system'', ''usr'', ''share'', ''zoneinfo'']" ?b] assetBase_plain [of "Clean guest"] unfolding sdk_def
      by (intro disjI2 exI [of _ "[''system'', ''usr'', ''share'', ''zoneinfo'']"] exI [of _ ?b]) (simp add: asset_dirs_def)
  qed blast
qed

lemma builtin_Exists:
  assumes "read_builtin H v (Clean g) \<noteq> None" and "\<And>q. ReadFile H q \<noteq> None \<Longrightarrow> StatOk H q"
  shows "vfs_Exists H v g"
  using assms by (auto simp: read_builtin_def vfs_Exists_def Let_def split: option.splits if_splits)

lemma fallback_only:
  assumes "v_synth v (Clean g) = None" and "hostPath v (Clean g) \<noteq> ''''" and "\<not> StatOk H (hostPath v (Clean g))"
    and "fallback v (Clean g) = Some (Some bs)"
  shows "\<not> vfs_Exists H v g" and "vfs_Read H v g = Some bs"
  using assms by (simp_all add: vfs_Exists_def vfs_Read_def Let_def)

end
