(* ===== verification/Kernel_Inv.thy ===== *)
theory Kernel_Inv
  imports Kernel Cpu_Flags
begin

text \<open>
  The file layer of the kernel: its invariant, the files as an abstract map from paths to contents, and
  what the operations on descriptors do to it.
\<close>

subsection \<open>The abstract files\<close>

text \<open>The contents of the overlay, and of the file behind a descriptor.\<close>

definition overlay :: "('b, 'h, 'r) kernel \<Rightarrow> path \<Rightarrow> u8 list option" where
  "overlay k p = map_option (slice_bytes (k_heap k)) (wfile k p)"

definition contents :: "('b, 'h, 'r) kernel \<Rightarrow> open_file \<Rightarrow> u8 list" where
  "contents k f = (if of_writable f then (case overlay k (of_path f) of None \<Rightarrow> [] | Some bs \<Rightarrow> bs)
                   else slice_bytes (k_heap k) (of_data f))"

text \<open>Bytes written at an offset, the gap filled with zeros.\<close>

definition overwrite :: "nat \<Rightarrow> u8 list \<Rightarrow> u8 list \<Rightarrow> u8 list" where
  "overwrite i bs xs = take i (xs @ replicate (i - length xs) 0) @ bs @ drop (i + length bs) xs"

lemma length_overwrite: "length (overwrite i bs xs) = max (length xs) (i + length bs)"
  by (simp add: overwrite_def)

lemma overwrite_read: "take (length bs) (drop i (overwrite i bs xs)) = bs"
  by (simp add: overwrite_def)

subsection \<open>The invariant\<close>

definition slice_ok :: "u8 list list \<Rightarrow> slice \<Rightarrow> bool" where
  "slice_ok h s \<longleftrightarrow> sl_arr s < length h \<and> sl_len s \<le> length (h ! sl_arr s)"

text \<open>The overlay is a Go map: one entry for each path.\<close>

definition distinct_files :: "('b, 'h, 'r) kernel \<Rightarrow> bool" where
  "distinct_files k = (case k_wfiles k of None \<Rightarrow> True | Some w \<Rightarrow> distinct (map fst w))"

text \<open>Overlay files do not share arrays, nil apart; an open read-only file may share one with the overlay.\<close>

definition kernel_ok :: "('b, 'h, 'r) kernel \<Rightarrow> bool" where
  "kernel_ok k \<longleftrightarrow> k_heap k \<noteq> [] \<and> k_heap k ! 0 = [] \<and> distinct_files k \<and>
     (\<forall>p s. wfile k p = Some s \<longrightarrow> slice_ok (k_heap k) s) \<and>
     (\<forall>p q s t. wfile k p = Some s \<longrightarrow> wfile k q = Some t \<longrightarrow> sl_arr s = sl_arr t \<longrightarrow> sl_arr s \<noteq> 0 \<longrightarrow> p = q) \<and>
     (\<forall>fd f. fd_file k fd = Some f \<longrightarrow> slice_ok (k_heap k) (of_data f))"

text \<open>The arrays the overlay may write.\<close>

definition owned :: "('b, 'h, 'r) kernel \<Rightarrow> nat set" where
  "owned k = {sl_arr s |p s. wfile k p = Some s} - {0}"

text \<open>
  Steps of the kernel leave every other array alone, never make one writable and never resize one;
  a pinned generator stays pinned.
\<close>

definition evolves :: "('b, 'h, 'r) kernel \<Rightarrow> ('b, 'h, 'r) kernel \<Rightarrow> bool" where
  "evolves k k' \<longleftrightarrow> length (k_heap k) \<le> length (k_heap k') \<and> (k_rng k \<noteq> None \<longrightarrow> k_rng k' \<noteq> None) \<and>
     (\<forall>i < length (k_heap k). length (k_heap k' ! i) = length (k_heap k ! i)) \<and>
     (\<forall>i < length (k_heap k). i \<notin> owned k \<longrightarrow> k_heap k' ! i = k_heap k ! i \<and> i \<notin> owned k')"

lemma evolves_refl [simp]: "evolves k k"
  by (simp add: evolves_def)

lemma evolves_trans: "evolves k k' \<Longrightarrow> evolves k' k'' \<Longrightarrow> evolves k k''"
  by (fastforce simp: evolves_def)

text \<open>A step of the file layer: the invariant is kept and the heap evolves.\<close>

definition file_step :: "('b, 'h, 'r) kernel \<Rightarrow> ('b, 'h, 'r) kernel \<Rightarrow> bool" where
  "file_step k k' \<longleftrightarrow> kernel_ok k \<longrightarrow> kernel_ok k' \<and> evolves k k'"

lemma file_step_refl [simp]: "file_step k k"
  by (simp add: file_step_def)

lemma file_step_trans: "file_step k k' \<Longrightarrow> file_step k' k'' \<Longrightarrow> file_step k k''"
  by (auto simp: file_step_def intro: evolves_trans)

text \<open>States that agree on descriptors, overlay and heap.\<close>

definition same_files :: "('b, 'h, 'r) kernel \<Rightarrow> ('b, 'h, 'r) kernel \<Rightarrow> bool" where
  "same_files k k' \<longleftrightarrow> k_heap k' = k_heap k \<and> k_wfiles k' = k_wfiles k \<and> k_files k' = k_files k \<and>
     (k_rng k \<noteq> None \<longrightarrow> k_rng k' \<noteq> None)"

lemma same_files_step: "same_files k k' \<Longrightarrow> file_step k k'"
  by (simp add: same_files_def file_step_def evolves_def owned_def kernel_ok_def wfile_def fd_file_def distinct_files_def)

lemma fdTable_simps [simp]:
  "fd_file (fdTable k) fd = fd_file k fd" "wfile (fdTable k) = wfile k" "k_heap (fdTable k) = k_heap k"
  "k_files (fdTable k) \<noteq> None" "k_be (fdTable k) = k_be k" "k_mem (fdTable k) = k_mem k"
  "k_rng (fdTable k) = k_rng k" "distinct_files (fdTable k) = distinct_files k"
  by (auto simp: fdTable_def distinct_files_def fd_file_def wfile_def fun_eq_iff split: option.split)

lemma wstore_simps [simp]:
  "fd_file (wstore k) fd = fd_file k fd" "wfile (wstore k) = wfile k" "k_heap (wstore k) = k_heap k"
  "k_files (wstore k) = k_files k" "k_wfiles (wstore k) \<noteq> None" "k_be (wstore k) = k_be k" "k_mem (wstore k) = k_mem k"
  "k_rng (wstore k) = k_rng k" "distinct_files (wstore k) = distinct_files k"
  by (auto simp: wstore_def distinct_files_def fd_file_def wfile_def fun_eq_iff split: option.split)

lemma kernel_ok_cong:
  "k_heap k' = k_heap k \<Longrightarrow> wfile k' = wfile k \<Longrightarrow> fd_file k' = fd_file k \<Longrightarrow> distinct_files k' = distinct_files k \<Longrightarrow>
    kernel_ok k' = kernel_ok k"
  by (simp add: kernel_ok_def)

lemma owned_cong: "wfile k' = wfile k \<Longrightarrow> owned k' = owned k"
  by (simp add: owned_def)

lemma view_step: "k_heap k' = k_heap k \<Longrightarrow> wfile k' = wfile k \<Longrightarrow> fd_file k' = fd_file k \<Longrightarrow> k_rng k' = k_rng k \<Longrightarrow>
    distinct_files k' = distinct_files k \<Longrightarrow> file_step k k'"
  using kernel_ok_cong [of k' k] owned_cong [of k' k] by (simp add: file_step_def evolves_def)

lemma fdTable_step [simp]: "file_step k (fdTable k)"
  by (rule view_step) (simp_all add: fun_eq_iff)

lemma wstore_step [simp]: "file_step k (wstore k)"
  by (rule view_step) (simp_all add: fun_eq_iff)

subsection \<open>Changing descriptors and files\<close>

lemma fd_file_set_fd: "k_files k \<noteq> None \<Longrightarrow> fd_file (set_fd fd f k) = (fd_file k)(fd := f)"
  by (auto simp: set_fd_def fd_file_def fun_eq_iff)

lemma set_fd_simps [simp]:
  "wfile (set_fd fd f k) = wfile k" "k_heap (set_fd fd f k) = k_heap k" "k_wfiles (set_fd fd f k) = k_wfiles k"
  "k_be (set_fd fd f k) = k_be k" "k_mem (set_fd fd f k) = k_mem k" "k_rng (set_fd fd f k) = k_rng k" "owned (set_fd fd f k) = owned k"
  "distinct_files (set_fd fd f k) = distinct_files k"
  by (simp_all add: set_fd_def wfile_def fun_eq_iff owned_def distinct_files_def)

lemma set_fd_step:
  assumes "\<And>g. kernel_ok k \<Longrightarrow> f = Some g \<Longrightarrow> slice_ok (k_heap k) (of_data g)"
  shows "file_step k (set_fd fd f k)"
proof (cases "k_files k")
  case None
  then have "set_fd fd f k = k" by (simp add: set_fd_def)
  then show ?thesis by simp
next
  case (Some t)
  then show ?thesis
    using assms by (auto simp: file_step_def evolves_def kernel_ok_def fd_file_set_fd split: if_splits)
qed

lemma wfile_set_wfile: "k_wfiles k \<noteq> None \<Longrightarrow> wfile (set_wfile p s k) = (wfile k)(p \<mapsto> s)"
  by (auto simp: set_wfile_def wfile_def fun_eq_iff update_conv')

lemma distinct_set_wfile: "distinct_files k \<Longrightarrow> distinct_files (set_wfile p s k)"
  by (auto simp: set_wfile_def distinct_files_def distinct_update split: option.splits)

lemma set_wfile_simps [simp]:
  "fd_file (set_wfile p s k) = fd_file k" "k_heap (set_wfile p s k) = k_heap k" "k_files (set_wfile p s k) = k_files k"
  "k_be (set_wfile p s k) = k_be k" "k_mem (set_wfile p s k) = k_mem k" "k_rng (set_wfile p s k) = k_rng k"
  by (simp_all add: set_wfile_def fd_file_def fun_eq_iff)

lemma set_wfile_upd: "set_wfile p s (k\<lparr>k_heap := h\<rparr>) = (set_wfile p s k)\<lparr>k_heap := h\<rparr>"
  by (simp add: set_wfile_def)

lemma heap_upd_simps [simp]: "wfile (k\<lparr>k_heap := h\<rparr>) = wfile k" "fd_file (k\<lparr>k_heap := h\<rparr>) = fd_file k"
  "owned (k\<lparr>k_heap := h\<rparr>) = owned k" "distinct_files (k\<lparr>k_heap := h\<rparr>) = distinct_files k"
  by (simp_all add: wfile_def fd_file_def fun_eq_iff owned_def distinct_files_def)

lemma wslice_ok: "kernel_ok k \<Longrightarrow> slice_ok (k_heap k) (wslice k p)"
  by (auto simp: kernel_ok_def wslice_def slice_ok_def nil_slice_def split: option.split)

lemma overlay_simps [simp]:
  "overlay (set_fd fd f k) = overlay k" "overlay (wstore k) = overlay k" "overlay (fdTable k) = overlay k"
  by (simp_all add: overlay_def fun_eq_iff)

text \<open>A larger heap in which only arrays of \<open>xs\<close> changed, none of them getting shorter.\<close>

lemma slice_ok_mono:
  "slice_ok h s \<Longrightarrow> length h \<le> length h' \<Longrightarrow> length (h ! sl_arr s) \<le> length (h' ! sl_arr s) \<Longrightarrow> slice_ok h' s"
  by (simp add: slice_ok_def)

text \<open>
  The step every write to the overlay makes: the file \<open>p\<close> gets the slice \<open>s\<close>, whose array is its
  old one or a new one, and no other array changes.
\<close>

lemma set_file_step:
  assumes k: "kernel_ok k" and w: "k_wfiles k \<noteq> None" and h: "length (k_heap k) \<le> length h"
    and other: "\<And>i. i < length (k_heap k) \<Longrightarrow> i \<noteq> sl_arr (wslice k p) \<Longrightarrow> h ! i = k_heap k ! i"
    and same: "length (h ! sl_arr (wslice k p)) = length (k_heap k ! sl_arr (wslice k p))"
    and s: "slice_ok h s" "sl_arr s = sl_arr (wslice k p) \<or> length (k_heap k) \<le> sl_arr s \<or> sl_arr s = 0"
  shows "kernel_ok (set_wfile p s (k\<lparr>k_heap := h\<rparr>))" and "evolves k (set_wfile p s (k\<lparr>k_heap := h\<rparr>))"
    and "overlay (set_wfile p s (k\<lparr>k_heap := h\<rparr>)) = (overlay k)(p \<mapsto> slice_bytes h s)"
proof -
  let ?k = "set_wfile p s (k\<lparr>k_heap := h\<rparr>)"
  have wf: "wfile ?k = (wfile k)(p \<mapsto> s)"
    using w by (subst wfile_set_wfile) simp_all
  have heap: "k_heap ?k = h" "fd_file ?k = fd_file k"
    by simp_all
  have len: "length (k_heap k ! i) \<le> length (h ! i)" if "i < length (k_heap k)" for i
    using other [OF that] same by (cases "i = sl_arr (wslice k p)") simp_all
  have keep: "slice_ok h t" if "slice_ok (k_heap k) t" for t
    using that len h by (intro slice_ok_mono [OF that]) (simp_all add: slice_ok_def)
  have zero: "h ! 0 = []" "h \<noteq> []"
    using k h other [of 0] same by (cases "sl_arr (wslice k p) = 0"; auto simp: kernel_ok_def)+
  have fresh: "sl_arr s \<noteq> sl_arr t" if t: "wfile k q = Some t" "q \<noteq> p" "sl_arr s \<noteq> 0" for q t
  proof
    assume e: "sl_arr s = sl_arr t"
    have "slice_ok (k_heap k) t"
      using k t(1) by (simp add: kernel_ok_def)
    then have a: "sl_arr s = sl_arr (wslice k p)"
      using s(2) e t(3) by (simp add: slice_ok_def)
    then obtain u where u: "wfile k p = Some u" "sl_arr u = sl_arr s"
      using t(3) by (auto simp: wslice_def nil_slice_def split: option.splits)
    have inj: "\<And>p q s t. wfile k p = Some s \<Longrightarrow> wfile k q = Some t \<Longrightarrow> sl_arr s = sl_arr t \<Longrightarrow> sl_arr s \<noteq> 0 \<Longrightarrow> p = q"
      using k unfolding kernel_ok_def by blast
    from inj [OF u(1) t(1)] u(2) e t(2,3) show False by simp
  qed
  show "kernel_ok ?k"
    unfolding kernel_ok_def heap wf
  proof (intro conjI allI impI)
    show "h \<noteq> []" "h ! 0 = []" by (simp_all add: zero)
    show "distinct_files ?k"
      using k by (intro distinct_set_wfile) (simp add: kernel_ok_def)
    show "slice_ok h t" if "((wfile k)(p \<mapsto> s)) q = Some t" for q t
      using that s(1) keep k by (auto simp: kernel_ok_def split: if_splits)
    show "slice_ok h (of_data f)" if "fd_file k fd = Some f" for fd f
      using that keep k by (simp add: kernel_ok_def)
    show "a = b" if "((wfile k)(p \<mapsto> s)) a = Some x" "((wfile k)(p \<mapsto> s)) b = Some y" "sl_arr x = sl_arr y" "sl_arr x \<noteq> 0" for a b x y
    proof -
      have "\<And>p q s t. wfile k p = Some s \<Longrightarrow> wfile k q = Some t \<Longrightarrow> sl_arr s = sl_arr t \<Longrightarrow> sl_arr s \<noteq> 0 \<Longrightarrow> p = q"
        using k unfolding kernel_ok_def by blast
      then show ?thesis
        using that fresh [of a x] fresh [of b y] by (auto split: if_splits)
    qed
  qed
  show "evolves k ?k"
    unfolding evolves_def heap
  proof (intro conjI allI impI)
    show "length (k_heap k) \<le> length h" by (rule h)
    show "length (h ! i) = length (k_heap k ! i)" if "i < length (k_heap k)" for i
      using other [OF that] same by (cases "i = sl_arr (wslice k p)") simp_all
    show "k_rng k \<noteq> None \<Longrightarrow> k_rng ?k \<noteq> None" by simp
    fix i assume i: "i < length (k_heap k)" "i \<notin> owned k"
    then have not: "i = sl_arr (wslice k p) \<Longrightarrow> i = 0"
      by (auto simp: owned_def wslice_def nil_slice_def split: option.splits)
    show "h ! i = k_heap k ! i"
      using other [OF i(1)] not zero(1) k by (cases "i = sl_arr (wslice k p)") (auto simp: kernel_ok_def)
    show "i \<notin> owned ?k"
      using i not s(2) by (auto simp: owned_def wf split: if_splits)
  qed
  show "overlay ?k = (overlay k)(p \<mapsto> slice_bytes h s)"
  proof
    fix q
    show "overlay ?k q = ((overlay k)(p \<mapsto> slice_bytes h s)) q"
    proof (cases "q = p \<or> wfile k q = None")
      case True
      then show ?thesis by (auto simp: overlay_def wf)
    next
      case False
      then obtain t where t: "wfile k q = Some t" "q \<noteq> p" by auto
      have ok: "slice_ok (k_heap k) t"
        using k t by (simp add: kernel_ok_def)
      have "h ! sl_arr t = k_heap k ! sl_arr t"
      proof (cases "sl_arr t = sl_arr (wslice k p)")
        case True
        have "sl_arr t = 0"
        proof (rule ccontr)
          assume nz: "sl_arr t \<noteq> 0"
          then obtain u where "wfile k p = Some u" "sl_arr u = sl_arr t"
            using True by (auto simp: wslice_def nil_slice_def split: option.splits)
          then show False
            using t nz k unfolding kernel_ok_def by metis
        qed
        then show ?thesis using zero(1) k by (simp add: kernel_ok_def)
      next
        case False
        then show ?thesis using other ok by (simp add: slice_ok_def)
      qed
      then show ?thesis using t by (simp add: overlay_def wf slice_bytes_def)
    qed
  qed
qed

subsection \<open>Writing to a file\<close>

lemma length_slice_put [simp]: "length (slice_put s i bs h) = length h"
  by (simp add: slice_put_def Let_def)

lemma slice_put_other: "i' \<noteq> sl_arr s \<Longrightarrow> slice_put s i bs h ! i' = h ! i'"
  by (simp add: slice_put_def Let_def)

lemma slice_put_length: "j < length h \<Longrightarrow> length (slice_put s i bs h ! j) = length (h ! j)"
  by (cases "sl_arr s = j") (auto simp: slice_put_def Let_def min_def)

lemma slice_put_bytes:
  assumes "sl_arr s < length h" and "sl_len s \<le> length (h ! sl_arr s)" and "i + length bs \<le> sl_len s"
  shows "slice_bytes (slice_put s i bs h) s = overwrite i bs (slice_bytes h s)"
proof -
  have "i \<le> sl_len s" "length bs \<le> length (h ! sl_arr s) - i" "length bs \<le> sl_len s - i"
    using assms by linarith+
  moreover have "sl_len s \<le> i \<Longrightarrow> i = sl_len s \<and> bs = []"
    using assms(3) by (cases bs) simp_all
  ultimately show ?thesis
    using assms by (cases "sl_len s \<le> i"; simp add: slice_put_def Let_def slice_bytes_def overwrite_def take_drop min_def)
qed

lemma overwrite_pad:
  "length xs < i + length bs \<Longrightarrow>
    overwrite i bs (xs @ replicate (i + length bs - length xs) 0) = overwrite i bs xs"
  by (simp add: overwrite_def min_def)

lemma sint_nonneg: "0 \<le> sint (w :: u64) \<Longrightarrow> sint w = int (unat w)"
  using sint_top [of w] unsigned_less [where 'a = int and w = w] by (cases "bit w 63") simp_all

lemma sint_small:
  assumes "unat (w :: u64) < 2 ^ 63"
  shows "sint w = int (unat w)"
proof -
  have "int (unat w) < int (2 ^ 63)"
    using assms by (simp only: of_nat_less_iff)
  then show ?thesis
    using sint_top [of w] sint_greater_eq [of w] by (cases "bit w 63") simp_all
qed

lemma unat_sint_bound: "0 \<le> sint (w :: u64) \<Longrightarrow> unat w < 2 ^ 63"
proof -
  assume "0 \<le> sint w"
  then have "int (unat w) < int (2 ^ 63)"
    using sint_nonneg [of w] sint_less [of w] by simp
  then show ?thesis by (simp only: of_nat_less_iff)
qed

lemma room_ok:
  assumes "slice_ok h cur" and "room e cur h = (s, h')"
  shows "slice_ok h' s" and "sl_arr s = sl_arr cur \<or> length h \<le> sl_arr s" and "length h \<le> length h'"
    and "\<And>i. i < length h \<Longrightarrow> h' ! i = h ! i" and "sint e \<le> int (sl_len s)"
    and "0 \<le> sint e \<Longrightarrow> slice_bytes h' s = slice_bytes h cur @ replicate (unat e - sl_len cur) 0"
  using assms sint_nonneg [of e]
  by (auto simp: room_def new_slice_def slice_ok_def nth_append slice_bytes_def min_def split: if_splits simp del: of_nat_unat)

text \<open>Both outcomes of a write keep the invariant: the new array alone, and the file put into it.\<close>

lemma room_step:
  assumes k: "kernel_ok k" and r: "room e (wslice k p) (k_heap k) = (cur, h)"
  shows "kernel_ok (k\<lparr>k_heap := h\<rparr>)" and "evolves k (k\<lparr>k_heap := h\<rparr>)"
proof -
  note ro = room_ok [OF wslice_ok [OF k] r]
  have "slice_ok h t" if "slice_ok (k_heap k) t" for t
    using that ro(3,4) by (auto simp: slice_ok_def)
  then show "kernel_ok (k\<lparr>k_heap := h\<rparr>)" "evolves k (k\<lparr>k_heap := h\<rparr>)"
    using k ro(3,4) by (auto simp: kernel_ok_def evolves_def)
qed

lemma write_slot:
  fixes i :: nat and d :: "u8 list"
  assumes k: "kernel_ok k" and w: "k_wfiles k \<noteq> None" and r: "room e (wslice k p) (k_heap k) = (cur, h)"
  defines "k' \<equiv> set_wfile p cur (k\<lparr>k_heap := slice_put cur i d h\<rparr>)"
  shows "kernel_ok k'" and "evolves k k'"
    and "overlay k' = (overlay k)(p \<mapsto> slice_bytes (slice_put cur i d h) cur)"
    and "\<And>t. slice_ok (k_heap k) t \<Longrightarrow> slice_ok (slice_put cur i d h) t"
proof -
  let ?h = "slice_put cur i d h"
  note ro = room_ok [OF wslice_ok [OF k] r]
  have other: "?h ! i = k_heap k ! i" if "i < length (k_heap k)" "i \<noteq> sl_arr (wslice k p)" for i
    using that ro(2,4) by (subst slice_put_other) (auto dest: leD)
  have keep: "length (?h ! j) = length (k_heap k ! j)" if "j < length (k_heap k)" for j
    using ro(3) that ro(4) [OF that] slice_put_length [of j h cur i d] by simp
  have same: "length (?h ! sl_arr (wslice k p)) = length (k_heap k ! sl_arr (wslice k p))"
    using wslice_ok [OF k] by (intro keep) (simp add: slice_ok_def)
  have s: "slice_ok ?h cur"
    using ro(1) slice_put_length [of "sl_arr cur" h cur i d] by (simp add: slice_ok_def)
  have h2: "length (k_heap k) \<le> length ?h"
    using ro(3) by simp
  have ar: "sl_arr cur = sl_arr (wslice k p) \<or> length (k_heap k) \<le> sl_arr cur \<or> sl_arr cur = 0"
    using ro(2) by blast
  note set = set_file_step [OF k w h2 other same s ar]
  show "kernel_ok k'" unfolding k'_def by (rule set(1))
  show "evolves k k'" unfolding k'_def by (rule set(2))
  show "overlay k' = (overlay k)(p \<mapsto> slice_bytes ?h cur)" unfolding k'_def by (rule set(3))
  show "slice_ok ?h t" if "slice_ok (k_heap k) t" for t
    using that h2 keep [of "sl_arr t"] by (simp add: slice_ok_def)
qed

lemma write_file_step:
  assumes "fd_file k fd = Some f"
  shows "file_step k (snd (write_file fd f d k))"
  unfolding file_step_def
proof
  assume k: "kernel_ok k"
  let ?w = "wstore k" and ?e = "of_pos f + of_nat (length d) :: u64"
  let ?s = "wslice ?w (of_path f)"
  have w: "kernel_ok ?w" "evolves k ?w"
    using wstore_step [of k] k by (simp_all add: file_step_def)
  obtain cur h where r: "room ?e ?s (k_heap ?w) = (cur, h)"
    by (cases "room ?e ?s (k_heap ?w)")
  let ?k = "set_wfile (of_path f) cur (?w\<lparr>k_heap := slice_put cur (unat (of_pos f)) d h\<rparr>)"
  have w2: "k_wfiles ?w \<noteq> None" by simp
  note slot = write_slot [OF w(1) w2 r, where i = "unat (of_pos f)" and d = d]
  have "slice_ok (k_heap k) (of_data f)"
    using k assms unfolding kernel_ok_def by blast
  then have fin: "file_step ?k (set_fd fd (Some (f\<lparr>of_pos := ?e\<rparr>)) ?k)"
    using slot(4) by (intro set_fd_step) auto
  let ?p = "(None :: u64 option, ?w\<lparr>k_heap := h\<rparr>)" and ?r = "ret (of_nat (length d)) (set_fd fd (Some (f\<lparr>of_pos := ?e\<rparr>)) ?k)"
  have "write_file fd f d k = ?p \<or> write_file fd f d k = ?r"
    unfolding write_file_def Let_def r by simp
  moreover have "kernel_ok (snd ?p) \<and> evolves k (snd ?p)"
    using room_step [OF w(1) r] w(2) unfolding snd_conv by (blast intro: evolves_trans)
  moreover have "kernel_ok (snd ?r) \<and> evolves k (snd ?r)"
    using slot(1,2) fin w(2) unfolding ret_def file_step_def snd_conv by (blast intro: evolves_trans)
  ultimately show "kernel_ok (snd (write_file fd f d k)) \<and> evolves k (snd (write_file fd f d k))"
    by presburger
qed

text \<open>A write at a position that is not negative, up to an end that is.\<close>

lemma write_file_law:
  assumes k: "kernel_ok k" and fd: "fd_file k fd = Some f" and f: "of_writable f"
    and pos: "unat (of_pos f) + length d < 2 ^ 63"
  obtains k' where "write_file fd f d k = (Some (of_nat (length d)), k')"
    and "overlay k' = (overlay k)(of_path f \<mapsto> overwrite (unat (of_pos f)) d (contents k f))"
    and "fd_file k' = (fd_file k)(fd \<mapsto> f\<lparr>of_pos := of_pos f + of_nat (length d)\<rparr>)"
    and "k_be k' = k_be k" "k_mem k' = k_mem k"
proof -
  let ?w = "wstore k" and ?e = "of_pos f + of_nat (length d) :: u64" and ?P = "unat (of_pos f)"
  let ?s = "wslice ?w (of_path f)"
  have e: "unat ?e = ?P + length d"
    using pos by (intro unat_add_of_nat) simp
  have se: "sint ?e = int (?P + length d)" and sp: "sint (of_pos f) = int ?P"
    using pos e sint_small [of ?e] sint_small [of "of_pos f"] by simp_all
  have w: "kernel_ok ?w"
    using wstore_step [of k] k by (simp_all add: file_step_def)
  obtain cur h where r: "room ?e ?s (k_heap ?w) = (cur, h)"
    by (cases "room ?e ?s (k_heap ?w)")
  note ro = room_ok [OF wslice_ok [OF w] r]
  let ?k = "set_wfile (of_path f) cur (?w\<lparr>k_heap := slice_put cur ?P d h\<rparr>)"
  have w2: "k_wfiles ?w \<noteq> None" by simp
  have len: "?P + length d \<le> sl_len cur" "sl_len cur \<le> length (h ! sl_arr cur)" "sl_arr cur < length h"
    using ro(5) se by linarith (use ro(1) in \<open>simp_all add: slice_ok_def\<close>)
  have c: "contents k f = slice_bytes (k_heap k) ?s"
    using f k by (simp add: contents_def overlay_def wslice_def slice_bytes_def nil_slice_def kernel_ok_def split: option.split)
  have lc: "length (contents k f) = sl_len ?s"
    using wslice_ok [OF w] by (simp add: c slice_bytes_def slice_ok_def)
  have "slice_bytes (slice_put cur ?P d h) cur = overwrite ?P d (slice_bytes h cur)"
    using len by (intro slice_put_bytes) simp_all
  also have "\<dots> = overwrite ?P d (contents k f)"
    using ro(6) se e overwrite_pad [of "contents k f" ?P d]
    by (cases "sl_len ?s < ?P + length d") (simp_all add: c [symmetric] lc)
  finally have bytes: "slice_bytes (slice_put cur ?P d h) cur = overwrite ?P d (contents k f)" .
  have "write_file fd f d k = (Some (of_nat (length d)), set_fd fd (Some (f\<lparr>of_pos := ?e\<rparr>)) ?k)"
    unfolding write_file_def Let_def r using len se sp by (simp add: ret_def del: of_nat_unat)
  moreover have "overlay (set_fd fd (Some (f\<lparr>of_pos := ?e\<rparr>)) ?k) = (overlay k)(of_path f \<mapsto> overwrite ?P d (contents k f))"
    using write_slot(3) [OF w w2 r, where i = ?P and d = d] bytes by simp
  moreover have "fd_file (set_fd fd (Some (f\<lparr>of_pos := ?e\<rparr>)) ?k) = (fd_file k)(fd \<mapsto> f\<lparr>of_pos := ?e\<rparr>)"
  proof -
    have "k_files ?k \<noteq> None"
      using fd by (auto simp: fd_file_def split: option.splits)
    then show ?thesis by (subst fd_file_set_fd) (simp_all add: fun_eq_iff)
  qed
  ultimately show ?thesis
    by (rule that) simp_all
qed

end
