(* ===== verification/Kernel_Keep.thy ===== *)
theory Kernel_Keep
  imports Kernel_Inv
begin

text \<open>
  Every system call keeps the invariant of the file layer and lets the heap of arrays only evolve;
  a sequence of calls, and a snapshot restored after it.
\<close>

lemma file_stepI: "(kernel_ok k \<Longrightarrow> kernel_ok k' \<and> evolves k k') \<Longrightarrow> file_step k k'"
  by (simp add: file_step_def)

lemma file_step_ret [simp]: "snd (ret v k) = k" "fst (ret v k) = Some v"
  by (simp_all add: ret_def)

lemma on_be_step [simp]: "file_step k (snd (on_be f k))"
  by (rule same_files_step) (simp add: on_be_def same_files_def split: prod.split)

lemma kwrite_step [simp]: "file_step k (snd (kwrite E a bs k))"
  by (simp add: kwrite_def)

lemma on_be_D: "on_be f k = (ok, k') \<Longrightarrow> file_step k k'"
  using on_be_step [of k f] by simp

lemma kwrite_D: "kwrite E a bs k = (ok, k') \<Longrightarrow> file_step k k'"
  using kwrite_step [of k E a bs] by simp

lemma kwrite_views: "kwrite E a bs k = (ok, k') \<Longrightarrow> fd_file k' = fd_file k \<and> wfile k' = wfile k \<and>
    k_heap k' = k_heap k \<and> k_mem k' = k_mem k \<and> MemWrite (ke_B E) a bs (k_be k) = (ok, k_be k')"
  by (auto simp: kwrite_def on_be_def fd_file_def wfile_def fun_eq_iff split: prod.splits)

text \<open>Changes to the other fields.\<close>

lemma other_fields_step [simp]:
  "file_step k (k\<lparr>k_mem := s\<rparr>)" "file_step k (k\<lparr>k_brkCur := x\<rparr>)" "file_step k (k\<lparr>k_nextFd := y\<rparr>)"
  "file_step k (k\<lparr>k_dirs := ds\<rparr>)" "file_step k (k\<lparr>k_host := z\<rparr>)" "file_step k (k\<lparr>k_rng := Some r\<rparr>)" "file_step k (k\<lparr>k_be := b\<rparr>)"
  "file_step k (k\<lparr>k_Exited := e, k_ExitCode := c, k_be := b\<rparr>)"
  by (rule same_files_step, simp add: same_files_def)+

lemma slice_ok_append: "slice_ok h s \<Longrightarrow> slice_ok (h @ x) s"
  by (simp add: slice_ok_def nth_append)

lemma new_slice_step:
  assumes "new_slice bs (k_heap k) = (d, h)"
  shows "file_step k (k\<lparr>k_heap := h\<rparr>)" and "kernel_ok k \<Longrightarrow> slice_ok h d"
proof -
  have h: "h = k_heap k @ [bs]" and d: "slice_ok h d"
    using assms by (auto simp: new_slice_def slice_ok_def)
  have "kernel_ok (k\<lparr>k_heap := k_heap k @ [bs]\<rparr>)" if k: "kernel_ok k"
    unfolding kernel_ok_def heap_upd_simps
  proof (intro conjI allI impI)
    show "p = q" if "wfile k p = Some s" "wfile k q = Some t" "sl_arr s = sl_arr t" "sl_arr s \<noteq> 0" for p q s t
      using that k unfolding kernel_ok_def by blast
  qed (use k in \<open>auto simp: kernel_ok_def nth_append intro: slice_ok_append\<close>)
  then show "file_step k (k\<lparr>k_heap := h\<rparr>)"
    unfolding h by (intro file_stepI) (simp add: evolves_def nth_append)
  show "kernel_ok k \<Longrightarrow> slice_ok h d" using d .
qed

lemma nil_wfile_step: "k_wfiles k \<noteq> None \<Longrightarrow> file_step k (set_wfile p nil_slice k)"
proof (rule file_stepI)
  assume w: "k_wfiles k \<noteq> None" and k: "kernel_ok k"
  have "slice_ok (k_heap k) nil_slice"
    using k by (simp add: kernel_ok_def slice_ok_def nil_slice_def)
  then show "kernel_ok (set_wfile p nil_slice k) \<and> evolves k (set_wfile p nil_slice k)"
    using set_file_step(1,2) [OF k w, of "k_heap k" p nil_slice] by (simp add: nil_slice_def set_wfile_def)
qed

lemma fileData_step:
  assumes "fileData f k = (d, k')"
  shows "file_step k k'" and "fd_file k' = fd_file k" and "k_heap k' = k_heap k" and "k_be k' = k_be k"
    and "kernel_ok k \<Longrightarrow> fd_file k fd = Some f \<Longrightarrow> slice_ok (k_heap k) d \<and> slice_bytes (k_heap k) d = contents k f"
proof -
  show a: "file_step k k'" "fd_file k' = fd_file k" "k_heap k' = k_heap k" "k_be k' = k_be k"
    using assms by (auto simp: fileData_def Let_def fun_eq_iff split: if_splits)
  show "slice_ok (k_heap k) d \<and> slice_bytes (k_heap k) d = contents k f" if k: "kernel_ok k" and f: "fd_file k fd = Some f"
  proof (cases "of_writable f")
    case True
    then show ?thesis
      using assms wslice_ok [OF k, of "of_path f"] k
      by (auto simp: fileData_def wslice_def contents_def overlay_def slice_bytes_def nil_slice_def kernel_ok_def split: option.splits)
  next
    case False
    then show ?thesis
      using assms k f by (auto simp: fileData_def contents_def kernel_ok_def)
  qed
qed

lemma set_pos_step: "fd_file k fd' = Some f \<Longrightarrow> file_step k (set_fd fd (Some (f\<lparr>of_pos := x\<rparr>)) k)"
  by (rule set_fd_step) (auto simp: kernel_ok_def)

text \<open>\<open>append\<close> to an overlay file.\<close>

lemma append_step:
  assumes w: "k_wfiles k \<noteq> None" and a: "slice_append grow (wslice k p) d (k_heap k) = (s, h)"
  shows "file_step k (set_wfile p s (k\<lparr>k_heap := h\<rparr>))"
    and "kernel_ok k \<Longrightarrow> overlay (set_wfile p s (k\<lparr>k_heap := h\<rparr>)) =
      (overlay k)(p \<mapsto> (case overlay k p of None \<Rightarrow> [] | Some bs \<Rightarrow> bs) @ d)"
    and "kernel_ok k \<Longrightarrow> slice_ok (k_heap k) t \<Longrightarrow> slice_ok h t"
proof -
  let ?c = "wslice k p"
  have main: "kernel_ok (set_wfile p s (k\<lparr>k_heap := h\<rparr>)) \<and> evolves k (set_wfile p s (k\<lparr>k_heap := h\<rparr>)) \<and>
      overlay (set_wfile p s (k\<lparr>k_heap := h\<rparr>)) = (overlay k)(p \<mapsto> (case overlay k p of None \<Rightarrow> [] | Some bs \<Rightarrow> bs) @ d) \<and>
      (slice_ok (k_heap k) t \<longrightarrow> slice_ok h t)" if k: "kernel_ok k" for t
  proof -
    have c: "slice_ok (k_heap k) ?c" using k by (rule wslice_ok)
    have b: "(case overlay k p of None \<Rightarrow> [] | Some bs \<Rightarrow> bs) = slice_bytes (k_heap k) ?c"
      using k by (simp add: overlay_def wslice_def slice_bytes_def nil_slice_def kernel_ok_def split: option.split)
    have len: "length (k_heap k) \<le> length h" "\<And>j. j < length (k_heap k) \<Longrightarrow> length (h ! j) = length (k_heap k ! j)"
      "\<And>j. j < length (k_heap k) \<Longrightarrow> j \<noteq> sl_arr ?c \<Longrightarrow> h ! j = k_heap k ! j"
      using a by (auto simp: slice_append_def Let_def nth_append slice_put_length slice_put_other split: if_splits)
    have s: "slice_ok h s" "sl_arr s = sl_arr ?c \<or> length (k_heap k) \<le> sl_arr s \<or> sl_arr s = 0"
      using a c slice_put_length [of "sl_arr ?c" "k_heap k" ?c "sl_len ?c" d]
      by (auto simp: slice_append_def Let_def slice_ok_def slice_bytes_def split: if_splits)
    have bytes: "slice_bytes h s = slice_bytes (k_heap k) ?c @ d"
      using a c by (auto simp: slice_append_def Let_def slice_bytes_def slice_ok_def slice_put_def min_def split: if_splits)
    have same: "length (h ! sl_arr ?c) = length (k_heap k ! sl_arr ?c)"
      using c len(2) by (simp add: slice_ok_def)
    note set = set_file_step [OF k w len(1) len(3) same s]
    have "slice_ok (k_heap k) t \<longrightarrow> slice_ok h t"
      using len(1,2) by (simp add: slice_ok_def)
    then show ?thesis
      using set bytes b by simp
  qed
  show "file_step k (set_wfile p s (k\<lparr>k_heap := h\<rparr>))"
    using main by (intro file_stepI) blast
  show "overlay (set_wfile p s (k\<lparr>k_heap := h\<rparr>)) = (overlay k)(p \<mapsto> (case overlay k p of None \<Rightarrow> [] | Some bs \<Rightarrow> bs) @ d)"
    if "kernel_ok k" using main [OF that] by blast
  show "slice_ok h t" if "kernel_ok k" "slice_ok (k_heap k) t" using main [OF that(1)] that(2) by blast
qed

subsection \<open>The handlers\<close>

lemma fd_of_fdTable: "fd_file k fd = Some f \<Longrightarrow> kernel_ok k \<Longrightarrow> slice_ok (k_heap k) (of_data f)"
  by (simp add: kernel_ok_def)

lemma sysWrite_step: "file_step k (snd (sysWrite E a k))"
proof -
  let ?k = "fdTable k" and ?fd = "fd32 (a 0)"
  have "file_step ?k (snd (sysWrite E a k))"
  proof (cases "fd_file ?k ?fd")
    case None
    then show ?thesis by (simp add: sysWrite_def Let_def)
  next
    case (Some f)
    then show ?thesis
      using write_file_step [OF Some] by (simp add: sysWrite_def Let_def split: option.split)
  qed
  then show ?thesis by (rule file_step_trans [OF fdTable_step])
qed

lemma writev_loop_step: "file_step k (snd (writev_loop E fd iov js tot k))"
proof (induction js arbitrary: tot k)
  case Nil
  then show ?case by simp
next
  case (Cons j js)
  show ?case
  proof (cases "kread E (iov + j * 16) 16 k")
    case None
    then show ?thesis by simp
  next
    case (Some ent)
    let ?b = "le_val (take 8 ent)" and ?n = "le_val (take 8 (drop 8 ent))"
    show ?thesis
    proof (cases "\<not> (?n = 0 \<or> ?n \<ge> 0x10000) \<and> kread E ?b ?n k \<noteq> None \<and> (\<exists>f. fd_file k fd = Some f \<and> of_writable f)")
      case False
      then show ?thesis
        using Some Cons.IH by (auto simp: Let_def split: option.split)
    next
      case True
      then obtain d f where d: "kread E ?b ?n k = Some d" and f: "fd_file k fd = Some f" "of_writable f"
        by auto
      obtain s h where a: "slice_append (ke_grow E) (wslice (wstore k) (of_path f)) d (k_heap (wstore k)) = (s, h)"
        by (cases "slice_append (ke_grow E) (wslice (wstore k) (of_path f)) d (k_heap (wstore k))")
      let ?k1 = "set_wfile (of_path f) s ((wstore k)\<lparr>k_heap := h\<rparr>)"
      let ?k2 = "set_fd fd (Some (f\<lparr>of_pos := of_pos f + of_nat (length d)\<rparr>)) ?k1"
      have w: "k_wfiles (wstore k) \<noteq> None" by simp
      have 1: "file_step k ?k1"
        by (rule file_step_trans [OF wstore_step append_step(1) [OF w a]])
      have 2: "file_step ?k1 ?k2"
        using f by (intro set_pos_step [where fd' = fd]) simp
      have 3: "snd (writev_loop E fd iov (j # js) tot k) = snd (writev_loop E fd iov js (tot + ?n) ?k2)"
        using True Some d f a by (simp add: Let_def)
      show ?thesis
        unfolding 3 by (rule file_step_trans [OF file_step_trans [OF 1 2] Cons.IH])
    qed
  qed
qed

lemma sysWritev_step: "file_step k (snd (sysWritev E a k))"
  unfolding sysWritev_def by (rule file_step_trans [OF fdTable_step writev_loop_step])

lemma sysOpenat_step: "file_step k (snd (sysOpenat E a k))"
proof -
  let ?p = "readCStr E (a 1) k" and ?k = "fdTable k"
  have open_fd: "file_step q (set_fd fd (Some \<lparr>of_path = ?p, of_data = d, of_pos = pos, of_writable = w\<rparr>) (q\<lparr>k_nextFd := n\<rparr>))"
    if "kernel_ok q \<Longrightarrow> slice_ok (k_heap q) d" for q fd d pos w n
  proof -
    have "kernel_ok (q\<lparr>k_nextFd := n\<rparr>) = kernel_ok q"
      by (rule kernel_ok_cong) (simp_all add: wfile_def fd_file_def fun_eq_iff distinct_files_def)
    then show ?thesis
      by (rule_tac file_step_trans [OF other_fields_step(3) set_fd_step]) (use that in auto)
  qed
  show ?thesis
  proof (cases "a 2 AND (oWRONLY OR oRDWR OR oCREAT) \<noteq> 0")
    case True
    let ?w = "wstore ?k"
    let ?k1 = "if wfile ?w ?p = None \<or> a 2 AND oTRUNC \<noteq> 0 then set_wfile ?p nil_slice ?w else ?w"
    have "file_step ?w ?k1"
      using nil_wfile_step [of ?w ?p] by simp
    then have k1: "file_step k ?k1"
      by (rule file_step_trans [OF file_step_trans [OF fdTable_step wstore_step]])
    have nil: "kernel_ok ?k1 \<Longrightarrow> slice_ok (k_heap ?k1) nil_slice"
      by (simp add: kernel_ok_def slice_ok_def nil_slice_def)
    show ?thesis
      using file_step_trans [OF k1 open_fd [OF nil]] True unfolding sysOpenat_def Let_def by simp
  next
    case False
    show ?thesis
    proof (cases "ke_vfs_Read E ?p")
      case None
      show ?thesis
      proof (cases "wfile (wstore ?k) ?p")
        case None
        then show ?thesis
          using False \<open>ke_vfs_Read E ?p = None\<close> file_step_trans [OF fdTable_step wstore_step]
          unfolding sysOpenat_def Let_def by simp
      next
        case (Some d)
        then have "kernel_ok (wstore ?k) \<Longrightarrow> slice_ok (k_heap (wstore ?k)) d"
          by (auto simp: kernel_ok_def)
        note open_fd [OF this]
        note file_step_trans [OF file_step_trans [OF fdTable_step wstore_step] this]
        then show ?thesis
          using False \<open>ke_vfs_Read E ?p = None\<close> Some unfolding sysOpenat_def Let_def by simp
      qed
    next
      case (Some bs)
      obtain d h where n: "new_slice bs (k_heap ?k) = (d, h)"
        by (cases "new_slice bs (k_heap ?k)")
      have "slice_ok h d"
        using n by (auto simp: new_slice_def slice_ok_def)
      then have "kernel_ok (?k\<lparr>k_heap := h\<rparr>) \<Longrightarrow> slice_ok (k_heap (?k\<lparr>k_heap := h\<rparr>)) d" by simp
      note open_fd [OF this]
      note file_step_trans [OF file_step_trans [OF fdTable_step new_slice_step(1) [OF n]] this]
      then show ?thesis
        using False Some n unfolding sysOpenat_def Let_def by simp
    qed
  qed
qed

lemma read_at_step: "fd_file k fd = Some f \<Longrightarrow> file_step k (snd (read_at E fd f data buf n k))"
proof -
  assume f: "fd_file k fd = Some f"
  let ?d = "take (unat n) (drop (unat (of_pos f)) (slice_bytes (k_heap k) data))"
  obtain ok k2 where w: "kwrite E buf ?d k = (ok, k2)" by (cases "kwrite E buf ?d k")
  have f2: "fd_file k2 fd = Some f"
    using kwrite_views [OF w] f by simp
  show ?thesis
    using w kwrite_D [OF w] file_step_trans [OF kwrite_D [OF w] set_pos_step [OF f2]]
    unfolding read_at_def Let_def by (simp split: bool.split)
qed

lemma sysRead_step: "file_step k (snd (sysRead E a k))"
proof (cases "fd_file (fdTable k) (fd32 (a 0))")
  case None
  then show ?thesis by (simp add: sysRead_def Let_def)
next
  case (Some f)
  obtain d k1 where fd: "fileData f (fdTable k) = (d, k1)" by (cases "fileData f (fdTable k)")
  have "fd_file k1 (fd32 (a 0)) = Some f"
    using Some fileData_step(2) [OF fd] by simp
  note file_step_trans [OF file_step_trans [OF fdTable_step fileData_step(1) [OF fd]] read_at_step [OF this]]
  then show ?thesis
    using Some fd by (simp add: sysRead_def Let_def)
qed

lemma sysLseek_step: "file_step k (snd (sysLseek a k))"
proof (cases "fd_file (fdTable k) (fd32 (a 0))")
  case None
  then show ?thesis by (simp add: sysLseek_def Let_def)
next
  case (Some f)
  obtain d k1 where fd: "fileData f (fdTable k) = (d, k1)" by (cases "fileData f (fdTable k)")
  have f1: "fd_file k1 (fd32 (a 0)) = Some f"
    using fileData_step(2) [OF fd] Some by simp
  have "file_step k (set_fd fd (Some f) (fdTable k))" for fd
    using file_step_trans [OF fdTable_step set_pos_step [OF Some, where x = "of_pos f"]] by simp
  then show ?thesis
    using Some fd file_step_trans [OF fdTable_step set_pos_step [OF Some]]
      file_step_trans [OF file_step_trans [OF fdTable_step fileData_step(1) [OF fd]] set_pos_step [OF f1]]
    unfolding sysLseek_def Let_def by simp
qed

lemma sysClose_step: "file_step k (snd (sysClose a k))"
proof -
  have "file_step k (set_fd fd None (fdTable k))" for fd
    by (rule file_step_trans [OF fdTable_step set_fd_step]) simp
  then show ?thesis by (simp add: sysClose_def Let_def)
qed

lemma sysFstat_step: "file_step k (snd (sysFstat E a k))"
proof (cases "fd_file (fdTable k) (fd32 (a 0))")
  case None
  then show ?thesis
    by (simp add: sysFstat_def Let_def writeStatMode_def file_step_trans [OF fdTable_step kwrite_step])
next
  case (Some f)
  obtain d k1 where fd: "fileData f (fdTable k) = (d, k1)" by (cases "fileData f (fdTable k)")
  show ?thesis
    using Some fd by (simp add: sysFstat_def Let_def writeStatMode_def writeStat_def
        file_step_trans [OF file_step_trans [OF fdTable_step fileData_step(1) [OF fd]] kwrite_step])
qed

lemma file_size_step: "file_size E p k = (r, k') \<Longrightarrow> file_step k k'"
  by (auto simp: file_size_def Let_def split: option.splits)

lemma sysNewfstatat_step: "file_step k (snd (sysNewfstatat E a k))"
  by (auto simp: sysNewfstatat_def Let_def writeStatMode_def writeStat_def split: prod.split option.split
      dest!: file_size_step intro: file_step_trans [OF _ kwrite_step])

lemma sysStatx_step: "file_step k (snd (sysStatx E a k))"
  by (auto simp: sysStatx_def Let_def split: prod.split option.split
      dest!: file_size_step intro: file_step_trans [OF _ kwrite_step])

lemma sysFaccessat_step: "file_step k (snd (sysFaccessat E a k))"
  by (simp add: sysFaccessat_def Let_def)

lemma sysMkdirat_step: "file_step k (snd (sysMkdirat E a k))"
  by (simp add: sysMkdirat_def)

lemma mmap_place_step: "mmap_place E a k = (addr, k') \<Longrightarrow> file_step k k'"
proof -
  assume m: "mmap_place E a k = (addr, k')"
  have fixed: "file_step k (snd (on_be h (k\<lparr>k_mem := s\<rparr>)))" for h s
    by (rule file_step_trans [OF other_fields_step(1) on_be_step])
  show ?thesis
    using m by (auto simp: mmap_place_def Let_def fixed split: if_splits prod.splits)
qed

lemma sysMmap_step: "file_step k (snd (sysMmap E a k))"
  unfolding sysMmap_def
  by (simp split: prod.split bool.split add: file_step_trans [OF mmap_place_step on_be_D])

lemma sysMunmap_step: "file_step k (snd (sysMunmap E a k))"
  unfolding sysMunmap_def file_step_ret by (rule file_step_trans [OF other_fields_step(1) on_be_step])

lemma sysMprotect_step: "file_step k (snd (sysMprotect E a k))"
  unfolding sysMprotect_def Let_def
  by (auto split: prod.split bool.split intro: file_step_trans [OF other_fields_step(1) on_be_D])

lemma brk_set_step: "file_step k (snd (brk_set E want k))"
  unfolding brk_set_def Let_def
  by (simp split: prod.split bool.split add: file_step_trans [OF on_be_D other_fields_step(2)] on_be_D)

lemma sysBrk_step: "file_step k (snd (sysBrk E a k))"
  unfolding sysBrk_def Let_def by (simp add: brk_set_step file_step_trans [OF other_fields_step(2) brk_set_step])

lemma nowTime_step: "nowTime E k = (t, k') \<Longrightarrow> file_step k k'"
  by (auto simp: nowTime_def split: if_splits prod.splits)

lemma sysClockGettime_step: "file_step k (snd (sysClockGettime E a k))"
  by (auto simp: sysClockGettime_def split: prod.split dest!: nowTime_step intro: file_step_trans [OF _ kwrite_step])

lemma sysGettimeofday_step: "file_step k (snd (sysGettimeofday E a k))"
  by (auto simp: sysGettimeofday_def split: prod.split dest!: nowTime_step intro: file_step_trans [OF _ kwrite_step])

lemma randRead_step: "randRead E n k = (r, k') \<Longrightarrow> file_step k k'"
  by (auto simp: randRead_def Let_def split: if_splits prod.splits)

lemma getrandom_step: "file_step k (snd (getrandom_loop E dst n m k))"
proof (induction E dst n m k rule: getrandom_loop.induct)
  case (1 E dst n m k)
  show ?case
  proof (cases "m < n")
    case False
    then show ?thesis by (subst getrandom_loop.simps) simp
  next
    case True
    let ?len = "min (n - m) (min n 4096)"
    obtain r k1 where r: "randRead E ?len k = (r, k1)" by (cases "randRead E ?len k")
    note k1 = randRead_step [OF r]
    show ?thesis
    proof (cases r)
      case None
      then show ?thesis using True r k1 by (subst getrandom_loop.simps) (simp add: Let_def)
    next
      case (Some bs)
      obtain ok k2 where w: "kwrite E (dst + of_nat m) bs k1 = (ok, k2)" by (cases "kwrite E (dst + of_nat m) bs k1")
      note k2 = file_step_trans [OF k1 kwrite_D [OF w]]
      show ?thesis
      proof (cases ok)
        case False
        then show ?thesis using True r Some w k2 by (subst getrandom_loop.simps) (simp add: Let_def)
      next
        case T: True
        have "file_step k2 (snd (getrandom_loop E dst n (m + ?len) k2))"
          using 1 True r Some w T by simp
        then show ?thesis
          using True r Some w k2 T file_step_trans by (subst getrandom_loop.simps) (auto simp: Let_def)
      qed
    qed
  qed
qed

lemma small_steps:
  "file_step k (snd (sysGetrandom E a k))" "file_step k (snd (sysExit E a k))" "file_step k (snd (sysUname E a k))"
  "file_step k (snd (sysSysinfo E a k))" "file_step k (snd (sysReadlinkat E a k))" "file_step k (snd (sysGetcwd E a k))"
  "file_step k (snd (sysPrlimit64 E a k))" "file_step k (snd (sysSchedGetaffinity E a k))" "file_step k (snd (const_ret v k))"
  by (simp_all add: sysGetrandom_def getrandom_step sysExit_def sysUname_def sysSysinfo_def sysReadlinkat_def sysGetcwd_def
      sysPrlimit64_def sysSchedGetaffinity_def const_ret_def Let_def split: option.split prod.split)

lemma table_step: "h \<in> snd ` set (table_pairs E) \<Longrightarrow> file_step k (snd (h a k))"
  by (auto simp: table_pairs_def small_steps sysWrite_step sysWritev_step sysOpenat_step sysRead_step sysLseek_step
      sysClose_step sysFstat_step sysNewfstatat_step sysStatx_step sysFaccessat_step sysMkdirat_step sysMmap_step
      sysMunmap_step sysMprotect_step sysBrk_step sysClockGettime_step sysGettimeofday_step)

lemma syscall_step: "file_step k (snd (syscall E num a k))"
proof (cases "map_of (table_pairs E) num")
  case None
  then show ?thesis by (simp add: syscall_def)
next
  case (Some h)
  then have "h \<in> snd ` set (table_pairs E)"
    by (force dest: map_of_SomeD)
  then show ?thesis using Some table_step by (simp add: syscall_def)
qed

lemma Dispatch_step: "file_step k (snd (Dispatch E k))"
proof -
  let ?a = "\<lambda>i. if i < 6 then reg_or_zero E i k else 0"
  obtain v k1 where s: "syscall E (reg_or_zero E 8 k) ?a k = (v, k1)"
    by (cases "syscall E (reg_or_zero E 8 k) ?a k")
  then have "file_step k k1"
    using syscall_step [of k E "reg_or_zero E 8 k" ?a] by simp
  then show ?thesis
    using s by (simp add: Dispatch_def Let_def file_step_trans [OF _ on_be_step] split: option.split)
qed

end
