(* ===== verification/Kernel_Snapshot.thy ===== *)
theory Kernel_Snapshot
  imports Kernel_Keep
begin

text \<open>
  \<open>Snapshot\<close> and \<open>Restore\<close> of the kernel: what a restored state has in common with the one the snapshot
  was taken of, whatever system calls came between.
\<close>

text \<open>A copied overlay: the same files in order, each with its bytes, in arrays of its own.\<close>

definition copied :: "u8 list list \<Rightarrow> u8 list list \<Rightarrow> (path \<times> slice) list \<Rightarrow> (path \<times> slice) list \<Rightarrow> bool" where
  "copied h h' w w' \<longleftrightarrow> (\<exists>x. h' = h @ x) \<and>
     list_all2 (\<lambda>(p, s) (q, t). p = q \<and> slice_ok h' t \<and> slice_bytes h' t = slice_bytes h s \<and>
       (sl_arr t = 0 \<or> length h \<le> sl_arr t)) w w' \<and>
     sorted_wrt (\<lambda>(p, s) (q, t). sl_arr s = sl_arr t \<longrightarrow> sl_arr s = 0) w'"

lemma slice_bytes_append: "slice_ok h s \<Longrightarrow> slice_bytes (h @ x) s = slice_bytes h s"
  by (simp add: slice_bytes_def slice_ok_def nth_append)

lemma append_nil:
  assumes "h \<noteq> []" and "h ! 0 = []"
  obtains t x where "slice_append grow nil_slice bs h = (t, h @ x)" and "slice_ok (h @ x) t"
    and "slice_bytes (h @ x) t = bs" and "sl_arr t = 0 \<or> sl_arr t = length h"
proof (cases "bs = []")
  case True
  have "h[0 := []] = h"
    using assms list_update_id [of h 0] by simp
  then show ?thesis
    using assms True that [of nil_slice "[]"]
    by (simp add: slice_append_def Let_def nil_slice_def slice_put_def slice_ok_def slice_bytes_def)
next
  case False
  let ?a = "bs @ replicate (max (length bs) (grow 0 (length bs)) - length bs) 0"
  show ?thesis
    using assms False that [of "\<lparr>sl_arr = length h, sl_len = length bs\<rparr>" "[?a]"]
    by (simp add: slice_append_def Let_def nil_slice_def slice_ok_def slice_bytes_def)
qed

lemma copy_wfiles_copied:
  assumes "h \<noteq> []" and "h ! 0 = []" and "\<forall>(p, s) \<in> set w. slice_ok h s" and "copy_wfiles grow w h = (w', h')"
  shows "copied h h' w w'"
  using assms
proof (induction w arbitrary: h w' h')
  case Nil
  then show ?case by (simp add: copied_def)
next
  case (Cons a w)
  obtain p s where a: "a = (p, s)" by (cases a)
  have s: "slice_ok h s" using Cons.prems(3) a by simp
  obtain t x where t: "slice_append grow nil_slice (slice_bytes h s) h = (t, h @ x)" "slice_ok (h @ x) t"
    "slice_bytes (h @ x) t = slice_bytes h s" "sl_arr t = 0 \<or> sl_arr t = length h"
    using append_nil [OF Cons.prems(1,2)] by blast
  obtain v h2 where c: "copy_wfiles grow w (h @ x) = (v, h2)"
    by (cases "copy_wfiles grow w (h @ x)")
  have r: "w' = (p, t) # v" "h' = h2"
    using Cons.prems(4) a t(1) c by auto
  have ok: "\<forall>(p, s) \<in> set w. slice_ok h s"
    using Cons.prems(3) by simp
  have "copied (h @ x) h2 w v"
    using Cons.prems(1,2) ok slice_ok_append [of h _ x] by (intro Cons.IH [OF _ _ _ c]) (auto simp: nth_append)
  then obtain y where y: "h2 = (h @ x) @ y"
    and l: "list_all2 (\<lambda>(p, s) (q, t). p = q \<and> slice_ok h2 t \<and> slice_bytes h2 t = slice_bytes (h @ x) s \<and>
       (sl_arr t = 0 \<or> length (h @ x) \<le> sl_arr t)) w v"
    and srt: "sorted_wrt (\<lambda>(p, s) (q, t). sl_arr s = sl_arr t \<longrightarrow> sl_arr s = 0) v"
    by (auto simp: copied_def)
  have l2: "list_all2 (\<lambda>(p, s) (q, t). p = q \<and> slice_ok h2 t \<and> slice_bytes h2 t = slice_bytes h s \<and>
       (sl_arr t = 0 \<or> length h \<le> sl_arr t)) w v"
    by (rule list.rel_mono_strong [OF l]) (use ok in \<open>auto simp: slice_bytes_append\<close>)
  have "x = [] \<Longrightarrow> sl_arr t = 0"
    using t(2,4) by (auto simp: slice_ok_def)
  then have fresh: "sl_arr t = 0 \<or> sl_arr t < length (h @ x)"
    using t(4) by (cases x) auto
  have "\<forall>(q, u) \<in> set v. sl_arr t = sl_arr u \<longrightarrow> sl_arr t = 0"
    using l fresh by (fastforce simp: list_all2_conv_all_nth in_set_conv_nth)
  moreover have "slice_ok h2 t" "slice_bytes h2 t = slice_bytes h s" "h2 = h @ x @ y"
    using slice_ok_append [OF t(2), of y] slice_bytes_append [OF t(2), of y] t(3) y by simp_all
  ultimately show ?case
    using t(4) l2 srt by (auto simp: copied_def r a)
qed

lemma copied_lookup:
  "copied h h' w w' \<Longrightarrow> rel_option (\<lambda>s t. slice_ok h' t \<and> slice_bytes h' t = slice_bytes h s \<and>
     (sl_arr t = 0 \<or> length h \<le> sl_arr t)) (map_of w p) (map_of w' p)"
  unfolding copied_def
proof (elim conjE)
  assume "list_all2 (\<lambda>(p, s) (q, t). p = q \<and> slice_ok h' t \<and> slice_bytes h' t = slice_bytes h s \<and>
       (sl_arr t = 0 \<or> length h \<le> sl_arr t)) w w'"
  then show ?thesis
    by (induction rule: list_all2_induct) auto
qed

lemma copied_keys: "copied h h' w w' \<Longrightarrow> map fst w' = map fst w"
proof -
  assume "copied h h' w w'"
  then have "list_all2 (\<lambda>(p, s) (q, t). p = q) w w'"
    unfolding copied_def by (elim conjE list_all2_mono) auto
  then show ?thesis
    by (induction rule: list_all2_induct) auto
qed

lemma copied_inj:
  assumes "copied h h' w w'" and "map_of w' p = Some s" and "map_of w' q = Some t" and "sl_arr s = sl_arr t" and "sl_arr s \<noteq> 0"
  shows "p = q"
proof -
  have "sorted_wrt (\<lambda>(p, s) (q, t). sl_arr s = sl_arr t \<longrightarrow> sl_arr s = 0) w'"
    using assms(1) by (simp add: copied_def)
  then have "\<forall>x \<in> set w'. \<forall>y \<in> set w'. sl_arr (snd x) = sl_arr (snd y) \<longrightarrow> sl_arr (snd x) = 0 \<or> x = y"
    by (induction w') (auto simp: split_beta)
  then show ?thesis
    using map_of_SomeD [OF assms(2)] map_of_SomeD [OF assms(3)] assms(4,5) by fastforce
qed

subsection \<open>A snapshot\<close>

definition st_wfile :: "'r kstate \<Rightarrow> path \<Rightarrow> slice option" where
  "st_wfile st p = (case st_wfiles st of None \<Rightarrow> None | Some w \<Rightarrow> map_of w p)"

text \<open>What a snapshot says of the files, read in a heap that has kept its arrays.\<close>

definition st_overlay :: "u8 list list \<Rightarrow> 'r kstate \<Rightarrow> path \<Rightarrow> u8 list option" where
  "st_overlay h st p = map_option (slice_bytes h) (st_wfile st p)"

definition frozen :: "'r kstate \<Rightarrow> ('b, 'h, 'r) kernel \<Rightarrow> bool" where
  "frozen st k \<longleftrightarrow>
     (\<forall>w. st_wfiles st = Some w \<longrightarrow> distinct (map fst w) \<and>
        (\<forall>(p, s) \<in> set w. slice_ok (k_heap k) s \<and> sl_arr s \<notin> owned k)) \<and>
     (\<forall>t fd f. st_files st = Some t \<longrightarrow> t fd = Some f \<longrightarrow> slice_ok (k_heap k) (of_data f))"

lemma frozen_evolves:
  assumes "frozen st k" and e: "evolves k k'"
  shows "frozen st k'" and "st_overlay (k_heap k') st = st_overlay (k_heap k) st"
proof -
  have ok: "slice_ok (k_heap k') s" if "slice_ok (k_heap k) s" for s
    using that e by (auto simp: slice_ok_def evolves_def)
  have same: "slice_bytes (k_heap k') s = slice_bytes (k_heap k) s \<and> sl_arr s \<notin> owned k'"
    if "slice_ok (k_heap k) s" "sl_arr s \<notin> owned k" for s
    using that e by (auto simp: slice_ok_def evolves_def slice_bytes_def)
  show "frozen st k'"
    using assms(1) ok same by (fastforce simp: frozen_def)
  show "st_overlay (k_heap k') st = st_overlay (k_heap k) st"
  proof
    fix p
    show "st_overlay (k_heap k') st p = st_overlay (k_heap k) st p"
    proof (cases "st_wfile st p")
      case (Some s)
      then obtain w where "st_wfiles st = Some w" "(p, s) \<in> set w"
        by (auto simp: st_wfile_def dest: map_of_SomeD split: option.splits)
      then have "slice_ok (k_heap k) s" "sl_arr s \<notin> owned k"
        using assms(1) by (auto simp: frozen_def)
      then show ?thesis
        using same Some by (simp add: st_overlay_def)
    qed (simp add: st_overlay_def)
  qed
qed

lemma copyWfiles_cases:
  assumes "k_heap k \<noteq> []" and "k_heap k ! 0 = []" and "\<And>ws p s. w = Some ws \<Longrightarrow> (p, s) \<in> set ws \<Longrightarrow> slice_ok (k_heap k) s"
    and "copyWfiles grow w (k_heap k) = (w', h)"
  obtains "w = None" "w' = None" "h = k_heap k"
  | ws ws' where "w = Some ws" "w' = Some ws'" "copied (k_heap k) h ws ws'"
proof (cases w)
  case None
  then show ?thesis using assms(4) that(1) by (simp add: copyWfiles_def)
next
  case (Some ws)
  then obtain ws' where c: "copy_wfiles grow ws (k_heap k) = (ws', h)" "w' = Some ws'"
    using assms(4) by (auto simp: copyWfiles_def split: prod.splits)
  have "copied (k_heap k) h ws ws'"
    using assms(3) Some by (intro copy_wfiles_copied [OF assms(1,2) _ c(1)]) auto
  with Some c show ?thesis by (intro that(2))
qed

lemma overlay_entries: "kernel_ok k \<Longrightarrow> k_wfiles k = Some ws \<Longrightarrow> (p, s) \<in> set ws \<Longrightarrow> slice_ok (k_heap k) s"
  using map_of_is_SomeI [of ws p s] by (auto simp: kernel_ok_def distinct_files_def wfile_def)

text \<open>Taking a snapshot changes nothing the guest can see, and freezes what it has copied.\<close>

lemma snapshot_frozen:
  assumes k: "kernel_ok k" and s: "kSnapshot E k = (st, k1)"
  shows "kernel_ok k1 \<and> evolves k k1" and "frozen st k1" and "st_overlay (k_heap k1) st = overlay k"
    and "k1 = k\<lparr>k_heap := k_heap k1\<rparr>"
proof -
  obtain w h where c: "copyWfiles (ke_grow E) (k_wfiles k) (k_heap k) = (w, h)"
    by (cases "copyWfiles (ke_grow E) (k_wfiles k) (k_heap k)")
  have st: "st_wfiles st = w" "st_files st = k_files k" and k1: "k1 = k\<lparr>k_heap := h\<rparr>"
    using s c by (auto simp: kSnapshot_def)
  have base: "k_heap k \<noteq> []" "k_heap k ! 0 = []"
    using k by (simp_all add: kernel_ok_def)
  have main: "(\<exists>x. h = k_heap k @ x) \<and> st_overlay h st = overlay k \<and>
      (\<forall>ws. w = Some ws \<longrightarrow> distinct (map fst ws) \<and>
        (\<forall>(p, s) \<in> set ws. slice_ok h s \<and> (sl_arr s = 0 \<or> length (k_heap k) \<le> sl_arr s)))"
    using base overlay_entries [OF k] c
  proof (rule copyWfiles_cases)
    assume "k_wfiles k = None" "w = None" "h = k_heap k"
    then show ?thesis
      by (simp add: st_overlay_def st_wfile_def st overlay_def wfile_def fun_eq_iff)
  next
    fix ws ws' assume w: "k_wfiles k = Some ws" "w = Some ws'" and cp: "copied (k_heap k) h ws ws'"
    have "st_overlay h st p = overlay k p" for p
      using copied_lookup [OF cp, of p] w
      by (auto simp: st_overlay_def st_wfile_def st overlay_def wfile_def option_rel_Some1 option_rel_Some2 elim!: option.rel_cases)
    moreover have "\<forall>(p, s) \<in> set ws'. slice_ok h s \<and> (sl_arr s = 0 \<or> length (k_heap k) \<le> sl_arr s)"
      using cp unfolding copied_def by (fastforce simp: list_all2_conv_all_nth in_set_conv_nth)
    moreover have "distinct (map fst ws')"
      using copied_keys [OF cp] k w by (simp add: kernel_ok_def distinct_files_def)
    ultimately show ?thesis
      using cp w by (auto simp: copied_def)
  qed
  then obtain x where x: "h = k_heap k @ x" by blast
  have own: "i \<in> owned k1 \<Longrightarrow> i < length (k_heap k) \<and> i \<noteq> 0" for i
    using k by (auto simp: k1 owned_def kernel_ok_def slice_ok_def)
  have mono: "slice_ok (k_heap k) s \<Longrightarrow> slice_ok h s" for s
    unfolding x by (rule slice_ok_append)
  have "kernel_ok k1"
    using k mono unfolding kernel_ok_def k1 heap_upd_simps by (auto simp: x nth_append)
  moreover have "evolves k k1"
    by (simp add: evolves_def k1 x nth_append)
  ultimately show "kernel_ok k1 \<and> evolves k k1" ..
  show "frozen st k1"
    using main own mono k by (fastforce simp: frozen_def st k1 kernel_ok_def fd_file_def)
  show "st_overlay (k_heap k1) st = overlay k"
    using main by (simp add: k1)
  show "k1 = k\<lparr>k_heap := k_heap k1\<rparr>"
    by (simp add: k1)
qed

text \<open>Restoring a frozen snapshot: the files of the snapshot, read in a heap that has only grown.\<close>

lemma restore_frozen:
  assumes k: "kernel_ok k" and f: "frozen st k" and r: "kRestore E st k = k'"
  shows "kernel_ok k'" and "overlay k' = st_overlay (k_heap k) st" and "k_files k' = st_files st"
    and "\<And>d. slice_ok (k_heap k) d \<Longrightarrow> slice_bytes (k_heap k') d = slice_bytes (k_heap k) d"
proof -
  define k0 where "k0 = (if BrkTop k > brkTopOf (st_brkCur st)
      then snd (on_be (MemUnmap (ke_B E) (brkTopOf (st_brkCur st)) (BrkTop k - brkTopOf (st_brkCur st))) k) else k)"
  have k0: "k_heap k0 = k_heap k"
    by (simp add: k0_def on_be_def split: prod.split)
  obtain w h where c: "copyWfiles (ke_grow E) (st_wfiles st) (k_heap k) = (w, h)"
    by (cases "copyWfiles (ke_grow E) (st_wfiles st) (k_heap k)")
  have k': "k_heap k' = h" "k_wfiles k' = w" "k_files k' = st_files st"
    using r c k0 unfolding kRestore_def k0_def [symmetric] Let_def by (auto simp: k0_def [symmetric])
  have base: "k_heap k \<noteq> []" "k_heap k ! 0 = []"
    using k by (simp_all add: kernel_ok_def)
  have entries: "slice_ok (k_heap k) s" if "st_wfiles st = Some ws" "(p, s) \<in> set ws" for ws p s
    using f that by (auto simp: frozen_def)
  have main: "(\<exists>x. h = k_heap k @ x) \<and> overlay k' = st_overlay (k_heap k) st \<and> distinct_files k' \<and>
      (\<forall>p s. wfile k' p = Some s \<longrightarrow> slice_ok h s) \<and>
      (\<forall>p q s t. wfile k' p = Some s \<longrightarrow> wfile k' q = Some t \<longrightarrow> sl_arr s = sl_arr t \<longrightarrow> sl_arr s \<noteq> 0 \<longrightarrow> p = q)"
    using base entries c
  proof (rule copyWfiles_cases)
    assume "st_wfiles st = None" "w = None" "h = k_heap k"
    then show ?thesis
      by (simp add: st_overlay_def st_wfile_def overlay_def wfile_def fun_eq_iff distinct_files_def k')
  next
    fix ws ws' assume w: "st_wfiles st = Some ws" "w = Some ws'" and cp: "copied (k_heap k) h ws ws'"
    note look = copied_lookup [OF cp]
    have "overlay k' p = st_overlay (k_heap k) st p" for p
      using look [of p] w
      by (auto simp: st_overlay_def st_wfile_def overlay_def wfile_def k' elim!: option.rel_cases)
    moreover have "wfile k' p = Some s \<Longrightarrow> slice_ok h s" for p s
      using look [of p] w by (auto simp: wfile_def k' elim!: option.rel_cases)
    moreover have "distinct_files k'"
      using copied_keys [OF cp] f w by (simp add: distinct_files_def k' frozen_def)
    moreover have "p = q" if "wfile k' p = Some s" "wfile k' q = Some t" "sl_arr s = sl_arr t" "sl_arr s \<noteq> 0" for p q s t
      using copied_inj [OF cp] that w by (auto simp: wfile_def k')
    ultimately show ?thesis
      using cp by (auto simp: copied_def)
  qed
  then obtain x where x: "h = k_heap k @ x" by blast
  have mono: "slice_ok (k_heap k) s \<Longrightarrow> slice_ok h s" for s
    unfolding x by (rule slice_ok_append)
  have fds: "slice_ok h (of_data g)" if "fd_file k' fd = Some g" for fd g
    using that f mono by (auto simp: fd_file_def k' frozen_def split: option.splits)
  show "kernel_ok k'"
    unfolding kernel_ok_def k'(1) using main base fds by (auto simp: x nth_append)
  show "overlay k' = st_overlay (k_heap k) st" "k_files k' = st_files st"
    using main k'(3) by simp_all
  show "slice_ok (k_heap k) d \<Longrightarrow> slice_bytes (k_heap k') d = slice_bytes (k_heap k) d" for d
    by (simp add: k' x slice_bytes_append)
qed

lemma restore_fields:
  "k_brkCur (kRestore E st k) = st_brkCur st" "k_Exited (kRestore E st k) = st_exited st"
  "k_ExitCode (kRestore E st k) = st_exitCode st" "k_nextFd (kRestore E st k) = st_nextFd st"
  "k_dirs (kRestore E st k) = st_dirs st"
  "k_rng (kRestore E st k) = (if k_rng k = None then None else st_rng st)"
  by (auto simp: kRestore_def Let_def on_be_def split: prod.split option.split)

text \<open>Any number of system calls, numbers and arguments as they come.\<close>

definition calls :: "('b, 'x, 'h, 'r) kenv \<Rightarrow> (u64 \<times> args) list \<Rightarrow> ('b, 'h, 'r) kernel \<Rightarrow> ('b, 'h, 'r) kernel" where
  "calls E cs k = fold (\<lambda>(n, a) k. snd (syscall E n a k)) cs k"

lemma calls_step: "file_step k (calls E cs k)"
proof (induction cs arbitrary: k)
  case Nil
  then show ?case by (simp add: calls_def)
next
  case (Cons c cs)
  obtain n a where "c = (n, a)" by (cases c)
  then have "calls E (c # cs) k = calls E cs (snd (syscall E n a k))"
    by (simp add: calls_def)
  then show ?case
    using file_step_trans [OF syscall_step Cons.IH] by simp
qed

end
