(* ===== verification/Kernel_Memory.thy ===== *)
theory Kernel_Memory
  imports Kernel_Snapshot Interp
begin

text \<open>
  The kernel over a backend: under the contract of \<open>guest_backend\<close>, every system call keeps the backend's
  invariant, and reads and writes move bytes between guest memory and files.
\<close>

text \<open>Calls that do not touch the backend.\<close>

lemma be_fileData: "k_be (snd (fileData f k)) = k_be k"
  by (simp add: fileData_def Let_def)

lemma be_write_file: "k_be (snd (write_file fd f d k)) = k_be k"
  by (simp add: write_file_def Let_def ret_def split: prod.split)

lemma be_writev: "k_be (snd (writev_loop E fd iov js tot k)) = k_be k"
  by (induction E fd iov js tot k rule: writev_loop.induct)
    (auto simp: Let_def split: option.split prod.split)

lemma be_quiet:
  "k_be (snd (sysWrite E a k)) = k_be k" "k_be (snd (sysWritev E a k)) = k_be k" "k_be (snd (sysOpenat E a k)) = k_be k"
  "k_be (snd (sysClose a k)) = k_be k" "k_be (snd (sysLseek a k)) = k_be k" "k_be (snd (sysMkdirat E a k)) = k_be k"
  "k_be (snd (sysFaccessat E a k)) = k_be k" "k_be (snd (const_ret v k)) = k_be k"
proof -
  show "k_be (snd (sysWrite E a k)) = k_be k"
    by (simp add: sysWrite_def Let_def be_write_file split: option.split)
  show "k_be (snd (sysWritev E a k)) = k_be k"
    by (simp add: sysWritev_def be_writev)
  show "k_be (snd (sysOpenat E a k)) = k_be k"
    by (simp add: sysOpenat_def Let_def new_slice_def split: option.split)
  show "k_be (snd (sysClose a k)) = k_be k"
    by (simp add: sysClose_def Let_def)
  show "k_be (snd (sysLseek a k)) = k_be k"
    by (auto simp: sysLseek_def Let_def fileData_def split: option.split)
  show "k_be (snd (sysMkdirat E a k)) = k_be k" "k_be (snd (sysFaccessat E a k)) = k_be k" "k_be (snd (const_ret v k)) = k_be k"
    by (simp_all add: sysMkdirat_def sysFaccessat_def Let_def const_ret_def)
qed

lemma be_file_size: "file_size E p k = (r, k') \<Longrightarrow> k_be k' = k_be k"
  by (auto simp: file_size_def Let_def split: option.splits)

lemma be_nowTime: "nowTime E k = (t, k') \<Longrightarrow> k_be k' = k_be k"
  by (auto simp: nowTime_def split: if_splits prod.splits)

lemma be_randRead: "randRead E n k = (r, k') \<Longrightarrow> k_be k' = k_be k \<and> (\<forall>bs. r = Some bs \<longrightarrow> length bs = n)"
  by (auto simp: randRead_def Let_def split: if_splits prod.splits)

lemma length_stat [simp]: "length (stat_bytes n mode ino) = 128" "length (statx_bytes n d) = 256" "length sysinfo_bytes = 112"
  by (simp_all add: stat_bytes_def statx_bytes_def sysinfo_bytes_def)

lemma length_uname [simp]: "length uname_bytes = 390"
  by (simp add: uname_bytes_def bytes_of_def)

lemma getrandom_inv:
  assumes w: "\<And>k a bs. P (k_be k) \<Longrightarrow> length bs < 2 ^ 63 \<Longrightarrow> P (k_be (snd (kwrite E a bs k)))"
  shows "P (k_be k) \<Longrightarrow> P (k_be (snd (getrandom_loop E dst n m k)))"
  using w
proof (induction E dst n m k rule: getrandom_loop.induct)
  case (1 E dst n m k)
  show ?case
  proof (cases "m < n")
    case False
    then show ?thesis using 1 by (subst getrandom_loop.simps) simp
  next
    case True
    let ?len = "min (n - m) (min n 4096)"
    obtain r k1 where r: "randRead E ?len k = (r, k1)" by (cases "randRead E ?len k")
    have k1: "P (k_be k1)" using 1(2) be_randRead [OF r] by simp
    show ?thesis
    proof (cases r)
      case None
      then show ?thesis using True r k1 by (subst getrandom_loop.simps) (simp add: Let_def)
    next
      case (Some bs)
      obtain ok k2 where w: "kwrite E (dst + of_nat m) bs k1 = (ok, k2)" by (cases "kwrite E (dst + of_nat m) bs k1")
      have "length bs < 2 ^ 63"
        using be_randRead [OF r] Some by simp
      then have k2: "P (k_be k2)" using 1(3) [OF k1] w by (metis snd_conv)
      show ?thesis
      proof (cases ok)
        case False
        then show ?thesis using True r Some w k2 by (subst getrandom_loop.simps) (simp add: Let_def)
      next
        case T: True
        have "P (k_be (snd (getrandom_loop E dst n (m + ?len) k2)))"
          by (rule 1(1) [OF _ refl _ Some w [symmetric]]) (use True r T k2 1(3) in simp_all)
        then show ?thesis
          using True r Some w T by (subst getrandom_loop.simps) (simp add: Let_def)
      qed
    qed
  qed
qed

locale kernel_host = guest_backend "ke_B E" inv bytes
  for E :: "('b, 'x, 'h, 'r) kenv" and inv :: "'b \<Rightarrow> bool" and bytes :: "'b \<Rightarrow> u64 \<Rightarrow> u8 option"
begin

lemma kwrite_inv: "inv (k_be k) \<Longrightarrow> length bs < 2 ^ 63 \<Longrightarrow> inv (k_be (snd (kwrite E a bs k)))"
  using be_write [of "k_be k" bs a] by (simp add: kwrite_def on_be_def split_beta)

lemma kwrite_bytes: "inv (k_be k) \<Longrightarrow> length bs < 2 ^ 63 \<Longrightarrow> kwrite E a bs k = (ok, k') \<Longrightarrow>
    bytes (k_be k') = (if ok then mem_put a bs (bytes (k_be k)) else bytes (k_be k))"
  using be_write [of "k_be k" bs a] by (auto simp: kwrite_def on_be_def split: prod.splits)

lemma be_op_inv:
  "inv (k_be k) \<Longrightarrow> inv (k_be (snd (on_be (MemMap (ke_B E) x n p) k)))"
  "inv (k_be k) \<Longrightarrow> inv (k_be (snd (on_be (MemUnmap (ke_B E) x n) k)))"
  "inv (k_be k) \<Longrightarrow> inv (k_be (snd (on_be (MemProtect (ke_B E) x n p) k)))"
  "inv (k_be k) \<Longrightarrow> inv (k_be (snd (on_be (RegWrite (ke_B E) r v) k)))"
  using be_map be_unmap be_protect be_reg by (simp_all add: on_be_def split_beta)

lemma be_op_D:
  "on_be (MemMap (ke_B E) x n p) k = (ok, k') \<Longrightarrow> inv (k_be k) \<Longrightarrow> inv (k_be k')"
  "on_be (MemProtect (ke_B E) x n p) k = (ok, k') \<Longrightarrow> inv (k_be k) \<Longrightarrow> inv (k_be k')"
  using be_op_inv(1) [of k x n p] be_op_inv(3) [of k x n p] by simp_all

lemma read_inv:
  assumes k: "inv (k_be k)"
  shows "inv (k_be (snd (sysRead E a k)))"
proof -
  have at: "inv (k_be (snd (read_at E fd f data buf n q)))" if q: "inv (k_be q)" for fd f data buf n q
  proof -
    let ?d = "take (unat n) (drop (unat (of_pos f)) (slice_bytes (k_heap q) data))"
    have "inv (k_be (snd (kwrite E buf ?d q)))" if "\<not> sint n \<le> 0"
      using unat_sint_bound [of n] that by (intro kwrite_inv [OF q]) (simp add: min_def)
    then show ?thesis
      using q unfolding read_at_def Let_def by (cases "kwrite E buf ?d q") (simp split: bool.split)
  qed
  have "inv (k_be (snd (fileData f (fdTable k))))" for f
    using k be_fileData [of f "fdTable k"] by simp
  then show ?thesis
    using k at by (auto simp: sysRead_def Let_def split_beta split: option.split)
qed

lemma mmap_inv:
  assumes "inv (k_be k)"
  shows "inv (k_be (snd (sysMmap E a k)))"
proof -
  obtain x k1 where p: "mmap_place E a k = (x, k1)" by (cases "mmap_place E a k")
  have "inv (k_be (snd (on_be (MemUnmap (ke_B E) y n) (k\<lparr>k_mem := s\<rparr>))))" for y n s
    using assms by (intro be_op_inv) simp
  then have "inv (k_be k1)"
    using p assms by (auto simp: mmap_place_def Let_def split: if_splits prod.splits)
  then show ?thesis
    by (auto simp: sysMmap_def p split: prod.split bool.split intro: be_op_D)
qed

lemma brk_inv:
  assumes "inv (k_be k)"
  shows "inv (k_be (snd (sysBrk E a k)))"
proof -
  have "inv (k_be q) \<Longrightarrow> inv (k_be (snd (brk_set E want q)))" for q want
    by (auto simp: brk_set_def Let_def split: prod.split bool.split intro: be_op_D)
  then show ?thesis
    using assms by (simp add: sysBrk_def Let_def)
qed

lemma stat_inv:
  assumes "inv (k_be k)"
  shows "inv (k_be (snd (sysFstat E a k)))" and "inv (k_be (snd (sysNewfstatat E a k)))" and "inv (k_be (snd (sysStatx E a k)))"
proof -
  have w: "inv (k_be q) \<Longrightarrow> inv (k_be (writeStatMode E x n m i q))" for x n m i q
    unfolding writeStatMode_def by (rule kwrite_inv) simp_all
  have fd: "inv (k_be (snd (fileData f (fdTable k))))" for f
    using assms be_fileData [of f "fdTable k"] by simp
  show "inv (k_be (snd (sysFstat E a k)))"
    using assms w fd by (auto simp: sysFstat_def Let_def writeStat_def split_beta split: option.split)
  have fs: "inv (k_be k')" if "file_size E p k = (r, k')" for p r k'
    using assms be_file_size [OF that] by simp
  show "inv (k_be (snd (sysNewfstatat E a k)))"
    using assms w fs by (auto simp: sysNewfstatat_def Let_def writeStat_def split: prod.split option.split)
  show "inv (k_be (snd (sysStatx E a k)))"
    using assms fs by (auto simp: sysStatx_def Let_def split: prod.split option.split intro!: kwrite_inv)
qed

lemma other_inv:
  assumes "inv (k_be k)"
  shows "inv (k_be (snd (sysMunmap E a k)))" "inv (k_be (snd (sysMprotect E a k)))" "inv (k_be (snd (sysClockGettime E a k)))"
    "inv (k_be (snd (sysGettimeofday E a k)))" "inv (k_be (snd (sysExit E a k)))" "inv (k_be (snd (sysUname E a k)))"
    "inv (k_be (snd (sysSysinfo E a k)))" "inv (k_be (snd (sysReadlinkat E a k)))" "inv (k_be (snd (sysGetcwd E a k)))"
    "inv (k_be (snd (sysPrlimit64 E a k)))" "inv (k_be (snd (sysSchedGetaffinity E a k)))" "inv (k_be (snd (sysGetrandom E a k)))"
proof -
  note k = assms kwrite_inv [OF assms]
  show "inv (k_be (snd (sysMunmap E a k)))"
    using assms by (auto simp: sysMunmap_def intro!: be_op_inv)
  show "inv (k_be (snd (sysMprotect E a k)))"
    using assms by (auto simp: sysMprotect_def Let_def split: prod.split bool.split dest: be_op_D)
  have now: "inv (k_be k')" if "nowTime E k = (t, k')" for t k'
    using assms be_nowTime [OF that] by simp
  show "inv (k_be (snd (sysClockGettime E a k)))" "inv (k_be (snd (sysGettimeofday E a k)))"
    using now by (auto simp: sysClockGettime_def sysGettimeofday_def split: prod.split intro!: kwrite_inv)
  show "inv (k_be (snd (sysExit E a k)))"
    using be_stop [OF assms] by (simp add: sysExit_def)
  show "inv (k_be (snd (sysUname E a k)))" "inv (k_be (snd (sysSysinfo E a k)))"
    using k by (simp_all add: sysUname_def sysSysinfo_def)
  show "inv (k_be (snd (sysReadlinkat E a k)))"
    using k by (auto simp: sysReadlinkat_def readlink_target_def Let_def bytes_of_def split: option.split)
  show "inv (k_be (snd (sysGetcwd E a k)))" "inv (k_be (snd (sysPrlimit64 E a k)))"
    using k by (simp_all add: sysGetcwd_def sysPrlimit64_def Let_def bytes_of_def split: prod.split)
  have "unat (if a 1 > 8 then 8 else a 1) \<le> 8"
    by (simp add: word_less_nat_alt)
  then show "inv (k_be (snd (sysSchedGetaffinity E a k)))"
    using k by (auto simp: sysSchedGetaffinity_def Let_def)
  show "inv (k_be (snd (sysGetrandom E a k)))"
    unfolding sysGetrandom_def by (rule getrandom_inv [where P = inv]) (use assms kwrite_inv in auto)
qed

text \<open>Every system call keeps the backend's invariant.\<close>

lemma syscall_inv:
  assumes k: "inv (k_be k)"
  shows "inv (k_be (snd (syscall E num a k)))"
proof (cases "map_of (table_pairs E) num")
  case None
  then show ?thesis using k by (simp add: syscall_def)
next
  case (Some h)
  have "h \<in> snd ` set (table_pairs E) \<Longrightarrow> inv (k_be (snd (h a k)))"
    using k by (auto simp: table_pairs_def be_quiet read_inv mmap_inv brk_inv stat_inv other_inv)
  then show ?thesis
    using Some map_of_SomeD [OF Some] by (force simp: syscall_def)
qed

lemma Dispatch_inv:
  assumes k: "inv (k_be k)"
  shows "inv (k_be (snd (Dispatch E k)))"
proof -
  let ?a = "\<lambda>i. if i < 6 then reg_or_zero E i k else 0"
  obtain v k1 where s: "syscall E (reg_or_zero E 8 k) ?a k = (v, k1)"
    by (cases "syscall E (reg_or_zero E 8 k) ?a k")
  then have "inv (k_be k1)"
    using syscall_inv [OF k, of "reg_or_zero E 8 k" ?a] by simp
  then show ?thesis
    using s by (simp add: Dispatch_def Let_def be_op_inv(4) split: option.split)
qed

lemma calls_inv: "inv (k_be k) \<Longrightarrow> inv (k_be (calls E cs k))"
  by (induction cs arbitrary: k) (auto simp: calls_def intro: syscall_inv)

text \<open>Reading: as much as the buffer and the rest of the file allow, all or nothing in guest memory.\<close>

lemma file_read:
  assumes k: "inv (k_be k)" "kernel_ok k" and f: "fd_file k (fd32 (a 0)) = Some f"
    and pos: "0 \<le> sint (of_pos f)" and len: "length (contents k f) < 2 ^ 63" and n: "0 \<le> sint (a 2)"
  defines "d \<equiv> take (unat (a 2)) (drop (unat (of_pos f)) (contents k f))"
  obtains (eof) k' where "d = []" and "sysRead E a k = (Some 0, k')" and "bytes (k_be k') = bytes (k_be k)"
      and "fd_file k' = fd_file k"
    | (read) k' where "d \<noteq> []" and "sysRead E a k = (Some (of_nat (length d)), k')"
      and "bytes (k_be k') = mem_put (a 1) d (bytes (k_be k))"
      and "fd_file k' = (fd_file k)(fd32 (a 0) \<mapsto> f\<lparr>of_pos := of_pos f + of_nat (length d)\<rparr>)"
    | (fault) k' where "d \<noteq> []" and "\<not> fst (MemWrite (ke_B E) (a 1) d (k_be k))" and "sysRead E a k = (Some (- EFAULT), k')" and "bytes (k_be k') = bytes (k_be k)"
      and "fd_file k' = fd_file k"
proof -
  obtain s k1 where fd: "fileData f (fdTable k) = (s, k1)" by (cases "fileData f (fdTable k)")
  have k1: "k_be k1 = k_be k" "fd_file k1 = fd_file k" "k_heap k1 = k_heap k"
    using fileData_step(2-4) [OF fd] by (simp_all add: fun_eq_iff)
  have "kernel_ok (fdTable k)"
    using fdTable_step [of k] k(2) by (simp add: file_step_def)
  then have s: "slice_ok (k_heap k) s" "slice_bytes (k_heap k) s = contents k f"
    using fileData_step(5) [OF fd, of "fd32 (a 0)"] f by (simp_all add: contents_def)
  have "length (slice_bytes (k_heap k) s) = sl_len s"
    using s(1) by (simp add: slice_ok_def slice_bytes_def)
  then have sl: "sl_len s = length (contents k f)"
    by (simp add: s(2))
  let ?P = "unat (of_pos f)" and ?L = "length (contents k f)" and ?N = "unat (a 2)"
  have P: "?P < 2 ^ 63" and N: "?N < 2 ^ 63"
    using pos n unat_sint_bound by blast+
  have LP: "int ?L < int (2 ^ 63)" "int ?P < int (2 ^ 63)"
    using len P by (simp_all only: of_nat_less_iff)
  have diff63: "signed_take_bit 63 (l - p) = l - p" if "0 \<le> l" "0 \<le> p" "l < 2 ^ 63" "p < 2 ^ 63" for l p :: int
    using that by (intro signed_take_bit_int_eq_self) simp_all
  let ?rem = "of_nat ?L - of_pos f :: u64"
  have rem: "sint ?rem = int ?L - int ?P"
  proof -
    have "sint ?rem = signed_take_bit 63 (sint (of_nat ?L :: u64) - sint (of_pos f))"
      by (simp add: sint_word_diff)
    also have "sint (of_nat ?L :: u64) = int ?L"
      using len by (subst sint_small) (simp_all add: unat_of_nat take_bit_nat_eq_self)
    also have "sint (of_pos f) = int ?P" by (rule sint_nonneg [OF pos])
    also have "signed_take_bit 63 (int ?L - int ?P) = int ?L - int ?P"
      using LP by (intro diff63) simp_all
    finally show ?thesis .
  qed
  let ?n = "read_count s f (a 2)"
  have sn: "sint ?n = min (int ?N) (int ?L - int ?P)"
    using rem sint_nonneg [OF n] by (auto simp: read_count_def Let_def sl)
  have ld: "length d = min ?N (?L - ?P)"
    by (simp add: d_def)
  have dn: "d = [] \<longleftrightarrow> sint ?n \<le> 0"
    using sn ld by (auto simp: length_0_conv [symmetric] simp del: length_0_conv of_nat_unat)
  have r: "sysRead E a k = read_at E (fd32 (a 0)) f s (a 1) ?n k1"
    using f fd by (simp add: sysRead_def Let_def)
  show ?thesis
  proof (cases "d = []")
    case True
    then show ?thesis
      using k1 dn r by (intro eof [of k1]) (simp_all add: read_at_def ret_def)
  next
    case False
    then have np: "\<not> sint ?n \<le> 0" using dn by blast
    have un: "unat ?n = length d"
      using sn ld np sint_nonneg [of ?n] by linarith
    then have nd: "?n = of_nat (length d)" by (simp flip: un)
    have data: "take (unat ?n) (drop ?P (slice_bytes (k_heap k1) s)) = d"
      unfolding un k1(3) s(2) ld by (cases "?N \<le> ?L - ?P") (simp_all add: d_def min_def)
    have u: "unat (of_pos f + ?n) = ?P + length d"
      unfolding nd using P ld N by (intro unat_add_of_nat) simp
    have "0 < length d"
      using False by simp
    then have "?P + length d \<le> ?L"
      using ld by linarith
    then have "unat (of_pos f + ?n) < 2 ^ 63"
      unfolding u using len by linarith
    then have "sint (of_pos f + ?n) = int (?P + length d)"
      unfolding u [symmetric] by (rule sint_small)
    then have nowrap: "\<not> (sint (of_pos f) < 0 \<or> sint (of_pos f + ?n) < sint (of_pos f))"
      using sint_nonneg [OF pos] pos by simp
    obtain ok k2 where w: "kwrite E (a 1) d k1 = (ok, k2)" by (cases "kwrite E (a 1) d k1")
    have "length d < 2 ^ 63" using ld N by simp
    then have b: "bytes (k_be k2) = (if ok then mem_put (a 1) d (bytes (k_be k)) else bytes (k_be k))"
      using kwrite_bytes [OF _ _ w] k(1) k1(1) by simp
    have fd2: "fd_file k2 = fd_file k"
      using kwrite_views [OF w] k1(2) by simp
    then have "fd_file k2 (fd32 (a 0)) = Some f"
      using f by simp
    then have t: "k_files k2 \<noteq> None"
      by (auto simp: fd_file_def split: option.splits)
    have r2: "sysRead E a k = (if ok then ret (of_nat (length d)) (set_fd (fd32 (a 0)) (Some (f\<lparr>of_pos := of_pos f + of_nat (length d)\<rparr>)) k2)
        else ret (- EFAULT) k2)"
      unfolding r read_at_def Let_def data w prod.case using np nowrap nd by (simp split: bool.split)
    show ?thesis
    proof (cases ok)
      case True
      show ?thesis
        by (rule read [OF False, of "set_fd (fd32 (a 0)) (Some (f\<lparr>of_pos := of_pos f + of_nat (length d)\<rparr>)) k2"]) (use r2 True b t fd2 in \<open>simp_all add: ret_def fd_file_set_fd\<close>)
    next
      case f: False
      show ?thesis
        by (rule fault [OF False, of k2]) (use r2 f b fd2 kwrite_views [OF w] k1(1) in \<open>simp_all add: ret_def\<close>)
    qed
  qed
qed

end

end
