(* ===== verification/Kernel_Props.thy ===== *)
theory Kernel_Props
  imports Kernel_Memory Sample_Machine
begin

text \<open>
  The kernel on the interpreter: the invariant across system calls, files and their descriptors, the
  program break, and snapshots.
\<close>

definition over_interp ::
  "nat \<Rightarrow> (inst \<Rightarrow> u32 \<Rightarrow> inst) \<Rightarrow> 'a cpu_env \<Rightarrow> ('a cpu_scheme, context_regs option, 'h, 'r) kenv
    \<Rightarrow> ('a cpu_scheme, context_regs option, 'h, 'r) kenv" where
  "over_interp fuel simd C E = E\<lparr>ke_B := interp_backend fuel simd C\<rparr>"

lemma over_interp_B [simp]: "ke_B (over_interp fuel simd C E) = interp_backend fuel simd C"
  by (simp add: over_interp_def)

lemma over_interp_id: "ke_B E = interp_backend fuel simd C \<Longrightarrow> over_interp fuel simd C E = E"
  by (simp add: over_interp_def)

interpretation kh: kernel_host "over_interp fuel simd C E" "mem_inv D" mbyte
  by (simp add: kernel_host_def ib.guest_backend_axioms)

text \<open>A kernel over a machine, before any call.\<close>

definition boot :: "'b \<Rightarrow> 'h \<Rightarrow> ('b, 'h, 'r) kernel" where
  "boot b h = \<lparr>k_be = b, k_mem = NewSpace, k_host = h, k_heap = [[]], k_brkCur = 0, k_Exited = False, k_ExitCode = 0,
     k_files = None, k_nextFd = 0, k_wfiles = None, k_dirs = None, k_rng = None\<rparr>"

definition plain_kenv :: "('b, 'x) backend \<Rightarrow> ('b, 'x, unit, unit) kenv" where
  "plain_kenv B = \<lparr>ke_B = B, ke_vfs_Read = (\<lambda>_. None), ke_vfs_Exists = (\<lambda>_. False), ke_Pid = 1234, ke_Epoch = 1,
     ke_RandSeed = 1, ke_now = (\<lambda>h. ((0, 0), h)), ke_entropy = (\<lambda>h n. (None, h)), ke_NewChaCha8 = (\<lambda>_. ()),
     ke_chacha_Read = (\<lambda>r n. (\<lambda>i. 7, r)), ke_grow = (\<lambda>_ n. 2 * n)\<rparr>"

lemma boot_fields [simp]: "k_be (boot b h) = b" "k_mem (boot b h) = NewSpace" "k_brkCur (boot b h) = 0" "k_dirs (boot b h) = None"
  "ke_B (plain_kenv B) = B"
  by (simp_all add: boot_def plain_kenv_def)

lemma boot_ok: "kernel_ok (boot b h)"
  by (simp add: kernel_ok_def boot_def wfile_def fd_file_def distinct_files_def)

text \<open>Arguments given as a list.\<close>

definition args_of :: "u64 list \<Rightarrow> args" where
  "args_of xs i = (if i < length xs then xs ! i else 0)"

lemma args_of_simps [simp]: "args_of (x # xs) 0 = x" "args_of (x # xs) (Suc i) = args_of xs i"
  "args_of (x # xs) (numeral n) = args_of xs (pred_numeral n)"
  by (simp_all add: args_of_def numeral_eq_Suc)

text \<open>
  C21: whatever sequence of system calls the guest makes, with whatever arguments and errors, and the
  dispatch of one more: the memory of the CPU stays coherent, and so do the arrays of the file layer.
\<close>
theorem calls_keep_inv:
  assumes "mem_inv D (k_be k)" and "kernel_ok k" and "ke_B E = interp_backend fuel simd C"
  shows "mem_inv D (k_be (calls E cs k)) \<and> kernel_ok (calls E cs k) \<and>
    mem_inv D (k_be (snd (Dispatch E (calls E cs k)))) \<and> kernel_ok (snd (Dispatch E (calls E cs k)))"
proof -
  note E = over_interp_id [OF assms(3)]
  have c: "mem_inv D (k_be (calls E cs k))" "kernel_ok (calls E cs k)"
    using kh.calls_inv [OF assms(1), of fuel simd C E cs] calls_step [of k E cs] assms(2) by (simp_all add: E file_step_def)
  show ?thesis
    using c kh.Dispatch_inv [OF c(1), of fuel simd C E] Dispatch_step [of "calls E cs k" E] by (simp add: E file_step_def)
qed

theorem calls_keep_inv_witness:
  "let E = plain_kenv (interp_backend 0 no_simd plain_env);
       k = calls E [(214, args_of [0x30001000]), (222, args_of [0, 0x1000, 3, 0x22])] (boot sample ())
   in mem_inv (decode no_simd inst0) (k_be k) \<and> kernel_ok k"
  using calls_keep_inv [OF _ boot_ok, of "decode no_simd inst0" sample "()" "plain_kenv (interp_backend 0 no_simd plain_env)" 0
      no_simd plain_env "[(214, args_of [0x30001000]), (222, args_of [0, 0x1000, 3, 0x22])]"]
  by (simp add: Let_def sample_effect(1))

subsection \<open>Files\<close>

lemma interp_write_ok:
  assumes "ke_B E = interp_backend fuel simd C" and "mem_inv D (k_be k)" and "unat a + length bs < 2 ^ 64" "length bs < 2 ^ 63"
    and "\<forall>i < length bs. mbyte (k_be k) (a + of_nat i) \<noteq> None"
  shows "fst (MemWrite (ke_B E) a bs (k_be k))"
proof (cases "bs = []")
  case True
  then show ?thesis using assms(1) by (simp add: interp_backend_def interp_MemWrite_def)
next
  case False
  obtain m' where "host_write a bs (k_be k) = (Inr (), m')"
    by (rule host_write_correct [OF assms(2-)])
  then show ?thesis
    using False assms(1) by (simp add: interp_backend_def interp_MemWrite_def report_def)
qed

lemma kread_length:
  assumes "ke_B E = interp_backend fuel simd C" and "mem_inv D (k_be k)" and "kread E a n k = Some bs"
  shows "length bs = unat n" "length bs < 2 ^ 63"
proof -
  have r: "interp_MemRead a n (k_be k) = Some bs"
    using assms(1,3) by (simp add: kread_def interp_backend_def)
  show l: "length bs = unat n"
    using interp_read_law [OF assms(2) r] by simp
  show "length bs < 2 ^ 63"
    using r unfolding l by (auto simp: interp_MemRead_def MaxMemReadLen_def word_less_nat_alt split: if_splits)
qed

lemma write_call:
  assumes "kernel_ok k" and "fd_file k (fd32 fd) = Some f" and "of_writable f" and "kread E src len k = Some d"
    and "unat (of_pos f) + length d < 2 ^ 63"
  obtains k' where "sysWrite E (args_of [fd, src, len]) k = (Some (of_nat (length d)), k')"
    and "overlay k' = (overlay k)(of_path f \<mapsto> overwrite (unat (of_pos f)) d (contents k f))"
    and "fd_file k' = (fd_file k)(fd32 fd \<mapsto> f\<lparr>of_pos := of_pos f + of_nat (length d)\<rparr>)"
    and "k_be k' = k_be k" and "kernel_ok k'"
proof -
  have k: "kernel_ok (fdTable k)" "contents (fdTable k) f = contents k f"
    using fdTable_step [of k] assms(1) by (simp_all add: file_step_def contents_def)
  obtain k' where w: "write_file (fd32 fd) f d (fdTable k) = (Some (of_nat (length d)), k')"
      "overlay k' = (overlay (fdTable k))(of_path f \<mapsto> overwrite (unat (of_pos f)) d (contents (fdTable k) f))"
      "fd_file k' = (fd_file (fdTable k))(fd32 fd \<mapsto> f\<lparr>of_pos := of_pos f + of_nat (length d)\<rparr>)"
      "k_be k' = k_be (fdTable k)" "k_mem k' = k_mem (fdTable k)"
    using assms(2,3,5) by (auto intro: write_file_law [OF k(1), of "fd32 fd" f d])
  have s: "sysWrite E (args_of [fd, src, len]) k = (Some (of_nat (length d)), k')"
    using assms(2-4) w(1) by (simp add: sysWrite_def Let_def kread_def)
  have "kernel_ok k'"
    using sysWrite_step [of k E "args_of [fd, src, len]"] assms(1) by (simp add: s file_step_def)
  then show ?thesis
    using s w k(2) by (intro that [of k']) (simp_all add: fun_eq_iff)
qed

lemma seek_call:
  assumes "kernel_ok k" and "fd_file k (fd32 fd) = Some f"
  obtains k' where "sysLseek (args_of [fd, off, 0]) k = (Some off, k')" and "overlay k' = overlay k"
    and "fd_file k' = (fd_file k)(fd32 fd \<mapsto> f\<lparr>of_pos := off\<rparr>)" and "k_be k' = k_be k" and "kernel_ok k'"
proof -
  let ?k = "set_fd (fd32 fd) (Some (f\<lparr>of_pos := off\<rparr>)) (fdTable k)"
  have s: "sysLseek (args_of [fd, off, 0]) k = (Some off, ?k)"
    using assms(2) by (simp add: sysLseek_def Let_def ret_def)
  have "kernel_ok ?k"
    using sysLseek_step [of k "args_of [fd, off, 0]"] assms(1) by (simp add: s file_step_def)
  then show ?thesis
    using s by (intro that [of ?k]) (simp_all add: fd_file_set_fd fun_eq_iff)
qed

lemma read_call:
  fixes fd dst len :: u64
  assumes "ke_B E = interp_backend fuel simd C" and "mem_inv D (k_be k)" and "kernel_ok k"
    and "fd_file k (fd32 fd) = Some f" and "unat (of_pos f) < 2 ^ 63" "unat len < 2 ^ 63" and "length (contents k f) < 2 ^ 63"
    and d: "take (unat len) (drop (unat (of_pos f)) (contents k f)) = d"
    and "unat dst + length d < 2 ^ 64" and "\<forall>i < length d. mbyte (k_be k) (dst + of_nat i) \<noteq> None"
  obtains k' where "sysRead E (args_of [fd, dst, len]) k = (Some (of_nat (length d)), k')"
    and "mbyte (k_be k') = mem_put dst d (mbyte (k_be k))"
proof -
  note E = over_interp_id [OF assms(1)]
  let ?a = "args_of [fd, dst, len]"
  have a: "?a 0 = fd" "?a 1 = dst" "?a 2 = len"
    by simp_all
  have nn: "0 \<le> sint (of_pos f)" "0 \<le> sint len"
    using sint_small [OF assms(5)] sint_small [OF assms(6)] by simp_all
  have "length d < 2 ^ 63"
    using assms(6) d by auto
  then have ok: "fst (MemWrite (ke_B E) dst d (k_be k))"
    using assms(1,2,9,10) by (intro interp_write_ok)
  note fr = kh.file_read [where E = E and a = ?a and fuel = fuel and simd = simd and C = C, unfolded E a,
      OF assms(2,3,4) nn(1) assms(7) nn(2), unfolded d]
  show ?thesis
  proof (rule fr)
    fix k' assume "d = []" "sysRead E ?a k = (Some 0, k')" "mbyte (k_be k') = mbyte (k_be k)"
    then show thesis by (intro that [of k']) (simp_all add: mem_put_Nil)
  next
    fix k' assume "sysRead E ?a k = (Some (of_nat (length d)), k')" "mbyte (k_be k') = mem_put dst d (mbyte (k_be k))"
    then show thesis by (rule that)
  next
    assume "\<not> fst (MemWrite (ke_B E) dst d (k_be k))"
    with ok show thesis by contradiction
  qed
qed

text \<open>
  Bytes written to a file through a descriptor and read back from the same position land in the
  second buffer unchanged; the file is its old contents with those bytes at the position (zeros in a
  gap), and nothing else in guest memory or in another file changes.
\<close>
theorem write_seek_read:
  fixes fd src dst len :: u64
  assumes "mem_inv D (k_be k)" and "kernel_ok k" and "ke_B E = interp_backend fuel simd C"
    and "fd_file k (fd32 fd) = Some f" and "of_writable f" and "kread E src len k = Some d"
    and "unat (of_pos f) + length d < 2 ^ 63" and "length (contents k f) < 2 ^ 63"
    and "unat dst + length d < 2 ^ 64" and "\<forall>i < length d. mbyte (k_be k) (dst + of_nat i) \<noteq> None"
  shows "let (r1, k1) = sysWrite E (args_of [fd, src, len]) k;
             (r2, k2) = sysLseek (args_of [fd, of_pos f, 0]) k1;
             (r3, k3) = sysRead E (args_of [fd, dst, len]) k2
         in r1 = Some len \<and> r2 = Some (of_pos f) \<and> r3 = Some len \<and>
            mbyte (k_be k3) = mem_put dst d (mbyte (k_be k)) \<and>
            overlay k1 = (overlay k)(of_path f \<mapsto> overwrite (unat (of_pos f)) d (contents k f))"
proof -
  note len = kread_length [OF assms(3,1,6)]
  have l: "of_nat (length d) = len"
    by (simp add: len(1))
  obtain k1 where "sysWrite E (args_of [fd, src, len]) k = (Some (of_nat (length d)), k1)"
      "overlay k1 = (overlay k)(of_path f \<mapsto> overwrite (unat (of_pos f)) d (contents k f))"
      "fd_file k1 = (fd_file k)(fd32 fd \<mapsto> f\<lparr>of_pos := of_pos f + of_nat (length d)\<rparr>)" "k_be k1 = k_be k" "kernel_ok k1"
    by (rule write_call [OF assms(2,4,5,6,7)])
  note k1 = this [unfolded l]
  let ?f = "f\<lparr>of_pos := of_pos f + len\<rparr>"
  have "fd_file k1 (fd32 fd) = Some ?f" by (simp add: k1)
  from k1(5) this obtain k2 where k2: "sysLseek (args_of [fd, of_pos f, 0]) k1 = (Some (of_pos f), k2)" "overlay k2 = overlay k1"
      "fd_file k2 = (fd_file k1)(fd32 fd \<mapsto> ?f\<lparr>of_pos := of_pos f\<rparr>)" "k_be k2 = k_be k1" "kernel_ok k2"
    by (rule seek_call)
  have f2: "fd_file k2 (fd32 fd) = Some f"
    by (simp add: k2)
  have c: "contents k2 f = overwrite (unat (of_pos f)) d (contents k f)"
    using assms(5) by (simp add: contents_def k2 k1)
  have d: "take (unat len) (drop (unat (of_pos f)) (contents k2 f)) = d"
    unfolding c len(1) [symmetric] by (rule overwrite_read)
  have small: "unat (of_pos f) < 2 ^ 63" "unat len < 2 ^ 63"
    using assms(7) len by simp_all
  have i2: "mem_inv D (k_be k2)" using assms(1) by (simp add: k2 k1)
  have "length (contents k2 f) < 2 ^ 63"
    unfolding c length_overwrite using assms(7,8) by simp
  moreover have "unat dst + length d < 2 ^ 64" "\<forall>i < length d. mbyte (k_be k2) (dst + of_nat i) \<noteq> None"
    using assms(9,10) by (simp_all add: k2 k1)
  ultimately obtain k3 where "sysRead E (args_of [fd, dst, len]) k2 = (Some (of_nat (length d)), k3)"
      "mbyte (k_be k3) = mem_put dst d (mbyte (k_be k2))"
    by (rule read_call [OF assms(3) i2 k2(5) f2 small _ d])
  note k3 = this [unfolded l]
  show ?thesis
    unfolding k1(1) k2(1) k3(1) Let_def prod.case using k1(2,4) k2(4) k3(2) by simp
qed

definition one_file :: "'b \<Rightarrow> ('b, unit, unit) kernel" where
  "one_file b = (boot b ())\<lparr>k_files := Some [100 \<mapsto> \<lparr>of_path = ''f'', of_data = nil_slice, of_pos = 2, of_writable = True\<rparr>],
     k_nextFd := 101, k_wfiles := Some [(''f'', nil_slice)]\<rparr>"

lemma one_file_ok: "kernel_ok (one_file b)"
  by (auto simp: kernel_ok_def one_file_def boot_def wfile_def fd_file_def distinct_files_def slice_ok_def nil_slice_def
      split: if_splits)

theorem write_seek_read_witness:
  "let E = plain_kenv (interp_backend 0 no_simd plain_env); k = one_file sample; d = mbytes sample 0x1000 4;
       (r1, k1) = sysWrite E (args_of [100, 0x1000, 4]) k; (r2, k2) = sysLseek (args_of [100, 2, 0]) k1;
       (r3, k3) = sysRead E (args_of [100, 0x2000, 4]) k2
   in r3 = Some 4 \<and> mbyte (k_be k3) = mem_put 0x2000 d (mbyte sample) \<and> overlay k1 ''f'' = Some (0 # 0 # d)"
proof -
  let ?E = "plain_kenv (interp_backend 0 no_simd plain_env)" and ?k = "one_file sample"
  let ?f = "\<lparr>of_path = ''f'', of_data = nil_slice, of_pos = 2, of_writable = True\<rparr>"
  have m: "mbyte sample (0x1000 + of_nat i) \<noteq> None" "mbyte sample (0x2000 + of_nat i) \<noteq> None" if i: "i < 4" for i
  proof -
    consider "i = 0" | "i = 1" | "i = 2" | "i = 3" using i by linarith
    then show "mbyte sample (0x1000 + of_nat i) \<noteq> None" "mbyte sample (0x2000 + of_nat i) \<noteq> None"
      by (cases; simp add: sample_unmapped)+
  qed
  have "host_read 0x1000 4 sample = (Inr (mbytes sample 0x1000 4), sample)"
    by (rule host_read_correct [OF sample_effect(1)]) (use m in auto)
  then have d: "kread ?E 0x1000 4 ?k = Some (mbytes sample 0x1000 4)"
    by (simp add: kread_def interp_backend_def interp_MemRead_def MaxMemReadLen_def one_file_def)
  have l: "length (mbytes sample 0x1000 4) = 4" by (simp add: mbytes_def)
  have c: "contents ?k ?f = []" "fd_file ?k 100 = Some ?f" "k_be ?k = sample"
    by (simp_all add: contents_def overlay_def wfile_def one_file_def boot_def slice_bytes_def nil_slice_def fd_file_def)
  have dst: "\<forall>i < length (mbytes sample 0x1000 4). mbyte (k_be ?k) (0x2000 + of_nat i) \<noteq> None"
    using m c(3) l by simp
  have ov: "overwrite (unat (of_pos ?f)) (mbytes sample 0x1000 4) (contents ?k ?f) = 0 # 0 # mbytes sample 0x1000 4"
  proof -
    have "unat (of_pos ?f) = 2" by simp
    then have "unat (of_pos ?f) = Suc (Suc 0)" by (simp only: numeral_2_eq_2)
    then show ?thesis unfolding c by (simp only: overwrite_def) simp
  qed
  obtain r1 k1 where 1: "sysWrite ?E (args_of [100, 0x1000, 4]) ?k = (r1, k1)" by force
  obtain r2 k2 where 2: "sysLseek (args_of [100, 2, 0]) k1 = (r2, k2)" by force
  obtain r3 k3 where 3: "sysRead ?E (args_of [100, 0x2000, 4]) k2 = (r3, k3)" by force
  have "let (r1, k1) = sysWrite ?E (args_of [100, 0x1000, 4]) ?k; (r2, k2) = sysLseek (args_of [100, of_pos ?f, 0]) k1;
       (r3, k3) = sysRead ?E (args_of [100, 0x2000, 4]) k2
     in r1 = Some 4 \<and> r2 = Some (of_pos ?f) \<and> r3 = Some 4 \<and>
       mbyte (k_be k3) = mem_put 0x2000 (mbytes sample 0x1000 4) (mbyte (k_be ?k)) \<and>
       overlay k1 = (overlay ?k)(of_path ?f \<mapsto> overwrite (unat (of_pos ?f)) (mbytes sample 0x1000 4) (contents ?k ?f))"
    by (rule write_seek_read [OF _ one_file_ok _ _ _ d, where D = "decode no_simd inst0"])
      (use c l dst sample_effect(1) in simp_all)
  then show ?thesis
    using ov unfolding Let_def open_file.simps 1 prod.case 2 3 by (simp add: c(3))
qed

text \<open>
  A descriptor that is not in the table, and is not one of the three standard ones, is refused with
  EBADF by every call that takes one, and nothing but the table's allocation happens; closing an open
  descriptor takes exactly that one out of the table.
\<close>
theorem bad_descriptor:
  fixes E :: "('b, 'x, 'h, 'r) kenv" and a :: args
  shows "if fd_file k (fd32 (a 0)) = None then
      (if stdio (fd32 (a 0)) then True
       else sysWrite E a k = (Some (- EBADF), fdTable k) \<and> sysClose a k = (Some (- EBADF), fdTable k) \<and>
            sysFstat E a k = (Some (- EBADF), fdTable k)) \<and>
      sysRead E a k = (Some (- EBADF), fdTable k) \<and> sysLseek a k = (Some (- EBADF), fdTable k)
    else fst (sysClose a k) = Some 0 \<and> fd_file (snd (sysClose a k)) = (fd_file k)(fd32 (a 0) := None)"
  by (auto simp: sysRead_def sysWrite_def sysLseek_def sysFstat_def sysClose_def Let_def ret_def fd_file_set_fd fun_eq_iff)

subsection \<open>Memory\<close>

lemma on_map_ok:
  assumes "ke_B E = interp_backend fuel simd C" and "mem_inv D (k_be k)" and "good_range x n" and "p AND NOT 7 = 0"
    and "\<forall>y. y - x < n \<longrightarrow> mbyte (k_be k) y = None"
  obtains b where "on_be (MemMap (ke_B E) x n p) k = (True, k\<lparr>k_be := b\<rparr>)"
    and "\<forall>y. mbyte b y = (if y - x < n then Some 0 else mbyte (k_be k) y)"
proof -
  obtain b where "mem_map x n p (k_be k) = (Inr (), b)" "\<forall>y. mbyte b y = (if y - x < n then Some 0 else mbyte (k_be k) y)"
    by (rule map_ok [OF assms(2-5)])
  then show ?thesis
    using assms(1) by (intro that [of b]) (simp_all add: on_be_def interp_backend_def report_def)
qed

lemma on_map_refused:
  assumes "ke_B E = interp_backend fuel simd C" and "\<not> (good_range x n \<and> p AND NOT 7 = 0 \<and> (\<forall>y. y - x < n \<longrightarrow> mbyte (k_be k) y = None))"
  shows "on_be (MemMap (ke_B E) x n p) k = (False, k)"
proof -
  have "\<forall>m'. mem_map x n p (k_be k) \<noteq> (Inr (), m')"
    using assms(2) mem_map_succeeds [of x n p "k_be k"] by blast
  then obtain e where "mem_map x n p (k_be k) = (Inl e, k_be k)"
    using mem_map_fails by blast
  then show ?thesis
    using assms(1) by (simp add: on_be_def interp_backend_def report_def)
qed

text \<open>
  C22: an anonymous \<open>mmap\<close> returns the allocator's cursor and zero-filled memory there when the rounded
  length is not zero, fits the address space, has valid protections and the range is free; otherwise it
  answers ENOSYS and leaves memory alone. In both cases the allocator records the region and moves its
  cursor.
\<close>
theorem anonymous_mmap:
  fixes a :: args
  assumes "ke_B E = interp_backend fuel simd C" and "mem_inv D (k_be k)" and "a 3 AND 0x10 = 0"
  shows "let addr = s_mmapTop (k_mem k); n = pageUp (a 1); k' = snd (sysMmap E a k)
    in k_mem k' = snd (Mmap n (sint (a 2)) ''mmap'' (k_mem k)) \<and>
      (if good_range addr n \<and> (a 2 OR 1) AND NOT 7 = 0 \<and> (\<forall>x. x - addr < n \<longrightarrow> mbyte (k_be k) x = None)
       then fst (sysMmap E a k) = Some addr \<and> (\<forall>x. mbyte (k_be k') x = (if x - addr < n then Some 0 else mbyte (k_be k) x))
       else fst (sysMmap E a k) = Some (- ENOSYS) \<and> k_be k' = k_be k)"
proof -
  let ?addr = "s_mmapTop (k_mem k)" and ?n = "pageUp (a 1)" and ?p = "a 2 OR 1"
  let ?k = "k\<lparr>k_mem := snd (Mmap ?n (sint (a 2)) ''mmap'' (k_mem k))\<rparr>"
  have place: "mmap_place E a k = (?addr, ?k)"
    using assms(3) by (simp add: mmap_place_def Let_def Mmap_def)
  show ?thesis
  proof (cases "good_range ?addr ?n \<and> ?p AND NOT 7 = 0 \<and> (\<forall>x. x - ?addr < ?n \<longrightarrow> mbyte (k_be k) x = None)")
    case True
    then obtain b where "on_be (MemMap (ke_B E) ?addr ?n ?p) ?k = (True, ?k\<lparr>k_be := b\<rparr>)"
        "\<forall>y. mbyte b y = (if y - ?addr < ?n then Some 0 else mbyte (k_be ?k) y)"
      using assms(2) by (auto simp del: bit.conj_disj_distrib2 intro: on_map_ok [OF assms(1), where k = ?k and x = ?addr and n = ?n and p = ?p])
    then show ?thesis
      using True unfolding sysMmap_def place prod.case Let_def by (simp del: bit.conj_disj_distrib2)
  next
    case False
    then have "on_be (MemMap (ke_B E) ?addr ?n ?p) ?k = (False, ?k)"
      by (intro on_map_refused [OF assms(1)]) simp
    then show ?thesis
      unfolding sysMmap_def place prod.case Let_def if_not_P [OF False] by simp
  qed
qed

theorem anonymous_mmap_witness:
  "let E = plain_kenv (interp_backend 0 no_simd plain_env); k = boot New (); a = args_of [0, 1, 3, 0x22]
   in fst (sysMmap E a k) = Some 0x40000000 \<and> mbyte (k_be (snd (sysMmap E a k))) 0x40000fff = Some 0"
  using anonymous_mmap [of "plain_kenv (interp_backend 0 no_simd plain_env)" 0 no_simd plain_env "decode no_simd inst0" "boot New ()"
      "args_of [0, 1, 3, 0x22]"]
  by (simp add: Let_def New_inv NewSpace_def pageUp_def good_range_def)

text \<open>
  C23: growing the program break maps zero pages up to it; lowering it keeps the pages, so growing it back
  over a page boundary is refused and returns the lower break.
\<close>
theorem brk_regrow:
  assumes "ke_B E = interp_backend fuel simd C" and "mem_inv D (k_be k)" and "k_brkCur k = 0 \<or> k_brkCur k = BrkBase"
    and "BrkBase \<le> low" and "low < high" and "pageUp low < pageUp high" and "unat high \<le> 2 ^ 48 - 4096"
    and "\<forall>x. x - BrkBase < pageUp high - BrkBase \<longrightarrow> mbyte (k_be k) x = None"
  shows "let (r1, k1) = sysBrk E (args_of [high]) k; (r2, k2) = sysBrk E (args_of [low]) k1;
             (r3, k3) = sysBrk E (args_of [high]) k2
         in r1 = Some high \<and> (\<forall>x. mbyte (k_be k1) x = (if x - BrkBase < pageUp high - BrkBase then Some 0 else mbyte (k_be k) x)) \<and>
            r2 = Some low \<and> k_be k2 = k_be k1 \<and> r3 = Some low \<and> k3 = k2"
proof -
  let ?k = "k\<lparr>k_brkCur := BrkBase\<rparr>" and ?n = "pageUp high - BrkBase"
  have up: "unat (pageUp x) = (unat x + 4095) div 4096 * 4096" if "x \<le> high" for x
    using that assms(7) by (intro unat_pageUp) (simp add: word_le_nat_alt)
  have base: "pageUp BrkBase = BrkBase"
    by (simp add: pageUp_def)
  have b: "0x30000000 \<le> unat low" "unat low < unat high"
    using assms(4,5) by (simp_all add: word_le_nat_alt word_less_nat_alt)
  have low: "0x30000000 \<le> unat (pageUp low)" and high: "unat (pageUp high) \<le> 2 ^ 48" "4096 dvd unat (pageUp high)"
    using up [of low] up [of high] b assms(5,7) by simp_all
  have lh: "unat (pageUp low) < unat (pageUp high)"
    using assms(6) by (simp add: word_less_nat_alt)
  have n: "unat ?n = unat (pageUp high) - 0x30000000"
    using low lh by (subst unat_sub) (simp_all add: word_le_nat_alt)
  have good: "good_range BrkBase ?n"
    using n low high lh by (auto simp: good_range_def simp flip: unat_eq_0 intro: dvd_diff_nat)
  obtain c where m1: "on_be (MemMap (ke_B E) BrkBase ?n 3) ?k = (True, ?k\<lparr>k_be := c\<rparr>)"
      "\<forall>y. mbyte c y = (if y - BrkBase < ?n then Some 0 else mbyte (k_be ?k) y)"
    by (rule on_map_ok [OF assms(1), where k = ?k and x = BrkBase and n = ?n and p = 3]) (use assms(2,8) good in simp_all)
  have grow: "BrkBase < pageUp high"
    using low lh by (simp add: word_less_nat_alt)
  have nz: "high \<noteq> 0" "\<not> high < BrkBase" "low \<noteq> 0" "\<not> low < BrkBase"
    using b by (auto simp: word_less_nat_alt)
  let ?k1 = "k\<lparr>k_brkCur := high, k_be := c\<rparr>" and ?k2 = "k\<lparr>k_brkCur := low, k_be := c\<rparr>"
  have r1: "sysBrk E (args_of [high]) k = (Some high, ?k1)"
  proof -
    have "(if k_brkCur k = 0 then ?k else k) = ?k"
      using assms(3) by auto
    then have "sysBrk E (args_of [high]) k = brk_set E high ?k"
      unfolding sysBrk_def Let_def using nz(1,2) by simp
    then show ?thesis
      using grow m1(1) by (simp add: brk_set_def Let_def base ret_def)
  qed
  have r2: "sysBrk E (args_of [low]) ?k1 = (Some low, ?k2)"
    using nz assms(6) less_not_sym [OF assms(6)] by (simp add: sysBrk_def brk_set_def Let_def ret_def)
  have x: "pageUp low - BrkBase < ?n"
    using low lh n by (simp add: word_less_nat_alt unat_sub word_le_nat_alt)
  have "\<not> (\<forall>y. y - pageUp low < pageUp high - pageUp low \<longrightarrow> mbyte (k_be ?k2) y = None)"
  proof
    assume a: "\<forall>y. y - pageUp low < pageUp high - pageUp low \<longrightarrow> mbyte (k_be ?k2) y = None"
    have "0 < pageUp high - pageUp low"
      using lh by (simp add: word_less_nat_alt unat_sub word_le_nat_alt)
    then have "mbyte c (pageUp low) = None"
      using a by auto
    then show False
      using m1(2) x by simp
  qed
  then have m3: "on_be (MemMap (ke_B E) (pageUp low) (pageUp high - pageUp low) 3) ?k2 = (False, ?k2)"
    by (intro on_map_refused [OF assms(1)]) blast
  have r3: "sysBrk E (args_of [high]) ?k2 = (Some low, ?k2)"
    using nz assms(6) m3 by (simp add: sysBrk_def brk_set_def Let_def ret_def)
  show ?thesis
    unfolding r1 r2 r3 Let_def prod.case using m1(2) by simp
qed

theorem brk_regrow_witness:
  "let E = plain_kenv (interp_backend 0 no_simd plain_env); k1 = snd (sysBrk E (args_of [0x30001000]) (boot New ()));
       k2 = snd (sysBrk E (args_of [0x30000000]) k1)
   in fst (sysBrk E (args_of [0x30001000]) (boot New ())) = Some 0x30001000 \<and>
      fst (sysBrk E (args_of [0x30001000]) k2) = Some 0x30000000"
  using brk_regrow [of "plain_kenv (interp_backend 0 no_simd plain_env)" 0 no_simd plain_env "decode no_simd inst0" "boot New ()"
      "0x30000000" "0x30001000"]
  by (simp add: Let_def New_inv pageUp_def split_beta)

subsection \<open>Snapshots\<close>

text \<open>
  C24: whatever system calls come between a snapshot and its restore, the break, the exit latch, the
  descriptors, the overlay, the directories and the pinned generator are back, and every file reads as it
  did, except read-only descriptors that share the array of an overlay file.
\<close>
theorem snapshot_restore:
  assumes "kernel_ok k" and "kSnapshot E k = (st, k1)"
  shows "let k3 = kRestore E st (calls E cs k1)
    in kernel_ok k3 \<and> overlay k3 = overlay k \<and> k_files k3 = k_files k \<and> k_brkCur k3 = k_brkCur k \<and>
       k_Exited k3 = k_Exited k \<and> k_ExitCode k3 = k_ExitCode k \<and> k_nextFd k3 = k_nextFd k \<and> k_dirs k3 = k_dirs k \<and>
       k_rng k3 = k_rng k \<and>
       (\<forall>fd f. fd_file k fd = Some f \<and> (of_writable f \<or> sl_arr (of_data f) \<notin> owned k) \<longrightarrow> contents k3 f = contents k f)"
proof -
  let ?k2 = "calls E cs k1" and ?k3 = "kRestore E st (calls E cs k1)"
  note snap = snapshot_frozen [OF assms]
  have k2: "kernel_ok ?k2" "evolves k1 ?k2"
    using calls_step [of k1 E cs] snap(1) by (simp_all add: file_step_def)
  note fr = frozen_evolves [OF snap(2) k2(2)]
  note re = restore_frozen [OF k2(1) fr(1) refl, where E = E]
  have st: "st_brkCur st = k_brkCur k" "st_exited st = k_Exited k" "st_exitCode st = k_ExitCode k" "st_nextFd st = k_nextFd k"
    "st_files st = k_files k" "st_dirs st = k_dirs k" "st_rng st = k_rng k" and rng: "k_rng k1 = k_rng k"
    using assms(2) by (auto simp: kSnapshot_def split: prod.splits)
  have ov: "overlay ?k3 = overlay k"
    using re(2) fr(2) snap(3) by simp
  have ev: "evolves k ?k2"
    using snap(1) k2(2) evolves_trans by blast
  have "contents ?k3 f = contents k f" if f: "fd_file k fd = Some f" and w: "of_writable f \<or> sl_arr (of_data f) \<notin> owned k" for fd f
  proof (cases "of_writable f")
    case True
    then show ?thesis by (simp add: contents_def ov)
  next
    case False
    have d: "slice_ok (k_heap k) (of_data f)"
      using assms(1) f by (simp add: kernel_ok_def)
    then have "slice_ok (k_heap ?k2) (of_data f)" "slice_bytes (k_heap ?k2) (of_data f) = slice_bytes (k_heap k) (of_data f)"
      using ev w False by (simp_all add: slice_ok_def evolves_def slice_bytes_def)
    then show ?thesis
      using re(4) False by (simp add: contents_def)
  qed
  moreover have "k_rng ?k3 = k_rng k"
    using k2(2) rng by (auto simp: restore_fields st evolves_def)
  ultimately show ?thesis
    using re(1,3) ov by (auto simp: Let_def restore_fields st)
qed

theorem snapshot_restore_witness:
  "let E = plain_kenv (interp_backend 0 no_simd plain_env); k = one_file New;
       k3 = kRestore E (fst (kSnapshot E k)) (calls E [(57, args_of [100]), (34, args_of [0, 0])] (snd (kSnapshot E k)))
   in kernel_ok k3 \<and> overlay k3 = overlay k \<and> k_files k3 = k_files k \<and> k_dirs k3 = None"
  using snapshot_restore [OF one_file_ok, of "plain_kenv (interp_backend 0 no_simd plain_env)" New _ _
      "[(57, args_of [100]), (34, args_of [0, 0])]", OF surjective_pairing]
  by (simp add: Let_def one_file_def)

text \<open>
  The exception is real. A read-only descriptor opened on an overlay file shares its array: a write
  after the snapshot is seen through the restored descriptor, although the restored file has its old bytes.
\<close>
theorem snapshot_leaks:
  fixes E :: "('b, 'x, 'h, 'r) kenv" and b :: 'b and h :: 'h
  shows "let w = \<lparr>of_path = ''f'', of_data = nil_slice, of_pos = 0, of_writable = True\<rparr>;
             s = \<lparr>sl_arr = 1, sl_len = 3\<rparr>;
             r = \<lparr>of_path = ''f'', of_data = s, of_pos = 0, of_writable = False\<rparr>;
             k = (boot b h)\<lparr>k_heap := [[], [1, 2, 3]], k_files := Some [100 \<mapsto> w, 101 \<mapsto> r], k_nextFd := 102,
                             k_wfiles := Some [(''f'', s)]\<rparr>;
             (st, k1) = kSnapshot E k; k3 = kRestore E st (snd (write_file 100 w [9] k1))
         in kernel_ok k \<and> contents k r = [1, 2, 3] \<and> overlay k3 ''f'' = Some [1, 2, 3] \<and> contents k3 r = [9, 2, 3]"
proof -
  let ?A = "[1, 2, 3] @ replicate (max 3 (ke_grow E 0 3) - 3) 0 :: u8 list"
  let ?s = "\<lparr>sl_arr = 1, sl_len = 3\<rparr>" and ?s2 = "\<lparr>sl_arr = 2, sl_len = 3\<rparr>" and ?s3 = "\<lparr>sl_arr = 3, sl_len = 3\<rparr>"
  let ?w = "\<lparr>of_path = ''f'', of_data = nil_slice, of_pos = 0, of_writable = True\<rparr>"
  let ?r = "\<lparr>of_path = ''f'', of_data = ?s, of_pos = 0, of_writable = False\<rparr>"
  let ?k = "(boot b h)\<lparr>k_heap := [[], [1, 2, 3]], k_files := Some [100 \<mapsto> ?w, 101 \<mapsto> ?r], k_nextFd := 102,
                     k_wfiles := Some [(''f'', ?s)]\<rparr>"
  let ?st = "\<lparr>st_brkCur = 0, st_exited = False, st_exitCode = 0, st_nextFd = 102, st_files = Some [100 \<mapsto> ?w, 101 \<mapsto> ?r],
      st_wfiles = Some [(''f'', ?s2)], st_dirs = None, st_rng = None\<rparr>"
  let ?k2 = "?k\<lparr>k_heap := [[], [9, 2, 3], ?A], k_files := Some [100 \<mapsto> ?w\<lparr>of_pos := 1\<rparr>, 101 \<mapsto> ?r]\<rparr>"
  have c1: "copyWfiles (ke_grow E) (Some [(''f'', ?s)]) [[], [1, 2, 3]] = (Some [(''f'', ?s2)], [[], [1, 2, 3], ?A])"
    and c2: "copyWfiles (ke_grow E) (Some [(''f'', ?s2)]) [[], [9, 2, 3], ?A] = (Some [(''f'', ?s3)], [[], [9, 2, 3], ?A, ?A])"
    by (simp_all add: copyWfiles_def slice_append_def Let_def slice_bytes_def nil_slice_def numeral_3_eq_3)
  have snap: "kSnapshot E ?k = (?st, ?k\<lparr>k_heap := [[], [1, 2, 3], ?A]\<rparr>)"
    unfolding kSnapshot_def using c1 by (simp add: boot_def)
  have put: "slice_put ?s 0 [9] [[], [1, 2, 3], ?A] = [[], [9, 2, 3], ?A]"
    by (simp add: slice_put_def)
  have wr: "snd (write_file 100 ?w [9] (?k\<lparr>k_heap := [[], [1, 2, 3], ?A]\<rparr>)) = ?k2"
    using put by (simp add: write_file_def Let_def wstore_def wslice_def wfile_def room_def boot_def set_wfile_def set_fd_def ret_def
        fun_upd_twist [of "101 :: u32" 100])
  have rs: "kRestore E ?st ?k2 = ?k2\<lparr>k_heap := [[], [9, 2, 3], ?A, ?A], k_wfiles := Some [(''f'', ?s3)],
      k_files := Some [100 \<mapsto> ?w, 101 \<mapsto> ?r]\<rparr>"
    using c2 by (simp add: kRestore_def Let_def BrkTop_def brkTopOf_def boot_def)
  have "kernel_ok ?k"
    by (auto simp: kernel_ok_def boot_def wfile_def fd_file_def distinct_files_def slice_ok_def nil_slice_def
        split: if_splits)
  then show ?thesis
    unfolding Let_def snap prod.case wr rs
    by (simp add: contents_def overlay_def wfile_def slice_bytes_def)
qed

end
