(* ===== verification/Vfs_Props.thy ===== *)
theory Vfs_Props
  imports Vfs Kernel_Props
begin

text \<open>
  The file system: where a guest path can lead, and files of the file system through the system calls.
\<close>

text \<open>
  C25: whatever path the guest passes, with dots, doubled or foreign separators, the host path is
  empty or one entry of one of the four asset directories: the asset root's own components, the two of
  the SDK, those of the directory, and one name that is neither a dot name nor holds a separator of
  either flavour. Cleaning a path twice changes nothing more.
\<close>
theorem host_path_contained:
  "(hostPath v guest = '''' \<or>
    (\<exists>dir b. dir \<in> set asset_dirs \<and> plain b \<and> backslash \<notin> set b \<and>
       hostPath v guest = Join (v_assetRoot v # [''android'', ''sdk23''] @ dir @ [b]) \<and>
       parts (hostPath v guest) = parts (v_assetRoot v) @ [''android'', ''sdk23''] @ dir @ [b])) \<and>
   Clean (Clean guest) = Clean guest"
proof -
  have p: "parts (Join (v_assetRoot v # [''android'', ''sdk23''] @ dir @ [b])) =
      parts (v_assetRoot v) @ [''android'', ''sdk23''] @ dir @ [b]"
    if "dir \<in> set asset_dirs" and "plain b" for dir b
    by (rule parts_Join) (use that in \<open>auto simp: asset_dirs_def plain_def\<close>)
  show ?thesis
    using hostPath_in [of v guest] p Clean_Clean by (auto simp del: append.simps)
qed

subsection \<open>Files of the file system through the kernel\<close>

lemma with_vfs_fields [simp]: "ke_B (with_vfs H v E) = ke_B E" "ke_vfs_Read (with_vfs H v E) = vfs_Read H v"
  "ke_vfs_Exists (with_vfs H v E) = vfs_Exists H v"
  by (simp_all add: with_vfs_def)

lemma open_call:
  assumes "kernel_ok k" and "a 2 AND 0x43 = 0" and "vfs_Read H v (readCStr E (a 1) k) = Some bs" and "E = with_vfs H v E0"
  obtains k' f where "sysOpenat E a k = (Some (scast (k_nextFd (fdTable k))), k')" and "kernel_ok k'" and "k_be k' = k_be k"
    and "fd_file k' (k_nextFd (fdTable k)) = Some f" and "of_pos f = 0" and "contents k' f = bs"
proof -
  let ?p = "readCStr E (a 1) k" and ?k = "fdTable k"
  let ?f = "\<lparr>of_path = ?p, of_data = \<lparr>sl_arr = length (k_heap k), sl_len = length bs\<rparr>, of_pos = 0, of_writable = False\<rparr>"
  let ?k' = "set_fd (k_nextFd ?k) (Some ?f) (?k\<lparr>k_heap := k_heap k @ [bs], k_nextFd := k_nextFd ?k + 1\<rparr>)"
  have h: "k_heap ?k = k_heap k" by (simp add: fdTable_def split: option.split)
  have flags: "a 2 AND (oWRONLY OR oRDWR OR oCREAT) = 0"
    using assms(2) by simp
  have s: "sysOpenat E a k = (Some (scast (k_nextFd ?k)), ?k')"
    using assms(3,4) flags h by (simp add: sysOpenat_def Let_def ret_def new_slice_def)
  have ok: "kernel_ok ?k'"
    using sysOpenat_step [of k E a] assms(1) by (simp add: s file_step_def)
  have t: "k_files ?k \<noteq> None" by (simp add: fdTable_def split: option.split)
  have c: "contents ?k' ?f = bs"
    by (simp add: contents_def slice_bytes_def set_fd_def)
  have fd: "fd_file ?k' (k_nextFd ?k) = Some ?f"
    using t by (auto simp: fd_file_def set_fd_def split: option.split)
  have be: "k_be ?k' = k_be k" by (simp add: set_fd_def fdTable_def split: option.split)
  show ?thesis
    by (rule that [OF s ok be fd _ c]) simp
qed

text \<open>
  Opening a path that the file system resolves and reading from the new descriptor delivers the
  file's first bytes, as many as asked for and there are, to the buffer and nothing else in memory changes.
\<close>
theorem open_then_read:
  fixes a :: args and dst n :: u64
  assumes "mem_inv D (k_be k)" and "kernel_ok k" and "ke_B E0 = interp_backend fuel simd C" and "E = with_vfs H v E0"
    and "a 2 AND 0x43 = 0" and "vfs_Read H v (readCStr E (a 1) k) = Some bs"
    and "unat n < 2 ^ 63" and "length bs < 2 ^ 63" and "d = take (unat n) bs"
    and "unat dst + length d < 2 ^ 64" and "\<forall>i < length d. mbyte (k_be k) (dst + of_nat i) \<noteq> None"
  shows "let (r1, k1) = sysOpenat E a k; (r2, k2) = sysRead E (args_of [the r1, dst, n]) k1
    in r1 \<noteq> None \<and> r2 = Some (of_nat (length d)) \<and> mbyte (k_be k2) = mem_put dst d (mbyte (k_be k))"
proof -
  let ?fd = "k_nextFd (fdTable k)"
  obtain k1 f where 1: "sysOpenat E a k = (Some (scast ?fd), k1)" "kernel_ok k1" "k_be k1 = k_be k"
      "fd_file k1 ?fd = Some f" "of_pos f = 0" "contents k1 f = bs"
    by (rule open_call [OF assms(2,5,6,4)])
  have fd: "fd32 (scast ?fd) = ?fd" by (rule bit_word_eqI) (simp add: bit_simps)
  have B: "ke_B E = interp_backend fuel simd C" using assms(3,4) by simp
  obtain k2 where 2: "sysRead E (args_of [scast ?fd, dst, n]) k1 = (Some (of_nat (length d)), k2)"
      "mbyte (k_be k2) = mem_put dst d (mbyte (k_be k1))"
    by (rule read_call [OF B, where D = D and k = k1 and fd = "scast ?fd" and f = f and len = n and d = d and dst = dst])
      (use 1 fd assms in simp_all)
  show ?thesis
    using 1 2 by simp
qed

definition one_answer :: vfs where
  "one_answer = SetFallback (Some (\<lambda>p. if p = ''.'' then Some (Some [1, 2, 3]) else None)) (vfs_New '''' 1 '''')"

definition no_files :: host_fs where
  "no_files = \<lparr>ReadFile = (\<lambda>_. None), StatOk = (\<lambda>_. False)\<rparr>"

lemma empty_path: "kread E p 1 k = None \<Longrightarrow> readCStr E p k = ''''"
  by (simp add: readCStr_def eval_nat_numeral)

lemma one_answer_read: "vfs_Read H one_answer '''' = Some [1, 2, 3]"
  by (simp add: vfs_Read_def Clean_def rooted_def clean_comps_def Let_def fallback_def one_answer_def SetFallback_def)

theorem open_then_read_witness:
  "let E = with_vfs no_files one_answer (plain_kenv (interp_backend 0 no_simd plain_env));
       (r1, k1) = sysOpenat E (args_of [0, 0, 0]) (boot sample ()); (r2, k2) = sysRead E (args_of [the r1, 0x2000, 2]) k1
   in r1 \<noteq> None \<and> r2 = Some 2 \<and> mbyte (k_be k2) = mem_put 0x2000 [1, 2] (mbyte sample)"
proof -
  let ?E = "with_vfs no_files one_answer (plain_kenv (interp_backend 0 no_simd plain_env))" and ?k = "boot sample ()"
  have m: "mbyte sample (0x2000 + of_nat i) \<noteq> None" if i: "i < 2" for i
  proof -
    consider "i = 0" | "i = 1" using i by linarith
    then show ?thesis by (cases; simp add: sample_unmapped)
  qed
  have "interp_MemRead 0 1 sample = None"
  proof (rule ccontr)
    assume "interp_MemRead 0 1 sample \<noteq> None"
    then obtain bs where r: "interp_MemRead 0 1 sample = Some bs" by blast
    show False
      using interp_read_law [OF sample_effect(1) r] sample_unmapped [of 0] by (cases bs) auto
  qed
  then have p: "readCStr ?E (args_of [0, 0, 0] 1) ?k = ''''"
    by (intro empty_path) (simp add: kread_def interp_backend_def)
  obtain r1 k1 where 1: "sysOpenat ?E (args_of [0, 0, 0]) ?k = (r1, k1)" by force
  obtain r2 k2 where 2: "sysRead ?E (args_of [the r1, 0x2000, 2]) k1 = (r2, k2)" by force
  show ?thesis
    using open_then_read [where D = "decode no_simd inst0" and k = ?k and E = ?E and a = "args_of [0, 0, 0]" and n = 2
        and dst = "0x2000" and bs = "[1, 2, 3]" and d = "[1, 2]" and H = no_files and v = one_answer
        and ?E0.0 = "plain_kenv (interp_backend 0 no_simd plain_env)" and fuel = 0 and simd = no_simd and C = plain_env,
        OF _ boot_ok _ refl, unfolded p one_answer_read]
      sample_effect(1) m 1 2 by simp
qed

lemma wfile_first [simp]: "wfile (wstore (fdTable k)) p = wfile k p"
  by (auto simp: wfile_def wstore_def fdTable_def split: option.splits)

lemma open_missing:
  assumes "E = with_vfs H v E0" and "a 2 AND 0x43 = 0" and "vfs_Read H v (readCStr E (a 1) k) = None"
    and "wfile k (readCStr E (a 1) k) = None"
  shows "fst (sysOpenat E a k) = Some (- ENOENT)"
proof -
  have flags: "a 2 AND (oWRONLY OR oRDWR OR oCREAT) = 0"
    using assms(2) by simp
  show ?thesis
    using assms(1,3,4) flags by (simp add: sysOpenat_def Let_def ret_def)
qed

text \<open>
  C26: when the file system's own part of Read (synthetic files and the asset directories) supplies the
  cleaned path, faccessat gives 0, and opening the path for reading gives the next descriptor unless the
  fallback answers for the path with an error; when it does so, and no file was written under the path,
  opening gives ENOENT although faccessat gave 0. A path inside the asset directories (one with a host
  path) that is missing on the host and that only the fallback supplies can be opened, and yet faccessat
  denies it.
\<close>
theorem access_and_open:
  fixes E :: "('b, 'x, 'h, 'r) kenv" and a :: args
  assumes "E = with_vfs H v E0" and "a 2 AND 0x43 = 0" and "p = Clean (readCStr E (a 1) k)"
    and "\<And>q. ReadFile H q \<noteq> None \<Longrightarrow> StatOk H q" and "kernel_ok k"
  shows "(read_builtin H v p \<noteq> None \<longrightarrow> fst (sysFaccessat E a k) = Some 0 \<and>
       (fallback v p \<noteq> Some None \<longrightarrow> fst (sysOpenat E a k) = Some (scast (k_nextFd (fdTable k)))) \<and>
       (fallback v p = Some None \<and> wfile k (readCStr E (a 1) k) = None \<longrightarrow> fst (sysOpenat E a k) = Some (- ENOENT))) \<and>
    (v_synth v p = None \<and> hostPath v p \<noteq> '''' \<and> \<not> StatOk H (hostPath v p) \<and> fallback v p = Some (Some bs) \<and>
       \<not> is_dir k (readCStr E (a 1) k) \<and> wfile k (readCStr E (a 1) k) = None
     \<longrightarrow> fst (sysFaccessat E a k) = Some (- ENOENT) \<and> fst (sysOpenat E a k) = Some (scast (k_nextFd (fdTable k))))"
proof (intro conjI impI)
  let ?g = "readCStr E (a 1) k"
  assume r: "read_builtin H v p \<noteq> None"
  have "vfs_Exists H v ?g"
    by (rule builtin_Exists [OF r [unfolded assms(3)] assms(4)])
  then show "fst (sysFaccessat E a k) = Some 0"
    using assms(1) by (simp add: sysFaccessat_def Let_def ret_def)
  show "fst (sysOpenat E a k) = Some (scast (k_nextFd (fdTable k)))" if f: "fallback v p \<noteq> Some None"
  proof -
    obtain bs where b: "vfs_Read H v ?g = Some bs"
      using r f unfolding assms(3)
      by (cases "fallback v (Clean ?g)"; cases "the (fallback v (Clean ?g))") (auto simp: vfs_Read_def Let_def)
    show ?thesis
      by (rule open_call [OF assms(5,2) b assms(1)]) simp
  qed
  show "fst (sysOpenat E a k) = Some (- ENOENT)" if "fallback v p = Some None \<and> wfile k ?g = None"
    by (rule open_missing [where H = H and v = v and a = a and k = k, OF assms(1) assms(2)]) (use that in \<open>simp_all add: assms(3) vfs_Read_def Let_def\<close>)
next
  assume h: "v_synth v p = None \<and> hostPath v p \<noteq> '''' \<and> \<not> StatOk H (hostPath v p) \<and> fallback v p = Some (Some bs) \<and>
       \<not> is_dir k (readCStr E (a 1) k) \<and> wfile k (readCStr E (a 1) k) = None"
  then have e: "\<not> vfs_Exists H v (readCStr E (a 1) k)" and r: "vfs_Read H v (readCStr E (a 1) k) = Some bs"
    using fallback_only [of v "readCStr E (a 1) k" H bs] unfolding assms(3) by blast+
  show "fst (sysFaccessat E a k) = Some (- ENOENT)"
    using assms(1) h e by (simp add: sysFaccessat_def Let_def ret_def)
  show "fst (sysOpenat E a k) = Some (scast (k_nextFd (fdTable k)))"
    by (rule open_call [OF assms(5,2) r assms(1)]) simp
qed

text \<open>A backend whose memory holds one string at address zero.\<close>

definition typed :: "string \<Rightarrow> ('b, 'x) backend \<Rightarrow> ('b, 'x) backend" where
  "typed p B = B\<lparr>MemRead := (\<lambda>a n b. if unat a < length p then Some [of_char (p ! unat a)] else None)\<rparr>"

lemma typed_cstr:
  assumes "\<forall>c \<in> set p. of_char c \<noteq> (0 :: u8)" and "length p < 2 ^ 63" and "i \<le> length p" and "ke_B E = typed p B"
  shows "cstr E k n (of_nat i) = take n (drop i p)"
  using assms(3)
proof (induction n arbitrary: i)
  case (Suc n)
  have u: "unat (of_nat i :: u64) = i"
    using Suc.prems assms(2) by (simp add: unat_of_nat take_bit_eq_mod)
  show ?case
  proof (cases "i < length p")
    case True
    have "unat (of_nat (of_char (p ! i)) :: u8) = of_char (p ! i)"
      using nat_of_char_less_256 [of "p ! i"] by (simp add: unat_of_nat take_bit_eq_mod del: of_nat_of_char)
    then have c: "char_of (unat (of_char (p ! i) :: u8)) = p ! i" by (simp add: of_nat_of_char)
    show ?thesis
      using Suc.IH [of "Suc i"] True u c assms(1,4) nth_mem [OF True]
      by (simp add: kread_def typed_def Cons_nth_drop_Suc [symmetric] add.commute)
  next
    case False
    then show ?thesis using Suc.prems u assms(4) by (simp add: kread_def typed_def)
  qed
qed simp

lemma typed_path:
  assumes "\<forall>c \<in> set p. of_char c \<noteq> (0 :: u8)" and "length p \<le> 4096" and "ke_B E = typed p B"
  shows "readCStr E 0 k = p"
  using typed_cstr [OF assms(1) _ _ assms(3), of 0 k 4096] assms(2) by (simp add: readCStr_def)

definition stat_answer :: vfs where
  "stat_answer = SetFallback (Some (\<lambda>p. if p = ''/proc/stat'' then Some (Some [1, 2, 3]) else None)) (vfs_New '''' 1 '''')"

theorem access_and_open_witness:
  "(let E = with_vfs no_files stat_answer (plain_kenv (typed ''/proc/stat'' (interp_backend 0 no_simd plain_env)))
    in fst (sysFaccessat E (args_of [0, 0, 0]) (boot sample ())) = Some (- ENOENT) \<and>
       fst (sysOpenat E (args_of [0, 0, 0]) (boot sample ())) = Some 100) \<and>
   (let E = with_vfs no_files stat_answer (plain_kenv (typed ''/proc/self/auxv'' (interp_backend 0 no_simd plain_env)))
    in fst (sysFaccessat E (args_of [0, 0, 0]) (boot sample ())) = Some 0 \<and>
       fst (sysOpenat E (args_of [0, 0, 0]) (boot sample ())) = Some 100)"
proof -
  let ?E = "\<lambda>q. with_vfs no_files stat_answer (plain_kenv (typed q (interp_backend 0 no_simd plain_env)))"
  let ?k = "boot sample ()"
  have p: "readCStr (?E ''/proc/stat'') (args_of [0, 0, 0] 1) ?k = ''/proc/stat''"
    "readCStr (?E ''/proc/self/auxv'') (args_of [0, 0, 0] 1) ?k = ''/proc/self/auxv''"
    using typed_path [of "''/proc/stat''" "?E ''/proc/stat''" "interp_backend 0 no_simd plain_env" ?k]
      typed_path [of "''/proc/self/auxv''" "?E ''/proc/self/auxv''" "interp_backend 0 no_simd plain_env" ?k] by simp_all
  have c: "Clean ''/proc/stat'' = ''/proc/stat''" "Clean ''/proc/self/auxv'' = ''/proc/self/auxv''"
    by (simp_all add: Clean_def rooted_def clean_comps_def Let_def)
  have h: "hostPath stat_answer ''/proc/stat'' = Join [Join [v_assetRoot stat_answer, ''android'', ''sdk23''], ''proc'', ''stat'']"
    by (simp add: hostPath_def c HasPrefix_def Let_def)
  have ne: "Join [sdk, ''proc'', ''stat''] \<noteq> ''''" for sdk
    using Join_plain [of "[''proc'', ''stat'']" sdk] by (cases "parts sdk") (simp_all add: plain_def path_of_def unsplit_Cons)
  have s: "v_synth stat_answer ''/proc/stat'' = None" "fallback stat_answer ''/proc/stat'' = Some (Some [1, 2, 3])"
    "fallback stat_answer ''/proc/self/auxv'' = None" "read_builtin no_files stat_answer ''/proc/self/auxv'' = Some []"
    by (simp_all add: stat_answer_def SetFallback_def vfs_New_def registerSynthetic_def fallback_def read_builtin_def)
  have k: "is_dir ?k q = False" "wfile ?k q = None" "k_nextFd (fdTable ?k) = 100" for q
    by (simp_all add: is_dir_def wfile_def boot_def fdTable_def)
  show ?thesis
    using access_and_open [where E = "?E ''/proc/stat''" and H = no_files and v = stat_answer and a = "args_of [0, 0, 0]"
        and k = ?k and bs = "[1, 2, 3]", OF refl _ refl _ boot_ok, unfolded p c k h s]
      access_and_open [where E = "?E ''/proc/self/auxv''" and H = no_files and v = stat_answer and a = "args_of [0, 0, 0]"
        and k = ?k and bs = "[1, 2, 3]", OF refl _ refl _ boot_ok, unfolded p c k s] ne
    by (simp add: no_files_def)
qed

end
