(* ===== verification/Dvm.thy ===== *)
theory Dvm
  imports Prelude "HOL-Library.AList"
begin

text \<open>
  The Java objects behind the JNI handles (dvm/dvm.go, dvm/valist.go). \<open>*Object\<close> and \<open>*Class\<close> are indices
  into the lists \<open>vm_heap\<close> and \<open>vm_class\<close>, because handles, classes and host code share and update them;
  byte arrays and arrays of handles are indices too, since \<open>Value\<close> is shared between an object and its
  clones. A method or field record is never changed once made, so its pointer is its value. The lock is
  left out: every operation is one step. The handle table is an association list, one entry for each
  handle. \<open>Value any\<close> is the datatype \<open>payload\<close>, with \<open>'p\<close> for what the
  host puts there.
\<close>

type_synonym ref = "32 word"

datatype 'p payload =
    VNil
  | VString string
  | VBytes nat
  | VRefs nat
  | VObjs "nat option list"
  | VLong "64 word"
  | VInt "32 word"
  | VU64 "64 word"
  | VClass nat
  | VHost 'p

record 'p object =
  ob_Class :: "nat option"
  ob_Value :: "'p payload"
  ob_fields :: "string \<rightharpoonup> 'p payload"

record member =
  mb_ID :: ref
  mb_Name :: string
  mb_Sig :: string
  mb_Static :: bool

record class_rec =
  cl_Name :: string
  cl_Super :: "nat option"
  cl_methods :: "string \<rightharpoonup> member"
  cl_fields :: "string \<rightharpoonup> member"

record 'p vm =
  vm_heap :: "'p object list"
  vm_class :: "class_rec list"
  vm_bytes :: "8 word list list"
  vm_refs :: "ref list list"
  vm_classes :: "string \<rightharpoonup> nat"
  vm_objs :: "(ref \<times> nat) list"
  vm_nextRef :: ref
  vm_nextID :: ref

definition NewVM :: "'p vm" where
  "NewVM = \<lparr>vm_heap = [], vm_class = [], vm_bytes = [], vm_refs = [], vm_classes = Map.empty, vm_objs = [],
     vm_nextRef = 0x100, vm_nextID = 0x70000001\<rparr>"

subsection \<open>Objects\<close>

text \<open>Allocation of an object, of a class and of an array: the new pointer and the new state.\<close>

definition alloc_object :: "'p object \<Rightarrow> 'p vm \<Rightarrow> nat \<times> 'p vm" where
  "alloc_object ob m = (length (vm_heap m), m\<lparr>vm_heap := vm_heap m @ [ob]\<rparr>)"

definition alloc_bytes :: "8 word list \<Rightarrow> 'p vm \<Rightarrow> nat \<times> 'p vm" where
  "alloc_bytes bs m = (length (vm_bytes m), m\<lparr>vm_bytes := vm_bytes m @ [bs]\<rparr>)"

definition alloc_refs :: "ref list \<Rightarrow> 'p vm \<Rightarrow> nat \<times> 'p vm" where
  "alloc_refs rs m = (length (vm_refs m), m\<lparr>vm_refs := vm_refs m @ [rs]\<rparr>)"

definition SetField :: "nat \<Rightarrow> string \<Rightarrow> 'p payload \<Rightarrow> 'p vm \<Rightarrow> 'p vm" where
  "SetField p sg v m = m\<lparr>vm_heap := (vm_heap m)[p := (vm_heap m ! p)\<lparr>ob_fields := (ob_fields (vm_heap m ! p))(sg \<mapsto> v)\<rparr>]\<rparr>"

definition get_Field :: "nat \<Rightarrow> string \<Rightarrow> 'p vm \<Rightarrow> 'p payload option" where
  "get_Field p sg m = ob_fields (vm_heap m ! p) sg"

definition Box :: "nat \<Rightarrow> 'p vm \<Rightarrow> ref \<times> 'p vm" where
  "Box p m = (vm_nextRef m, m\<lparr>vm_nextRef := vm_nextRef m + 1, vm_objs := AList.update (vm_nextRef m) p (vm_objs m)\<rparr>)"

definition NewObject :: "nat \<Rightarrow> 'p payload \<Rightarrow> 'p vm \<Rightarrow> ref \<times> 'p vm" where
  "NewObject cls v m =
     (let (p, m) = alloc_object \<lparr>ob_Class = Some cls, ob_Value = v, ob_fields = Map.empty\<rparr> m in Box p m)"

definition Deref :: "ref \<Rightarrow> 'p vm \<Rightarrow> nat option" where
  "Deref r m = (if r = 0 then None else map_of (vm_objs m) r)"

subsection \<open>Classes and their members\<close>

definition ResolveClass :: "string \<Rightarrow> nat option \<Rightarrow> 'p vm \<Rightarrow> nat \<times> 'p vm" where
  "ResolveClass name super m =
     (case vm_classes m name of
        Some c \<Rightarrow> (c, m)
      | None \<Rightarrow>
          let c = length (vm_class m)
          in (c, m\<lparr>vm_class := vm_class m @ [\<lparr>cl_Name = name, cl_Super = super, cl_methods = Map.empty, cl_fields = Map.empty\<rparr>],
                   vm_classes := (vm_classes m)(name \<mapsto> c)\<rparr>))"

definition LookupClass :: "string \<Rightarrow> 'p vm \<Rightarrow> nat option" where
  "LookupClass name m = vm_classes m name"

definition upd_class :: "nat \<Rightarrow> (class_rec \<Rightarrow> class_rec) \<Rightarrow> 'p vm \<Rightarrow> 'p vm" where
  "upd_class c f m = m\<lparr>vm_class := (vm_class m)[c := f (vm_class m ! c)]\<rparr>"

definition fresh_ID :: "'p vm \<Rightarrow> ref \<times> 'p vm" where
  "fresh_ID m = (vm_nextID m, m\<lparr>vm_nextID := vm_nextID m + 1\<rparr>)"

definition method_key :: "string \<Rightarrow> string \<Rightarrow> string" where
  "method_key name sg = name @ sg"

definition field_key :: "string \<Rightarrow> string \<Rightarrow> string" where
  "field_key name sg = name @ '':'' @ sg"

definition MethodID :: "nat \<Rightarrow> string \<Rightarrow> string \<Rightarrow> bool \<Rightarrow> 'p vm \<Rightarrow> member \<times> 'p vm" where
  "MethodID c name sg static m =
     (case cl_methods (vm_class m ! c) (method_key name sg) of
        Some mb \<Rightarrow> (mb, m)
      | None \<Rightarrow>
          let (i, m) = fresh_ID m; mb = \<lparr>mb_ID = i, mb_Name = name, mb_Sig = sg, mb_Static = static\<rparr>
          in (mb, upd_class c (\<lambda>k. k\<lparr>cl_methods := (cl_methods k)(method_key name sg \<mapsto> mb)\<rparr>) m))"

definition FieldID :: "nat \<Rightarrow> string \<Rightarrow> string \<Rightarrow> bool \<Rightarrow> 'p vm \<Rightarrow> member \<times> 'p vm" where
  "FieldID c name sg static m =
     (case cl_fields (vm_class m ! c) (field_key name sg) of
        Some mb \<Rightarrow> (mb, m)
      | None \<Rightarrow>
          let (i, m) = fresh_ID m; mb = \<lparr>mb_ID = i, mb_Name = name, mb_Sig = sg, mb_Static = static\<rparr>
          in (mb, upd_class c (\<lambda>k. k\<lparr>cl_fields := (cl_fields k)(field_key name sg \<mapsto> mb)\<rparr>) m))"

definition MethodSig :: "nat \<Rightarrow> string \<Rightarrow> 'p vm \<Rightarrow> string" where
  "MethodSig c nameSig m = cl_Name (vm_class m ! c) @ ''->'' @ nameSig"

definition NewString :: "string \<Rightarrow> 'p vm \<Rightarrow> ref \<times> 'p vm" where
  "NewString s m = (let (c, m) = ResolveClass ''java/lang/String'' None m in NewObject c (VString s) m)"

definition NewByteArray :: "nat \<Rightarrow> 'p vm \<Rightarrow> ref \<times> 'p vm" where
  "NewByteArray b m = (let (c, m) = ResolveClass ''[B'' None m in NewObject c (VBytes b) m)"

definition NewLong :: "64 word \<Rightarrow> 'p vm \<Rightarrow> ref \<times> 'p vm" where
  "NewLong v m = (let (c, m) = ResolveClass ''java/lang/Long'' None m in NewObject c (VLong v) m)"

definition NewInteger :: "32 word \<Rightarrow> 'p vm \<Rightarrow> ref \<times> 'p vm" where
  "NewInteger v m = (let (c, m) = ResolveClass ''java/lang/Integer'' None m in NewObject c (VInt v) m)"

subsection \<open>Argument lists\<close>

definition GetLongArg :: "64 word list \<Rightarrow> int \<Rightarrow> 64 word" where
  "GetLongArg args i = (if i < 0 \<or> i \<ge> int (length args) then 0 else args ! nat i)"

definition GetIntArg :: "64 word list \<Rightarrow> int \<Rightarrow> 32 word" where
  "GetIntArg args i = (if i < 0 \<or> i \<ge> int (length args) then 0 else ucast (args ! nat i))"

definition GetObjectArg :: "64 word list \<Rightarrow> int \<Rightarrow> 'p vm \<Rightarrow> nat option" where
  "GetObjectArg args i m = (if i < 0 \<or> i \<ge> int (length args) then None else Deref (ucast (args ! nat i)) m)"

definition GetStringArg :: "64 word list \<Rightarrow> int \<Rightarrow> 'p vm \<Rightarrow> string" where
  "GetStringArg args i m =
     (case GetObjectArg args i m of
        None \<Rightarrow> ''''
      | Some p \<Rightarrow> (case ob_Value (vm_heap m ! p) of VString s \<Rightarrow> s | _ \<Rightarrow> ''''))"

subsection \<open>Snapshot and Restore\<close>

text \<open>
  A table cloned into the heap: every handle gets a new object with the contents of the old one. The Go
  map is walked in some order; here it is the order of the list.
\<close>

record vmstate =
  vs_nextRef :: ref
  vs_objs :: "(ref \<times> nat) list"

definition clone :: "nat \<Rightarrow> 'p vm \<Rightarrow> nat \<times> 'p vm" where
  "clone p m = alloc_object (vm_heap m ! p) m"

fun clone_objs :: "(ref \<times> nat) list \<Rightarrow> 'p vm \<Rightarrow> (ref \<times> nat) list \<times> 'p vm" where
  "clone_objs [] m = ([], m)"
| "clone_objs ((r, p) # t) m = (let (q, m) = clone p m; (u, m) = clone_objs t m in ((r, q) # u, m))"

definition vm_Snapshot :: "'p vm \<Rightarrow> vmstate \<times> 'p vm" where
  "vm_Snapshot m = (let (t, m') = clone_objs (vm_objs m) m in (\<lparr>vs_nextRef = vm_nextRef m, vs_objs = t\<rparr>, m'))"

definition vm_Restore :: "vmstate \<Rightarrow> 'p vm \<Rightarrow> 'p vm" where
  "vm_Restore st m = (let (t, m') = clone_objs (vs_objs st) m in m'\<lparr>vm_nextRef := vs_nextRef st, vm_objs := t\<rparr>)"

subsection \<open>The host's side\<close>

text \<open>
  What the guest and the host do to the VM between a snapshot and its restore: they reach classes by name
  and objects by handle, or make new ones; nobody holds the clones.
\<close>

datatype 'p vm_op =
    OpNew string "'p payload"
  | OpBoxNew "'p object"
  | OpBoxAgain ref
  | OpSetField ref string "'p payload"
  | OpResolve string
  | OpMethod string string string bool
  | OpField string string string bool

fun vm_step :: "'p vm_op \<Rightarrow> 'p vm \<Rightarrow> 'p vm" where
  "vm_step (OpNew name v) m = (let (c, m) = ResolveClass name None m in snd (NewObject c v m))"
| "vm_step (OpBoxNew ob) m = (let (p, m) = alloc_object ob m in snd (Box p m))"
| "vm_step (OpBoxAgain r) m = (case Deref r m of None \<Rightarrow> m | Some p \<Rightarrow> snd (Box p m))"
| "vm_step (OpSetField r sg v) m = (case Deref r m of None \<Rightarrow> m | Some p \<Rightarrow> SetField p sg v m)"
| "vm_step (OpResolve name) m = snd (ResolveClass name None m)"
| "vm_step (OpMethod cname name sg static) m = (let (c, m) = ResolveClass cname None m in snd (MethodID c name sg static m))"
| "vm_step (OpField cname name sg static) m = (let (c, m) = ResolveClass cname None m in snd (FieldID c name sg static m))"

definition vm_steps :: "'p vm_op list \<Rightarrow> 'p vm \<Rightarrow> 'p vm" where
  "vm_steps = fold vm_step"

subsection \<open>The invariant\<close>

text \<open>Every handle names an object and was handed out before; the table of classes and the classes agree.\<close>

definition objs_ok :: "'p vm \<Rightarrow> bool" where
  "objs_ok m \<longleftrightarrow> distinct (map fst (vm_objs m)) \<and>
     (\<forall>(r, p) \<in> set (vm_objs m). p < length (vm_heap m) \<and> 0x100 \<le> unat r \<and> unat r < unat (vm_nextRef m)) \<and>
     0x100 \<le> unat (vm_nextRef m)"

definition classes_ok :: "'p vm \<Rightarrow> bool" where
  "classes_ok m \<longleftrightarrow>
     (\<forall>n c. vm_classes m n = Some c \<longrightarrow> c < length (vm_class m) \<and> cl_Name (vm_class m ! c) = n) \<and>
     (\<forall>c < length (vm_class m). vm_classes m (cl_Name (vm_class m ! c)) = Some c)"

text \<open>A member: its class, whether it is a method, its key, and what it is.\<close>

definition members :: "'p vm \<Rightarrow> nat \<Rightarrow> bool \<Rightarrow> string \<rightharpoonup> member" where
  "members m c meth key =
     (if c < length (vm_class m) then (if meth then cl_methods else cl_fields) (vm_class m ! c) key else None)"

definition ids_ok :: "'p vm \<Rightarrow> bool" where
  "ids_ok m \<longleftrightarrow>
     (\<forall>c meth key mb. members m c meth key = Some mb \<longrightarrow>
        unat (mb_ID mb) < unat (vm_nextID m) \<and>
        key = (if meth then method_key else field_key) (mb_Name mb) (mb_Sig mb)) \<and>
     (\<forall>c meth key mb c' meth' key' mb'. members m c meth key = Some mb \<longrightarrow> members m c' meth' key' = Some mb' \<longrightarrow>
        mb_ID mb = mb_ID mb' \<longrightarrow> c = c' \<and> meth = meth' \<and> key = key')"

definition vm_ok :: "'p vm \<Rightarrow> bool" where
  "vm_ok m \<longleftrightarrow> objs_ok m \<and> classes_ok m \<and> ids_ok m"

lemma NewVM_ok: "vm_ok NewVM"
  by (simp add: vm_ok_def objs_ok_def classes_ok_def ids_ok_def members_def NewVM_def)

lemma objs_ok_eq:
  "vm_objs m' = vm_objs m \<Longrightarrow> vm_nextRef m' = vm_nextRef m \<Longrightarrow> length (vm_heap m) \<le> length (vm_heap m') \<Longrightarrow>
   objs_ok m \<Longrightarrow> objs_ok m'"
  by (fastforce simp: objs_ok_def)

lemma classes_ids_eq:
  "vm_class m' = vm_class m \<Longrightarrow> vm_classes m' = vm_classes m \<Longrightarrow> vm_nextID m' = vm_nextID m \<Longrightarrow>
   classes_ok m' = classes_ok m \<and> ids_ok m' = ids_ok m"
  by (simp add: classes_ok_def ids_ok_def members_def)

lemma ResolveClass_objs: "(c, m') = ResolveClass name super m \<Longrightarrow>
  vm_objs m' = vm_objs m \<and> vm_heap m' = vm_heap m \<and> vm_nextRef m' = vm_nextRef m \<and> vm_nextID m' = vm_nextID m"
  by (auto simp: ResolveClass_def Let_def split: option.splits)

lemma members_append:
  "members (m\<lparr>vm_class := vm_class m @ [\<lparr>cl_Name = n, cl_Super = sp, cl_methods = Map.empty, cl_fields = Map.empty\<rparr>],
     vm_classes := t\<rparr>) = members m"
  by (auto simp: members_def fun_eq_iff nth_append)

lemma ResolveClass_ok:
  assumes "vm_ok m" and r: "ResolveClass name super m = (c, m')"
  shows "vm_ok m'" and "c < length (vm_class m')" and "vm_classes m' name = Some c" and "members m' = members m"
proof -
  have "vm_ok m' \<and> c < length (vm_class m') \<and> vm_classes m' name = Some c \<and> members m' = members m"
  proof (cases "vm_classes m name")
    case (Some d)
    then show ?thesis using assms by (auto simp: ResolveClass_def vm_ok_def classes_ok_def)
  next
    case None
    then have m': "c = length (vm_class m)" "m' = m\<lparr>vm_class := vm_class m @
        [\<lparr>cl_Name = name, cl_Super = super, cl_methods = Map.empty, cl_fields = Map.empty\<rparr>],
        vm_classes := (vm_classes m)(name \<mapsto> c)\<rparr>"
      using r by (auto simp: ResolveClass_def Let_def)
    have mem: "members m' = members m" unfolding m'(2) by (rule members_append)
    have "classes_ok m'"
      using assms(1) None m' by (fastforce simp: vm_ok_def classes_ok_def nth_append less_Suc_eq)
    moreover have "ids_ok m'" using assms(1) m'(2) mem by (simp add: vm_ok_def ids_ok_def)
    moreover have "objs_ok m'" using assms(1) m'(2) by (auto simp: vm_ok_def intro: objs_ok_eq [of _ m])
    ultimately show ?thesis using m' mem by (simp add: vm_ok_def)
  qed
  then show "vm_ok m'" "c < length (vm_class m')" "vm_classes m' name = Some c" "members m' = members m" by simp_all
qed

lemma update_new: "k \<notin> fst ` set t \<Longrightarrow> AList.update k v t = t @ [(k, v)]"
  by (induction t) auto

lemma Box_ok:
  assumes "vm_ok m" and "p < length (vm_heap m)" and "unat (vm_nextRef m) + 1 < 2 ^ 32"
  shows "vm_ok (snd (Box p m))" and "map_of (vm_objs m) (fst (Box p m)) = None"
proof -
  have u: "unat (vm_nextRef m + 1) = unat (vm_nextRef m) + 1"
    using assms(3) by (simp add: unat_word_ariths(1))
  have n: "vm_nextRef m \<notin> fst ` set (vm_objs m)"
    using assms(1) by (force simp: vm_ok_def objs_ok_def)
  then show "map_of (vm_objs m) (fst (Box p m)) = None"
    by (simp add: Box_def map_of_eq_None_iff)
  have a: "AList.update (vm_nextRef m) p (vm_objs m) = vm_objs m @ [(vm_nextRef m, p)]"
    by (rule update_new [OF n])
  have "objs_ok (snd (Box p m))"
    using assms n u unfolding Box_def objs_ok_def a by (fastforce simp: vm_ok_def objs_ok_def)
  then show "vm_ok (snd (Box p m))"
    using assms(1) classes_ids_eq [of "snd (Box p m)" m] by (simp add: vm_ok_def Box_def)
qed

end
