(* ===== verification/Dvm_Props.thy ===== *)
theory Dvm_Props
  imports Dvm
begin

text \<open>
  The VM: its invariant under every operation, interning, and snapshots of the handle table.
\<close>

subsection \<open>Members\<close>

lemma add_member:
  assumes "ids_ok m" and "c < length (vm_class m)" and u: "unat (vm_nextID m) + 1 < 2 ^ 32"
    and new: "members m c meth key = None" and i: "mb_ID mb = vm_nextID m"
    and k: "key = (if meth then method_key else field_key) (mb_Name mb) (mb_Sig mb)"
    and m': "\<And>c' meth' key'. members m' c' meth' key' =
      (if c' = c \<and> meth' = meth \<and> key' = key then Some mb else members m c' meth' key')"
    and n: "vm_nextID m' = vm_nextID m + 1"
  shows "ids_ok m'"
proof -
  have s: "unat (vm_nextID m + 1) = unat (vm_nextID m) + 1"
    using u by (simp add: unat_word_ariths(1))
  have old: "unat (mb_ID mb') < unat (vm_nextID m)" "key' = (if meth' then method_key else field_key) (mb_Name mb') (mb_Sig mb')"
    if "members m c' meth' key' = Some mb'" for c' meth' key' mb'
    using assms(1) that unfolding ids_ok_def by blast+
  have inj: "c1 = c2 \<and> f1 = f2 \<and> k1 = k2"
    if "members m c1 f1 k1 = Some b1" "members m c2 f2 k2 = Some b2" "mb_ID b1 = mb_ID b2" for c1 f1 k1 b1 c2 f2 k2 b2
    using assms(1) that unfolding ids_ok_def by blast
  have ne: "mb_ID mb' \<noteq> mb_ID mb" if "members m c' meth' key' = Some mb'" for c' meth' key' mb'
    using old(1) [OF that] i by auto
  show ?thesis
    unfolding ids_ok_def n s
  proof (intro conjI allI impI; (elim conjE)?)
    fix c' meth' key' mb'
    assume a: "members m' c' meth' key' = Some mb'"
    show "unat (mb_ID mb') < unat (vm_nextID m) + 1"
      using a i old(1) [of c' meth' key' mb'] by (auto simp: m' split: if_splits)
    show "key' = (if meth' then method_key else field_key) (mb_Name mb') (mb_Sig mb')"
      using a k old(2) [of c' meth' key' mb'] by (auto simp: m' split: if_splits)
  next
    fix c1 f1 k1 b1 c2 f2 k2 b2
    assume a: "members m' c1 f1 k1 = Some b1" "members m' c2 f2 k2 = Some b2" "mb_ID b1 = mb_ID b2"
    have "c1 = c2 \<and> f1 = f2 \<and> k1 = k2"
      using a inj [of c1 f1 k1 b1 c2 f2 k2 b2] ne [of c1 f1 k1 b1] ne [of c2 f2 k2 b2]
      by (auto simp: m' split: if_splits)
    then show "c1 = c2" "f1 = f2" "k1 = k2" by simp_all
  qed
qed

text \<open>Interning in either table, as one operation.\<close>

definition intern :: "bool \<Rightarrow> nat \<Rightarrow> string \<Rightarrow> string \<Rightarrow> bool \<Rightarrow> 'p vm \<Rightarrow> member \<times> 'p vm" where
  "intern meth = (if meth then MethodID else FieldID)"

abbreviation key_of :: "bool \<Rightarrow> string \<Rightarrow> string \<Rightarrow> string" where
  "key_of meth \<equiv> (if meth then method_key else field_key)"

lemma intern_cases:
  assumes "c < length (vm_class m)"
  obtains (old) mb where "members m c meth (key_of meth name sg) = Some mb" and "intern meth c name sg static m = (mb, m)"
  | (new) mb m' where "members m c meth (key_of meth name sg) = None" and "intern meth c name sg static m = (mb, m')"
    and "mb = \<lparr>mb_ID = vm_nextID m, mb_Name = name, mb_Sig = sg, mb_Static = static\<rparr>"
    and "vm_nextID m' = vm_nextID m + 1" and "vm_heap m' = vm_heap m" "vm_objs m' = vm_objs m" "vm_nextRef m' = vm_nextRef m"
    and "\<And>c' meth' key'. members m' c' meth' key' =
      (if c' = c \<and> meth' = meth \<and> key' = key_of meth name sg then Some mb else members m c' meth' key')"
    and "vm_classes m' = vm_classes m" and "map cl_Name (vm_class m') = map cl_Name (vm_class m)"
proof (cases "members m c meth (key_of meth name sg)")
  case (Some mb)
  then have "intern meth c name sg static m = (mb, m)"
    using assms by (cases meth) (simp_all add: intern_def MethodID_def FieldID_def members_def)
  then show ?thesis using Some old by blast
next
  case None
  let ?mb = "\<lparr>mb_ID = vm_nextID m, mb_Name = name, mb_Sig = sg, mb_Static = static\<rparr>"
  let ?f = "if meth then (\<lambda>k. k\<lparr>cl_methods := (cl_methods k)(method_key name sg \<mapsto> ?mb)\<rparr>)
     else (\<lambda>k. k\<lparr>cl_fields := (cl_fields k)(field_key name sg \<mapsto> ?mb)\<rparr>)"
  let ?m = "upd_class c ?f (m\<lparr>vm_nextID := vm_nextID m + 1\<rparr>)"
  have i: "intern meth c name sg static m = (?mb, ?m)"
    using None assms by (cases meth) (simp_all add: intern_def MethodID_def FieldID_def members_def fresh_ID_def Let_def)
  have mem: "members ?m c' meth' key' =
      (if c' = c \<and> meth' = meth \<and> key' = key_of meth name sg then Some ?mb else members m c' meth' key')" for c' meth' key'
    using assms by (cases meth) (auto simp: members_def upd_class_def nth_list_update)
  have nm: "map cl_Name (vm_class ?m) = map cl_Name (vm_class m)"
    using assms by (cases meth) (simp_all add: upd_class_def map_update list_update_same_conv)
  show ?thesis
    by (rule new [OF None i refl _ _ _ _ mem]) (use nm in \<open>simp_all add: upd_class_def\<close>)
qed

lemma classes_ok_names:
  assumes "vm_classes m' = vm_classes m" and "map cl_Name (vm_class m') = map cl_Name (vm_class m)"
  shows "classes_ok m' = classes_ok m"
proof -
  have l: "length (vm_class m') = length (vm_class m)" using assms(2) map_eq_imp_length_eq by blast
  have "cl_Name (vm_class m' ! c) = cl_Name (vm_class m ! c)" if "c < length (vm_class m)" for c
    using assms(2) that l by (metis nth_map)
  then show ?thesis unfolding classes_ok_def assms(1) l by metis
qed

lemma intern_ok:
  assumes "vm_ok m" and "c < length (vm_class m)" and "unat (vm_nextID m) + 1 < 2 ^ 32"
  shows "vm_ok (snd (intern meth c name sg static m))"
proof (cases rule: intern_cases [OF assms(2), of meth name sg static, case_names old new])
  case (old mb)
  then show ?thesis using assms(1) by simp
next
  case (new mb m')
  have "ids_ok m'"
    by (rule add_member [OF _ assms(2,3) new(1) _ _ new(8) new(4)]) (use assms(1) new(3) in \<open>simp_all add: vm_ok_def\<close>)
  moreover have "classes_ok m'" using assms(1) classes_ok_names [OF new(9,10)] by (simp add: vm_ok_def)
  moreover have "objs_ok m'" using assms(1) new(5-7) by (auto simp: vm_ok_def intro: objs_ok_eq [of _ m])
  ultimately show ?thesis using new(2) by (simp add: vm_ok_def)
qed

subsection \<open>Steps\<close>

lemma alloc_object_ok: "vm_ok m \<Longrightarrow> alloc_object ob m = (p, m') \<Longrightarrow> vm_ok m' \<and> p < length (vm_heap m')"
  using objs_ok_eq [of m' m] classes_ids_eq [of m' m] by (auto simp: alloc_object_def vm_ok_def)

lemma SetField_ok: "vm_ok m \<Longrightarrow> vm_ok (SetField p sg v m)"
  using objs_ok_eq [of "SetField p sg v m" m] classes_ids_eq [of "SetField p sg v m" m] by (simp add: SetField_def vm_ok_def)

lemma Deref_in_heap: "vm_ok m \<Longrightarrow> Deref r m = Some p \<Longrightarrow> p < length (vm_heap m)"
  by (auto simp: vm_ok_def objs_ok_def Deref_def split: if_splits dest!: map_of_SomeD)

text \<open>How much a step may add to the two counters.\<close>

definition counts :: "'p vm \<Rightarrow> nat \<Rightarrow> bool" where
  "counts m n \<longleftrightarrow> unat (vm_nextRef m) + n < 2 ^ 32 \<and> unat (vm_nextID m) + n < 2 ^ 32"

lemma counts_inc:
  assumes "counts m (Suc n)" and "vm_nextRef m' \<in> {vm_nextRef m, vm_nextRef m + 1}" and "vm_nextID m' \<in> {vm_nextID m, vm_nextID m + 1}"
  shows "counts m' n"
proof -
  have "unat (vm_nextRef m + 1) = unat (vm_nextRef m) + 1" "unat (vm_nextID m + 1) = unat (vm_nextID m) + 1"
    using assms(1) by (simp_all add: counts_def unat_word_ariths(1))
  then show ?thesis using assms by (auto simp: counts_def)
qed

lemma intern_counters:
  assumes "c < length (vm_class m)"
  shows "vm_nextRef (snd (intern meth c name sg static m)) = vm_nextRef m"
    "vm_nextID (snd (intern meth c name sg static m)) \<in> {vm_nextID m, vm_nextID m + 1}"
  by (cases rule: intern_cases [OF assms, of meth name sg static, case_names old new]; simp)+

lemma Box_counters: "vm_nextRef (snd (Box p m)) = vm_nextRef m + 1" "vm_nextID (snd (Box p m)) = vm_nextID m"
  by (simp_all add: Box_def)

lemma vm_step_ok:
  assumes "vm_ok m" and "counts m (Suc n)"
  shows "vm_ok (vm_step s m) \<and> counts (vm_step s m) n"
proof -
  have u: "unat (vm_nextRef m) + 1 < 2 ^ 32" "unat (vm_nextID m) + 1 < 2 ^ 32"
    using assms(2) by (simp_all add: counts_def)
  have box: "vm_ok (snd (Box p m')) \<and> counts (snd (Box p m')) n"
    if "vm_ok m'" "p < length (vm_heap m')" "vm_nextRef m' = vm_nextRef m" "vm_nextID m' = vm_nextID m" for p m'
    using Box_ok(1) [OF that(1,2)] u that(3,4) Box_counters [of p m'] by (auto intro: counts_inc [OF assms(2)])
  have res: "vm_ok m'" "c < length (vm_class m')" "vm_nextRef m' = vm_nextRef m" "vm_nextID m' = vm_nextID m"
    if "ResolveClass name None m = (c, m')" for name c m'
    using ResolveClass_ok [OF assms(1) that] ResolveClass_objs [OF that [symmetric]] by simp_all
  have mem: "vm_ok (snd (intern meth c name sg static m')) \<and> counts (snd (intern meth c name sg static m')) n"
    if "ResolveClass cn None m = (c, m')" for meth c name sg static m' cn
    using intern_ok [OF res(1,2) [OF that]] intern_counters [OF res(2) [OF that], of meth name sg static] res(3,4) [OF that] u
    by (auto intro: counts_inc [OF assms(2)])
  show ?thesis
  proof (cases s)
    case (OpNew name v)
    obtain c m1 where r: "ResolveClass name None m = (c, m1)" by force
    obtain p m2 where a: "alloc_object \<lparr>ob_Class = Some c, ob_Value = v, ob_fields = Map.empty\<rparr> m1 = (p, m2)" by force
    have "vm_nextRef m2 = vm_nextRef m1" "vm_nextID m2 = vm_nextID m1" using a by (auto simp: alloc_object_def)
    then show ?thesis
      using OpNew r a box [of m2 p] alloc_object_ok [OF res(1) [OF r] a] res(3,4) [OF r] by (simp add: NewObject_def)
  next
    case (OpBoxNew ob)
    obtain p m2 where a: "alloc_object ob m = (p, m2)" by force
    have "vm_nextRef m2 = vm_nextRef m" "vm_nextID m2 = vm_nextID m" using a by (auto simp: alloc_object_def)
    then show ?thesis using OpBoxNew a box [of m2 p] alloc_object_ok [OF assms(1) a] by simp
  next
    case (OpBoxAgain r)
    then show ?thesis
      using assms(1) box [OF assms(1)] Deref_in_heap [OF assms(1)] counts_inc [OF assms(2), of m]
      by (auto split: option.splits)
  next
    case (OpSetField r sg v)
    have "counts (SetField p sg v m) n" for p
      by (rule counts_inc [OF assms(2)]) (simp_all add: SetField_def)
    then show ?thesis
      using OpSetField assms(1) SetField_ok counts_inc [OF assms(2), of m] by (auto split: option.splits)
  next
    case (OpResolve name)
    obtain c m1 where r: "ResolveClass name None m = (c, m1)" by force
    then show ?thesis using OpResolve res [OF r] counts_inc [OF assms(2), of m1] by simp
  next
    case (OpMethod cn name sg static)
    obtain c m1 where r: "ResolveClass cn None m = (c, m1)" by force
    then show ?thesis using OpMethod mem [OF r, of True name sg static] by (simp add: intern_def)
  next
    case (OpField cn name sg static)
    obtain c m1 where r: "ResolveClass cn None m = (c, m1)" by force
    then show ?thesis using OpField mem [OF r, of False name sg static] by (simp add: intern_def)
  qed
qed

lemma vm_steps_ok: "vm_ok m \<Longrightarrow> counts m (length ss) \<Longrightarrow> vm_ok (vm_steps ss m) \<and> counts (vm_steps ss m) 0"
  unfolding vm_steps_def
proof (induction ss arbitrary: m)
  case (Cons s ss)
  then show ?case using vm_step_ok [of m "length ss" s] by simp
qed simp

subsection \<open>Snapshots\<close>

text \<open>The object behind a handle, as the guest sees it.\<close>

definition obj_view :: "'p vm \<Rightarrow> ref \<Rightarrow> 'p object option" where
  "obj_view m r = map_option (nth (vm_heap m)) (Deref r m)"

lemma upt_add_Suc: "[n..<Suc (n + k)] = n # [Suc n..<Suc (n + k)]"
  by (simp add: upt_conv_Cons del: upt_Suc)

lemma clone_objs_eq:
  assumes "\<forall>(r, p) \<in> set t. p < length (vm_heap m)"
  shows "clone_objs t m =
    (zip (map fst t) [length (vm_heap m)..<length (vm_heap m) + length t],
     m\<lparr>vm_heap := vm_heap m @ map (\<lambda>(r, p). vm_heap m ! p) t\<rparr>)"
  using assms
proof (induction t arbitrary: m)
  case (Cons e t)
  obtain r p where e: "e = (r, p)" by force
  let ?m = "m\<lparr>vm_heap := vm_heap m @ [vm_heap m ! p]\<rparr>"
  have "\<forall>(r, p) \<in> set t. p < length (vm_heap ?m)" using Cons.prems by auto
  then have c: "clone_objs t ?m = (zip (map fst t) [length (vm_heap ?m)..<length (vm_heap ?m) + length t],
      ?m\<lparr>vm_heap := vm_heap ?m @ map (\<lambda>(r, p). vm_heap ?m ! p) t\<rparr>)" by (rule Cons.IH)
  have h: "map (\<lambda>(r, p). vm_heap ?m ! p) t = map (\<lambda>(r, p). vm_heap m ! p) t"
    using Cons.prems by (auto simp: nth_append)
  show ?case
    using c h by (simp add: e clone_def alloc_object_def upt_add_Suc del: upt_Suc)
qed simp

lemma clone_view:
  assumes "distinct (map fst t)" and "\<forall>(r, p) \<in> set t. p < length (vm_heap m)" and "clone_objs t m = (u, m')"
  shows "map_option (nth (vm_heap m')) (map_of u r) = map_option (nth (vm_heap m)) (map_of t r)"
    and "map fst u = map fst t" and "snd ` set u = {length (vm_heap m)..<length (vm_heap m) + length t}"
    and "distinct (map snd u)" and "length (vm_heap m') = length (vm_heap m) + length t"
    and "\<forall>i < length (vm_heap m). vm_heap m' ! i = vm_heap m ! i" and "m' = m\<lparr>vm_heap := vm_heap m'\<rparr>"
proof -
  note e = clone_objs_eq [OF assms(2)]
  have u: "u = zip (map fst t) [length (vm_heap m)..<length (vm_heap m) + length t]"
    and m': "m' = m\<lparr>vm_heap := vm_heap m @ map (\<lambda>(r, p). vm_heap m ! p) t\<rparr>"
    using assms(3) e by simp_all
  show "map fst u = map fst t" "distinct (map snd u)" by (simp_all add: u)
  show "length (vm_heap m') = length (vm_heap m) + length t" "m' = m\<lparr>vm_heap := vm_heap m'\<rparr>"
    by (simp_all add: m')
  show "\<forall>i < length (vm_heap m). vm_heap m' ! i = vm_heap m ! i" by (simp add: m' nth_append)
  have "set (map snd u) = {length (vm_heap m)..<length (vm_heap m) + length t}" by (simp add: u)
  then show "snd ` set u = {length (vm_heap m)..<length (vm_heap m) + length t}" by simp
  show "map_option (nth (vm_heap m')) (map_of u r) = map_option (nth (vm_heap m)) (map_of t r)"
  proof (cases "r \<in> fst ` set t")
    case False
    then have "map_of u r = None" "map_of t r = None"
      using \<open>map fst u = map fst t\<close> by (simp_all add: map_of_eq_None_iff flip: set_map)
    then show ?thesis by simp
  next
    case True
    then obtain i where i: "i < length t" "fst (t ! i) = r" by (auto simp: in_set_conv_nth)
    obtain p where p: "t ! i = (r, p)" using i(2) by (metis prod.collapse)
    have "map_of t r = Some p"
      using i p assms(1) by (metis map_of_is_SomeI nth_mem)
    moreover have "map_of u r = Some (length (vm_heap m) + i)"
    proof (rule map_of_is_SomeI)
      show "distinct (map fst u)" using \<open>map fst u = map fst t\<close> assms(1) by simp
      have "u ! i = (r, length (vm_heap m) + i)" "i < length u" using i by (simp_all add: u)
      then show "(r, length (vm_heap m) + i) \<in> set u" by (metis nth_mem)
    qed
    moreover have "vm_heap m' ! (length (vm_heap m) + i) = vm_heap m ! p" using i p by (simp add: m' nth_append)
    ultimately show ?thesis by simp
  qed
qed

text \<open>Objects that no handle names stay as they are.\<close>

definition frozen_objs :: "nat set \<Rightarrow> 'p vm \<Rightarrow> 'p vm \<Rightarrow> bool" where
  "frozen_objs F m m' \<longleftrightarrow> (\<forall>i \<in> F. i < length (vm_heap m') \<and> vm_heap m' ! i = vm_heap m ! i \<and> i \<notin> snd ` set (vm_objs m'))"

lemma frozen_heap: "frozen_objs F m m' \<Longrightarrow> vm_heap m'' = vm_heap m' \<Longrightarrow> vm_objs m'' = vm_objs m' \<Longrightarrow> frozen_objs F m m''"
  by (simp add: frozen_objs_def)

lemma snd_update: "snd ` set (AList.update k v t) \<subseteq> insert v (snd ` set t)"
  by (induction t) auto

lemma frozen_Box: "frozen_objs F m m' \<Longrightarrow> p \<notin> F \<Longrightarrow> frozen_objs F m (snd (Box p m'))"
  using snd_update [of "vm_nextRef m'" p "vm_objs m'"] unfolding frozen_objs_def Box_def by auto

lemma frozen_alloc:
  "frozen_objs F m m' \<Longrightarrow> alloc_object ob m' = (p, m'') \<Longrightarrow> frozen_objs F m m'' \<and> p \<notin> F"
  unfolding frozen_objs_def alloc_object_def by (fastforce simp: nth_append)

lemma frozen_Deref: "frozen_objs F m m' \<Longrightarrow> Deref r m' = Some p \<Longrightarrow> p \<notin> F"
  by (force simp: frozen_objs_def Deref_def split: if_splits dest!: map_of_SomeD)

lemma frozen_SetField: "frozen_objs F m m' \<Longrightarrow> p \<notin> F \<Longrightarrow> frozen_objs F m (SetField p sg v m')"
proof -
  assume f: "frozen_objs F m m'" and p: "p \<notin> F"
  then have "\<forall>i \<in> F. p \<noteq> i" by auto
  then show ?thesis using f by (simp add: frozen_objs_def SetField_def)
qed

lemma frozen_NewObject: "frozen_objs F m m' \<Longrightarrow> frozen_objs F m (snd (NewObject c v m'))"
  using frozen_alloc [of F m m' "\<lparr>ob_Class = Some c, ob_Value = v, ob_fields = Map.empty\<rparr>"] frozen_Box
  by (auto simp: NewObject_def split: prod.splits)

lemma member_ops_objs:
  "vm_heap (snd (MethodID c name sg static m)) = vm_heap m" "vm_objs (snd (MethodID c name sg static m)) = vm_objs m"
  "vm_heap (snd (FieldID c name sg static m)) = vm_heap m" "vm_objs (snd (FieldID c name sg static m)) = vm_objs m"
  by (simp_all add: MethodID_def FieldID_def fresh_ID_def upd_class_def Let_def split: option.split)

lemma ResolveClass_frozen:
  "frozen_objs F m m' \<Longrightarrow> ResolveClass name sp m' = (c, m'') \<Longrightarrow> frozen_objs F m m''"
  using ResolveClass_objs [of c m'' name sp m'] frozen_heap [of F m m' m''] by simp

lemma Resolve_frozen: "frozen_objs F m m' \<Longrightarrow> frozen_objs F m (snd (ResolveClass name sp m'))"
  by (metis ResolveClass_frozen prod.collapse)

lemma frozen_step: "frozen_objs F m m' \<Longrightarrow> frozen_objs F m (vm_step s m')"
  by (cases s)
    (auto simp: Resolve_frozen frozen_NewObject frozen_Box frozen_SetField frozen_Deref
      intro: frozen_heap [OF ResolveClass_frozen, OF _ _ member_ops_objs(1,2)]
        frozen_heap [OF ResolveClass_frozen, OF _ _ member_ops_objs(3,4)]
      dest: ResolveClass_frozen frozen_alloc split: option.splits prod.splits)

lemma frozen_steps: "frozen_objs F m m' \<Longrightarrow> frozen_objs F m (vm_steps ss m')"
  unfolding vm_steps_def by (induction ss arbitrary: m') (simp_all add: frozen_step)

subsection \<open>Interned members stay\<close>

definition keeps_members :: "'p vm \<Rightarrow> 'p vm \<Rightarrow> bool" where
  "keeps_members m m' \<longleftrightarrow> length (vm_class m) \<le> length (vm_class m') \<and>
     (\<forall>c meth key mb. members m c meth key = Some mb \<longrightarrow> members m' c meth key = Some mb)"

lemma keeps_members_refl: "vm_class m' = vm_class m \<Longrightarrow> keeps_members m m'"
  by (simp add: keeps_members_def members_def)

lemma keeps_members_trans: "keeps_members m m' \<Longrightarrow> keeps_members m' m'' \<Longrightarrow> keeps_members m m''"
  by (auto simp: keeps_members_def)

lemma Resolve_keeps: "keeps_members m (snd (ResolveClass name sp m))"
  by (auto simp: ResolveClass_def keeps_members_def members_def Let_def nth_append split: option.splits)

lemma intern_keeps: "keeps_members m (snd (intern meth c name sg static m))"
proof (cases "c < length (vm_class m)")
  case True
  then show ?thesis
  proof (cases rule: intern_cases [of c m meth name sg static, case_names old new])
    case (new mb m')
    then have "length (vm_class m') = length (vm_class m)" using map_eq_imp_length_eq by blast
    then show ?thesis using new by (auto simp: keeps_members_def)
  qed (simp_all add: keeps_members_def)
next
  case False
  then show ?thesis
    by (cases meth) (auto simp: intern_def MethodID_def FieldID_def fresh_ID_def upd_class_def Let_def
        linorder_not_less list_update_beyond intro!: keeps_members_refl split: option.splits)
qed

lemma op_classes:
  "vm_class (snd (Box p m)) = vm_class m" "vm_class (SetField p sg v m) = vm_class m"
  "vm_class (snd (alloc_object ob m)) = vm_class m" "vm_class (snd (NewObject c v m)) = vm_class m"
  by (simp_all add: Box_def SetField_def alloc_object_def NewObject_def)

lemma step_keeps: "keeps_members m (vm_step s m)"
proof (cases s)
  case (OpNew name v)
  then show ?thesis
    using keeps_members_trans [OF Resolve_keeps [of m name None] keeps_members_refl [OF op_classes(4)]]
    by (simp add: split_beta)
next
  case (OpBoxNew ob)
  then show ?thesis by (auto simp: split_beta op_classes intro!: keeps_members_refl)
next
  case (OpMethod cn name sg static)
  then show ?thesis
    using keeps_members_trans [OF Resolve_keeps [of m cn None] intern_keeps [where meth = True]]
    by (simp add: split_beta intern_def)
next
  case (OpField cn name sg static)
  then show ?thesis
    using keeps_members_trans [OF Resolve_keeps [of m cn None] intern_keeps [where meth = False]]
    by (simp add: split_beta intern_def)
qed (auto simp: op_classes Resolve_keeps intro!: keeps_members_refl split: option.splits)

lemma steps_keep: "keeps_members m (vm_steps ss m)"
  unfolding vm_steps_def
proof (induction ss arbitrary: m)
  case (Cons s ss)
  then show ?case using keeps_members_trans [OF step_keeps [of m s] Cons.IH [of "vm_step s m"]] by simp
qed (simp add: keeps_members_refl)

lemma clone_objs_class: "clone_objs t m = (u, m') \<Longrightarrow> vm_class m' = vm_class m"
  by (induction t arbitrary: m u m') (auto simp: clone_def alloc_object_def split: prod.splits)

lemma Restore_class: "vm_class (vm_Restore st m) = vm_class m"
  using clone_objs_class [of "vs_objs st" m] by (simp add: vm_Restore_def split: prod.split)

lemma intern_member:
  assumes "c < length (vm_class m)"
  shows "members (snd (intern meth c name sg static m)) c meth (key_of meth name sg) = Some (fst (intern meth c name sg static m))"
  by (cases rule: intern_cases [OF assms, of meth name sg static, case_names old new]) simp_all

lemma intern_known:
  assumes "members m c meth (key_of meth name sg) = Some mb"
  shows "intern meth c name sg static m = (mb, m)"
proof -
  have "c < length (vm_class m)" using assms by (auto simp: members_def split: if_splits)
  then show ?thesis
    using assms by (cases rule: intern_cases [of c m meth name sg static, case_names old new]) simp_all
qed

subsection \<open>The properties\<close>

text \<open>
  C27: starting from an empty VM, after any sequence of operations that the two 32-bit counters have room
  for: every handle names an object of the heap, the next handle is not in use, the class table and the
  classes agree, and two interned members with the same identifier are one member of one class under one key.
\<close>
theorem vm_handles_and_ids:
  assumes "length ss < 0x8ffffffe" and "m = vm_steps ss NewVM"
  shows "(\<forall>r p. Deref r m = Some p \<longrightarrow> p < length (vm_heap m)) \<and> map_of (vm_objs m) (vm_nextRef m) = None \<and>
    (\<forall>n c. LookupClass n m = Some c \<longleftrightarrow> c < length (vm_class m) \<and> cl_Name (vm_class m ! c) = n) \<and>
    (\<forall>c meth key mb c' meth' key' mb'. members m c meth key = Some mb \<longrightarrow> members m c' meth' key' = Some mb' \<longrightarrow>
       mb_ID mb = mb_ID mb' \<longrightarrow> c = c' \<and> meth = meth' \<and> key = key')"
proof -
  have "counts NewVM (length ss)" using assms(1) by (simp add: counts_def NewVM_def)
  then have ok: "vm_ok m" using vm_steps_ok [OF NewVM_ok] assms(2) by blast
  have "map_of (vm_objs m) (vm_nextRef m) = None"
    using ok by (force simp: vm_ok_def objs_ok_def map_of_eq_None_iff)
  moreover have "LookupClass n m = Some c \<longleftrightarrow> c < length (vm_class m) \<and> cl_Name (vm_class m ! c) = n" for n c
    using ok by (auto simp: vm_ok_def classes_ok_def LookupClass_def)
  ultimately show ?thesis
    using ok Deref_in_heap [OF ok] by (auto simp: vm_ok_def ids_ok_def)
qed

theorem vm_handles_and_ids_witness:
  "let m = vm_steps [OpMethod ''A'' ''f'' ''()V'' True, OpField ''A'' ''x'' ''I'' False, OpNew ''A'' VNil] (NewVM :: nat vm)
   in map_of (vm_objs m) (vm_nextRef m) = None \<and> LookupClass ''A'' m = Some 0"
proof -
  let ?ss = "[OpMethod ''A'' ''f'' ''()V'' True, OpField ''A'' ''x'' ''I'' False, OpNew ''A'' VNil] :: nat vm_op list"
  have "map_of (vm_objs (vm_steps ?ss NewVM)) (vm_nextRef (vm_steps ?ss NewVM)) = None"
    by (rule vm_handles_and_ids [of ?ss, OF _ refl, THEN conjunct2, THEN conjunct1]) simp
  moreover have "LookupClass ''A'' (vm_steps ?ss NewVM) = Some 0"
    by (simp add: Let_def vm_steps_def ResolveClass_def NewVM_def MethodID_def FieldID_def fresh_ID_def upd_class_def
        NewObject_def alloc_object_def Box_def LookupClass_def)
  ultimately show ?thesis by (simp add: Let_def)
qed

text \<open>
  A member that was interned once is found again under its key, with its identifier and without any
  change to the VM, after any operations and after a rewind to any snapshot.
\<close>
theorem interning_is_stable:
  assumes "c < length (vm_class m)"
  shows "let (mb, m1) = MethodID c name sg static m; m2 = vm_Restore st (vm_steps ss m1)
    in MethodID c name sg static' m2 = (mb, m2)"
proof -
  let ?r = "intern True c name sg static m"
  let ?m2 = "vm_Restore st (vm_steps ss (snd ?r))"
  have k: "keeps_members (snd ?r) ?m2"
    by (rule keeps_members_trans [OF steps_keep keeps_members_refl]) (rule Restore_class)
  have "members ?m2 c True (key_of True name sg) = Some (fst ?r)"
    using k intern_member [OF assms, of True name sg static] unfolding keeps_members_def by blast
  then have "intern True c name sg static' ?m2 = (fst ?r, ?m2)"
    by (rule intern_known)
  then show ?thesis
    by (simp add: intern_def split_beta)
qed

theorem interning_is_stable_witness:
  "let (mb, m1) = MethodID 0 ''f'' ''()V'' True (vm_step (OpResolve ''A'') NewVM);
       m2 = vm_Restore \<lparr>vs_nextRef = 0x100, vs_objs = []\<rparr> (vm_steps [OpMethod ''A'' ''g'' ''()V'' True] m1)
   in MethodID 0 ''f'' ''()V'' False m2 = (mb, m2)"
  using interning_is_stable [of 0 "vm_step (OpResolve ''A'') NewVM" "''f''" "''()V''" True "\<lparr>vs_nextRef = 0x100, vs_objs = []\<rparr>"
      "[OpMethod ''A'' ''g'' ''()V'' True]" False]
  by (simp add: Let_def ResolveClass_def NewVM_def)

text \<open>
  C28: a rewind to a snapshot gives every handle the object it named when the snapshot was taken, with its
  class, value and fields of that time, whatever was done in between, gives out the same handles
  again, and is a well-formed VM; but two handles never share an object afterwards, even if they did before.
\<close>
theorem restore_rewinds:
  assumes "vm_ok m" and "counts m (length ss)" and "vm_Snapshot m = (st, m1)" and "m3 = vm_Restore st (vm_steps ss m1)"
  shows "(\<forall>r. obj_view m3 r = obj_view m r) \<and> vm_nextRef m3 = vm_nextRef m \<and> vm_ok m3 \<and>
    (\<forall>r s p. Deref r m3 = Some p \<longrightarrow> Deref s m3 = Some p \<longrightarrow> r = s)"
proof -
  have t: "distinct (map fst (vm_objs m))" "\<forall>(r, p) \<in> set (vm_objs m). p < length (vm_heap m)"
    using assms(1) by (auto simp: vm_ok_def objs_ok_def)
  obtain u where c: "clone_objs (vm_objs m) m = (u, m1)" and st: "st = \<lparr>vs_nextRef = vm_nextRef m, vs_objs = u\<rparr>"
    using assms(3) by (auto simp: vm_Snapshot_def split: prod.splits)
  note v = clone_view [OF t c]
  define F where "F = snd ` set u"
  define m2 where "m2 = vm_steps ss m1"
  have o1: "vm_objs m1 = vm_objs m" "vm_class m1 = vm_class m" "vm_classes m1 = vm_classes m" "vm_nextID m1 = vm_nextID m"
      "vm_nextRef m1 = vm_nextRef m"
    by (subst v(7), simp)+
  have "frozen_objs F m1 m1"
    using t(2) v(3,5) o1(1) by (fastforce simp: F_def frozen_objs_def)
  then have f: "frozen_objs F m1 m2" unfolding m2_def by (rule frozen_steps)
  obtain w m4 where c2: "clone_objs u m2 = (w, m4)" by force
  have m3: "m3 = m4\<lparr>vm_nextRef := vm_nextRef m, vm_objs := w\<rparr>"
    using assms(4) c2 by (simp add: vm_Restore_def st m2_def)
  have du: "distinct (map fst u)" "\<forall>(r, p) \<in> set u. p < length (vm_heap m2)"
    using t(1) v(2) f by (auto simp: F_def frozen_objs_def)
  note x = clone_view [OF du c2]
  have same: "map_option (nth (vm_heap m2)) (map_of u r) = map_option (nth (vm_heap m1)) (map_of u r)" for r
    using f by (cases "map_of u r") (auto simp: F_def frozen_objs_def dest!: map_of_SomeD)
  have view: "obj_view m3 r = obj_view m r" for r
    using x(1) [of r] same [of r] v(1) [of r] by (auto simp: obj_view_def Deref_def m3)
  have inj: "r = s" if "Deref r m3 = Some p" "Deref s m3 = Some p" for r s p
  proof -
    have "(r, p) \<in> set w" "(s, p) \<in> set w" using that by (auto simp: Deref_def m3 split: if_splits dest: map_of_SomeD)
    then show ?thesis using x(4) by (fastforce simp: distinct_map inj_on_def)
  qed
  have ok1: "vm_ok m1"
    using assms(1) objs_ok_eq [of m1 m] classes_ids_eq [of m1 m] o1 v(5) by (simp add: vm_ok_def)
  have "counts m1 (length ss)" using assms(2) o1 by (simp add: counts_def)
  then have ok2: "vm_ok m2" unfolding m2_def using vm_steps_ok [OF ok1] by blast
  have m4: "vm_class m4 = vm_class m2" "vm_classes m4 = vm_classes m2" "vm_nextID m4 = vm_nextID m2"
    by (subst x(7), simp)+
  have dom: "fst ` set w = fst ` set (vm_objs m)"
    using x(2) v(2) by (metis list.set_map)
  have "objs_ok m3"
    unfolding objs_ok_def
  proof (intro conjI)
    show "distinct (map fst (vm_objs m3))" using x(2) v(2) t(1) by (simp add: m3)
    show "0x100 \<le> unat (vm_nextRef m3)" using assms(1) by (simp add: m3 vm_ok_def objs_ok_def)
    have "p < length (vm_heap m4)" "0x100 \<le> unat r" "unat r < unat (vm_nextRef m)" if e: "(r, p) \<in> set w" for r p
    proof -
      show "p < length (vm_heap m4)" using x(3,5) e by force
      have "r \<in> fst ` set (vm_objs m)" using e dom by force
      then show "0x100 \<le> unat r" "unat r < unat (vm_nextRef m)" using assms(1) by (auto simp: vm_ok_def objs_ok_def)
    qed
    then show "\<forall>(r, p) \<in> set (vm_objs m3). p < length (vm_heap m3) \<and> 0x100 \<le> unat r \<and> unat r < unat (vm_nextRef m3)"
      by (auto simp: m3)
  qed
  then have "vm_ok m3" using ok2 classes_ids_eq [of m3 m2] m4 by (simp add: vm_ok_def m3)
  then show ?thesis using view inj by (auto simp: m3)
qed

definition shared_vm :: "nat vm" where
  "shared_vm = vm_steps [OpNew ''A'' (VLong 5), OpBoxAgain 0x100] NewVM"

theorem restore_rewinds_witness:
  "let (st, m1) = vm_Snapshot shared_vm; m3 = vm_Restore st (vm_steps [OpSetField 0x100 ''A->x:I'' (VU64 7)] m1)
   in Deref 0x100 shared_vm = Deref 0x101 shared_vm \<and> Deref 0x100 m3 \<noteq> Deref 0x101 m3 \<and>
      obj_view m3 0x100 = obj_view shared_vm 0x100"
proof -
  have ok: "vm_ok shared_vm \<and> counts shared_vm 0"
    unfolding shared_vm_def by (rule vm_steps_ok [OF NewVM_ok]) (simp add: counts_def NewVM_def)
  have f: "vm_nextRef shared_vm = 0x102" "vm_nextID shared_vm = 0x70000001" "Deref 0x100 shared_vm = Some 0" "Deref 0x101 shared_vm = Some 0"
    by (simp_all add: shared_vm_def vm_steps_def ResolveClass_def NewVM_def NewObject_def alloc_object_def Box_def Deref_def)
  obtain st m1 where s: "vm_Snapshot shared_vm = (st, m1)" by force
  let ?m3 = "vm_Restore st (vm_steps [OpSetField 0x100 ''A->x:I'' (VU64 7)] m1)"
  have r: "(\<forall>r. obj_view ?m3 r = obj_view shared_vm r) \<and> vm_nextRef ?m3 = vm_nextRef shared_vm \<and> vm_ok ?m3 \<and>
      (\<forall>r s p. Deref r ?m3 = Some p \<longrightarrow> Deref s ?m3 = Some p \<longrightarrow> r = s)"
    by (rule restore_rewinds [OF _ _ s refl]) (use ok f in \<open>simp_all add: counts_def\<close>)
  moreover have "Deref 0x100 ?m3 \<noteq> None"
    using r f(3) by (metis obj_view_def option.map_disc_iff option.discI)
  ultimately have "Deref 0x100 ?m3 \<noteq> Deref 0x101 ?m3"
    using word_eq_numeral_iff_iszero by fastforce
  then show ?thesis using r f s by simp
qed

end
