(* ===== verification/Dex.thy ===== *)
theory Dex
  imports Dvm_Props "HOL-Library.Monad_Syntax"
begin

text \<open>
  The DEX metadata loader (dvm/dex.go). An index or slice out of range is a panic, which \<open>LoadDex\<close> turns
  into an error after whatever was registered before it; here a read is an option, and a loop is a
  computation of theory Prelude. The two loops that run to a terminator get as fuel the length of the
  file, which is enough for a file below 4 GiB (each round reads the next byte).
\<close>

datatype dex_err = BadMagic | Malformed

abbreviation (input) dexNoIndex :: u32 where "dexNoIndex \<equiv> 0xffffffff"

subsection \<open>Reads\<close>

definition rd8 :: "u8 list \<Rightarrow> u32 \<Rightarrow> u8 option" where
  "rd8 d p = (if unat p < length d then Some (d ! unat p) else None)"

definition rd16 :: "u8 list \<Rightarrow> u32 \<Rightarrow> u32 option" where
  "rd16 d p = (if unat p + 2 \<le> length d then Some (ucast (le_val (take 2 (drop (unat p) d)))) else None)"

definition rd32 :: "u8 list \<Rightarrow> u32 \<Rightarrow> u32 option" where
  "rd32 d p = (if unat p + 4 \<le> length d then Some (ucast (le_val (take 4 (drop (unat p) d)))) else None)"

fun uleb_loop :: "nat \<Rightarrow> u8 list \<Rightarrow> u32 \<Rightarrow> nat \<Rightarrow> u32 \<Rightarrow> (u32 \<times> u32) option" where
  "uleb_loop 0 d v shift p = None"
| "uleb_loop (Suc n) d v shift p =
     (case rd8 d p of
        None \<Rightarrow> None
      | Some b \<Rightarrow>
          let v = v OR push_bit shift (ucast (b AND 0x7f)); p = p + 1
          in if b AND 0x80 = 0 then Some (v, p) else uleb_loop n d v (shift + 7) p)"

definition uleb :: "u8 list \<Rightarrow> u32 \<Rightarrow> (u32 \<times> u32) option" where
  "uleb d p = uleb_loop (Suc (length d)) d 0 0 p"

fun str_end :: "nat \<Rightarrow> u8 list \<Rightarrow> u32 \<Rightarrow> u32 option" where
  "str_end 0 d p = None"
| "str_end (Suc n) d p = (case rd8 d p of None \<Rightarrow> None | Some b \<Rightarrow> if b = 0 then Some p else str_end n d (p + 1))"

definition bytes_string :: "u8 list \<Rightarrow> string" where
  "bytes_string = map (\<lambda>b. char_of (unat b))"

text \<open>The offsets and sizes of the header.\<close>

record dex_header =
  stringIdsOff :: u32
  typeIdsOff :: u32
  protoIdsOff :: u32
  fieldIdsSize :: u32
  fieldIdsOff :: u32
  methodIdsSize :: u32
  methodIdsOff :: u32
  classDefsSize :: u32
  classDefsOff :: u32

definition header_of :: "u8 list \<Rightarrow> dex_header option" where
  "header_of d = do {
     so \<leftarrow> rd32 d 60; tof \<leftarrow> rd32 d 68; po \<leftarrow> rd32 d 76; fs \<leftarrow> rd32 d 80; fo \<leftarrow> rd32 d 84;
     ms \<leftarrow> rd32 d 88; mo \<leftarrow> rd32 d 92; cs \<leftarrow> rd32 d 96; co \<leftarrow> rd32 d 100;
     Some \<lparr>stringIdsOff = so, typeIdsOff = tof, protoIdsOff = po, fieldIdsSize = fs, fieldIdsOff = fo,
       methodIdsSize = ms, methodIdsOff = mo, classDefsSize = cs, classDefsOff = co\<rparr> }"

definition str :: "u8 list \<Rightarrow> dex_header \<Rightarrow> u32 \<Rightarrow> string option" where
  "str d h idx = do {
     off \<leftarrow> rd32 d (stringIdsOff h + idx * 4);
     (_, start) \<leftarrow> uleb d off;
     e \<leftarrow> str_end (Suc (length d)) d start;
     Some (bytes_string (take (unat e - unat start) (drop (unat start) d))) }"

definition typeDesc :: "u8 list \<Rightarrow> dex_header \<Rightarrow> u32 \<Rightarrow> string option" where
  "typeDesc d h idx = do { s \<leftarrow> rd32 d (typeIdsOff h + idx * 4); str d h s }"

definition descToName :: "string \<Rightarrow> string" where
  "descToName s =
     (if length s > 2 \<and> s ! 0 = CHR ''L'' \<and> s ! (length s - 1) = CHR '';'' then take (length s - 2) (drop 1 s) else s)"

fun params :: "u8 list \<Rightarrow> dex_header \<Rightarrow> u32 \<Rightarrow> nat \<Rightarrow> u32 \<Rightarrow> string \<Rightarrow> string option" where
  "params d h off 0 i sg = Some sg"
| "params d h off (Suc n) i sg = do {
     ti \<leftarrow> rd16 d (off + 4 + i * 2); t \<leftarrow> typeDesc d h ti; params d h off n (i + 1) (sg @ t) }"

definition protoSig :: "u8 list \<Rightarrow> dex_header \<Rightarrow> u32 \<Rightarrow> string option" where
  "protoSig d h idx = do {
     let base = protoIdsOff h + idx * 12;
     retIdx \<leftarrow> rd32 d (base + 4);
     paramsOff \<leftarrow> rd32 d (base + 8);
     sg \<leftarrow> (if paramsOff \<noteq> 0 then do { cnt \<leftarrow> rd32 d paramsOff; params d h paramsOff (unat cnt) 0 ''('' } else Some ''('');
     r \<leftarrow> typeDesc d h retIdx;
     Some (sg @ '')'' @ r) }"

subsection \<open>Registering\<close>

type_synonym ('p, 'a) dex = "('p vm, dex_err, 'a) comp"

definition need :: "'a option \<Rightarrow> ('p, 'a) dex" where
  "need x = (case x of None \<Rightarrow> throw Malformed | Some v \<Rightarrow> Prelude.ret v)"

definition vm_call :: "('p vm \<Rightarrow> 'a \<times> 'p vm) \<Rightarrow> ('p, 'a) dex" where
  "vm_call f m = (Inr (fst (f m)), snd (f m))"

definition class_named :: "u8 list \<Rightarrow> dex_header \<Rightarrow> u32 \<Rightarrow> ('p, nat) dex" where
  "class_named d h idx = bnd (need (typeDesc d h idx)) (\<lambda>t. vm_call (ResolveClass (descToName t) None))"

text \<open>The bodies of the three loops.\<close>

definition dex_method :: "u8 list \<Rightarrow> dex_header \<Rightarrow> u32 \<Rightarrow> ('p, unit) dex" where
  "dex_method d h i =
     (let base = methodIdsOff h + i * 8 in
      bnd (need (rd16 d base)) (\<lambda>clsIdx. bnd (need (rd16 d (base + 2))) (\<lambda>protoIdx.
      bnd (need (rd32 d (base + 4))) (\<lambda>nameIdx. bnd (class_named d h clsIdx) (\<lambda>c.
      bnd (need (str d h nameIdx)) (\<lambda>name. bnd (need (protoSig d h protoIdx)) (\<lambda>sg.
      bnd (vm_call (MethodID c name sg False)) (\<lambda>_. Prelude.ret ()))))))))"

definition dex_field :: "u8 list \<Rightarrow> dex_header \<Rightarrow> u32 \<Rightarrow> ('p, unit) dex" where
  "dex_field d h i =
     (let base = fieldIdsOff h + i * 8 in
      bnd (need (rd16 d base)) (\<lambda>clsIdx. bnd (need (rd16 d (base + 2))) (\<lambda>typeIdx.
      bnd (need (rd32 d (base + 4))) (\<lambda>nameIdx. bnd (class_named d h clsIdx) (\<lambda>c.
      bnd (need (str d h nameIdx)) (\<lambda>name. bnd (need (typeDesc d h typeIdx)) (\<lambda>sg.
      bnd (vm_call (FieldID c name sg False)) (\<lambda>_. Prelude.ret ()))))))))"

definition dex_class :: "u8 list \<Rightarrow> dex_header \<Rightarrow> u32 \<Rightarrow> ('p, unit) dex" where
  "dex_class d h i =
     (let base = classDefsOff h + i * 32 in
      bnd (need (rd32 d base)) (\<lambda>clsIdx. bnd (need (rd32 d (base + 8))) (\<lambda>superIdx.
      bnd (class_named d h clsIdx) (\<lambda>c.
      if superIdx \<noteq> dexNoIndex then
        bnd (class_named d h superIdx) (\<lambda>s. upd (upd_class c (\<lambda>k. k\<lparr>cl_Super := Some s\<rparr>)))
      else Prelude.ret ()))))"

fun each :: "(u32 \<Rightarrow> ('p, unit) dex) \<Rightarrow> nat \<Rightarrow> u32 \<Rightarrow> ('p, unit) dex" where
  "each f 0 i = Prelude.ret ()"
| "each f (Suc n) i = andthen (f i) (each f n (i + 1))"

definition LoadDex :: "u8 list \<Rightarrow> ('p, u32) dex" where
  "LoadDex d =
     (if length d < 112 \<or> take 4 d \<noteq> map of_char ''dex'' @ [0x0a] then throw BadMagic
      else
        bnd (need (header_of d)) (\<lambda>h.
        andthen (each (dex_method d h) (unat (methodIdsSize h)) 0)
        (andthen (each (dex_field d h) (unat (fieldIdsSize h)) 0)
        (andthen (each (dex_class d h) (unat (classDefsSize h)) 0)
          (Prelude.ret (classDefsSize h))))))"

subsection \<open>The loops for terminators end\<close>

lemma uleb_fuel:
  assumes "length d < 2 ^ 32" and "length d < unat p + n"
  shows "uleb_loop (n + k) d v s p = uleb_loop n d v s p"
  using assms
proof (induction n arbitrary: v s p)
  case 0
  then have "rd8 d p = None" by (simp add: rd8_def)
  then show ?case by (cases k) simp_all
next
  case (Suc n)
  show ?case
  proof (cases "rd8 d p")
    case (Some b)
    then have "unat p < length d" by (auto simp: rd8_def split: if_splits)
    then have "unat (p + 1) = unat p + 1" using Suc.prems(1) by (simp add: unat_word_ariths(1))
    then have l: "length d < unat (p + 1) + n" using Suc.prems(2) by linarith
    have ih: "uleb_loop (n + k) d v' s' (p + 1) = uleb_loop n d v' s' (p + 1)" for v' s'
      by (rule Suc.IH [OF Suc.prems(1) l])
    show ?thesis unfolding add_Suc uleb_loop.simps Some option.case Let_def ih ..
  next
    case None
    show ?thesis unfolding add_Suc uleb_loop.simps None option.case ..
  qed
qed
lemma str_end_fuel:
  assumes "length d < 2 ^ 32" and "length d < unat p + n"
  shows "str_end (n + k) d p = str_end n d p"
  using assms
proof (induction n arbitrary: p)
  case 0
  then have "rd8 d p = None" by (simp add: rd8_def)
  then show ?case by (cases k) simp_all
next
  case (Suc n)
  show ?case
  proof (cases "rd8 d p")
    case (Some b)
    then have "unat p < length d" by (auto simp: rd8_def split: if_splits)
    then have "unat (p + 1) = unat p + 1" using Suc.prems(1) by (simp add: unat_word_ariths(1))
    then have l: "length d < unat (p + 1) + n" using Suc.prems(2) by linarith
    have ih: "str_end (n + k) d (p + 1) = str_end n d (p + 1)"
      by (rule Suc.IH [OF Suc.prems(1) l])
    show ?thesis unfolding add_Suc str_end.simps Some option.case ih ..
  next
    case None
    show ?thesis unfolding add_Suc str_end.simps None option.case ..
  qed
qed
subsection \<open>What a load keeps\<close>

text \<open>The VM is well formed and the identifiers have room for \<open>n\<close> more.\<close>

definition room_for :: "nat \<Rightarrow> 'p vm \<Rightarrow> bool" where
  "room_for n m \<longleftrightarrow> vm_ok m \<and> counts m n"

lemma room_for_Suc: "room_for (Suc n) m \<Longrightarrow> room_for n m"
  by (simp add: room_for_def counts_def)

text \<open>A computation that turns one predicate into another, also when it fails.\<close>

definition takes :: "('s \<Rightarrow> bool) \<Rightarrow> ('s, 'e, 'a) comp \<Rightarrow> ('a \<Rightarrow> 's \<Rightarrow> bool) \<Rightarrow> ('s \<Rightarrow> bool) \<Rightarrow> bool" where
  "takes P f Q X \<longleftrightarrow> (\<forall>s. P s \<longrightarrow> (case f s of (Inr v, t) \<Rightarrow> Q v t | (Inl e, t) \<Rightarrow> X t))"

lemma takes_bnd: "takes P f Q X \<Longrightarrow> (\<And>v. takes (Q v) (k v) R X) \<Longrightarrow> takes P (bnd f k) R X"
proof -
  assume f: "takes P f Q X" and k: "\<And>v. takes (Q v) (k v) R X"
  show ?thesis
    unfolding takes_def
  proof (intro allI impI)
    fix s assume "P s"
    then have s: "case f s of (Inr v, t) \<Rightarrow> Q v t | (Inl e, t) \<Rightarrow> X t" using f by (simp add: takes_def)
    show "case bnd f k s of (Inr v, t) \<Rightarrow> R v t | (Inl e, t) \<Rightarrow> X t"
    proof (cases "f s")
      case (Pair r t)
      then show ?thesis using s k by (cases r) (simp_all add: bnd_def takes_def)
    qed
  qed
qed

lemma takes_ret: "(\<And>s. P s \<Longrightarrow> Q v s) \<Longrightarrow> takes P (Prelude.ret v) Q X"
  by (simp add: takes_def Prelude.ret_def)

lemma takes_vm_call: "(\<And>s. P s \<Longrightarrow> Q (fst (f s)) (snd (f s))) \<Longrightarrow> takes P (vm_call f) Q X"
  by (simp add: takes_def vm_call_def)

lemma takes_upd: "(\<And>s. P s \<Longrightarrow> Q () (f s)) \<Longrightarrow> takes P (upd f) Q X"
  by (simp add: takes_def upd_def)

lemma takes_pre: "takes P f Q X \<Longrightarrow> (\<And>s. P' s \<Longrightarrow> P s) \<Longrightarrow> takes P' f Q X"
  by (simp add: takes_def)

lemma takes_all: "(\<And>v. x = Some v \<Longrightarrow> takes P (k v) R X) \<Longrightarrow> (\<And>s. P s \<Longrightarrow> X s) \<Longrightarrow> takes P (bnd (need x) k) R X"
  by (cases x) (auto simp: need_def takes_def throw_def split: prod.splits sum.splits)

lemma takes_andthen: "takes P f (\<lambda>_. Q) X \<Longrightarrow> takes Q g R X \<Longrightarrow> takes P (andthen f g) R X"
  unfolding andthen_def by (rule takes_bnd) 

lemma takes_each:
  assumes "\<And>i n. takes (P (Suc n)) (f i) (\<lambda>_. P n) X"
  shows "takes (P (n + k)) (each f n i) (\<lambda>_. P k) X"
proof (induction n arbitrary: i)
  case (Suc n)
  show ?case using takes_andthen [OF assms [of "n + k" i] Suc] by simp
qed (simp add: takes_ret)

text \<open>Resolving a class, with room to spare.\<close>

lemma takes_class:
  assumes "\<And>s. X (s :: 'p vm) = room_for 0 s"
  shows "takes (room_for n) (class_named d h idx)
    (\<lambda>c s. c < length (vm_class s) \<and> room_for n s \<and> (\<exists>t. typeDesc d h idx = Some t \<and> vm_classes s (descToName t) = Some c)) X"
  unfolding class_named_def
proof (rule takes_all)
  fix t :: string
  assume t: "typeDesc d h idx = Some t"
  show "takes (room_for n) (vm_call (ResolveClass (descToName t) None))
    (\<lambda>c s. c < length (vm_class s) \<and> room_for n s \<and> (\<exists>t. typeDesc d h idx = Some t \<and> vm_classes s (descToName t) = Some c)) X"
  proof (rule takes_vm_call)
    fix s :: "'p vm"
    assume s: "room_for n s"
    obtain c s' where r: "ResolveClass (descToName t) None s = (c, s')" by force
    then show "fst (ResolveClass (descToName t) None s) < length (vm_class (snd (ResolveClass (descToName t) None s))) \<and>
       room_for n (snd (ResolveClass (descToName t) None s)) \<and>
       (\<exists>ta. typeDesc d h idx = Some ta \<and>
          vm_classes (snd (ResolveClass (descToName t) None s)) (descToName ta) = Some (fst (ResolveClass (descToName t) None s)))"
      using ResolveClass_ok [OF _ r] ResolveClass_objs [OF r [symmetric]] s t by (simp add: room_for_def counts_def)
  qed
qed (use assms in \<open>simp add: room_for_def counts_def\<close>)

lemma takes_intern:
  "takes (\<lambda>s. c < length (vm_class s) \<and> room_for (Suc n) s) (vm_call (intern meth c name sg static)) (\<lambda>_. room_for n) X"
proof (rule takes_vm_call)
  fix s :: "'p vm"
  assume s: "c < length (vm_class s) \<and> room_for (Suc n) s"
  then have "counts s (Suc n)" by (simp add: room_for_def)
  then show "room_for n (snd (intern meth c name sg static s))"
    using s intern_ok [of s c meth name sg static] intern_counters [of c s meth name sg static]
      counts_inc [of s n "snd (intern meth c name sg static s)"]
    by (simp add: room_for_def counts_def)
qed

end
