(* ===== verification/Dex_Layout.thy ===== *)
theory Dex_Layout
  imports Dex
begin

text \<open>
  The layout of a DEX file, described on its bytes and apart from the loader, and that the loader's
  reads follow it.
\<close>

subsection \<open>The layout\<close>

text \<open>The \<open>n\<close> bytes at position \<open>p\<close>, least significant first, are the number \<open>v\<close>.\<close>

definition number_at :: "u8 list \<Rightarrow> u32 \<Rightarrow> nat \<Rightarrow> u32 \<Rightarrow> bool" where
  "number_at d p n v \<longleftrightarrow> unat p + n \<le> length d \<and> unat v = (\<Sum>k<n. unat (d ! (unat p + k)) * 256 ^ k)"

text \<open>The fields of the header the loader uses.\<close>

definition header_at :: "u8 list \<Rightarrow> dex_header \<Rightarrow> bool" where
  "header_at d h \<longleftrightarrow> number_at d 60 4 (stringIdsOff h) \<and> number_at d 68 4 (typeIdsOff h) \<and>
     number_at d 76 4 (protoIdsOff h) \<and> number_at d 80 4 (fieldIdsSize h) \<and> number_at d 84 4 (fieldIdsOff h) \<and>
     number_at d 88 4 (methodIdsSize h) \<and> number_at d 92 4 (methodIdsOff h) \<and>
     number_at d 96 4 (classDefsSize h) \<and> number_at d 100 4 (classDefsOff h)"

text \<open>
  String \<open>idx\<close>: its item starts with a number of \<open>n\<close> bytes, all but the last with bit 7 set, and the
  text runs from there to the first zero byte.
\<close>

definition string_at :: "u8 list \<Rightarrow> dex_header \<Rightarrow> u32 \<Rightarrow> string \<Rightarrow> bool" where
  "string_at d h idx s \<longleftrightarrow> (\<exists>b n. number_at d (stringIdsOff h + 4 * idx) 4 b \<and>
     unat b + Suc n + length s < length d \<and>
     (\<forall>k < n. bit (d ! (unat b + k)) 7) \<and> \<not> bit (d ! (unat b + n)) 7 \<and>
     (\<forall>k < length s. d ! (unat b + Suc n + k) \<noteq> 0 \<and> s ! k = char_of (unat (d ! (unat b + Suc n + k)))) \<and>
     d ! (unat b + Suc n + length s) = 0)"

definition type_at :: "u8 list \<Rightarrow> dex_header \<Rightarrow> u32 \<Rightarrow> string \<Rightarrow> bool" where
  "type_at d h idx s \<longleftrightarrow> (\<exists>si. number_at d (typeIdsOff h + 4 * idx) 4 si \<and> string_at d h si s)"

text \<open>The signature of prototype \<open>idx\<close>: its parameter types in parentheses, then its result type.\<close>

definition proto_at :: "u8 list \<Rightarrow> dex_header \<Rightarrow> u32 \<Rightarrow> string \<Rightarrow> bool" where
  "proto_at d h idx sg \<longleftrightarrow> (\<exists>ri po ts r. number_at d (protoIdsOff h + 12 * idx + 4) 4 ri \<and>
     number_at d (protoIdsOff h + 12 * idx + 8) 4 po \<and> type_at d h ri r \<and> sg = ''('' @ concat ts @ '')'' @ r \<and>
     (if po = 0 then ts = []
      else (\<exists>n. number_at d po 4 n \<and> length ts = unat n) \<and>
        (\<forall>k < length ts. \<exists>ti. number_at d (po + 4 + 2 * of_nat k) 2 ti \<and> type_at d h ti (ts ! k))))"

text \<open>The class of a descriptor: what stands between \<open>L\<close> and the semicolon, any other descriptor itself.\<close>

definition class_name :: "string \<Rightarrow> string" where
  "class_name t = (if \<exists>x. x \<noteq> [] \<and> t = CHR ''L'' # x @ '';'' then butlast (tl t) else t)"

subsection \<open>The reads follow it\<close>

lemma unat_le_val:
  assumes "length bs \<le> 8"
  shows "unat (le_val bs) = (\<Sum>k<length bs. unat (bs ! k) * 256 ^ k) \<and> unat (le_val bs) < 256 ^ length bs"
  using assms
proof (induction bs)
  case (Cons b bs)
  then have ih: "unat (le_val bs) = (\<Sum>k<length bs. unat (bs ! k) * 256 ^ k)" "unat (le_val bs) < 256 ^ length bs"
    by simp_all
  have "(256 :: nat) ^ length bs \<le> 256 ^ 7"
    by (rule power_increasing) (use Cons.prems in simp_all)
  then have s: "256 * unat (le_val bs) < 2 ^ 64"
    using ih(2) by simp
  have "unat b < 256"
    using unsigned_less [of b] by simp
  have z: "ucast b AND push_bit 8 (le_val bs) = 0"
    by (rule bit_word_eqI) (auto simp: bit_simps dest: bit_imp_le_length)
  have "ucast b OR push_bit 8 (le_val bs) = ucast b + push_bit 8 (le_val bs)"
    by (rule disjunctive_add [symmetric]) (auto simp: bit_simps dest: bit_imp_le_length)
  moreover have "unat (push_bit 8 (le_val bs)) = 256 * unat (le_val bs)"
    using s by (simp add: push_bit_eq_mult unat_word_ariths(2))
  moreover have "unat (ucast b :: u64) = unat b"
    using \<open>unat b < 256\<close> by (simp add: unsigned_ucast_eq take_bit_nat_eq_self)
  moreover have "unat b + 256 * unat (le_val bs) < 256 * 256 ^ length bs"
    using ih(2) \<open>unat b < 256\<close> by simp
  moreover have "(256 :: nat) * 256 ^ length bs \<le> 2 ^ 64"
    using power_increasing [of "Suc (length bs)" 8 "256 :: nat"] Cons.prems by simp
  ultimately have u: "unat (ucast b OR push_bit 8 (le_val bs)) = unat b + 256 * unat (le_val bs)"
    by (simp add: unat_word_ariths(1))
  have e: "(\<Sum>k<length (b # bs). unat ((b # bs) ! k) * 256 ^ k) = unat b + 256 * (\<Sum>k<length bs. unat (bs ! k) * 256 ^ k)"
    by (simp only: length_Cons sum.lessThan_Suc_shift) (simp add: sum_distrib_left mult_ac)
  show ?case
    unfolding e using u ih \<open>unat b < 256\<close> by simp
qed simp

lemma read_at:
  assumes "unat p + n \<le> length d" and "n \<le> 4"
  shows "number_at d p n (ucast (le_val (take n (drop (unat p) d))))"
proof -
  let ?bs = "take n (drop (unat p) d)"
  have l: "length ?bs = n"
    using assms by simp
  have v: "unat (le_val ?bs) = (\<Sum>k<n. unat (?bs ! k) * 256 ^ k)" "unat (le_val ?bs) < 256 ^ n"
    using unat_le_val [of ?bs] assms l by simp_all
  have "(256 :: nat) ^ n \<le> 256 ^ 4"
    by (rule power_increasing) (use assms in simp_all)
  then have "unat (ucast (le_val ?bs) :: u32) = unat (le_val ?bs)"
    using v(2) by (simp add: unsigned_ucast_eq take_bit_nat_eq_self)
  moreover have "(\<Sum>k<n. unat (?bs ! k) * 256 ^ k) = (\<Sum>k<n. unat (d ! (unat p + k)) * 256 ^ k)"
    by (rule sum.cong) (use assms in simp_all)
  ultimately show ?thesis
    using v(1) assms(1) by (simp only: number_at_def)
qed

lemma rd16_at: "rd16 d p = Some v \<Longrightarrow> number_at d p 2 v"
  using read_at [of p 2 d] by (auto simp: rd16_def split: if_splits)

lemma rd32_at: "rd32 d p = Some v \<Longrightarrow> number_at d p 4 v"
  using read_at [of p 4 d] by (auto simp: rd32_def split: if_splits)

lemma header_of_at: "header_of d = Some h \<Longrightarrow> header_at d h"
  by (auto simp: header_of_def header_at_def bind_eq_Some_conv intro!: rd32_at)

lemma next_byte: "rd8 d p = Some b \<Longrightarrow> length d < 2 ^ 32 \<Longrightarrow> unat p < length d \<and> b = d ! unat p \<and> unat (p + 1) = Suc (unat p)"
  by (auto simp: rd8_def unat_word_ariths(1) split: if_splits)

lemma bit7: "(b :: u8) AND 0x80 = 0 \<longleftrightarrow> \<not> bit b 7"
proof -
  have "(0x80 :: u8) = 2 ^ 7"
    by simp
  then show ?thesis
    by (simp only: and_exp_eq_0_iff_not_bit)
qed

lemma uleb_loop_at:
  assumes "uleb_loop m d v s p = Some (w, q)" and "length d < 2 ^ 32"
  shows "\<exists>n. unat q = unat p + Suc n \<and> unat q \<le> length d \<and> (\<forall>k < n. bit (d ! (unat p + k)) 7) \<and> \<not> bit (d ! (unat p + n)) 7"
  using assms(1)
proof (induction m arbitrary: v s p)
  case (Suc m)
  obtain b where b: "rd8 d p = Some b"
    using Suc.prems by (auto split: option.splits)
  note nb = next_byte [OF b assms(2)]
  show ?case
  proof (cases "b AND 0x80 = 0")
    case True
    then show ?thesis
      using Suc.prems b nb bit7 [of b] by (intro exI [of _ 0]) (auto simp: Let_def)
  next
    case False
    then obtain n where n: "unat q = unat (p + 1) + Suc n" "unat q \<le> length d" "\<forall>k < n. bit (d ! (unat (p + 1) + k)) 7"
        "\<not> bit (d ! (unat (p + 1) + n)) 7"
      using Suc.IH Suc.prems b by (force simp: Let_def)
    have "bit (d ! (unat p + k)) 7" if "k < Suc n" for k
      using that n(3) nb False bit7 [of b] by (cases k) simp_all
    then show ?thesis
      using n(1,2,4) nb by (intro exI [of _ "Suc n"]) simp
  qed
qed simp

lemma str_end_at:
  assumes "str_end m d p = Some q" and "length d < 2 ^ 32"
  shows "\<exists>n. unat q = unat p + n \<and> unat q < length d \<and> (\<forall>k < n. d ! (unat p + k) \<noteq> 0) \<and> d ! (unat p + n) = 0"
  using assms(1)
proof (induction m arbitrary: p)
  case (Suc m)
  obtain b where b: "rd8 d p = Some b"
    using Suc.prems by (auto split: option.splits)
  note nb = next_byte [OF b assms(2)]
  show ?case
  proof (cases "b = 0")
    case True
    then show ?thesis
      using Suc.prems b nb by (intro exI [of _ 0]) auto
  next
    case False
    then obtain n where n: "unat q = unat (p + 1) + n" "unat q < length d" "\<forall>k < n. d ! (unat (p + 1) + k) \<noteq> 0"
        "d ! (unat (p + 1) + n) = 0"
      using Suc.IH [of "p + 1"] Suc.prems b by auto
    have "d ! (unat p + k) \<noteq> 0" if "k < Suc n" for k
      using that n(3) nb False by (cases k) simp_all
    then show ?thesis
      using n(1,2,4) nb by (intro exI [of _ "Suc n"]) simp
  qed
qed simp

lemma str_at:
  assumes "str d h idx = Some s" and "length d < 2 ^ 32"
  shows "string_at d h idx s"
proof -
  obtain b v p q where r: "rd32 d (stringIdsOff h + idx * 4) = Some b" "uleb d b = Some (v, p)"
      "str_end (Suc (length d)) d p = Some q" "s = bytes_string (take (unat q - unat p) (drop (unat p) d))"
    using assms(1) by (auto simp: str_def bind_eq_Some_conv)
  obtain n where n: "unat p = unat b + Suc n" "\<forall>k < n. bit (d ! (unat b + k)) 7" "\<not> bit (d ! (unat b + n)) 7"
    using uleb_loop_at [OF r(2) [unfolded uleb_def] assms(2)] by blast
  obtain l where l: "unat q = unat p + l" "unat q < length d" "\<forall>k < l. d ! (unat p + k) \<noteq> 0" "d ! (unat p + l) = 0"
    using str_end_at [OF r(3) assms(2)] by blast
  have s: "length s = l" "\<And>k. k < l \<Longrightarrow> s ! k = char_of (unat (d ! (unat p + k)))"
    using r(4) l(1,2) by (simp_all add: bytes_string_def)
  show ?thesis
    unfolding string_at_def
    using rd32_at [OF r(1)] n l s by (intro exI [of _ b] exI [of _ n]) (simp add: mult.commute)
qed

lemma typeDesc_at: "typeDesc d h idx = Some s \<Longrightarrow> length d < 2 ^ 32 \<Longrightarrow> type_at d h idx s"
  unfolding typeDesc_def type_at_def using rd32_at str_at by (fastforce simp: bind_eq_Some_conv mult.commute [of idx])

lemma params_at:
  assumes "params d h po n i sg = Some w" and "length d < 2 ^ 32"
  shows "\<exists>ts. length ts = n \<and> w = sg @ concat ts \<and>
    (\<forall>k < n. \<exists>ti. number_at d (po + 4 + 2 * (i + of_nat k)) 2 ti \<and> type_at d h ti (ts ! k))"
  using assms(1)
proof (induction n arbitrary: i sg)
  case (Suc n)
  obtain ti t where r: "rd16 d (po + 4 + i * 2) = Some ti" "typeDesc d h ti = Some t"
      "params d h po n (i + 1) (sg @ t) = Some w"
    using Suc.prems by (auto simp: bind_eq_Some_conv)
  obtain ts where ts: "length ts = n" "w = (sg @ t) @ concat ts"
      "\<forall>k < n. \<exists>ti. number_at d (po + 4 + 2 * (i + 1 + of_nat k)) 2 ti \<and> type_at d h ti (ts ! k)"
    using Suc.IH [OF r(3)] by blast
  have "\<exists>ti. number_at d (po + 4 + 2 * (i + of_nat k)) 2 ti \<and> type_at d h ti ((t # ts) ! k)" if "k < Suc n" for k
  proof (cases k)
    case 0
    then show ?thesis
      using rd16_at [OF r(1)] typeDesc_at [OF r(2) assms(2)] by (auto simp: mult.commute)
  next
    case (Suc l)
    then show ?thesis
      using ts(3) that by (simp add: add.assoc)
  qed
  then show ?case
    using ts(1,2) by (intro exI [of _ "t # ts"]) simp
qed simp

lemma protoSig_at:
  assumes "protoSig d h idx = Some sg" and "length d < 2 ^ 32"
  shows "proto_at d h idx sg"
proof -
  let ?b = "protoIdsOff h + 12 * idx"
  have m: "idx * 12 = 12 * idx" by simp
  obtain ri po w r where p: "rd32 d (?b + 4) = Some ri" "rd32 d (?b + 8) = Some po" "typeDesc d h ri = Some r"
      "sg = w @ '')'' @ r"
      "(if po \<noteq> 0 then do { cnt \<leftarrow> rd32 d po; params d h po (unat cnt) 0 ''('' } else Some ''('') = Some w"
    using assms(1) unfolding protoSig_def Let_def m by (auto simp: bind_eq_Some_conv)
  have "\<exists>ts. w = ''('' @ concat ts \<and> (if po = 0 then ts = [] else (\<exists>n. number_at d po 4 n \<and> length ts = unat n) \<and>
        (\<forall>k < length ts. \<exists>ti. number_at d (po + 4 + 2 * of_nat k) 2 ti \<and> type_at d h ti (ts ! k)))"
  proof (cases "po = 0")
    case True
    then show ?thesis using p(5) by simp
  next
    case False
    then obtain c where c: "rd32 d po = Some c" "params d h po (unat c) 0 ''('' = Some w"
      using p(5) by (auto simp: bind_eq_Some_conv)
    obtain ts where "length ts = unat c" "w = ''('' @ concat ts"
        "\<forall>k < unat c. \<exists>ti. number_at d (po + 4 + 2 * of_nat k) 2 ti \<and> type_at d h ti (ts ! k)"
      using params_at [OF c(2) assms(2)] by auto
    then show ?thesis
      using rd32_at [OF c(1)] False by (intro exI [of _ ts]) auto
  qed
  then obtain ts where ts: "w = ''('' @ concat ts" "if po = 0 then ts = [] else (\<exists>n. number_at d po 4 n \<and> length ts = unat n) \<and>
        (\<forall>k < length ts. \<exists>ti. number_at d (po + 4 + 2 * of_nat k) 2 ti \<and> type_at d h ti (ts ! k))"
    by blast
  show ?thesis
    unfolding proto_at_def
    by (rule exI [of _ ri], rule exI [of _ po], rule exI [of _ ts], rule exI [of _ r])
      (use rd32_at [OF p(1)] rd32_at [OF p(2)] typeDesc_at [OF p(3) assms(2)] p(4) ts in simp)
qed

lemma descToName_class: "descToName t = class_name t"
proof (cases "\<exists>x. x \<noteq> [] \<and> t = CHR ''L'' # x @ '';''")
  case True
  then obtain x where x: "x \<noteq> []" "t = CHR ''L'' # x @ '';''" by blast
  then show ?thesis
    by (auto simp: descToName_def class_name_def nth_append butlast_append)
next
  case False
  have "\<not> (length t > 2 \<and> t ! 0 = CHR ''L'' \<and> t ! (length t - 1) = CHR '';'')"
  proof
    assume a: "length t > 2 \<and> t ! 0 = CHR ''L'' \<and> t ! (length t - 1) = CHR '';''"
    then obtain c u where t: "t = c # u" by (cases t) auto
    then have u: "u \<noteq> []" "c = CHR ''L''" "length u \<ge> 2"
      using a by auto
    then have "last u = CHR '';''"
      using a t by (simp add: last_conv_nth nth_Cons')
    moreover have "butlast u \<noteq> []"
      using u(3) by (cases u rule: rev_cases) auto
    moreover note u
    ultimately have "t = CHR ''L'' # butlast u @ '';''" "butlast u \<noteq> []"
      using t append_butlast_last_id [of u] by simp_all
    then show False using False by blast
  qed
  then show ?thesis
    using False by (auto simp: descToName_def class_name_def)
qed

end
