(* ===== verification/Dex_Props.thy ===== *)
theory Dex_Props
  imports Dex_Layout
begin

text \<open>
  Loading a DEX file: it never breaks the VM, and what a successful load leaves registered.
\<close>

subsection \<open>The invariant\<close>

lemma takes_body:
  assumes X: "\<And>s. X (s :: 'p vm) = room_for 0 s"
    and x1: "takes (room_for (Suc n)) (class_named d h idx) (\<lambda>c s. c < length (vm_class s) \<and> room_for (Suc n) s) X"
  shows "takes (room_for (Suc n))
    (bnd (class_named d h idx) (\<lambda>c. bnd (need name) (\<lambda>nm. bnd (need sig) (\<lambda>sg.
       bnd (vm_call (intern meth c nm sg False)) (\<lambda>_. Prelude.ret ()))))) (\<lambda>_. room_for n) X"
proof (rule takes_bnd [OF x1])
  fix c
  have b: "\<And>s. c < length (vm_class s) \<and> room_for (Suc n) s \<Longrightarrow> X s" using X by (simp add: room_for_def counts_def)
  show "takes (\<lambda>s. c < length (vm_class s) \<and> room_for (Suc n) s)
     (bnd (need name) (\<lambda>nm. bnd (need sig) (\<lambda>sg. bnd (vm_call (intern meth c nm sg False)) (\<lambda>_. Prelude.ret ())))) (\<lambda>_. room_for n) X"
    by (rule takes_all [OF takes_all [OF takes_bnd [OF takes_intern takes_ret] b] b]) auto
qed

lemma class_weak:
  assumes "\<And>s. X (s :: 'p vm) = room_for 0 s"
  shows "takes (room_for n) (class_named d h idx) (\<lambda>c s. c < length (vm_class s) \<and> room_for n s) X"
  using takes_class [OF assms, of n d h idx] by (fastforce simp: takes_def split: sum.splits prod.splits)

lemma dex_method_intern:
  "dex_method d h i = (let base = methodIdsOff h + i * 8 in
      bnd (need (rd16 d base)) (\<lambda>clsIdx. bnd (need (rd16 d (base + 2))) (\<lambda>protoIdx.
      bnd (need (rd32 d (base + 4))) (\<lambda>nameIdx. bnd (class_named d h clsIdx) (\<lambda>c.
      bnd (need (str d h nameIdx)) (\<lambda>name. bnd (need (protoSig d h protoIdx)) (\<lambda>sg.
      bnd (vm_call (intern True c name sg False)) (\<lambda>_. Prelude.ret ()))))))))"
  by (simp add: dex_method_def intern_def)

lemma dex_field_intern:
  "dex_field d h i = (let base = fieldIdsOff h + i * 8 in
      bnd (need (rd16 d base)) (\<lambda>clsIdx. bnd (need (rd16 d (base + 2))) (\<lambda>typeIdx.
      bnd (need (rd32 d (base + 4))) (\<lambda>nameIdx. bnd (class_named d h clsIdx) (\<lambda>c.
      bnd (need (str d h nameIdx)) (\<lambda>name. bnd (need (typeDesc d h typeIdx)) (\<lambda>sg.
      bnd (vm_call (intern False c name sg False)) (\<lambda>_. Prelude.ret ()))))))))"
  by (simp add: dex_field_def intern_def)

lemma takes_members:
  assumes X: "\<And>s. X (s :: 'p vm) = room_for 0 s"
  shows "takes (room_for (Suc n)) (dex_method d h i) (\<lambda>_. room_for n) X"
    and "takes (room_for (Suc n)) (dex_field d h i) (\<lambda>_. room_for n) X"
proof -
  have b: "\<And>s. room_for (Suc n) s \<Longrightarrow> X s" using X by (simp add: room_for_def counts_def)
  show "takes (room_for (Suc n)) (dex_method d h i) (\<lambda>_. room_for n) X"
    unfolding dex_method_intern Let_def by (intro takes_all takes_body [OF X class_weak [OF X]] b)
  show "takes (room_for (Suc n)) (dex_field d h i) (\<lambda>_. room_for n) X"
    unfolding dex_field_intern Let_def by (intro takes_all takes_body [OF X class_weak [OF X]] b)
qed

lemma upd_class_Super:
  "vm_ok m \<Longrightarrow> vm_ok (upd_class c (\<lambda>k. k\<lparr>cl_Super := s\<rparr>) m)"
  "keeps_members m (upd_class c (\<lambda>k. k\<lparr>cl_Super := s\<rparr>) m)"
proof -
  let ?m = "upd_class c (\<lambda>k. k\<lparr>cl_Super := s\<rparr>) m"
  have mem: "members ?m = members m"
    by (cases "c < length (vm_class m)")
      (auto simp: members_def upd_class_def fun_eq_iff nth_list_update list_update_beyond linorder_not_less)
  show "keeps_members m ?m" using mem by (simp add: keeps_members_def upd_class_def)
  have nm: "map cl_Name (vm_class ?m) = map cl_Name (vm_class m)"
    by (cases "c < length (vm_class m)")
      (simp_all add: upd_class_def map_update list_update_same_conv list_update_beyond linorder_not_less)
  show "vm_ok m \<Longrightarrow> vm_ok ?m"
    using mem classes_ok_names [OF _ nm] objs_ok_eq [of ?m m] by (simp add: vm_ok_def ids_ok_def upd_class_def)
qed

lemma takes_dex_class:
  assumes X: "\<And>s. X (s :: 'p vm) = room_for 0 s"
  shows "takes (room_for 0) (dex_class d h i) (\<lambda>_. room_for 0) X"
proof -
  have w: "takes (room_for 0) (class_named d h idx) (\<lambda>c. room_for 0) X" for idx
    using class_weak [OF X, of 0 d h idx] by (fastforce simp: takes_def split: sum.splits prod.splits)
  have u: "takes (room_for 0) (upd (upd_class c (\<lambda>k. k\<lparr>cl_Super := Some s\<rparr>))) (\<lambda>_. room_for 0) X" for c s
    by (rule takes_upd) (simp add: room_for_def upd_class_Super counts_def, simp add: upd_class_def)
  have b: "\<And>s. room_for 0 s \<Longrightarrow> X s" using X by simp
  show ?thesis
    unfolding dex_class_def Let_def
    by (intro takes_all takes_bnd [OF w] b) (simp add: takes_ret takes_bnd [OF w u])
qed

lemma LoadDex_takes:
  assumes X: "\<And>s. X (s :: 'p vm) = room_for 0 s" and h: "header_of d = Some h"
  shows "takes (room_for (unat (methodIdsSize h) + unat (fieldIdsSize h))) (LoadDex d) (\<lambda>_. room_for 0) X"
proof -
  let ?M = "unat (methodIdsSize h)" and ?F = "unat (fieldIdsSize h)"
  have m: "takes (room_for (?M + ?F)) (each (dex_method d h) ?M 0) (\<lambda>_. room_for ?F) X"
    by (rule takes_each) (rule takes_members(1) [OF X])
  have f: "takes (room_for (?F + 0)) (each (dex_field d h) ?F 0) (\<lambda>_. room_for 0) X"
    by (rule takes_each) (rule takes_members(2) [OF X])
  have c: "takes (room_for 0) (each (dex_class d h) n 0) (\<lambda>_. room_for 0) X" for n
    using takes_each [of "\<lambda>_. room_for 0" "dex_class d h" X n 0] takes_dex_class [OF X] by simp
  have r: "takes (room_for 0) (andthen (each (dex_class d h) (unat (classDefsSize h)) 0) (Prelude.ret (classDefsSize h)))
      (\<lambda>_. room_for 0) X"
    by (rule takes_andthen [OF c takes_ret])
  have g: "takes (room_for (?M + ?F)) (bnd (need (header_of d)) (\<lambda>h.
        andthen (each (dex_method d h) (unat (methodIdsSize h)) 0)
        (andthen (each (dex_field d h) (unat (fieldIdsSize h)) 0)
        (andthen (each (dex_class d h) (unat (classDefsSize h)) 0)
          (Prelude.ret (classDefsSize h)))))) (\<lambda>_. room_for 0) X"
  proof (rule takes_all)
    fix h' assume "header_of d = Some h'"
    then have "h' = h" using h by simp
    then show "takes (room_for (?M + ?F)) (andthen (each (dex_method d h') (unat (methodIdsSize h')) 0)
        (andthen (each (dex_field d h') (unat (fieldIdsSize h')) 0)
        (andthen (each (dex_class d h') (unat (classDefsSize h')) 0) (Prelude.ret (classDefsSize h'))))) (\<lambda>_. room_for 0) X"
      using takes_andthen [OF m takes_andthen [OF f [simplified] r]] by simp
  qed (simp add: X room_for_def counts_def)
  have "takes (room_for (?M + ?F)) (throw BadMagic :: ('p, u32) dex) (\<lambda>_. room_for 0) X"
    by (simp add: takes_def throw_def X room_for_def counts_def)
  then show ?thesis unfolding LoadDex_def using g by simp
qed

subsection \<open>What is registered stays\<close>

definition grows :: "'p vm \<Rightarrow> 'p vm \<Rightarrow> bool" where
  "grows m m' \<longleftrightarrow> keeps_members m m' \<and> vm_classes m \<subseteq>\<^sub>m vm_classes m'"

lemma grows_refl [simp]: "grows m m"
  by (simp add: grows_def keeps_members_refl)

lemma grows_trans: "grows m m' \<Longrightarrow> grows m' m'' \<Longrightarrow> grows m m''"
  unfolding grows_def using keeps_members_trans map_le_trans by blast

lemma Resolve_grows: "grows m (snd (ResolveClass name sp m))"
  using Resolve_keeps [of m name sp] by (auto simp: grows_def ResolveClass_def Let_def map_le_def split: option.splits)

lemma intern_classes: "vm_classes (snd (intern meth c name sg static m)) = vm_classes m"
  by (cases meth) (simp_all add: intern_def MethodID_def FieldID_def fresh_ID_def upd_class_def Let_def split: option.split)

lemma intern_grows: "grows m (snd (intern meth c name sg static m))"
  using intern_keeps intern_classes by (metis grows_def map_le_refl)

lemma keeps_need: "keeps P (need x)"
  by (auto simp: need_def intro: keep_intros split: option.split)

lemma keeps_vm_call: "(\<And>s. P s \<Longrightarrow> P (snd (f s))) \<Longrightarrow> keeps P (vm_call f)"
  by (simp add: keeps_def vm_call_def)

lemma grow_steps [intro]:
  "keeps (grows m) (class_named d h idx)" "keeps (grows m) (vm_call (intern meth c name sg static))"
  "keeps (grows m) (upd (upd_class c (\<lambda>k. k\<lparr>cl_Super := s\<rparr>)))"
proof -
  show "keeps (grows m) (class_named d h idx)"
    unfolding class_named_def
    by (intro keeps_bnd keeps_need keeps_vm_call) (rule grows_trans [OF _ Resolve_grows])
  show "keeps (grows m) (vm_call (intern meth c name sg static))"
    by (rule keeps_vm_call) (rule grows_trans [OF _ intern_grows])
  have "grows m' (upd_class c (\<lambda>k. k\<lparr>cl_Super := s\<rparr>) m')" for m' :: "'a vm"
    using upd_class_Super(2) [of m' c s] by (simp add: grows_def upd_class_def)
  then show "keeps (grows m) (upd (upd_class c (\<lambda>k. k\<lparr>cl_Super := s\<rparr>)))"
    by (intro keeps_upd) (rule grows_trans)
qed

lemma bodies_grow: "keeps (grows m) (dex_method d h i)" "keeps (grows m) (dex_field d h i)" "keeps (grows m) (dex_class d h i)"
  unfolding dex_method_intern dex_field_intern dex_class_def Let_def
  by (intro keeps_bnd keeps_need keeps_if keeps_ret grow_steps)+

lemma grows_self: "keeps (grows s) f \<Longrightarrow> f s = (r, t) \<Longrightarrow> grows s t"
  using keepsD [of "grows s" f s] by simp

lemma each_keeps: "(\<And>i. keeps P (f i)) \<Longrightarrow> keeps P (each f n i)"
  by (induction n arbitrary: i) (auto intro: keeps_andthen)

lemma bnd_Inr: "bnd f k s = (Inr v, t) \<Longrightarrow> \<exists>x u. f s = (Inr x, u) \<and> k x u = (Inr v, t)"
  by (auto simp: bnd_def split: prod.splits sum.splits)

lemma takes_Inr: "takes P f Q X \<Longrightarrow> P s \<Longrightarrow> f s = (Inr v, t) \<Longrightarrow> Q v t"
  by (fastforce simp: takes_def)

lemma andthen_Inr:
  fixes f :: "('s, 'e, unit) comp"
  shows "andthen f g s = (Inr v, t) \<Longrightarrow> \<exists>u. f s = (Inr (), u) \<and> g u = (Inr v, t)"
  using bnd_Inr [of f "\<lambda>_. g" s v t] by (auto simp: andthen_def)

lemma each_done:
  assumes "\<And>i m. keeps (grows m) (f i)" and "\<And>i n. takes (room_for (Suc n)) (f i) (\<lambda>_. room_for n) X"
    and "each f n i m = (Inr (), m')" and "room_for (n + j) m" and "k < n"
  shows "\<exists>s t. f (i + of_nat k) s = (Inr (), t) \<and> grows t m' \<and> vm_ok s"
  using assms(3-5)
proof (induction n arbitrary: i k m)
  case (Suc n)
  obtain t where t: "f i m = (Inr (), t)" "each f n (i + 1) t = (Inr (), m')"
    using andthen_Inr [of "f i" "each f n (i + 1)" m] Suc.prems(1) by auto
  have g: "grows t m'" by (rule grows_self [of t "each f n (i + 1)", OF each_keeps [OF assms(1)] t(2)])
  have r: "room_for (n + j) t" using takes_Inr [of _ "f i" _ _ m, OF assms(2) _ t(1), of "n + j"] Suc.prems(2) by simp
  show ?case
  proof (cases k)
    case 0
    then show ?thesis using t(1) g Suc.prems(2) by (auto simp: room_for_def)
  next
    case (Suc l)
    then have "\<exists>s t. f (i + 1 + of_nat l) s = (Inr (), t) \<and> grows t m' \<and> vm_ok s"
      using Suc.IH [OF t(2) r, of l] Suc.prems(3) by simp
    then show ?thesis using Suc by (simp add: add.assoc)
  qed
qed simp

lemma need_Inr: "need x s = (Inr v, t) \<longleftrightarrow> x = Some v \<and> t = s"
  by (auto simp: need_def Prelude.ret_def throw_def split: option.splits)

lemma need_Some: "bnd (need (Some v)) k = k v"
  by (simp add: need_def)

lemma class_in_range:
  assumes "vm_ok s" and "class_named d h idx s = (Inr c, u)"
  shows "c < length (vm_class u)"
proof -
  obtain n where n: "c = fst (ResolveClass (descToName n) None s)" "u = snd (ResolveClass (descToName n) None s)"
    using assms(2) by (auto simp: class_named_def vm_call_def need_Inr dest!: bnd_Inr)
  then show ?thesis using ResolveClass_ok(2) [OF assms(1), of "descToName n" None c u] by simp
qed

text \<open>What a run of one loop body read and did.\<close>

lemma class_named_Inr:
  assumes "class_named d h idx s = (Inr c, u)" and "length d < 2 ^ 32"
  obtains t where "type_at d h idx t" and "ResolveClass (class_name t) None s = (c, u)"
    and "vm_classes u (class_name t) = Some c"
proof -
  obtain t where t: "typeDesc d h idx = Some t" "ResolveClass (descToName t) None s = (c, u)"
    using assms(1) by (auto simp: class_named_def vm_call_def need_Inr dest!: bnd_Inr)
  moreover have "vm_classes u (descToName t) = Some c"
    using t(2) by (auto simp: ResolveClass_def Let_def split: option.splits)
  ultimately show ?thesis
    using that [of t] typeDesc_at [OF t(1) assms(2)] by (simp add: descToName_class)
qed

lemma LookupClass_grows: "vm_classes u n = Some c \<Longrightarrow> grows u m \<Longrightarrow> LookupClass n m = Some c"
  unfolding grows_def map_le_def LookupClass_def by (metis domI)

text \<open>Method and field \<open>i\<close> of the file, read off its bytes, are members of their class in the VM.\<close>

definition method_known :: "u8 list \<Rightarrow> dex_header \<Rightarrow> 'p vm \<Rightarrow> u32 \<Rightarrow> bool" where
  "method_known d h m i \<longleftrightarrow> (\<exists>ci pi ni t nm sg c.
     number_at d (methodIdsOff h + 8 * i) 2 ci \<and> number_at d (methodIdsOff h + 8 * i + 2) 2 pi \<and>
     number_at d (methodIdsOff h + 8 * i + 4) 4 ni \<and>
     type_at d h ci t \<and> proto_at d h pi sg \<and> string_at d h ni nm \<and>
     LookupClass (class_name t) m = Some c \<and> c < length (vm_class m) \<and> cl_methods (vm_class m ! c) (nm @ sg) \<noteq> None)"

definition field_known :: "u8 list \<Rightarrow> dex_header \<Rightarrow> 'p vm \<Rightarrow> u32 \<Rightarrow> bool" where
  "field_known d h m i \<longleftrightarrow> (\<exists>ci ti ni t nm sg c.
     number_at d (fieldIdsOff h + 8 * i) 2 ci \<and> number_at d (fieldIdsOff h + 8 * i + 2) 2 ti \<and>
     number_at d (fieldIdsOff h + 8 * i + 4) 4 ni \<and>
     type_at d h ci t \<and> type_at d h ti sg \<and> string_at d h ni nm \<and>
     LookupClass (class_name t) m = Some c \<and> c < length (vm_class m) \<and>
     cl_fields (vm_class m ! c) (nm @ '':'' @ sg) \<noteq> None)"

text \<open>
  Class definition \<open>i\<close>: the class is registered, and so is the superclass its definition names, which is
  its superclass in the VM when no later definition of the file is of the same class.
\<close>

definition class_known :: "u8 list \<Rightarrow> dex_header \<Rightarrow> 'p vm \<Rightarrow> nat \<Rightarrow> bool" where
  "class_known d h m i \<longleftrightarrow> (\<exists>ci si t c.
     number_at d (classDefsOff h + 32 * of_nat i) 4 ci \<and> number_at d (classDefsOff h + 32 * of_nat i + 8) 4 si \<and>
     type_at d h ci t \<and> LookupClass (class_name t) m = Some c \<and> c < length (vm_class m) \<and>
     (si \<noteq> 0xffffffff \<longrightarrow> (\<exists>st sc. type_at d h si st \<and> LookupClass (class_name st) m = Some sc \<and>
        ((\<forall>j cj tj. i < j \<and> j < unat (classDefsSize h) \<and> number_at d (classDefsOff h + 32 * of_nat j) 4 cj \<and> type_at d h cj tj
            \<longrightarrow> class_name tj \<noteq> class_name t) \<longrightarrow> cl_Super (vm_class m ! c) = Some sc))))"

lemma body_known:
  assumes "bnd (class_named d h idx) (\<lambda>c. bnd (need name) (\<lambda>nm. bnd (need sig) (\<lambda>sg.
       bnd (vm_call (intern meth c nm sg False)) (\<lambda>_. Prelude.ret ())))) s = (Inr (), t)" and "grows t m"
    and "vm_ok s" and "length d < 2 ^ 32"
  obtains ty c nm sg where "type_at d h idx ty" and "name = Some nm" and "sig = Some sg"
    and "LookupClass (class_name ty) m = Some c" and "members m c meth (key_of meth nm sg) \<noteq> None"
proof -
  obtain c u nm sg where c: "class_named d h idx s = (Inr c, u)" "name = Some nm" "sig = Some sg"
      "t = snd (intern meth c nm sg False u)"
    using assms(1) by (auto simp: vm_call_def need_Inr Prelude.ret_def dest!: bnd_Inr)
  obtain ty where ty: "type_at d h idx ty" "vm_classes u (class_name ty) = Some c"
    using class_named_Inr [OF c(1) assms(4)] by metis
  have "grows u m" using grows_trans [OF intern_grows] assms(2) c(4) by metis
  then have l: "LookupClass (class_name ty) m = Some c"
    by (rule LookupClass_grows [OF ty(2)])
  have "members t c meth (key_of meth nm sg) \<noteq> None"
    using intern_member [OF class_in_range [OF assms(3) c(1)], of meth nm sg False] c(4) by simp
  then have "members m c meth (key_of meth nm sg) \<noteq> None"
    using assms(2) by (auto simp: grows_def keeps_members_def)
  then show ?thesis by (rule that [OF ty(1) c(2,3) l])
qed

lemma member_method: "members m c True key \<noteq> None \<Longrightarrow> c < length (vm_class m) \<and> cl_methods (vm_class m ! c) key \<noteq> None"
  by (simp add: members_def split: if_splits)

lemma member_field: "members m c False key \<noteq> None \<Longrightarrow> c < length (vm_class m) \<and> cl_fields (vm_class m ! c) key \<noteq> None"
  by (simp add: members_def split: if_splits)

lemma method_entry:
  assumes "dex_method d h i s = (Inr (), t)" and "grows t m" and "vm_ok s" and "length d < 2 ^ 32"
  shows "method_known d h m i"
proof -
  let ?base = "methodIdsOff h + i * 8"
  obtain x y z where r: "rd16 d ?base = Some x" "rd16 d (?base + 2) = Some y" "rd32 d (?base + 4) = Some z"
    using assms(1) unfolding dex_method_intern Let_def by (auto simp: need_Inr dest!: bnd_Inr)
  obtain ty c nm sg where b: "type_at d h x ty" "str d h z = Some nm" "protoSig d h y = Some sg"
      "LookupClass (class_name ty) m = Some c" "members m c True (key_of True nm sg) \<noteq> None"
    using assms(1) unfolding dex_method_intern Let_def r need_Some by (rule body_known [OF _ assms(2-4)])
  have "members m c True (nm @ sg) \<noteq> None"
    using b(5) by (simp add: method_key_def)
  then have k: "c < length (vm_class m)" "cl_methods (vm_class m ! c) (nm @ sg) \<noteq> None"
    using member_method by blast+
  show ?thesis
    unfolding method_known_def mult.commute [of 8]
    using rd16_at [OF r(1)] rd16_at [OF r(2)] rd32_at [OF r(3)] b(1,4) str_at [OF b(2) assms(4)] protoSig_at [OF b(3) assms(4)] k
    by blast
qed

lemma field_entry:
  assumes "dex_field d h i s = (Inr (), t)" and "grows t m" and "vm_ok s" and "length d < 2 ^ 32"
  shows "field_known d h m i"
proof -
  let ?base = "fieldIdsOff h + i * 8"
  obtain x y z where r: "rd16 d ?base = Some x" "rd16 d (?base + 2) = Some y" "rd32 d (?base + 4) = Some z"
    using assms(1) unfolding dex_field_intern Let_def by (auto simp: need_Inr dest!: bnd_Inr)
  obtain ty c nm sg where b: "type_at d h x ty" "str d h z = Some nm" "typeDesc d h y = Some sg"
      "LookupClass (class_name ty) m = Some c" "members m c False (key_of False nm sg) \<noteq> None"
    using assms(1) unfolding dex_field_intern Let_def r need_Some by (rule body_known [OF _ assms(2-4)])
  have "members m c False (nm @ '':'' @ sg) \<noteq> None"
    using b(5) by (simp add: field_key_def)
  then have k: "c < length (vm_class m)" "cl_fields (vm_class m ! c) (nm @ '':'' @ sg) \<noteq> None"
    using member_field by blast+
  show ?thesis
    unfolding field_known_def mult.commute [of 8]
    using rd16_at [OF r(1)] rd16_at [OF r(2)] rd32_at [OF r(3)] b(1,4) str_at [OF b(2) assms(4)] typeDesc_at [OF b(3) assms(4)] k
    by blast
qed

subsection \<open>Class definitions\<close>

lemma class_entry:
  assumes "dex_class d h i s = (Inr (), t)" and "length d < 2 ^ 32"
  obtains ci si ty c u where "number_at d (classDefsOff h + 32 * i) 4 ci" and "number_at d (classDefsOff h + 32 * i + 8) 4 si"
    and "type_at d h ci ty" and "ResolveClass (class_name ty) None s = (c, u)" and "vm_classes u (class_name ty) = Some c"
    and "si = 0xffffffff \<and> t = u \<or>
      si \<noteq> 0xffffffff \<and> (\<exists>st e v. type_at d h si st \<and> ResolveClass (class_name st) None u = (e, v) \<and> vm_classes v (class_name st) = Some e \<and>
        t = upd_class c (\<lambda>k. k\<lparr>cl_Super := Some e\<rparr>) v)"
proof -
  let ?base = "classDefsOff h + 32 * i"
  have m: "i * 32 = 32 * i" by simp
  obtain ci si c u where r: "rd32 d ?base = Some ci" "rd32 d (?base + 8) = Some si" "class_named d h ci s = (Inr c, u)"
      "(if si \<noteq> dexNoIndex then
        bnd (class_named d h si) (\<lambda>s. upd (upd_class c (\<lambda>k. k\<lparr>cl_Super := Some s\<rparr>)))
      else Prelude.ret ()) u = (Inr (), t)"
    using assms(1) unfolding dex_class_def Let_def m by (auto simp: need_Inr dest!: bnd_Inr)
  have "si = 0xffffffff \<and> t = u \<or>
      si \<noteq> 0xffffffff \<and> (\<exists>st e v. type_at d h si st \<and> ResolveClass (class_name st) None u = (e, v) \<and> vm_classes v (class_name st) = Some e \<and>
        t = upd_class c (\<lambda>k. k\<lparr>cl_Super := Some e\<rparr>) v)"
  proof (cases "si = 0xffffffff")
    case True
    then show ?thesis using r(4) by (simp add: Prelude.ret_def)
  next
    case False
    then obtain e v where e: "class_named d h si u = (Inr e, v)" "t = upd_class c (\<lambda>k. k\<lparr>cl_Super := Some e\<rparr>) v"
      using r(4) by (auto simp: upd_def dest!: bnd_Inr)
    show ?thesis
      by (rule class_named_Inr [OF e(1) assms(2)]) (use False e(2) in blast)
  qed
  with class_named_Inr [OF r(3) assms(2)] that [OF rd32_at [OF r(1)] rd32_at [OF r(2)]] show ?thesis
    by metis
qed

lemma Resolve_super:
  "ResolveClass n sp s = (c, u) \<Longrightarrow> k < length (vm_class s) \<Longrightarrow> vm_class u ! k = vm_class s ! k \<and> k < length (vm_class u)"
  by (auto simp: ResolveClass_def Let_def nth_append split: option.splits)

lemma class_step_super:
  assumes "dex_class d h i s = (Inr (), t)" and "length d < 2 ^ 32" and "vm_classes s n = Some k" and "vm_ok s"
    and other: "\<And>cj tj. number_at d (classDefsOff h + 32 * i) 4 cj \<Longrightarrow> type_at d h cj tj \<Longrightarrow> class_name tj \<noteq> n"
  shows "cl_Super (vm_class t ! k) = cl_Super (vm_class s ! k)"
proof -
  obtain ci si ty c u where e: "number_at d (classDefsOff h + 32 * i) 4 ci" "type_at d h ci ty"
    "ResolveClass (class_name ty) None s = (c, u)" "vm_classes u (class_name ty) = Some c"
    "si = 0xffffffff \<and> t = u \<or>
      si \<noteq> 0xffffffff \<and> (\<exists>st e v. type_at d h si st \<and> ResolveClass (class_name st) None u = (e, v) \<and> vm_classes v (class_name st) = Some e \<and>
        t = upd_class c (\<lambda>k. k\<lparr>cl_Super := Some e\<rparr>) v)"
    by (rule class_entry [OF assms(1,2)]) blast
  have k: "k < length (vm_class s)" "cl_Name (vm_class s ! k) = n"
    using assms(3,4) by (auto simp: vm_ok_def classes_ok_def)
  have u: "vm_class u ! k = vm_class s ! k" "k < length (vm_class u)" "vm_ok u"
    using Resolve_super [OF e(3) k(1)] ResolveClass_ok [OF assms(4) e(3)] by auto
  have "cl_Name (vm_class u ! c) = class_name ty"
    using u(3) e(4) by (auto simp: vm_ok_def classes_ok_def)
  moreover have "class_name ty \<noteq> n"
    by (rule other [OF e(1,2)])
  ultimately have "c \<noteq> k"
    using u(1) k(2) by auto
  with e(5) show ?thesis
    using u Resolve_super [OF _ u(2)] by (auto simp: upd_class_def)
qed

lemma each_split:
  "each f n i m = (Inr (), m') \<Longrightarrow> k < n \<Longrightarrow>
   \<exists>s t. each f k i m = (Inr (), s) \<and> f (i + of_nat k) s = (Inr (), t) \<and> each f (n - Suc k) (i + of_nat k + 1) t = (Inr (), m')"
proof (induction n arbitrary: i k m)
  case (Suc n)
  obtain t where t: "f i m = (Inr (), t)" "each f n (i + 1) t = (Inr (), m')"
    using andthen_Inr [of "f i" "each f n (i + 1)" m] Suc.prems(1) by auto
  show ?case
  proof (cases k)
    case 0
    then show ?thesis using t by (simp add: Prelude.ret_def)
  next
    case (Suc l)
    then obtain a b where ab: "each f l (i + 1) t = (Inr (), a)" "f (i + 1 + of_nat l) a = (Inr (), b)"
        "each f (n - Suc l) (i + 1 + of_nat l + 1) b = (Inr (), m')"
      using Suc.IH [OF t(2), of l] Suc.prems(2) by auto
    have "each f k i m = (Inr (), a)"
      using ab(1) t(1) Suc by (simp add: andthen_def bnd_def)
    then show ?thesis
      using ab Suc by (auto simp: add.assoc add.left_commute)
  qed
qed simp

lemma class_grows: "dex_class d h i s = (Inr (), t) \<Longrightarrow> grows s t"
  by (rule grows_self [OF bodies_grow(3)])

lemma class_takes: "dex_class d h i s = (Inr (), t) \<Longrightarrow> room_for 0 s \<Longrightarrow> room_for 0 t"
  using takes_Inr [OF takes_dex_class [OF refl]] by blast

lemma tail_super:
  assumes "each (dex_class d h) n i s = (Inr (), m')" and "length d < 2 ^ 32" and "vm_classes s nm = Some k" and "room_for 0 s"
    and "\<And>l cj tj. l < n \<Longrightarrow> number_at d (classDefsOff h + 32 * (i + of_nat l)) 4 cj \<Longrightarrow> type_at d h cj tj \<Longrightarrow> class_name tj \<noteq> nm"
  shows "cl_Super (vm_class m' ! k) = cl_Super (vm_class s ! k)"
  using assms(1,3-5)
proof (induction n arbitrary: i s)
  case (Suc n)
  obtain t where t: "dex_class d h i s = (Inr (), t)" "each (dex_class d h) n (i + 1) t = (Inr (), m')"
    using andthen_Inr [of "dex_class d h i" "each (dex_class d h) n (i + 1)" s] Suc.prems(1) by auto
  have "cl_Super (vm_class t ! k) = cl_Super (vm_class s ! k)"
    using class_step_super [OF t(1) assms(2) Suc.prems(2)] Suc.prems(3) Suc.prems(4) [of 0] by (simp add: room_for_def)
  moreover have "vm_classes t nm = Some k"
    using LookupClass_grows [OF Suc.prems(2) class_grows [OF t(1)]] by (simp add: LookupClass_def)
  then have "cl_Super (vm_class m' ! k) = cl_Super (vm_class t ! k)"
  proof (rule Suc.IH [OF t(2) _ class_takes [OF t(1) Suc.prems(3)]])
    fix l cj tj
    assume "l < n" "number_at d (classDefsOff h + 32 * (i + 1 + of_nat l)) 4 cj" "type_at d h cj tj"
    then show "class_name tj \<noteq> nm"
      using Suc.prems(4) [of "Suc l" cj tj] by (simp add: add.assoc)
  qed
  ultimately show ?case by simp
qed (simp add: Prelude.ret_def)

lemma grows_length: "grows m m' \<Longrightarrow> c < length (vm_class m) \<Longrightarrow> c < length (vm_class m')"
  by (simp add: grows_def keeps_members_def)

lemma classes_entries:
  assumes "each (dex_class d h) (unat (classDefsSize h)) 0 s = (Inr (), m')" and "room_for 0 s" and "length d < 2 ^ 32"
    and "i < unat (classDefsSize h)"
  shows "class_known d h m' i"
proof -
  let ?n = "unat (classDefsSize h)"
  obtain a b where ab: "each (dex_class d h) i 0 s = (Inr (), a)" "dex_class d h (of_nat i) a = (Inr (), b)"
      "each (dex_class d h) (?n - Suc i) (of_nat i + 1) b = (Inr (), m')"
    using each_split [OF assms(1,4)] by auto
  have "takes (\<lambda>s. room_for 0 s) (each (dex_class d h) i 0) (\<lambda>_. room_for 0) (room_for 0)"
    using takes_each [of "\<lambda>_. room_for 0" "dex_class d h" "room_for 0" i 0, OF takes_dex_class [OF refl]] .
  from takes_Inr [OF this assms(2) ab(1)] have a: "room_for 0 a" .
  have b: "room_for 0 b"
    by (rule class_takes [OF ab(2) a])
  have g: "grows b m'"
    by (rule grows_self [OF each_keeps [OF bodies_grow(3)] ab(3)])
  obtain ci si ty c u where e: "number_at d (classDefsOff h + 32 * of_nat i) 4 ci" "number_at d (classDefsOff h + 32 * of_nat i + 8) 4 si"
    "type_at d h ci ty" "ResolveClass (class_name ty) None a = (c, u)" "vm_classes u (class_name ty) = Some c"
    "si = 0xffffffff \<and> b = u \<or>
      si \<noteq> 0xffffffff \<and> (\<exists>st e v. type_at d h si st \<and> ResolveClass (class_name st) None u = (e, v) \<and> vm_classes v (class_name st) = Some e \<and>
        b = upd_class c (\<lambda>k. k\<lparr>cl_Super := Some e\<rparr>) v)"
    by (rule class_entry [OF ab(2) assms(3)]) blast
  have cu: "c < length (vm_class u)"
    using ResolveClass_ok [OF _ e(4)] a by (simp add: room_for_def)
  have cb: "vm_classes b (class_name ty) = Some c"
  proof (cases "si = 0xffffffff")
    case True
    then show ?thesis using e(5,6) by simp
  next
    case False
    then obtain st x v where v: "ResolveClass (class_name st) None u = (x, v)" "b = upd_class c (\<lambda>k. k\<lparr>cl_Super := Some x\<rparr>) v"
      using e(6) by blast
    have "grows u v"
      using Resolve_grows [of u "class_name st" None] v(1) by simp
    then show ?thesis
      using LookupClass_grows [OF e(5)] v(2) by (simp add: upd_class_def LookupClass_def)
  qed
  have l: "LookupClass (class_name ty) m' = Some c"
    by (rule LookupClass_grows [OF cb g])
  have cl: "c < length (vm_class b)"
    using b cb by (auto simp: room_for_def vm_ok_def classes_ok_def)
  have "\<exists>st sc. type_at d h si st \<and> LookupClass (class_name st) m' = Some sc \<and>
        ((\<forall>j cj tj. i < j \<and> j < ?n \<and> number_at d (classDefsOff h + 32 * of_nat j) 4 cj \<and> type_at d h cj tj
            \<longrightarrow> class_name tj \<noteq> class_name ty) \<longrightarrow> cl_Super (vm_class m' ! c) = Some sc)" if si: "si \<noteq> 0xffffffff"
  proof -
    obtain st sc v where v: "type_at d h si st" "ResolveClass (class_name st) None u = (sc, v)"
        "vm_classes v (class_name st) = Some sc" "b = upd_class c (\<lambda>k. k\<lparr>cl_Super := Some sc\<rparr>) v"
      using e(6) si by blast
    have "vm_classes b (class_name st) = Some sc"
      using v(3,4) by (simp add: upd_class_def)
    then have 1: "LookupClass (class_name st) m' = Some sc"
      by (rule LookupClass_grows [OF _ g])
    have s: "cl_Super (vm_class b ! c) = Some sc"
      using v(4) cl by (auto simp: upd_class_def)
    have "cl_Super (vm_class m' ! c) = Some sc"
      if no: "\<forall>j cj tj. i < j \<and> j < ?n \<and> number_at d (classDefsOff h + 32 * of_nat j) 4 cj \<and> type_at d h cj tj
            \<longrightarrow> class_name tj \<noteq> class_name ty"
    proof -
      have "cl_Super (vm_class m' ! c) = cl_Super (vm_class b ! c)"
      proof (rule tail_super [OF ab(3) assms(3) cb b])
        fix k cj tj
        assume "k < ?n - Suc i" "number_at d (classDefsOff h + 32 * (of_nat i + 1 + of_nat k)) 4 cj" "type_at d h cj tj"
        then show "class_name tj \<noteq> class_name ty"
          using no [rule_format, of "i + 1 + k" cj tj] by (simp add: algebra_simps)
      qed
      then show ?thesis using s by simp
    qed
    then show ?thesis using v(1) 1 by blast
  qed
  then show ?thesis
    unfolding class_known_def using e(1-3) l grows_length [OF g cl] by blast
qed

subsection \<open>The whole load\<close>

lemma load_result:
  assumes h: "header_of d = Some h" and room: "room_for (unat (methodIdsSize h) + unat (fieldIdsSize h)) m"
    and l: "LoadDex d m = (r, m')"
  shows "vm_ok m' \<and> grows m m'"
proof -
  let ?X = "\<lambda>s. room_for 0 s"
  have "case (r, m') of (Inr v, t) \<Rightarrow> room_for 0 t | (Inl e, t) \<Rightarrow> room_for 0 t"
    using LoadDex_takes [of ?X, OF refl h, unfolded takes_def, rule_format, OF room] by (simp only: l)
  then have "vm_ok m'" by (cases r) (simp_all add: room_for_def)
  moreover have "keeps (grows m) (LoadDex d)"
    unfolding LoadDex_def by (intro keeps_if keeps_throw keeps_bnd keeps_need keeps_andthen each_keeps bodies_grow keeps_ret)
  then have "grows m m'" by (rule grows_self [of m "LoadDex d", OF _ l])
  ultimately show ?thesis ..
qed

lemma load_entries:
  assumes h: "header_of d = Some h" and room: "room_for (unat (methodIdsSize h) + unat (fieldIdsSize h)) m"
    and l: "LoadDex d m = (Inr n, m')" and len: "length d < 2 ^ 32"
  shows "n = classDefsSize h \<and> (\<forall>i < unat (methodIdsSize h). method_known d h m' (of_nat i)) \<and>
    (\<forall>i < unat (fieldIdsSize h). field_known d h m' (of_nat i)) \<and> (\<forall>i < unat (classDefsSize h). class_known d h m' i)"
proof -
  let ?M = "unat (methodIdsSize h)" and ?F = "unat (fieldIdsSize h)" and ?K = "each (dex_class d h) (unat (classDefsSize h)) 0"
  let ?C = "andthen ?K (Prelude.ret (classDefsSize h))" and ?X = "\<lambda>s. room_for 0 s"
  have "andthen (each (dex_method d h) ?M 0) (andthen (each (dex_field d h) ?F 0) ?C) m = (Inr n, m')"
    using l unfolding LoadDex_def h need_Some by (simp add: throw_def split: if_splits)
  then obtain m1 where s1: "each (dex_method d h) ?M 0 m = (Inr (), m1)" "andthen (each (dex_field d h) ?F 0) ?C m1 = (Inr n, m')"
    using andthen_Inr [of "each (dex_method d h) ?M 0" "andthen (each (dex_field d h) ?F 0) ?C" m n m'] by metis
  from s1(2) obtain m2 where s2: "each (dex_field d h) ?F 0 m1 = (Inr (), m2)" "?C m2 = (Inr n, m')"
    using andthen_Inr [of "each (dex_field d h) ?F 0" ?C m1 n m'] by metis
  have s3: "?K m2 = (Inr (), m')" "n = classDefsSize h"
    using andthen_Inr [OF s2(2)] by (auto simp: Prelude.ret_def)
  have g2: "grows m2 m'" by (rule grows_self [of m2 ?K, OF each_keeps [OF bodies_grow(3)] s3(1)])
  have g1: "grows m1 m'" by (rule grows_trans [OF grows_self [of m1 "each (dex_field d h) ?F 0", OF each_keeps [OF bodies_grow(2)] s2(1)] g2])
  have "takes (room_for (?M + ?F)) (each (dex_method d h) ?M 0) (\<lambda>_. room_for ?F) ?X"
    by (rule takes_each) (rule takes_members(1) [OF refl])
  from takes_Inr [OF this room s1(1)] have r1: "room_for (?F + 0) m1" by simp
  have "takes (room_for (?F + 0)) (each (dex_field d h) ?F 0) (\<lambda>_. room_for 0) ?X"
    by (rule takes_each) (rule takes_members(2) [OF refl])
  from takes_Inr [OF this r1 s2(1)] have r2: "room_for 0 m2" .
  have "method_known d h m' (of_nat i)" if i: "i < ?M" for i
  proof -
    obtain a b where "dex_method d h (0 + of_nat i) a = (Inr (), b)" "grows b m1" "vm_ok a"
      using each_done [OF bodies_grow(1) takes_members(1) [OF refl] s1(1) room i] by blast
    then show ?thesis using method_entry [of d h "of_nat i" a b m'] grows_trans [OF _ g1, of b] len by simp
  qed
  moreover have "field_known d h m' (of_nat i)" if i: "i < ?F" for i
  proof -
    obtain a b where "dex_field d h (0 + of_nat i) a = (Inr (), b)" "grows b m2" "vm_ok a"
      using each_done [OF bodies_grow(2) takes_members(2) [OF refl] s2(1) r1 i] by blast
    then show ?thesis using field_entry [of d h "of_nat i" a b m'] grows_trans [OF _ g2, of b] len by simp
  qed
  ultimately show ?thesis using s3(2) classes_entries [OF s3(1) r2 len] by blast
qed

text \<open>
  C29: loading any bytes as a DEX file leaves the VM well formed and forgets nothing that was registered,
  also when the file is malformed and the load stops halfway. After a load that succeeds (of less than
  4 GiB) the result is the class count in the file's header, and every entry of the file's method, field
  and class tables, read off its bytes, is registered: the entry's class is found by name, it has the
  method or field of the entry's name and signature, and a class definition's superclass is its superclass.
\<close>
theorem load_dex:
  assumes "vm_ok m" and "counts m (case header_of d of None \<Rightarrow> 0 | Some h \<Rightarrow> unat (methodIdsSize h) + unat (fieldIdsSize h))"
    and "LoadDex d m = (r, m')"
  shows "vm_ok m' \<and> grows m m' \<and> (\<forall>n. r = Inr n \<and> length d < 2 ^ 32 \<longrightarrow> (\<exists>h. header_at d h \<and> n = classDefsSize h \<and>
    (\<forall>i < unat (methodIdsSize h). method_known d h m' (of_nat i)) \<and>
    (\<forall>i < unat (fieldIdsSize h). field_known d h m' (of_nat i)) \<and>
    (\<forall>i < unat (classDefsSize h). class_known d h m' i)))"
proof (cases "header_of d")
  case None
  then have "m' = m" "\<exists>e. r = Inl e"
    using assms(3) by (auto simp: LoadDex_def bnd_def need_def throw_def split: if_splits)
  then show ?thesis using assms(1) by auto
next
  case (Some h)
  have room: "room_for (unat (methodIdsSize h) + unat (fieldIdsSize h)) m"
    using assms(1,2) Some by (simp add: room_for_def)
  show ?thesis
    using load_result [OF Some room assms(3)] load_entries [OF Some room] header_of_at [OF Some] assms(3) by blast
qed

text \<open>A file of one class \<open>A\<close> with one method \<open>f()V\<close>.\<close>

definition tiny_dex :: "u8 list" where
  "tiny_dex = map of_char ''dex'' @ [0x0a] @ replicate 52 0 @
     concat (map (le_bytes 4) [3, 112, 2, 124, 1, 132, 0, 0, 1, 144, 1, 152, 0, 0, 184, 189, 192, 0, 2, 2, 1, 0]) @
     le_bytes 2 0 @ le_bytes 2 0 @
     concat (map (le_bytes 4) [1, 0, 0, 0xffffffff, 0, 0, 0, 0, 0]) @
     [3] @ map of_char ''LA;'' @ [0, 1] @ map of_char ''f'' @ [0, 1] @ map of_char ''V'' @ [0]"

lemma tiny_header: "map_option (\<lambda>h. (unat (methodIdsSize h), unat (fieldIdsSize h))) (header_of tiny_dex) = Some (1, 0)"
  by code_simp

lemma tiny_loads: "fst (LoadDex tiny_dex (NewVM :: nat vm)) = Inr 1"
  by code_simp

theorem load_dex_witness:
  "let m = snd (LoadDex tiny_dex (NewVM :: nat vm)) in vm_ok m \<and>
     (\<exists>h. header_at tiny_dex h \<and> method_known tiny_dex h m 0 \<and> class_known tiny_dex h m 0)"
proof -
  obtain h where h: "header_of tiny_dex = Some h" "unat (methodIdsSize h) = 1" "unat (fieldIdsSize h) = 0"
    using tiny_header by (cases "header_of tiny_dex") auto
  obtain r m' where l: "LoadDex tiny_dex (NewVM :: nat vm) = (r, m')" by force
  have r: "r = Inr 1" using tiny_loads l by simp
  have c: "counts (NewVM :: nat vm) (case header_of tiny_dex of None \<Rightarrow> 0
      | Some h \<Rightarrow> unat (methodIdsSize h) + unat (fieldIdsSize h))"
    using h by (simp add: counts_def NewVM_def)
  have len: "length tiny_dex < 2 ^ 32"
    by (simp add: tiny_dex_def)
  obtain k where k: "vm_ok m'" "header_at tiny_dex k" "1 = classDefsSize k"
      "\<forall>i < unat (methodIdsSize k). method_known tiny_dex k m' (of_nat i)"
      "\<forall>i < unat (classDefsSize k). class_known tiny_dex k m' i"
    using load_dex [OF NewVM_ok c l] r len by auto
  have "methodIdsSize k = methodIdsSize h"
    using k(2) header_of_at [OF h(1)] by (simp add: header_at_def number_at_def word_unat_eq_iff)
  then have "unat (methodIdsSize k) = 1" "unat (classDefsSize k) = 1"
    using h(2) k(3) by simp_all
  then have "method_known tiny_dex k m' 0" "class_known tiny_dex k m' 0"
    using k(4) [rule_format, of 0] k(5) [rule_format, of 0] by simp_all
  then show ?thesis
    using k(1,2) unfolding l Let_def snd_conv by blast
qed

end
