(* ===== verification/Emu_State.thy ===== *)
theory Emu_State
  imports Vfs Linker Dvm
begin

text \<open>
  The emulator (emulator/emulator.go, emulator/api.go): its state and the operations on guest memory,
  stubs and symbols that everything above uses. The record \<open>emu\<close> is \<open>Emulator\<close>: \<open>e_k\<close> holds the kernel
  context with the states of the backend and of the address space (\<open>e.kctx\<close>, \<open>e.be\<close>, \<open>e.mem\<close>), \<open>e_vm\<close>
  the Dalvik VM. A pointer to a fiber is its position in \<open>e_fibers\<close>, which only grows between restores. A
  \<open>hostFn\<close> is one of the functions of hostfns.go, or a function the embedding program has installed,
  which is a parameter, as are its JNI handler, its property provider, and what the standard library reads
  of an ELF file. Printing is left out. Errors are \<open>None\<close> or \<open>False\<close>, their texts are not modelled.
\<close>

subsection \<open>The state\<close>

datatype host_fn = Getauxval | PthreadCreate | PthreadJoin | Ret0 | SystemPropertyGet

datatype fiber_state = FsRunnable | FsWaiting | FsSleeping | FsParked | FsDone

datatype yield_reason = YieldNone | YieldPreempt | YieldFutexWait | YieldSleep

record 'x fiber =
  fb_id :: nat
  fb_routine :: u64
  fb_arg :: u64
  fb_sp :: u64
  fb_started :: bool
  fb_ctx :: "'x option"
  fb_state :: fiber_state
  fb_waitAddr :: u64
  fb_slices :: nat
  fb_ret :: u64

record module =
  md_Name :: string
  md_Base :: u64
  md_Img :: image

record ('b, 'x, 'h, 'r, 'p) emu =
  e_k :: "('b, 'h, 'r) kernel"
  e_vm :: "'p vm"
  e_closed :: bool
  e_modules :: "module list"
  e_main :: "module option"
  e_syms :: "string \<rightharpoonup> u64"
  e_nextBase :: u64
  e_nextStub :: u64
  e_stubs :: "u64 \<rightharpoonup> string"
  e_stubHits :: "string \<Rightarrow> nat"
  e_scCount :: nat
  e_jniEnv :: u64
  e_javaVM :: u64
  e_getEnvStub :: u64
  e_jniDispatch :: "u64 \<rightharpoonup> nat"
  e_classRefs :: "string \<rightharpoonup> ref"
  e_classMeta :: nat
  e_natives :: "string \<rightharpoonup> u64"
  e_methods :: "ref \<rightharpoonup> nat \<times> member"
  e_fields :: "ref \<rightharpoonup> nat \<times> member"
  e_staticFields :: "string \<rightharpoonup> u64"
  e_classFilter :: "string set option"
  e_arrayPins :: "u64 \<rightharpoonup> ref"
  e_pendingExc :: bool
  e_hostByName :: "string \<rightharpoonup> host_fn"
  e_hostImpl :: "u64 \<rightharpoonup> host_fn"
  e_replaced :: "u64 \<rightharpoonup> nat"
  e_atRandom :: u64
  e_fibers :: "'x fiber list"
  e_curFiber :: "nat option"
  e_nextFiberID :: nat
  e_threadCap :: nat
  e_threadOps :: nat
  e_yieldReason :: yield_reason
  e_yieldAddr :: u64

text \<open>
  The JNI handler of the embedding program (\<open>dvm.Jni\<close>): each callback gets pointers to classes and objects,
  the lookup string and the arguments, and may change the VM.
\<close>

record 'p jni =
  AcceptMethod :: "nat \<Rightarrow> string \<Rightarrow> bool \<Rightarrow> 'p vm \<Rightarrow> bool \<times> 'p vm"
  CallObjectMethodV :: "nat \<Rightarrow> string \<Rightarrow> u64 list \<Rightarrow> 'p vm \<Rightarrow> nat option \<times> 'p vm"
  CallBooleanMethodV :: "nat \<Rightarrow> string \<Rightarrow> u64 list \<Rightarrow> 'p vm \<Rightarrow> bool \<times> 'p vm"
  CallIntMethodV :: "nat \<Rightarrow> string \<Rightarrow> u64 list \<Rightarrow> 'p vm \<Rightarrow> u32 \<times> 'p vm"
  CallLongMethodV :: "nat \<Rightarrow> string \<Rightarrow> u64 list \<Rightarrow> 'p vm \<Rightarrow> u64 \<times> 'p vm"
  CallVoidMethodV :: "nat \<Rightarrow> string \<Rightarrow> u64 list \<Rightarrow> 'p vm \<Rightarrow> 'p vm"
  CallStaticObjectMethodV :: "nat \<Rightarrow> string \<Rightarrow> u64 list \<Rightarrow> 'p vm \<Rightarrow> nat option \<times> 'p vm"
  CallStaticIntMethodV :: "nat \<Rightarrow> string \<Rightarrow> u64 list \<Rightarrow> 'p vm \<Rightarrow> u32 \<times> 'p vm"
  CallStaticVoidMethodV :: "nat \<Rightarrow> string \<Rightarrow> u64 list \<Rightarrow> 'p vm \<Rightarrow> 'p vm"
  GetObjectField :: "nat \<Rightarrow> string \<Rightarrow> 'p vm \<Rightarrow> nat option \<times> 'p vm"
  GetIntField :: "nat \<Rightarrow> string \<Rightarrow> 'p vm \<Rightarrow> u32 \<times> 'p vm"
  GetLongField :: "nat \<Rightarrow> string \<Rightarrow> 'p vm \<Rightarrow> u64 \<times> 'p vm"
  GetBooleanField :: "nat \<Rightarrow> string \<Rightarrow> 'p vm \<Rightarrow> bool \<times> 'p vm"
  SetObjectField :: "nat \<Rightarrow> string \<Rightarrow> nat option \<Rightarrow> 'p vm \<Rightarrow> 'p vm"
  GetStaticObjectField :: "nat \<Rightarrow> string \<Rightarrow> 'p vm \<Rightarrow> nat option \<times> 'p vm"
  GetStaticIntField :: "nat \<Rightarrow> string \<Rightarrow> 'p vm \<Rightarrow> u32 \<times> 'p vm"
  GetStaticLongField :: "nat \<Rightarrow> string \<Rightarrow> 'p vm \<Rightarrow> u64 \<times> 'p vm"
  NewObjectV :: "nat \<Rightarrow> string \<Rightarrow> u64 list \<Rightarrow> 'p vm \<Rightarrow> nat option \<times> 'p vm"

text \<open>\<open>AbstractJni\<close>: every call answers null, zero or false.\<close>

definition AbstractJni :: "'p jni" where
  "AbstractJni = \<lparr>AcceptMethod = (\<lambda>_ _ _ m. (True, m)), CallObjectMethodV = (\<lambda>_ _ _ m. (None, m)),
     CallBooleanMethodV = (\<lambda>_ _ _ m. (False, m)), CallIntMethodV = (\<lambda>_ _ _ m. (0, m)), CallLongMethodV = (\<lambda>_ _ _ m. (0, m)),
     CallVoidMethodV = (\<lambda>_ _ _ m. m), CallStaticObjectMethodV = (\<lambda>_ _ _ m. (None, m)),
     CallStaticIntMethodV = (\<lambda>_ _ _ m. (0, m)), CallStaticVoidMethodV = (\<lambda>_ _ _ m. m),
     GetObjectField = (\<lambda>_ _ m. (None, m)), GetIntField = (\<lambda>_ _ m. (0, m)), GetLongField = (\<lambda>_ _ m. (0, m)),
     GetBooleanField = (\<lambda>_ _ m. (False, m)), SetObjectField = (\<lambda>_ _ _ m. m),
     GetStaticObjectField = (\<lambda>_ _ m. (None, m)), GetStaticIntField = (\<lambda>_ _ m. (0, m)), GetStaticLongField = (\<lambda>_ _ m. (0, m)),
     NewObjectV = (\<lambda>_ _ _ m. (None, m))\<rparr>"

text \<open>
  What does not change: the kernel's environment with the backend's operations, and the embedding program:
  its JNI handler, the functions it gave to \<open>Replace\<close>, its property provider, and the files of
  \<open>LoadModule\<close>. \<open>ee_Start\<close> runs the guest: it stands for \<open>Start\<close> of the backend with the interrupt hook
  installed, which works on the whole emulator; \<open>None\<close> when it does not return.
\<close>

record ('b, 'x, 'h, 'r, 'p) eenv =
  ee_K :: "('b, 'x, 'h, 'r) kenv"
  ee_jni :: "'p jni"
  ee_user :: "nat \<Rightarrow> ('b, 'x, 'h, 'r, 'p) emu \<Rightarrow> u64 \<times> ('b, 'x, 'h, 'r, 'p) emu"
  ee_property :: "(string \<Rightarrow> string option) option"
  ee_Start :: "u64 \<Rightarrow> u64 \<Rightarrow> ('b, 'x, 'h, 'r, 'p) emu \<Rightarrow> (bool \<times> ('b, 'x, 'h, 'r, 'p) emu) option"
  ee_Parse :: "string \<Rightarrow> image option"
  ee_ReadFile :: "string \<Rightarrow> u8 list option"

text \<open>The literal of \<open>New\<close>, with the class of classes.\<close>

definition fresh_emu :: "('b, 'h, 'r) kernel \<Rightarrow> ('b, 'x, 'h, 'r, 'p) emu" where
  "fresh_emu k =
     (let (c, m) = ResolveClass ''java/lang/Class'' None NewVM
      in \<lparr>e_k = k, e_vm = m, e_closed = False, e_modules = [], e_main = None, e_syms = Map.empty, e_nextBase = 0x12000000,
          e_nextStub = 0x60000000, e_stubs = Map.empty, e_stubHits = (\<lambda>_. 0), e_scCount = 0, e_jniEnv = 0, e_javaVM = 0,
          e_getEnvStub = 0, e_jniDispatch = Map.empty, e_classRefs = Map.empty, e_classMeta = c, e_natives = Map.empty,
          e_methods = Map.empty, e_fields = Map.empty, e_staticFields = Map.empty, e_classFilter = None,
          e_arrayPins = Map.empty, e_pendingExc = False, e_hostByName = Map.empty, e_hostImpl = Map.empty,
          e_replaced = Map.empty, e_atRandom = 0, e_fibers = [], e_curFiber = None, e_nextFiberID = 0, e_threadCap = 0,
          e_threadOps = 0, e_yieldReason = YieldNone, e_yieldAddr = 0\<rparr>)"

abbreviation (input) moduleBase :: u64 where "moduleBase \<equiv> 0x12000000"
abbreviation (input) stubBase :: u64 where "stubBase \<equiv> 0x60000000"
abbreviation (input) stubSize :: u64 where "stubSize \<equiv> 0x00100000"
abbreviation (input) stackBase :: u64 where "stackBase \<equiv> 0xC0000000"
abbreviation (input) stackSize :: u64 where "stackSize \<equiv> 0x00800000"
abbreviation (input) tlsBase :: u64 where "tlsBase \<equiv> 0xD0000000"
abbreviation (input) tlsSize :: u64 where "tlsSize \<equiv> 0x00010000"
abbreviation (input) sentinel :: u64 where "sentinel \<equiv> 0xFFFFFF00"

subsection \<open>Registers and memory\<close>

type_synonym ('b, 'x, 'h, 'r, 'p) emu_step = "('b, 'x, 'h, 'r, 'p) emu \<Rightarrow> ('b, 'x, 'h, 'r, 'p) emu"

abbreviation be_of :: "('b, 'x, 'h, 'r, 'p) eenv \<Rightarrow> ('b, 'x) backend" where
  "be_of E \<equiv> ke_B (ee_K E)"

text \<open>An operation of the backend; \<open>True\<close> is success.\<close>

definition with_be :: "('b \<Rightarrow> bool \<times> 'b) \<Rightarrow> ('b, 'x, 'h, 'r, 'p) emu \<Rightarrow> bool \<times> ('b, 'x, 'h, 'r, 'p) emu" where
  "with_be f e = (case on_be f (e_k e) of (ok, k) \<Rightarrow> (ok, e\<lparr>e_k := k\<rparr>))"

text \<open>\<open>v, _ := RegRead(r)\<close> and \<open>_ = RegWrite(r, v)\<close>.\<close>

definition reg :: "('b, 'x, 'h, 'r, 'p) eenv \<Rightarrow> nat \<Rightarrow> ('b, 'x, 'h, 'r, 'p) emu \<Rightarrow> u64" where
  "reg E r e = reg_or_zero (ee_K E) r (e_k e)"

definition set_reg :: "('b, 'x, 'h, 'r, 'p) eenv \<Rightarrow> nat \<Rightarrow> u64 \<Rightarrow> ('b, 'x, 'h, 'r, 'p) emu_step" where
  "set_reg E r v e = snd (with_be (RegWrite (be_of E) r v) e)"

definition ReadBytes :: "('b, 'x, 'h, 'r, 'p) eenv \<Rightarrow> u64 \<Rightarrow> u64 \<Rightarrow> ('b, 'x, 'h, 'r, 'p) emu \<Rightarrow> u8 list option" where
  "ReadBytes E addr n e = kread (ee_K E) addr n (e_k e)"

definition WriteBytes :: "('b, 'x, 'h, 'r, 'p) eenv \<Rightarrow> u64 \<Rightarrow> u8 list \<Rightarrow> ('b, 'x, 'h, 'r, 'p) emu \<Rightarrow> bool \<times> ('b, 'x, 'h, 'r, 'p) emu" where
  "WriteBytes E addr bs e = with_be (MemWrite (be_of E) addr bs) e"

text \<open>A write whose error is dropped.\<close>

definition poke_mem :: "('b, 'x, 'h, 'r, 'p) eenv \<Rightarrow> u64 \<Rightarrow> u8 list \<Rightarrow> ('b, 'x, 'h, 'r, 'p) emu_step" where
  "poke_mem E addr bs e = snd (WriteBytes E addr bs e)"

definition putU64 :: "('b, 'x, 'h, 'r, 'p) eenv \<Rightarrow> u64 \<Rightarrow> u64 \<Rightarrow> ('b, 'x, 'h, 'r, 'p) emu \<Rightarrow> bool \<times> ('b, 'x, 'h, 'r, 'p) emu" where
  "putU64 E addr v e = WriteBytes E addr (le_bytes 8 v) e"

definition ReadU64 :: "('b, 'x, 'h, 'r, 'p) eenv \<Rightarrow> u64 \<Rightarrow> ('b, 'x, 'h, 'r, 'p) emu \<Rightarrow> u64 option" where
  "ReadU64 E addr e = map_option le_val (ReadBytes E addr 8 e)"

definition ReadU32 :: "('b, 'x, 'h, 'r, 'p) eenv \<Rightarrow> u64 \<Rightarrow> ('b, 'x, 'h, 'r, 'p) emu \<Rightarrow> u32 option" where
  "ReadU32 E addr e = map_option (\<lambda>bs. ucast (le_val bs)) (ReadBytes E addr 4 e)"

definition WriteU32 :: "('b, 'x, 'h, 'r, 'p) eenv \<Rightarrow> u64 \<Rightarrow> u32 \<Rightarrow> ('b, 'x, 'h, 'r, 'p) emu \<Rightarrow> bool \<times> ('b, 'x, 'h, 'r, 'p) emu" where
  "WriteU32 E addr v e = WriteBytes E addr (le_bytes 4 (ucast v)) e"

definition WriteCString :: "('b, 'x, 'h, 'r, 'p) eenv \<Rightarrow> u64 \<Rightarrow> string \<Rightarrow> ('b, 'x, 'h, 'r, 'p) emu \<Rightarrow> bool \<times> ('b, 'x, 'h, 'r, 'p) emu" where
  "WriteCString E addr s e = WriteBytes E addr (bytes_of s @ [0]) e"

definition Alloc :: "('b, 'x, 'h, 'r, 'p) eenv \<Rightarrow> u64 \<Rightarrow> u64 \<Rightarrow> ('b, 'x, 'h, 'r, 'p) emu \<Rightarrow> u64 \<times> ('b, 'x, 'h, 'r, 'p) emu" where
  "Alloc E sz prot e =
     (let (a, s) = Mmap sz (sint prot) ''alloc'' (k_mem (e_k e)); e = e\<lparr>e_k := (e_k e)\<lparr>k_mem := s\<rparr>\<rparr>
      in (a, snd (with_be (MemMap (be_of E) a (pageUp sz) prot) e)))"

definition Malloc :: "('b, 'x, 'h, 'r, 'p) eenv \<Rightarrow> u64 \<Rightarrow> ('b, 'x, 'h, 'r, 'p) emu \<Rightarrow> u64 \<times> ('b, 'x, 'h, 'r, 'p) emu" where
  "Malloc E sz e = Alloc E sz (ProtRead OR ProtWrite) e"

definition WriteScratch :: "('b, 'x, 'h, 'r, 'p) eenv \<Rightarrow> u8 list \<Rightarrow> ('b, 'x, 'h, 'r, 'p) emu \<Rightarrow> u64 \<times> ('b, 'x, 'h, 'r, 'p) emu" where
  "WriteScratch E bs e = (let (a, e) = Alloc E (of_nat (length bs) + 16) (ProtRead OR ProtWrite) e in (a, poke_mem E a bs e))"

definition WriteCStringAlloc :: "('b, 'x, 'h, 'r, 'p) eenv \<Rightarrow> string \<Rightarrow> ('b, 'x, 'h, 'r, 'p) emu \<Rightarrow> u64 \<times> ('b, 'x, 'h, 'r, 'p) emu" where
  "WriteCStringAlloc E s e = WriteScratch E (bytes_of s @ [0]) e"

text \<open>
  \<open>ReadCStr\<close> reads 64 bytes at a time and fails when a block does not read. More than 2^20 bytes without a
  terminator end it, so 16386 rounds are enough.
\<close>

fun cstr_blocks :: "nat \<Rightarrow> ('b, 'x, 'h, 'r, 'p) eenv \<Rightarrow> u64 \<Rightarrow> u8 list \<Rightarrow> ('b, 'x, 'h, 'r, 'p) emu \<Rightarrow> u8 list option" where
  "cstr_blocks 0 E addr out e = Some out"
| "cstr_blocks (Suc n) E addr out e =
     (case ReadBytes E (addr + of_nat (length out)) 64 e of
        None \<Rightarrow> None
      | Some b \<Rightarrow>
          let out' = out @ takeWhile (\<lambda>c. c \<noteq> 0) b
          in if 0 \<in> set b then Some out' else if length out' > 0x100000 then Some out' else cstr_blocks n E addr out' e)"

definition ReadCStr :: "('b, 'x, 'h, 'r, 'p) eenv \<Rightarrow> u64 \<Rightarrow> ('b, 'x, 'h, 'r, 'p) emu \<Rightarrow> string option" where
  "ReadCStr E addr e = map_option (map (\<lambda>b. char_of (unat b))) (cstr_blocks 16386 E addr [] e)"

text \<open>\<open>s, _ := ReadCStr(addr)\<close>\<close>

definition c_str :: "('b, 'x, 'h, 'r, 'p) eenv \<Rightarrow> u64 \<Rightarrow> ('b, 'x, 'h, 'r, 'p) emu \<Rightarrow> string" where
  "c_str E addr e = (case ReadCStr E addr e of None \<Rightarrow> '''' | Some s \<Rightarrow> s)"

subsection \<open>Stubs and symbols\<close>

text \<open>\<open>svc #0 ; ret\<close>\<close>

abbreviation svc_ret :: "u8 list" where
  "svc_ret \<equiv> [0x01, 0x00, 0x00, 0xd4, 0xc0, 0x03, 0x5f, 0xd6]"

definition makeStub :: "('b, 'x, 'h, 'r, 'p) eenv \<Rightarrow> string \<Rightarrow> ('b, 'x, 'h, 'r, 'p) emu \<Rightarrow> u64 \<times> ('b, 'x, 'h, 'r, 'p) emu" where
  "makeStub E name e =
     (let a = e_nextStub e; e = poke_mem E a svc_ret (e\<lparr>e_nextStub := a + 8\<rparr>)
      in (a, e\<lparr>e_stubs := (e_stubs e)(a \<mapsto> name)\<rparr>))"

definition resolveSymbol ::
  "('b, 'x, 'h, 'r, 'p) eenv \<Rightarrow> string \<Rightarrow> bool \<Rightarrow> ('b, 'x, 'h, 'r, 'p) emu \<Rightarrow> u64 option \<times> ('b, 'x, 'h, 'r, 'p) emu" where
  "resolveSymbol E name weak e =
     (case e_hostByName e name of
        Some fn \<Rightarrow> (let (a, e) = makeStub E (''host:'' @ name) e in (Some a, e\<lparr>e_hostImpl := (e_hostImpl e)(a \<mapsto> fn)\<rparr>))
      | None \<Rightarrow>
          (case e_syms e name of
             Some a \<Rightarrow> (Some a, e)
           | None \<Rightarrow> if weak then (None, e) else (let (a, e) = makeStub E name e in (Some a, e))))"

definition Sym :: "string \<Rightarrow> ('b, 'x, 'h, 'r, 'p) emu \<Rightarrow> u64 option" where
  "Sym name e = e_syms e name"

text \<open>\<open>Replace\<close> overwrites the entry of a function with the trampoline.\<close>

definition Replace :: "('b, 'x, 'h, 'r, 'p) eenv \<Rightarrow> u64 \<Rightarrow> nat \<Rightarrow> ('b, 'x, 'h, 'r, 'p) emu_step" where
  "Replace E addr fn e =
     snd (with_be (FlushCache (be_of E)) (poke_mem E addr svc_ret (e\<lparr>e_replaced := (e_replaced e)(addr \<mapsto> fn)\<rparr>)))"

definition ReplaceSymbol :: "('b, 'x, 'h, 'r, 'p) eenv \<Rightarrow> string \<Rightarrow> nat \<Rightarrow> ('b, 'x, 'h, 'r, 'p) emu \<Rightarrow> bool \<times> ('b, 'x, 'h, 'r, 'p) emu" where
  "ReplaceSymbol E name fn e = (case Sym name e of None \<Rightarrow> (False, e) | Some a \<Rightarrow> (True, Replace E a fn e))"

subsection \<open>The JNI tables\<close>

definition env_slot :: "('b, 'x, 'h, 'r, 'p) eenv \<Rightarrow> u64 \<Rightarrow> nat \<Rightarrow> ('b, 'x, 'h, 'r, 'p) emu_step" where
  "env_slot E tb i e =
     (let (stub, e) = makeStub E (''JNIEnv['' @ format_d (int i) @ '']'') e;
          e = e\<lparr>e_jniDispatch := (e_jniDispatch e)(stub \<mapsto> i)\<rparr>
      in snd (putU64 E (tb + of_nat i * 8) stub e))"

definition vm_slot :: "('b, 'x, 'h, 'r, 'p) eenv \<Rightarrow> u64 \<Rightarrow> nat \<Rightarrow> ('b, 'x, 'h, 'r, 'p) emu_step" where
  "vm_slot E tb i e =
     (let (stub, e) = makeStub E (''JavaVM['' @ format_d (int i) @ '']'') e in snd (putU64 E (tb + of_nat i * 8) stub e))"

definition SetupJNI :: "('b, 'x, 'h, 'r, 'p) eenv \<Rightarrow> ('b, 'x, 'h, 'r, 'p) emu \<Rightarrow> u64 \<times> ('b, 'x, 'h, 'r, 'p) emu" where
  "SetupJNI E e =
     (let (envTable, e) = Alloc E (256 * 8) (ProtRead OR ProtWrite) e;
          e = fold (env_slot E envTable) [0..<256] e;
          (envPtr, e) = Alloc E 8 (ProtRead OR ProtWrite) e;
          e = snd (putU64 E envPtr envTable e);
          e = e\<lparr>e_jniEnv := envPtr\<rparr>;
          (vmTable, e) = Alloc E (16 * 8) (ProtRead OR ProtWrite) e;
          e = fold (vm_slot E vmTable) [0..<16] e;
          (stub, e) = makeStub E ''JavaVM!GetEnv'' e;
          e = e\<lparr>e_getEnvStub := stub\<rparr>;
          e = snd (putU64 E (vmTable + 6 * 8) stub e);
          e = snd (putU64 E (vmTable + 4 * 8) stub e);
          e = snd (putU64 E (vmTable + 7 * 8) stub e);
          (vmPtr, e) = Alloc E 8 (ProtRead OR ProtWrite) e;
          e = snd (putU64 E vmPtr vmTable e)
      in (vmPtr, e\<lparr>e_javaVM := vmPtr\<rparr>))"

definition JavaVM :: "('b, 'x, 'h, 'r, 'p) eenv \<Rightarrow> ('b, 'x, 'h, 'r, 'p) emu \<Rightarrow> u64 \<times> ('b, 'x, 'h, 'r, 'p) emu" where
  "JavaVM E e = (let e = (if e_javaVM e = 0 then snd (SetupJNI E e) else e) in (e_javaVM e, e))"

definition JNIEnv :: "('b, 'x, 'h, 'r, 'p) eenv \<Rightarrow> ('b, 'x, 'h, 'r, 'p) emu \<Rightarrow> u64 \<times> ('b, 'x, 'h, 'r, 'p) emu" where
  "JNIEnv E e = (let e = (if e_jniEnv e = 0 then snd (SetupJNI E e) else e) in (e_jniEnv e, e))"

subsection \<open>Loading modules\<close>

text \<open>
  \<open>Apply\<close> with \<open>resolveSymbol\<close> for the resolver, which makes stubs as it goes: the second step of the
  linker with its state threaded through; the first and third are those of theory Linker.
\<close>

definition lift_be :: "('b \<Rightarrow> 'a \<times> 'b) \<Rightarrow> ('b, 'x, 'h, 'r, 'p) emu \<Rightarrow> 'a \<times> ('b, 'x, 'h, 'r, 'p) emu" where
  "lift_be f e = (case f (k_be (e_k e)) of (v, b) \<Rightarrow> (v, e\<lparr>e_k := (e_k e)\<lparr>k_be := b\<rparr>\<rparr>))"

definition sym_value ::
  "('b, 'x, 'h, 'r, 'p) eenv \<Rightarrow> image \<Rightarrow> u32 \<Rightarrow> u64 \<Rightarrow> ('b, 'x, 'h, 'r, 'p) emu \<Rightarrow> (load_err + u64) \<times> ('b, 'x, 'h, 'r, 'p) emu" where
  "sym_value E img idx base e =
     (if unat idx \<ge> length (im_syms img) then (Inl (BadSymIndex idx), e)
      else let s = im_syms img ! unat idx
           in if \<not> sy_undef s then (Inr (if sy_absolute s then sy_value s else base + sy_value s), e)
              else let weak = (sy_bind s = STB_WEAK)
                   in case resolveSymbol E (sy_name s) weak e of
                        (Some v, e) \<Rightarrow> (Inr v, e)
                      | (None, e) \<Rightarrow> if weak then (Inr 0, e) else (Inl (Unresolved (sy_name s)), e))"

definition reloc_val ::
  "('b, 'x, 'h, 'r, 'p) eenv \<Rightarrow> image \<Rightarrow> u64 \<Rightarrow> reloc \<Rightarrow> ('b, 'x, 'h, 'r, 'p) emu \<Rightarrow> (load_err + u64) \<times> ('b, 'x, 'h, 'r, 'p) emu" where
  "reloc_val E img base r e =
     (if rl_type r = R_RELATIVE then (Inr (base + rl_addend r), e)
      else if rl_type r \<in> {R_GLOB_DAT, R_JUMP_SLOT, R_ABS64} then
        (case sym_value E img (rl_sym r) base e of (Inl x, e) \<Rightarrow> (Inl x, e) | (Inr v, e) \<Rightarrow> (Inr (v + rl_addend r), e))
      else (Inl (UnhandledReloc (rl_type r) (rl_offset r)), e))"

fun relocate_all ::
  "('b, 'x, 'h, 'r, 'p) eenv \<Rightarrow> image \<Rightarrow> u64 \<Rightarrow> reloc list \<Rightarrow> ('b, 'x, 'h, 'r, 'p) emu
    \<Rightarrow> load_err option option \<times> ('b, 'x, 'h, 'r, 'p) emu" where
  "relocate_all E img base [] e = (None, e)"
| "relocate_all E img base (r # rs) e =
     (case reloc_val E img base r e of
        (Inl x, e) \<Rightarrow> (Some (Some x), e)
      | (Inr v, e) \<Rightarrow>
          (case putU64 E (base + rl_offset r) v e of
             (False, e) \<Rightarrow> (Some (Some (WriteFailed (base + rl_offset r))), e)
           | (True, e) \<Rightarrow> relocate_all E img base rs e))"

definition link_image ::
  "('b, 'x, 'h, 'r, 'p) eenv \<Rightarrow> image \<Rightarrow> u64 \<Rightarrow> u8 list option \<Rightarrow> ('b, 'x, 'h, 'r, 'p) emu
    \<Rightarrow> load_err option option \<times> ('b, 'x, 'h, 'r, 'p) emu" where
  "link_image E img base file e =
     (case file of
        None \<Rightarrow> (Some (Some ReadFile), e)
      | Some raw \<Rightarrow>
          (case lift_be (map_segments (be_of E) base raw (im_segments img)) e of
             (Some x, e) \<Rightarrow> (Some x, e)
           | (None, e) \<Rightarrow>
               (case relocate_all E img base (im_relocs img) e of
                  (Some x, e) \<Rightarrow> (Some x, e)
                | (None, e) \<Rightarrow> lift_be (protect_segments (be_of E) base (im_segments img)) e)))"

text \<open>Exports of a name that is already there keep the earlier module's address.\<close>

definition LoadModule ::
  "('b, 'x, 'h, 'r, 'p) eenv \<Rightarrow> string \<Rightarrow> string \<Rightarrow> ('b, 'x, 'h, 'r, 'p) emu \<Rightarrow> module option \<times> ('b, 'x, 'h, 'r, 'p) emu" where
  "LoadModule E path name e =
     (case ee_Parse E path of
        None \<Rightarrow> (None, e)
      | Some img \<Rightarrow>
          let base = e_nextBase e; span = pageUp (im_load_span img);
              e = e\<lparr>e_nextBase := base + span + 0x100000\<rparr>
          in case link_image E img base (ee_ReadFile E path) e of
               (Some _, e) \<Rightarrow> (None, e)
             | (None, e) \<Rightarrow>
                 let m = \<lparr>md_Name = name, md_Base = base, md_Img = img\<rparr>;
                     ex = (\<lambda>n. case e_syms e n of Some a \<Rightarrow> Some a | None \<Rightarrow> map_option (\<lambda>off. base + off) (im_exports img n))
                 in (Some m, e\<lparr>e_syms := ex, e_modules := e_modules e @ [m]\<rparr>))"

text \<open>The init_array pointers, read after relocation; an unreadable one is an error.\<close>

fun ptrs_from :: "('b, 'x, 'h, 'r, 'p) eenv \<Rightarrow> u64 \<Rightarrow> nat \<Rightarrow> ('b, 'x, 'h, 'r, 'p) emu \<Rightarrow> u64 list option" where
  "ptrs_from E a 0 e = Some []"
| "ptrs_from E a (Suc n) e =
     (case ReadU64 E a e of None \<Rightarrow> None | Some v \<Rightarrow> map_option (\<lambda>vs. v # vs) (ptrs_from E (a + 8) n e))"

definition InitArrayPtrs :: "('b, 'x, 'h, 'r, 'p) eenv \<Rightarrow> module \<Rightarrow> ('b, 'x, 'h, 'r, 'p) emu \<Rightarrow> u64 list option" where
  "InitArrayPtrs E m e =
     ptrs_from E (md_Base m + im_init_array_addr (md_Img m)) (im_init_array_len (md_Img m)) e"

subsection \<open>Classes and handles\<close>

definition vm_do :: "('p vm \<Rightarrow> 'a \<times> 'p vm) \<Rightarrow> ('b, 'x, 'h, 'r, 'p) emu \<Rightarrow> 'a \<times> ('b, 'x, 'h, 'r, 'p) emu" where
  "vm_do f e = (case f (e_vm e) of (v, m) \<Rightarrow> (v, e\<lparr>e_vm := m\<rparr>))"

definition classRef :: "string \<Rightarrow> ('b, 'x, 'h, 'r, 'p) emu \<Rightarrow> ref \<times> ('b, 'x, 'h, 'r, 'p) emu" where
  "classRef name e =
     (case e_classRefs e name of
        Some r \<Rightarrow> (r, e)
      | None \<Rightarrow>
          let (cls, e) = vm_do (ResolveClass name None) e;
              (r, e) = vm_do (NewObject (e_classMeta e) (VClass cls)) e
          in (r, e\<lparr>e_classRefs := (e_classRefs e)(name \<mapsto> r)\<rparr>))"

text \<open>\<open>Deref(Ref(int32(x)))\<close>\<close>

definition deref64 :: "u64 \<Rightarrow> ('b, 'x, 'h, 'r, 'p) emu \<Rightarrow> nat option" where
  "deref64 x e = Deref (ucast x) (e_vm e)"

definition value_of :: "nat \<Rightarrow> ('b, 'x, 'h, 'r, 'p) emu \<Rightarrow> 'p payload" where
  "value_of p e = ob_Value (vm_heap (e_vm e) ! p)"

definition derefClass :: "u64 \<Rightarrow> ('b, 'x, 'h, 'r, 'p) emu \<Rightarrow> nat option" where
  "derefClass x e =
     (case deref64 x e of None \<Rightarrow> None | Some p \<Rightarrow> (case value_of p e of VClass c \<Rightarrow> Some c | _ \<Rightarrow> None))"

definition gstr :: "u64 \<Rightarrow> ('b, 'x, 'h, 'r, 'p) emu \<Rightarrow> string" where
  "gstr x e = (case deref64 x e of None \<Rightarrow> '''' | Some p \<Rightarrow> (case value_of p e of VString s \<Rightarrow> s | _ \<Rightarrow> ''''))"

text \<open>The byte array behind a handle; \<open>gbytes\<close> is its contents, empty for anything else.\<close>

definition garray :: "u64 \<Rightarrow> ('b, 'x, 'h, 'r, 'p) emu \<Rightarrow> nat option" where
  "garray x e = (case deref64 x e of None \<Rightarrow> None | Some p \<Rightarrow> (case value_of p e of VBytes b \<Rightarrow> Some b | _ \<Rightarrow> None))"

definition gbytes :: "u64 \<Rightarrow> ('b, 'x, 'h, 'r, 'p) emu \<Rightarrow> u8 list" where
  "gbytes x e = (case garray x e of None \<Rightarrow> [] | Some b \<Rightarrow> vm_bytes (e_vm e) ! b)"

definition classAllowed :: "string \<Rightarrow> ('b, 'x, 'h, 'r, 'p) emu \<Rightarrow> bool" where
  "classAllowed name e = (case e_classFilter e of None \<Rightarrow> True | Some s \<Rightarrow> name \<in> s)"

definition SetFoundClassFilter :: "string list \<Rightarrow> ('b, 'x, 'h, 'r, 'p) emu_step" where
  "SetFoundClassFilter names e = e\<lparr>e_classFilter := (if names = [] then None else Some (set names))\<rparr>"

end
