(* ===== verification/Utf.thy ===== *)
theory Utf
  imports Prelude
begin

text \<open>
  Go strings as text: the conversions the JNI string functions use. A rune is its code point; \<open>[]rune(s)\<close>
  reads UTF-8 and gives U+FFFD for every byte that starts no well-formed sequence, \<open>string(rs)\<close> writes it
  back, and \<open>utf16.Encode\<close> and \<open>utf16.Decode\<close> (unicode/utf16) go between runes and UTF-16 code units.
\<close>

abbreviation (input) RuneError :: nat where "RuneError \<equiv> 0xFFFD"

definition is_scalar :: "nat \<Rightarrow> bool" where
  "is_scalar r \<longleftrightarrow> r < 0xD800 \<or> 0xE000 \<le> r \<and> r \<le> 0x10FFFF"

subsection \<open>UTF-8\<close>

text \<open>
  The range of the second byte after the first one: narrower for the first bytes that could begin an
  overlong form, a surrogate or a value above U+10FFFF. The other bytes are continuation bytes.
\<close>

definition second_ok :: "nat \<Rightarrow> nat \<Rightarrow> bool" where
  "second_ok b c \<longleftrightarrow>
     (if b = 0xE0 then 0xA0 \<le> c \<and> c \<le> 0xBF else if b = 0xED then 0x80 \<le> c \<and> c \<le> 0x9F
      else if b = 0xF0 then 0x90 \<le> c \<and> c \<le> 0xBF else if b = 0xF4 then 0x80 \<le> c \<and> c \<le> 0x8F
      else 0x80 \<le> c \<and> c \<le> 0xBF)"

definition is_cont :: "nat \<Rightarrow> bool" where
  "is_cont c \<longleftrightarrow> 0x80 \<le> c \<and> c \<le> 0xBF"

text \<open>The first rune and the number of its bytes.\<close>

fun first_rune :: "nat list \<Rightarrow> nat \<times> nat" where
  "first_rune [] = (RuneError, 1)"
| "first_rune (b # bs) =
     (if b < 0x80 then (b, 1)
      else if 0xC2 \<le> b \<and> b \<le> 0xDF then
        (case bs of c # _ \<Rightarrow> if second_ok b c then ((b - 0xC0) * 64 + (c - 0x80), 2) else (RuneError, 1) | _ \<Rightarrow> (RuneError, 1))
      else if 0xE0 \<le> b \<and> b \<le> 0xEF then
        (case bs of c # d # _ \<Rightarrow>
            if second_ok b c \<and> is_cont d then ((b - 0xE0) * 4096 + (c - 0x80) * 64 + (d - 0x80), 3) else (RuneError, 1)
         | _ \<Rightarrow> (RuneError, 1))
      else if 0xF0 \<le> b \<and> b \<le> 0xF4 then
        (case bs of c # d # x # _ \<Rightarrow>
            if second_ok b c \<and> is_cont d \<and> is_cont x
            then ((b - 0xF0) * 262144 + (c - 0x80) * 4096 + (d - 0x80) * 64 + (x - 0x80), 4) else (RuneError, 1)
         | _ \<Rightarrow> (RuneError, 1))
      else (RuneError, 1))"

lemma first_rune_advances: "0 < snd (first_rune bs)"
  by (induction bs rule: first_rune.induct) (auto split: list.splits)

function runes_of :: "nat list \<Rightarrow> nat list" where
  "runes_of bs = (if bs = [] then [] else fst (first_rune bs) # runes_of (drop (snd (first_rune bs)) bs))"
  by pat_completeness auto
termination
  by (relation "measure length") (simp_all add: first_rune_advances)

declare runes_of.simps [simp del]

definition utf8 :: "nat \<Rightarrow> nat list" where
  "utf8 r =
     (if r < 0x80 then [r]
      else if r < 0x800 then [0xC0 + r div 64, 0x80 + r mod 64]
      else if \<not> is_scalar r then [0xEF, 0xBF, 0xBD]
      else if r < 0x10000 then [0xE0 + r div 4096, 0x80 + r div 64 mod 64, 0x80 + r mod 64]
      else [0xF0 + r div 262144, 0x80 + r div 4096 mod 64, 0x80 + r div 64 mod 64, 0x80 + r mod 64])"

text \<open>\<open>[]rune(s)\<close> and \<open>string(rs)\<close>\<close>

definition runes :: "string \<Rightarrow> nat list" where
  "runes s = runes_of (map of_char s)"

definition string_of :: "nat list \<Rightarrow> string" where
  "string_of rs = map char_of (concat (map utf8 rs))"

subsection \<open>UTF-16\<close>

definition utf16 :: "nat \<Rightarrow> nat list" where
  "utf16 r =
     (if \<not> is_scalar r then [RuneError]
      else if r < 0x10000 then [r]
      else [0xD800 + (r - 0x10000) div 0x400, 0xDC00 + (r - 0x10000) mod 0x400])"

definition utf16_Encode :: "nat list \<Rightarrow> nat list" where
  "utf16_Encode rs = concat (map utf16 rs)"

fun utf16_Decode :: "nat list \<Rightarrow> nat list" where
  "utf16_Decode [] = []"
| "utf16_Decode [u] = [if 0xD800 \<le> u \<and> u < 0xE000 then RuneError else u]"
| "utf16_Decode (u # v # us) =
     (if u < 0xD800 \<or> 0xE000 \<le> u then u # utf16_Decode (v # us)
      else if u < 0xDC00 \<and> 0xDC00 \<le> v \<and> v < 0xE000
           then ((u - 0xD800) * 0x400 + (v - 0xDC00) + 0x10000) # utf16_Decode us
      else RuneError # utf16_Decode (v # us))"

definition units :: "string \<Rightarrow> nat list" where
  "units s = utf16_Encode (runes s)"

subsection \<open>Laws\<close>

lemma second_okD:
  "second_ok b c \<Longrightarrow> c - 0x80 < 64 \<and> (b - 0xE0 = 13 \<longrightarrow> c - 0x80 < 32) \<and> (b - 0xF0 = 4 \<longrightarrow> c - 0x80 < 16)"
  by (auto simp: second_ok_def split: if_splits)

lemma scalars:
  "b < 32 \<Longrightarrow> c < 64 \<Longrightarrow> is_scalar (b * 64 + c)"
  "b < 16 \<Longrightarrow> c < 64 \<Longrightarrow> d < 64 \<Longrightarrow> (b = 13 \<longrightarrow> c < 32) \<Longrightarrow> is_scalar (b * 4096 + c * 64 + d)"
  "0 < b \<or> 16 \<le> c \<Longrightarrow> b < 5 \<Longrightarrow> c < 64 \<Longrightarrow> d < 64 \<Longrightarrow> x < 64 \<Longrightarrow> (b = 4 \<longrightarrow> c < 16) \<Longrightarrow>
     is_scalar (b * 262144 + c * 4096 + d * 64 + x)"
proof -
  show "b < 32 \<Longrightarrow> c < 64 \<Longrightarrow> is_scalar (b * 64 + c)" by (simp add: is_scalar_def)
  show "is_scalar (b * 4096 + c * 64 + d)" if "b < 16" "c < 64" "d < 64" "b = 13 \<longrightarrow> c < 32"
    using that unfolding is_scalar_def by (cases "b = 13"; cases "b < 13") simp_all
  show "is_scalar (b * 262144 + c * 4096 + d * 64 + x)"
    if "0 < b \<or> 16 \<le> c" "b < 5" "c < 64" "d < 64" "x < 64" "b = 4 \<longrightarrow> c < 16"
  proof -
    have "57344 \<le> b * 262144 + c * 4096 + d * 64 + x" using that(1) by (cases "b = 0") simp_all
    moreover have "b * 262144 + c * 4096 + d * 64 + x \<le> 1114111"
      using that by (cases "b = 4") simp_all
    ultimately show ?thesis by (simp add: is_scalar_def)
  qed
qed

lemma first_rune_scalar: "is_scalar (fst (first_rune bs))"
proof (cases bs)
  case Nil then show ?thesis by (simp add: is_scalar_def)
next
  case (Cons b cs)
  have e: "is_scalar RuneError" by (simp add: is_scalar_def)
  consider "b < 0x80" | "0xC2 \<le> b" "b \<le> 0xDF" | "0xE0 \<le> b" "b \<le> 0xEF" | "0xF0 \<le> b" "b \<le> 0xF4"
    | "\<not> b < 0x80" "\<not> (0xC2 \<le> b \<and> b \<le> 0xDF)" "\<not> (0xE0 \<le> b \<and> b \<le> 0xEF)" "\<not> (0xF0 \<le> b \<and> b \<le> 0xF4)" by linarith
  then show ?thesis
  proof cases
    case 1 then show ?thesis using Cons by (simp add: is_scalar_def)
  next
    case 2 then show ?thesis using Cons e by (auto dest!: second_okD intro!: scalars(1) split: list.split)
  next
    case 3
    have "is_scalar ((b - 0xE0) * 4096 + (c - 0x80) * 64 + (d - 0x80))" if "second_ok b c" "is_cont d" for c d
      by (rule scalars(2)) (use 3 that second_okD [OF that(1)] in \<open>auto simp: is_cont_def\<close>)
    then show ?thesis using Cons e 3 by (auto split: list.split)
  next
    case 4
    have "is_scalar ((b - 0xF0) * 262144 + (c - 0x80) * 4096 + (d - 0x80) * 64 + (x - 0x80))"
      if "second_ok b c" "is_cont d" "is_cont x" for c d x
    proof (rule scalars(3))
      show "0 < b - 0xF0 \<or> 16 \<le> c - 0x80" using 4 that(1) by (cases "b = 0xF0") (auto simp: second_ok_def)
    qed (use 4 that second_okD [OF that(1)] in \<open>auto simp: is_cont_def\<close>)
    then show ?thesis using Cons e 4 by (auto split: list.split)
  next
    case 5 then show ?thesis using Cons e by auto
  qed
qed

lemma runes_of_scalar: "r \<in> set (runes_of bs) \<Longrightarrow> is_scalar r"
proof (induction bs rule: runes_of.induct)
  case (1 bs)
  then show ?case
    using first_rune_scalar [of bs] by (subst (asm) (2) runes_of.simps) (auto split: if_splits)
qed

lemma runes_scalar: "r \<in> set (runes s) \<Longrightarrow> is_scalar r"
  by (simp add: runes_def runes_of_scalar)

text \<open>A rune that is written is read again, whatever follows it.\<close>

lemma digits64:
  fixes r :: nat
  shows "r = r div 4096 * 4096 + r div 64 mod 64 * 64 + r mod 64"
    and "r = r div 262144 * 262144 + r div 4096 mod 64 * 4096 + r div 64 mod 64 * 64 + r mod 64"
proof -
  have s: "r div (n * 64) * 64 + r div n mod 64 = r div n" for n by (simp add: div_mult2_eq)
  have "r div 4096 * 64 + r div 64 mod 64 = r div 64" "r div 262144 * 64 + r div 4096 mod 64 = r div 4096"
    using s [of 64] s [of 4096] by simp_all
  moreover have "r div 64 * 64 + r mod 64 = r" by simp
  ultimately show "r = r div 4096 * 4096 + r div 64 mod 64 * 64 + r mod 64"
    "r = r div 262144 * 262144 + r div 4096 mod 64 * 4096 + r div 64 mod 64 * 64 + r mod 64" by linarith+
qed

lemma utf8_cases:
  assumes "is_scalar r"
  obtains (one) "r < 0x80" "utf8 r = [r]"
  | (two) b c where "r = b * 64 + c" "c < 64" "2 \<le> b" "b < 32" "utf8 r = [0xC0 + b, 0x80 + c]"
  | (three) b c d where "r = b * 4096 + c * 64 + d" "b < 16" "c < 64" "d < 64" "0 < b \<or> 32 \<le> c" "b = 13 \<longrightarrow> c < 32"
      "utf8 r = [0xE0 + b, 0x80 + c, 0x80 + d]"
  | (four) b c d x where "r = b * 262144 + c * 4096 + d * 64 + x" "b < 5" "c < 64" "d < 64" "x < 64"
      "0 < b \<or> 16 \<le> c" "b = 4 \<longrightarrow> c < 16" "utf8 r = [0xF0 + b, 0x80 + c, 0x80 + d, 0x80 + x]"
proof -
  consider "r < 0x80" | "0x80 \<le> r" "r < 0x800" | "0x800 \<le> r" "r < 0x10000" | "0x10000 \<le> r" by linarith
  then show ?thesis
  proof cases
    case 1 then show ?thesis using one by (simp add: utf8_def)
  next
    case 2
    show ?thesis
    proof (rule two [of "r div 64" "r mod 64"])
      show "r = r div 64 * 64 + r mod 64" by simp
      show "2 \<le> r div 64" "r div 64 < 32" using 2 by auto
    qed (use 2 in \<open>simp_all add: utf8_def\<close>)
  next
    case 3
    define b c d where bcd: "b = r div 4096" "c = r div 64 mod 64" "d = r mod 64"
    have r: "r = b * 4096 + c * 64 + d" unfolding bcd by (rule digits64)
    have lt: "c < 64" "d < 64" unfolding bcd by simp_all
    show ?thesis
    proof (rule three [OF r _ lt])
      show "b < 16" "0 < b \<or> 32 \<le> c" using r lt 3 by linarith+
      show "b = 13 \<longrightarrow> c < 32" using assms r lt by (auto simp: is_scalar_def)
      show "utf8 r = [0xE0 + b, 0x80 + c, 0x80 + d]" using 3 assms by (simp add: utf8_def bcd)
    qed
  next
    case 4
    have u: "r \<le> 0x10FFFF" using 4 assms by (simp add: is_scalar_def)
    define b c d x where bcdx: "b = r div 262144" "c = r div 4096 mod 64" "d = r div 64 mod 64" "x = r mod 64"
    have r: "r = b * 262144 + c * 4096 + d * 64 + x" unfolding bcdx by (rule digits64)
    have lt: "c < 64" "d < 64" "x < 64" unfolding bcdx by simp_all
    show ?thesis
    proof (rule four [OF r _ lt])
      show "b < 5" "0 < b \<or> 16 \<le> c" "b = 4 \<longrightarrow> c < 16" using r lt 4 u by linarith+
      show "utf8 r = [0xF0 + b, 0x80 + c, 0x80 + d, 0x80 + x]" using 4 assms by (simp add: utf8_def bcdx)
    qed
  qed
qed

lemma first_rune_utf8:
  assumes "is_scalar r"
  shows "first_rune (utf8 r @ bs) = (r, length (utf8 r))"
  using assms
proof (cases rule: utf8_cases)
  case one then show ?thesis by simp
next
  case (two b c) then show ?thesis by (auto simp: second_ok_def)
next
  case (three b c d)
  then show ?thesis by (auto simp: second_ok_def is_cont_def)
next
  case (four b c d x)
  then show ?thesis by (auto simp: second_ok_def is_cont_def)
qed

lemma utf8_nonempty: "utf8 r \<noteq> []"
  by (simp add: utf8_def)

lemma runes_of_utf8: "\<forall>r \<in> set rs. is_scalar r \<Longrightarrow> runes_of (concat (map utf8 rs)) = rs"
proof (induction rs)
  case Nil then show ?case by (simp add: runes_of.simps)
next
  case (Cons r rs)
  then show ?case
    using first_rune_utf8 [of r "concat (map utf8 rs)"] utf8_nonempty [of r] by (subst runes_of.simps) simp
qed

lemma utf8_bytes: "b \<in> set (utf8 r) \<Longrightarrow> b < 256"
  by (auto simp: utf8_def is_scalar_def split: if_splits)

lemma map_of_char_char_of: "\<forall>b \<in> set bs. b < 256 \<Longrightarrow> map of_char (map char_of bs) = (bs :: nat list)"
  by (induction bs) simp_all

lemma runes_string_of: "\<forall>r \<in> set rs. is_scalar r \<Longrightarrow> runes (string_of rs) = rs"
  using utf8_bytes by (subst runes_def, subst string_of_def, subst map_of_char_char_of) (auto simp: runes_of_utf8)

lemma Decode_pair:
  "is_scalar r \<Longrightarrow> utf16_Decode (utf16 r @ us) = r # utf16_Decode us"
  by (cases us) (auto simp: utf16_def is_scalar_def)

lemma Decode_Encode: "\<forall>r \<in> set rs. is_scalar r \<Longrightarrow> utf16_Decode (utf16_Encode rs) = rs"
  by (induction rs) (simp_all add: utf16_Encode_def Decode_pair)

lemma Decode_units: "utf16_Decode (units s) = runes s"
  using runes_scalar by (simp add: units_def Decode_Encode)

lemma utf16_units: "u \<in> set (utf16 r) \<Longrightarrow> u < 0x10000"
  by (auto simp: utf16_def is_scalar_def split: if_splits)

lemma units_small: "u \<in> set (units s) \<Longrightarrow> u < 0x10000"
  by (auto simp: units_def utf16_Encode_def dest: utf16_units)

end
