(* ===== verification/Jni.thy ===== *)
theory Jni
  imports Emu_State Utf
begin

text \<open>
  The functions of the JNIEnv table (emulator/jni_dispatch.go): one definition for each case of
  \<open>handleJNI\<close>, which reads its arguments from the registers, works on the VM and the guest memory and
  leaves its result for x0. The trace lines are left out.
\<close>

type_synonym ('b, 'x, 'h, 'r, 'p) jni_fun = "('b, 'x, 'h, 'r, 'p) eenv \<Rightarrow> ('b, 'x, 'h, 'r, 'p) emu \<Rightarrow> u64 \<times> ('b, 'x, 'h, 'r, 'p) emu"

subsection \<open>Arguments\<close>

text \<open>\<open>jarg\<close> reads argument \<open>n\<close>; \<open>handle\<close> is \<open>uint64(ref)\<close>, \<open>int32_of\<close> is \<open>int32(x)\<close>, \<open>of_bytes\<close> is \<open>string(bytes)\<close>.\<close>

definition jarg :: "('b, 'x, 'h, 'r, 'p) eenv \<Rightarrow> nat \<Rightarrow> ('b, 'x, 'h, 'r, 'p) emu \<Rightarrow> u64" where
  "jarg E n e = reg E n e"

definition handle :: "ref \<Rightarrow> u64" where
  "handle r = scast r"

definition int32_of :: "u64 \<Rightarrow> int" where
  "int32_of x = sint (ucast x :: u32)"

definition maxJArray :: nat where
  "maxJArray = 2 ^ 26"

definition jsize :: "u64 \<Rightarrow> nat" where
  "jsize raw = (let n = int32_of raw in if n < 0 then 0 else if n > int maxJArray then maxJArray else nat n)"

definition jregion :: "u64 \<Rightarrow> u64 \<Rightarrow> nat \<Rightarrow> (nat \<times> nat) option" where
  "jregion rawStart rawLen n =
     (let s = int32_of rawStart; l = int32_of rawLen
      in if s < 0 \<or> l < 0 \<or> s + l > int n then None else Some (nat s, nat (s + l)))"

text \<open>A varargs list: the saved registers first, then the stack. A word that does not read is zero.\<close>

definition word_or_zero :: "('b, 'x, 'h, 'r, 'p) eenv \<Rightarrow> u64 \<Rightarrow> ('b, 'x, 'h, 'r, 'p) emu \<Rightarrow> u64" where
  "word_or_zero E a e = (case ReadBytes E a 8 e of None \<Rightarrow> 0 | Some v \<Rightarrow> le_val v)"

fun va_args :: "nat \<Rightarrow> ('b, 'x, 'h, 'r, 'p) eenv \<Rightarrow> u64 \<Rightarrow> int \<Rightarrow> u64 \<Rightarrow> ('b, 'x, 'h, 'r, 'p) emu \<Rightarrow> u64 list" where
  "va_args 0 E grTop grOffs stack e = []"
| "va_args (Suc n) E grTop grOffs stack e =
     (if grOffs < 0 then word_or_zero E (grTop + of_int grOffs) e # va_args n E grTop (grOffs + 8) stack e
      else word_or_zero E stack e # va_args n E grTop grOffs (stack + 8) e)"

definition decodeVaList :: "('b, 'x, 'h, 'r, 'p) eenv \<Rightarrow> u64 \<Rightarrow> nat \<Rightarrow> ('b, 'x, 'h, 'r, 'p) emu \<Rightarrow> u64 list" where
  "decodeVaList E vaPtr n e =
     (case ReadBytes E vaPtr 32 e of
        None \<Rightarrow> replicate n 0
      | Some hdr \<Rightarrow>
          va_args n E (le_val (take 8 (drop 8 hdr))) (int32_of (le_val (take 4 (drop 24 hdr)))) (le_val (take 8 hdr)) e)"

fun jvalues :: "nat \<Rightarrow> ('b, 'x, 'h, 'r, 'p) eenv \<Rightarrow> u64 \<Rightarrow> ('b, 'x, 'h, 'r, 'p) emu \<Rightarrow> u64 list" where
  "jvalues 0 E p e = []"
| "jvalues (Suc n) E p e =
     (case ReadBytes E p 8 e of None \<Rightarrow> replicate (Suc n) 0 | Some v \<Rightarrow> le_val v # jvalues n E (p + 8) e)"

definition decodeJValues :: "('b, 'x, 'h, 'r, 'p) eenv \<Rightarrow> u64 \<Rightarrow> nat \<Rightarrow> ('b, 'x, 'h, 'r, 'p) emu \<Rightarrow> u64 list" where
  "decodeJValues E p n e = (if p = 0 then replicate n 0 else jvalues n E p e)"

text \<open>The form of a call: the plain, the V and the A variant are consecutive.\<close>

datatype callMode = ModeDirect | ModeV | ModeA

definition modeOf :: "nat \<Rightarrow> nat \<Rightarrow> callMode" where
  "modeOf idx base = (if idx - base = 1 then ModeV else if idx - base = 2 then ModeA else ModeDirect)"

definition callArgs :: "('b, 'x, 'h, 'r, 'p) eenv \<Rightarrow> callMode \<Rightarrow> nat \<Rightarrow> ('b, 'x, 'h, 'r, 'p) emu \<Rightarrow> u64 list" where
  "callArgs E mode argPtr e =
     (case mode of
        ModeV \<Rightarrow> decodeVaList E (jarg E argPtr e) 8 e
      | ModeA \<Rightarrow> decodeJValues E (jarg E argPtr e) 8 e
      | ModeDirect \<Rightarrow> map (\<lambda>i. jarg E i e) [argPtr..<8])"

definition className :: "nat \<Rightarrow> ('b, 'x, 'h, 'r, 'p) emu \<Rightarrow> string" where
  "className c e = cl_Name (vm_class (e_vm e) ! c)"

definition method_sig :: "nat \<Rightarrow> member \<Rightarrow> ('b, 'x, 'h, 'r, 'p) emu \<Rightarrow> string" where
  "method_sig c mb e = className c e @ ''->'' @ mb_Name mb @ mb_Sig mb"

definition callStaticInfo ::
  "('b, 'x, 'h, 'r, 'p) eenv \<Rightarrow> callMode \<Rightarrow> ('b, 'x, 'h, 'r, 'p) emu \<Rightarrow> (nat \<times> string \<times> u64 list) option" where
  "callStaticInfo E mode e =
     (case e_methods e (ucast (jarg E 2 e)) of
        None \<Rightarrow> None
      | Some (c, mb) \<Rightarrow> Some (c, method_sig c mb e, callArgs E mode 3 e))"

definition callInstanceInfo ::
  "('b, 'x, 'h, 'r, 'p) eenv \<Rightarrow> callMode \<Rightarrow> ('b, 'x, 'h, 'r, 'p) emu \<Rightarrow> (nat \<times> string \<times> u64 list) option" where
  "callInstanceInfo E mode e =
     (case (deref64 (jarg E 1 e) e, e_methods e (ucast (jarg E 2 e))) of
        (Some p, Some (c, mb)) \<Rightarrow> Some (p, method_sig c mb e, callArgs E mode 3 e)
      | _ \<Rightarrow> None)"

subsection \<open>Classes\<close>

definition jni_FindClass :: "('b, 'x, 'h, 'r, 'p) jni_fun" where
  "jni_FindClass E e =
     (let name = c_str E (jarg E 1 e) e
      in if classAllowed name e then (let (r, e) = classRef name e in (handle r, e)) else (0, e\<lparr>e_pendingExc := True\<rparr>))"

definition jni_GetObjectClass :: "('b, 'x, 'h, 'r, 'p) jni_fun" where
  "jni_GetObjectClass E e =
     (case deref64 (jarg E 1 e) e of
        None \<Rightarrow> (0, e)
      | Some p \<Rightarrow>
          (case ob_Class (vm_heap (e_vm e) ! p) of
             None \<Rightarrow> (0, e)
           | Some c \<Rightarrow> (let (r, e) = classRef (className c e) e in (handle r, e))))"

definition jni_GetSuperclass :: "('b, 'x, 'h, 'r, 'p) jni_fun" where
  "jni_GetSuperclass E e =
     (case derefClass (jarg E 1 e) e of
        None \<Rightarrow> (0, e)
      | Some c \<Rightarrow>
          (case cl_Super (vm_class (e_vm e) ! c) of
             Some s \<Rightarrow> (let (r, e) = classRef (className s e) e in (handle r, e))
           | None \<Rightarrow>
               if className c e \<noteq> ''java/lang/Object'' then (let (r, e) = classRef ''java/lang/Object'' e in (handle r, e))
               else (0, e)))"

text \<open>64 steps along the super chain; a class whose superclass is not known counts as assignable.\<close>

fun super_named :: "nat \<Rightarrow> nat option \<Rightarrow> string \<Rightarrow> 'p vm \<Rightarrow> bool" where
  "super_named 0 c name m = False"
| "super_named (Suc n) None name m = False"
| "super_named (Suc n) (Some c) name m =
     (cl_Name (vm_class m ! c) = name \<or> super_named n (cl_Super (vm_class m ! c)) name m)"

definition isAssignable :: "nat option \<Rightarrow> nat option \<Rightarrow> 'p vm \<Rightarrow> bool" where
  "isAssignable s t m =
     (case (s, t) of
        (Some c, Some d) \<Rightarrow>
          cl_Name (vm_class m ! d) = ''java/lang/Object'' \<or> super_named 64 (Some c) (cl_Name (vm_class m ! d)) m \<or>
          cl_Super (vm_class m ! c) = None
      | _ \<Rightarrow> True)"

definition jni_IsAssignableFrom :: "('b, 'x, 'h, 'r, 'p) jni_fun" where
  "jni_IsAssignableFrom E e =
     (of_bool (isAssignable (derefClass (jarg E 1 e) e) (derefClass (jarg E 2 e) e) (e_vm e)), e)"

definition jni_IsInstanceOf :: "('b, 'x, 'h, 'r, 'p) jni_fun" where
  "jni_IsInstanceOf E e =
     (case deref64 (jarg E 1 e) e of
        None \<Rightarrow> (1, e)
      | Some p \<Rightarrow> (of_bool (isAssignable (ob_Class (vm_heap (e_vm e) ! p)) (derefClass (jarg E 2 e) e) (e_vm e)), e))"

subsection \<open>Methods\<close>

definition jni_GetMethodID :: "bool \<Rightarrow> ('b, 'x, 'h, 'r, 'p) jni_fun" where
  "jni_GetMethodID static E e =
     (case derefClass (jarg E 1 e) e of
        None \<Rightarrow> (0, e)
      | Some c \<Rightarrow>
          let name = c_str E (jarg E 2 e) e; sg = c_str E (jarg E 3 e) e;
              (mb, e) = vm_do (MethodID c name sg static) e
          in (handle (mb_ID mb), e\<lparr>e_methods := (e_methods e)(mb_ID mb \<mapsto> (c, mb))\<rparr>))"

text \<open>An object result gets a new handle, null stays null.\<close>

definition box_result :: "nat option \<Rightarrow> ('b, 'x, 'h, 'r, 'p) emu \<Rightarrow> u64 \<times> ('b, 'x, 'h, 'r, 'p) emu" where
  "box_result r e = (case r of None \<Rightarrow> (0, e) | Some p \<Rightarrow> (let (h, e) = vm_do (Box p) e in (handle h, e)))"

definition vm_upd :: "('p vm \<Rightarrow> 'p vm) \<Rightarrow> ('b, 'x, 'h, 'r, 'p) emu \<Rightarrow> ('b, 'x, 'h, 'r, 'p) emu" where
  "vm_upd f e = e\<lparr>e_vm := f (e_vm e)\<rparr>"

definition callStatic :: "callMode \<Rightarrow> ('b, 'x, 'h, 'r, 'p) jni_fun" where
  "callStatic mode E e =
     (case callStaticInfo E mode e of
        None \<Rightarrow> (0, e)
      | Some (c, sg, va) \<Rightarrow> (let (r, e) = vm_do (CallStaticObjectMethodV (ee_jni E) c sg va) e in box_result r e))"

definition jni_CallStaticInt :: "callMode \<Rightarrow> ('b, 'x, 'h, 'r, 'p) jni_fun" where
  "jni_CallStaticInt mode E e =
     (case callStaticInfo E mode e of
        None \<Rightarrow> (0, e)
      | Some (c, sg, va) \<Rightarrow> (let (v, e) = vm_do (CallStaticIntMethodV (ee_jni E) c sg va) e in (ucast v, e)))"

definition jni_CallStaticVoid :: "callMode \<Rightarrow> ('b, 'x, 'h, 'r, 'p) jni_fun" where
  "jni_CallStaticVoid mode E e =
     (case callStaticInfo E mode e of
        None \<Rightarrow> (0, e)
      | Some (c, sg, va) \<Rightarrow> (0, vm_upd (CallStaticVoidMethodV (ee_jni E) c sg va) e))"

definition jni_CallObject :: "callMode \<Rightarrow> ('b, 'x, 'h, 'r, 'p) jni_fun" where
  "jni_CallObject mode E e =
     (case callInstanceInfo E mode e of
        None \<Rightarrow> (0, e)
      | Some (p, sg, va) \<Rightarrow> (let (r, e) = vm_do (CallObjectMethodV (ee_jni E) p sg va) e in box_result r e))"

definition jni_CallBoolean :: "callMode \<Rightarrow> ('b, 'x, 'h, 'r, 'p) jni_fun" where
  "jni_CallBoolean mode E e =
     (case callInstanceInfo E mode e of
        None \<Rightarrow> (0, e)
      | Some (p, sg, va) \<Rightarrow> (let (v, e) = vm_do (CallBooleanMethodV (ee_jni E) p sg va) e in (of_bool v, e)))"

definition jni_CallInt :: "callMode \<Rightarrow> ('b, 'x, 'h, 'r, 'p) jni_fun" where
  "jni_CallInt mode E e =
     (case callInstanceInfo E mode e of
        None \<Rightarrow> (0, e)
      | Some (p, sg, va) \<Rightarrow> (let (v, e) = vm_do (CallIntMethodV (ee_jni E) p sg va) e in (ucast v, e)))"

definition jni_CallLong :: "callMode \<Rightarrow> ('b, 'x, 'h, 'r, 'p) jni_fun" where
  "jni_CallLong mode E e =
     (case callInstanceInfo E mode e of
        None \<Rightarrow> (0, e)
      | Some (p, sg, va) \<Rightarrow> vm_do (CallLongMethodV (ee_jni E) p sg va) e)"

definition jni_CallVoid :: "callMode \<Rightarrow> ('b, 'x, 'h, 'r, 'p) jni_fun" where
  "jni_CallVoid mode E e =
     (case callInstanceInfo E mode e of
        None \<Rightarrow> (0, e)
      | Some (p, sg, va) \<Rightarrow> (0, vm_upd (CallVoidMethodV (ee_jni E) p sg va) e))"

definition jni_AllocObject :: "('b, 'x, 'h, 'r, 'p) jni_fun" where
  "jni_AllocObject E e =
     (case derefClass (jarg E 1 e) e of
        None \<Rightarrow> (0, e)
      | Some c \<Rightarrow> (let (r, e) = vm_do (NewObject c VNil) e in (handle r, e)))"

definition jni_NewObject :: "callMode \<Rightarrow> ('b, 'x, 'h, 'r, 'p) jni_fun" where
  "jni_NewObject mode E e =
     (case derefClass (jarg E 1 e) e of
        None \<Rightarrow> (0, e)
      | Some c \<Rightarrow>
          let (sg, args) = (case e_methods e (ucast (jarg E 2 e)) of
                 None \<Rightarrow> (className c e @ ''-><init>'', replicate 8 0)
               | Some (d, mb) \<Rightarrow> (method_sig c mb e, callArgs E mode 3 e));
              (r, e) = vm_do (NewObjectV (ee_jni E) c sg args) e
          in case r of
               Some p \<Rightarrow> box_result (Some p) e
             | None \<Rightarrow> (let (h, e) = vm_do (NewObject c VNil) e in (handle h, e)))"

text \<open>The table of natives is read until an entry does not read; entries the handler rejects are skipped.\<close>

fun register_natives ::
  "nat \<Rightarrow> ('b, 'x, 'h, 'r, 'p) eenv \<Rightarrow> nat option \<Rightarrow> string \<Rightarrow> u64 \<Rightarrow> ('b, 'x, 'h, 'r, 'p) emu \<Rightarrow> ('b, 'x, 'h, 'r, 'p) emu" where
  "register_natives 0 E cls clsName a e = e"
| "register_natives (Suc n) E cls clsName a e =
     (case ReadBytes E a 24 e of
        None \<Rightarrow> e
      | Some ent \<Rightarrow>
          if length ent < 24 then e
          else
            let fnPtr = le_val (take 8 (drop 16 ent));
                name = c_str E (le_val (take 8 ent)) e; sg = c_str E (le_val (take 8 (drop 8 ent))) e;
                (ok, e) = (case cls of
                   None \<Rightarrow> (True, e)
                 | Some c \<Rightarrow> vm_do (AcceptMethod (ee_jni E) c (clsName @ ''->'' @ name @ sg) False) e);
                e = (if ok then e\<lparr>e_natives := (e_natives e)(clsName @ ''.'' @ name @ sg \<mapsto> fnPtr)\<rparr> else e)
            in register_natives n E cls clsName (a + 24) e)"

definition jni_RegisterNatives :: "('b, 'x, 'h, 'r, 'p) jni_fun" where
  "jni_RegisterNatives E e =
     (let cls = derefClass (jarg E 1 e) e; clsName = (case cls of None \<Rightarrow> ''?'' | Some c \<Rightarrow> className c e)
      in (0, register_natives (nat (int32_of (jarg E 3 e))) E cls clsName (jarg E 2 e) e))"

end
