(* ===== verification/Jni_Table.thy ===== *)
theory Jni_Table
  imports Jni
begin

text \<open>
  The rest of emulator/jni_dispatch.go: fields, strings and arrays, and \<open>handleJNI\<close> with the table of
  functions.
\<close>

subsection \<open>Fields\<close>

text \<open>The kinds of the nine JNI types, Object to Double, are the numbers 0 to 8.\<close>

definition narrowField :: "u64 \<Rightarrow> nat \<Rightarrow> u64" where
  "narrowField v kind =
     (if kind = 1 then of_bool (v AND 0xff \<noteq> 0)
      else if kind = 2 then ucast (scast (ucast v :: u8) :: u32)
      else if kind = 3 then ucast (ucast v :: 16 word)
      else if kind = 4 then ucast (scast (ucast v :: 16 word) :: u32)
      else if kind = 5 then ucast (ucast v :: u32)
      else v)"

definition field_sig :: "nat \<Rightarrow> member \<Rightarrow> ('b, 'x, 'h, 'r, 'p) emu \<Rightarrow> string" where
  "field_sig c mb e = className c e @ ''->'' @ mb_Name mb @ '':'' @ mb_Sig mb"

definition fieldInfo :: "('b, 'x, 'h, 'r, 'p) eenv \<Rightarrow> ('b, 'x, 'h, 'r, 'p) emu \<Rightarrow> (nat \<times> string) option" where
  "fieldInfo E e =
     (case (deref64 (jarg E 1 e) e, e_fields e (ucast (jarg E 2 e))) of
        (Some p, Some (c, mb)) \<Rightarrow> Some (p, field_sig c mb e)
      | _ \<Rightarrow> None)"

definition staticFieldInfo :: "('b, 'x, 'h, 'r, 'p) eenv \<Rightarrow> ('b, 'x, 'h, 'r, 'p) emu \<Rightarrow> nat option \<times> string" where
  "staticFieldInfo E e =
     (case e_fields e (ucast (jarg E 2 e)) of
        None \<Rightarrow> (derefClass (jarg E 1 e) e, '''')
      | Some (c, mb) \<Rightarrow> (Some c, field_sig c mb e))"

definition getField :: "nat \<Rightarrow> string \<Rightarrow> nat \<Rightarrow> ('b, 'x, 'h, 'r, 'p) jni_fun" where
  "getField p sg kind E e =
     (case get_Field p sg (e_vm e) of
        Some v \<Rightarrow> (narrowField (case v of VU64 raw \<Rightarrow> raw | _ \<Rightarrow> 0) kind, e)
      | None \<Rightarrow>
          if kind = 0 then (let (r, e) = vm_do (GetObjectField (ee_jni E) p sg) e in box_result r e)
          else if kind = 1 then (let (v, e) = vm_do (GetBooleanField (ee_jni E) p sg) e in (of_bool v, e))
          else if kind = 6 then vm_do (GetLongField (ee_jni E) p sg) e
          else if kind \<in> {2, 3, 4, 5} then
            (let (v, e) = vm_do (GetIntField (ee_jni E) p sg) e in (narrowField (ucast v) kind, e))
          else (0, e))"

definition setField :: "nat \<Rightarrow> string \<Rightarrow> nat \<Rightarrow> u64 \<Rightarrow> ('b, 'x, 'h, 'r, 'p) eenv \<Rightarrow> ('b, 'x, 'h, 'r, 'p) emu_step" where
  "setField p sg kind raw E e =
     (let e = vm_upd (SetField p sg (VU64 raw)) e
      in if kind = 0 then vm_upd (\<lambda>m. SetObjectField (ee_jni E) p sg (Deref (ucast raw) m) m) e else e)"

definition getStaticField :: "nat option \<Rightarrow> string \<Rightarrow> nat \<Rightarrow> ('b, 'x, 'h, 'r, 'p) jni_fun" where
  "getStaticField cls sg kind E e =
     (case e_staticFields e sg of
        Some raw \<Rightarrow> (narrowField raw kind, e)
      | None \<Rightarrow>
          (case cls of
             None \<Rightarrow> (0, e)
           | Some c \<Rightarrow>
               if kind = 0 then (let (r, e) = vm_do (GetStaticObjectField (ee_jni E) c sg) e in box_result r e)
               else if kind = 6 then vm_do (GetStaticLongField (ee_jni E) c sg) e
               else if kind \<in> {1, 2, 3, 4, 5} then
                 (let (v, e) = vm_do (GetStaticIntField (ee_jni E) c sg) e in (narrowField (ucast v) kind, e))
               else (0, e)))"

definition jni_GetFieldID :: "bool \<Rightarrow> ('b, 'x, 'h, 'r, 'p) jni_fun" where
  "jni_GetFieldID static E e =
     (case derefClass (jarg E 1 e) e of
        None \<Rightarrow> (0, e)
      | Some c \<Rightarrow>
          let name = c_str E (jarg E 2 e) e; sg = c_str E (jarg E 3 e) e;
              (mb, e) = vm_do (FieldID c name sg static) e
          in (handle (mb_ID mb), e\<lparr>e_fields := (e_fields e)(mb_ID mb \<mapsto> (c, mb))\<rparr>))"

definition jni_GetField :: "nat \<Rightarrow> ('b, 'x, 'h, 'r, 'p) jni_fun" where
  "jni_GetField kind E e = (case fieldInfo E e of None \<Rightarrow> (0, e) | Some (p, sg) \<Rightarrow> getField p sg kind E e)"

definition jni_SetField :: "nat \<Rightarrow> ('b, 'x, 'h, 'r, 'p) jni_fun" where
  "jni_SetField kind E e = (0, case fieldInfo E e of None \<Rightarrow> e | Some (p, sg) \<Rightarrow> setField p sg kind (jarg E 3 e) E e)"

definition jni_GetStaticField :: "nat \<Rightarrow> ('b, 'x, 'h, 'r, 'p) jni_fun" where
  "jni_GetStaticField kind E e =
     (case staticFieldInfo E e of (cls, sg) \<Rightarrow> if sg \<noteq> '''' then getStaticField cls sg kind E e else (0, e))"

definition jni_SetStaticField :: "('b, 'x, 'h, 'r, 'p) jni_fun" where
  "jni_SetStaticField E e =
     (case staticFieldInfo E e of
        (_, sg) \<Rightarrow> (0, if sg \<noteq> '''' then e\<lparr>e_staticFields := (e_staticFields e)(sg \<mapsto> jarg E 3 e)\<rparr> else e))"

subsection \<open>Strings\<close>

definition units_le :: "nat list \<Rightarrow> u8 list" where
  "units_le us = concat (map (\<lambda>u. le_bytes 2 (of_nat u)) us)"

definition utf16le :: "string \<Rightarrow> u8 list" where
  "utf16le s = units_le (units s)"

definition units_from :: "nat \<Rightarrow> u8 list \<Rightarrow> nat list" where
  "units_from n raw = map (\<lambda>i. unat (le_val (take 2 (drop (2 * i) raw)))) [0..<n]"

text \<open>The store through \<open>jboolean* isCopy\<close>, when it is not null.\<close>

definition put_isCopy :: "u8 \<Rightarrow> ('b, 'x, 'h, 'r, 'p) eenv \<Rightarrow> ('b, 'x, 'h, 'r, 'p) emu_step" where
  "put_isCopy v E e = (let cp = jarg E 2 e in if cp \<noteq> 0 then poke_mem E cp [v] e else e)"

definition jni_NewStringUTF :: "('b, 'x, 'h, 'r, 'p) jni_fun" where
  "jni_NewStringUTF E e =
     (let s = c_str E (jarg E 1 e) e; (r, e) = vm_do (NewString s) e in (handle r, e))"

definition jni_NewString :: "('b, 'x, 'h, 'r, 'p) jni_fun" where
  "jni_NewString E e =
     (let n = nat (int32_of (jarg E 2 e));
          s = (case ReadBytes E (jarg E 1 e) (of_nat n * 2) e of
                 None \<Rightarrow> '''' | Some raw \<Rightarrow> string_of (utf16_Decode (units_from n raw)));
          (r, e) = vm_do (NewString s) e
      in (handle r, e))"

definition jni_GetStringLength :: "('b, 'x, 'h, 'r, 'p) jni_fun" where
  "jni_GetStringLength E e = (of_nat (length (units (gstr (jarg E 1 e) e))), e)"

definition jni_GetStringUTFLength :: "('b, 'x, 'h, 'r, 'p) jni_fun" where
  "jni_GetStringUTFLength E e = (of_nat (length (gstr (jarg E 1 e) e)), e)"

definition jni_GetStringUTFChars :: "('b, 'x, 'h, 'r, 'p) jni_fun" where
  "jni_GetStringUTFChars E e =
     (let (a, e) = WriteScratch E (bytes_of (gstr (jarg E 1 e) e) @ [0]) e in (a, put_isCopy 1 E e))"

text \<open>\<open>GetStringChars\<close> and \<open>GetStringCritical\<close> differ in what they say of copying.\<close>

definition jni_GetStringChars :: "u8 \<Rightarrow> ('b, 'x, 'h, 'r, 'p) jni_fun" where
  "jni_GetStringChars isCopy E e =
     (let (a, e) = WriteScratch E (utf16le (gstr (jarg E 1 e) e) @ [0, 0]) e in (a, put_isCopy isCopy E e))"

definition jni_GetStringRegion :: "('b, 'x, 'h, 'r, 'p) jni_fun" where
  "jni_GetStringRegion E e =
     (let u = units (gstr (jarg E 1 e) e)
      in (0, case jregion (jarg E 2 e) (jarg E 3 e) (length u) of
               None \<Rightarrow> e
             | Some (s, t) \<Rightarrow> poke_mem E (jarg E 4 e) (units_le (take (t - s) (drop s u))) e))"

definition jni_GetStringUTFRegion :: "('b, 'x, 'h, 'r, 'p) jni_fun" where
  "jni_GetStringUTFRegion E e =
     (let u = units (gstr (jarg E 1 e) e)
      in (0, case jregion (jarg E 2 e) (jarg E 3 e) (length u) of
               None \<Rightarrow> e
             | Some (s, t) \<Rightarrow>
                 poke_mem E (jarg E 4 e) (bytes_of (string_of (utf16_Decode (take (t - s) (drop s u)))) @ [0]) e))"

subsection \<open>Arrays\<close>

definition set_bytes :: "nat \<Rightarrow> u8 list \<Rightarrow> ('b, 'x, 'h, 'r, 'p) emu_step" where
  "set_bytes b bs e = vm_upd (\<lambda>m. m\<lparr>vm_bytes := (vm_bytes m)[b := bs]\<rparr>) e"

definition jni_GetArrayLength :: "('b, 'x, 'h, 'r, 'p) jni_fun" where
  "jni_GetArrayLength E e =
     (case deref64 (jarg E 1 e) e of
        None \<Rightarrow> (0, e)
      | Some p \<Rightarrow>
          (case value_of p e of
             VBytes b \<Rightarrow> (of_nat (length (vm_bytes (e_vm e) ! b)), e)
           | VObjs os \<Rightarrow> (of_nat (length os), e)
           | VRefs a \<Rightarrow> (of_nat (length (vm_refs (e_vm e) ! a)), e)
           | _ \<Rightarrow> (0, e)))"

definition jni_NewObjectArray :: "('b, 'x, 'h, 'r, 'p) jni_fun" where
  "jni_NewObjectArray E e =
     (let (a, e) = vm_do (alloc_refs (replicate (jsize (jarg E 1 e)) (ucast (jarg E 3 e)))) e;
          (c, e) = vm_do (ResolveClass ''[Ljava/lang/Object;'' None) e;
          (r, e) = vm_do (NewObject c (VRefs a)) e
      in (handle r, e))"

text \<open>The object array behind a handle, and the index when it is inside.\<close>

definition array_slot :: "('b, 'x, 'h, 'r, 'p) eenv \<Rightarrow> ('b, 'x, 'h, 'r, 'p) emu \<Rightarrow> (nat \<times> nat) option" where
  "array_slot E e =
     (case deref64 (jarg E 1 e) e of
        None \<Rightarrow> None
      | Some p \<Rightarrow>
          (case value_of p e of
             VRefs a \<Rightarrow>
               let i = int32_of (jarg E 2 e)
               in if i \<ge> 0 \<and> i < int (length (vm_refs (e_vm e) ! a)) then Some (a, nat i) else None
           | _ \<Rightarrow> None))"

definition jni_GetObjectArrayElement :: "('b, 'x, 'h, 'r, 'p) jni_fun" where
  "jni_GetObjectArrayElement E e =
     (case array_slot E e of None \<Rightarrow> (0, e) | Some (a, i) \<Rightarrow> (handle (vm_refs (e_vm e) ! a ! i), e))"

definition jni_SetObjectArrayElement :: "('b, 'x, 'h, 'r, 'p) jni_fun" where
  "jni_SetObjectArrayElement E e =
     (0, case array_slot E e of
           None \<Rightarrow> e
         | Some (a, i) \<Rightarrow> vm_upd (\<lambda>m. m\<lparr>vm_refs := (vm_refs m)[a := (vm_refs m ! a)[i := ucast (jarg E 3 e)]]\<rparr>) e)"

definition jni_NewByteArray :: "('b, 'x, 'h, 'r, 'p) jni_fun" where
  "jni_NewByteArray E e =
     (let (b, e) = vm_do (alloc_bytes (replicate (jsize (jarg E 1 e)) 0)) e; (r, e) = vm_do (NewByteArray b) e
      in (handle r, e))"

text \<open>\<open>GetByteArrayElements\<close> and \<open>GetPrimitiveArrayCritical\<close>, and the two that release.\<close>

definition jni_GetElements :: "u8 \<Rightarrow> ('b, 'x, 'h, 'r, 'p) jni_fun" where
  "jni_GetElements isCopy E e =
     (let (p, e) = WriteScratch E (gbytes (jarg E 1 e) e) e;
          e = e\<lparr>e_arrayPins := (e_arrayPins e)(p \<mapsto> ucast (jarg E 1 e))\<rparr>
      in (p, put_isCopy isCopy E e))"

definition jni_ReleaseElements :: "('b, 'x, 'h, 'r, 'p) jni_fun" where
  "jni_ReleaseElements E e =
     (let arr = jarg E 1 e; ptr = jarg E 2 e; mode = jarg E 3 e;
          e = (if mode \<noteq> 2 then
                 (case garray arr e of
                    None \<Rightarrow> e
                  | Some b \<Rightarrow>
                      (case ReadBytes E ptr (of_nat (length (vm_bytes (e_vm e) ! b))) e of
                         None \<Rightarrow> e
                       | Some d \<Rightarrow> set_bytes b (poke 0 (take (length (vm_bytes (e_vm e) ! b)) d) (vm_bytes (e_vm e) ! b)) e))
               else e)
      in (0, e\<lparr>e_arrayPins := (e_arrayPins e)(ptr := None)\<rparr>))"

definition jni_GetByteArrayRegion :: "('b, 'x, 'h, 'r, 'p) jni_fun" where
  "jni_GetByteArrayRegion E e =
     (let d = gbytes (jarg E 1 e) e
      in (0, case jregion (jarg E 2 e) (jarg E 3 e) (length d) of
               None \<Rightarrow> e
             | Some (s, t) \<Rightarrow> poke_mem E (jarg E 4 e) (take (t - s) (drop s d)) e))"

definition jni_SetByteArrayRegion :: "('b, 'x, 'h, 'r, 'p) jni_fun" where
  "jni_SetByteArrayRegion E e =
     (0, case garray (jarg E 1 e) e of
           None \<Rightarrow> e
         | Some b \<Rightarrow>
             let bs = vm_bytes (e_vm e) ! b
             in case jregion (jarg E 2 e) (jarg E 3 e) (length bs) of
                  None \<Rightarrow> e
                | Some (s, t) \<Rightarrow>
                    (case ReadBytes E (jarg E 4 e) (of_nat (t - s)) e of
                       None \<Rightarrow> e
                     | Some d \<Rightarrow> set_bytes b (poke s (take (t - s) d) bs) e))"

subsection \<open>The table\<close>

definition jni_IsSameObject :: "('b, 'x, 'h, 'r, 'p) jni_fun" where
  "jni_IsSameObject E e =
     (let a = jarg E 1 e; c = jarg E 2 e
      in (of_bool (a = c \<or> (deref64 a e \<noteq> None \<and> deref64 a e = deref64 c e)), e))"

definition jni_GetJavaVM :: "('b, 'x, 'h, 'r, 'p) jni_fun" where
  "jni_GetJavaVM E e = (0, snd (putU64 E (jarg E 1 e) (e_javaVM e) e))"

text \<open>The functions by slot. What the table does not name answers 0.\<close>

definition jni_slot :: "nat \<Rightarrow> ('b, 'x, 'h, 'r, 'p) jni_fun" where
  "jni_slot idx =
     (if idx = 4 then (\<lambda>E e. (0x00010006, e))
      else if idx = 6 then jni_FindClass
      else if idx = 31 then jni_GetObjectClass
      else if idx = 10 then jni_GetSuperclass
      else if idx = 11 then jni_IsAssignableFrom
      else if idx = 32 then jni_IsInstanceOf
      else if idx = 33 \<or> idx = 113 then jni_GetMethodID (idx = 113)
      else if idx \<in> {114, 115, 116} then callStatic (modeOf idx 114)
      else if idx \<in> {129, 130, 131} then jni_CallStaticInt (modeOf idx 129)
      else if idx \<in> {141, 142, 143} then jni_CallStaticVoid (modeOf idx 141)
      else if idx \<in> {34, 35, 36} then jni_CallObject (modeOf idx 34)
      else if idx \<in> {37, 38, 39} then jni_CallBoolean (modeOf idx 37)
      else if idx \<in> {49, 50, 51} then jni_CallInt (modeOf idx 49)
      else if idx \<in> {52, 53, 54} then jni_CallLong (modeOf idx 52)
      else if idx \<in> {61, 62, 63} then jni_CallVoid (modeOf idx 61)
      else if idx = 20 then (\<lambda>E e. (jarg E 1 e, e))
      else if idx = 27 then jni_AllocObject
      else if idx = 232 then (\<lambda>E e. (1, e))
      else if idx = 94 \<or> idx = 144 then jni_GetFieldID (idx = 144)
      else if 95 \<le> idx \<and> idx \<le> 103 then jni_GetField (idx - 95)
      else if 104 \<le> idx \<and> idx \<le> 112 then jni_SetField (idx - 104)
      else if 145 \<le> idx \<and> idx \<le> 153 then jni_GetStaticField (idx - 145)
      else if 154 \<le> idx \<and> idx \<le> 162 then jni_SetStaticField
      else if idx = 215 then jni_RegisterNatives
      else if idx = 167 then jni_NewStringUTF
      else if idx = 164 then jni_GetStringLength
      else if idx = 168 then jni_GetStringUTFLength
      else if idx = 169 then jni_GetStringUTFChars
      else if idx = 171 then jni_GetArrayLength
      else if idx = 172 then jni_NewObjectArray
      else if idx = 173 then jni_GetObjectArrayElement
      else if idx = 174 then jni_SetObjectArrayElement
      else if idx = 176 then jni_NewByteArray
      else if idx = 184 then jni_GetElements 1
      else if idx = 192 \<or> idx = 223 then jni_ReleaseElements
      else if idx = 200 then jni_GetByteArrayRegion
      else if idx = 208 then jni_SetByteArrayRegion
      else if idx \<in> {21, 25, 226} then (\<lambda>E e. (jarg E 1 e, e))
      else if idx = 163 then jni_NewString
      else if idx = 222 then jni_GetElements 0
      else if idx = 224 then jni_GetStringChars 0
      else if idx = 13 \<or> idx = 14 then (\<lambda>E e. (0, e\<lparr>e_pendingExc := True\<rparr>))
      else if idx = 228 \<or> idx = 15 then (\<lambda>E e. (of_bool (e_pendingExc e), e))
      else if idx = 17 \<or> idx = 16 then (\<lambda>E e. (0, e\<lparr>e_pendingExc := False\<rparr>))
      else if idx \<in> {28, 29, 30} then jni_NewObject (modeOf idx 28)
      else if idx = 165 then jni_GetStringChars 1
      else if idx = 220 then jni_GetStringRegion
      else if idx = 221 then jni_GetStringUTFRegion
      else if idx = 219 then jni_GetJavaVM
      else if idx = 24 then jni_IsSameObject
      else (\<lambda>E e. (0, e)))"

definition handleJNI :: "nat \<Rightarrow> ('b, 'x, 'h, 'r, 'p) eenv \<Rightarrow> ('b, 'x, 'h, 'r, 'p) emu_step" where
  "handleJNI idx E e = (let (v, e) = jni_slot idx E e in set_reg E 0 v e)"

end
