(* ===== verification/Scheduler.thy ===== *)
theory Scheduler
  imports Jni_Table
begin

text \<open>
  The guest's threads and its traps: the libc functions in Go (emulator/hostfns.go), the cooperative
  scheduler (emulator/scheduler.go) and the interrupt handler (emulator/emulator.go). \<open>runFiberSlice\<close> and
  \<open>RunThreads\<close> run the guest, so they are \<open>None\<close> when a run does not return; their error is \<open>False\<close>. Contexts are
  values, freeing one is dropping it.
\<close>

abbreviation (input) fiberStackSize :: u64 where "fiberStackSize \<equiv> 0x100000"
abbreviation (input) fiberSliceCap :: nat where "fiberSliceCap \<equiv> 20000"
abbreviation (input) fiberMaxSlices :: nat where "fiberMaxSlices \<equiv> 80"
abbreviation (input) schedMaxRounds :: nat where "schedMaxRounds \<equiv> 100000"

definition stop_run :: "('b, 'x, 'h, 'r, 'p) eenv \<Rightarrow> ('b, 'x, 'h, 'r, 'p) emu_step" where
  "stop_run E e = e\<lparr>e_k := (e_k e)\<lparr>k_be := StopRun (be_of E) (k_be (e_k e))\<rparr>\<rparr>"

definition upd_fiber :: "nat \<Rightarrow> ('x fiber \<Rightarrow> 'x fiber) \<Rightarrow> ('b, 'x, 'h, 'r, 'p) emu_step" where
  "upd_fiber i f e = e\<lparr>e_fibers := (e_fibers e)[i := f (e_fibers e ! i)]\<rparr>"

subsection \<open>Fibers\<close>

definition newFiber ::
  "('b, 'x, 'h, 'r, 'p) eenv \<Rightarrow> u64 \<Rightarrow> u64 \<Rightarrow> ('b, 'x, 'h, 'r, 'p) emu \<Rightarrow> 'x fiber \<times> ('b, 'x, 'h, 'r, 'p) emu" where
  "newFiber E routine arg e =
     (let e = e\<lparr>e_nextFiberID := e_nextFiberID e + 1\<rparr>;
          (base, e) = Alloc E fiberStackSize (ProtRead OR ProtWrite) e;
          f = \<lparr>fb_id = e_nextFiberID e, fb_routine = routine, fb_arg = arg, fb_sp = base + fiberStackSize - 0x200,
               fb_started = False, fb_ctx = None, fb_state = FsRunnable, fb_waitAddr = 0, fb_slices = 0, fb_ret = 0\<rparr>
      in (f, e\<lparr>e_fibers := e_fibers e @ [f]\<rparr>))"

definition PendingThreads :: "('b, 'x, 'h, 'r, 'p) emu \<Rightarrow> nat" where
  "PendingThreads e = length (filter (\<lambda>f. fb_state f \<noteq> FsDone) (e_fibers e))"

definition eligible :: "'x fiber \<Rightarrow> bool" where
  "eligible f \<longleftrightarrow> fb_state f = FsRunnable \<or> fb_state f = FsSleeping"

definition anyRunnable :: "('b, 'x, 'h, 'r, 'p) emu \<Rightarrow> bool" where
  "anyRunnable e = list_ex eligible (e_fibers e)"

definition parkFiber :: "nat \<Rightarrow> ('b, 'x, 'h, 'r, 'p) emu_step" where
  "parkFiber i = upd_fiber i (\<lambda>f. f\<lparr>fb_state := FsParked, fb_ctx := None\<rparr>)"

definition fiberHandle :: "nat \<Rightarrow> u64" where
  "fiberHandle i = 0x7300 OR of_nat i"

definition fiberByHandle :: "u64 \<Rightarrow> ('b, 'x, 'h, 'r, 'p) emu \<Rightarrow> 'x fiber option" where
  "fiberByHandle h e = find (\<lambda>f. fiberHandle (fb_id f) = h) (e_fibers e)"

definition wakes :: "u64 \<Rightarrow> 'x fiber \<Rightarrow> bool" where
  "wakes uaddr f \<longleftrightarrow> (fb_state f = FsWaiting \<or> fb_state f = FsParked) \<and> fb_waitAddr f = uaddr"

definition wakeFutex :: "u64 \<Rightarrow> ('b, 'x, 'h, 'r, 'p) emu \<Rightarrow> nat \<times> ('b, 'x, 'h, 'r, 'p) emu" where
  "wakeFutex uaddr e =
     (length (filter (wakes uaddr) (e_fibers e)),
      e\<lparr>e_fibers := map (\<lambda>f. if wakes uaddr f then f\<lparr>fb_state := FsRunnable\<rparr> else f) (e_fibers e)\<rparr>)"

definition handleSchedSyscall :: "('b, 'x, 'h, 'r, 'p) eenv \<Rightarrow> u64 \<Rightarrow> ('b, 'x, 'h, 'r, 'p) emu \<Rightarrow> bool \<times> ('b, 'x, 'h, 'r, 'p) emu" where
  "handleSchedSyscall E num e =
     (if num = 98 then
        let uaddr = reg E 0 e; cmd = reg E 1 e AND 0x7f
        in (True,
            if cmd = 1 then (let (n, e) = wakeFutex uaddr e in set_reg E 0 (of_nat n) e)
            else if cmd = 0 then
              (let e = set_reg E 0 0 e
               in if e_curFiber e \<noteq> None then stop_run E (e\<lparr>e_yieldReason := YieldFutexWait, e_yieldAddr := uaddr\<rparr>) else e)
            else set_reg E 0 0 e)
      else if num = 101 \<or> num = 115 then
        let e = set_reg E 0 0 e
        in (True, if e_curFiber e \<noteq> None then stop_run E (e\<lparr>e_yieldReason := YieldSleep\<rparr>) else e)
      else (False, e))"

subsection \<open>Functions of libc in Go\<close>

definition hostGetauxval :: "('b, 'x, 'h, 'r, 'p) eenv \<Rightarrow> ('b, 'x, 'h, 'r, 'p) emu_step" where
  "hostGetauxval E e =
     (let t = reg E 0 e in set_reg E 0 (if t = 6 then 0x1000 else if t = 25 then e_atRandom e else 0) e)"

definition hostPthreadCreate :: "('b, 'x, 'h, 'r, 'p) eenv \<Rightarrow> ('b, 'x, 'h, 'r, 'p) emu_step" where
  "hostPthreadCreate E e =
     (let thr = reg E 0 e; (f, e) = newFiber E (reg E 2 e) (reg E 3 e) e;
          e = (if thr \<noteq> 0 then snd (putU64 E thr (fiberHandle (fb_id f)) e) else e)
      in set_reg E 0 0 e)"

definition hostPthreadJoin :: "('b, 'x, 'h, 'r, 'p) eenv \<Rightarrow> ('b, 'x, 'h, 'r, 'p) emu_step" where
  "hostPthreadJoin E e =
     (let tid = reg E 0 e; retp = reg E 1 e;
          result = (case fiberByHandle tid e of None \<Rightarrow> 0 | Some f \<Rightarrow> if fb_state f = FsDone then fb_ret f else 0);
          e = (if retp \<noteq> 0 then snd (putU64 E retp result e) else e)
      in set_reg E 0 0 e)"

definition hostRet0 :: "('b, 'x, 'h, 'r, 'p) eenv \<Rightarrow> ('b, 'x, 'h, 'r, 'p) emu_step" where
  "hostRet0 E e = set_reg E 0 0 e"

definition hostSystemPropertyGet :: "('b, 'x, 'h, 'r, 'p) eenv \<Rightarrow> ('b, 'x, 'h, 'r, 'p) emu_step" where
  "hostSystemPropertyGet E e =
     (let buf = reg E 1 e; name = c_str E (reg E 0 e) e
      in case (case ee_property E of None \<Rightarrow> None | Some P \<Rightarrow> P name) of
           None \<Rightarrow> set_reg E 0 0 (if buf \<noteq> 0 then poke_mem E buf [0] e else e)
         | Some v \<Rightarrow>
             let v = take 91 v
             in set_reg E 0 (of_nat (length v)) (if buf \<noteq> 0 then poke_mem E buf (bytes_of v @ [0]) e else e))"

fun run_host :: "host_fn \<Rightarrow> ('b, 'x, 'h, 'r, 'p) eenv \<Rightarrow> ('b, 'x, 'h, 'r, 'p) emu_step" where
  "run_host Getauxval = hostGetauxval"
| "run_host PthreadCreate = hostPthreadCreate"
| "run_host PthreadJoin = hostPthreadJoin"
| "run_host Ret0 = hostRet0"
| "run_host SystemPropertyGet = hostSystemPropertyGet"

definition registerHostFns :: "('b, 'x, 'h, 'r, 'p) eenv \<Rightarrow> ('b, 'x, 'h, 'r, 'p) emu_step" where
  "registerHostFns E e =
     (let (a, e) = Alloc E 16 (ProtRead OR ProtWrite) e;
          e = poke_mem E a (bytes_of ''gonidbg-randseed'') (e\<lparr>e_atRandom := a\<rparr>);
          t = (e_hostByName e)(''getauxval'' \<mapsto> Getauxval, ''pthread_create'' \<mapsto> PthreadCreate,
                 ''pthread_join'' \<mapsto> PthreadJoin, ''pthread_detach'' \<mapsto> Ret0)
      in e\<lparr>e_hostByName := (if ee_property E = None then t else t(''__system_property_get'' \<mapsto> SystemPropertyGet))\<rparr>)"

subsection \<open>Traps\<close>

definition insnAt :: "('b, 'x, 'h, 'r, 'p) eenv \<Rightarrow> u64 \<Rightarrow> ('b, 'x, 'h, 'r, 'p) emu \<Rightarrow> u32 option" where
  "insnAt E addr e =
     (case ReadBytes E addr 4 e of None \<Rightarrow> None | Some raw \<Rightarrow> if length raw < 4 then None else Some (ucast (le_val raw)))"

definition isSVCInsn :: "u32 \<Rightarrow> bool" where
  "isSVCInsn insn \<longleftrightarrow> insn AND 0xffe0001f = 0xd4000001"

definition isTrapInsn :: "u32 \<Rightarrow> bool" where
  "isTrapInsn insn \<longleftrightarrow> insn AND 0xffe0001f = 0xd4200000 \<or> insn AND 0xffe0001f = 0xd4400000"

definition isGuestSyscall :: "('b, 'x, 'h, 'r, 'p) eenv \<Rightarrow> u64 \<Rightarrow> ('b, 'x, 'h, 'r, 'p) emu \<Rightarrow> bool" where
  "isGuestSyscall E pc e =
     (if (case insnAt E pc e of None \<Rightarrow> False | Some i \<Rightarrow> isTrapInsn i) then False
      else case insnAt E (pc - 4) e of None \<Rightarrow> False | Some i \<Rightarrow> isSVCInsn i)"

text \<open>A system call: the scheduler's, a runaway one, or the kernel's; \<open>False\<close> when the kernel's handler panics.\<close>

definition guest_syscall :: "('b, 'x, 'h, 'r, 'p) eenv \<Rightarrow> ('b, 'x, 'h, 'r, 'p) emu \<Rightarrow> bool \<times> ('b, 'x, 'h, 'r, 'p) emu" where
  "guest_syscall E e =
     (case handleSchedSyscall E (reg E 8 e) e of
        (True, e) \<Rightarrow> (True, e)
      | (False, e) \<Rightarrow>
          let e = e\<lparr>e_scCount := e_scCount e + 1\<rparr>
          in if e_scCount e > 200000 then (True, stop_run E e)
             else case Dispatch (ee_K E) (e_k e) of
                  (False, k) \<Rightarrow> (False, e\<lparr>e_k := k\<rparr>)
                | (True, k) \<Rightarrow>
                    let e = e\<lparr>e_k := k\<rparr>
                    in (True,
                        if e_threadCap e > 0 then
                          let e = e\<lparr>e_threadOps := e_threadOps e + 1\<rparr>
                          in if e_threadOps e > e_threadCap e then stop_run E (e\<lparr>e_yieldReason := YieldPreempt\<rparr>) else e
                        else e))"

definition onInterrupt :: "('b, 'x, 'h, 'r, 'p) eenv \<Rightarrow> ('b, 'x, 'h, 'r, 'p) emu \<Rightarrow> bool \<times> ('b, 'x, 'h, 'r, 'p) emu" where
  "onInterrupt E e =
     (let pc = reg E RegPC e; svc = pc - 4
      in if svc = e_getEnvStub e then (True, set_reg E 0 0 (snd (putU64 E (reg E 1 e) (e_jniEnv e) e)))
         else case e_replaced e svc of
           Some fn \<Rightarrow> (True, let (v, e) = ee_user E fn e in set_reg E 0 v e)
         | None \<Rightarrow>
             (case e_jniDispatch e svc of
                Some idx \<Rightarrow> (True, handleJNI idx E e)
              | None \<Rightarrow>
                  (case e_hostImpl e svc of
                     Some fn \<Rightarrow> (True, run_host fn E e)
                   | None \<Rightarrow>
                       (case e_stubs e svc of
                          Some name \<Rightarrow>
                            (True, set_reg E 0 0 (e\<lparr>e_stubHits := (e_stubHits e)(name := e_stubHits e name + 1)\<rparr>))
                        | None \<Rightarrow> if \<not> isGuestSyscall E pc e then (True, stop_run E e) else guest_syscall E e))))"

text \<open>The hook as the engine calls it: a panic stops the run (\<open>guardHook\<close>).\<close>

definition interrupt :: "('b, 'x, 'h, 'r, 'p) eenv \<Rightarrow> ('b, 'x, 'h, 'r, 'p) emu_step" where
  "interrupt E e = (case onInterrupt E e of (True, e) \<Rightarrow> e | (False, e) \<Rightarrow> stop_run E e)"

subsection \<open>Slices\<close>

text \<open>What a fiber resumes from: the entry of its routine or its saved context. \<open>Inl\<close> when the slice ends here.\<close>

definition resume_fiber :: "('b, 'x, 'h, 'r, 'p) eenv \<Rightarrow> nat \<Rightarrow> ('b, 'x, 'h, 'r, 'p) emu \<Rightarrow> (bool + u64) \<times> ('b, 'x, 'h, 'r, 'p) emu" where
  "resume_fiber E i e =
     (let f = e_fibers e ! i
      in if \<not> fb_started f then
           (case with_be (RegWrite (be_of E) RegSP (fb_sp f)) e of
              (False, e) \<Rightarrow> (Inl False, e)
            | (True, e) \<Rightarrow>
                let e = set_reg E RegLR sentinel (set_reg E 0 (fb_arg f) e)
                in (Inr (fb_routine f), upd_fiber i (\<lambda>f. f\<lparr>fb_started := True\<rparr>) e))
         else case fb_ctx f of
           None \<Rightarrow> (Inl True, upd_fiber i (\<lambda>f. f\<lparr>fb_state := FsParked\<rparr>) e)
         | Some x \<Rightarrow>
             (case with_be (RestoreCtx (be_of E) x) e of
                (False, e) \<Rightarrow> (Inl True, upd_fiber i (\<lambda>f. f\<lparr>fb_ctx := None, fb_state := FsParked\<rparr>) e)
              | (True, e) \<Rightarrow> (let e = upd_fiber i (\<lambda>f. f\<lparr>fb_ctx := None\<rparr>) e in (Inr (reg E RegPC e), e))))"

text \<open>What happens when the run has stopped.\<close>

definition after_run :: "('b, 'x, 'h, 'r, 'p) eenv \<Rightarrow> nat \<Rightarrow> bool \<Rightarrow> ('b, 'x, 'h, 'r, 'p) emu \<Rightarrow> bool \<times> ('b, 'x, 'h, 'r, 'p) emu" where
  "after_run E i ok e =
     (if \<not> ok then (True, upd_fiber i (\<lambda>f. f\<lparr>fb_state := FsDone\<rparr>) e)
      else if k_Exited (e_k e) then (False, e)
      else if reg E RegPC e = sentinel then (True, upd_fiber i (\<lambda>f. f\<lparr>fb_state := FsDone, fb_ret := reg E 0 e\<rparr>) e)
      else case SaveCtx (be_of E) (k_be (e_k e)) of
        None \<Rightarrow> (True, upd_fiber i (\<lambda>f. f\<lparr>fb_state := FsParked\<rparr>) e)
      | Some x \<Rightarrow>
          (True, upd_fiber i (\<lambda>f.
             let f = f\<lparr>fb_ctx := Some x, fb_slices := fb_slices f + 1\<rparr>
             in if e_yieldReason e = YieldFutexWait then f\<lparr>fb_state := FsWaiting, fb_waitAddr := e_yieldAddr e\<rparr>
                else f\<lparr>fb_state := FsSleeping\<rparr>) e))"

definition runFiberSlice ::
  "('b, 'x, 'h, 'r, 'p) eenv \<Rightarrow> nat \<Rightarrow> ('b, 'x, 'h, 'r, 'p) emu \<Rightarrow> (bool \<times> ('b, 'x, 'h, 'r, 'p) emu) option" where
  "runFiberSlice E i e =
     (let e = e\<lparr>e_curFiber := Some i, e_yieldReason := YieldNone, e_threadCap := fiberSliceCap, e_threadOps := 0, e_scCount := 0\<rparr>
      in map_option (\<lambda>(ok, e). (ok, e\<lparr>e_curFiber := None, e_threadCap := 0\<rparr>))
           (case resume_fiber E i e of
              (Inl ok, e) \<Rightarrow> Some (ok, e)
            | (Inr pc, e) \<Rightarrow> map_option (\<lambda>(ok, e). after_run E i ok e) (ee_Start E pc sentinel e)))"

text \<open>One round over the fibers there are at its start: whether all went well, how many slices ran, whether any did.\<close>

fun sched_round ::
  "('b, 'x, 'h, 'r, 'p) eenv \<Rightarrow> nat list \<Rightarrow> nat \<Rightarrow> bool \<Rightarrow> ('b, 'x, 'h, 'r, 'p) emu
    \<Rightarrow> (bool \<times> nat \<times> bool \<times> ('b, 'x, 'h, 'r, 'p) emu) option" where
  "sched_round E [] cnt progressed e = Some (True, cnt, progressed, e)"
| "sched_round E (i # js) cnt progressed e =
     (if \<not> eligible (e_fibers e ! i) then sched_round E js cnt progressed e
      else if fb_slices (e_fibers e ! i) \<ge> fiberMaxSlices then sched_round E js cnt progressed (parkFiber i e)
      else case runFiberSlice E i e of
        None \<Rightarrow> None
      | Some (False, e) \<Rightarrow> Some (False, cnt, progressed, e)
      | Some (True, e) \<Rightarrow> sched_round E js (cnt + 1) True e)"

fun sched_rounds ::
  "nat \<Rightarrow> ('b, 'x, 'h, 'r, 'p) eenv \<Rightarrow> nat \<Rightarrow> ('b, 'x, 'h, 'r, 'p) emu \<Rightarrow> ((bool \<times> nat) \<times> ('b, 'x, 'h, 'r, 'p) emu) option" where
  "sched_rounds 0 E cnt e = Some ((True, cnt), e)"
| "sched_rounds (Suc n) E cnt e =
     (case sched_round E [0..<length (e_fibers e)] cnt False e of
        None \<Rightarrow> None
      | Some (False, cnt, _, e) \<Rightarrow> Some ((False, cnt), e)
      | Some (True, cnt, progressed, e) \<Rightarrow> if progressed then sched_rounds n E cnt e else Some ((True, cnt), e))"

definition RunThreads :: "('b, 'x, 'h, 'r, 'p) eenv \<Rightarrow> ('b, 'x, 'h, 'r, 'p) emu \<Rightarrow> ((bool \<times> nat) \<times> ('b, 'x, 'h, 'r, 'p) emu) option" where
  "RunThreads E e =
     (if \<not> anyRunnable e then Some ((True, 0), e)
      else case SaveCtx (be_of E) (k_be (e_k e)) of
        None \<Rightarrow> Some ((False, 0), e)
      | Some x \<Rightarrow> map_option (\<lambda>(r, e). (r, snd (with_be (RestoreCtx (be_of E) x) e))) (sched_rounds schedMaxRounds E 0 e))"

end
