(* ===== verification/Sched_Keep.thy ===== *)
theory Sched_Keep
  imports Scheduler
begin

text \<open>
  What a run of the guest does to the threads. \<open>guest_run\<close> is all that \<open>Start\<close> may do to the emulator: the
  engine changes its own state, and traps go to the interrupt handler. It wakes fibers that wait, adds new
  ones, and does nothing else to them.
\<close>

inductive guest_run :: "('b, 'x, 'h, 'r, 'p) eenv \<Rightarrow> ('b, 'x, 'h, 'r, 'p) emu \<Rightarrow> ('b, 'x, 'h, 'r, 'p) emu \<Rightarrow> bool" for E where
  idle: "guest_run E e e"
| engine: "guest_run E e e' \<Longrightarrow> guest_run E e (e'\<lparr>e_k := (e_k e')\<lparr>k_be := b\<rparr>\<rparr>)"
| trap: "guest_run E e e' \<Longrightarrow> guest_run E e (interrupt E e')"

lemma guest_run_trans: "guest_run E e' e'' \<Longrightarrow> guest_run E e e' \<Longrightarrow> guest_run E e e''"
  by (induction rule: guest_run.induct) (auto intro: guest_run.intros)

text \<open>The contract of the engine, and of the functions the embedding program installs.\<close>

definition starts_guest :: "('b, 'x, 'h, 'r, 'p) eenv \<Rightarrow> bool" where
  "starts_guest E \<longleftrightarrow> (\<forall>a u e ok e'. ee_Start E a u e = Some (ok, e') \<longrightarrow> guest_run E e e')"

definition sched_same :: "('b, 'x, 'h, 'r, 'p) emu \<Rightarrow> ('b, 'x, 'h, 'r, 'p) emu \<Rightarrow> bool" where
  "sched_same e e' \<longleftrightarrow> e_fibers e' = e_fibers e \<and> e_curFiber e' = e_curFiber e \<and> e_nextFiberID e' = e_nextFiberID e"

definition users_keep_threads :: "('b, 'x, 'h, 'r, 'p) eenv \<Rightarrow> bool" where
  "users_keep_threads E \<longleftrightarrow> (\<forall>n e. sched_same e (snd (ee_user E n e)))"

subsection \<open>Calls that leave the threads alone\<close>

lemma sched_same_refl [simp]: "sched_same e e"
  by (simp add: sched_same_def)

lemma sched_same_trans: "sched_same e e' \<Longrightarrow> sched_same e' e'' \<Longrightarrow> sched_same e e''"
  by (simp add: sched_same_def)

lemma basic_same [simp]:
  "sched_same e (snd (with_be f e))" "sched_same e (set_reg E r v e)" "sched_same e (poke_mem E a bs e)"
  "sched_same e (snd (putU64 E a v e))" "sched_same e (snd (Alloc E n p e))" "sched_same e (stop_run E e)"
  "sched_same e (snd (vm_do g e))" "sched_same e (vm_upd h e)" "sched_same e (set_bytes b bs e)"
  by (simp_all add: sched_same_def with_be_def set_reg_def poke_mem_def WriteBytes_def putU64_def Alloc_def stop_run_def
      vm_do_def vm_upd_def set_bytes_def split: prod.splits)

lemma same_then:
  "sched_same e e' \<Longrightarrow> sched_same e (set_reg E r v e')" "sched_same e e' \<Longrightarrow> sched_same e (poke_mem E a bs e')"
  "sched_same e e' \<Longrightarrow> sched_same e (snd (vm_do g e'))" "sched_same e e' \<Longrightarrow> sched_same e (snd (putU64 E a w e'))"
  "sched_same e e' \<Longrightarrow> sched_same e (vm_upd h e')"
  by (blast intro: sched_same_trans basic_same)+

lemma WriteScratch_same: "sched_same e (snd (WriteScratch E bs e))"
  by (simp add: WriteScratch_def split_def Let_def same_then)

lemma put_isCopy_same: "sched_same e e' \<Longrightarrow> sched_same e (put_isCopy v E e')"
  by (simp add: put_isCopy_def Let_def same_then)

lemma classRef_same: "sched_same e (snd (classRef name e))"
  by (simp add: classRef_def vm_do_def sched_same_def split_def Let_def split: option.split)

lemma box_result_same: "sched_same e e' \<Longrightarrow> sched_same e (snd (box_result r e'))"
  by (simp add: box_result_def split_def Let_def same_then split: option.split)

lemma tables_same [simp]:
  "sched_same e (e'\<lparr>e_methods := f1\<rparr>) = sched_same e e'" "sched_same e (e'\<lparr>e_fields := f2\<rparr>) = sched_same e e'"
  "sched_same e (e'\<lparr>e_natives := f3\<rparr>) = sched_same e e'" "sched_same e (e'\<lparr>e_staticFields := f4\<rparr>) = sched_same e e'"
  "sched_same e (e'\<lparr>e_arrayPins := f5\<rparr>) = sched_same e e'" "sched_same e (e'\<lparr>e_pendingExc := f6\<rparr>) = sched_same e e'"
  "sched_same e (e'\<lparr>e_k := f7\<rparr>) = sched_same e e'" "sched_same e (e'\<lparr>e_stubHits := f8\<rparr>) = sched_same e e'"
  "sched_same e (e'\<lparr>e_scCount := f9\<rparr>) = sched_same e e'" "sched_same e (e'\<lparr>e_threadOps := f10\<rparr>) = sched_same e e'"
  "sched_same e (e'\<lparr>e_yieldReason := f11\<rparr>) = sched_same e e'" "sched_same e (e'\<lparr>e_yieldAddr := f12\<rparr>) = sched_same e e'"
  by (simp_all add: sched_same_def)

lemma class_functions_same:
  "sched_same e (snd (jni_FindClass E e))" "sched_same e (snd (jni_GetObjectClass E e))" "sched_same e (snd (jni_GetSuperclass E e))"
  "sched_same e (snd (jni_IsAssignableFrom E e))" "sched_same e (snd (jni_IsInstanceOf E e))" "sched_same e (snd (jni_IsSameObject E e))"
  "sched_same e (snd (jni_GetMethodID st E e))" "sched_same e (snd (jni_GetFieldID st E e))"
  by (simp_all add: jni_FindClass_def jni_GetObjectClass_def jni_GetSuperclass_def jni_IsAssignableFrom_def jni_IsInstanceOf_def
      jni_IsSameObject_def jni_GetMethodID_def jni_GetFieldID_def split_def Let_def classRef_same split: option.split)

lemma string_functions_same:
  "sched_same e (snd (jni_NewStringUTF E e))" "sched_same e (snd (jni_NewString E e))" "sched_same e (snd (jni_GetStringLength E e))"
  "sched_same e (snd (jni_GetStringUTFLength E e))" "sched_same e (snd (jni_GetStringUTFChars E e))"
  "sched_same e (snd (jni_GetStringChars v E e))" "sched_same e (snd (jni_GetStringRegion E e))" "sched_same e (snd (jni_GetStringUTFRegion E e))"
  by (simp_all add: jni_NewStringUTF_def jni_NewString_def jni_GetStringLength_def jni_GetStringUTFLength_def jni_GetStringUTFChars_def
      jni_GetStringChars_def jni_GetStringRegion_def jni_GetStringUTFRegion_def split_def Let_def put_isCopy_same WriteScratch_same
      split: option.split)

lemma array_functions_same:
  "sched_same e (snd (jni_GetArrayLength E e))" "sched_same e (snd (jni_NewObjectArray E e))" "sched_same e (snd (jni_GetObjectArrayElement E e))"
  "sched_same e (snd (jni_SetObjectArrayElement E e))" "sched_same e (snd (jni_NewByteArray E e))" "sched_same e (snd (jni_GetElements v E e))"
  "sched_same e (snd (jni_ReleaseElements E e))" "sched_same e (snd (jni_GetByteArrayRegion E e))" "sched_same e (snd (jni_SetByteArrayRegion E e))"
  by (simp_all add: jni_GetArrayLength_def jni_NewObjectArray_def jni_GetObjectArrayElement_def jni_SetObjectArrayElement_def
      jni_NewByteArray_def jni_GetElements_def jni_ReleaseElements_def jni_GetByteArrayRegion_def jni_SetByteArrayRegion_def
      split_def Let_def put_isCopy_same WriteScratch_same same_then split: option.split payload.split)

lemma register_natives_same: "sched_same e (register_natives n E cls clsName a e)"
proof (induction n arbitrary: a e)
  case (Suc n)
  show ?case
  proof (cases "ReadBytes E a 24 e")
    case (Some ent)
    let ?name = "c_str E (le_val (take 8 ent)) e" and ?sg = "c_str E (le_val (take 8 (drop 8 ent))) e"
    let ?p = "case cls of None \<Rightarrow> (True, e) | Some c \<Rightarrow> vm_do (AcceptMethod (ee_jni E) c (clsName @ ''->'' @ ?name @ ?sg) False) e"
    have p: "sched_same e (snd ?p)" by (simp split: option.split)
    then show ?thesis
      using Some Suc.IH [where a = "a + 24" and e = "snd ?p"]
        Suc.IH [where a = "a + 24" and e = "(snd ?p)\<lparr>e_natives := (e_natives (snd ?p))(clsName @ ''.'' @ ?name @ ?sg \<mapsto> le_val (take 8 (drop 16 ent)))\<rparr>"]
      by (simp add: split_def Let_def) (auto simp: sched_same_def)
  qed simp
qed simp

lemma call_functions_same:
  "sched_same e (snd (callStatic mode E e))" "sched_same e (snd (jni_CallStaticInt mode E e))" "sched_same e (snd (jni_CallStaticVoid mode E e))"
  "sched_same e (snd (jni_CallObject mode E e))" "sched_same e (snd (jni_CallBoolean mode E e))" "sched_same e (snd (jni_CallInt mode E e))"
  "sched_same e (snd (jni_CallLong mode E e))" "sched_same e (snd (jni_CallVoid mode E e))" "sched_same e (snd (jni_AllocObject E e))"
  by (simp_all add: callStatic_def jni_CallStaticInt_def jni_CallStaticVoid_def jni_CallObject_def jni_CallBoolean_def jni_CallInt_def
      jni_CallLong_def jni_CallVoid_def jni_AllocObject_def split_def Let_def box_result_same split: option.split)

lemma NewObject_same: "sched_same e (snd (jni_NewObject mode E e))"
  by (simp add: jni_NewObject_def split_def Let_def box_result_same same_then split: option.split)

lemma field_functions_same:
  "sched_same e (snd (jni_GetField kind E e))" "sched_same e (snd (jni_SetField kind E e))"
  "sched_same e (snd (jni_GetStaticField kind E e))" "sched_same e (snd (jni_SetStaticField E e))"
  by (simp_all add: jni_GetField_def jni_SetField_def jni_GetStaticField_def jni_SetStaticField_def getField_def setField_def
      getStaticField_def split_def Let_def box_result_same same_then split: option.split)

lemma handleJNI_same: "sched_same e (handleJNI idx E e)"
proof -
  have "sched_same e (snd (jni_slot idx E e))"
    unfolding jni_slot_def
    by (simp add: class_functions_same string_functions_same array_functions_same call_functions_same NewObject_same
        field_functions_same jni_RegisterNatives_def register_natives_same jni_GetJavaVM_def Let_def)
  then show ?thesis by (simp add: handleJNI_def split_def Let_def same_then)
qed

end
