(* ===== verification/Sched_Inv.thy ===== *)
theory Sched_Inv
  imports Sched_Keep
begin

text \<open>
  The threads over a run of the scheduler: how a slice changes the fibers, and the budget that makes
  \<open>RunThreads\<close> come to rest.
\<close>

subsection \<open>Fibers while the guest runs\<close>

definition fib_step :: "'x fiber \<Rightarrow> 'x fiber \<Rightarrow> bool" where
  "fib_step f f' \<longleftrightarrow> f' = f \<or> (fb_state f = FsWaiting \<or> fb_state f = FsParked) \<and> f' = f\<lparr>fb_state := FsRunnable\<rparr>"

definition fresh_fiber :: "'x fiber \<Rightarrow> bool" where
  "fresh_fiber f \<longleftrightarrow> \<not> fb_started f \<and> fb_ctx f = None \<and> fb_state f = FsRunnable \<and> fb_slices f = 0"

definition fibs_step :: "('b, 'x, 'h, 'r, 'p) emu \<Rightarrow> ('b, 'x, 'h, 'r, 'p) emu \<Rightarrow> bool" where
  "fibs_step e e' \<longleftrightarrow> e_curFiber e' = e_curFiber e \<and> length (e_fibers e) \<le> length (e_fibers e') \<and>
     (\<forall>i < length (e_fibers e). fib_step (e_fibers e ! i) (e_fibers e' ! i)) \<and>
     (\<forall>i < length (e_fibers e'). length (e_fibers e) \<le> i \<longrightarrow> fresh_fiber (e_fibers e' ! i))"

lemma fib_step_refl [simp]: "fib_step f f"
  by (simp add: fib_step_def)

lemma fib_step_trans: "fib_step f g \<Longrightarrow> fib_step g h \<Longrightarrow> fib_step f h"
  by (auto simp: fib_step_def)

lemma fib_step_fresh: "fresh_fiber f \<Longrightarrow> fib_step f g \<Longrightarrow> fresh_fiber g"
  by (auto simp: fresh_fiber_def fib_step_def)

lemma fibs_step_refl [simp]: "fibs_step e e"
  by (simp add: fibs_step_def)

lemma fibs_step_trans:
  assumes "fibs_step e e'" and "fibs_step e' e''"
  shows "fibs_step e e''"
proof -
  have "fresh_fiber (e_fibers e'' ! i)" if "i < length (e_fibers e'')" "length (e_fibers e) \<le> i" for i
  proof (cases "i < length (e_fibers e')")
    case True
    then have "fresh_fiber (e_fibers e' ! i)" "fib_step (e_fibers e' ! i) (e_fibers e'' ! i)"
      using assms that by (simp_all add: fibs_step_def)
    then show ?thesis by (rule fib_step_fresh)
  qed (use assms that in \<open>simp add: fibs_step_def\<close>)
  then show ?thesis
    using assms by (auto simp: fibs_step_def intro: fib_step_trans)
qed

lemma same_fibs_step: "sched_same e e' \<Longrightarrow> fibs_step e e'"
  by (simp add: sched_same_def fibs_step_def)

lemma fibs_step_same: "fibs_step e e' \<Longrightarrow> sched_same e' e'' \<Longrightarrow> fibs_step e e''"
  by (rule fibs_step_trans [OF _ same_fibs_step])

lemma wakeFutex_step: "fibs_step e (snd (wakeFutex uaddr e))"
  by (auto simp: wakeFutex_def fibs_step_def fib_step_def wakes_def)

lemma newFiber_step: "fibs_step e (snd (newFiber E routine arg e))"
proof -
  have "e_fibers (snd (Alloc E n p e)) = e_fibers e" "e_curFiber (snd (Alloc E n p e)) = e_curFiber e" for n p and e :: "('a, 'b, 'c, 'd, 'e) emu"
    using basic_same(5) [of e E n p] by (simp_all add: sched_same_def)
  then show ?thesis
    by (auto simp: newFiber_def split_def Let_def fibs_step_def nth_append fresh_fiber_def)
qed

lemma run_host_step: "fibs_step e (run_host fn E e)"
proof (cases fn)
  case PthreadCreate
  show ?thesis
    unfolding PthreadCreate run_host.simps hostPthreadCreate_def split_def Let_def
    by (rule fibs_step_same [OF newFiber_step [of e E "reg E 2 e" "reg E 3 e"]]) (simp add: same_then)
qed (simp_all add: hostGetauxval_def hostPthreadJoin_def hostRet0_def hostSystemPropertyGet_def Let_def same_fibs_step same_then
    split: option.split)

lemma sched_syscall_step: "fibs_step e (snd (handleSchedSyscall E num e))"
proof -
  have "fibs_step e (set_reg E 0 v (snd (wakeFutex u e)))" for v u
    by (rule fibs_step_same [OF wakeFutex_step [of e u]]) simp
  moreover have "sched_same e (stop_run E (e'\<lparr>e_yieldReason := y\<rparr>))" "sched_same e (stop_run E (e'\<lparr>e_yieldReason := y, e_yieldAddr := u\<rparr>))"
    if "sched_same e e'" for e' y u
    using that by (simp_all add: sched_same_def stop_run_def)
  ultimately show ?thesis
    by (auto simp: handleSchedSyscall_def split_def Let_def intro!: same_fibs_step)
qed

lemma guest_syscall_step: "fibs_step e (snd (guest_syscall E e))"
proof -
  obtain b e1 where h: "handleSchedSyscall E (reg E 8 e) e = (b, e1)" by fastforce
  then have e1: "fibs_step e e1" using sched_syscall_step [of e E "reg E 8 e"] by simp
  have "sched_same e1 (snd (guest_syscall E e))"
    by (auto simp: guest_syscall_def h Let_def sched_same_def stop_run_def split: bool.split prod.split)
  then show ?thesis by (rule fibs_step_same [OF e1])
qed

lemma interrupt_step:
  assumes "users_keep_threads E"
  shows "fibs_step e (interrupt E e)"
proof -
  have u: "sched_same e (set_reg E 0 (fst (ee_user E fn e)) (snd (ee_user E fn e)))" for fn
    using assms by (simp add: users_keep_threads_def same_then(1))
  have "fibs_step e (snd (onInterrupt E e))"
    by (auto simp: onInterrupt_def split_def Let_def same_then handleJNI_same u run_host_step guest_syscall_step
        intro!: same_fibs_step split: option.split)
  moreover have "sched_same e' (stop_run E e')" for e' :: "('a, 'b, 'c, 'd, 'e) emu" by simp
  ultimately show ?thesis
    unfolding interrupt_def by (auto split: prod.split bool.split intro: fibs_step_same)
qed

lemma guest_run_step:
  assumes "users_keep_threads E"
  shows "guest_run E e e' \<Longrightarrow> fibs_step e e'"
proof (induction rule: guest_run.induct)
  case (engine e e' b)
  show ?case by (rule fibs_step_same [OF engine.IH]) simp
next
  case (trap e e')
  show ?case by (rule fibs_step_trans [OF trap.IH interrupt_step [OF assms]])
qed simp

subsection \<open>The budget\<close>

definition used :: "'x fiber \<Rightarrow> nat" where
  "used f = (if fb_state f = FsDone then 81 else fb_slices f)"

definition used_all :: "('b, 'x, 'h, 'r, 'p) emu \<Rightarrow> nat" where
  "used_all e = sum_list (map used (e_fibers e))"

text \<open>Between slices: a fiber that may still run can be resumed, and only a spent budget parks one.\<close>

definition fiber_ok :: "'x fiber \<Rightarrow> bool" where
  "fiber_ok f \<longleftrightarrow> fb_slices f \<le> 80 \<and> (fb_state f = FsParked \<longrightarrow> fb_slices f = 80) \<and>
     (fb_started f \<longrightarrow> fb_slices f < 80 \<longrightarrow> fb_state f \<noteq> FsDone \<longrightarrow> fb_ctx f \<noteq> None)"

definition sched_ok :: "('b, 'x, 'h, 'r, 'p) emu \<Rightarrow> bool" where
  "sched_ok e \<longleftrightarrow> (\<forall>f \<in> set (e_fibers e). fiber_ok f)"

definition contexts_work :: "('b, 'x) backend \<Rightarrow> bool" where
  "contexts_work B \<longleftrightarrow> (\<forall>b. SaveCtx B b \<noteq> None) \<and> (\<forall>x b. fst (RestoreCtx B x b))"

lemma used_bound: "fiber_ok f \<Longrightarrow> used f \<le> 81"
  by (simp add: fiber_ok_def used_def)

lemma sum_list_le: "\<forall>f \<in> set fs. u f \<le> (n :: nat) \<Longrightarrow> sum_list (map u fs) \<le> n * length fs"
  by (induction fs) auto

lemma used_all_bound: "sched_ok e \<Longrightarrow> used_all e \<le> 81 * length (e_fibers e)"
  unfolding used_all_def sched_ok_def using sum_list_le [of "e_fibers e" used 81] used_bound by blast

lemma sum_nth_mono:
  assumes "length xs \<le> length ys" and "\<forall>j < length xs. u (xs ! j) \<le> (u (ys ! j) :: nat)"
  shows "sum_list (map u xs) \<le> sum_list (map u ys)"
proof -
  have "sum_list (map u xs) = (\<Sum>j = 0..<length xs. u (xs ! j))" by (simp add: sum_list_sum_nth)
  also have "\<dots> \<le> (\<Sum>j = 0..<length xs. u (ys ! j))" by (rule sum_mono) (simp add: assms(2))
  also have "\<dots> \<le> (\<Sum>j = 0..<length ys. u (ys ! j))" by (rule sum_mono2) (use assms(1) in auto)
  finally show ?thesis by (simp add: sum_list_sum_nth)
qed

lemma sum_nth_less:
  assumes "length xs \<le> length ys" and "\<forall>j < length xs. u (xs ! j) \<le> (u (ys ! j) :: nat)" and "i < length xs" and "u (xs ! i) < u (ys ! i)"
  shows "sum_list (map u xs) < sum_list (map u ys)"
proof -
  have "sum_list (map u xs) = (\<Sum>j = 0..<length xs. u (xs ! j))" by (simp add: sum_list_sum_nth)
  also have "\<dots> < (\<Sum>j = 0..<length xs. u (ys ! j))" by (rule sum_strict_mono_ex1) (use assms(2-4) in auto)
  also have "\<dots> \<le> (\<Sum>j = 0..<length ys. u (ys ! j))" by (rule sum_mono2) (use assms(1) in auto)
  finally show ?thesis by (simp add: sum_list_sum_nth)
qed

lemma fib_step_used: "fib_step f f' \<Longrightarrow> used f' = used f"
  by (auto simp: fib_step_def used_def)

lemma fib_step_ok: "fib_step f f' \<Longrightarrow> fiber_ok f \<Longrightarrow> fiber_ok f'"
  by (auto simp: fib_step_def fiber_ok_def)

lemma fresh_fiber_ok: "fresh_fiber f \<Longrightarrow> fiber_ok f"
  by (simp add: fresh_fiber_def fiber_ok_def)

lemma upd_fiber_fibers [simp]: "e_fibers (upd_fiber i g e) = (e_fibers e)[i := g (e_fibers e ! i)]"
  by (simp add: upd_fiber_def)

text \<open>A slice of a fiber that may run starts it, or resumes it from its context.\<close>

lemma resume_cases:
  assumes "contexts_work (be_of E)" and "i < length (e_fibers e)" and ok: "fiber_ok (e_fibers e ! i)"
    and el: "eligible (e_fibers e ! i)" "fb_slices (e_fibers e ! i) < 80"
  obtains (fails) e1 where "resume_fiber E i e = (Inl False, e1)"
  | (runs) pc e1 g where "resume_fiber E i e = (Inr pc, e1)" and "e_fibers e1 = (e_fibers e)[i := g]" and "eligible g"
    and "fb_slices g = fb_slices (e_fibers e ! i)" and "fb_started g"
proof (cases "fb_started (e_fibers e ! i)")
  case False
  obtain b e1 where w: "with_be (RegWrite (be_of E) RegSP (fb_sp (e_fibers e ! i))) e = (b, e1)" by fastforce
  have s: "e_fibers e1 = e_fibers e" using basic_same(1) [of e "RegWrite (be_of E) RegSP (fb_sp (e_fibers e ! i))"] w by (simp add: sched_same_def)
  have "e_fibers (set_reg E 14 v (set_reg E 0 u e1)) = e_fibers e" for v u
    using same_then(1) [OF basic_same(2) [of e1 E 0 u], of E 14 v] s by (simp add: sched_same_def)
  then show ?thesis
    using False w fails runs [of "fb_routine (e_fibers e ! i)" _ "(e_fibers e ! i)\<lparr>fb_started := True\<rparr>"] el
    by (cases b) (auto simp: resume_fiber_def Let_def eligible_def)
next
  case True
  then obtain x where x: "fb_ctx (e_fibers e ! i) = Some x" using ok el by (auto simp: fiber_ok_def eligible_def)
  obtain b e1 where w: "with_be (RestoreCtx (be_of E) x) e = (b, e1)" by fastforce
  have b: b using assms(1) w by (auto simp: contexts_work_def with_be_def on_be_def split: prod.splits) (metis fst_conv)
  have s: "e_fibers e1 = e_fibers e" using basic_same(1) [of e "RestoreCtx (be_of E) x"] w by (simp add: sched_same_def)
  show ?thesis
    using True x w b s el runs [of _ _ "(e_fibers e ! i)\<lparr>fb_ctx := None\<rparr>"]
    by (auto simp: resume_fiber_def Let_def eligible_def)
qed

lemma after_run_cases:
  assumes "contexts_work (be_of E)" and "after_run E i ok e = (True, e')"
  obtains (ended) h where "e_fibers e' = (e_fibers e)[i := h]" and "fb_state h = FsDone" and "fb_slices h = fb_slices (e_fibers e ! i)"
  | (yielded) h where "e_fibers e' = (e_fibers e)[i := h]" and "fb_slices h = Suc (fb_slices (e_fibers e ! i))" and "fb_ctx h \<noteq> None"
    and "fb_state h \<in> {FsWaiting, FsSleeping}"
proof -
  obtain x where "SaveCtx (be_of E) (k_be (e_k e)) = Some x" using assms(1) unfolding contexts_work_def by blast
  then show ?thesis
    using assms(2) that unfolding after_run_def by (fastforce simp: Let_def split: if_splits)
qed

lemma slice_progress:
  assumes "contexts_work (be_of E)" and "users_keep_threads E" and "starts_guest E" and ok: "sched_ok e"
    and i: "i < length (e_fibers e)" and el: "eligible (e_fibers e ! i)" "fb_slices (e_fibers e ! i) < 80"
    and r: "runFiberSlice E i e = Some (True, e')"
  shows "sched_ok e'" and "length (e_fibers e) \<le> length (e_fibers e')" and "used_all e < used_all e'"
proof -
  define e0 where "e0 = e\<lparr>e_curFiber := Some i, e_yieldReason := YieldNone, e_threadCap := 20000, e_threadOps := 0, e_scCount := 0\<rparr>"
  have e0: "e_fibers e0 = e_fibers e" by (simp add: e0_def)
  have fi: "fiber_ok (e_fibers e ! i)" using ok i by (simp add: sched_ok_def)
  have r0: "map_option (\<lambda>(ok, e). (ok, e\<lparr>e_curFiber := None, e_threadCap := 0\<rparr>))
      (case resume_fiber E i e0 of
         (Inl ok, e) \<Rightarrow> Some (ok, e)
       | (Inr pc, e) \<Rightarrow> map_option (\<lambda>(ok, e). after_run E i ok e) (ee_Start E pc sentinel e)) = Some (True, e')"
    using r by (simp add: runFiberSlice_def e0_def)
  have in0: "i < length (e_fibers e0)" "fiber_ok (e_fibers e0 ! i)" "eligible (e_fibers e0 ! i)" "fb_slices (e_fibers e0 ! i) < 80"
    using i fi el by (simp_all add: e0)
  have "sched_ok e' \<and> length (e_fibers e) \<le> length (e_fibers e') \<and> used_all e < used_all e'"
    using assms(1) in0
  proof (cases rule: resume_cases)
    case (fails e1)
    then show ?thesis using r0 by simp
  next
    case (runs pc e1 g)
    then obtain ok2 e2 ok3 e3 where st: "ee_Start E pc sentinel e1 = Some (ok2, e2)" and ar: "after_run E i ok2 e2 = (True, e3)"
      and e': "e' = e3\<lparr>e_curFiber := None, e_threadCap := 0\<rparr>"
      using r0 by (cases "ee_Start E pc sentinel e1") (auto split: prod.splits)
    have f2: "fibs_step e1 e2" using guest_run_step [OF assms(2)] assms(3) st unfolding starts_guest_def by blast
    have e1: "e_fibers e1 = (e_fibers e)[i := g]" using runs(2) e0 by simp
    have len: "length (e_fibers e) \<le> length (e_fibers e2)" using f2 e1 by (simp add: fibs_step_def)
    have gi: "e_fibers e2 ! i = g"
      using f2 e1 i runs(3) by (auto simp: fibs_step_def fib_step_def eligible_def)
    have others: "fib_step (e_fibers e ! j) (e_fibers e2 ! j)" if "j < length (e_fibers e)" "j \<noteq> i" for j
      using f2 e1 that by (auto simp: fibs_step_def)
    have new: "fresh_fiber (e_fibers e2 ! j)" if "j < length (e_fibers e2)" "length (e_fibers e) \<le> j" for j
      using f2 e1 that by (simp add: fibs_step_def)
    obtain h where h: "e_fibers e' = (e_fibers e2)[i := h]" "fiber_ok h" "used (e_fibers e ! i) < used h"
    proof (rule after_run_cases [OF assms(1) ar])
      fix h assume h: "e_fibers e3 = (e_fibers e2)[i := h]" "fb_state h = FsDone" "fb_slices h = fb_slices (e_fibers e2 ! i)"
      show thesis
        by (rule that [of h]) (use h gi runs(4) el e' e0 in \<open>auto simp: fiber_ok_def used_def eligible_def\<close>)
    next
      fix h assume h: "e_fibers e3 = (e_fibers e2)[i := h]" "fb_slices h = Suc (fb_slices (e_fibers e2 ! i))" "fb_ctx h \<noteq> None"
        "fb_state h \<in> {FsWaiting, FsSleeping}"
      show thesis
        by (rule that [of h]) (use h gi runs(4) el e' e0 in \<open>auto simp: fiber_ok_def used_def eligible_def\<close>)
    qed
    have at: "e_fibers e' ! j = (if j = i then h else e_fibers e2 ! j)" if "j < length (e_fibers e')" for j
      using that h(1) by simp
    have lens: "length (e_fibers e') = length (e_fibers e2)" using h(1) by simp
    have "fiber_ok (e_fibers e' ! j)" if "j < length (e_fibers e')" for j
    proof (cases "j = i")
      case False
      then show ?thesis
        using that ok others [of j] new [of j] at [of j] lens
        by (cases "j < length (e_fibers e)") (auto simp: sched_ok_def intro: fib_step_ok fresh_fiber_ok)
    qed (use at h that in simp)
    then have "sched_ok e'" by (auto simp: sched_ok_def in_set_conv_nth)
    moreover have "used_all e < used_all e'"
      unfolding used_all_def
    proof (rule sum_nth_less [of _ _ _ i])
      show "\<forall>j < length (e_fibers e). used (e_fibers e ! j) \<le> used (e_fibers e' ! j)"
      proof (intro allI impI)
        fix j assume j: "j < length (e_fibers e)"
        show "used (e_fibers e ! j) \<le> used (e_fibers e' ! j)"
          using at [of j] h(3) others [of j] fib_step_used [of "e_fibers e ! j" "e_fibers e2 ! j"] j len lens by (cases "j = i") simp_all
      qed
      show "used (e_fibers e ! i) < used (e_fibers e' ! i)" using at [of i] h(3) i len lens by simp
    qed (use i len lens in simp_all)
    ultimately show ?thesis using len lens by simp
  qed
  then show "sched_ok e'" and "length (e_fibers e) \<le> length (e_fibers e')" and "used_all e < used_all e'" by simp_all
qed

subsection \<open>Rounds\<close>

lemma park_spent:
  assumes "sched_ok e" and "i < length (e_fibers e)" and "eligible (e_fibers e ! i)" and "fb_slices (e_fibers e ! i) \<ge> 80"
  shows "sched_ok (parkFiber i e)" and "used_all (parkFiber i e) = used_all e" and "length (e_fibers (parkFiber i e)) = length (e_fibers e)"
proof -
  let ?f = "e_fibers e ! i" and ?p = "(e_fibers e ! i)\<lparr>fb_state := FsParked, fb_ctx := None\<rparr>"
  have ok: "fiber_ok ?f" using assms(1,2) by (simp add: sched_ok_def)
  have p: "fiber_ok ?p" "used ?p = used ?f" using ok assms(3,4) by (auto simp: fiber_ok_def used_def eligible_def)
  have fs: "e_fibers (parkFiber i e) = (e_fibers e)[i := ?p]" by (simp add: parkFiber_def)
  show "sched_ok (parkFiber i e)"
    using assms(1) p(1) set_update_subset_insert [of "e_fibers e" i ?p] unfolding sched_ok_def fs by blast
  show "length (e_fibers (parkFiber i e)) = length (e_fibers e)" by (simp add: fs)
  have "map used ((e_fibers e)[i := ?p]) = map used (e_fibers e)"
    using p(2) by (simp add: map_update list_update_same_conv assms(2))
  then show "used_all (parkFiber i e) = used_all e" by (simp add: used_all_def fs)
qed

lemma round_progress:
  assumes "contexts_work (be_of E)" and "users_keep_threads E" and "starts_guest E"
  shows "sched_ok e \<Longrightarrow> \<forall>j \<in> set js. j < length (e_fibers e) \<Longrightarrow> sched_round E js cnt p e = Some (True, cnt', p', e') \<Longrightarrow>
    sched_ok e' \<and> length (e_fibers e) \<le> length (e_fibers e') \<and> cnt \<le> cnt' \<and> used_all e + cnt' \<le> used_all e' + cnt \<and>
    (p' \<longleftrightarrow> p \<or> cnt < cnt')"
proof (induction js arbitrary: cnt p e)
  case (Cons i js)
  have i: "i < length (e_fibers e)" using Cons.prems(2) by simp
  consider (skip) "\<not> eligible (e_fibers e ! i)" | (park) "eligible (e_fibers e ! i)" "fb_slices (e_fibers e ! i) \<ge> 80"
    | (slice) "eligible (e_fibers e ! i)" "fb_slices (e_fibers e ! i) < 80" by linarith
  then show ?case
  proof cases
    case skip
    then show ?thesis using Cons.IH [of e cnt p] Cons.prems by simp
  next
    case park
    then show ?thesis using Cons.IH [of "parkFiber i e" cnt p] Cons.prems park_spent [OF Cons.prems(1) i] by simp
  next
    case slice
    then obtain e1 where r: "runFiberSlice E i e = Some (True, e1)" and rest: "sched_round E js (cnt + 1) True e1 = Some (True, cnt', p', e')"
      using Cons.prems(3) by (auto split: option.splits bool.splits)
    note pr = slice_progress [OF assms Cons.prems(1) i slice r]
    have "\<forall>j \<in> set js. j < length (e_fibers e1)" using Cons.prems(2) pr(2) by auto
    from Cons.IH [OF pr(1) this rest] show ?thesis using pr by auto
  qed
qed simp

text \<open>A round without a slice leaves nothing eligible among the fibers it looked at.\<close>

lemma round_rest:
  "sched_round E js cnt False e = Some (True, cnt', False, e') \<Longrightarrow> \<forall>j \<in> set js. j < length (e_fibers e) \<Longrightarrow>
   length (e_fibers e') = length (e_fibers e) \<and>
   (\<forall>j. (j \<in> set js \<or> \<not> eligible (e_fibers e ! j)) \<longrightarrow> j < length (e_fibers e) \<longrightarrow> \<not> eligible (e_fibers e' ! j))"
proof (induction js arbitrary: e)
  case (Cons i js)
  have stays: "sched_round E js c True e1 = Some (True, c', False, e2) \<Longrightarrow> False" for c e1 c' e2
    by (induction js arbitrary: c e1) (auto split: if_splits option.splits bool.splits)
  show ?case
  proof (cases "eligible (e_fibers e ! i) \<and> fb_slices (e_fibers e ! i) < 80")
    case True
    then show ?thesis using Cons.prems(1) by (auto split: option.splits bool.splits dest: stays)
  next
    case False
    then consider "\<not> eligible (e_fibers e ! i)" "sched_round E js cnt False e = Some (True, cnt', False, e')"
      | "sched_round E js cnt False (parkFiber i e) = Some (True, cnt', False, e')" "eligible (e_fibers e ! i)"
      using Cons.prems(1) by (auto split: if_splits)
    then show ?thesis
    proof cases
      case 1
      then show ?thesis using Cons.IH [of e] Cons.prems(2) by auto
    next
      case 2
      have "\<not> eligible (e_fibers (parkFiber i e) ! j)" if "j = i \<or> \<not> eligible (e_fibers e ! j)" "j < length (e_fibers e)" for j
        using that by (cases "j = i") (auto simp: parkFiber_def eligible_def)
      then show ?thesis using Cons.IH [OF 2(1)] Cons.prems(2) by (auto simp: parkFiber_def)
    qed
  qed
qed simp

lemma rounds_progress:
  assumes "contexts_work (be_of E)" and "users_keep_threads E" and "starts_guest E"
  shows "sched_ok e \<Longrightarrow> sched_rounds n E cnt e = Some ((True, cnt'), e') \<Longrightarrow>
    sched_ok e' \<and> cnt \<le> cnt' \<and> used_all e + cnt' \<le> used_all e' + cnt \<and> (anyRunnable e' \<longrightarrow> n + cnt \<le> cnt')"
proof (induction n arbitrary: cnt e)
  case (Suc n)
  obtain c1 p1 e1 where rd: "sched_round E [0..<length (e_fibers e)] cnt False e = Some (True, c1, p1, e1)"
    and rest: "if p1 then sched_rounds n E c1 e1 = Some ((True, cnt'), e') else c1 = cnt' \<and> e1 = e'"
    using Suc.prems(2) by (auto split: option.splits bool.splits if_splits)
  have r: "sched_ok e1" "cnt \<le> c1" "used_all e + c1 \<le> used_all e1 + cnt" "p1 \<longleftrightarrow> cnt < c1"
    using round_progress [OF assms Suc.prems(1) _ rd] by auto
  show ?case
  proof (cases p1)
    case True
    then have i: "sched_ok e' \<and> c1 \<le> cnt' \<and> used_all e1 + cnt' \<le> used_all e' + c1 \<and> (anyRunnable e' \<longrightarrow> n + c1 \<le> cnt')"
      using Suc.IH [OF r(1)] rest by simp
    then show ?thesis using r True by auto
  next
    case False
    then have eqs: "c1 = cnt'" "e1 = e'" using rest by simp_all
    have "sched_round E [0..<length (e_fibers e)] cnt False e = Some (True, cnt', False, e')" using rd eqs False by simp
    then have rr: "length (e_fibers e') = length (e_fibers e) \<and> (\<forall>j. (j \<in> set [0..<length (e_fibers e)] \<or>
        \<not> eligible (e_fibers e ! j)) \<longrightarrow> j < length (e_fibers e) \<longrightarrow> \<not> eligible (e_fibers e' ! j))" by (rule round_rest) simp
    have "\<not> eligible (e_fibers e' ! j)" if "j < length (e_fibers e')" for j
    proof -
      have "j < length (e_fibers e)" using that rr by linarith
      moreover from this have "j \<in> set [0..<length (e_fibers e)]" by simp
      ultimately show ?thesis using rr by blast
    qed
    then have "\<not> anyRunnable e'" unfolding anyRunnable_def list_ex_length by blast
    then show ?thesis using r(1-3) unfolding eqs by blast
  qed
qed simp

end
