(* ===== verification/Jni_Keep.thy ===== *)
theory Jni_Keep
  imports Jni_Table Dvm_Props
begin

text \<open>
  What a JNI call leaves alone. \<open>vm_grows\<close> relates the VM before and after: handles go on naming their
  objects, an object that stands for a class still does, classes and interned members stay. \<open>emu_ok\<close> is the
  invariant of the emulator's tables over the VM. The locale \<open>jni_handler\<close> is the contract of the embedding
  program's handler (\<open>dvm.Jni\<close>): its callbacks only let the VM grow, by at most \<open>k\<close> handles and
  identifiers, and return pointers to objects that exist.
\<close>

subsection \<open>The VM vm_grows\<close>

definition val_ok :: "'p vm \<Rightarrow> 'p payload \<Rightarrow> bool" where
  "val_ok m v \<longleftrightarrow>
     (case v of VBytes b \<Rightarrow> b < length (vm_bytes m) | VRefs a \<Rightarrow> a < length (vm_refs m)
      | VClass c \<Rightarrow> c < length (vm_class m) | _ \<Rightarrow> True)"

definition vals_ok :: "'p vm \<Rightarrow> bool" where
  "vals_ok m \<longleftrightarrow> (\<forall>ob \<in> set (vm_heap m). val_ok m (ob_Value ob) \<and> (\<forall>c. ob_Class ob = Some c \<longrightarrow> c < length (vm_class m))) \<and>
     (\<forall>k \<in> set (vm_class m). \<forall>s. cl_Super k = Some s \<longrightarrow> s < length (vm_class m))"

definition vm_grows :: "'p vm \<Rightarrow> 'p vm \<Rightarrow> bool" where
  "vm_grows m m' \<longleftrightarrow> (\<forall>r p. Deref r m = Some p \<longrightarrow> Deref r m' = Some p) \<and>
     length (vm_heap m) \<le> length (vm_heap m') \<and>
     (\<forall>p < length (vm_heap m). \<forall>c. ob_Value (vm_heap m ! p) = VClass c \<longrightarrow> ob_Value (vm_heap m' ! p) = VClass c) \<and>
     vm_classes m \<subseteq>\<^sub>m vm_classes m' \<and> keeps_members m m'"

lemma map_le_Some: "f \<subseteq>\<^sub>m g \<Longrightarrow> f x = Some y \<Longrightarrow> g x = Some y"
  by (force simp: map_le_def dom_def)

lemma vm_grows_refl [simp]: "vm_grows m m"
  by (simp add: vm_grows_def keeps_members_def)

lemma vm_grows_trans: "vm_grows m m' \<Longrightarrow> vm_grows m' m'' \<Longrightarrow> vm_grows m m''"
  unfolding vm_grows_def by (auto intro: map_le_trans keeps_members_trans)

definition vm_fine :: "'p vm \<Rightarrow> bool" where
  "vm_fine m \<longleftrightarrow> vm_ok m \<and> vals_ok m"

text \<open>From a fine VM with room for \<open>k\<close> more, to a fine one that has grown and used up at most \<open>k\<close>.\<close>

definition vm_evolves :: "nat \<Rightarrow> 'p vm \<Rightarrow> 'p vm \<Rightarrow> bool" where
  "vm_evolves k m m' \<longleftrightarrow> (\<forall>n. vm_fine m \<longrightarrow> counts m (n + k) \<longrightarrow> vm_fine m' \<and> counts m' n \<and> vm_grows m m')"

lemma vm_evolvesI: "(\<And>n. vm_fine m \<Longrightarrow> counts m (n + k) \<Longrightarrow> vm_fine m' \<and> counts m' n \<and> vm_grows m m') \<Longrightarrow> vm_evolves k m m'"
  by (simp add: vm_evolves_def)

lemma counts_less: "counts m n \<Longrightarrow> n' \<le> n \<Longrightarrow> counts m n'"
  by (auto simp: counts_def)

lemma vm_evolves_refl [simp]: "vm_evolves k m m"
  by (auto simp: vm_evolves_def intro: counts_less)

lemma vm_evolves_trans: "vm_evolves j m m' \<Longrightarrow> vm_evolves k m' m'' \<Longrightarrow> vm_evolves (j + k) m m''"
  unfolding vm_evolves_def by (metis add.assoc add.commute vm_grows_trans)

lemma vm_evolves_mono: "vm_evolves j m m' \<Longrightarrow> j \<le> k \<Longrightarrow> vm_evolves k m m'"
  unfolding vm_evolves_def by (meson counts_less add_left_mono)

text \<open>Changes that keep the handles, the classes and the counters.\<close>

lemma vm_evolves_heap:
  assumes "vm_objs m' = vm_objs m" and "vm_nextRef m' = vm_nextRef m" and "vm_class m' = vm_class m" and "vm_classes m' = vm_classes m"
    and "vm_nextID m' = vm_nextID m" and "length (vm_heap m) \<le> length (vm_heap m')"
    and "\<And>p. p < length (vm_heap m) \<Longrightarrow> ob_Value (vm_heap m' ! p) = ob_Value (vm_heap m ! p)"
    and "vals_ok m \<Longrightarrow> vals_ok m'"
  shows "vm_evolves 0 m m'"
proof (rule vm_evolvesI)
  fix n assume m: "vm_fine m" "counts m (n + 0)"
  have "vm_ok m'"
    using m assms objs_ok_eq [of m' m] classes_ids_eq [of m' m] by (simp add: vm_fine_def vm_ok_def)
  moreover have "vm_grows m m'"
    using assms by (simp add: vm_grows_def Deref_def keeps_members_def members_def)
  ultimately show "vm_fine m' \<and> counts m' n \<and> vm_grows m m'"
    using m assms by (simp add: vm_fine_def counts_def)
qed

lemma vals_ok_heap:
  assumes "vals_ok m" and "vm_class m' = vm_class m"
    and "length (vm_bytes m) \<le> length (vm_bytes m')" and "length (vm_refs m) \<le> length (vm_refs m')"
    and "\<forall>ob \<in> set (vm_heap m'). ob \<in> set (vm_heap m) \<or>
      val_ok m' (ob_Value ob) \<and> (\<forall>c. ob_Class ob = Some c \<longrightarrow> c < length (vm_class m'))"
  shows "vals_ok m'"
proof -
  have "val_ok m v \<Longrightarrow> val_ok m' v" for v using assms(2-4) by (auto simp: val_ok_def split: payload.splits)
  then show ?thesis using assms unfolding vals_ok_def by metis
qed

lemma vm_evolves_alloc_bytes: "vm_evolves 0 m (snd (alloc_bytes bs m))"
  by (rule vm_evolves_heap) (auto simp: alloc_bytes_def intro: vals_ok_heap)

lemma vm_evolves_alloc_refs: "vm_evolves 0 m (snd (alloc_refs rs m))"
  by (rule vm_evolves_heap) (auto simp: alloc_refs_def intro: vals_ok_heap)

lemma vm_evolves_set_arrays:
  "vm_evolves 0 m (m\<lparr>vm_bytes := (vm_bytes m)[b := bs]\<rparr>)" "vm_evolves 0 m (m\<lparr>vm_refs := (vm_refs m)[a := rs]\<rparr>)"
  by (rule vm_evolves_heap; auto intro: vals_ok_heap)+

lemma vm_evolves_alloc_object:
  assumes "val_ok m (ob_Value ob)" and "\<forall>c. ob_Class ob = Some c \<longrightarrow> c < length (vm_class m)"
  shows "vm_evolves 0 m (snd (alloc_object ob m))"
  by (rule vm_evolves_heap)
    (use assms in \<open>auto simp: alloc_object_def val_ok_def nth_append intro!: vals_ok_heap [of m] split: payload.splits\<close>)

lemma vm_evolves_SetField: "vm_evolves 0 m (SetField p sg v m)"
proof (cases "p < length (vm_heap m)")
  case True
  have "vals_ok (SetField p sg v m)" if "vals_ok m"
  proof -
    have "val_ok (SetField p sg v m) (ob_Value ob) \<and> (\<forall>c. ob_Class ob = Some c \<longrightarrow> c < length (vm_class (SetField p sg v m)))"
      if o: "ob \<in> set (vm_heap (SetField p sg v m))" for ob
    proof -
      obtain q where "q < length (vm_heap m)" "ob_Value ob = ob_Value (vm_heap m ! q)" "ob_Class ob = ob_Class (vm_heap m ! q)"
        using o True set_update_subset_insert by (fastforce simp: SetField_def in_set_conv_nth nth_list_update split: if_splits)
      moreover have "vm_heap m ! q \<in> set (vm_heap m)" using calculation by simp
      moreover have "val_ok (SetField p sg v m) = val_ok m" by (simp add: val_ok_def SetField_def fun_eq_iff cong: payload.case_cong)
      ultimately show ?thesis using \<open>vals_ok m\<close> by (auto simp: vals_ok_def SetField_def)
    qed
    then show ?thesis using that by (simp add: vals_ok_def SetField_def)
  qed
  then show ?thesis
    using True by (intro vm_evolves_heap) (auto simp: SetField_def nth_list_update)
qed (simp add: SetField_def vm_evolves_refl list_update_beyond)

lemma vm_evolves_Box:
  assumes "vm_fine m \<Longrightarrow> p < length (vm_heap m)"
  shows "vm_evolves 1 m (snd (Box p m))"
proof (rule vm_evolvesI)
  fix n assume m: "vm_fine m" "counts m (n + 1)"
  then have u: "unat (vm_nextRef m) + 1 < 2 ^ 32" by (simp add: counts_def)
  have b: "vm_ok (snd (Box p m))" "map_of (vm_objs m) (vm_nextRef m) = None"
    using Box_ok [OF _ assms u] m by (simp_all add: vm_fine_def Box_def)
  have "counts (snd (Box p m)) n"
    using m(2) by (intro counts_inc [of m n]) (simp_all add: Box_counters)
  moreover have "Deref r (snd (Box p m)) = Some q" if "Deref r m = Some q" for r q
    using that b(2) by (auto simp: Deref_def Box_def update_conv' simp del: map_of_eq_None_iff split: if_splits)
  then have "vm_grows m (snd (Box p m))" by (simp add: vm_grows_def Box_def keeps_members_def members_def)
  moreover have "vals_ok (snd (Box p m))" using m by (simp add: vm_fine_def vals_ok_def val_ok_def Box_def cong: payload.case_cong)
  ultimately show "vm_fine (snd (Box p m)) \<and> counts (snd (Box p m)) n \<and> vm_grows m (snd (Box p m))"
    using b by (simp add: vm_fine_def)
qed

lemma vm_evolves_NewObject:
  assumes "vm_fine m \<Longrightarrow> c < length (vm_class m)" and "vm_fine m \<Longrightarrow> val_ok m v"
  shows "vm_evolves 1 m (snd (NewObject c v m))"
proof -
  let ?ob = "\<lparr>ob_Class = Some c, ob_Value = v, ob_fields = Map.empty\<rparr>"
  have "vm_evolves 0 m (snd (alloc_object ?ob m))" if "vm_fine m" using assms that by (intro vm_evolves_alloc_object) simp_all
  then have a: "vm_evolves 0 m (snd (alloc_object ?ob m))" by (auto simp: vm_evolves_def)
  have "vm_evolves 1 (snd (alloc_object ?ob m)) (snd (Box (length (vm_heap m)) (snd (alloc_object ?ob m))))"
    by (rule vm_evolves_Box) (simp add: alloc_object_def)
  then show ?thesis using vm_evolves_trans [OF a] by (simp add: NewObject_def alloc_object_def)
qed

lemma vals_ok_class:
  assumes "vals_ok m" and "vm_class m' = vm_class m @ [k]" and "cl_Super k = None"
    and "vm_heap m' = vm_heap m" and "vm_bytes m' = vm_bytes m" and "vm_refs m' = vm_refs m"
  shows "vals_ok m'"
proof -
  have "val_ok m v \<Longrightarrow> val_ok m' v" for v using assms by (auto simp: val_ok_def split: payload.splits)
  then show ?thesis using assms by (fastforce simp: vals_ok_def less_Suc_eq)
qed

lemma vm_evolves_ResolveClass: "vm_evolves 0 m (snd (ResolveClass name None m))"
proof (rule vm_evolvesI)
  fix n assume m: "vm_fine m" "counts m (n + 0)"
  obtain c m' where r: "ResolveClass name None m = (c, m')" by (cases "ResolveClass name None m")
  have o: "vm_objs m' = vm_objs m" "vm_heap m' = vm_heap m" "vm_nextRef m' = vm_nextRef m" "vm_nextID m' = vm_nextID m"
    using ResolveClass_objs [of c m' name None m] r by simp_all
  have cl: "vm_classes m \<subseteq>\<^sub>m vm_classes m'"
    using r by (auto simp: ResolveClass_def Let_def map_le_def split: option.splits)
  have va: "vals_ok m'"
  proof (cases "vm_classes m name")
    case None then show ?thesis
      using r m(1) by (intro vals_ok_class [of m, OF conjunct2 [OF m(1) [unfolded vm_fine_def]]]) (auto simp: ResolveClass_def Let_def)
  qed (use r m(1) in \<open>simp add: ResolveClass_def vm_fine_def\<close>)
  have "keeps_members m m'" using Resolve_keeps [of m name None] r by simp
  then show "vm_fine (snd (ResolveClass name None m)) \<and> counts (snd (ResolveClass name None m)) n \<and>
      vm_grows m (snd (ResolveClass name None m))"
    using ResolveClass_ok(1) [OF _ r] m o cl va r by (simp add: vm_fine_def vm_grows_def counts_def Deref_def)
qed

lemma ResolveClass_in: "vm_fine m \<Longrightarrow> fst (ResolveClass name None m) < length (vm_class (snd (ResolveClass name None m)))"
  using ResolveClass_ok(2) [of m name None] by (simp add: vm_fine_def)

lemma intern_vals:
  assumes "c < length (vm_class m)" and "vals_ok m"
  shows "vals_ok (snd (intern meth c name sg static m))"
proof -
  have k: "cl_Super (vm_class m ! c) = Some s \<Longrightarrow> s < length (vm_class m)" for s
    using assms by (auto simp: vals_ok_def)
  show ?thesis
    using assms k
    by (auto simp: intern_def MethodID_def FieldID_def fresh_ID_def upd_class_def vals_ok_def val_ok_def Let_def
        split: option.split payload.split dest!: set_update_subset_insert [THEN subsetD])
qed

lemma vm_evolves_intern:
  assumes "vm_fine m \<Longrightarrow> c < length (vm_class m)"
  shows "vm_evolves 1 m (snd (intern meth c name sg static m))"
proof (rule vm_evolvesI)
  fix n assume m: "vm_fine m" "counts m (n + 1)"
  let ?m = "snd (intern meth c name sg static m)"
  have c: "c < length (vm_class m)" and u: "unat (vm_nextID m) + 1 < 2 ^ 32" using assms m by (simp_all add: counts_def)
  have h: "vm_heap ?m = vm_heap m" "vm_objs ?m = vm_objs m" "vm_classes ?m = vm_classes m"
    by (simp_all add: intern_def member_ops_objs)
      (simp_all add: MethodID_def FieldID_def fresh_ID_def upd_class_def Let_def split: option.split)
  have "counts ?m n" using m(2) by (intro counts_inc [of m n]) (use intern_counters [OF c] in simp_all)
  then show "vm_fine ?m \<and> counts ?m n \<and> vm_grows m ?m"
    using intern_ok [OF _ c u] intern_vals [OF c] intern_keeps m h by (simp add: vm_fine_def vm_grows_def Deref_def)
qed

lemma vm_evolves_NewString: "vm_evolves 1 m (snd (NewString s m))"
proof -
  let ?r = "ResolveClass ''java/lang/String'' None m"
  have "vm_evolves 1 (snd ?r) (snd (NewObject (fst ?r) (VString s) (snd ?r)))" if "vm_fine m"
    by (rule vm_evolves_NewObject) (simp_all add: that ResolveClass_in val_ok_def)
  then have "vm_evolves 1 m (snd (NewString s m))" if "vm_fine m"
    using that vm_evolves_trans [OF vm_evolves_ResolveClass [of m "''java/lang/String''"]] by (fastforce simp: NewString_def split_def Let_def)
  then show ?thesis by (auto simp: vm_evolves_def)
qed

subsection \<open>The emulator's tables\<close>

definition stands_for :: "'p vm \<Rightarrow> ref \<Rightarrow> string \<Rightarrow> bool" where
  "stands_for m r n \<longleftrightarrow> (\<exists>p c. Deref r m = Some p \<and> ob_Value (vm_heap m ! p) = VClass c \<and> vm_classes m n = Some c)"

definition emu_ok :: "('b, 'x, 'h, 'r, 'p) emu \<Rightarrow> bool" where
  "emu_ok e \<longleftrightarrow> vm_fine (e_vm e) \<and> e_classMeta e < length (vm_class (e_vm e)) \<and>
     (\<forall>n r. e_classRefs e n = Some r \<longrightarrow> stands_for (e_vm e) r n) \<and>
     (\<forall>i c mb. e_methods e i = Some (c, mb) \<longrightarrow>
        mb_ID mb = i \<and> members (e_vm e) c True (method_key (mb_Name mb) (mb_Sig mb)) = Some mb) \<and>
     (\<forall>i c mb. e_fields e i = Some (c, mb) \<longrightarrow>
        mb_ID mb = i \<and> members (e_vm e) c False (field_key (mb_Name mb) (mb_Sig mb)) = Some mb)"

definition emu_grows :: "('b, 'x, 'h, 'r, 'p) emu \<Rightarrow> ('b, 'x, 'h, 'r, 'p) emu \<Rightarrow> bool" where
  "emu_grows e e' \<longleftrightarrow> vm_grows (e_vm e) (e_vm e') \<and> e_classRefs e \<subseteq>\<^sub>m e_classRefs e' \<and>
     e_methods e \<subseteq>\<^sub>m e_methods e' \<and> e_fields e \<subseteq>\<^sub>m e_fields e'"

lemma emu_grows_refl [simp]: "emu_grows e e"
  by (simp add: emu_grows_def)

lemma emu_grows_trans: "emu_grows e e' \<Longrightarrow> emu_grows e' e'' \<Longrightarrow> emu_grows e e''"
  unfolding emu_grows_def by (blast intro: map_le_trans vm_grows_trans)

definition moves :: "nat \<Rightarrow> ('b, 'x, 'h, 'r, 'p) emu \<Rightarrow> ('b, 'x, 'h, 'r, 'p) emu \<Rightarrow> bool" where
  "moves k e e' \<longleftrightarrow>
     (\<forall>n. emu_ok e \<longrightarrow> counts (e_vm e) (n + k) \<longrightarrow> emu_ok e' \<and> counts (e_vm e') n \<and> emu_grows e e')"

lemma movesI: "(emu_ok e \<Longrightarrow> moves k e e') \<Longrightarrow> moves k e e'"
  by (simp add: moves_def)

lemma moves_refl [simp]: "moves k e e"
  by (auto simp: moves_def intro: counts_less)

lemma moves_trans:
  assumes "moves j e e'" and "emu_ok e' \<Longrightarrow> moves k e' e''"
  shows "moves (j + k) e e''"
  unfolding moves_def
proof (intro allI impI)
  fix n assume e: "emu_ok e" "counts (e_vm e) (n + (j + k))"
  then have "emu_ok e' \<and> counts (e_vm e') (n + k) \<and> emu_grows e e'" 
    using assms(1) unfolding moves_def by (metis add.assoc add.commute)
  then show "emu_ok e'' \<and> counts (e_vm e'') n \<and> emu_grows e e''"
    using assms(2) unfolding moves_def by (blast intro: emu_grows_trans)
qed

lemma moves_mono: "moves j e e' \<Longrightarrow> j \<le> k \<Longrightarrow> moves k e e'"
  unfolding moves_def by (meson counts_less add_left_mono)

lemma stands_for_grows:
  assumes "stands_for m r n" and "vm_grows m m'" and "vm_fine m"
  shows "stands_for m' r n"
proof -
  obtain p c where "Deref r m = Some p" "ob_Value (vm_heap m ! p) = VClass c" "vm_classes m n = Some c"
    using assms(1) by (auto simp: stands_for_def)
  then show ?thesis
    using assms(2,3) Deref_in_heap [of m r p] unfolding stands_for_def vm_grows_def vm_fine_def by (blast dest: map_le_Some)
qed

lemma moves_vm:
  assumes "vm_evolves k (e_vm e) (e_vm e')" and "e_classRefs e' = e_classRefs e" and "e_methods e' = e_methods e"
    and "e_fields e' = e_fields e" and "e_classMeta e' = e_classMeta e"
  shows "moves k e e'"
  unfolding moves_def
proof (intro allI impI)
  fix n assume e: "emu_ok e" "counts (e_vm e) (n + k)"
  then have m: "vm_fine (e_vm e')" "counts (e_vm e') n" "vm_grows (e_vm e) (e_vm e')"
    using assms(1) by (auto simp: vm_evolves_def emu_ok_def)
  have k: "keeps_members (e_vm e) (e_vm e')" using m(3) by (simp add: vm_grows_def)
  have "emu_ok e'"
    using e(1) m k assms(2-5) stands_for_grows [OF _ m(3)] unfolding emu_ok_def keeps_members_def
    by (auto intro: less_le_trans)
  then show "emu_ok e' \<and> counts (e_vm e') n \<and> emu_grows e e'"
    using m assms(2-5) by (simp add: emu_grows_def)
qed

lemma moves_same:
  assumes "e_vm e' = e_vm e" and "e_classRefs e' = e_classRefs e" and "e_methods e' = e_methods e"
    and "e_fields e' = e_fields e" and "e_classMeta e' = e_classMeta e"
  shows "moves 0 e e'"
  by (rule moves_vm) (simp_all add: assms)

lemma moves_vm_do: "vm_evolves k (e_vm e) (snd (f (e_vm e))) \<Longrightarrow> moves k e (snd (vm_do f e))"
  by (rule moves_vm) (simp_all add: vm_do_def split_def)

lemma moves_vm_upd: "vm_evolves k (e_vm e) (f (e_vm e)) \<Longrightarrow> moves k e (vm_upd f e)"
  by (rule moves_vm) (simp_all add: vm_upd_def)

lemma vm_do_vm: "e_vm (snd (vm_do f e)) = snd (f (e_vm e))" "fst (vm_do f e) = fst (f (e_vm e))"
  by (simp_all add: vm_do_def split_def)

text \<open>Operations on registers and memory.\<close>

lemma with_be_moves: "moves 0 e (snd (with_be f e))"
  by (rule moves_same) (simp_all add: with_be_def split: prod.split)

lemma set_reg_moves: "moves 0 e (set_reg E r v e)"
  by (simp add: set_reg_def with_be_moves)

lemma poke_mem_moves: "moves 0 e (poke_mem E a bs e)"
  by (simp add: poke_mem_def WriteBytes_def with_be_moves)

lemma putU64_moves: "moves 0 e (snd (putU64 E a v e))"
  by (simp add: putU64_def WriteBytes_def with_be_moves)

lemma moves_trans0: "moves 0 e e' \<Longrightarrow> moves 0 e' e'' \<Longrightarrow> moves 0 e e''"
  using moves_trans [of 0 e e' 0 e''] by simp

lemma Alloc_moves: "moves 0 e (snd (Alloc E sz prot e))"
proof -
  obtain a s where "Mmap sz (sint prot) ''alloc'' (k_mem (e_k e)) = (a, s)" by fastforce
  then show ?thesis
    using moves_trans0 [OF moves_same with_be_moves, of "e\<lparr>e_k := (e_k e)\<lparr>k_mem := s\<rparr>\<rparr>" e] by (simp add: Alloc_def)
qed

lemma WriteScratch_moves: "moves 0 e (snd (WriteScratch E bs e))"
  using moves_trans0 [OF Alloc_moves poke_mem_moves] by (simp add: WriteScratch_def split_def Let_def)

lemma put_isCopy_moves: "moves 0 e (put_isCopy v E e)"
  by (simp add: put_isCopy_def Let_def poke_mem_moves)

subsection \<open>Pointers from handles\<close>

lemma deref64_in: "emu_ok e \<Longrightarrow> deref64 x e = Some p \<Longrightarrow> p < length (vm_heap (e_vm e))"
  using Deref_in_heap [of "e_vm e"] by (simp add: deref64_def emu_ok_def vm_fine_def)

lemma value_ok: "emu_ok e \<Longrightarrow> deref64 x e = Some p \<Longrightarrow> val_ok (e_vm e) (value_of p e)"
  using deref64_in [of e x p] by (simp add: emu_ok_def vm_fine_def vals_ok_def value_of_def)

lemma derefClass_in: "emu_ok e \<Longrightarrow> derefClass x e = Some c \<Longrightarrow> c < length (vm_class (e_vm e))"
  using value_ok [of e x] by (auto simp: derefClass_def val_ok_def split: option.splits payload.splits)

lemma class_of_in:
  "emu_ok e \<Longrightarrow> deref64 x e = Some p \<Longrightarrow> ob_Class (vm_heap (e_vm e) ! p) = Some c \<Longrightarrow> c < length (vm_class (e_vm e))"
  using deref64_in [of e x p] by (auto simp: emu_ok_def vm_fine_def vals_ok_def)

end
