(* ===== verification/Jni_Safe.thy ===== *)
theory Jni_Safe
  imports Jni_Keep
begin

text \<open>
  Every function of the JNIEnv table keeps the emulator's invariant and lets its tables only grow, for every
  handler that meets the contract \<open>jni_handler\<close>; \<open>AbstractJni\<close> meets it.
\<close>

subsection \<open>The contract of the handler\<close>

text \<open>A callback that returns an object returns one of the heap.\<close>

definition gives_object :: "nat \<Rightarrow> ('p vm \<Rightarrow> nat option \<times> 'p vm) \<Rightarrow> bool" where
  "gives_object k f \<longleftrightarrow> (\<forall>m. vm_evolves k m (snd (f m)) \<and>
     (\<forall>p. vm_fine m \<longrightarrow> counts m k \<longrightarrow> fst (f m) = Some p \<longrightarrow> p < length (vm_heap (snd (f m)))))"

definition gives_value :: "nat \<Rightarrow> ('p vm \<Rightarrow> 'a \<times> 'p vm) \<Rightarrow> bool" where
  "gives_value k f \<longleftrightarrow> (\<forall>m. vm_evolves k m (snd (f m)))"

locale jni_handler =
  fixes J :: "'p jni" and k :: nat
  assumes accepts: "gives_value 0 (AcceptMethod J c sg st)"
    and object_calls: "gives_object k (CallObjectMethodV J p sg va)" "gives_object k (CallStaticObjectMethodV J c sg va)"
      "gives_object k (NewObjectV J c sg va)" "gives_object k (GetObjectField J p sg)" "gives_object k (GetStaticObjectField J c sg)"
    and boolean_calls: "gives_value k (CallBooleanMethodV J p sg va)" "gives_value k (GetBooleanField J p sg)"
    and int_calls: "gives_value k (CallIntMethodV J p sg va)" "gives_value k (CallStaticIntMethodV J c sg va)"
      "gives_value k (GetIntField J p sg)" "gives_value k (GetStaticIntField J c sg)"
    and long_calls: "gives_value k (CallLongMethodV J p sg va)" "gives_value k (GetLongField J p sg)"
      "gives_value k (GetStaticLongField J c sg)"
    and void_calls: "vm_evolves k m (CallVoidMethodV J p sg va m)" "vm_evolves k m (CallStaticVoidMethodV J c sg va m)"
      "vm_evolves k m (SetObjectField J p sg ob m)"

interpretation aj: jni_handler AbstractJni 0
  by unfold_locales (simp_all add: AbstractJni_def gives_object_def gives_value_def)

subsection \<open>Steps the functions share\<close>

lemma box_result_moves:
  assumes "\<And>p. emu_ok e \<Longrightarrow> r = Some p \<Longrightarrow> p < length (vm_heap (e_vm e))"
  shows "moves 1 e (snd (box_result r e))"
proof (rule movesI)
  assume e: "emu_ok e"
  show "moves 1 e (snd (box_result r e))"
  proof (cases r)
    case (Some p)
    then show ?thesis
      using moves_vm_do [of 1 e "Box p", OF vm_evolves_Box] assms [OF e] by (simp add: box_result_def split_def Let_def)
  qed (simp add: box_result_def)
qed

lemma box_callback:
  assumes "gives_object k f"
  shows "moves (k + 1) e (snd (box_result (fst (vm_do f e)) (snd (vm_do f e))))"
  unfolding moves_def
proof (intro allI impI)
  fix n assume e: "emu_ok e" "counts (e_vm e) (n + (k + 1))"
  have f: "vm_evolves k m (snd (f m))" for m using assms by (simp add: gives_object_def)
  let ?e = "snd (vm_do f e)" and ?r = "fst (vm_do f e)"
  have m1: "moves k e ?e" by (rule moves_vm_do) (rule f)
  have e1: "emu_ok ?e" "counts (e_vm ?e) (n + 1)" "emu_grows e ?e"
    using m1 [unfolded moves_def, rule_format, of "n + 1"] e by (simp_all add: ac_simps)
  have "counts (e_vm e) k" using e(2) by (rule counts_less) simp
  then have "p < length (vm_heap (e_vm ?e))" if "?r = Some p" for p
    using assms e(1) that by (simp add: gives_object_def vm_do_vm emu_ok_def)
  then have "moves 1 ?e (snd (box_result ?r ?e))" by (rule box_result_moves)
  then show "emu_ok (snd (box_result ?r ?e)) \<and> counts (e_vm (snd (box_result ?r ?e))) n \<and> emu_grows e (snd (box_result ?r ?e))"
    using e1 by (auto simp: moves_def intro: emu_grows_trans)
qed

lemma value_callback: "gives_value k f \<Longrightarrow> moves k e (snd (vm_do f e))"
  by (rule moves_vm_do) (simp add: gives_value_def)

lemma NewObject_moves:
  assumes "emu_ok e \<Longrightarrow> c < length (vm_class (e_vm e))" and "emu_ok e \<Longrightarrow> val_ok (e_vm e) v"
  shows "moves 1 e (snd (vm_do (NewObject c v) e))"
  by (rule movesI, rule moves_vm_do, rule vm_evolves_NewObject) (use assms in simp_all)

lemma NewObject_ref: "fst (NewObject c v m) = vm_nextRef m"
  by (simp add: NewObject_def alloc_object_def Box_def)

lemma classRef_moves: "moves 1 e (snd (classRef name e))"
proof (cases "e_classRefs e name")
  case (Some r) then show ?thesis by (simp add: classRef_def)
next
  case None
  let ?e = "snd (vm_do (ResolveClass name None) e)" and ?c = "fst (ResolveClass name None (e_vm e))"
  let ?r = "vm_nextRef (e_vm ?e)" and ?e' = "snd (vm_do (NewObject (e_classMeta ?e) (VClass ?c)) ?e)"
  have eq: "snd (classRef name e) = ?e'\<lparr>e_classRefs := (e_classRefs ?e')(name \<mapsto> ?r)\<rparr>"
    using None by (simp add: classRef_def split_def Let_def vm_do_vm NewObject_ref)
  show ?thesis
    unfolding eq moves_def
  proof (intro allI impI)
    fix n assume e: "emu_ok e" "counts (e_vm e) (n + 1)"
    have m0: "moves 0 e ?e" by (rule moves_vm_do) (rule vm_evolves_ResolveClass)
    have e0: "emu_ok ?e" "counts (e_vm ?e) (n + 1)" "emu_grows e ?e" using m0 e by (simp_all add: moves_def)
    have c: "?c < length (vm_class (e_vm ?e))" "vm_classes (e_vm ?e) name = Some ?c"
      using ResolveClass_ok(2,3) [of "e_vm e" name None] e(1) by (simp_all add: emu_ok_def vm_fine_def vm_do_vm)
    have "moves 1 ?e ?e'"
      by (rule NewObject_moves) (use e0(1) c in \<open>simp_all add: emu_ok_def val_ok_def\<close>)
    then have e1: "emu_ok ?e'" "counts (e_vm ?e') n" "emu_grows ?e ?e'" using e0 by (simp_all add: moves_def)
    have nz: "?r \<noteq> 0" using e0(1) by (auto simp: emu_ok_def vm_fine_def vm_ok_def objs_ok_def)
    have new: "Deref ?r (e_vm ?e') = Some (length (vm_heap (e_vm ?e)))" "ob_Value (vm_heap (e_vm ?e') ! length (vm_heap (e_vm ?e))) = VClass ?c"
      "vm_classes (e_vm ?e') = vm_classes (e_vm ?e)"
      using nz by (simp_all add: vm_do_vm NewObject_def alloc_object_def Box_def Deref_def update_conv')
    have tables: "e_classRefs ?e' = e_classRefs e" by (simp add: vm_do_def split_def)
    have "stands_for (e_vm ?e') ?r name" using new c by (auto simp: stands_for_def)
    then have "emu_ok (?e'\<lparr>e_classRefs := (e_classRefs ?e')(name \<mapsto> ?r)\<rparr>)" using e1(1) by (auto simp: emu_ok_def)
    moreover have "emu_grows e (?e'\<lparr>e_classRefs := (e_classRefs ?e')(name \<mapsto> ?r)\<rparr>)"
      using emu_grows_trans [OF e0(3) e1(3)] None tables by (auto simp: emu_grows_def map_le_def)
    ultimately show "emu_ok (?e'\<lparr>e_classRefs := (e_classRefs ?e')(name \<mapsto> ?r)\<rparr>) \<and>
        counts (e_vm (?e'\<lparr>e_classRefs := (e_classRefs ?e')(name \<mapsto> ?r)\<rparr>)) n \<and>
        emu_grows e (?e'\<lparr>e_classRefs := (e_classRefs ?e')(name \<mapsto> ?r)\<rparr>)"
      using e1(2) by simp
  qed
qed

text \<open>The table of identifiers gets the member that was interned.\<close>

lemma intern_moves:
  fixes e :: "('b, 'x, 'h, 'r, 'p) emu"
  assumes c: "emu_ok e \<Longrightarrow> c < length (vm_class (e_vm e))"
    and e': "e1 = snd (vm_do (intern meth c name sg static) e)" "mb = fst (vm_do (intern meth c name sg static) e)"
      "e' = (if meth then e1\<lparr>e_methods := (e_methods e1)(mb_ID mb \<mapsto> (c, mb))\<rparr> else e1\<lparr>e_fields := (e_fields e1)(mb_ID mb \<mapsto> (c, mb))\<rparr>)"
  shows "moves 1 e e'"
  unfolding moves_def
proof (intro allI impI)
  fix n assume e: "emu_ok e" "counts (e_vm e) (n + 1)"
  have "moves 1 e e1" unfolding e'(1) by (rule moves_vm_do, rule vm_evolves_intern) (rule c [OF e(1)])
  then have e1: "emu_ok e1" "counts (e_vm e1) n" "emu_grows e e1" using e by (simp_all add: moves_def)
  have mem: "members (e_vm e1) c meth (key_of meth name sg) = Some mb"
    using intern_member [OF c [OF e(1)], of meth name sg static] by (simp add: e' vm_do_vm)
  have ids: "ids_ok (e_vm e1)" using e1(1) by (simp add: emu_ok_def vm_fine_def vm_ok_def)
  then have key: "key_of meth (mb_Name mb) (mb_Sig mb) = key_of meth name sg" using mem by (auto simp: ids_ok_def)
  have same: "c' = c \<and> mb' = mb"
    if "members (e_vm e1) c' meth (key_of meth (mb_Name mb') (mb_Sig mb')) = Some mb'" "mb_ID mb' = mb_ID mb" for c' mb'
    using ids mem that unfolding ids_ok_def by (metis option.inject)
  show "emu_ok e' \<and> counts (e_vm e') n \<and> emu_grows e e'"
  proof (cases meth)
    case True
    have "a = c \<and> b = mb" if "e_methods e1 (mb_ID mb) = Some (a, b)" for a b
    proof (rule same)
      show "members (e_vm e1) a meth (key_of meth (mb_Name b) (mb_Sig b)) = Some b" "mb_ID b = mb_ID mb"
        using that e1(1) True by (auto simp: emu_ok_def)
    qed
    then have "e_methods e1 (mb_ID mb) \<in> {None, Some (c, mb)}" by (cases "e_methods e1 (mb_ID mb)") auto
    then have "emu_grows e1 e'" using True e'(3) by (auto simp: emu_grows_def map_le_def)
    moreover have "emu_ok e'" using True e'(3) e1(1) mem key by (auto simp: emu_ok_def)
    ultimately show ?thesis using e1 True e'(3) by (auto intro: emu_grows_trans)
  next
    case False
    have "a = c \<and> b = mb" if "e_fields e1 (mb_ID mb) = Some (a, b)" for a b
    proof (rule same)
      show "members (e_vm e1) a meth (key_of meth (mb_Name b) (mb_Sig b)) = Some b" "mb_ID b = mb_ID mb"
        using that e1(1) False by (auto simp: emu_ok_def)
    qed
    then have "e_fields e1 (mb_ID mb) \<in> {None, Some (c, mb)}" by (cases "e_fields e1 (mb_ID mb)") auto
    then have "emu_grows e1 e'" using False e'(3) by (auto simp: emu_grows_def map_le_def)
    moreover have "emu_ok e'" using False e'(3) e1(1) mem key by (auto simp: emu_ok_def)
    ultimately show ?thesis using e1 False e'(3) by (auto intro: emu_grows_trans)
  qed
qed

subsection \<open>The functions\<close>

lemma NewString_moves: "moves 1 e (snd (vm_do (NewString s) e))"
  by (rule moves_vm_do) (rule vm_evolves_NewString)

lemma moves_update:
  assumes "moves k e e'" and "e_vm e'' = e_vm e'" and "e_classRefs e'' = e_classRefs e'" and "e_methods e'' = e_methods e'"
    and "e_fields e'' = e_fields e'" and "e_classMeta e'' = e_classMeta e'"
  shows "moves k e e''"
  using moves_trans [OF assms(1) moves_same [OF assms(2-6)]] by simp

lemma moves_pins: "moves k e e' \<Longrightarrow> moves k e (e'\<lparr>e_arrayPins := f\<rparr>)"
  by (rule moves_update) simp_all

lemma moves_after: "moves k e e' \<Longrightarrow> moves 0 e' e'' \<Longrightarrow> moves k e e''"
  using moves_trans [of k e e' 0 e''] by simp

lemma set_arrays_moves: "moves 0 e (set_bytes b bs e)"
  unfolding set_bytes_def by (rule moves_vm_upd) (rule vm_evolves_set_arrays)

lemma new_array_moves:
  assumes a: "vm_evolves 0 (e_vm e) (snd (al (e_vm e)))" and v: "val_ok (snd (al (e_vm e))) (v (fst (al (e_vm e))))"
  shows "moves 1 e (snd (vm_do (NewObject (fst (vm_do (ResolveClass n None) (snd (vm_do al e)))) (v (fst (vm_do al e))))
           (snd (vm_do (ResolveClass n None) (snd (vm_do al e))))))"
proof -
  let ?e1 = "snd (vm_do al e)" let ?e2 = "snd (vm_do (ResolveClass n None) ?e1)"
  have m1: "moves 0 e ?e1" by (rule moves_vm_do) (rule a)
  have m2: "moves 0 ?e1 ?e2" by (rule moves_vm_do) (rule vm_evolves_ResolveClass)
  have "length (vm_class (e_vm ?e1)) \<le> length (vm_class (e_vm ?e2))" "vm_bytes (e_vm ?e2) = vm_bytes (e_vm ?e1)"
    "vm_refs (e_vm ?e2) = vm_refs (e_vm ?e1)"
    by (simp_all add: vm_do_vm ResolveClass_def Let_def split: option.split)
  then have v2: "val_ok (e_vm ?e2) (v (fst (vm_do al e)))" using v by (auto simp: val_ok_def vm_do_vm split: payload.splits)
  have "moves 1 ?e2 (snd (vm_do (NewObject (fst (vm_do (ResolveClass n None) ?e1)) (v (fst (vm_do al e)))) ?e2))" if "emu_ok ?e1"
    by (rule NewObject_moves) (use that v2 ResolveClass_in [of "e_vm ?e1" n] in \<open>simp_all add: vm_do_vm emu_ok_def\<close>)
  then show ?thesis
    using moves_trans [OF m1, of 1 "snd (vm_do (NewObject (fst (vm_do (ResolveClass n None) ?e1)) (v (fst (vm_do al e)))) ?e2)"]
      moves_trans [OF m2, of 1] by simp
qed

text \<open>Functions that call no handler.\<close>

lemma class_functions:
  "moves 1 e (snd (jni_FindClass E e))" "moves 1 e (snd (jni_GetObjectClass E e))" "moves 1 e (snd (jni_GetSuperclass E e))"
  "moves 1 e (snd (jni_IsAssignableFrom E e))" "moves 1 e (snd (jni_IsInstanceOf E e))" "moves 1 e (snd (jni_IsSameObject E e))"
  by (auto simp: jni_FindClass_def jni_GetObjectClass_def jni_GetSuperclass_def jni_IsAssignableFrom_def jni_IsInstanceOf_def
      jni_IsSameObject_def split_def Let_def classRef_moves moves_mono [OF moves_same] simp del: One_nat_def split: option.split)

lemma id_functions: "moves 1 e (snd (jni_GetMethodID static E e))" "moves 1 e (snd (jni_GetFieldID static E e))"
proof -
  have "moves 1 e (snd (jni_GetMethodID static E e)) \<and> moves 1 e (snd (jni_GetFieldID static E e))" if e: "emu_ok e"
  proof (cases "derefClass (jarg E 1 e) e")
    case (Some c)
    then show ?thesis
      using derefClass_in [OF e Some] intern_moves [of e c _ True] intern_moves [of e c _ False]
      by (simp add: jni_GetMethodID_def jni_GetFieldID_def split_def Let_def intern_def)
  qed (simp add: jni_GetMethodID_def jni_GetFieldID_def)
  then show "moves 1 e (snd (jni_GetMethodID static E e))" "moves 1 e (snd (jni_GetFieldID static E e))"
    by (auto intro: movesI)
qed

lemma string_functions:
  "moves 1 e (snd (jni_NewStringUTF E e))" "moves 1 e (snd (jni_NewString E e))" "moves 1 e (snd (jni_GetStringLength E e))"
  "moves 1 e (snd (jni_GetStringUTFLength E e))" "moves 1 e (snd (jni_GetStringUTFChars E e))"
  "moves 1 e (snd (jni_GetStringChars v E e))" "moves 1 e (snd (jni_GetStringRegion E e))" "moves 1 e (snd (jni_GetStringUTFRegion E e))"
  using moves_mono [OF moves_trans0 [OF WriteScratch_moves put_isCopy_moves], of 1] moves_mono [OF poke_mem_moves, of 1]
  by (auto simp: jni_NewStringUTF_def jni_NewString_def jni_GetStringLength_def jni_GetStringUTFLength_def jni_GetStringUTFChars_def
      jni_GetStringChars_def jni_GetStringRegion_def jni_GetStringUTFRegion_def split_def Let_def NewString_moves simp del: One_nat_def split: option.split)

lemma array_functions:
  "moves 1 e (snd (jni_GetArrayLength E e))" "moves 1 e (snd (jni_NewObjectArray E e))" "moves 1 e (snd (jni_GetObjectArrayElement E e))"
  "moves 1 e (snd (jni_SetObjectArrayElement E e))" "moves 1 e (snd (jni_NewByteArray E e))" "moves 1 e (snd (jni_GetElements v E e))"
  "moves 1 e (snd (jni_ReleaseElements E e))" "moves 1 e (snd (jni_GetByteArrayRegion E e))" "moves 1 e (snd (jni_SetByteArrayRegion E e))"
proof -
  note le1 = moves_mono [where j = 0 and k = 1]
  show "moves 1 e (snd (jni_GetArrayLength E e))" "moves 1 e (snd (jni_GetObjectArrayElement E e))"
    by (simp_all add: jni_GetArrayLength_def jni_GetObjectArrayElement_def split: option.split payload.split)
  show "moves 1 e (snd (jni_SetObjectArrayElement E e))"
    by (rule le1) (auto simp: jni_SetObjectArrayElement_def split: option.split intro!: moves_vm_upd vm_evolves_set_arrays)
  show "moves 1 e (snd (jni_NewObjectArray E e))"
    using new_array_moves [of e "alloc_refs (replicate (jsize (jarg E 1 e)) (ucast (jarg E 3 e)))" VRefs, OF vm_evolves_alloc_refs]
    by (simp add: jni_NewObjectArray_def split_def Let_def alloc_refs_def val_ok_def)
  show "moves 1 e (snd (jni_NewByteArray E e))"
    using new_array_moves [of e "alloc_bytes (replicate (jsize (jarg E 1 e)) 0)" VBytes "''[B''", OF vm_evolves_alloc_bytes]
    by (simp add: jni_NewByteArray_def NewByteArray_def split_def Let_def alloc_bytes_def val_ok_def vm_do_def)
  have "moves 0 e ((snd (WriteScratch E bs e))\<lparr>e_arrayPins := f\<rparr>)" for f bs
    by (rule moves_pins [OF WriteScratch_moves])
  then show "moves 1 e (snd (jni_GetElements v E e))"
    by (intro le1) (simp_all add: jni_GetElements_def split_def Let_def moves_trans0 [OF _ put_isCopy_moves])
  show "moves 1 e (snd (jni_ReleaseElements E e))"
    by (rule le1)
      (auto simp: jni_ReleaseElements_def Let_def split: option.split intro!: moves_pins set_arrays_moves)
  show "moves 1 e (snd (jni_GetByteArrayRegion E e))"
    by (rule le1) (auto simp: jni_GetByteArrayRegion_def Let_def poke_mem_moves split: option.split)
  show "moves 1 e (snd (jni_SetByteArrayRegion E e))"
    by (rule le1) (auto simp: jni_SetByteArrayRegion_def Let_def set_arrays_moves split: option.split)
qed

lemma moves_SetField: "moves 0 e (vm_upd (SetField p sg v) e)"
  by (rule moves_vm_upd) (rule vm_evolves_SetField)

lemma new_or_boxed:
  assumes "gives_object k f" and c: "emu_ok e \<Longrightarrow> c < length (vm_class (e_vm e))"
  shows "moves (k + 1) e (snd (case fst (vm_do f e) of
       Some p \<Rightarrow> box_result (Some p) (snd (vm_do f e))
     | None \<Rightarrow> (let (h, e') = vm_do (NewObject c VNil) (snd (vm_do f e)) in (handle h, e'))))"
proof (cases "fst (vm_do f e)")
  case (Some p) then show ?thesis using box_callback [OF assms(1), of e] by simp
next
  case None
  have f: "vm_evolves k m (snd (f m))" for m using assms(1) by (simp add: gives_object_def)
  let ?e = "snd (vm_do f e)"
  have m1: "moves k e ?e" by (rule moves_vm_do) (rule f)
  have "moves (k + 1) e (snd (vm_do (NewObject c VNil) ?e))"
    unfolding moves_def
  proof (intro allI impI)
    fix n assume e: "emu_ok e" "counts (e_vm e) (n + (k + 1))"
    have e1: "emu_ok ?e" "counts (e_vm ?e) (n + 1)" "emu_grows e ?e"
      using m1 [unfolded moves_def, rule_format, of "n + 1"] e by (simp_all add: ac_simps)
    then have "c < length (vm_class (e_vm ?e))"
      using c [OF e(1)] unfolding emu_grows_def vm_grows_def keeps_members_def by linarith
    then have "moves 1 ?e (snd (vm_do (NewObject c VNil) ?e))" by (intro NewObject_moves) (simp_all add: val_ok_def)
    then show "emu_ok (snd (vm_do (NewObject c VNil) ?e)) \<and> counts (e_vm (snd (vm_do (NewObject c VNil) ?e))) n \<and>
        emu_grows e (snd (vm_do (NewObject c VNil) ?e))"
      using e1 by (auto simp: moves_def intro: emu_grows_trans)
  qed
  then show ?thesis using None by (simp add: split_def Let_def)
qed

context jni_handler begin

text \<open>Functions that call the handler, for an emulator that has this one.\<close>

lemma register_natives_moves:
  assumes E: "ee_jni E = J"
  shows "moves 0 e (register_natives n E cls clsName a e)"
proof (induction n arbitrary: a e)
  case (Suc n)
  show ?case
  proof (cases "ReadBytes E a 24 e")
    case (Some ent)
    let ?name = "c_str E (le_val (take 8 ent)) e" and ?sg = "c_str E (le_val (take 8 (drop 8 ent))) e"
    let ?p = "case cls of None \<Rightarrow> (True, e) | Some c \<Rightarrow> vm_do (AcceptMethod (ee_jni E) c (clsName @ ''->'' @ ?name @ ?sg) False) e"
    let ?e = "if fst ?p then (snd ?p)\<lparr>e_natives := (e_natives (snd ?p))(clsName @ ''.'' @ ?name @ ?sg \<mapsto> le_val (take 8 (drop 16 ent)))\<rparr>
      else snd ?p"
    have p: "moves 0 e (snd ?p)" by (simp add: E value_callback [OF accepts] split: option.split)
    have "moves 0 (snd ?p) ?e" by (auto intro: moves_same)
    then have "moves 0 e ?e" by (rule moves_trans0 [OF p])
    then have "moves 0 e (register_natives n E cls clsName (a + 24) ?e)" by (rule moves_trans0 [OF _ Suc.IH])
    then show ?thesis using Some by (cases "fst ?p") (simp_all add: split_def Let_def)
  qed simp
qed simp

lemma void_moves: "moves k e (vm_upd (CallVoidMethodV J p sg va) e)" "moves k e (vm_upd (CallStaticVoidMethodV J c sg va) e)"
  by (rule moves_vm_upd, rule void_calls)+

lemma static_calls:
  assumes "ee_jni E = J"
  shows "moves (k + 1) e (snd (callStatic mode E e))" "moves k e (snd (jni_CallStaticInt mode E e))"
    "moves k e (snd (jni_CallStaticVoid mode E e))"
  using assms
  by (auto simp: box_callback [OF object_calls(2)] value_callback [OF int_calls(2)] void_moves callStatic_def jni_CallStaticInt_def jni_CallStaticVoid_def split_def Let_def simp del: add_Suc_right One_nat_def
      split: option.split)

lemma instance_calls:
  assumes "ee_jni E = J"
  shows "moves (k + 1) e (snd (jni_CallObject mode E e))" "moves k e (snd (jni_CallBoolean mode E e))"
    "moves k e (snd (jni_CallInt mode E e))" "moves k e (snd (jni_CallLong mode E e))" "moves k e (snd (jni_CallVoid mode E e))"
  using assms
  by (auto simp: box_callback [OF object_calls(1)] value_callback [OF boolean_calls(1)] value_callback [OF int_calls(1)]
      value_callback [OF long_calls(1)] void_moves jni_CallObject_def jni_CallBoolean_def jni_CallInt_def jni_CallLong_def jni_CallVoid_def split_def Let_def
      simp del: add_Suc_right One_nat_def split: option.split)

lemma new_objects:
  assumes "ee_jni E = J"
  shows "moves 1 e (snd (jni_AllocObject E e))" "moves (k + 1) e (snd (jni_NewObject mode E e))"
proof -
  have "moves 1 e (snd (jni_AllocObject E e)) \<and> moves (k + 1) e (snd (jni_NewObject mode E e))" if e: "emu_ok e"
  proof (cases "derefClass (jarg E 1 e) e")
    case None
    then show ?thesis by (simp add: jni_AllocObject_def jni_NewObject_def)
  next
    case (Some c)
    have c: "c < length (vm_class (e_vm e))" by (rule derefClass_in [OF e Some])
    then show ?thesis
      using assms Some NewObject_moves [of e c VNil] new_or_boxed [OF object_calls(3), of e c]
      by (simp add: jni_AllocObject_def jni_NewObject_def split_def Let_def val_ok_def del: add_Suc_right One_nat_def)
  qed
  then show "moves 1 e (snd (jni_AllocObject E e))" "moves (k + 1) e (snd (jni_NewObject mode E e))"
    by (auto intro: movesI)
qed

lemma field_moves:
  assumes "ee_jni E = J"
  shows "moves (k + 1) e (snd (getField p sg kind E e))" "moves k e (setField p sg kind raw E e)"
    "moves (k + 1) e (snd (getStaticField cls sg kind E e))"
proof -
  note lek = moves_mono [where j = k and k = "k + 1"]
  show "moves (k + 1) e (snd (getField p sg kind E e))"
    using assms
    by (auto simp: box_callback [OF object_calls(4)] lek [OF value_callback [OF boolean_calls(2)]]
        lek [OF value_callback [OF long_calls(2)]] lek [OF value_callback [OF int_calls(3)]] getField_def split_def Let_def simp del: add_Suc_right One_nat_def split: option.split)
  show "moves (k + 1) e (snd (getStaticField cls sg kind E e))"
    using assms
    by (auto simp: box_callback [OF object_calls(5)] lek [OF value_callback [OF long_calls(3)]]
        lek [OF value_callback [OF int_calls(4)]] getStaticField_def split_def Let_def simp del: add_Suc_right One_nat_def split: option.split)
  have s: "moves k e' (vm_upd (\<lambda>m. SetObjectField J p sg (Deref (ucast raw) m) m) e')" for e'
    by (rule moves_vm_upd) (rule void_calls)
  show "moves k e (setField p sg kind raw E e)"
    using moves_trans [OF moves_SetField s, of e p sg "VU64 raw"] moves_mono [OF moves_SetField, of k e p sg "VU64 raw"] assms
    by (simp add: setField_def Let_def)
qed

lemma field_functions:
  assumes "ee_jni E = J"
  shows "moves (k + 1) e (snd (jni_GetField kind E e))" "moves k e (snd (jni_SetField kind E e))"
    "moves (k + 1) e (snd (jni_GetStaticField kind E e))" "moves 0 e (snd (jni_SetStaticField E e))"
  using field_moves [OF assms]
  by (auto simp: jni_GetField_def jni_SetField_def jni_GetStaticField_def jni_SetStaticField_def split: option.split prod.split
      intro: moves_same)

lemma jni_slot_moves:
  assumes E: "ee_jni E = J"
  shows "moves (k + 1) e (snd (jni_slot idx E e))"
proof -
  note le1 = moves_mono [where j = 1 and k = "k + 1", OF _ le_add2] and lek = moves_mono [where j = k and k = "k + 1", OF _ le_add1]
    and le0 = moves_mono [where j = 0 and k = "k + 1", OF _ le0]
  have flag: "moves (k + 1) e (e\<lparr>e_pendingExc := b\<rparr>)" for b by (rule le0) (simp_all add: moves_same)
  have reg: "moves (k + 1) e (snd (jni_RegisterNatives E e))"
    by (rule le0) (simp_all add: jni_RegisterNatives_def Let_def register_natives_moves [OF E])
  have jvm: "moves (k + 1) e (snd (jni_GetJavaVM E e))"
    by (rule le0) (simp_all add: jni_GetJavaVM_def putU64_moves)
  show ?thesis
    unfolding jni_slot_def
    by (simp del: add_Suc_right One_nat_def
        add: flag reg jvm class_functions [THEN le1] id_functions [THEN le1] string_functions [THEN le1] array_functions [THEN le1]
          static_calls(1) [OF E] static_calls(2,3) [OF E, THEN lek] instance_calls(1) [OF E] instance_calls(2-5) [OF E, THEN lek]
          new_objects(1) [OF E, THEN le1] new_objects(2) [OF E] field_functions(1,3) [OF E] field_functions(2) [OF E, THEN lek]
          field_functions(4) [OF E, THEN le0])
qed

lemma handleJNI_moves:
  assumes "ee_jni E = J"
  shows "moves (k + 1) e (handleJNI idx E e)"
  using moves_after [OF jni_slot_moves [OF assms] set_reg_moves] by (simp add: handleJNI_def split_def Let_def)

end

end
