(* ===== verification/Jni_Props.thy ===== *)
theory Jni_Props
  imports Jni_Safe Kernel_Props
begin

text \<open>
  What native code can rely on when it talks to Java: handles, classes and identifiers stay valid over any
  calls, fields and array regions are read as they were written, and text survives the way to UTF-16 and back.
\<close>

subsection \<open>Sessions\<close>

text \<open>A call with the given registers, and a sequence of calls.\<close>

definition jni_call ::
  "('b, 'x, 'h, 'r, 'p) eenv \<Rightarrow> nat \<times> (nat \<times> u64) list \<Rightarrow> ('b, 'x, 'h, 'r, 'p) emu \<Rightarrow> ('b, 'x, 'h, 'r, 'p) emu" where
  "jni_call E c e = handleJNI (fst c) E (fold (\<lambda>(r, v). set_reg E r v) (snd c) e)"

definition jni_session ::
  "('b, 'x, 'h, 'r, 'p) eenv \<Rightarrow> (nat \<times> (nat \<times> u64) list) list \<Rightarrow> ('b, 'x, 'h, 'r, 'p) emu \<Rightarrow> ('b, 'x, 'h, 'r, 'p) emu" where
  "jni_session E = fold (jni_call E)"

lemma set_regs_moves: "moves 0 e (fold (\<lambda>(r, v). set_reg E r v) rs e)"
proof (induction rs arbitrary: e)
  case (Cons x rs)
  have "moves 0 e (set_reg E (fst x) (snd x) e)" by (rule set_reg_moves)
  from moves_trans0 [OF this Cons.IH] show ?case by (simp add: split_def)
qed simp

lemma jni_call_moves:
  assumes "jni_handler (ee_jni E) k"
  shows "moves (k + 1) e (jni_call E c e)"
proof -
  have h: "moves (k + 1) e' (handleJNI i E e')" for e' i by (rule jni_handler.handleJNI_moves [OF assms refl])
  from moves_trans [OF set_regs_moves h] show ?thesis by (simp add: jni_call_def)
qed

lemma jni_session_moves:
  assumes "jni_handler (ee_jni E) k"
  shows "moves (length cs * (k + 1)) e (jni_session E cs e)"
  unfolding jni_session_def
proof (induction cs arbitrary: e)
  case (Cons c cs)
  have "moves ((k + 1) + length cs * (k + 1)) e (fold (jni_call E) cs (jni_call E c e))"
    by (rule moves_trans [OF jni_call_moves [OF assms] Cons.IH])
  then show ?case by (simp add: ac_simps)
qed simp

lemma fresh_ok: "emu_ok (fresh_emu k)"
proof -
  have "vm_fine (snd (ResolveClass ''java/lang/Class'' None NewVM))"
    using ResolveClass_ok(1) [OF NewVM_ok, of "''java/lang/Class''" None] by (simp add: vm_fine_def vals_ok_def ResolveClass_def NewVM_def Let_def)
  moreover have "fst (ResolveClass ''java/lang/Class'' None NewVM) < length (vm_class (snd (ResolveClass ''java/lang/Class'' None NewVM)))"
    by (simp add: ResolveClass_def NewVM_def Let_def)
  ultimately show ?thesis by (simp add: emu_ok_def fresh_emu_def split_def Let_def)
qed

lemma ucast_handle: "ucast (handle r) = r"
  unfolding handle_def by (rule bit_word_eqI) (auto simp: bit_simps)

text \<open>
  C30: over any sequence of JNI calls with any arguments, for every handler that meets its contract and as long
  as the 32-bit counters have room: the tables of the emulator stay consistent with the VM; a handle goes on
  naming its object; a class that has a jclass handle keeps it, and the handle still stands for the class of that
  name; method and field identifiers keep their meaning.
\<close>
theorem jni_session_keeps:
  assumes "jni_handler (ee_jni E) k" and "emu_ok e" and "counts (e_vm e) (length cs * (k + 1))" and "e' = jni_session E cs e"
  shows "emu_ok e' \<and> (\<forall>r p. Deref r (e_vm e) = Some p \<longrightarrow> Deref r (e_vm e') = Some p) \<and>
    (\<forall>n r. e_classRefs e n = Some r \<longrightarrow>
       classRef n e' = (r, e') \<and> (\<exists>c. derefClass (handle r) e' = Some c \<and> className c e' = n)) \<and>
    e_methods e \<subseteq>\<^sub>m e_methods e' \<and> e_fields e \<subseteq>\<^sub>m e_fields e'"
proof -
  have m: "emu_ok e'" "emu_grows e e'"
    using jni_session_moves [OF assms(1), of cs e] assms(2-4) unfolding moves_def by (metis add_0)+
  have "classRef n e' = (r, e') \<and> (\<exists>c. derefClass (handle r) e' = Some c \<and> className c e' = n)" if "e_classRefs e n = Some r" for n r
  proof -
    have r: "e_classRefs e' n = Some r" using m(2) that by (auto simp: emu_grows_def dest: map_le_Some)
    then have "stands_for (e_vm e') r n" using m(1) by (simp add: emu_ok_def)
    then obtain p c where pc: "Deref r (e_vm e') = Some p" "ob_Value (vm_heap (e_vm e') ! p) = VClass c" "vm_classes (e_vm e') n = Some c"
      by (auto simp: stands_for_def)
    have "className c e' = n" using pc(3) m(1) by (simp add: className_def emu_ok_def vm_fine_def vm_ok_def classes_ok_def)
    then show ?thesis using r pc by (simp add: classRef_def derefClass_def deref64_def value_of_def ucast_handle)
  qed
  then show ?thesis using m by (simp add: emu_grows_def vm_grows_def)
qed

definition sample_emu :: "(cpu, context_regs option, unit, unit, unit) emu" where
  "sample_emu = snd (classRef ''A'' (fresh_emu (boot New ())))"

definition sample_eenv :: "(cpu, context_regs option, unit, unit, unit) eenv" where
  "sample_eenv = \<lparr>ee_K = plain_kenv (interp_backend 0 no_simd plain_env), ee_jni = AbstractJni, ee_user = (\<lambda>_ e. (0, e)),
     ee_property = None, ee_Start = (\<lambda>_ _ e. Some (True, e)), ee_Parse = (\<lambda>_. None), ee_ReadFile = (\<lambda>_. None)\<rparr>"

lemma sample_vm:
  "e_vm sample_emu = snd (NewObject 0 (VClass 1) (snd (ResolveClass ''A'' None (snd (ResolveClass ''java/lang/Class'' None NewVM)))))"
  "e_classRefs sample_emu = [''A'' \<mapsto> 0x100]"
  by (simp_all add: sample_emu_def fresh_emu_def classRef_def vm_do_def split_def Let_def NewObject_def alloc_object_def Box_def
      ResolveClass_def NewVM_def)

lemma sample_counts: "counts (e_vm sample_emu) 3"
  by (simp add: sample_vm counts_def NewObject_def alloc_object_def Box_def ResolveClass_def NewVM_def Let_def)

lemma sample_ok: "emu_ok sample_emu"
proof -
  have "counts (e_vm (fresh_emu (boot New ()) :: (cpu, context_regs option, unit, unit, unit) emu)) 1"
    by (simp add: fresh_emu_def split_def Let_def counts_def ResolveClass_def NewVM_def)
  then show ?thesis
    using classRef_moves [of "fresh_emu (boot New ())" "''A''"] fresh_ok unfolding moves_def sample_emu_def by (metis add_0)
qed

theorem jni_session_keeps_witness:
  "let e' = jni_session sample_eenv [(228, []), (20, [(1, 5)]), (17, [])] sample_emu
   in emu_ok e' \<and> classRef ''A'' e' = (0x100, e')"
proof -
  let ?cs = "[(228, []), (20, [(1, 5)]), (17, [])] :: (nat \<times> (nat \<times> u64) list) list"
  have j: "jni_handler (ee_jni sample_eenv) 0" by (simp add: sample_eenv_def aj.jni_handler_axioms)
  have c: "counts (e_vm sample_emu) (length ?cs * (0 + 1))" using sample_counts by (simp add: numeral_3_eq_3)
  from jni_session_keeps [OF j sample_ok c refl] show ?thesis unfolding Let_def sample_vm(2) by auto
qed

text \<open>
  A backend for examples: the registers are the state, memory reads give the bytes of a function.
\<close>

definition flat_backend :: "(u64 \<Rightarrow> u8) \<Rightarrow> (nat \<Rightarrow> u64, unit) backend" where
  "flat_backend mem = \<lparr>RegRead = (\<lambda>r b. Some (b r)), RegWrite = (\<lambda>r v b. (True, b(r := v))), MemMap = (\<lambda>_ _ _ b. (True, b)),
     MemUnmap = (\<lambda>_ _ b. (True, b)), MemProtect = (\<lambda>_ _ _ b. (True, b)), MemWrite = (\<lambda>_ _ b. (True, b)),
     MemRead = (\<lambda>a n b. Some (map (\<lambda>i. mem (a + of_nat i)) [0..<unat n])), StartCount = (\<lambda>_ _ _ b. Some (True, b)),
     StopRun = (\<lambda>b. b), SaveCtx = (\<lambda>b. Some ()), RestoreCtx = (\<lambda>_ b. (True, b)), FlushCache = (\<lambda>b. (True, b))\<rparr>"

definition flat_eenv :: "(u64 \<Rightarrow> u8) \<Rightarrow> (nat \<Rightarrow> u64, unit, unit, unit, unit) eenv" where
  "flat_eenv mem = \<lparr>ee_K = plain_kenv (flat_backend mem), ee_jni = AbstractJni, ee_user = (\<lambda>_ e. (0, e)),
     ee_property = None, ee_Start = (\<lambda>_ _ e. Some (True, e)), ee_Parse = (\<lambda>_. None), ee_ReadFile = (\<lambda>_. None)\<rparr>"

definition flat_emu :: "u64 list \<Rightarrow> unit vm \<Rightarrow> (nat \<Rightarrow> u64, unit, unit, unit, unit) emu" where
  "flat_emu regs m = (fresh_emu (boot (\<lambda>r. if r < length regs then regs ! r else 0) ()))\<lparr>e_vm := m\<rparr>"

lemma flat_regs [simp]: "jarg (flat_eenv mem) n (flat_emu regs m) = (if n < length regs then regs ! n else 0)"
  by (simp add: jarg_def reg_def reg_or_zero_def flat_eenv_def flat_emu_def fresh_emu_def flat_backend_def split_def Let_def)

lemma jarg_fields [simp]: "jarg E n (e\<lparr>e_fields := f\<rparr>) = jarg E n e"
  by (simp add: jarg_def reg_def)

lemma flat_vm [simp]: "e_vm (flat_emu regs m) = m"
  by (simp add: flat_emu_def)

lemma flat_read [simp]:
  "ReadBytes (flat_eenv mem) a n (flat_emu regs m) = Some (map (\<lambda>i. mem (a + of_nat i)) [0..<unat n])"
  by (simp add: ReadBytes_def kread_def flat_eenv_def flat_backend_def)

subsection \<open>Fields\<close>

lemma narrowField_idem: "narrowField (narrowField v k) k = narrowField v k"
proof -
  have 2: "ucast (ucast (scast (b :: u8) :: u32) :: u64) = b" for b by (rule bit_word_eqI) (auto simp: bit_simps)
  have 4: "ucast (ucast (scast (b :: 16 word) :: u32) :: u64) = b" for b by (rule bit_word_eqI) (auto simp: bit_simps)
  have 3: "ucast (ucast (b :: 16 word) :: u64) = b" for b by (rule bit_word_eqI) (auto simp: bit_simps)
  have 5: "ucast (ucast (b :: u32) :: u64) = b" for b by (rule bit_word_eqI) (auto simp: bit_simps)
  show ?thesis by (auto simp: narrowField_def 2 3 4 5)
qed

lemma vm_upd_regs [simp]: "jarg E n (vm_upd f e) = jarg E n e" "e_fields (vm_upd f e) = e_fields e" "e_vm (vm_upd f e) = f (e_vm e)"
  by (simp_all add: jarg_def reg_def vm_upd_def)

lemma SetField_view:
  "Deref r (SetField p sg v m) = Deref r m" "vm_class (SetField p sg v m) = vm_class m"
  "p < length (vm_heap m) \<Longrightarrow> get_Field q sg' (SetField p sg v m) = (if q = p \<and> sg' = sg then Some v else get_Field q sg' m)"
  by (auto simp: SetField_def Deref_def get_Field_def nth_list_update)

lemma fieldInfo_SetField: "fieldInfo E (vm_upd (SetField p sg v) e) = fieldInfo E e"
  by (simp add: fieldInfo_def deref64_def SetField_view field_sig_def className_def cong: option.case_cong)

text \<open>
  C31: for each of the eight primitive types, \<open>Get<Type>Field\<close> after \<open>Set<Type>Field\<close> with the same object and
  field returns the value that was set, cut to the type's width, without asking the handler, and no other
  field of any object changes; the same for the static functions, whose values the emulator keeps itself.
\<close>
theorem field_round_trip:
  assumes "0 < kind" and "kind \<le> 8"
  shows "(\<forall>p sg. fieldInfo E e = Some (p, sg) \<longrightarrow> p < length (vm_heap (e_vm e)) \<longrightarrow>
      (let e' = snd (jni_slot (104 + kind) E e)
       in jni_slot (95 + kind) E e' = (narrowField (jarg E 3 e) kind, e') \<and>
          (\<forall>q sg'. (q, sg') \<noteq> (p, sg) \<longrightarrow> get_Field q sg' (e_vm e') = get_Field q sg' (e_vm e)))) \<and>
    (snd (staticFieldInfo E e) \<noteq> '''' \<longrightarrow>
      (let e' = snd (jni_slot (154 + kind) E e) in jni_slot (145 + kind) E e' = (narrowField (jarg E 3 e) kind, e')))"
proof -
  have slots: "jni_slot (104 + kind) = jni_SetField kind" "jni_slot (95 + kind) = jni_GetField kind"
    "jni_slot (154 + kind) = jni_SetStaticField" "jni_slot (145 + kind) = jni_GetStaticField kind"
    using assms by (simp_all add: jni_slot_def)
  have "jni_GetField kind E (snd (jni_SetField kind E e)) = (narrowField (jarg E 3 e) kind, snd (jni_SetField kind E e)) \<and>
      (\<forall>q sg'. (q, sg') \<noteq> (p, sg) \<longrightarrow> get_Field q sg' (e_vm (snd (jni_SetField kind E e))) = get_Field q sg' (e_vm e))"
    if f: "fieldInfo E e = Some (p, sg)" and p: "p < length (vm_heap (e_vm e))" for p sg
  proof -
    have s: "snd (jni_SetField kind E e) = vm_upd (SetField p sg (VU64 (jarg E 3 e))) e"
      using f assms(1) by (simp add: jni_SetField_def setField_def)
    have "fieldInfo E (vm_upd (SetField p sg (VU64 (jarg E 3 e))) e) = Some (p, sg)" using f by (simp add: fieldInfo_SetField)
    then show ?thesis unfolding s using p by (simp add: jni_GetField_def getField_def SetField_view)
  qed
  moreover have "jni_GetStaticField kind E (snd (jni_SetStaticField E e)) = (narrowField (jarg E 3 e) kind, snd (jni_SetStaticField E e))"
    if sg: "snd (staticFieldInfo E e) \<noteq> ''''"
  proof -
    obtain c mb where f: "e_fields e (ucast (jarg E 2 e)) = Some (c, mb)"
      using sg by (auto simp: staticFieldInfo_def split: option.splits)
    show ?thesis
      using f sg by (simp add: staticFieldInfo_def jni_GetStaticField_def jni_SetStaticField_def getStaticField_def jarg_def reg_def
          field_sig_def className_def)
  qed
  ultimately show ?thesis unfolding slots Let_def by blast
qed

theorem field_round_trip_witness:
  "let m = snd (NewObject 0 VNil (snd (ResolveClass ''A'' None NewVM)));
       e = (flat_emu [0, 0x100, 0x70000001, 0x1122334455667788] m)
         \<lparr>e_fields := [0x70000001 \<mapsto> (0, \<lparr>mb_ID = 0x70000001, mb_Name = ''x'', mb_Sig = ''J'', mb_Static = False\<rparr>)]\<rparr>;
       e' = snd (jni_slot 110 (flat_eenv (\<lambda>_. 0)) e)
   in jni_slot 101 (flat_eenv (\<lambda>_. 0)) e' = (0x1122334455667788, e')"
proof -
  let ?E = "flat_eenv (\<lambda>_. 0)" and ?m = "snd (NewObject 0 VNil (snd (ResolveClass ''A'' None NewVM)))"
  let ?mb = "\<lparr>mb_ID = 0x70000001, mb_Name = ''x'', mb_Sig = ''J'', mb_Static = False\<rparr>"
  let ?e = "(flat_emu [0, 0x100, 0x70000001, 0x1122334455667788] ?m)\<lparr>e_fields := [0x70000001 \<mapsto> (0, ?mb)]\<rparr>"
  have "fieldInfo ?E ?e = Some (0, ''A->x:J'')" "0 < length (vm_heap (e_vm ?e))"
    by (simp_all add: fieldInfo_def deref64_def Deref_def NewObject_def alloc_object_def Box_def ResolveClass_def NewVM_def
        field_sig_def className_def Let_def)
  then have "jni_slot 101 ?E (snd (jni_slot 110 ?E ?e)) = (narrowField 0x1122334455667788 6, snd (jni_slot 110 ?E ?e))"
    using conjunct1 [OF field_round_trip [of 6 ?E ?e]] by (simp add: Let_def)
  then show ?thesis by (simp add: narrowField_def)
qed

subsection \<open>Byte arrays\<close>

lemma jregion_cases:
  "jregion rs rl n = (if int32_of rs < 0 \<or> int32_of rl < 0 \<or> int32_of rs + int32_of rl > int n then None
     else Some (nat (int32_of rs), nat (int32_of rs) + nat (int32_of rl)))"
  by (auto simp: jregion_def Let_def nat_add_distrib)

lemma garray_set_bytes [simp]: "garray x (set_bytes b bs e) = garray x e"
  by (simp add: garray_def deref64_def Deref_def value_of_def set_bytes_def vm_upd_def cong: option.case_cong)

lemma set_bytes_regs [simp]: "jarg E n (set_bytes b bs e) = jarg E n e" "vm_bytes (e_vm (set_bytes b bs e)) = (vm_bytes (e_vm e))[b := bs]"
  by (simp_all add: set_bytes_def)

text \<open>
  C32: \<open>SetByteArrayRegion\<close> and \<open>GetByteArrayRegion\<close> check the region, whatever 32-bit start and length the guest
  passes: outside the array, or negative, both do nothing; inside, the first replaces exactly the bytes of the
  region by those of the buffer, and the second then writes exactly these bytes to its buffer.
\<close>
theorem byte_array_region:
  assumes "garray (jarg E 1 e) e = Some b" and "b < length (vm_bytes (e_vm e))"
  shows "let bs = gbytes (jarg E 1 e) e; s = int32_of (jarg E 2 e); l = int32_of (jarg E 3 e); e' = snd (jni_slot 208 E e)
    in if s < 0 \<or> l < 0 \<or> s + l > int (length bs) then e' = e \<and> snd (jni_slot 200 E e) = e
       else \<forall>d. ReadBytes E (jarg E 4 e) (of_nat (nat l)) e = Some d \<longrightarrow> length d = nat l \<longrightarrow>
         gbytes (jarg E 1 e') e' = take (nat s) bs @ d @ drop (nat s + nat l) bs \<and>
         snd (jni_slot 200 E e') = poke_mem E (jarg E 4 e) d e'"
proof -
  let ?bs = "vm_bytes (e_vm e) ! b" and ?s = "int32_of (jarg E 2 e)" and ?l = "int32_of (jarg E 3 e)"
  have g: "gbytes (jarg E 1 e) e = ?bs" using assms(1) by (simp add: gbytes_def)
  have slots: "jni_slot 208 = jni_SetByteArrayRegion" "jni_slot 200 = jni_GetByteArrayRegion" by (simp_all add: jni_slot_def)
  show ?thesis
  proof (cases "?s < 0 \<or> ?l < 0 \<or> ?s + ?l > int (length ?bs)")
    case True
    then show ?thesis
      using assms(1) by (simp add: slots g jni_SetByteArrayRegion_def jni_GetByteArrayRegion_def jregion_cases Let_def del: One_nat_def)
  next
    case False
    have inside: "nat ?s + nat ?l \<le> length ?bs" using False by linarith
    have "gbytes (jarg E 1 (snd (jni_SetByteArrayRegion E e))) (snd (jni_SetByteArrayRegion E e)) =
        take (nat ?s) ?bs @ d @ drop (nat ?s + nat ?l) ?bs \<and>
        snd (jni_GetByteArrayRegion E (snd (jni_SetByteArrayRegion E e))) =
          poke_mem E (jarg E 4 e) d (snd (jni_SetByteArrayRegion E e))"
      if d: "ReadBytes E (jarg E 4 e) (of_nat (nat ?l)) e = Some d" "length d = nat ?l" for d
    proof -
      define bs' where "bs' = take (nat ?s) ?bs @ d @ drop (nat ?s + nat ?l) ?bs"
      have e: "snd (jni_SetByteArrayRegion E e) = set_bytes b bs' e"
        using assms(1) False d by (simp add: jni_SetByteArrayRegion_def jregion_cases Let_def poke_def bs'_def)
      have g': "gbytes (jarg E 1 e) (set_bytes b bs' e) = bs'"
        using assms by (simp add: gbytes_def)
      have "length bs' = length ?bs" using inside d(2) by (simp add: bs'_def)
      moreover have "take (nat ?l) (drop (nat ?s) bs') = d" using inside d(2) by (simp add: bs'_def)
      ultimately show ?thesis
        unfolding e using False g' by (simp add: jni_GetByteArrayRegion_def jregion_cases Let_def bs'_def)
    qed
    then show ?thesis using False by (simp add: slots g Let_def del: One_nat_def)
  qed
qed

theorem byte_array_region_witness:
  "let m = snd (NewByteArray 0 (snd (alloc_bytes [1, 2, 3, 4] NewVM)));
       e = flat_emu [0, 0x100, 1, 2, 0x5000] m; e' = snd (jni_slot 208 (flat_eenv (\<lambda>_. 9)) e)
   in gbytes 0x100 e = [1, 2, 3, 4] \<and> gbytes (jarg (flat_eenv (\<lambda>_. 9)) 1 e') e' = [1, 9, 9, 4]"
proof -
  let ?E = "flat_eenv (\<lambda>_. 9)" and ?m = "snd (NewByteArray 0 (snd (alloc_bytes [1, 2, 3, 4] NewVM)))"
  let ?e = "flat_emu [0, 0x100, 1, 2, 0x5000] ?m"
  have a: "garray (jarg ?E 1 ?e) ?e = Some 0" "0 < length (vm_bytes (e_vm ?e))" "gbytes 0x100 ?e = [1, 2, 3, 4]"
    by (simp_all add: garray_def gbytes_def deref64_def Deref_def value_of_def NewByteArray_def NewObject_def alloc_object_def
        alloc_bytes_def Box_def ResolveClass_def NewVM_def Let_def)
  have i: "int32_of 1 = 1" "int32_of 2 = 2" by (simp_all add: int32_of_def)
  have "unat (2 :: u64) = 2" by simp
  then have "gbytes (jarg ?E 1 (snd (jni_slot 208 ?E ?e))) (snd (jni_slot 208 ?E ?e)) = [1, 9, 9, 4]"
    using byte_array_region [OF a(1,2)] a(3) i by (simp add: Let_def upt_rec)
  then show ?thesis using a(3) by simp
qed

subsection \<open>Text\<close>

lemma length_units_le [simp]: "length (units_le us) = 2 * length us"
  by (induction us) (simp_all add: units_le_def)

lemma units_from_le: "\<forall>u \<in> set us. u < 0x10000 \<Longrightarrow> units_from (length us) (units_le us) = us"
proof (induction us)
  case (Cons u us)
  have "unat (le_val (le_bytes 2 (of_nat u))) = u"
    using Cons.prems by (simp add: le_val_le_bytes unsigned_take_bit_eq unsigned_of_nat take_bit_nat_eq_self flip: take_bit_eq_mask)
  moreover have "units_from (Suc (length us)) (le_bytes 2 (of_nat u) @ units_le us) =
      unat (le_val (le_bytes 2 (of_nat u))) # units_from (length us) (units_le us)"
    by (simp add: units_from_def upt_conv_Cons del: upt_Suc flip: map_Suc_upt) 
  ultimately show ?case using Cons by (simp add: units_le_def)
qed (simp add: units_from_def)

text \<open>The buffer a string is handed out in: what the interpreter's memory holds after writing it.\<close>

lemma cpu_read_ok:
  fixes c :: "'a cpu_scheme"
  assumes "mem_inv D c" and "unat a + length bs < 2 ^ 64" and "length bs \<le> 2 ^ 28"
    and "\<forall>i < length bs. mbyte c (a + of_nat i) = Some (bs ! i)"
  shows "interp_MemRead a (of_nat (length bs)) c = Some bs"
proof (cases "bs = []")
  case False
  have u: "unat (of_nat (length bs) :: u64) = length bs"
    using assms(3) by (simp add: unat_of_nat take_bit_nat_eq_self)
  have "of_nat (length bs) \<noteq> (0 :: u64)" "\<not> MaxMemReadLen < of_nat (length bs)"
    using u False assms(3) by (auto simp: MaxMemReadLen_def word_less_nat_alt unat_eq_zero)
  moreover have "mbytes c a (length bs) = bs"
    using assms(4) by (intro nth_equalityI) (simp_all add: mbytes_def)
  ultimately show ?thesis
    using host_read_correct [OF assms(1,2)] assms(4) by (simp add: interp_MemRead_def u)
qed (simp add: interp_MemRead_def)

lemma cpu_regs_kept:
  fixes c :: "'a cpu_scheme"
  shows "interp_RegRead r (snd (report (mem_map a n p c))) = interp_RegRead r c"
    and "interp_RegRead r (snd (interp_MemWrite a bs c)) = interp_RegRead r c"
proof -
  have o: "interp_RegRead r c' = interp_RegRead r c" if "outside_eq c c'" for c' :: "'a cpu_scheme"
  proof -
    have m: "memory.more c' = memory.more c" "m_pc c' = m_pc c"
      using that by (simp_all add: outside_eq_def)
    show ?thesis
      by (simp add: interp_RegRead_def getX_def more_fields [OF m(1)] m(2))
  qed
  show "interp_RegRead r (snd (report (mem_map a n p c))) = interp_RegRead r c"
    using o [OF mem_map_outside] by (simp add: report_def)
  show "interp_RegRead r (snd (interp_MemWrite a bs c)) = interp_RegRead r c"
    using o [OF host_write_outside] by (simp add: interp_MemWrite_def report_def)
qed

lemma with_be_k: "k_be (e_k (snd (with_be f e))) = snd (f (k_be (e_k e)))" "fst (with_be f e) = fst (f (k_be (e_k e)))"
  by (simp_all add: with_be_def on_be_def split: prod.split)

text \<open>What \<open>GetStringChars\<close> does to the CPU: it maps, writes the text, and writes the flag.\<close>

lemma chars_run:
  assumes E: "be_of E = interp_backend fuel simd C" and r: "jni_GetStringChars flag E e0 = (a, e1)"
    and bs: "bs = utf16le (gstr (jarg E 1 e0) e0) @ [0, 0]"
    and c1: "c1 = snd (report (mem_map a (pageUp (of_nat (length bs) + 16)) (ProtRead OR ProtWrite) (k_be (e_k e0))))"
    and c2: "c2 = snd (interp_MemWrite a bs c1)"
  shows "a = s_mmapTop (k_mem (e_k e0))"
    and "k_be (e_k e1) = (if jarg E 2 e0 = 0 then c2 else snd (interp_MemWrite (jarg E 2 e0) [flag] c2))"
proof -
  define ea where "ea = snd (Alloc E (of_nat (length bs) + 16) (ProtRead OR ProtWrite) e0)"
  define ew where "ew = poke_mem E a bs ea"
  have a: "fst (Alloc E (of_nat (length bs) + 16) (ProtRead OR ProtWrite) e0) = a" and e1: "e1 = put_isCopy flag E ew"
    using r by (auto simp: jni_GetStringChars_def WriteScratch_def bs ea_def ew_def split_def Let_def simp del: bit.conj_disj_distrib)
  then show "a = s_mmapTop (k_mem (e_k e0))"
    by (simp add: Alloc_def Let_def split_def Mmap_def)
  have ka: "k_be (e_k ea) = c1"
    using a by (auto simp: ea_def c1 Alloc_def Let_def split_def with_be_k E interp_backend_def)
  have kw: "k_be (e_k ew) = c2"
    by (simp add: ew_def poke_mem_def WriteBytes_def with_be_k E interp_backend_def c2 ka)
  have rd: "jarg E 2 ew = jarg E 2 e0"
    by (simp add: jarg_def reg_def reg_or_zero_def E interp_backend_def kw c2 c1 cpu_regs_kept)
  show "k_be (e_k e1) = (if jarg E 2 e0 = 0 then c2 else snd (interp_MemWrite (jarg E 2 e0) [flag] c2))"
    by (simp add: e1 put_isCopy_def rd poke_mem_def WriteBytes_def with_be_k E interp_backend_def kw)
qed

text \<open>
  The pointer the guest gets for a string it asked for as UTF-16: if it is mapped, it holds the UTF-16 form
  and a terminator, provided the flag does not lie in the buffer.
\<close>

lemma chars_in_memory:
  assumes E: "be_of E = interp_backend fuel simd C" and m: "mem_inv D (k_be (e_k e0))"
    and r: "jni_GetStringChars flag E e0 = (a, e1)" and bs: "bs = utf16le (gstr (jarg E 1 e0) e0) @ [0, 0]"
    and n: "length bs \<le> 2 ^ 28" "unat a + length bs < 2 ^ 64"
    and mapped: "\<forall>i < length bs. mbyte (k_be (e_k e1)) (a + of_nat i) \<noteq> None"
    and flag: "jarg E 2 e0 = 0 \<or> length bs \<le> unat (jarg E 2 e0 - a)"
  shows "\<forall>i < length bs. mbyte (k_be (e_k e1)) (a + of_nat i) = Some (bs ! i)"
proof -
  define c1 where "c1 = snd (report (mem_map a (pageUp (of_nat (length bs) + 16)) (ProtRead OR ProtWrite) (k_be (e_k e0))))"
  define c2 where "c2 = snd (interp_MemWrite a bs c1)"
  note k = chars_run(2) [OF E r bs c1_def c2_def]
  have ia: "mem_inv D c1"
    using interp_map_law(1) [OF m] by (simp add: c1_def)
  have n63: "length bs < 2 ^ 63" using n(1) by simp
  note w = interp_write_law [OF ia n63, of a, folded c2_def]
  have out: "mbyte (k_be (e_k e1)) x = mbyte c2 x" if "jarg E 2 e0 = 0 \<or> x \<noteq> jarg E 2 e0" for x
    using interp_write_law(2) [OF w(1), of "[flag]" "jarg E 2 e0"] that
    by (cases "jarg E 2 e0 = 0") (auto simp: k mem_put_def unat_eq_zero)
  have u: "unat ((a + of_nat i) - a) = i" if "i < length bs" for i
    using that n(1) by (simp add: unat_of_nat take_bit_nat_eq_self)
  have same: "mbyte (k_be (e_k e1)) (a + of_nat i) = mbyte c2 (a + of_nat i)" if i: "i < length bs" for i
  proof (rule out)
    show "jarg E 2 e0 = 0 \<or> a + of_nat i \<noteq> jarg E 2 e0"
      using flag u [OF i] i by (metis not_le)
  qed
  show ?thesis
  proof (cases "fst (interp_MemWrite a bs c1)")
    case True
    then show ?thesis
      using w(2) same u by (simp add: mem_put_def)
  next
    case False
    have c: "mbyte c1 (a + of_nat i) \<noteq> None" if "i < length bs" for i
      using mapped same w(2) False that by simp
    have "fst (interp_MemWrite a bs c1)"
    proof (cases "bs = []")
      case False
      obtain m' where "host_write a bs c1 = (Inr (), m')"
        using host_write_correct [OF ia n(2) n63] c by metis
      then show ?thesis using False by (simp add: interp_MemWrite_def report_def)
    qed (simp add: interp_MemWrite_def)
    then show ?thesis using False by simp
  qed
qed

lemma gstr_new:
  assumes "emu_ok e"
  shows "gstr (handle (vm_nextRef (snd (ResolveClass ''java/lang/String'' None (e_vm e))))) (snd (vm_do (NewString t) e)) = t"
proof -
  let ?m = "snd (ResolveClass ''java/lang/String'' None (e_vm e))"
  have "vm_ok ?m" using assms ResolveClass_ok(1) [OF _ prod.collapse [symmetric], of "e_vm e"] by (simp add: emu_ok_def vm_fine_def)
  then have "vm_nextRef ?m \<noteq> 0" by (auto simp: vm_ok_def objs_ok_def)
  then show ?thesis
    by (simp add: gstr_def deref64_def Deref_def ucast_handle vm_do_vm NewString_def NewObject_def alloc_object_def Box_def
        update_conv' value_of_def split_def Let_def)
qed

text \<open>
  The same for any later state whose memory holds the UTF-16 form of the string.
\<close>

lemma text_again:
  assumes "emu_ok e" and "gstr h e0 = s" and "int32_of (jarg E 2 e) = sint (fst (jni_GetStringLength E e0))" and "jarg E 1 e0 = h"
    and "length (units s) < 2 ^ 31" and "ReadBytes E (jarg E 1 e) (of_nat (2 * length (units s))) e = Some (utf16le s)"
  shows "let (h', e') = jni_slot 163 E e
    in runes (gstr h' e') = runes s \<and> (\<forall>rs. s = string_of rs \<longrightarrow> (\<forall>r \<in> set rs. is_scalar r) \<longrightarrow> gstr h' e' = s)"
proof -
  let ?n = "length (units s)"
  have "fst (jni_GetStringLength E e0) = of_nat ?n" using assms(2,4) by (simp add: jni_GetStringLength_def)
  moreover have "sint (of_nat ?n :: u64) = int ?n"
    using assms(5) by (simp add: signed_of_nat signed_take_bit_int_eq_self)
  ultimately have n: "nat (int32_of (jarg E 2 e)) = ?n" using assms(3) by simp
  have u: "units_from ?n (utf16le s) = units s" unfolding utf16le_def by (rule units_from_le) (simp add: units_small)
  have rd: "ReadBytes E (jarg E 1 e) (of_nat ?n * 2) e = Some (utf16le s)" using assms(6) by (simp add: mult.commute)
  let ?t = "string_of (runes s)"
  let ?m = "snd (ResolveClass ''java/lang/String'' None (e_vm e))"
  have r: "jni_slot 163 E e = (handle (vm_nextRef ?m), snd (vm_do (NewString ?t) e))"
    using n rd u by (simp add: jni_slot_def jni_NewString_def Decode_units vm_do_def split_def Let_def NewString_def NewObject_ref)
  have g: "gstr (handle (vm_nextRef ?m)) (snd (vm_do (NewString ?t) e)) = ?t"
    by (rule gstr_new [OF assms(1)])
  show ?thesis unfolding r using g runes_scalar by (auto simp: runes_string_of)
qed

text \<open>
  C33: the guest asks for a string as UTF-16 (\<open>GetStringChars\<close> or \<open>GetStringCritical\<close>, with or without a
  copy flag outside the buffer), later passes the pointer it got, with the length that \<open>GetStringLength\<close>
  gives, to \<open>NewString\<close>, having left the buffer as it was: the new string has the same runes, bytes that are
  not UTF-8 counting as U+FFFD, and is the same string if that was well-formed UTF-8. The buffer must be
  mapped (the code ignores a failed allocation) and within the 256 MiB the backend reads at once.
\<close>
theorem text_round_trip:
  assumes E: "be_of E = interp_backend fuel simd C" and m: "mem_inv D (k_be (e_k e0))" and "gstr (jarg E 1 e0) e0 = s"
    and "idx \<in> {165, 224}" and "jni_slot idx E e0 = (a, e1)" and "n = 2 * length (units s)"
    and "n + 2 \<le> 2 ^ 28" and "unat a + (n + 2) < 2 ^ 64" and "\<forall>i < n + 2. mbyte (k_be (e_k e1)) (a + of_nat i) \<noteq> None"
    and "jarg E 2 e0 = 0 \<or> n + 2 \<le> unat (jarg E 2 e0 - a)"
    and "emu_ok e" and "mem_inv D (k_be (e_k e))"
    and "\<forall>i < n. mbyte (k_be (e_k e)) (a + of_nat i) = mbyte (k_be (e_k e1)) (a + of_nat i)"
    and "jarg E 1 e = a" and "int32_of (jarg E 2 e) = sint (fst (jni_slot 164 E e0))"
  shows "let (h', e') = jni_slot 163 E e
    in runes (gstr h' e') = runes s \<and> (\<forall>rs. s = string_of rs \<longrightarrow> (\<forall>r \<in> set rs. is_scalar r) \<longrightarrow> gstr h' e' = s)"
proof -
  have len: "length (utf16le s) = n"
    by (simp add: utf16le_def assms(6))
  obtain flag where g: "jni_GetStringChars flag E e0 = (a, e1)"
    using assms(4,5) by (auto simp: jni_slot_def)
  have c: "\<forall>i < n + 2. mbyte (k_be (e_k e1)) (a + of_nat i) = Some ((utf16le s @ [0, 0]) ! i)"
    using chars_in_memory [OF E m g refl] assms(3,7-10) by (simp add: len)
  have "interp_MemRead a (of_nat (length (utf16le s))) (k_be (e_k e)) = Some (utf16le s)"
    using c assms(7,8,13) by (intro cpu_read_ok [OF assms(12)]) (simp_all add: len nth_append)
  then have "ReadBytes E (jarg E 1 e) (of_nat (2 * length (units s))) e = Some (utf16le s)"
    unfolding len assms(6) by (simp add: ReadBytes_def kread_def E interp_backend_def assms(14) del: One_nat_def)
  then show ?thesis
    using assms(7,15) by (intro text_again [OF assms(11,3)]) (simp_all add: jni_slot_def assms(6))
qed

text \<open>The string with a smiling face, its UTF-16 in two units.\<close>

definition smile :: string where
  "smile = string_of [0x1F600]"

definition smile_emu :: "(cpu, context_regs option, unit, unit, unit) emu" where
  "smile_emu = set_reg sample_eenv 1 (handle (vm_nextRef (snd (ResolveClass ''java/lang/String'' None (e_vm sample_emu)))))
     (snd (vm_do (NewString smile) sample_emu))"

lemma gstr_vm: "e_vm e' = e_vm e \<Longrightarrow> gstr h e' = gstr h e"
  by (simp add: gstr_def deref64_def value_of_def cong: option.case_cong)

lemma gstr_set_reg [simp]: "gstr h (set_reg E r v e) = gstr h e"
  by (rule gstr_vm) (simp add: set_reg_def with_be_def split: prod.split)

lemma set_reg_cpu:
  assumes "be_of E = interp_backend fuel simd C" and "r \<in> {1, 2}"
  shows "k_be (e_k (set_reg E r v e)) = setX r v (k_be (e_k e))"
    and "q \<in> {1, 2} \<Longrightarrow> jarg E q (set_reg E r v e) = (if q = r then v else jarg E q e)"
proof -
  show c: "k_be (e_k (set_reg E r v e)) = setX r v (k_be (e_k e))"
    using assms by (auto simp: set_reg_def with_be_k interp_backend_def interp_RegWrite_def)
  show "jarg E q (set_reg E r v e) = (if q = r then v else jarg E q e)" if "q \<in> {1, 2}"
    using that assms(2) c by (elim insertE emptyE; simp add: jarg_def reg_def reg_or_zero_def assms(1) interp_backend_def interp_RegRead_def getX_def setX_def del: One_nat_def)
qed

lemma set_reg_inv:
  assumes "be_of E = interp_backend fuel simd C" and "mem_inv D (k_be (e_k e))"
  shows "mem_inv D (k_be (e_k (set_reg E r v e)))" and "mbyte (k_be (e_k (set_reg E r v e))) = mbyte (k_be (e_k e))"
  using interp_reg_law [OF assms(2), of r v] assms(1) by (simp_all add: set_reg_def with_be_k interp_backend_def)

lemma smile_units: "units smile = [0xD83D, 0xDE00]"
proof -
  have "runes smile = [0x1F600]"
    unfolding smile_def by (rule runes_string_of) (simp add: is_scalar_def)
  then show ?thesis by (simp add: units_def utf16_Encode_def utf16_def is_scalar_def)
qed

lemma smile_state:
  "be_of sample_eenv = interp_backend 0 no_simd plain_env" "k_be (e_k smile_emu) = setX 1 (jarg sample_eenv 1 smile_emu) New"
  "k_mem (e_k smile_emu) = NewSpace" "jarg sample_eenv 2 smile_emu = 0" "gstr (jarg sample_eenv 1 smile_emu) smile_emu = smile"
  "emu_ok smile_emu \<and> counts (e_vm smile_emu) 2"
proof -
  show E: "be_of sample_eenv = interp_backend 0 no_simd plain_env"
    by (simp add: sample_eenv_def plain_kenv_def)
  have k: "k_be (e_k sample_emu) = New" "k_mem (e_k sample_emu) = NewSpace" "k_be (e_k (snd (vm_do f sample_emu))) = New"
    "k_mem (e_k (snd (vm_do f sample_emu))) = NewSpace" for f :: "unit vm \<Rightarrow> ref \<times> unit vm"
    by (simp_all add: sample_emu_def classRef_def vm_do_def fresh_emu_def boot_def split_def Let_def split: option.split)
  have j1: "jarg sample_eenv 1 smile_emu = handle (vm_nextRef (snd (ResolveClass ''java/lang/String'' None (e_vm sample_emu))))"
    unfolding smile_emu_def by (subst set_reg_cpu(2) [OF E]) simp_all
  show "k_be (e_k smile_emu) = setX 1 (jarg sample_eenv 1 smile_emu) New"
    unfolding j1 unfolding smile_emu_def by (subst set_reg_cpu(1) [OF E]) (simp_all add: k)
  show "k_mem (e_k smile_emu) = NewSpace"
    using k(4) by (simp add: smile_emu_def set_reg_def with_be_def on_be_def split: prod.split)
  show "jarg sample_eenv 2 smile_emu = 0"
    unfolding smile_emu_def
    by (subst set_reg_cpu(2) [OF E])
      (simp_all add: jarg_def reg_def reg_or_zero_def E interp_backend_def interp_RegRead_def getX_def k, simp add: New_def mem_init_def)
  show "gstr (jarg sample_eenv 1 smile_emu) smile_emu = smile"
    unfolding j1 unfolding smile_emu_def gstr_set_reg by (rule gstr_new [OF sample_ok])
  have "moves (1 + 0) sample_emu smile_emu"
    unfolding smile_emu_def by (rule moves_trans [OF NewString_moves set_reg_moves])
  then show "emu_ok smile_emu \<and> counts (e_vm smile_emu) 2"
    using sample_ok sample_counts by (auto simp: moves_def numeral_3_eq_3 eval_nat_numeral)
qed

theorem text_round_trip_witness:
  "let (a, e1) = jni_slot 165 sample_eenv smile_emu;
       (h, e') = jni_slot 163 sample_eenv (set_reg sample_eenv 2 2 (set_reg sample_eenv 1 a e1))
   in gstr h e' = smile"
proof -
  let ?E = sample_eenv and ?D = "decode no_simd inst0"
  obtain a e1 where s: "jni_slot 165 ?E smile_emu = (a, e1)" by force
  then have g: "jni_GetStringChars 1 ?E smile_emu = (a, e1)" by (simp add: jni_slot_def)
  have b0: "mem_inv ?D (k_be (e_k smile_emu))" "mbyte (k_be (e_k smile_emu)) x = None" for x
    using interp_reg_law [OF New_inv [of ?D], of 1 "jarg ?E 1 smile_emu"]
    by (simp_all add: smile_state(2) interp_RegWrite_def)
  define bs where "bs = utf16le smile @ [0, 0]"
  have len: "length bs = 6" "length (units smile) = 2" by (simp_all add: bs_def utf16le_def smile_units)
  have pg: "pageUp (of_nat (length bs) + 16) = 0x1000" by (simp add: len pageUp_def)
  have bse: "bs = utf16le (gstr (jarg ?E 1 smile_emu) smile_emu) @ [0, 0]" by (simp only: smile_state(5) bs_def)
  obtain c1 where c1: "mem_map MmapBase 0x1000 3 (k_be (e_k smile_emu)) = (Inr (), c1)" "\<forall>x. mbyte c1 x = (if x - MmapBase < 0x1000 then Some 0 else None)"
    by (rule map_ok [OF b0(1), of MmapBase "0x1000" 3]) (auto simp: good_range_def b0(2))
  have a: "a = MmapBase"
    using chars_run(1) [OF smile_state(1) g bse refl refl] by (simp add: smile_state(3) NewSpace_def)
  have k: "k_be (e_k e1) = snd (interp_MemWrite MmapBase bs c1)"
    using chars_run(2) [OF smile_state(1) g bse refl refl] unfolding pg a smile_state(4) by (simp add: c1(1) report_def)
  have ic: "mem_inv ?D c1"
    using interp_map_law(1) [OF b0(1), of MmapBase "0x1000" 3] by (simp add: c1(1) report_def)
  note w = interp_write_law [OF ic, of bs MmapBase, folded k]
  have on: "mbyte (k_be (e_k e1)) (MmapBase + of_nat i) \<noteq> None" if "i < 6" for i
  proof -
    have "(of_nat i :: u64) < 0x1000" using that by (simp add: word_less_nat_alt unat_of_nat take_bit_nat_eq_self)
    then show ?thesis using w(2) c1(2) by (auto simp: len mem_put_def)
  qed
  let ?e = "set_reg ?E 2 2 (set_reg ?E 1 a e1)"
  have j: "jni_handler (ee_jni ?E) 0" by (simp add: sample_eenv_def aj.jni_handler_axioms)
  have "moves (0 + 1) smile_emu e1"
    using jni_handler.jni_slot_moves [OF j refl, of smile_emu 165] s by simp
  from moves_trans [OF this moves_trans0 [OF set_reg_moves set_reg_moves]]
  have ok: "emu_ok ?e"
    using smile_state(6) unfolding moves_def by (metis add.commute one_add_one add_0)
  have i1: "mem_inv ?D (k_be (e_k e1))" using w(1) by (simp add: len)
  have r: "jarg ?E 1 ?e = a" "jarg ?E 2 ?e = 2"
    using set_reg_cpu(2) [OF smile_state(1)] by simp_all
  have l: "int32_of (jarg ?E 2 ?e) = sint (fst (jni_slot 164 ?E smile_emu))"
    unfolding r(2) by (simp add: jni_slot_def jni_GetStringLength_def smile_state(5) len int32_of_def del: One_nat_def)
  have sc: "smile = string_of [0x1F600]" "\<forall>r \<in> set [0x1F600]. is_scalar r" by (simp_all add: smile_def is_scalar_def)
  have m: "\<forall>i < 4 + 2. mbyte (k_be (e_k e1)) (a + of_nat i) \<noteq> None" using on by (simp add: a)
  have i2: "mem_inv ?D (k_be (e_k ?e))" "\<forall>i < 4. mbyte (k_be (e_k ?e)) (a + of_nat i) = mbyte (k_be (e_k e1)) (a + of_nat i)"
    using set_reg_inv [OF smile_state(1) set_reg_inv(1) [OF smile_state(1) i1]] set_reg_inv(2) [OF smile_state(1) i1]
    by (simp_all del: One_nat_def)
  have n: "(4 :: nat) = 2 * length (units smile)" "(4 :: nat) + 2 \<le> 2 ^ 28" "unat a + (4 + 2) < 2 ^ 64" by (simp_all add: len a)
  have "let (h, e') = jni_slot 163 ?E ?e in runes (gstr h e') = runes smile \<and>
      (\<forall>rs. smile = string_of rs \<longrightarrow> (\<forall>r \<in> set rs. is_scalar r) \<longrightarrow> gstr h e' = smile)"
    by (rule text_round_trip [OF smile_state(1) b0(1) smile_state(5) _ s n m _ ok i2 r(1) l]) (simp_all add: smile_state(4))
  then have "let (h, e') = jni_slot 163 ?E ?e in gstr h e' = smile"
    using sc by (auto simp: Let_def simp del: One_nat_def split: prod.splits)
  then show ?thesis by (simp add: s)
qed

end
