(* ===== verification/Sched_Props.thy ===== *)
theory Sched_Props
  imports Sched_Inv Jni_Props
begin

text \<open>
  The scheduler's promises: \<open>RunThreads\<close> comes to rest, gives the main thread its registers back, never runs
  a thread beyond its budget, and joining a thread delivers its result; and traps that are no system calls stop.
\<close>

subsection \<open>Coming to rest\<close>

text \<open>
  C34: on an engine whose contexts can be saved and restored, when \<open>RunThreads\<close> returns without an error it has
  run at most 81 slices for each thread there is, and with up to 1234 threads none is left that could run:
  each has returned, waits on a futex or has used its 80 slices.
\<close>
theorem threads_come_to_rest:
  assumes "contexts_work (be_of E)" and "users_keep_threads E" and "starts_guest E" and "sched_ok e"
    and "RunThreads E e = Some ((True, cnt), e')"
  shows "cnt \<le> 81 * length (e_fibers e') \<and> (\<forall>f \<in> set (e_fibers e'). fb_slices f \<le> 80) \<and> sched_ok e' \<and>
    (length (e_fibers e') \<le> 1234 \<longrightarrow> (\<forall>f \<in> set (e_fibers e').
       fb_state f = FsDone \<or> fb_state f = FsWaiting \<or> fb_state f = FsParked \<and> fb_slices f = 80))"
proof -
  have "sched_ok e' \<and> cnt \<le> used_all e' \<and> (anyRunnable e' \<longrightarrow> 100000 \<le> cnt)"
  proof (cases "anyRunnable e")
    case False
    then show ?thesis using assms(4,5) by (simp add: RunThreads_def)
  next
    case True
    obtain x where "SaveCtx (be_of E) (k_be (e_k e)) = Some x" using assms(1) unfolding contexts_work_def by blast
    then obtain e1 where r: "sched_rounds 100000 E 0 e = Some ((True, cnt), e1)" and e': "e' = snd (with_be (RestoreCtx (be_of E) x) e1)"
      using True assms(5) by (auto simp: RunThreads_def)
    have fs: "e_fibers e' = e_fibers e1" using basic_same(1) [of e1 "RestoreCtx (be_of E) x"] e' by (simp add: sched_same_def)
    show ?thesis
      using rounds_progress [OF assms(1-4) r] fs by (auto simp: sched_ok_def used_all_def anyRunnable_def)
  qed
  then have e': "sched_ok e'" "cnt \<le> 81 * length (e_fibers e')" "anyRunnable e' \<Longrightarrow> 100000 \<le> cnt"
    using used_all_bound [of e'] by auto
  have "fb_state f = FsDone \<or> fb_state f = FsWaiting \<or> fb_state f = FsParked \<and> fb_slices f = 80"
    if "length (e_fibers e') \<le> 1234" "f \<in> set (e_fibers e')" for f
  proof -
    have "\<not> anyRunnable e'" using e'(2,3) that(1) by linarith
    then have "\<not> eligible f" using that(2) by (auto simp: anyRunnable_def list_ex_iff)
    then show ?thesis using e'(1) that(2) by (cases "fb_state f") (auto simp: eligible_def sched_ok_def fiber_ok_def)
  qed
  moreover have "fb_slices f \<le> 80" if "f \<in> set (e_fibers e')" for f
    using e'(1) that by (simp add: sched_ok_def fiber_ok_def)
  ultimately show ?thesis using e'(1,2) by blast
qed

text \<open>An engine that runs straight to the end: every call returns at once.\<close>

definition direct_eenv :: "(nat \<Rightarrow> u64, unit, unit, unit, unit) eenv" where
  "direct_eenv = (flat_eenv (\<lambda>_. 0))\<lparr>ee_Start := (\<lambda>a u e. Some (True, e\<lparr>e_k := (e_k e)\<lparr>k_be := (k_be (e_k e))(RegPC := u)\<rparr>\<rparr>))\<rparr>"

lemma direct_contracts: "contexts_work (be_of direct_eenv)" "users_keep_threads direct_eenv" "starts_guest direct_eenv"
proof -
  show "contexts_work (be_of direct_eenv)" by (simp add: contexts_work_def direct_eenv_def flat_eenv_def flat_backend_def)
  show "users_keep_threads direct_eenv" by (simp add: users_keep_threads_def direct_eenv_def flat_eenv_def)
  show "starts_guest direct_eenv"
    unfolding starts_guest_def direct_eenv_def by (auto intro!: guest_run.engine guest_run.idle)
qed

definition one_thread :: "(nat \<Rightarrow> u64, unit, unit, unit, unit) emu" where
  "one_thread = snd (newFiber direct_eenv 0x12000400 7 (flat_emu [] NewVM))"

lemma Alloc_sched: "e_fibers (snd (Alloc E n p e)) = e_fibers e" "e_nextFiberID (snd (Alloc E n p e)) = e_nextFiberID e"
  using basic_same(5) [of e E n p] by (simp_all add: sched_same_def)

lemma one_thread_fibers:
  "\<exists>f. e_fibers one_thread = [f] \<and> fb_id f = 1 \<and> fb_state f = FsRunnable \<and> fb_slices f = 0 \<and> \<not> fb_started f \<and> fb_ctx f = None \<and> fb_arg f = 7"
  by (simp add: one_thread_def newFiber_def split_def Let_def Alloc_sched) (simp add: flat_emu_def fresh_emu_def split_def Let_def)

lemma one_thread_ok: "sched_ok one_thread" "anyRunnable one_thread"
  using one_thread_fibers by (auto simp: sched_ok_def fiber_ok_def anyRunnable_def eligible_def)

lemma direct_slice:
  assumes "e_fibers e = [f]" and "eligible f" and "\<not> fb_started f" and "\<not> k_Exited (e_k e)"
  shows "\<exists>e'. runFiberSlice direct_eenv 0 e = Some (True, e') \<and>
    e_fibers e' = [f\<lparr>fb_started := True, fb_state := FsDone, fb_ret := fb_arg f\<rparr>]"
  using assms
  by (simp add: runFiberSlice_def resume_fiber_def after_run_def direct_eenv_def flat_eenv_def flat_backend_def with_be_def on_be_def
      set_reg_def upd_fiber_def reg_def reg_or_zero_def Let_def)

lemma one_thread_runs:
  "\<exists>e'. RunThreads direct_eenv one_thread = Some ((True, 1), e') \<and> (\<exists>f. e_fibers e' = [f] \<and> fb_state f = FsDone \<and> fb_ret f = 7)"
proof -
  obtain f where f: "e_fibers one_thread = [f]" "fb_state f = FsRunnable" "fb_slices f = 0" "\<not> fb_started f" "fb_arg f = 7"
    using one_thread_fibers by blast
  have nx: "\<not> k_Exited (e_k one_thread)"
    by (simp add: one_thread_def newFiber_def Alloc_def with_be_def on_be_def split_def Let_def flat_emu_def fresh_emu_def boot_def)
  obtain e1 where s: "runFiberSlice direct_eenv 0 one_thread = Some (True, e1)"
    and e1: "e_fibers e1 = [f\<lparr>fb_started := True, fb_state := FsDone, fb_ret := 7\<rparr>]"
    using direct_slice [OF f(1) _ f(4) nx] f by (auto simp: eligible_def)
  have "sched_rounds (Suc (Suc n)) direct_eenv 0 one_thread = Some ((True, 1), e1)" for n
    using f s e1 by (simp add: eligible_def)
  from this [of 99998] have r: "sched_rounds 100000 direct_eenv 0 one_thread = Some ((True, 1), e1)"
    by (simp only: Suc_numeral add_num_simps)
  obtain x where x: "SaveCtx (be_of direct_eenv) (k_be (e_k one_thread)) = Some x" by (simp add: direct_eenv_def flat_eenv_def flat_backend_def)
  have "e_fibers (snd (with_be g e1)) = e_fibers e1" for g using basic_same(1) [of e1 g] by (simp add: sched_same_def)
  then show ?thesis using r x one_thread_ok(2) e1 by (simp add: RunThreads_def)
qed

theorem threads_come_to_rest_witness:
  "\<exists>e'. RunThreads direct_eenv one_thread = Some ((True, 1), e') \<and> sched_ok e' \<and>
     (\<forall>f \<in> set (e_fibers e'). fb_state f \<in> {FsDone, FsWaiting, FsParked})"
proof -
  obtain e' where e': "RunThreads direct_eenv one_thread = Some ((True, 1), e')" "length (e_fibers e') = 1"
    using one_thread_runs by force
  then show ?thesis using threads_come_to_rest [OF direct_contracts one_thread_ok(1) e'(1)] by auto
qed

subsection \<open>Spent threads\<close>

lemma slice_others:
  assumes "users_keep_threads E" and "starts_guest E" and r: "runFiberSlice E j e = Some (ok, e')" and i: "i < length (e_fibers e)" "i \<noteq> j"
  shows "length (e_fibers e) \<le> length (e_fibers e') \<and> fib_step (e_fibers e ! i) (e_fibers e' ! i)"
proof -
  define e0 where "e0 = e\<lparr>e_curFiber := Some j, e_yieldReason := YieldNone, e_threadCap := 20000, e_threadOps := 0, e_scCount := 0\<rparr>"
  obtain q e1 where rs: "resume_fiber E j e0 = (q, e1)" by fastforce
  have "e_fibers (snd (with_be h e'')) = e_fibers e''" "e_fibers (set_reg E n v e'') = e_fibers e''" for h n v e''
    using basic_same(1) [of e'' h] basic_same(2) [of e'' E n v] by (simp_all add: sched_same_def)
  then have "\<exists>g. e_fibers e1 = (e_fibers e0)[j := g]"
    using rs by (auto simp: resume_fiber_def Let_def split: if_splits option.splits prod.splits bool.splits)
      (metis list_update_id snd_conv)+
  then obtain g where e1: "e_fibers e1 = (e_fibers e)[j := g]" by (auto simp: e0_def)
  show ?thesis
  proof (cases q)
    case (Inl b)
    then have "e_fibers e' = e_fibers e1" using r rs by (auto simp: runFiberSlice_def e0_def)
    then show ?thesis using e1 i by simp
  next
    case (Inr pc)
    then obtain ok2 e2 where st: "ee_Start E pc sentinel e1 = Some (ok2, e2)" and e': "e_fibers e' = e_fibers (snd (after_run E j ok2 e2))"
      using r rs by (cases "ee_Start E pc sentinel e1") (auto simp: runFiberSlice_def e0_def split_def)
    have f2: "fibs_step e1 e2" using guest_run_step [OF assms(1)] assms(2) st unfolding starts_guest_def by blast
    have "\<exists>h. e_fibers (snd (after_run E j ok2 e2)) = (e_fibers e2)[j := h]"
      by (auto simp: after_run_def Let_def upd_fiber_def intro: exI [of _ "e_fibers e2 ! j"] split: option.splits)
    then show ?thesis using f2 e1 e' i by (auto simp: fibs_step_def)
  qed
qed

definition spent :: "nat \<Rightarrow> 'x fiber \<Rightarrow> ('b, 'x, 'h, 'r, 'p) emu \<Rightarrow> bool" where
  "spent i f e \<longleftrightarrow> i < length (e_fibers e) \<and> fb_slices (e_fibers e ! i) = fb_slices f \<and> fb_ret (e_fibers e ! i) = fb_ret f \<and>
     (fb_state (e_fibers e ! i) = FsDone) = (fb_state f = FsDone)"

lemma spent_round:
  assumes "users_keep_threads E" and "starts_guest E" and "fb_slices f \<ge> 80"
  shows "spent i f e \<Longrightarrow> sched_round E js cnt p e = Some (ok, cnt', p', e') \<Longrightarrow> spent i f e'"
proof (induction js arbitrary: cnt p e)
  case (Cons j js)
  consider (skip) "\<not> eligible (e_fibers e ! j)" | (park) "eligible (e_fibers e ! j)" "fb_slices (e_fibers e ! j) \<ge> 80"
    | (slice) "eligible (e_fibers e ! j)" "fb_slices (e_fibers e ! j) < 80" by linarith
  then show ?case
  proof cases
    case skip
    then show ?thesis using Cons.IH [of e cnt p] Cons.prems by simp
  next
    case park
    have "spent i f (parkFiber j e)"
      using Cons.prems(1) park(1) by (cases "i = j") (auto simp: spent_def parkFiber_def eligible_def)
    then show ?thesis using park Cons.IH [of "parkFiber j e" cnt p] Cons.prems(2) by simp
  next
    case slice
    then obtain b e1 where r: "runFiberSlice E j e = Some (b, e1)" using Cons.prems(2) by (auto split: option.splits)
    have ij: "i \<noteq> j" "i < length (e_fibers e)" using Cons.prems(1) slice(2) assms(3) by (auto simp: spent_def)
    then have "spent i f e1"
      using Cons.prems(1) slice_others [OF assms(1,2) r ij(2,1)] by (auto simp: spent_def fib_step_def)
    then show ?thesis using Cons.IH [of e1 "cnt + 1" True] Cons.prems(2) r slice by (cases b) auto
  qed
qed simp

lemma spent_rounds:
  assumes "users_keep_threads E" and "starts_guest E" and "fb_slices f \<ge> 80"
  shows "spent i f e \<Longrightarrow> sched_rounds n E cnt e = Some (r, e') \<Longrightarrow> spent i f e'"
proof (induction n arbitrary: cnt e)
  case (Suc n)
  obtain ok c1 p1 e1 where rd: "sched_round E [0..<length (e_fibers e)] cnt False e = Some (ok, c1, p1, e1)"
    using Suc.prems(2) by (auto split: option.splits)
  have "spent i f e1" by (rule spent_round [OF assms Suc.prems(1) rd])
  then show ?case using Suc.IH [of e1 c1] Suc.prems(2) rd by (auto split: bool.splits if_splits)
qed simp

text \<open>
  C35: a thread that has used its 80 slices never runs again: whatever the other threads do, a futex wake on it
  included, no call of \<open>RunThreads\<close> gives it another slice or lets it return.
\<close>
theorem spent_thread_stays:
  assumes "users_keep_threads E" and "starts_guest E" and "i < length (e_fibers e)" and "fb_slices (e_fibers e ! i) \<ge> 80"
    and "RunThreads E e = Some (r, e')"
  shows "fb_slices (e_fibers e' ! i) = fb_slices (e_fibers e ! i) \<and>
    (fb_state (e_fibers e' ! i) = FsDone \<longleftrightarrow> fb_state (e_fibers e ! i) = FsDone)"
proof -
  have s: "spent i (e_fibers e ! i) e" using assms(3) by (simp add: spent_def)
  have "spent i (e_fibers e ! i) e'"
  proof (cases "anyRunnable e \<and> SaveCtx (be_of E) (k_be (e_k e)) \<noteq> None")
    case True
    then obtain x r1 e1 where "sched_rounds 100000 E 0 e = Some (r1, e1)" "e' = snd (with_be (RestoreCtx (be_of E) x) e1)"
      using assms(5) by (auto simp: RunThreads_def)
    then show ?thesis
      using spent_rounds [OF assms(1,2,4) s] basic_same(1) [of e1 "RestoreCtx (be_of E) x"] by (simp add: spent_def sched_same_def)
  qed (use assms(5) s in \<open>auto simp: RunThreads_def split: if_splits\<close>)
  then show ?thesis by (simp add: spent_def)
qed

definition spent_emu :: "(nat \<Rightarrow> u64, unit, unit, unit, unit) emu" where
  "spent_emu = (flat_emu [] NewVM)\<lparr>e_fibers := [\<lparr>fb_id = 1, fb_routine = 0x12000400, fb_arg = 0, fb_sp = 0x50000000, fb_started = True,
     fb_ctx = None, fb_state = FsRunnable, fb_waitAddr = 0, fb_slices = 80, fb_ret = 0\<rparr>]\<rparr>"

theorem spent_thread_stays_witness:
  "\<exists>e'. RunThreads direct_eenv spent_emu = Some ((True, 0), e') \<and> fb_slices (e_fibers e' ! 0) = 80 \<and> fb_state (e_fibers e' ! 0) \<noteq> FsDone"
proof -
  have "sched_rounds (Suc n) direct_eenv 0 spent_emu = Some ((True, 0), parkFiber 0 spent_emu)" for n
    by (simp add: spent_emu_def eligible_def parkFiber_def)
  from this [of 99999] have r: "sched_rounds 100000 direct_eenv 0 spent_emu = Some ((True, 0), parkFiber 0 spent_emu)"
    by (simp only: Suc_numeral add_num_simps)
  have a: "anyRunnable spent_emu" by (simp add: anyRunnable_def spent_emu_def eligible_def)
  obtain x where x: "SaveCtx (be_of direct_eenv) (k_be (e_k spent_emu)) = Some x" by (simp add: direct_eenv_def flat_eenv_def flat_backend_def)
  then have run: "\<exists>e'. RunThreads direct_eenv spent_emu = Some ((True, 0), e')" using r a by (simp add: RunThreads_def)
  have "0 < length (e_fibers spent_emu)" "fb_slices (e_fibers spent_emu ! 0) = 80" "fb_state (e_fibers spent_emu ! 0) \<noteq> FsDone"
    by (simp_all add: spent_emu_def)
  then show ?thesis using run spent_thread_stays [OF direct_contracts(2,3), of 0 spent_emu] by fastforce
qed

end
