(* ===== verification/Emu_Calls.thy ===== *)
theory Emu_Calls
  imports Scheduler Dex
begin

text \<open>
  Calls into the guest (emulator/emulator.go), native methods called from Go (emulator/native_call.go), the
  register access of hooks (emulator/api.go), and the life of an emulator: \<open>New\<close>, loading libraries with
  their initializers, \<open>Close\<close>. What runs the guest is \<open>None\<close> when the run does not return; inside,
  \<open>None\<close> is the error.
\<close>

type_synonym ('b, 'x, 'h, 'r, 'p, 'a) call = "('a option \<times> ('b, 'x, 'h, 'r, 'p) emu) option"

definition returns :: "'a option \<Rightarrow> ('b, 'x, 'h, 'r, 'p) emu \<Rightarrow> ('b, 'x, 'h, 'r, 'p, 'a) call" where
  "returns v e = Some (v, e)"

text \<open>The next call, when this one returned without an error.\<close>

definition next_call ::
  "('b, 'x, 'h, 'r, 'p, 'a) call \<Rightarrow> ('a \<Rightarrow> ('b, 'x, 'h, 'r, 'p) emu \<Rightarrow> ('b, 'x, 'h, 'r, 'p, 'c) call)
    \<Rightarrow> ('b, 'x, 'h, 'r, 'p, 'c) call" where
  "next_call r f = (case r of None \<Rightarrow> None | Some (None, e) \<Rightarrow> returns None e | Some (Some v, e) \<Rightarrow> f v e)"

subsection \<open>Calling guest functions\<close>

fun write_args :: "('b, 'x, 'h, 'r, 'p) eenv \<Rightarrow> nat \<Rightarrow> u64 list \<Rightarrow> ('b, 'x, 'h, 'r, 'p) emu \<Rightarrow> bool \<times> ('b, 'x, 'h, 'r, 'p) emu" where
  "write_args E i [] e = (True, e)"
| "write_args E i (a # as) e =
     (case with_be (RegWrite (be_of E) i a) e of (False, e) \<Rightarrow> (False, e) | (True, e) \<Rightarrow> write_args E (i + 1) as e)"

text \<open>After the run: anything but a stop at the sentinel is an error; a program counter that does not read is let pass.\<close>

definition call_result :: "('b, 'x, 'h, 'r, 'p) eenv \<Rightarrow> ('b, 'x, 'h, 'r, 'p) emu \<Rightarrow> u64 option" where
  "call_result E e =
     (case RegRead (be_of E) RegPC (k_be (e_k e)) of
        Some pc \<Rightarrow> if pc \<noteq> sentinel then None else RegRead (be_of E) 0 (k_be (e_k e))
      | None \<Rightarrow> RegRead (be_of E) 0 (k_be (e_k e)))"

definition CallFunc :: "('b, 'x, 'h, 'r, 'p) eenv \<Rightarrow> u64 \<Rightarrow> u64 list \<Rightarrow> ('b, 'x, 'h, 'r, 'p) emu \<Rightarrow> ('b, 'x, 'h, 'r, 'p, u64) call" where
  "CallFunc E addr as e =
     (if e_closed e \<or> length as > 8 then returns None e
      else case write_args E 0 as e of
        (False, e) \<Rightarrow> returns None e
      | (True, e) \<Rightarrow>
          (case with_be (RegWrite (be_of E) RegLR sentinel) e of
             (False, e) \<Rightarrow> returns None e
           | (True, e) \<Rightarrow>
               (case ee_Start E addr sentinel (e\<lparr>e_scCount := 0\<rparr>) of
                  None \<Rightarrow> None
                | Some (False, e) \<Rightarrow> returns None e
                | Some (True, e) \<Rightarrow> returns (call_result E e) e)))"

definition CallSymbol :: "('b, 'x, 'h, 'r, 'p) eenv \<Rightarrow> string \<Rightarrow> u64 list \<Rightarrow> ('b, 'x, 'h, 'r, 'p) emu \<Rightarrow> ('b, 'x, 'h, 'r, 'p, u64) call" where
  "CallSymbol E name as e = (case Sym name e of None \<Rightarrow> returns None e | Some a \<Rightarrow> CallFunc E a as e)"

definition CallOffset ::
  "('b, 'x, 'h, 'r, 'p) eenv \<Rightarrow> module option \<Rightarrow> u64 \<Rightarrow> u64 list \<Rightarrow> ('b, 'x, 'h, 'r, 'p) emu \<Rightarrow> ('b, 'x, 'h, 'r, 'p, u64) call" where
  "CallOffset E mo off as e =
     (case (case mo of None \<Rightarrow> e_main e | Some m \<Rightarrow> Some m) of
        None \<Rightarrow> returns None e
      | Some m \<Rightarrow> CallFunc E (md_Base m + off) as e)"

text \<open>\<open>callFuncStack\<close>: the arguments after the eighth go to the stack, 16-byte aligned, and the caller's SP comes back.\<close>

fun put_words :: "('b, 'x, 'h, 'r, 'p) eenv \<Rightarrow> u64 \<Rightarrow> u64 list \<Rightarrow> ('b, 'x, 'h, 'r, 'p) emu \<Rightarrow> bool \<times> ('b, 'x, 'h, 'r, 'p) emu" where
  "put_words E a [] e = (True, e)"
| "put_words E a (v # vs) e =
     (case putU64 E a v e of (False, e) \<Rightarrow> (False, e) | (True, e) \<Rightarrow> put_words E (a + 8) vs e)"

definition callFuncStack :: "('b, 'x, 'h, 'r, 'p) eenv \<Rightarrow> u64 \<Rightarrow> u64 list \<Rightarrow> ('b, 'x, 'h, 'r, 'p) emu \<Rightarrow> ('b, 'x, 'h, 'r, 'p, u64) call" where
  "callFuncStack E addr as e =
     (if length as \<le> 8 then CallFunc E addr as e
      else case RegRead (be_of E) RegSP (k_be (e_k e)) of
        None \<Rightarrow> returns None e
      | Some origSP \<Rightarrow>
          let spill = drop 8 as; sp = origSP - ((of_nat (length spill) * 8 + 15) AND NOT 15)
          in case put_words E sp spill e of
               (False, e) \<Rightarrow> returns None e
             | (True, e) \<Rightarrow>
                 (case with_be (RegWrite (be_of E) RegSP sp) e of
                    (False, e) \<Rightarrow> returns None e
                  | (True, e) \<Rightarrow> map_option (\<lambda>(r, e). (r, set_reg E RegSP origSP e)) (CallFunc E addr (take 8 as) e)))"

subsection \<open>Native methods from Go\<close>

text \<open>\<open>JavaArg\<close>; an object is a pointer, null or not.\<close>

datatype JavaArg = ArgInt u32 | ArgLong u64 | ArgBool bool | ArgRef ref | ArgString string | ArgBytes "u8 list" | ArgObject "nat option"

definition boxArg :: "JavaArg \<Rightarrow> ('b, 'x, 'h, 'r, 'p) emu \<Rightarrow> u64 \<times> ('b, 'x, 'h, 'r, 'p) emu" where
  "boxArg a e =
     (case a of
        ArgInt v \<Rightarrow> (ucast v, e)
      | ArgLong v \<Rightarrow> (v, e)
      | ArgBool v \<Rightarrow> (of_bool v, e)
      | ArgRef r \<Rightarrow> (handle r, e)
      | ArgString s \<Rightarrow> (let (r, e) = vm_do (NewString s) e in (handle r, e))
      | ArgBytes bs \<Rightarrow>
          (let (b, e) = vm_do (alloc_bytes bs) e; (r, e) = vm_do (NewByteArray b) e in (handle r, e))
      | ArgObject p \<Rightarrow> box_result p e)"

fun boxArgs :: "JavaArg list \<Rightarrow> ('b, 'x, 'h, 'r, 'p) emu \<Rightarrow> u64 list \<times> ('b, 'x, 'h, 'r, 'p) emu" where
  "boxArgs [] e = ([], e)"
| "boxArgs (a # as) e = (let (v, e) = boxArg a e; (vs, e) = boxArgs as e in (v # vs, e))"

definition native_key :: "string \<Rightarrow> string \<Rightarrow> string \<Rightarrow> string" where
  "native_key cls name sg = cls @ ''.'' @ name @ sg"

definition HasNativeMethod :: "string \<Rightarrow> string \<Rightarrow> string \<Rightarrow> ('b, 'x, 'h, 'r, 'p) emu \<Rightarrow> bool" where
  "HasNativeMethod cls name sg e \<longleftrightarrow> e_natives e (native_key cls name sg) \<noteq> None"

definition callNative ::
  "('b, 'x, 'h, 'r, 'p) eenv \<Rightarrow> string \<Rightarrow> string \<Rightarrow> string \<Rightarrow> u64 \<Rightarrow> JavaArg list \<Rightarrow> ('b, 'x, 'h, 'r, 'p) emu
    \<Rightarrow> ('b, 'x, 'h, 'r, 'p, u64) call" where
  "callNative E cls name sg receiver as e =
     (case e_natives e (native_key cls name sg) of
        None \<Rightarrow> returns None e
      | Some fn \<Rightarrow>
          let (env, e) = JNIEnv E e; (vs, e) = boxArgs as e
          in next_call (callFuncStack E fn (env # receiver # vs) e)
               (\<lambda>v e. returns (if k_Exited (e_k e) then None else Some v) e))"

definition CallNativeStatic ::
  "('b, 'x, 'h, 'r, 'p) eenv \<Rightarrow> string \<Rightarrow> string \<Rightarrow> string \<Rightarrow> JavaArg list \<Rightarrow> ('b, 'x, 'h, 'r, 'p) emu
    \<Rightarrow> ('b, 'x, 'h, 'r, 'p, u64) call" where
  "CallNativeStatic E cls name sg as e = (let (r, e) = classRef cls e in callNative E cls name sg (handle r) as e)"

definition CallNativeInstance ::
  "('b, 'x, 'h, 'r, 'p) eenv \<Rightarrow> ref \<Rightarrow> string \<Rightarrow> string \<Rightarrow> string \<Rightarrow> JavaArg list \<Rightarrow> ('b, 'x, 'h, 'r, 'p) emu
    \<Rightarrow> ('b, 'x, 'h, 'r, 'p, u64) call" where
  "CallNativeInstance E thiz cls name sg as e = callNative E cls name sg (handle thiz) as e"

definition NativeObject :: "u64 \<Rightarrow> ('b, 'x, 'h, 'r, 'p) emu \<Rightarrow> nat option" where
  "NativeObject v e = deref64 v e"

subsection \<open>Registers in hooks\<close>

definition hook_Arg :: "('b, 'x, 'h, 'r, 'p) eenv \<Rightarrow> int \<Rightarrow> ('b, 'x, 'h, 'r, 'p) emu \<Rightarrow> u64" where
  "hook_Arg E i e = (if i < 0 \<or> i > 7 then 0 else reg E (nat i) e)"

definition hook_SetArg :: "('b, 'x, 'h, 'r, 'p) eenv \<Rightarrow> int \<Rightarrow> u64 \<Rightarrow> ('b, 'x, 'h, 'r, 'p) emu_step" where
  "hook_SetArg E i v e = (if 0 \<le> i \<and> i \<le> 7 then set_reg E (nat i) v e else e)"

subsection \<open>Initializers and libraries\<close>

fun call_each :: "('b, 'x, 'h, 'r, 'p) eenv \<Rightarrow> u64 list \<Rightarrow> ('b, 'x, 'h, 'r, 'p) emu \<Rightarrow> ('b, 'x, 'h, 'r, 'p, unit) call" where
  "call_each E [] e = returns (Some ()) e"
| "call_each E (a # as) e = next_call (CallFunc E a [] e) (\<lambda>_. call_each E as)"

definition RunInit :: "('b, 'x, 'h, 'r, 'p) eenv \<Rightarrow> module \<Rightarrow> ('b, 'x, 'h, 'r, 'p) emu \<Rightarrow> ('b, 'x, 'h, 'r, 'p, unit) call" where
  "RunInit E m e =
     next_call (call_each E (if im_init (md_Img m) \<noteq> 0 then [md_Base m + im_init (md_Img m)] else []) e)
       (\<lambda>_ e. case InitArrayPtrs E m e of None \<Rightarrow> returns None e | Some ps \<Rightarrow> call_each E ps e)"

definition LoadLibrary :: "('b, 'x, 'h, 'r, 'p) eenv \<Rightarrow> string \<Rightarrow> ('b, 'x, 'h, 'r, 'p) emu \<Rightarrow> ('b, 'x, 'h, 'r, 'p, module) call" where
  "LoadLibrary E path e =
     next_call (Some (LoadModule E path (Base path) e)) (\<lambda>m e.
     next_call (RunInit E m e) (\<lambda>_ e.
       case Sym ''JNI_OnLoad'' e of
         None \<Rightarrow> returns (Some m) e
       | Some fn \<Rightarrow>
           let (jvm, e) = JavaVM E e
           in next_call (CallFunc E fn [jvm, 0] e) (\<lambda>_ e. returns (if k_Exited (e_k e) then None else Some m) e)))"

subsection \<open>Booting and closing\<close>

text \<open>\<open>Config\<close>, what the environment of the emulator does not hold.\<close>

record config =
  cf_AssetRoot :: string
  cf_SOPath :: string
  cf_DexPath :: string

fun load_modules :: "('b, 'x, 'h, 'r, 'p) eenv \<Rightarrow> (string \<times> string) list \<Rightarrow> ('b, 'x, 'h, 'r, 'p) emu \<Rightarrow> bool \<times> ('b, 'x, 'h, 'r, 'p) emu" where
  "load_modules E [] e = (True, e)"
| "load_modules E ((path, name) # ls) e =
     (case LoadModule E path name e of (None, e) \<Rightarrow> (False, e) | (Some m, e) \<Rightarrow> load_modules E ls e)"

definition emu_boot :: "('b, 'x, 'h, 'r, 'p) eenv \<Rightarrow> config \<Rightarrow> ('b, 'x, 'h, 'r, 'p) emu \<Rightarrow> ('b, 'x, 'h, 'r, 'p, unit) call" where
  "emu_boot E cf e =
     (let lib = cf_AssetRoot cf @ ''/android/sdk23/lib64/''
      in case load_modules E (map (\<lambda>l. (lib @ l, l)) [''libc.so'', ''libm.so'', ''libdl.so'']) e of
           (False, e) \<Rightarrow> returns None e
         | (True, e) \<Rightarrow>
             if cf_SOPath cf = '''' then returns (Some ()) e
             else next_call (LoadLibrary E (cf_SOPath cf) e) (\<lambda>m e. returns (Some ()) (e\<lparr>e_main := Some m\<rparr>)))"

definition LoadDexFile :: "(string \<Rightarrow> u8 list option) \<Rightarrow> string \<Rightarrow> ('b, 'x, 'h, 'r, 'p) emu \<Rightarrow> u32 option \<times> ('b, 'x, 'h, 'r, 'p) emu" where
  "LoadDexFile R path e =
     (case R path of
        None \<Rightarrow> (None, e)
      | Some d \<Rightarrow> vm_do (\<lambda>m. case LoadDex d m of (Inl _, m) \<Rightarrow> (None, m) | (Inr n, m) \<Rightarrow> (Some n, m)) e)"

text \<open>The fixed regions; \<open>False\<close> when the engine refuses one.\<close>

fun map_fixed :: "('b, 'x, 'h, 'r, 'p) eenv \<Rightarrow> (u64 \<times> u64 \<times> u64) list \<Rightarrow> ('b, 'x, 'h, 'r, 'p) emu \<Rightarrow> bool \<times> ('b, 'x, 'h, 'r, 'p) emu" where
  "map_fixed E [] e = (True, e)"
| "map_fixed E ((a, n, p) # rs) e =
     (case with_be (MemMap (be_of E) a n p) e of (False, e) \<Rightarrow> (False, e) | (True, e) \<Rightarrow> map_fixed E rs e)"

abbreviation fixed_regions :: "(u64 \<times> u64 \<times> u64) list" where
  "fixed_regions \<equiv> [(stubBase, stubSize, ProtRead OR ProtWrite OR ProtExec), (stackBase, stackSize, ProtRead OR ProtWrite),
     (tlsBase, tlsSize, ProtRead OR ProtWrite)]"

text \<open>
  \<open>New\<close> once the engine is there, on the kernel context made from the configuration. The hooks it installs
  are part of \<open>ee_Start\<close>.
\<close>

definition emu_New ::
  "('b, 'x, 'h, 'r, 'p) eenv \<Rightarrow> config \<Rightarrow> ('b, 'h, 'r) kernel \<Rightarrow> ('b, 'x, 'h, 'r, 'p, unit) call" where
  "emu_New E cf k =
     (case (if cf_DexPath cf = '''' then (Some 0, fresh_emu k) else LoadDexFile (ee_ReadFile E) (cf_DexPath cf) (fresh_emu k)) of
        (None, e) \<Rightarrow> returns None e
      | (Some _, e) \<Rightarrow>
          (case map_fixed E fixed_regions (registerHostFns E e) of
             (False, e) \<Rightarrow> returns None e
           | (True, e) \<Rightarrow>
               let e = set_reg E RegSP (stackBase + stackSize - 0x200) e;
                   e = set_reg E RegTPIDR tlsBase e;
                   e = snd (putU64 E tlsBase tlsBase e);
                   e = snd (putU64 E (tlsBase + 8) (tlsBase + 0x1000) e)
               in emu_boot E cf e))"

definition Close :: "('b, 'x, 'h, 'r, 'p) emu_step" where
  "Close e = (if e_closed e then e else e\<lparr>e_fibers := [], e_curFiber := None, e_closed := True\<rparr>)"

end
