(* ===== verification/Emu_Snapshot.thy ===== *)
theory Emu_Snapshot
  imports Emu_Calls Interp
begin

text \<open>
  Rewinding an emulator (emulator/snapshot.go): \<open>Snapshot\<close> takes the CPU context, the bytes of the writable
  memory the emulator knows of, the allocator's table, and the kernel's and the VM's state; \<open>Restore\<close> puts
  them back. A range is \<open>(addr, size, prot)\<close>. \<open>Free\<close> drops the context.
\<close>

type_synonym memRange = "u64 \<times> u64 \<times> u64"

record ('x, 'r) snapshot =
  sn_cpu :: "'x option"
  sn_writable :: "(u64 \<times> u64 \<times> u8 list) list"
  sn_regions :: "memRange list"
  sn_layout :: "region list"
  sn_mmapTop :: u64
  sn_kstate :: "'r kstate"
  sn_vmstate :: vmstate
  sn_classRefs :: "string \<rightharpoonup> ref"
  sn_staticFields :: "string \<rightharpoonup> u64"
  sn_nextFiberID :: nat

definition segProt :: "u32 \<Rightarrow> u64" where
  "segProt f = (if f AND 4 \<noteq> 0 then ProtRead else 0) OR (if f AND 2 \<noteq> 0 then ProtWrite else 0) OR (if f AND 1 \<noteq> 0 then ProtExec else 0)"

definition seg_range :: "u64 \<Rightarrow> segment \<Rightarrow> memRange" where
  "seg_range base s =
     (base + pageDown (sg_vaddr s), pageUp (sg_vaddr s + sg_memsz s) - pageDown (sg_vaddr s), segProt (sg_flags s))"

definition guestRanges :: "('b, 'x, 'h, 'r, 'p) emu \<Rightarrow> memRange list" where
  "guestRanges e =
     [(stackBase, stackSize, ProtRead OR ProtWrite), (tlsBase, tlsSize, ProtRead OR ProtWrite),
      (stubBase, stubSize, ProtRead OR ProtWrite OR ProtExec)] @
     concat (map (\<lambda>m. map (seg_range (md_Base m)) (im_segments (md_Img m))) (e_modules e)) @
     (if BrkTop (e_k e) > BrkBase then [(BrkBase, BrkTop (e_k e) - BrkBase, ProtRead OR ProtWrite)] else []) @
     map (\<lambda>r. (r_addr r, r_size r, of_int (r_prot r))) (s_regions (k_mem (e_k e)))"

definition writableGuestRanges :: "('b, 'x, 'h, 'r, 'p) emu \<Rightarrow> memRange list" where
  "writableGuestRanges e = filter (\<lambda>(a, n, p). p AND ProtWrite \<noteq> 0) (guestRanges e)"

subsection \<open>Taking a snapshot\<close>

text \<open>A writable range that does not read is left out.\<close>

definition capture :: "('b, 'x, 'h, 'r, 'p) eenv \<Rightarrow> memRange list \<Rightarrow> ('b, 'x, 'h, 'r, 'p) emu \<Rightarrow> (u64 \<times> u64 \<times> u8 list) list" where
  "capture E rs e =
     concat (map (\<lambda>(a, n, p). if p AND ProtWrite = 0 then []
       else case ReadBytes E a n e of None \<Rightarrow> [] | Some d \<Rightarrow> [(a, p, d)]) rs)"

definition Snapshot ::
  "('b, 'x, 'h, 'r, 'p) eenv \<Rightarrow> ('b, 'x, 'h, 'r, 'p) emu \<Rightarrow> ('x, 'r) snapshot option \<times> ('b, 'x, 'h, 'r, 'p) emu" where
  "Snapshot E e =
     (if e_closed e then (None, e)
      else
        let e = snd (JNIEnv E (snd (JavaVM E e)))
        in case SaveCtx (be_of E) (k_be (e_k e)) of
             None \<Rightarrow> (None, e)
           | Some x \<Rightarrow>
               let rs = guestRanges e; w = capture E rs e;
                   (ks, k) = kSnapshot (ee_K E) (e_k e); (vs, m) = vm_Snapshot (e_vm e)
               in (Some \<lparr>sn_cpu = Some x, sn_writable = w, sn_regions = rs, sn_layout = s_regions (k_mem (e_k e)),
                         sn_mmapTop = s_mmapTop (k_mem (e_k e)), sn_kstate = ks, sn_vmstate = vs, sn_classRefs = e_classRefs e,
                         sn_staticFields = e_staticFields e, sn_nextFiberID = e_nextFiberID e\<rparr>,
                   e\<lparr>e_k := k, e_vm := m\<rparr>))"

definition Free :: "('x, 'r) snapshot \<Rightarrow> ('x, 'r) snapshot" where
  "Free sn = sn\<lparr>sn_cpu := None\<rparr>"

subsection \<open>Going back\<close>

text \<open>Step 1: the regions of the arena that the snapshot does not have, or not with that size, are unmapped.\<close>

definition snapSet :: "region list \<Rightarrow> u64 \<rightharpoonup> u64" where
  "snapSet layout = fold (\<lambda>r t. t(r_addr r \<mapsto> r_size r)) layout Map.empty"

definition unmap_new :: "('b, 'x, 'h, 'r, 'p) eenv \<Rightarrow> region list \<Rightarrow> ('b, 'x, 'h, 'r, 'p) emu_step" where
  "unmap_new E layout e =
     fold (\<lambda>r e. if snapSet layout (r_addr r) = Some (r_size r) then e else snd (with_be (MemUnmap (be_of E) (r_addr r) (r_size r)) e))
       (s_regions (k_mem (e_k e))) e"

text \<open>Step 4: every region is mapped again, where it is there already that is an error nobody looks at.\<close>

definition remap :: "('b, 'x, 'h, 'r, 'p) eenv \<Rightarrow> memRange list \<Rightarrow> ('b, 'x, 'h, 'r, 'p) emu_step" where
  "remap E rs e = fold (\<lambda>(a, n, p) e. snd (with_be (MemMap (be_of E) a n p) e)) rs e"

text \<open>Step 5: the bytes; a range that cannot be written is mapped and written once more.\<close>

fun write_back :: "('b, 'x, 'h, 'r, 'p) eenv \<Rightarrow> (u64 \<times> u64 \<times> u8 list) list \<Rightarrow> ('b, 'x, 'h, 'r, 'p) emu \<Rightarrow> bool \<times> ('b, 'x, 'h, 'r, 'p) emu" where
  "write_back E [] e = (True, e)"
| "write_back E ((a, p, d) # ws) e =
     (case WriteBytes E a d e of
        (True, e) \<Rightarrow> write_back E ws e
      | (False, e) \<Rightarrow>
          (case WriteBytes E a d (snd (with_be (MemMap (be_of E) a (of_nat (length d)) p) e)) of
             (True, e) \<Rightarrow> write_back E ws e
           | (False, e) \<Rightarrow> (False, e)))"

text \<open>Step 6: the protections.\<close>

definition reprotect :: "('b, 'x, 'h, 'r, 'p) eenv \<Rightarrow> memRange list \<Rightarrow> ('b, 'x, 'h, 'r, 'p) emu_step" where
  "reprotect E rs e = fold (\<lambda>(a, n, p) e. snd (with_be (MemProtect (be_of E) a n p) e)) rs e"

text \<open>Steps 2 and 3: the allocator's table and the kernel.\<close>

definition restore_kernel :: "('b, 'x, 'h, 'r, 'p) eenv \<Rightarrow> ('x, 'r) snapshot \<Rightarrow> ('b, 'x, 'h, 'r, 'p) emu_step" where
  "restore_kernel E sn e =
     e\<lparr>e_k := kRestore (ee_K E) (sn_kstate sn) ((e_k e)\<lparr>k_mem := SetLayout (sn_layout sn) (sn_mmapTop sn) (k_mem (e_k e))\<rparr>)\<rparr>"

text \<open>Step 8: handles, classes, static fields, threads and scratch.\<close>

definition restore_java :: "('x, 'r) snapshot \<Rightarrow> ('b, 'x, 'h, 'r, 'p) emu_step" where
  "restore_java sn e =
     e\<lparr>e_vm := vm_Restore (sn_vmstate sn) (e_vm e), e_classRefs := sn_classRefs sn, e_staticFields := sn_staticFields sn,
       e_fibers := [], e_curFiber := None, e_nextFiberID := sn_nextFiberID sn, e_threadCap := 0, e_threadOps := 0,
       e_yieldReason := YieldNone, e_yieldAddr := 0, e_scCount := 0, e_pendingExc := False, e_arrayPins := Map.empty\<rparr>"

definition Restore ::
  "('b, 'x, 'h, 'r, 'p) eenv \<Rightarrow> ('x, 'r) snapshot option \<Rightarrow> ('b, 'x, 'h, 'r, 'p) emu \<Rightarrow> bool \<times> ('b, 'x, 'h, 'r, 'p) emu" where
  "Restore E sno e =
     (case sno of
        None \<Rightarrow> (False, e)
      | Some sn \<Rightarrow>
          if e_closed e then (False, e)
          else case write_back E (sn_writable sn) (remap E (sn_regions sn) (restore_kernel E sn (unmap_new E (sn_layout sn) e))) of
            (False, e) \<Rightarrow> (False, e)
          | (True, e) \<Rightarrow>
              let e = reprotect E (sn_regions sn) e
              in case sn_cpu sn of
                   None \<Rightarrow> (False, e)
                 | Some x \<Rightarrow>
                     (case with_be (RestoreCtx (be_of E) x) e of (False, e) \<Rightarrow> (False, e) | (True, e) \<Rightarrow> (True, restore_java sn e)))"

subsection \<open>Memory after going back\<close>

text \<open>Contexts on top of the memory contract: restoring one leaves the memory alone, and reads are bounded.\<close>

locale guest_contexts = guest_backend +
  assumes be_ctx: "inv b \<Longrightarrow> inv (snd (RestoreCtx B x b)) \<and> bytes (snd (RestoreCtx B x b)) = bytes b"
    and be_bounded: "inv b \<Longrightarrow> MemRead B a n b = Some bs \<Longrightarrow> length bs < 2 ^ 63"
begin

abbreviation binv :: "('a, 'b, 'h, 'r, 'p) emu \<Rightarrow> bool" where "binv e \<equiv> inv (k_be (e_k e))"
abbreviation ebytes :: "('a, 'b, 'h, 'r, 'p) emu \<Rightarrow> u64 \<Rightarrow> u8 option" where "ebytes e \<equiv> bytes (k_be (e_k e))"

lemma step_be: "k_be (e_k (snd (with_be f e))) = snd (f (k_be (e_k e)))" "fst (with_be f e) = fst (f (k_be (e_k e)))"
  by (simp_all add: with_be_def on_be_def split: prod.split)

lemma unmap_new_inv: "be_of E = B \<Longrightarrow> binv e \<Longrightarrow> binv (unmap_new E layout e)"
proof -
  assume E: "be_of E = B"
  have "binv e \<Longrightarrow> binv (fold (\<lambda>r e. if snapSet layout (r_addr r) = Some (r_size r) then e
      else snd (with_be (MemUnmap (be_of E) (r_addr r) (r_size r)) e)) rs e)" for rs
    by (induction rs arbitrary: e) (simp_all add: step_be E be_unmap)
  then show "binv e \<Longrightarrow> binv (unmap_new E layout e)" by (simp add: unmap_new_def)
qed

lemma restore_kernel_inv: "be_of E = B \<Longrightarrow> binv e \<Longrightarrow> binv (restore_kernel E sn e)"
  using be_unmap by (auto simp: restore_kernel_def kRestore_def Let_def on_be_def split_def)

lemma remap_inv:
  assumes "be_of E = B"
  shows "binv e \<Longrightarrow> binv (remap E rs e)"
  unfolding remap_def by (induction rs arbitrary: e) (simp_all add: step_be be_map assms split_def)

lemma reprotect_keeps:
  assumes "be_of E = B"
  shows "binv e \<Longrightarrow> binv (reprotect E rs e) \<and> ebytes (reprotect E rs e) = ebytes e"
  unfolding reprotect_def by (induction rs arbitrary: e) (simp_all add: step_be be_protect assms split_def)

text \<open>What writing back leaves in memory: at an address in some range, the byte of the last range that holds it.\<close>

definition holds :: "(u64 \<Rightarrow> u8 option) \<Rightarrow> u64 \<times> u64 \<times> u8 list \<Rightarrow> bool" where
  "holds f w \<longleftrightarrow> (case w of (a, p, d) \<Rightarrow> \<forall>x. unat (x - a) < length d \<longrightarrow> f x = Some (d ! unat (x - a)))"

lemma put_then:
  assumes "binv e" and "length d < 2 ^ 63" and "WriteBytes E a d e = (True, e')" and "be_of E = B"
  shows "binv e' \<and> ebytes e' = mem_put a d (ebytes e)"
  using be_write [OF assms(1,2), of a] assms(3,4) step_be [of "MemWrite B a d" e]
  by (simp add: WriteBytes_def)

lemma write_back_bytes:
  assumes "be_of E = B"
  shows "binv e \<Longrightarrow> \<forall>(a, p, d) \<in> set ws. length d < 2 ^ 63 \<Longrightarrow> \<forall>w \<in> set ws. holds f w \<Longrightarrow> write_back E ws e = (True, e')
    \<Longrightarrow> binv e' \<and> (\<forall>x. (\<exists>(a, p, d) \<in> set ws. unat (x - a) < length d) \<or> ebytes e x = f x \<longrightarrow> ebytes e' x = f x)"
proof (induction ws arbitrary: e)
  case (Cons w ws)
  obtain a p d where w: "w = (a, p, d)" by (cases w)
  have d: "length d < 2 ^ 63" using Cons.prems(2) w by simp
  have fx: "unat (x - a) < length d \<Longrightarrow> f x = Some (d ! unat (x - a))" for x using Cons.prems(3) w by (simp add: holds_def)
  define em where "em = snd (with_be (MemMap (be_of E) a (of_nat (length d)) p) (snd (WriteBytes E a d e)))"
  have w0: "binv (snd (WriteBytes E a d e))" "\<not> fst (WriteBytes E a d e) \<Longrightarrow> ebytes (snd (WriteBytes E a d e)) = ebytes e"
    using be_write [OF Cons.prems(1) d, of a] by (auto simp: WriteBytes_def step_be assms)
  have em: "binv em" "\<not> fst (WriteBytes E a d e) \<Longrightarrow> \<not> unat (x - a) < length d \<Longrightarrow> ebytes em x = ebytes e x" for x
    using be_map [OF w0(1), of a "of_nat (length d)" p] w0(2) d
    by (auto simp: em_def step_be assms word_less_nat_alt unat_of_nat take_bit_nat_eq_self)
  obtain e1 e2 where e1: "WriteBytes E a d e2 = (True, e1)" "binv e2" "\<And>x. \<not> unat (x - a) < length d \<Longrightarrow> ebytes e2 x = ebytes e x"
    and rest: "write_back E ws e1 = (True, e')"
  proof (cases "WriteBytes E a d e")
    case (Pair ok e1)
    show ?thesis
    proof (cases ok)
      case True
      then show ?thesis using that [of e e1] Pair Cons.prems(1,4) w by simp
    next
      case False
      then obtain e1' where "WriteBytes E a d em = (True, e1')" "write_back E ws e1' = (True, e')"
        using Pair Cons.prems(4) w by (auto simp: em_def split: prod.splits bool.splits)
      then show ?thesis using that [of em e1'] em Pair False by simp
    qed
  qed
  have e1b: "binv e1" "ebytes e1 = mem_put a d (ebytes e2)" using put_then [OF e1(2) d e1(1) assms] by simp_all
  have at: "ebytes e1 x = f x" if "unat (x - a) < length d \<or> ebytes e x = f x" for x
    using that fx [of x] e1(3) [of x] e1b(2) by (cases "unat (x - a) < length d") (auto simp: mem_put_def)
  show ?case
    using Cons.IH [OF e1b(1) _ _ rest] Cons.prems(2,3) at w by auto
qed simp

lemma capture_holds:
  assumes "be_of E = B" and "binv e" and "(a, p, d) \<in> set (capture E rs e)"
  shows "holds (ebytes e) (a, p, d)" and "length d < 2 ^ 63"
proof -
  obtain n where r: "MemRead B a n (k_be (e_k e)) = Some d"
    using assms(1,3) by (auto simp: capture_def ReadBytes_def kread_def split: if_splits option.splits)
  then show "length d < 2 ^ 63" by (rule be_bounded [OF assms(2)])
  have "ebytes e (a + of_nat k) = Some (d ! k)" if "k < length d" for k using be_read [OF assms(2) r] that by blast
  from this [of "unat (x - a)" for x] show "holds (ebytes e) (a, p, d)" by (auto simp: holds_def)
qed

lemma capture_all:
  assumes "be_of E = B" and "binv e" and "(a, n, p) \<in> set rs" and "p AND ProtWrite \<noteq> 0" and "ReadBytes E a n e = Some d"
  shows "(a, p, d) \<in> set (capture E rs e)" and "length d = unat n"
proof -
  show "(a, p, d) \<in> set (capture E rs e)" using assms(3-5) by (force simp: capture_def)
  show "length d = unat n" using be_read [OF assms(2)] assms(1,5) by (simp add: ReadBytes_def kread_def)
qed

text \<open>The rewind: whatever happened since, every writable range of the snapshot has its bytes back.\<close>

lemma restore_memory:
  assumes E: "be_of E = B" and i1: "binv e" and sn: "sn_writable sn = capture E rs e"
    and i2: "binv e2" and r: "Restore E (Some sn) e2 = (True, e3)"
  shows "binv e3" and "\<And>a n p x. (a, n, p) \<in> set rs \<Longrightarrow> p AND ProtWrite \<noteq> 0 \<Longrightarrow> ReadBytes E a n e \<noteq> None \<Longrightarrow> x - a < n
    \<Longrightarrow> ebytes e3 x = ebytes e x"
proof -
  define ea where "ea = remap E (sn_regions sn) (restore_kernel E sn (unmap_new E (sn_layout sn) e2))"
  have ea: "binv ea" by (simp add: ea_def remap_inv restore_kernel_inv unmap_new_inv E i2)
  obtain eb x ec where wb: "write_back E (sn_writable sn) ea = (True, eb)"
    and rc: "with_be (RestoreCtx (be_of E) x) (reprotect E (sn_regions sn) eb) = (True, ec)" and e3: "e3 = restore_java sn ec"
    using r by (auto simp: Restore_def ea_def [symmetric] Let_def split: if_splits prod.splits bool.splits option.splits)
  have h: "\<forall>w \<in> set (sn_writable sn). holds (ebytes e) w" "\<forall>(a, p, d) \<in> set (sn_writable sn). length d < 2 ^ 63"
    using capture_holds [OF E i1, of _ _ _ rs] sn by auto
  have eb: "binv eb" "\<And>x. \<exists>(a, p, d) \<in> set (sn_writable sn). unat (x - a) < length d \<Longrightarrow> ebytes eb x = ebytes e x"
    using write_back_bytes [OF E ea h(2,1) wb] by blast+
  have ec: "k_be (e_k ec) = snd (RestoreCtx B x (k_be (e_k (reprotect E (sn_regions sn) eb))))"
    using step_be(1) [of "RestoreCtx (be_of E) x" "reprotect E (sn_regions sn) eb"] rc E by simp
  have k3: "k_be (e_k e3) = k_be (e_k ec)" by (simp add: e3 restore_java_def)
  have b3: "binv e3" "ebytes e3 = ebytes eb"
    using reprotect_keeps [OF E eb(1), of "sn_regions sn"] be_ctx ec k3 by auto
  then show "binv e3" by simp
  fix a n p y assume a: "(a, n, p) \<in> set rs" "p AND ProtWrite \<noteq> 0" "ReadBytes E a n e \<noteq> None" "y - a < n"
  then obtain d where d: "(a, p, d) \<in> set (sn_writable sn)" "length d = unat n"
    using capture_all [OF E i1 a(1,2)] sn by auto
  then show "ebytes e3 y = ebytes e y"
    using eb(2) [of y] b3(2) a(4) by (force simp: word_less_nat_alt)
qed

end

lemma RestoreContext_mem: "mem_inv D (RestoreContext r c) = mem_inv D c" "mbyte (RestoreContext r c) = mbyte c"
  by (simp_all add: RestoreContext_def mbyte_def page_data_def fun_eq_iff)

interpretation ic: guest_contexts "interp_backend fuel simd E" "mem_inv D" mbyte
proof
  fix c :: "'a cpu_scheme" and x a n bs
  show "mem_inv D c \<Longrightarrow> mem_inv D (snd (RestoreCtx (interp_backend fuel simd E) x c)) \<and>
      mbyte (snd (RestoreCtx (interp_backend fuel simd E) x c)) = mbyte c"
    by (simp add: interp_backend_def interp_RestoreContext_def RestoreContext_mem split: option.split)
  show "length bs < 2 ^ 63" if "mem_inv D c" and r: "MemRead (interp_backend fuel simd E) a n c = Some bs"
  proof -
    have "n \<le> MaxMemReadLen" using r by (auto simp: interp_backend_def interp_MemRead_def not_less split: if_splits)
    moreover have "length bs = unat n" using interp_read_law [OF that(1), of a n bs] r by (simp add: interp_backend_def)
    ultimately show ?thesis by (simp add: MaxMemReadLen_def word_le_nat_alt)
  qed
qed

end
