(* ===== verification/Emu_Props.thy ===== *)
theory Emu_Props
  imports Sched_Props Emu_Snapshot
begin

text \<open>
  What calls into the guest and rewinding promise on the interpreter: the calling convention of native methods,
  the return of memory and registers to a snapshot, the main thread across \<open>RunThreads\<close>, and traps that are
  no system calls.
\<close>

subsection \<open>Registers\<close>

lemma slot_and31: "n < 31 \<Longrightarrow> (of_nat n AND 31 :: u8) < 31"
proof -
  assume "n < 31"
  then have "(of_nat n :: u8) < 31" by (simp add: word_less_nat_alt unat_of_nat take_bit_nat_eq_self)
  then show ?thesis using word_and_le2 [of "of_nat n :: u8" 31] by (rule le_less_trans [rotated])
qed

lemma restored_reads: "interp_RegRead r (RestoreContext (SaveContext c) d) = interp_RegRead r c"
proof -
  have g: "getX (RestoreContext (SaveContext c) d) n = getX c n" if "n < 31" for n
  proof -
    have "(of_nat n AND 31 :: u8) < 33" using slot_and31 [OF that] by (rule less_trans) simp
    then show ?thesis using slot_and31 [OF that] that by (simp add: getX_def RestoreContext_def SaveContext_def)
  qed
  show ?thesis
    by (auto simp: interp_RegRead_def g) (simp_all add: RestoreContext_def SaveContext_def)
qed

lemma and31: "n < 31 \<Longrightarrow> (of_nat n AND 31 :: u8) = of_nat n"
proof -
  assume n: "n < 31"
  have "(of_nat n AND 31 :: u8) = take_bit 5 (of_nat n)" by (simp add: take_bit_eq_mask mask_eq_exp_minus_1)
  also have "\<dots> = of_nat n" using n by (simp add: take_bit_of_nat take_bit_nat_eq_self)
  finally show ?thesis .
qed

lemma slot_inj: "n < 31 \<Longrightarrow> q < 31 \<Longrightarrow> (of_nat n AND 31 :: u8) = of_nat q AND 31 \<longleftrightarrow> n = q"
  by (simp add: and31 word_of_nat_eq_iff take_bit_nat_eq_self)

lemma getX_setX: "n < 31 \<Longrightarrow> q < 31 \<Longrightarrow> getX (setX n v c) q = (if q = n then v else getX c q)"
  by (auto simp: getX_def setX_def slot_inj)

lemma setX_SP: "n < 31 \<Longrightarrow> c_R (setX n v c) rSP = c_R c rSP"
  using slot_and31 [of n] by (auto simp: setX_def)

lemma other_fields: "m_pc (setX n v c) = m_pc c" "c_NZCV (setX n v c) = c_NZCV c" "c_TPIDR (setX n v c) = c_TPIDR c"
  "getX (c\<lparr>m_pc := w\<rparr>) q = getX c q" "getX (c\<lparr>c_TPIDR := w\<rparr>) q = getX c q"
  by (simp_all add: setX_def getX_def)

lemma getX_SP: "q < 31 \<Longrightarrow> getX (c\<lparr>c_R := (c_R c)(rSP := v)\<rparr>) q = getX c q"
  using slot_and31 [of q] by (auto simp: getX_def)

text \<open>What a register reads after a write.\<close>

lemma read_written:
  assumes "r \<le> 14" and "q \<le> 16"
  shows "fst (interp_RegWrite r v c)" and "interp_RegRead q (snd (interp_RegWrite r v c)) = (if q = r then Some v else interp_RegRead q c)"
proof -
  have "r \<le> 10 \<or> r = 11 \<or> r = 12 \<or> r = 13 \<or> r = 14" using assms(1) by linarith
  then show "fst (interp_RegWrite r v c)" "interp_RegRead q (snd (interp_RegWrite r v c)) = (if q = r then Some v else interp_RegRead q c)"
    by (auto simp: interp_RegWrite_def interp_RegRead_def getX_setX setX_SP other_fields getX_SP)
qed

subsection \<open>Calling native methods\<close>

abbreviation cpu_of :: "('b, 'x, 'h, 'r, 'p) emu \<Rightarrow> 'b" where "cpu_of e \<equiv> k_be (e_k e)"

lemma with_be_cpu: "cpu_of (snd (with_be f e)) = snd (f (cpu_of e))" "fst (with_be f e) = fst (f (cpu_of e))"
  by (simp_all add: with_be_def on_be_def split: prod.split)

lemma with_be_eq: "with_be f e = (fst (f (cpu_of e)), e\<lparr>e_k := (e_k e)\<lparr>k_be := snd (f (cpu_of e))\<rparr>\<rparr>)"
  by (simp add: with_be_def on_be_def split: prod.split)

lemma put_words_bytes:
  assumes "be_of E = interp_backend fuel simd H"
  shows "put_words E (a + of_nat (length bs)) vs e = (True, e') \<Longrightarrow> mem_inv D (cpu_of e) \<Longrightarrow> mbyte (cpu_of e) = mem_put a bs f
    \<Longrightarrow> length bs + 8 * length vs < 2 ^ 63
    \<Longrightarrow> mem_inv D (cpu_of e') \<and> mbyte (cpu_of e') = mem_put a (bs @ concat (map (le_bytes 8) vs)) f"
proof (induction vs arbitrary: bs e)
  case (Cons v vs)
  define e1 where "e1 = snd (putU64 E (a + of_nat (length bs)) v e)"
  have st: "fst (putU64 E (a + of_nat (length bs)) v e)" "put_words E (a + of_nat (length (bs @ le_bytes 8 v))) vs e1 = (True, e')"
    using Cons.prems(1) by (auto simp: e1_def add.assoc split: prod.splits bool.splits)
  have w: "mem_inv D (cpu_of e1)" "mbyte (cpu_of e1) = mem_put (a + of_nat (length bs)) (le_bytes 8 v) (mem_put a bs f)"
    using interp_write_law [OF Cons.prems(2), of "le_bytes 8 v" "a + of_nat (length bs)"] st(1) Cons.prems(3)
    by (simp_all add: e1_def putU64_def WriteBytes_def with_be_cpu assms interp_backend_def)
  have "mbyte (cpu_of e1) = mem_put a (bs @ le_bytes 8 v) f"
    using w(2) mem_put_append [of bs "le_bytes 8 v" a f] Cons.prems(4) by simp
  from Cons.IH [OF st(2) w(1) this] Cons.prems(4) show ?case by simp
qed simp

lemma write_args_regs:
  assumes "be_of E = interp_backend fuel simd H"
  shows "i + length as \<le> 8 \<Longrightarrow> mem_inv D (cpu_of e) \<Longrightarrow> write_args E i as e = (fst (write_args E i as e), e1) \<Longrightarrow>
    fst (write_args E i as e) \<and> mem_inv D (cpu_of e1) \<and> mbyte (cpu_of e1) = mbyte (cpu_of e) \<and> e_closed e1 = e_closed e \<and>
    (\<forall>q \<le> 16. interp_RegRead q (cpu_of e1) = (if i \<le> q \<and> q < i + length as then Some (as ! (q - i)) else interp_RegRead q (cpu_of e)))"
proof (induction as arbitrary: i e)
  case (Cons a as)
  define e2 where "e2 = snd (with_be (RegWrite (be_of E) i a) e)"
  have c2: "cpu_of e2 = snd (interp_RegWrite i a (cpu_of e))" by (simp add: e2_def with_be_cpu assms interp_backend_def)
  have w: "with_be (RegWrite (be_of E) i a) e = (True, e2)"
    using read_written(1) [of i 0 a "cpu_of e"] Cons.prems(1)
    by (simp add: e2_def prod_eq_iff with_be_cpu assms interp_backend_def)
  have m2: "mem_inv D (cpu_of e2)" "mbyte (cpu_of e2) = mbyte (cpu_of e)"
    using interp_reg_law [OF Cons.prems(2), of i a] by (simp_all add: c2)
  have "e_closed e2 = e_closed e" by (simp add: e2_def with_be_def split: prod.split)
  moreover have "interp_RegRead q (cpu_of e2) = (if q = i then Some a else interp_RegRead q (cpu_of e))" if "q \<le> 16" for q
    using read_written(2) [of i q a "cpu_of e"] Cons.prems(1) that by (simp add: c2)
  ultimately show ?case
    using Cons.IH [of "Suc i" e2] Cons.prems m2 w by (auto simp: nth_Cons' Suc_diff_Suc)
qed auto

text \<open>What a call that returns a value has done.\<close>

definition entered :: "u64 \<Rightarrow> u64 list \<Rightarrow> ('b cpu_scheme, 'x, 'h, 'r, 'p) emu \<Rightarrow> bool" where
  "entered sp as e \<longleftrightarrow>
     (\<forall>i < length as. i < 8 \<longrightarrow> interp_RegRead i (cpu_of e) = Some (as ! i)) \<and>
     interp_RegRead RegLR (cpu_of e) = Some sentinel \<and> interp_RegRead RegSP (cpu_of e) = Some sp \<and>
     mbytes (cpu_of e) sp (8 * (length as - 8)) = concat (map (le_bytes 8) (drop 8 as))"

lemma entered_reg: "entered sp as e \<Longrightarrow> i < length as \<Longrightarrow> i < 8 \<Longrightarrow> interp_RegRead i (cpu_of e) = Some (as ! i)"
  by (simp add: entered_def)

lemma CallFunc_enters:
  assumes E: "be_of E = interp_backend fuel simd H" and m: "mem_inv D (cpu_of e)"
    and r: "CallFunc E a as e = Some (Some v, e')"
  shows "length as \<le> 8 \<and> \<not> e_closed e \<and> m_pc (cpu_of e') = sentinel \<and> v = getX (cpu_of e') 0 \<and>
    (\<exists>es. ee_Start E a sentinel es = Some (True, e') \<and> entered (c_R (cpu_of e) rSP) as es \<and> mbyte (cpu_of es) = mbyte (cpu_of e))"
proof -
  have l: "length as \<le> 8" "\<not> e_closed e" using r by (auto simp: CallFunc_def returns_def split: if_splits)
  define e1 where "e1 = snd (write_args E 0 as e)"
  have wa: "write_args E 0 as e = (fst (write_args E 0 as e), e1)" by (simp add: e1_def)
  note w = write_args_regs [OF E _ m wa, simplified, OF l(1)]
  define e2 where "e2 = snd (with_be (RegWrite (be_of E) RegLR sentinel) e1)"
  have c2: "cpu_of e2 = snd (interp_RegWrite RegLR sentinel (cpu_of e1))" by (simp add: e2_def with_be_cpu E interp_backend_def)
  have lr: "with_be (RegWrite (be_of E) RegLR sentinel) e1 = (True, e2)"
    by (simp add: e2_def prod_eq_iff with_be_cpu E interp_backend_def interp_RegWrite_def)
  have st: "ee_Start E a sentinel (e2\<lparr>e_scCount := 0\<rparr>) = Some (True, e')" and cr: "call_result E e' = Some v"
    using r l w lr wa by (auto simp: CallFunc_def returns_def split: option.splits prod.splits bool.splits)
  have "m_pc (cpu_of e') = sentinel \<and> v = getX (cpu_of e') 0"
    using cr by (simp add: call_result_def E interp_backend_def interp_RegRead_def split: if_splits)
  moreover have "entered (c_R (cpu_of e) rSP) as (e2\<lparr>e_scCount := 0\<rparr>)"
  proof -
    have rd: "interp_RegRead q (cpu_of e2) = (if q = RegLR then Some sentinel else if q < length as then Some (as ! q) else interp_RegRead q (cpu_of e))"
      if "q \<le> 16" for q
      using read_written(2) [of RegLR q sentinel "cpu_of e1"] w that l(1) by (simp add: c2)
    have "interp_RegRead RegSP (cpu_of e) = Some (c_R (cpu_of e) rSP)" by (simp add: interp_RegRead_def)
    then show ?thesis using l(1) by (simp add: entered_def rd mbytes_def)
  qed
  moreover have "mbyte (cpu_of (e2\<lparr>e_scCount := 0\<rparr>)) = mbyte (cpu_of e)"
    using interp_reg_law(2) [of D "cpu_of e1" RegLR sentinel] w by (simp add: c2)
  ultimately show ?thesis using st l by blast
qed

lemma mbytes_put_kernel:
  assumes "mbyte c = mem_put a bs f" and "length bs \<le> 2 ^ 63"
  shows "mbytes c a (length bs) = bs"
  using assms by (auto simp: mbytes_def mem_put_same intro!: nth_equalityI)

lemma callFuncStack_enters:
  assumes E: "be_of E = interp_backend fuel simd H" and m: "mem_inv D (cpu_of e)" and n: "length as < 2 ^ 32"
    and r: "callFuncStack E a as e = Some (Some v, e')"
  shows "\<exists>es e1. ee_Start E a sentinel es = Some (True, e1) \<and>
    entered (c_R (cpu_of e) rSP - ((of_nat (length as - 8) * 8 + 15) AND NOT 15)) as es \<and>
    m_pc (cpu_of e1) = sentinel \<and> v = getX (cpu_of e1) 0 \<and> (k_Exited (e_k e') \<longleftrightarrow> k_Exited (e_k e1)) \<and>
    (8 < length as \<longrightarrow> interp_RegRead RegSP (cpu_of e') = interp_RegRead RegSP (cpu_of e))"
proof (cases "length as \<le> 8")
  case True
  then have cf: "CallFunc E a as e = Some (Some v, e')" using r by (simp add: callFuncStack_def)
  obtain es where "ee_Start E a sentinel es = Some (True, e')" "entered (c_R (cpu_of e) rSP) as es"
    "m_pc (cpu_of e') = sentinel" "v = getX (cpu_of e') 0"
    using CallFunc_enters [OF E m cf] by blast
  then show ?thesis using True by (intro exI [of _ es] exI [of _ e']) auto
next
  case False
  define sp where "sp = c_R (cpu_of e) rSP - ((of_nat (length (drop 8 as)) * 8 + 15) AND NOT 15)"
  have osp: "RegRead (be_of E) RegSP (cpu_of e) = Some (c_R (cpu_of e) rSP)" by (simp add: E interp_backend_def interp_RegRead_def)
  define e0 where "e0 = e"
  have cs: "callFuncStack E a as e =
      (case put_words E sp (drop 8 as) e of
         (False, e) \<Rightarrow> returns None e
       | (True, e) \<Rightarrow>
           (case with_be (RegWrite (be_of E) RegSP sp) e of
              (False, e) \<Rightarrow> returns None e
            | (True, e) \<Rightarrow> map_option (\<lambda>(r, e1). (r, set_reg E RegSP (c_R (cpu_of e0) rSP) e1)) (CallFunc E a (take 8 as) e)))"
    unfolding callFuncStack_def sp_def osp Let_def e0_def using False by (simp only: if_False option.case)
  obtain e1 where pw: "put_words E sp (drop 8 as) e = (True, e1)"
    using r by (auto simp: cs returns_def split: prod.splits bool.splits)
  have m1: "mem_inv D (cpu_of e1)" "mbyte (cpu_of e1) = mem_put sp (concat (map (le_bytes 8) (drop 8 as))) (mbyte (cpu_of e))"
    using put_words_bytes [OF E, of sp "[]" "drop 8 as" e e1 D "mbyte (cpu_of e)"] pw m n by simp_all
  define e2 where "e2 = snd (with_be (RegWrite (be_of E) RegSP sp) e1)"
  have w: "with_be (RegWrite (be_of E) RegSP sp) e1 = (True, e2)" and c2: "cpu_of e2 = snd (interp_RegWrite RegSP sp (cpu_of e1))"
    by (simp_all add: e2_def prod_eq_iff with_be_cpu E interp_backend_def interp_RegWrite_def)
  obtain e3 where cf: "CallFunc E a (take 8 as) e2 = Some (Some v, e3)" and e': "e' = set_reg E RegSP (c_R (cpu_of e) rSP) e3"
    using r pw w by (auto simp: cs e0_def)
  have m2: "mem_inv D (cpu_of e2)" "mbyte (cpu_of e2) = mbyte (cpu_of e1)" "c_R (cpu_of e2) rSP = sp"
    using interp_reg_law [OF m1(1), of RegSP sp] by (simp_all add: c2 interp_RegWrite_def)
  obtain es where es: "ee_Start E a sentinel es = Some (True, e3)" "entered sp (take 8 as) es" "mbyte (cpu_of es) = mbyte (cpu_of e2)"
    and v: "m_pc (cpu_of e3) = sentinel" "v = getX (cpu_of e3) 0"
    using CallFunc_enters [OF E m2(1) cf] m2(3) by auto
  have len: "length (concat (map (le_bytes 8) (drop 8 as))) = 8 * (length as - 8)"
    by (simp add: length_concat comp_def sum_list_triv)
  have "mbytes (cpu_of es) sp (8 * (length as - 8)) = concat (map (le_bytes 8) (drop 8 as))"
    using mbytes_put_kernel [of "cpu_of es" sp "concat (map (le_bytes 8) (drop 8 as))"] es(3) m2(2) m1(2) len n by simp
  then have "entered sp as es" using es(2) by (auto simp: entered_def)
  moreover have "interp_RegRead RegSP (cpu_of e') = interp_RegRead RegSP (cpu_of e)"
    by (simp add: e' set_reg_def with_be_cpu E interp_backend_def interp_RegWrite_def interp_RegRead_def)
  moreover have "k_Exited (e_k e') = k_Exited (e_k e3)" by (simp add: e' set_reg_def with_be_def on_be_def split: prod.split)
  ultimately show ?thesis using es(1) v by (intro exI [of _ es] exI [of _ e3]) (simp add: sp_def length_drop)
qed

lemma boxArgs_cpu: "cpu_of (snd (boxArgs as e)) = cpu_of e"
proof (induction as arbitrary: e)
  case (Cons a as)
  have "e_k (snd (boxArg a e)) = e_k e"
    by (cases a) (simp_all add: boxArg_def vm_do_def box_result_def split_def Let_def split: option.split)
  then show ?case using Cons [of "snd (boxArg a e)"] by (simp add: split_def Let_def)
qed simp

lemma boxArgs_length: "length (fst (boxArgs as e)) = length as"
  by (induction as arbitrary: e) (simp_all add: split_def Let_def)

text \<open>
  C36: on the interpreter, with the JNI tables in place, a native method called from Go that returns a value was
  registered, and was entered as the AAPCS64 asks: JNIEnv, the receiver and the first six boxed arguments in X0 to
  X7, the others as 8-byte words on a stack lowered by their size rounded up to 16, the sentinel in LR. The run
  ended at the sentinel, the value is X0, the guest has not exited, and a lowered stack pointer is back.
\<close>
theorem native_call_follows_abi:
  assumes "be_of E = interp_backend fuel simd H" and "mem_inv D (cpu_of e)" and "e_jniEnv e \<noteq> 0" and "length as < 2 ^ 31"
    and "callNative E cls name sg recv as e = Some (Some v, e')"
  shows "\<exists>fn vs eb es e1 sp. e_natives e (cls @ ''.'' @ name @ sg) = Some fn \<and> boxArgs as e = (vs, eb) \<and>
    ee_Start E fn sentinel es = Some (True, e1) \<and> entered sp (e_jniEnv e # recv # vs) es \<and>
    sp = c_R (cpu_of e) rSP - ((of_nat (length as - 6) * 8 + 15) AND NOT 15) \<and>
    m_pc (cpu_of e1) = sentinel \<and> v = getX (cpu_of e1) 0 \<and> \<not> k_Exited (e_k e1) \<and>
    (6 < length as \<longrightarrow> interp_RegRead RegSP (cpu_of e') = interp_RegRead RegSP (cpu_of e))"
proof -
  obtain vs eb where b: "boxArgs as e = (vs, eb)" by fastforce
  have cb: "cpu_of eb = cpu_of e" and lv: "length vs = length as"
    using boxArgs_cpu [of as e] boxArgs_length [of as e] b by simp_all
  obtain fn where fn: "e_natives e (cls @ ''.'' @ name @ sg) = Some fn"
    using assms(5) by (auto simp: callNative_def native_key_def returns_def split: option.splits)
  let ?as = "e_jniEnv e # recv # vs"
  have cs: "callFuncStack E fn ?as eb = Some (Some v, e')" "\<not> k_Exited (e_k e')"
    using assms(3,5) fn b
    by (auto simp: callNative_def native_key_def JNIEnv_def next_call_def returns_def split: option.splits if_splits)
  have m: "mem_inv D (cpu_of eb)" "length ?as < 2 ^ 32" using assms(2,4) lv by (simp_all add: cb)
  from callFuncStack_enters [OF assms(1) m cs(1)]
  show ?thesis using fn b cs(2) lv unfolding cb
    by (elim exE conjE) (intro exI conjI, assumption+, auto)
qed

definition call_eenv :: "(cpu, context_regs option, unit, unit, unit) eenv" where
  "call_eenv = sample_eenv\<lparr>ee_Start := (\<lambda>a u e. Some (True, e\<lparr>e_k := (e_k e)\<lparr>k_be := (k_be (e_k e))\<lparr>m_pc := u\<rparr>\<rparr>\<rparr>))\<rparr>"

definition call_emu :: "(cpu, context_regs option, unit, unit, unit) emu" where
  "call_emu = sample_emu\<lparr>e_jniEnv := 0x40000000, e_natives := [''A.f(I)I'' \<mapsto> 0x12000400]\<rparr>"

lemma call_env_be: "be_of call_eenv = interp_backend 0 no_simd plain_env"
  by (simp add: call_eenv_def sample_eenv_def plain_kenv_def)

lemma call_emu_inv: "mem_inv (decode no_simd inst0) (cpu_of call_emu)" "cpu_of call_emu = New"
  by (simp_all add: call_emu_def sample_emu_def classRef_def vm_do_def fresh_emu_def split_def Let_def New_inv split: option.split)

lemma call_start:
  "ee_Start call_eenv a u e = Some (True, e\<lparr>e_k := (e_k e)\<lparr>k_be := (cpu_of e)\<lparr>m_pc := u\<rparr>\<rparr>\<rparr>)"
  by (simp add: call_eenv_def)

lemma write_args_exited: "k_Exited (e_k (snd (write_args E i as e))) = k_Exited (e_k e)"
  by (induction as arbitrary: i e) (auto simp: with_be_def on_be_def split: prod.splits bool.splits)

lemma direct_call:
  assumes "mem_inv D (cpu_of e)" and "\<not> e_closed e" and "\<not> k_Exited (e_k e)" and "length as \<le> 8"
  obtains w e' where "CallFunc call_eenv a as e = Some (Some w, e')" and "\<not> k_Exited (e_k e')"
proof -
  define e1 where "e1 = snd (write_args call_eenv 0 as e)"
  define e2 where "e2 = snd (with_be (RegWrite (be_of call_eenv) RegLR sentinel) e1)"
  have "write_args call_eenv 0 as e = (fst (write_args call_eenv 0 as e), e1)" by (simp add: e1_def)
  then have w: "write_args call_eenv 0 as e = (True, e1)"
    using write_args_regs [OF call_env_be, of 0 as D e e1] assms(1,4) by simp
  have lr: "with_be (RegWrite (be_of call_eenv) RegLR sentinel) e1 = (True, e2)"
    by (simp add: e2_def prod_eq_iff with_be_cpu call_env_be interp_backend_def interp_RegWrite_def)
  let ?e = "e2\<lparr>e_scCount := 0, e_k := (e_k e2)\<lparr>k_be := (cpu_of e2)\<lparr>m_pc := sentinel\<rparr>\<rparr>\<rparr>"
  have st: "ee_Start call_eenv a sentinel (e2\<lparr>e_scCount := 0\<rparr>) = Some (True, ?e)" by (simp add: call_start)
  have cr: "call_result call_eenv ?e = Some (getX (cpu_of e2) 0)"
    by (simp add: call_result_def call_env_be interp_backend_def interp_RegRead_def other_fields)
  have "CallFunc call_eenv a as e = Some (Some (getX (cpu_of e2) 0), ?e)"
    using w lr assms(2,4) by (simp add: CallFunc_def st cr returns_def)
  moreover have "\<not> k_Exited (e_k ?e)"
    using assms(3) write_args_exited [of call_eenv 0 as e] by (simp add: e2_def e1_def with_be_def on_be_def split: prod.split)
  ultimately show ?thesis by (rule that)
qed

theorem native_call_follows_abi_witness:
  "\<exists>v e' es e1. callNative call_eenv ''A'' ''f'' ''(I)I'' 0x100 [ArgInt 5] call_emu = Some (Some v, e') \<and>
     ee_Start call_eenv 0x12000400 sentinel es = Some (True, e1) \<and> interp_RegRead 2 (cpu_of es) = Some 5"
proof -
  have x: "\<not> k_Exited (e_k call_emu)" "\<not> e_closed call_emu" "e_jniEnv call_emu = 0x40000000"
    "e_natives call_emu = [''A.f(I)I'' \<mapsto> 0x12000400]"
    by (simp_all add: call_emu_def sample_emu_def classRef_def vm_do_def fresh_emu_def boot_def split_def Let_def split: option.split)
  have b: "boxArgs [ArgInt 5] call_emu = ([5], call_emu)" by (simp add: boxArg_def)
  obtain w e' where c: "CallFunc call_eenv 0x12000400 [0x40000000, 0x100, 5] call_emu = Some (Some w, e')" "\<not> k_Exited (e_k e')"
    using direct_call [OF call_emu_inv(1) x(2,1), of "[0x40000000, 0x100, 5]"] by auto
  have n: "callNative call_eenv ''A'' ''f'' ''(I)I'' 0x100 [ArgInt 5] call_emu = Some (Some w, e')"
    using c by (simp add: callNative_def native_key_def x JNIEnv_def b callFuncStack_def next_call_def returns_def del: boxArgs.simps)
  obtain es e1 sp where "ee_Start call_eenv 0x12000400 sentinel es = Some (True, e1)" "entered sp [0x40000000, 0x100, 5] es"
    using native_call_follows_abi [OF call_env_be call_emu_inv(1) _ _ n] by (auto simp: x b simp del: boxArgs.simps)
  moreover from this(2) have "interp_RegRead 2 (cpu_of es) = Some ([0x40000000, 0x100, 5] ! 2)" by (rule entered_reg) simp_all
  ultimately show ?thesis using n by auto
qed

subsection \<open>Rewinding\<close>

lemma kernel_only: "(e_k (snd (with_be f e)))\<lparr>k_be := b\<rparr> = (e_k e)\<lparr>k_be := b\<rparr>"
  by (simp add: with_be_def on_be_def split: prod.split)

lemma write_back_kernel: "(e_k (snd (write_back E ws e)))\<lparr>k_be := b\<rparr> = (e_k e)\<lparr>k_be := b\<rparr>"
proof (induction ws arbitrary: e)
  case (Cons w ws)
  obtain a p d where w: "w = (a, p, d)" by (cases w)
  have "write_back E (w # ws) e = (let r1 = WriteBytes E a d e; r2 = WriteBytes E a d (snd (with_be (MemMap (be_of E) a (of_nat (length d)) p) (snd r1)))
      in if fst r1 then write_back E ws (snd r1) else if fst r2 then write_back E ws (snd r2) else (False, snd r2))"
    by (simp add: w Let_def split: prod.split bool.split)
  then show ?case by (simp add: Let_def Cons kernel_only WriteBytes_def)
qed simp

lemma folds_kernel:
  "(e_k (remap E rs e))\<lparr>k_be := b\<rparr> = (e_k e)\<lparr>k_be := b\<rparr>" "(e_k (reprotect E rs e))\<lparr>k_be := b\<rparr> = (e_k e)\<lparr>k_be := b\<rparr>"
  unfolding remap_def reprotect_def by (induction rs arbitrary: e) (simp_all add: kernel_only split_def)

lemma same_kernel:
  assumes "k\<lparr>k_be := b\<rparr> = k'\<lparr>k_be := b\<rparr>"
  shows "k_mem k = k_mem k'" "k_brkCur k = k_brkCur k'" "k_Exited k = k_Exited k'" "k_ExitCode k = k_ExitCode k'"
    "k_files k = k_files k'" "k_nextFd k = k_nextFd k'" "k_dirs k = k_dirs k'"
  using arg_cong [OF assms, of k_mem] arg_cong [OF assms, of k_brkCur] arg_cong [OF assms, of k_Exited]
    arg_cong [OF assms, of k_ExitCode] arg_cong [OF assms, of k_files] arg_cong [OF assms, of k_nextFd] arg_cong [OF assms, of k_dirs]
  by simp_all

text \<open>What \<open>Snapshot\<close> holds, and that taking it changes nothing the guest can see.\<close>

lemma Snapshot_holds:
  assumes "Snapshot E e = (Some sn, e1)"
  shows "sn_writable sn = capture E (sn_regions sn) e1" "sn_regions sn = guestRanges e1" "cpu_of e1 = cpu_of (snd (JNIEnv E (snd (JavaVM E e))))"
    "\<exists>x. SaveCtx (be_of E) (cpu_of e1) = Some x \<and> sn_cpu sn = Some x" "sn_layout sn = s_regions (k_mem (e_k e1))"
    "sn_mmapTop sn = s_mmapTop (k_mem (e_k e1))" "sn_classRefs sn = e_classRefs e1" "sn_staticFields sn = e_staticFields e1"
    "sn_nextFiberID sn = e_nextFiberID e1" "st_brkCur (sn_kstate sn) = k_brkCur (e_k e1)" "st_exited (sn_kstate sn) = k_Exited (e_k e1)"
    "st_files (sn_kstate sn) = k_files (e_k e1)" "st_nextFd (sn_kstate sn) = k_nextFd (e_k e1)" "st_dirs (sn_kstate sn) = k_dirs (e_k e1)"
proof -
  define e0 where "e0 = snd (JNIEnv E (snd (JavaVM E e)))"
  define h where "h = snd (copyWfiles (ke_grow (ee_K E)) (k_wfiles (e_k e0)) (k_heap (e_k e0)))"
  obtain x where s: "SaveCtx (be_of E) (cpu_of e0) = Some x"
    and sn: "sn = \<lparr>sn_cpu = Some x, sn_writable = capture E (guestRanges e0) e0, sn_regions = guestRanges e0,
        sn_layout = s_regions (k_mem (e_k e0)), sn_mmapTop = s_mmapTop (k_mem (e_k e0)),
        sn_kstate = fst (kSnapshot (ee_K E) (e_k e0)), sn_vmstate = fst (vm_Snapshot (e_vm e0)), sn_classRefs = e_classRefs e0,
        sn_staticFields = e_staticFields e0, sn_nextFiberID = e_nextFiberID e0\<rparr>"
    and e1: "e1 = e0\<lparr>e_k := (e_k e0)\<lparr>k_heap := h\<rparr>, e_vm := snd (vm_Snapshot (e_vm e0))\<rparr>"
    using assms
    by (auto simp: Snapshot_def e0_def [symmetric] h_def kSnapshot_def Let_def split_def split: if_splits option.splits)
  have gr: "guestRanges e1 = guestRanges e0" by (simp add: e1 guestRanges_def BrkTop_def)
  have rb: "ReadBytes E a n e1 = ReadBytes E a n e0" for a n by (simp add: e1 ReadBytes_def kread_def)
  have cap: "capture E rs e1 = capture E rs e0" for rs by (simp add: capture_def rb cong: if_cong)
  with cap show "sn_writable sn = capture E (sn_regions sn) e1" "sn_regions sn = guestRanges e1" by (simp_all add: sn gr)
  show "cpu_of e1 = cpu_of (snd (JNIEnv E (snd (JavaVM E e))))" by (simp add: e1 e0_def)
  show "\<exists>x. SaveCtx (be_of E) (cpu_of e1) = Some x \<and> sn_cpu sn = Some x" using s by (simp add: e1 sn)
  show "sn_layout sn = s_regions (k_mem (e_k e1))"
    "sn_mmapTop sn = s_mmapTop (k_mem (e_k e1))" "sn_classRefs sn = e_classRefs e1" "sn_staticFields sn = e_staticFields e1"
    "sn_nextFiberID sn = e_nextFiberID e1" "st_brkCur (sn_kstate sn) = k_brkCur (e_k e1)" "st_exited (sn_kstate sn) = k_Exited (e_k e1)"
    "st_files (sn_kstate sn) = k_files (e_k e1)" "st_nextFd (sn_kstate sn) = k_nextFd (e_k e1)" "st_dirs (sn_kstate sn) = k_dirs (e_k e1)"
    by (simp_all add: sn e1 kSnapshot_def split_def)
qed

text \<open>
  C37: on the interpreter, whatever happens between a snapshot and a \<open>Restore\<close> of it that succeeds, afterwards every
  byte of every writable range the emulator knew at the snapshot and could read is what it was, every register reads
  what it read, and so do the vector registers; the allocator's table and cursor, the break, the open files, the exit
  state, the class handles and the static fields are those of the snapshot, and no thread is left.
\<close>
theorem restore_rewinds_emulator:
  assumes "be_of E = interp_backend fuel simd H" and "Snapshot E e = (Some sn, e1)" and "mem_inv D (cpu_of e1)"
    and "mem_inv D (cpu_of e2)" and "Restore E (Some sn) e2 = (True, e3)"
  shows "(\<forall>(a, n, p) \<in> set (writableGuestRanges e1). ReadBytes E a n e1 \<noteq> None \<longrightarrow>
      (\<forall>x. x - a < n \<longrightarrow> mbyte (cpu_of e3) x = mbyte (cpu_of e1) x)) \<and>
    (\<forall>r. interp_RegRead r (cpu_of e3) = interp_RegRead r (cpu_of e1)) \<and> c_V (cpu_of e3) = c_V (cpu_of e1) \<and>
    s_regions (k_mem (e_k e3)) = sortRegions (s_regions (k_mem (e_k e1))) \<and> s_mmapTop (k_mem (e_k e3)) = s_mmapTop (k_mem (e_k e1)) \<and>
    k_brkCur (e_k e3) = k_brkCur (e_k e1) \<and> k_files (e_k e3) = k_files (e_k e1) \<and> k_Exited (e_k e3) = k_Exited (e_k e1) \<and>
    e_classRefs e3 = e_classRefs e1 \<and> e_staticFields e3 = e_staticFields e1 \<and> e_nextFiberID e3 = e_nextFiberID e1 \<and> e_fibers e3 = []"
proof -
  note h = Snapshot_holds [OF assms(2)]
  have mem: "mbyte (cpu_of e3) x = mbyte (cpu_of e1) x"
    if "(a, n, p) \<in> set (writableGuestRanges e1)" "ReadBytes E a n e1 \<noteq> None" "x - a < n" for a n p x
    using ic.restore_memory(2) [OF assms(1,3) h(1) assms(4,5), of a n p x] that by (auto simp: writableGuestRanges_def h(2))
  define ea where "ea = remap E (sn_regions sn) (restore_kernel E sn (unmap_new E (sn_layout sn) e2))"
  obtain eb where eb: "write_back E (sn_writable sn) ea = (True, eb)"
    and r: "(case with_be (RestoreCtx (be_of E) (the (sn_cpu sn))) (reprotect E (sn_regions sn) eb) of
      (False, e) \<Rightarrow> (False, e) | (True, e) \<Rightarrow> (True, restore_java sn e)) = (True, e3)"
    using assms(5) h(4) by (auto simp: Restore_def ea_def [symmetric] Let_def split: if_splits prod.splits bool.splits)
  define ed where "ed = reprotect E (sn_regions sn) eb"
  have sv: "sn_cpu sn = Some (Some (SaveContext (cpu_of e1)))" using h(4) by (simp add: assms(1) interp_backend_def)
  define ec where "ec = snd (with_be (RestoreCtx (be_of E) (Some (SaveContext (cpu_of e1)))) ed)"
  have e3: "e3 = restore_java sn ec"
    using r by (auto simp: ec_def ed_def sv split: prod.splits bool.splits)
  have "cpu_of e3 = RestoreContext (SaveContext (cpu_of e1)) (cpu_of ed)"
    by (simp add: e3 restore_java_def ec_def with_be_cpu assms(1) interp_backend_def interp_RestoreContext_def)
  then have regs: "\<forall>r. interp_RegRead r (cpu_of e3) = interp_RegRead r (cpu_of e1)" "c_V (cpu_of e3) = c_V (cpu_of e1)"
    by (simp_all add: restored_reads) (simp add: RestoreContext_def SaveContext_def)
  have "(e_k e3)\<lparr>k_be := b\<rparr> = (e_k (restore_kernel E sn (unmap_new E (sn_layout sn) e2)))\<lparr>k_be := b\<rparr>" for b
  proof -
    have "(e_k e3)\<lparr>k_be := b\<rparr> = (e_k eb)\<lparr>k_be := b\<rparr>" by (simp add: e3 restore_java_def ec_def ed_def kernel_only folds_kernel)
    also have "\<dots> = (e_k ea)\<lparr>k_be := b\<rparr>" using write_back_kernel [where E = E and ws = "sn_writable sn" and e = ea and b = b] eb by simp
    finally show ?thesis by (simp add: ea_def folds_kernel)
  qed
  note k = same_kernel [OF this]
  have "s_regions (k_mem (e_k e3)) = sortRegions (s_regions (k_mem (e_k e1)))" "s_mmapTop (k_mem (e_k e3)) = s_mmapTop (k_mem (e_k e1))"
    "k_brkCur (e_k e3) = k_brkCur (e_k e1)" "k_files (e_k e3) = k_files (e_k e1)" "k_Exited (e_k e3) = k_Exited (e_k e1)"
    unfolding k by (simp_all add: restore_kernel_def kRestore_def Let_def split_def on_be_def SetLayout_def h)
  moreover have "e_classRefs e3 = e_classRefs e1" "e_staticFields e3 = e_staticFields e1" "e_nextFiberID e3 = e_nextFiberID e1" "e_fibers e3 = []"
    by (simp_all add: e3 restore_java_def h)
  ultimately show ?thesis using mem regs by blast
qed

lemma write_ok:
  assumes "mem_inv D c" and "unat a + length bs < 2 ^ 63" and "\<forall>k < length bs. mbyte c (a + of_nat k) \<noteq> None"
  shows "fst (interp_MemWrite a bs c)"
proof (cases "bs = []")
  case False
  have "length bs < 2 ^ 63" "unat a + length bs < 2 ^ 64" using assms(2) by simp_all
  then obtain m' where "host_write a bs c = (Inr (), m')" using host_write_correct [OF assms(1) _ _ assms(3)] by metis
  then show ?thesis using False by (simp add: interp_MemWrite_def report_def)
qed (simp add: interp_MemWrite_def)

lemma remap_mapped:
  assumes "be_of E = interp_backend fuel simd H"
  shows "mem_inv D (cpu_of e) \<Longrightarrow> mbyte (cpu_of e) x \<noteq> None \<Longrightarrow> mbyte (cpu_of (remap E rs e)) x \<noteq> None"
proof (induction rs arbitrary: e)
  case (Cons r rs)
  obtain a n p where r: "r = (a, n, p)" by (cases r)
  define e1 where "e1 = snd (with_be (MemMap (be_of E) a n p) e)"
  have c: "cpu_of e1 = snd (report (mem_map a n p (cpu_of e)))" by (simp add: e1_def with_be_cpu assms interp_backend_def)
  have "mem_inv D (cpu_of e1)" "mbyte (cpu_of e1) x \<noteq> None"
    using interp_map_law [OF Cons.prems(1), of a n p] Cons.prems(2) by (simp_all add: c)
  from Cons.IH [OF this] show ?case by (simp add: r remap_def e1_def)
qed (simp add: remap_def)

text \<open>An emulator whose thread-local block is mapped; a byte of it is overwritten, and comes back.\<close>

theorem restore_rewinds_emulator_witness:
  "\<exists>(e :: (cpu, context_regs option, unit, unit, unit) emu) sn e1 e2 e3. Snapshot call_eenv e = (Some sn, e1) \<and>
     mbyte (cpu_of e2) tlsBase = Some 0x42 \<and> Restore call_eenv (Some sn) e2 = (True, e3) \<and> mbyte (cpu_of e3) tlsBase = Some 0"
proof -
  let ?D = "decode no_simd inst0"
  obtain c1 :: cpu where m1: "mem_map tlsBase tlsSize 3 New = (Inr (), c1)" and b1: "\<forall>x. mbyte c1 x = (if x - tlsBase < tlsSize then Some 0 else None)"
    by (rule map_ok [OF New_inv [of ?D], of tlsBase tlsSize 3]) (auto simp: good_range_def)
  have i1: "mem_inv ?D c1" using mem_map_inv [OF New_inv [of ?D], of tlsBase tlsSize 3] m1 by simp
  define e where "e = call_emu\<lparr>e_javaVM := 1, e_k := (e_k call_emu)\<lparr>k_be := c1\<rparr>\<rparr>"
  have f: "e_closed e = False" "e_modules e = []" "k_mem (e_k e) = NewSpace" "k_brkCur (e_k e) = 0" "cpu_of e = c1" "e_jniEnv e \<noteq> 0" "e_javaVM e \<noteq> 0"
    by (simp_all add: e_def call_emu_def sample_emu_def classRef_def vm_do_def fresh_emu_def boot_def split_def Let_def split: option.split)
  have j: "snd (JNIEnv call_eenv (snd (JavaVM call_eenv e))) = e" using f by (simp add: JNIEnv_def JavaVM_def)
  obtain sn e1 where sn: "Snapshot call_eenv e = (Some sn, e1)"
    using f by (auto simp: Snapshot_def j call_env_be interp_backend_def split_def Let_def)
  note h = Snapshot_holds [OF sn]
  have f1: "e_closed e1 = False" "e_modules e1 = []" "k_mem (e_k e1) = NewSpace" "k_brkCur (e_k e1) = 0" "cpu_of e1 = c1"
    using sn f by (auto simp: Snapshot_def j call_env_be interp_backend_def split_def Let_def kSnapshot_def split: if_splits)
  have rs: "guestRanges e1 = [(stackBase, stackSize, 3), (tlsBase, tlsSize, 3), (stubBase, stubSize, 7)]"
    by (simp add: guestRanges_def f1 NewSpace_def BrkTop_def brkTopOf_def)
  have unread: "ReadBytes call_eenv a n e1 = None" if "0 < n" "\<not> a - tlsBase < tlsSize" for a n
  proof (rule ccontr)
    assume "ReadBytes call_eenv a n e1 \<noteq> None"
    then obtain d where "interp_MemRead a n c1 = Some d" by (auto simp: ReadBytes_def kread_def call_env_be interp_backend_def f1)
    from interp_read_law [OF i1 this] that(1) have "mbyte c1 (a + of_nat 0) \<noteq> None" by (auto simp: word_less_nat_alt)
    then show False using b1 that(2) by simp
  qed
  have tn: "unat (tlsSize :: u64) = 0x10000" by simp
  have mapped: "\<forall>k < 0x10000. mbyte c1 (tlsBase + of_nat k) \<noteq> None"
  proof (intro allI impI)
    fix k :: nat assume "k < 0x10000"
    then have "(of_nat k :: u64) < tlsSize" by (simp only: word_less_nat_alt) (simp add: unat_of_nat take_bit_nat_eq_self)
    then show "mbyte c1 (tlsBase + of_nat k) \<noteq> None" by (simp add: b1)
  qed
  have tls: "fst (host_read tlsBase (unat (tlsSize :: u64)) c1) = Inr (mbytes c1 tlsBase (unat (tlsSize :: u64)))"
    unfolding tn by (subst host_read_correct [OF i1 _ mapped]) simp_all
  define d where "d = mbytes c1 tlsBase (unat (tlsSize :: u64))"
  have rd: "ReadBytes call_eenv tlsBase tlsSize e1 = Some d"
    using tls by (simp add: ReadBytes_def kread_def call_env_be interp_backend_def f1 interp_MemRead_def MaxMemReadLen_def d_def)
  have ld: "length d = 0x10000" by (simp add: d_def mbytes_def)
  have w: "sn_writable sn = [(tlsBase, 3, d)]"
    using unread [of stackSize stackBase] unread [of stubSize stubBase] rd by (simp add: h(1,2) rs capture_def)
  define c2 where "c2 = snd (interp_MemWrite tlsBase [0x42] c1)"
  have ok2: "fst (interp_MemWrite tlsBase [0x42] c1)" using write_ok [OF i1, of tlsBase "[0x42]"] b1 by simp
  have i2: "mem_inv ?D c2" and b2: "mbyte c2 = mem_put tlsBase [0x42] (mbyte c1)"
    using interp_write_law [OF i1, of "[0x42]" tlsBase] ok2 by (simp_all add: c2_def)
  have at: "mbyte c2 tlsBase = Some 0x42" using mem_put_same [of "[0x42]" 0 tlsBase "mbyte c1"] by (simp add: b2)
  have on2: "mbyte c2 x \<noteq> None" if "x - tlsBase < tlsSize" for x using b1 that by (simp add: b2 mem_put_def)
  define e2 where "e2 = e1\<lparr>e_k := (e_k e1)\<lparr>k_be := c2\<rparr>\<rparr>"
  define ea where "ea = remap call_eenv (sn_regions sn) (restore_kernel call_eenv sn (unmap_new call_eenv (sn_layout sn) e2))"
  have un: "unmap_new call_eenv (sn_layout sn) e2 = e2" by (simp add: unmap_new_def e2_def f1 NewSpace_def)
  have rk: "cpu_of (restore_kernel call_eenv sn e2) = c2"
    by (simp add: restore_kernel_def kRestore_def Let_def split_def e2_def f1 h BrkTop_def brkTopOf_def)
  have ia: "mem_inv ?D (cpu_of ea)" unfolding ea_def un by (rule ic.remap_inv [OF call_env_be]) (simp add: rk i2)
  have mp: "mbyte (cpu_of ea) x \<noteq> None" if "x - tlsBase < tlsSize" for x
    unfolding ea_def un by (rule remap_mapped [OF call_env_be, of ?D]) (simp_all only: rk i2 on2 [OF that] not_False_eq_True)
  have am: "\<forall>k < length d. mbyte (cpu_of ea) (tlsBase + of_nat k) \<noteq> None"
  proof (intro allI impI)
    fix k assume "k < length d"
    then have "(of_nat k :: u64) < tlsSize" by (simp only: ld word_less_nat_alt) (simp add: unat_of_nat take_bit_nat_eq_self)
    then show "mbyte (cpu_of ea) (tlsBase + of_nat k) \<noteq> None" using mp [of "tlsBase + of_nat k"] by simp
  qed
  have "fst (interp_MemWrite tlsBase d (cpu_of ea))" by (rule write_ok [OF ia _ am]) (simp add: ld)
  then have wb: "\<exists>eb. write_back call_eenv (sn_writable sn) ea = (True, eb)"
    by (simp add: w WriteBytes_def with_be_eq call_env_be interp_backend_def)
  have cl: "\<not> e_closed e2" by (simp add: e2_def f1)
  obtain e3 where r: "Restore call_eenv (Some sn) e2 = (True, e3)"
    using wb h(4) cl
    by (auto simp: Restore_def ea_def [symmetric] Let_def call_env_be interp_backend_def with_be_eq interp_RestoreContext_def)
  have ce2: "cpu_of e2 = c2" by (simp add: e2_def)
  have "mbyte (cpu_of e3) tlsBase = mbyte (cpu_of e1) tlsBase"
    using restore_rewinds_emulator [OF call_env_be sn _ _ r, of ?D] i1 i2 rd rs by (auto simp: f1 ce2 writableGuestRanges_def)
  then show ?thesis using sn at r b1 by (intro exI [of _ e] exI [of _ sn] exI [of _ e1] exI [of _ e2] exI [of _ e3]) (simp add: f1 ce2)
qed

subsection \<open>The main thread\<close>

text \<open>
  C38: on the interpreter, whatever the threads do and whether \<open>RunThreads\<close> ends well or not, when it returns every
  register the backend can read, the vector registers, the floating-point control and status and the thread pointers
  are those of the caller.
\<close>
theorem main_thread_registers:
  assumes "be_of E = interp_backend fuel simd H" and "RunThreads E e = Some (r, e')"
  shows "(\<forall>q. interp_RegRead q (cpu_of e') = interp_RegRead q (cpu_of e)) \<and> c_V (cpu_of e') = c_V (cpu_of e) \<and>
    c_FPCR (cpu_of e') = c_FPCR (cpu_of e) \<and> c_FPSR (cpu_of e') = c_FPSR (cpu_of e) \<and>
    c_TPIDR (cpu_of e') = c_TPIDR (cpu_of e) \<and> c_TPIDRRO (cpu_of e') = c_TPIDRRO (cpu_of e)"
proof (cases "anyRunnable e")
  case False
  then show ?thesis using assms(2) by (simp add: RunThreads_def)
next
  case True
  then obtain e1 where "e' = snd (with_be (RestoreCtx (be_of E) (Some (SaveContext (cpu_of e)))) e1)"
    using assms by (auto simp: RunThreads_def interp_backend_def)
  then have "cpu_of e' = RestoreContext (SaveContext (cpu_of e)) (cpu_of e1)"
    by (simp add: with_be_cpu assms(1) interp_backend_def interp_RestoreContext_def)
  then show ?thesis by (simp add: restored_reads) (simp add: RestoreContext_def SaveContext_def)
qed

text \<open>A thread whose run leaves another program counter behind.\<close>

definition thread_emu :: "(cpu, context_regs option, unit, unit, unit) emu" where
  "thread_emu = call_emu\<lparr>e_fibers := [\<lparr>fb_id = 1, fb_routine = 0x12000400, fb_arg = 7, fb_sp = 0x50000000, fb_started = False,
     fb_ctx = None, fb_state = FsRunnable, fb_waitAddr = 0, fb_slices = 0, fb_ret = 0\<rparr>]\<rparr>"

theorem main_thread_registers_witness:
  "\<exists>e'. RunThreads call_eenv thread_emu = Some ((True, 1), e') \<and> interp_RegRead 0 (cpu_of e') = interp_RegRead 0 New"
proof -
  have x: "\<not> k_Exited (e_k thread_emu)" "cpu_of thread_emu = New"
    using call_emu_inv(2) by (simp_all add: thread_emu_def)
      (simp add: call_emu_def sample_emu_def classRef_def vm_do_def fresh_emu_def boot_def split_def Let_def split: option.split)
  have "\<exists>e1 g. runFiberSlice call_eenv 0 thread_emu = Some (True, e1) \<and> e_fibers e1 = [g] \<and> fb_state g = FsDone"
    using x(1)
    by (simp add: runFiberSlice_def resume_fiber_def after_run_def call_start with_be_eq set_reg_def upd_fiber_def reg_def reg_or_zero_def
        call_env_be interp_backend_def interp_RegWrite_def interp_RegRead_def Let_def thread_emu_def)
  then obtain e1 g where s: "runFiberSlice call_eenv 0 thread_emu = Some (True, e1)" "e_fibers e1 = [g]" "fb_state g = FsDone" by blast
  have f: "\<exists>f. e_fibers thread_emu = [f] \<and> eligible f \<and> fb_slices f = 0" by (simp add: thread_emu_def eligible_def)
  then have "sched_rounds (Suc (Suc n)) call_eenv 0 thread_emu = Some ((True, 1), e1)" for n
    using s by (auto simp: eligible_def)
  from this [of 99998] have r: "sched_rounds 100000 call_eenv 0 thread_emu = Some ((True, 1), e1)"
    by (simp only: Suc_numeral add_num_simps)
  have "anyRunnable thread_emu" using f by (auto simp: anyRunnable_def)
  then obtain e' where run: "RunThreads call_eenv thread_emu = Some ((True, 1), e')"
    using r by (auto simp: RunThreads_def call_env_be interp_backend_def)
  have "interp_RegRead 0 (cpu_of e') = interp_RegRead 0 (cpu_of thread_emu)" using main_thread_registers [OF call_env_be run] by blast
  then show ?thesis using run x(2) by simp
qed

subsection \<open>Traps\<close>

abbreviation svc :: "16 word \<Rightarrow> u32" where "svc imm \<equiv> 0xd4000001 OR push_bit 5 (ucast imm)"
abbreviation brk :: "16 word \<Rightarrow> u32" where "brk imm \<equiv> 0xd4200000 OR push_bit 5 (ucast imm)"
abbreviation hlt :: "16 word \<Rightarrow> u32" where "hlt imm \<equiv> 0xd4400000 OR push_bit 5 (ucast imm)"

lemma insn_mask: "(0xffe0001f :: u32) = NOT (push_bit 5 (mask 16))"
  by (simp add: mask_eq_exp_minus_1)

lemma imm16_masked: "push_bit 5 (ucast (imm :: 16 word)) AND 0xffe0001f = (0 :: u32)"
  unfolding insn_mask by (rule bit_word_eqI) (auto simp: bit_simps dest: bit_imp_le_length)

lemma insn_imm16: "(i :: u32) = (i AND 0xffe0001f) OR push_bit 5 (ucast (ucast (drop_bit 5 i) :: 16 word))"
  unfolding insn_mask by (rule bit_word_eqI) (auto simp: bit_simps)

lemma svc_iff: "isSVCInsn i \<longleftrightarrow> (\<exists>imm. i = svc imm)"
  using insn_imm16 [of i] by (auto simp: isSVCInsn_def bit.conj_disj_distrib2 imm16_masked)

lemma trap_iff: "isTrapInsn i \<longleftrightarrow> (\<exists>imm. i = brk imm \<or> i = hlt imm)"
  using insn_imm16 [of i] by (auto simp: isTrapInsn_def bit.conj_disj_distrib2 imm16_masked)

definition unclaimed :: "u64 \<Rightarrow> ('b, 'x, 'h, 'r, 'p) emu \<Rightarrow> bool" where
  "unclaimed a e \<longleftrightarrow> a \<noteq> e_getEnvStub e \<and> e_replaced e a = None \<and> e_jniDispatch e a = None \<and> e_hostImpl e a = None \<and> e_stubs e a = None"

text \<open>
  C39: at a program counter whose preceding instruction is no stub, the interrupt handler stops the run on every
  \<open>BRK\<close> and \<open>HLT\<close>, even directly behind an \<open>SVC\<close>, and wherever no \<open>SVC\<close> precedes; it performs the guest's
  system call exactly when an \<open>SVC\<close> precedes and no trap is at the program counter.
\<close>
theorem traps_stop:
  assumes "unclaimed (reg E RegPC e - 4) e"
  shows "interrupt E e =
    (if (\<exists>imm. insnAt E (reg E RegPC e) e \<in> {Some (brk imm), Some (hlt imm)}) \<or>
        (\<forall>imm. insnAt E (reg E RegPC e - 4) e \<noteq> Some (svc imm))
     then stop_run E e
     else case guest_syscall E e of (True, e) \<Rightarrow> e | (False, e) \<Rightarrow> stop_run E e)"
proof -
  have "interrupt E e = (if isGuestSyscall E (reg E RegPC e) e then case guest_syscall E e of (True, e) \<Rightarrow> e | (False, e) \<Rightarrow> stop_run E e
      else stop_run E e)"
    using assms by (simp add: unclaimed_def interrupt_def onInterrupt_def Let_def)
  then show ?thesis
    by (auto simp: isGuestSyscall_def trap_iff svc_iff split: option.split)
qed

definition brk_mem :: "u64 \<Rightarrow> u8" where
  "brk_mem a = (if a = 0x100 then 1 else if a = 0x103 \<or> a = 0x107 then 0xd4 else if a = 0x106 then 0x20 else 0)"

text \<open>\<open>svc #0; brk #0\<close> at 0x100, stopped at the second instruction with 215 (munmap) in X8.\<close>

theorem traps_stop_witness:
  "let e = flat_emu [0, 0, 0, 0, 0, 0, 0, 0, 215, 0, 0, 0, 0, 0x104] NewVM
   in isSVCInsn 0xd4000001 \<and> interrupt (flat_eenv brk_mem) e = stop_run (flat_eenv brk_mem) e"
proof -
  let ?e = "flat_emu [0, 0, 0, 0, 0, 0, 0, 0, 215, 0, 0, 0, 0, 0x104] NewVM" and ?E = "flat_eenv brk_mem"
  have r: "reg ?E RegPC ?e = 0x104" using flat_regs [of brk_mem RegPC _ NewVM] by (simp add: jarg_def)
  have u: "unclaimed (reg ?E RegPC ?e - 4) ?e" unfolding r by (simp add: unclaimed_def flat_emu_def fresh_emu_def split_def Let_def)
  have u4: "[0..<4] = [0, 1, 2, 3 :: nat]" by code_simp
  have "ReadBytes ?E 0x104 4 ?e = Some [0, 0, 0x20, 0xd4]"
    by (simp add: ReadBytes_def kread_def flat_eenv_def flat_backend_def u4) (simp add: brk_mem_def)
  then have "insnAt ?E 0x104 ?e = Some 0xd4200000" by (simp add: insnAt_def)
  then have "\<exists>imm. insnAt ?E (reg ?E RegPC ?e) ?e \<in> {Some (brk imm), Some (hlt imm)}" unfolding r by (intro exI [of _ 0]) simp
  then have "interrupt ?E ?e = stop_run ?E ?e" using traps_stop [OF u] by (simp only: if_True simp_thms)
  then show ?thesis by (simp add: isSVCInsn_def)
qed

subsection \<open>Joining\<close>

lemma fiberHandle_inj: "i < 256 \<Longrightarrow> j < 256 \<Longrightarrow> fiberHandle i = fiberHandle j \<longleftrightarrow> i = j"
proof -
  have a: "fiberHandle i AND 0xff = of_nat i" if "i < 256" for i
  proof -
    have "(of_nat i AND 0xff :: u64) = take_bit 8 (of_nat i)" by (simp add: take_bit_eq_mask mask_eq_exp_minus_1)
    then show ?thesis using that by (simp add: fiberHandle_def bit.conj_disj_distrib2 take_bit_of_nat take_bit_nat_eq_self)
  qed
  assume ij: "i < 256" "j < 256"
  have "(of_nat i :: u64) = of_nat j \<longleftrightarrow> i = j" using ij by (simp add: word_of_nat_eq_iff take_bit_nat_eq_self)
  then show ?thesis using a [OF ij(1)] a [OF ij(2)] by metis
qed

text \<open>
  C40: as long as no more than 255 threads have been made, joining a thread by the handle \<open>pthread_create\<close> gave out
  stores that thread's result when it has finished, and null when it has not; but the 257th thread has the handle of the first.
\<close>
theorem thread_join:
  assumes "f \<in> set (e_fibers e)" and "distinct (map fb_id (e_fibers e))" and "\<forall>g \<in> set (e_fibers e). fb_id g < 256"
    and "reg E 0 e = fiberHandle (fb_id f)" and "reg E 1 e = p" and "p \<noteq> 0"
  shows "hostPthreadJoin E e = set_reg E 0 0 (snd (putU64 E p (if fb_state f = FsDone then fb_ret f else 0) e)) \<and>
    fiberHandle 257 = fiberHandle 1"
proof -
  have "find (\<lambda>g. fiberHandle (fb_id g) = fiberHandle (fb_id f)) (e_fibers e) = Some f"
  proof -
    have a: "find (\<lambda>g. fiberHandle (fb_id g) = fiberHandle (fb_id f)) fs = find (\<lambda>g. fb_id g = fb_id f) fs"
      if "\<forall>g \<in> set fs. fb_id g < 256" for fs
      using that assms(1,3) by (intro find_cong) (auto simp: fiberHandle_inj)
    have b: "find (\<lambda>g. fb_id g = fb_id f) fs = Some f" if "f \<in> set fs" "distinct (map fb_id fs)" for fs
      using that by (induction fs) auto
    show ?thesis unfolding a [OF assms(3)] by (rule b [OF assms(1,2)])
  qed
  then show ?thesis
    using assms(4-6) by (simp add: hostPthreadJoin_def fiberByHandle_def Let_def) (simp add: fiberHandle_def)
qed

definition joined_emu :: "(nat \<Rightarrow> u64, unit, unit, unit, unit) emu" where
  "joined_emu = (flat_emu [0x7302, 0x8000] NewVM)\<lparr>e_fibers := map (\<lambda>i. \<lparr>fb_id = i, fb_routine = 0, fb_arg = 0, fb_sp = 0,
     fb_started = True, fb_ctx = None, fb_state = FsDone, fb_waitAddr = 0, fb_slices = 0, fb_ret = of_nat i + 40\<rparr>) [1, 2]\<rparr>"

theorem thread_join_witness:
  "hostPthreadJoin (flat_eenv (\<lambda>_. 0)) joined_emu =
     set_reg (flat_eenv (\<lambda>_. 0)) 0 0 (snd (putU64 (flat_eenv (\<lambda>_. 0)) 0x8000 42 joined_emu))"
proof -
  let ?f = "\<lparr>fb_id = 2, fb_routine = 0, fb_arg = 0, fb_sp = 0, fb_started = True, fb_ctx = None, fb_state = FsDone, fb_waitAddr = 0,
    fb_slices = 0, fb_ret = 42\<rparr> :: unit fiber"
  have r: "reg (flat_eenv (\<lambda>_. 0)) 0 joined_emu = 0x7302" "reg (flat_eenv (\<lambda>_. 0)) 1 joined_emu = 0x8000"
    using flat_regs [of "\<lambda>_. 0" _ "[0x7302, 0x8000]" NewVM] by (simp_all add: joined_emu_def jarg_def reg_def)
  have "?f \<in> set (e_fibers joined_emu)" "distinct (map fb_id (e_fibers joined_emu))" "\<forall>g \<in> set (e_fibers joined_emu). fb_id g < 256"
    by (simp_all add: joined_emu_def)
  from thread_join [OF this _ r(2)] show ?thesis by (simp add: r(1) fiberHandle_def)
qed

end
