(* ===== verification/Spec2Isabelle.thy ===== *)
theory Spec2Isabelle
  imports Ldst_Props Loader_Props Address_Space Registry Vfs_Props Dex_Props Emu_Props
begin

text \<open>
  gonidbg: an emulator for Android native libraries in Go.
\<close>

end
